(* ===== verification/Rydd_Prelude.thy ===== *)
theory Rydd_Prelude
  imports Main "HOL-Library.Signed_Division"
begin

text \<open>
  What the components share: Go's \<open>int64\<close> (as \<open>int\<close> with the wrap-around written out),
  \<open>time.Time\<close> and \<open>time.Duration\<close>, the error values of the packages \<open>state\<close> and
  \<open>worker\<close> with \<open>errors.Join\<close> and \<open>errors.Is\<close>, the outcomes of one database
  transaction, lower-case hexadecimal tokens, and the collections the component proofs use.
\<close>

named_theorems go_arith \<open>int64 and time operations, unfolded to integer arithmetic\<close>
named_theorems go_valid \<open>validity predicates of saved records\<close>
named_theorems go_step \<open>definitions of state transitions\<close>

section \<open>Machine integers\<close>

abbreviation maxInt64 :: int where "maxInt64 \<equiv> 9223372036854775807"

abbreviation maxUint64 :: int where "maxUint64 \<equiv> 18446744073709551615"

abbreviation minInt64 :: int where "minInt64 \<equiv> - 9223372036854775808"

text \<open>The two's complement value of an integer at 64 bits: what Go's \<open>+\<close>, \<open>-\<close> and
  \<open>*\<close> on \<open>int64\<close> return.\<close>

definition wrap64 :: "int \<Rightarrow> int" where
  "wrap64 x = (x + 9223372036854775808) mod 18446744073709551616 - 9223372036854775808"

definition i64 :: "int \<Rightarrow> bool" where
  "i64 x \<longleftrightarrow> minInt64 \<le> x \<and> x \<le> maxInt64"

definition i64_opt :: "int option \<Rightarrow> bool" where
  "i64_opt x \<longleftrightarrow> (case x of None \<Rightarrow> True | Some n \<Rightarrow> i64 n)"

definition add64 :: "int \<Rightarrow> int \<Rightarrow> int" where "add64 a b = wrap64 (a + b)"

definition sub64 :: "int \<Rightarrow> int \<Rightarrow> int" where "sub64 a b = wrap64 (a - b)"

definition mul64 :: "int \<Rightarrow> int \<Rightarrow> int" where "mul64 a b = wrap64 (a * b)"

text \<open>\<open>time.Time.Sub\<close> saturates at the two ends of \<open>time.Duration\<close>.\<close>

definition sat64 :: "int \<Rightarrow> int" where
  "sat64 x = max minInt64 (min maxInt64 x)"

lemma wrap64_id [simp]: "i64 x \<Longrightarrow> wrap64 x = x"
  by (simp add: wrap64_def i64_def)

lemma wrap64_i64 [simp]: "i64 (wrap64 x)"
proof -
  have "0 \<le> (x + 9223372036854775808) mod 18446744073709551616"
    and "(x + 9223372036854775808) mod 18446744073709551616 < 18446744073709551616"
    by simp_all
  then show ?thesis unfolding wrap64_def i64_def by linarith
qed

lemma wrap64_eq_iff: "wrap64 x = x \<longleftrightarrow> i64 x"
  by (metis wrap64_id wrap64_i64)

lemma sat64_i64 [simp]: "i64 (sat64 x)"
  by (simp add: sat64_def i64_def)

lemma sat64_id: "i64 x \<Longrightarrow> sat64 x = x"
  by (simp add: sat64_def i64_def)

lemma sat64_le_iff [simp]:
  "minInt64 \<le> c \<Longrightarrow> c < maxInt64 \<Longrightarrow> sat64 x \<le> c \<longleftrightarrow> x \<le> c"
  by (auto simp: sat64_def)

lemma i64_opt_simps [simp]: "i64_opt None" "i64_opt (Some n) \<longleftrightarrow> i64 n"
  by (simp_all add: i64_opt_def)

lemma add64_id: "i64 (a + b) \<Longrightarrow> add64 a b = a + b"
  by (simp add: add64_def)

lemma sub64_id: "i64 (a - b) \<Longrightarrow> sub64 a b = a - b"
  by (simp add: sub64_def)

lemma arith64_i64 [simp]: "i64 (add64 a b)" "i64 (sub64 a b)" "i64 (mul64 a b)"
  by (simp_all add: add64_def sub64_def mul64_def)

text \<open>The overflow guard of the sources, \<open>x > math.MaxInt64 - y\<close>: for a non-negative
  \<open>y\<close> the subtraction does not wrap, and passing the guard makes the addition exact.\<close>

lemma headroom64 [simp]: "0 \<le> y \<Longrightarrow> i64 y \<Longrightarrow> sub64 maxInt64 y = maxInt64 - y"
  by (simp add: sub64_def i64_def)

lemma guarded_add64:
  assumes "0 \<le> x" "0 \<le> y" "x \<le> maxInt64 - y"
  shows "add64 y x = y + x" "i64 (y + x)"
  using assms by (simp_all add: add64_def i64_def)

lemma succ64 [simp]: "i64 x \<Longrightarrow> x \<noteq> maxInt64 \<Longrightarrow> add64 x 1 = x + 1"
  by (simp add: add64_def i64_def)

lemma sub64_nonneg [simp]:
  "0 \<le> a \<Longrightarrow> 0 \<le> b \<Longrightarrow> i64 a \<Longrightarrow> i64 b \<Longrightarrow> sub64 a b = a - b"
  by (simp add: sub64_def i64_def)

section \<open>Durations and times\<close>

abbreviation second_ns :: int where "second_ns \<equiv> 1000000000"
abbreviation minute_ns :: int where "minute_ns \<equiv> 60000000000"
abbreviation hour_ns :: int where "hour_ns \<equiv> 3600000000000"
abbreviation day_ns :: int where "day_ns \<equiv> 86400000000000"

text \<open>
  A \<open>time.Time\<close> is an instant, counted in nanoseconds from the Unix epoch, and whether
  its location is \<open>time.UTC\<close>. Wall-clock readings of the program have their monotonic part
  stripped (\<open>Round(0)\<close>); readings of the elapsed clock are only compared with one another,
  so they are instants of a second clock. Go's zero time is the first instant of year 1.
\<close>

record gotime =
  t_ns :: int
  t_utc :: bool

definition zero_ns :: int where "zero_ns = - 62135596800000000000"

definition zeroTime :: gotime where "zeroTime = \<lparr>t_ns = zero_ns, t_utc = True\<rparr>"

definition isZero :: "gotime \<Rightarrow> bool" where "isZero t \<longleftrightarrow> t_ns t = zero_ns"

definition unixTime :: "int \<Rightarrow> gotime" where "unixTime n = \<lparr>t_ns = n, t_utc = False\<rparr>"

definition toUTC :: "gotime \<Rightarrow> gotime" where "toUTC t = t\<lparr>t_utc := True\<rparr>"

definition unixNano :: "gotime \<Rightarrow> int" where "unixNano t = wrap64 (t_ns t)"

definition tBefore :: "gotime \<Rightarrow> gotime \<Rightarrow> bool" where "tBefore a b \<longleftrightarrow> t_ns a < t_ns b"

definition tAfter :: "gotime \<Rightarrow> gotime \<Rightarrow> bool" where "tAfter a b \<longleftrightarrow> t_ns b < t_ns a"

definition tEqual :: "gotime \<Rightarrow> gotime \<Rightarrow> bool" where "tEqual a b \<longleftrightarrow> t_ns a = t_ns b"

definition tAdd :: "gotime \<Rightarrow> int \<Rightarrow> gotime" where "tAdd t d = t\<lparr>t_ns := t_ns t + d\<rparr>"

definition tSub :: "gotime \<Rightarrow> gotime \<Rightarrow> int" where "tSub a b = sat64 (t_ns a - t_ns b)"

text \<open>\<open>Round(0)\<close> strips the monotonic reading, which the instants here do not carry.\<close>

definition round0 :: "gotime \<Rightarrow> gotime" where "round0 t = t"

definition maxTime :: "gotime \<Rightarrow> gotime \<Rightarrow> gotime" where
  "maxTime a b = (if tAfter b a then b else a)"

definition minTime :: "gotime \<Rightarrow> gotime \<Rightarrow> gotime" where
  "minTime a b = (if tBefore a b then a else b)"

lemmas time_order_defs [go_arith] = tBefore_def tAfter_def tEqual_def

lemma time_simps [simp]:
  "t_ns (toUTC t) = t_ns t" "t_utc (toUTC t)" "t_ns (tAdd t d) = t_ns t + d"
  "t_utc (tAdd t d) = t_utc t" "t_ns (unixTime n) = n" "round0 t = t"
  "t_ns zeroTime = zero_ns" "toUTC (toUTC t) = toUTC t"
  by (simp_all add: toUTC_def tAdd_def unixTime_def round0_def zeroTime_def)

lemma maxTime_ns [simp]: "t_ns (maxTime a b) = max (t_ns a) (t_ns b)"
  by (simp add: maxTime_def tAfter_def)

lemma minTime_ns [simp]: "t_ns (minTime a b) = min (t_ns a) (t_ns b)"
  by (simp add: minTime_def tBefore_def)

lemma toUTC_utc: "t_utc t \<Longrightarrow> toUTC t = t"
  by (simp add: toUTC_def)

text \<open>A saturating difference keeps the sign of the exact one.\<close>

lemma tSub_pos_iff: "0 < tSub a b \<longleftrightarrow> t_ns b < t_ns a"
  by (auto simp: tSub_def sat64_def)

lemma tSub_nonpos_iff: "tSub a b \<le> 0 \<longleftrightarrow> t_ns a \<le> t_ns b"
  by (auto simp: tSub_def sat64_def)

section \<open>Tokens\<close>

text \<open>\<open>metadataDigest\<close> of the package \<open>state\<close>: a lower-case hexadecimal token of a given
  length, with the byte ranges the loop of the source refuses.\<close>

definition digestByte :: "char \<Rightarrow> bool" where
  "digestByte c =
     (let n = (of_char c :: nat) in \<not> (n < 48 \<or> (57 < n \<and> n < 97) \<or> 102 < n))"

definition metadataDigest :: "string \<Rightarrow> nat \<Rightarrow> bool" where
  "metadataDigest token n \<longleftrightarrow> length token = n \<and> list_all digestByte token"

section \<open>Error values\<close>

text \<open>Every \<open>errors.New\<close> value of the sources is its own sentinel; driver errors carry a
  description; \<open>ErrJoin\<close> is \<open>errors.Join\<close> of two errors; \<open>PublicationError\<close> is the
  \<open>CPUChargeAdmissionPublicationError\<close> of an operation, a request and a cause, which unwraps to
  the two publication sentinels and the cause; \<open>SourceError\<close> is the \<open>sourceError\<close> of the package
  \<open>powerinfo\<close> with its reason.\<close>

datatype err =
  Sentinel nat | StorageFailure string | ErrJoin err err | PublicationError string string err
  | SourceError string

abbreviation ContextCanceled :: err where "ContextCanceled \<equiv> Sentinel 1"
abbreviation ContextDeadlineExceeded :: err where "ContextDeadlineExceeded \<equiv> Sentinel 2"
abbreviation ErrCPUFeedbackInvalid :: err where "ErrCPUFeedbackInvalid \<equiv> Sentinel 3"
abbreviation ErrCPUFeedbackUnavailable :: err where "ErrCPUFeedbackUnavailable \<equiv> Sentinel 4"
abbreviation ErrCPUFeedbackCorrupt :: err where "ErrCPUFeedbackCorrupt \<equiv> Sentinel 5"
abbreviation ErrCPUFeedbackReadOnly :: err where "ErrCPUFeedbackReadOnly \<equiv> Sentinel 6"
abbreviation ErrCPUFeedbackDeferred :: err where "ErrCPUFeedbackDeferred \<equiv> Sentinel 7"
abbreviation ErrCPUFeedbackClockRollback :: err where "ErrCPUFeedbackClockRollback \<equiv> Sentinel 8"
abbreviation ErrCPUFeedbackPending :: err where "ErrCPUFeedbackPending \<equiv> Sentinel 9"
abbreviation ErrCPUFeedbackStale :: err where "ErrCPUFeedbackStale \<equiv> Sentinel 10"
abbreviation ErrCPUFeedbackPublication :: err where "ErrCPUFeedbackPublication \<equiv> Sentinel 11"
abbreviation ErrCPUChargesInvalid :: err where "ErrCPUChargesInvalid \<equiv> Sentinel 12"
abbreviation ErrCPUChargesUnavailable :: err where "ErrCPUChargesUnavailable \<equiv> Sentinel 13"
abbreviation ErrCPUChargesCorrupt :: err where "ErrCPUChargesCorrupt \<equiv> Sentinel 14"
abbreviation ErrCPUChargesReadOnly :: err where "ErrCPUChargesReadOnly \<equiv> Sentinel 15"
abbreviation ErrCPUChargesStale :: err where "ErrCPUChargesStale \<equiv> Sentinel 16"
abbreviation ErrCPUChargesOverflow :: err where "ErrCPUChargesOverflow \<equiv> Sentinel 17"
abbreviation ErrCPUChargesClockRollback :: err where "ErrCPUChargesClockRollback \<equiv> Sentinel 18"
abbreviation ErrCPUChargesUnknown :: err where "ErrCPUChargesUnknown \<equiv> Sentinel 19"
abbreviation ErrCPUChargesPublication :: err where "ErrCPUChargesPublication \<equiv> Sentinel 20"
abbreviation ErrCPUChargeAdmissionInvalid :: err where "ErrCPUChargeAdmissionInvalid \<equiv> Sentinel 21"
abbreviation ErrCPUChargeAdmissionUnavailable :: err where "ErrCPUChargeAdmissionUnavailable \<equiv> Sentinel 22"
abbreviation ErrCPUChargeAdmissionCorrupt :: err where "ErrCPUChargeAdmissionCorrupt \<equiv> Sentinel 23"
abbreviation ErrCPUChargeAdmissionPolicyRequired :: err where "ErrCPUChargeAdmissionPolicyRequired \<equiv> Sentinel 24"
abbreviation ErrCPUChargeAdmissionAuthority :: err where "ErrCPUChargeAdmissionAuthority \<equiv> Sentinel 25"
abbreviation ErrCPUChargeAdmissionPublication :: err where "ErrCPUChargeAdmissionPublication \<equiv> Sentinel 26"
abbreviation ErrMetadataInvalid :: err where "ErrMetadataInvalid \<equiv> Sentinel 27"
abbreviation ErrMetadataUnavailable :: err where "ErrMetadataUnavailable \<equiv> Sentinel 28"
abbreviation ErrMetadataReadOnly :: err where "ErrMetadataReadOnly \<equiv> Sentinel 29"
abbreviation ErrMetadataCorrupt :: err where "ErrMetadataCorrupt \<equiv> Sentinel 30"
abbreviation ErrMetadataOverflow :: err where "ErrMetadataOverflow \<equiv> Sentinel 31"
abbreviation ErrMetadataDeferred :: err where "ErrMetadataDeferred \<equiv> Sentinel 32"
abbreviation ErrMetadataClockRollback :: err where "ErrMetadataClockRollback \<equiv> Sentinel 33"
abbreviation ErrMetadataDailyQuota :: err where "ErrMetadataDailyQuota \<equiv> Sentinel 34"
abbreviation ErrMetadataOutstanding :: err where "ErrMetadataOutstanding \<equiv> Sentinel 35"
abbreviation ErrMetadataStale :: err where "ErrMetadataStale \<equiv> Sentinel 36"
abbreviation ErrMetadataExpired :: err where "ErrMetadataExpired \<equiv> Sentinel 37"
abbreviation ErrMetadataRollback :: err where "ErrMetadataRollback \<equiv> Sentinel 38"
abbreviation ErrMetadataExhausted :: err where "ErrMetadataExhausted \<equiv> Sentinel 39"
abbreviation ErrDispatchDeferred :: err where "ErrDispatchDeferred \<equiv> Sentinel 40"
abbreviation ErrDispatchInvalid :: err where "ErrDispatchInvalid \<equiv> Sentinel 41"
abbreviation ErrInventoryStateBudgetInput :: err where "ErrInventoryStateBudgetInput \<equiv> Sentinel 42"
abbreviation ErrInventoryStateBudgetClock :: err where "ErrInventoryStateBudgetClock \<equiv> Sentinel 43"
abbreviation ErrAPIPacingInput :: err where "ErrAPIPacingInput \<equiv> Sentinel 44"
abbreviation ErrWallClockRollback :: err where "ErrWallClockRollback \<equiv> Sentinel 45"
abbreviation ErrPowerElapsedRollback :: err where "ErrPowerElapsedRollback \<equiv> Sentinel 46"
abbreviation ErrPowerObservationInvalid :: err where "ErrPowerObservationInvalid \<equiv> Sentinel 47"
abbreviation ErrNoRows :: err where "ErrNoRows \<equiv> Sentinel 48"

text \<open>\<open>errors.Is\<close>: an error matches a target when it is the target or joins one that matches.\<close>

fun errIs :: "err \<Rightarrow> err \<Rightarrow> bool" where
  "errIs (ErrJoin a b) t \<longleftrightarrow> ErrJoin a b = t \<or> errIs a t \<or> errIs b t"
| "errIs (Sentinel n) t \<longleftrightarrow> Sentinel n = t"
| "errIs (StorageFailure m) t \<longleftrightarrow> StorageFailure m = t"
| "errIs (SourceError m) t \<longleftrightarrow> SourceError m = t"
| "errIs (PublicationError op i c) t \<longleftrightarrow> PublicationError op i c = t \<or>
     ErrCPUChargeAdmissionPublication = t \<or> ErrCPUChargesPublication = t \<or> errIs c t"

lemma errIs_refl [simp]: "errIs e e"
  by (cases e) simp_all

definition optIs :: "err option \<Rightarrow> err \<Rightarrow> bool" where
  "optIs e t \<longleftrightarrow> (case e of None \<Rightarrow> False | Some x \<Rightarrow> errIs x t)"

lemma optIs_simps [simp]: "\<not> optIs None t" "optIs (Some x) t = errIs x t"
  by (simp_all add: optIs_def)

text \<open>\<open>errors.Join\<close> drops nil arguments.\<close>

definition joinOpt :: "err option \<Rightarrow> err option \<Rightarrow> err option" where
  "joinOpt a b = (case a of None \<Rightarrow> b | Some x \<Rightarrow> (case b of None \<Rightarrow> Some x | Some y \<Rightarrow> Some (ErrJoin x y)))"

section \<open>One database transaction\<close>

text \<open>
  What the context, the SQL driver and the serializer answer during one call, in the order the
  code asks: whether the context is nil, its error at entry, the errors of opening the
  transaction, of reading the saved rows and of executing the statements, whether the encoded
  record fits its size bound, the context's error before the commit, the error of the commit,
  whether a commit that reported an error took effect all the same, and the context's error
  after the commit.
\<close>

record call_env =
  ctx_nil :: bool
  ctx_entry :: "err option"
  begin_err :: "err option"
  query_err :: "err option"
  ctx_query :: "err option"
  json_fits :: bool
  exec_err :: "err option"
  ctx_before :: "err option"
  commit_err :: "err option"
  commit_applied :: bool
  ctx_after :: "err option"

definition good_env :: call_env where
  "good_env = \<lparr>ctx_nil = False, ctx_entry = None, begin_err = None, query_err = None,
     ctx_query = None, json_fits = True, exec_err = None, ctx_before = None, commit_err = None,
     commit_applied = True, ctx_after = None\<rparr>"

text \<open>What the database holds after the commit was asked for: the new contents when it
  succeeded, and either when it reported an error.\<close>

definition afterCommit :: "call_env \<Rightarrow> 'd \<Rightarrow> 'd \<Rightarrow> 'd" where
  "afterCommit env old new =
     (if commit_err env = None \<or> commit_applied env then new else old)"

lemma afterCommit_cases: "afterCommit env old new = old \<or> afterCommit env old new = new"
  by (simp add: afterCommit_def)

end
