(* ===== verification/CPU_Feedback.thy ===== *)
theory CPU_Feedback
  imports Rydd_Prelude
begin

text \<open>
  \<^verbatim>\<open>src/internal/state/cpu_feedback.go\<close>: the bounded one percent feedback formula and the
  durable CPU window of the experimental inventory dispatch. One row records the window that was
  begun last; it is pending until it is settled with a measurement or recovered after an
  interruption, and a settled or recovered window may defer the next one by a backoff.
\<close>

section \<open>Times and the feedback formula\<close>

text \<open>The instants the ledgers can store: positive nanoseconds that fit \<open>int64\<close>.\<close>

definition okTime :: "gotime \<Rightarrow> bool" where
  "okTime t \<longleftrightarrow> 0 < t_ns t \<and> t_ns t \<le> maxInt64"

definition cpuFeedbackTime :: "gotime \<Rightarrow> err + gotime" where
  "cpuFeedbackTime at0 =
     (let at = toUTC at0; n = unixNano at
      in if n \<le> 0 \<or> \<not> tEqual (unixTime n) at then Inl ErrCPUFeedbackInvalid else Inr at)"

definition cpuFeedbackAdd :: "gotime \<Rightarrow> int \<Rightarrow> err + gotime" where
  "cpuFeedbackAdd at wait =
     (if wait < 0 \<or> wait > hour_ns \<or> unixNano at > sub64 maxInt64 wait
      then Inl ErrCPUFeedbackInvalid
      else cpuFeedbackTime (tAdd at wait))"

definition CPUFeedbackWait :: "int \<Rightarrow> int \<Rightarrow> int \<times> bool" where
  "CPUFeedbackWait cpu elapsed =
     (if cpu < 0 \<or> elapsed \<le> 0 then (0, False)
      else let headroom = sub64 cpu (elapsed sdiv 100)
           in if headroom \<le> 0 then (0, False)
              else if headroom > hour_ns sdiv 100 + 1 then (hour_ns, True)
              else let wait = sub64 (mul64 headroom 100) (elapsed smod 100)
                   in if wait > hour_ns then (hour_ns, True) else (wait, False))"

lemma cpuFeedbackTime_iff [simp]:
  "cpuFeedbackTime at = Inr t \<longleftrightarrow> okTime at \<and> t = toUTC at"
proof -
  have "wrap64 (t_ns at) = t_ns at \<longleftrightarrow> minInt64 \<le> t_ns at \<and> t_ns at \<le> maxInt64"
    by (simp add: wrap64_eq_iff i64_def)
  then show ?thesis
    by (auto simp: cpuFeedbackTime_def okTime_def unixNano_def tEqual_def Let_def)
qed

lemma cpuFeedbackTime_ok: "okTime at \<Longrightarrow> cpuFeedbackTime at = Inr (toUTC at)"
  by simp

lemma cpuFeedbackTime_bad: "cpuFeedbackTime at = Inl e \<longleftrightarrow> \<not> okTime at \<and> e = ErrCPUFeedbackInvalid"
proof -
  have "cpuFeedbackTime at = Inl ErrCPUFeedbackInvalid \<or> cpuFeedbackTime at = Inr (toUTC at)"
    by (simp add: cpuFeedbackTime_def Let_def)
  moreover have "cpuFeedbackTime at = Inr (toUTC at) \<longleftrightarrow> okTime at" by simp
  ultimately show ?thesis by (metis sum.distinct(1) sum.inject(1))
qed

lemma isl_cpuFeedbackTime [simp]: "isl (cpuFeedbackTime at) = (\<not> okTime at)"
proof (cases "okTime at")
  case True
  then show ?thesis by (simp add: cpuFeedbackTime_ok)
next
  case False
  then have "cpuFeedbackTime at = Inl ErrCPUFeedbackInvalid" by (simp add: cpuFeedbackTime_bad)
  then show ?thesis using False by simp
qed

lemma okTime_i64 [simp]: "okTime t \<Longrightarrow> i64 (t_ns t)"
  by (simp add: okTime_def i64_def)

lemma unixNano_ok [simp]: "okTime t \<Longrightarrow> unixNano t = t_ns t"
  by (simp add: unixNano_def)

lemma okTime_toUTC [simp]: "okTime (toUTC t) = okTime t"
  by (simp add: okTime_def)

lemma cpuFeedbackAdd_iff:
  assumes "okTime at"
  shows "cpuFeedbackAdd at wait = Inr t \<longleftrightarrow>
    0 \<le> wait \<and> wait \<le> hour_ns \<and> t_ns at + wait \<le> maxInt64 \<and> t = toUTC (tAdd at wait)"
proof (cases "0 \<le> wait \<and> wait \<le> hour_ns")
  case True
  then have "sub64 maxInt64 wait = maxInt64 - wait"
    by (simp add: sub64_def i64_def)
  with True assms show ?thesis
    by (auto simp: cpuFeedbackAdd_def okTime_def)
next
  case False
  then show ?thesis by (auto simp: cpuFeedbackAdd_def)
qed

lemma cpuFeedbackAdd_err: "cpuFeedbackAdd at wait = Inl e \<Longrightarrow> e = ErrCPUFeedbackInvalid"
  by (auto simp: cpuFeedbackAdd_def cpuFeedbackTime_bad split: if_splits)

text \<open>For the counters the callers pass, the divide-first formula is exactly one hundred times
  the CPU time less the elapsed time, clipped to the range from zero to one hour.\<close>

lemma sdiv_smod_100:
  assumes "0 < (e::int)" shows "e sdiv 100 = e div 100" "e smod 100 = e mod 100"
  using assms by (simp_all add: signed_divide_int_def signed_modulo_int_def)

lemma CPUFeedbackWait_exact:
  assumes "0 \<le> cpu" "0 < elapsed" "i64 cpu" "i64 elapsed"
  shows "CPUFeedbackWait cpu elapsed =
    (min hour_ns (max 0 (100 * cpu - elapsed)), hour_ns < 100 * cpu - elapsed)"
proof -
  define q where "q = elapsed div 100"
  define r where "r = elapsed mod 100"
  have e: "elapsed = 100 * q + r" and r: "0 \<le> r" "r < 100" and q: "0 \<le> q"
    using assms(2) by (simp_all add: q_def r_def)
  have qi: "i64 q" using assms(4) e r q by (simp add: i64_def)
  have h: "sub64 cpu (elapsed sdiv 100) = cpu - q"
    using assms q qi sdiv_smod_100 [OF assms(2)] by (simp add: q_def)
  show ?thesis
  proof (cases "0 < cpu - q \<and> cpu - q \<le> 36000000001")
    case True
    then have m: "mul64 (cpu - q) 100 = (cpu - q) * 100"
      by (simp add: mul64_def i64_def)
    have "sub64 (mul64 (cpu - q) 100) (elapsed smod 100) = (cpu - q) * 100 - r"
      unfolding m sdiv_smod_100 [OF assms(2)] r_def [symmetric]
      using True r by (simp add: sub64_def i64_def)
    then show ?thesis
      using True assms h e r by (auto simp: CPUFeedbackWait_def Let_def)
  next
    case False
    then show ?thesis
      using assms h e r by (auto simp: CPUFeedbackWait_def Let_def)
  qed
qed

lemma CPUFeedbackWait_range:
  assumes "i64 cpu" "i64 elapsed"
  shows "0 \<le> fst (CPUFeedbackWait cpu elapsed)" "fst (CPUFeedbackWait cpu elapsed) \<le> hour_ns"
proof -
  have "0 \<le> fst (CPUFeedbackWait cpu elapsed) \<and> fst (CPUFeedbackWait cpu elapsed) \<le> hour_ns"
  proof (cases "0 \<le> cpu \<and> 0 < elapsed")
    case True
    then show ?thesis using CPUFeedbackWait_exact assms by simp
  next
    case False
    then show ?thesis by (auto simp: CPUFeedbackWait_def)
  qed
  then show "0 \<le> fst (CPUFeedbackWait cpu elapsed)" "fst (CPUFeedbackWait cpu elapsed) \<le> hour_ns"
    by simp_all
qed

section \<open>The window record and the saved state\<close>

text \<open>The reason strings of the two CPU ledgers; \<open>RNone\<close> is the empty string.\<close>

datatype cpu_reason =
    RNone | RUnavailable | RInvalid | RRegressed | RElapsedInvalid | RClockRollback
  | RInterruptedSession | RGracefulTail | RInterruptedWindow | ROther string

datatype feedback_status =
    FUnavailable | FUntracked | FPending | FObserved | FCompletedUnknown | FRecoveredUnknown

datatype turn_kind = TSource | TMaintenance | TOther string

record CPUWindowRecord =
  w_Token :: string
  w_Instance :: string
  w_Kind :: turn_kind
  w_RootID :: int
  w_JobID :: int
  w_JobToken :: string
  w_JobLeaseUntil :: "gotime option"
  w_DispatchReservedAt :: gotime
  w_WindowStartedAt :: gotime
  w_RecordedAt :: gotime
  w_Status :: feedback_status
  w_SettledAt :: "gotime option"
  w_CPUTimeNS :: "int option"
  w_ElapsedNS :: "int option"
  w_Reason :: cpu_reason
  w_BackoffNS :: int
  w_BackoffCapped :: bool

record CPUFeedbackState =
  f_Available :: bool
  f_Status :: feedback_status
  f_TrackingStartedAt :: "gotime option"
  f_ClockHighWater :: "gotime option"
  f_LastBegunDispatchAt :: "gotime option"
  f_Window :: "CPUWindowRecord option"
  f_NextAllowedAt :: "gotime option"
  f_CompletedUnknown :: int
  f_RecoveredUnknown :: int
  f_CountSaturated :: bool

record CPUWindowMeasurement =
  m_CPUTimeNS :: "int option"
  m_ElapsedNS :: "int option"
  m_Reason :: cpu_reason

definition cpuFeedbackSnapshot :: "bool \<Rightarrow> CPUFeedbackState" where
  "cpuFeedbackSnapshot available =
     \<lparr>f_Available = available, f_Status = (if available then FUntracked else FUnavailable),
      f_TrackingStartedAt = None, f_ClockHighWater = None, f_LastBegunDispatchAt = None,
      f_Window = None, f_NextAllowedAt = None, f_CompletedUnknown = 0, f_RecoveredUnknown = 0,
      f_CountSaturated = False\<rparr>"

definition cpuUnknownReason :: "cpu_reason \<Rightarrow> bool" where
  "cpuUnknownReason r \<longleftrightarrow> r \<in> {RUnavailable, RInvalid, RRegressed, RElapsedInvalid}"

definition cpuMeasurementValid :: "CPUWindowMeasurement \<Rightarrow> bool" where
  "cpuMeasurementValid m =
     (if (case m_ElapsedNS m of Some e \<Rightarrow> e \<le> 0 | None \<Rightarrow> False) then False
      else case m_CPUTimeNS m of
          Some c \<Rightarrow> 0 \<le> c \<and> m_ElapsedNS m \<noteq> None \<and> m_Reason m = RNone
        | None \<Rightarrow> cpuUnknownReason (m_Reason m))"

definition sameCPUNS :: "int option \<Rightarrow> int option \<Rightarrow> bool" where
  "sameCPUNS a b \<longleftrightarrow> (case (a, b) of
       (None, None) \<Rightarrow> True | (Some x, Some y) \<Rightarrow> x = y | _ \<Rightarrow> False)"

lemma sameCPUNS_eq [simp]: "sameCPUNS a b \<longleftrightarrow> a = b"
  by (cases a; cases b) (simp_all add: sameCPUNS_def)

text \<open>\<open>validCPUFeedback\<close>, in the order of the source: the header, the times, the order of the
  times and the saturation flag, the kind of turn, and the status with its backoff.\<close>

definition validFeedbackHeader :: "CPUFeedbackState \<Rightarrow> CPUWindowRecord \<Rightarrow> bool" where
  "validFeedbackHeader s r \<longleftrightarrow>
     f_TrackingStartedAt s \<noteq> None \<and> f_ClockHighWater s \<noteq> None \<and> f_LastBegunDispatchAt s \<noteq> None \<and>
     0 \<le> f_CompletedUnknown s \<and> 0 \<le> f_RecoveredUnknown s \<and> metadataDigest (w_Token r) 64 \<and>
     metadataDigest (w_Instance r) 32 \<and> 0 < w_RootID r \<and> 0 \<le> w_BackoffNS r \<and>
     w_BackoffNS r \<le> hour_ns"

definition validFeedbackTimes :: "CPUFeedbackState \<Rightarrow> CPUWindowRecord \<Rightarrow> bool" where
  "validFeedbackTimes s r \<longleftrightarrow>
     list_all (\<lambda>t. case t of None \<Rightarrow> True | Some at \<Rightarrow> \<not> isl (cpuFeedbackTime at))
       [f_TrackingStartedAt s, f_ClockHighWater s, f_LastBegunDispatchAt s,
        Some (w_DispatchReservedAt r), Some (w_WindowStartedAt r), Some (w_RecordedAt r),
        w_JobLeaseUntil r, w_SettledAt r, f_NextAllowedAt s]"

definition validFeedbackOrder :: "CPUFeedbackState \<Rightarrow> CPUWindowRecord \<Rightarrow> bool" where
  "validFeedbackOrder s r \<longleftrightarrow>
     tEqual (the (f_LastBegunDispatchAt s)) (w_DispatchReservedAt r) \<and>
     \<not> tAfter (w_WindowStartedAt r) (w_RecordedAt r) \<and>
     \<not> tAfter (w_DispatchReservedAt r) (w_RecordedAt r) \<and>
     \<not> tAfter (the (f_TrackingStartedAt s)) (w_RecordedAt r) \<and>
     \<not> tBefore (the (f_ClockHighWater s)) (w_RecordedAt r) \<and>
     \<not> tBefore (the (f_ClockHighWater s)) (the (f_TrackingStartedAt s)) \<and>
     f_CountSaturated s = (f_CompletedUnknown s = maxInt64 \<or> f_RecoveredUnknown s = maxInt64)"

definition validFeedbackKind :: "CPUWindowRecord \<Rightarrow> bool" where
  "validFeedbackKind r \<longleftrightarrow> (case w_Kind r of
       TSource \<Rightarrow> 0 < w_JobID r \<and> metadataDigest (w_JobToken r) 32 \<and>
         (case w_JobLeaseUntil r of None \<Rightarrow> False | Some l \<Rightarrow> tAfter l (w_RecordedAt r))
     | TMaintenance \<Rightarrow> w_JobID r = 0 \<and> w_JobToken r = '''' \<and> w_JobLeaseUntil r = None
     | TOther _ \<Rightarrow> False)"

definition validFeedbackSettled :: "CPUFeedbackState \<Rightarrow> CPUWindowRecord \<Rightarrow> bool" where
  "validFeedbackSettled s r \<longleftrightarrow> (case w_Status r of
       FObserved \<Rightarrow>
         cpuMeasurementValid \<lparr>m_CPUTimeNS = w_CPUTimeNS r, m_ElapsedNS = w_ElapsedNS r,
           m_Reason = w_Reason r\<rparr> \<and>
         (case w_CPUTimeNS r of None \<Rightarrow> False | Some c \<Rightarrow>
            (w_BackoffNS r, w_BackoffCapped r) = CPUFeedbackWait c (the (w_ElapsedNS r)))
     | FCompletedUnknown \<Rightarrow>
         w_CPUTimeNS r = None \<and>
         cpuMeasurementValid \<lparr>m_CPUTimeNS = None, m_ElapsedNS = w_ElapsedNS r,
           m_Reason = w_Reason r\<rparr> \<and>
         w_BackoffNS r = 0 \<and> \<not> w_BackoffCapped r \<and> 1 \<le> f_CompletedUnknown s
     | FRecoveredUnknown \<Rightarrow>
         w_CPUTimeNS r = None \<and> w_ElapsedNS r = None \<and> w_Reason r = RInterruptedWindow \<and>
         w_BackoffNS r = hour_ns \<and> \<not> w_BackoffCapped r \<and> 1 \<le> f_RecoveredUnknown s
     | _ \<Rightarrow> False)"

definition validFeedbackStatus :: "CPUFeedbackState \<Rightarrow> CPUWindowRecord \<Rightarrow> bool" where
  "validFeedbackStatus s r =
     (if w_Status r = FPending
      then w_SettledAt r = None \<and> w_CPUTimeNS r = None \<and> w_ElapsedNS r = None \<and>
        w_Reason r = RNone \<and> w_BackoffNS r = 0 \<and> \<not> w_BackoffCapped r \<and> f_NextAllowedAt s = None
      else case w_SettledAt r of
          None \<Rightarrow> False
        | Some settled \<Rightarrow>
            \<not> tBefore settled (w_RecordedAt r) \<and> \<not> tBefore (the (f_ClockHighWater s)) settled \<and>
            validFeedbackSettled s r \<and>
            (if w_BackoffNS r = 0 then f_NextAllowedAt s = None
             else case cpuFeedbackAdd settled (w_BackoffNS r) of
                 Inl _ \<Rightarrow> False
               | Inr next \<Rightarrow> (case f_NextAllowedAt s of None \<Rightarrow> False | Some n \<Rightarrow> tEqual n next)))"

definition validCPUFeedback :: "CPUFeedbackState \<Rightarrow> bool" where
  "validCPUFeedback s \<longleftrightarrow> (case f_Window s of
       None \<Rightarrow> False
     | Some r \<Rightarrow> validFeedbackHeader s r \<and> validFeedbackTimes s r \<and> validFeedbackOrder s r \<and>
         validFeedbackKind r \<and> validFeedbackStatus s r)"

lemmas valid_feedback_defs [go_valid] =
  validFeedbackHeader_def validFeedbackTimes_def validFeedbackOrder_def validFeedbackKind_def
  validFeedbackStatus_def validFeedbackSettled_def

end
