(* ===== verification/CPU_Window.thy ===== *)
theory CPU_Window
  imports CPU_Feedback
begin

text \<open>
  The store operations of \<^verbatim>\<open>src/internal/state/cpu_feedback.go\<close>: the singleton row of
  \<open>worker_cpu_feedback\<close> with its columns, reading and writing it, and the three transitions
  \<open>BeginCPUWindow\<close>, \<open>SettleCPUWindow\<close> and \<open>RecoverCPUWindow\<close>. Every operation takes
  the outcomes of its transaction and returns the store it leaves behind.
\<close>

section \<open>The saved row\<close>

record feedback_row =
  c_tracked :: int
  c_high :: int
  c_dispatch :: int
  c_completed :: int
  c_recovered :: int
  c_saturated :: int
  c_token :: string
  c_instance :: string
  c_kind :: turn_kind
  c_root :: int
  c_job :: int
  c_job_token :: string
  c_lease :: "int option"
  c_reserved :: int
  c_started :: int
  c_recorded :: int
  c_status :: feedback_status
  c_settled :: "int option"
  c_cpu :: "int option"
  c_elapsed :: "int option"
  c_reason :: cpu_reason
  c_backoff :: int
  c_capped :: int
  c_next :: "int option"

text \<open>The row is absent, holds typed columns, or holds values of other types (or a second row
  beside it), which the reader reports as corrupt.\<close>

datatype saved_row = NoRow | UntypedRow | TypedRow feedback_row

record dispatch_row =
  d_last :: int
  d_next :: int
  d_chunks :: int
  d_day :: string

record job =
  j_ID :: int
  j_RootID :: int
  j_Kind :: string
  j_Path :: string
  j_Cursor :: string
  j_Attempts :: int
  j_Token :: string
  j_LeaseUntil :: gotime
  j_RootPath :: string
  j_RootIdentity :: string

definition ScanKind :: string where "ScanKind = ''inventory''"

record job_row =
  jr_id :: int
  jr_root :: int
  jr_kind :: string
  jr_status :: string
  jr_token :: string
  jr_lease :: int

record fairInventoryReceipt =
  rc_store :: nat
  rc_root :: int
  rc_path :: string
  rc_kind :: turn_kind
  rc_job :: "job option"
  rc_reservedAt :: gotime

record FairInventoryTurn =
  ft_RootID :: int
  ft_RootPath :: string
  ft_Kind :: turn_kind
  ft_Job :: "job option"
  ft_receipt :: "fairInventoryReceipt option"

definition newFairInventoryReceipt :: "nat \<Rightarrow> FairInventoryTurn \<Rightarrow> gotime \<Rightarrow> fairInventoryReceipt" where
  "newFairInventoryReceipt s turn reservedAt =
     \<lparr>rc_store = s, rc_root = ft_RootID turn, rc_path = ft_RootPath turn, rc_kind = ft_Kind turn,
      rc_job = ft_Job turn, rc_reservedAt = toUTC reservedAt\<rparr>"

text \<open>The parts of the store these operations use. \<open>fs_cursor\<close> is the answer of
  \<open>readFairInventoryCursor\<close> (the root and dispatch of the saved root turn).\<close>

record fstore =
  fs_id :: nat
  fs_readOnly :: bool
  fs_schema :: int
  fs_row :: saved_row
  fs_cursor :: "err + (int \<times> int)"
  fs_dispatch :: "err + dispatch_row option"
  fs_jobs :: "job_row list"

record CPUWindowMarker =
  mk_store :: nat
  mk_record :: CPUWindowRecord

definition savedTime :: "int \<Rightarrow> gotime" where "savedTime n = toUTC (unixTime n)"

definition rowWindow :: "feedback_row \<Rightarrow> CPUWindowRecord" where
  "rowWindow c = \<lparr>w_Token = c_token c, w_Instance = c_instance c, w_Kind = c_kind c,
     w_RootID = c_root c, w_JobID = c_job c, w_JobToken = c_job_token c,
     w_JobLeaseUntil = map_option savedTime (c_lease c),
     w_DispatchReservedAt = savedTime (c_reserved c), w_WindowStartedAt = savedTime (c_started c),
     w_RecordedAt = savedTime (c_recorded c), w_Status = c_status c,
     w_SettledAt = map_option savedTime (c_settled c), w_CPUTimeNS = c_cpu c,
     w_ElapsedNS = c_elapsed c, w_Reason = c_reason c, w_BackoffNS = c_backoff c,
     w_BackoffCapped = (c_capped c = 1)\<rparr>"

definition rowState :: "feedback_row \<Rightarrow> CPUFeedbackState" where
  "rowState c = (cpuFeedbackSnapshot True)\<lparr>f_Status := c_status c,
     f_TrackingStartedAt := Some (savedTime (c_tracked c)),
     f_ClockHighWater := Some (savedTime (c_high c)),
     f_LastBegunDispatchAt := Some (savedTime (c_dispatch c)),
     f_Window := Some (rowWindow c), f_NextAllowedAt := map_option savedTime (c_next c),
     f_CompletedUnknown := c_completed c, f_RecoveredUnknown := c_recovered c,
     f_CountSaturated := (c_saturated c = 1)\<rparr>"

definition cpuStorageError :: "call_env \<Rightarrow> err \<Rightarrow> err" where
  "cpuStorageError env e =
     (case ctx_query env of Some c \<Rightarrow> c | None \<Rightarrow> ErrJoin ErrCPUFeedbackCorrupt e)"

definition readCPUFeedback ::
  "call_env \<Rightarrow> saved_row \<Rightarrow> CPUFeedbackState \<times> err option" where
  "readCPUFeedback env row =
     (case query_err env of
        Some e \<Rightarrow> (cpuFeedbackSnapshot True, Some (cpuStorageError env e))
      | None \<Rightarrow> (case row of
            NoRow \<Rightarrow> (cpuFeedbackSnapshot True, None)
          | UntypedRow \<Rightarrow> (cpuFeedbackSnapshot True, Some ErrCPUFeedbackCorrupt)
          | TypedRow c \<Rightarrow>
              if (c_saturated c \<noteq> 0 \<and> c_saturated c \<noteq> 1) \<or> (c_capped c \<noteq> 0 \<and> c_capped c \<noteq> 1)
              then (cpuFeedbackSnapshot True, Some ErrCPUFeedbackCorrupt)
              else if \<not> validCPUFeedback (rowState c)
              then (cpuFeedbackSnapshot True, Some ErrCPUFeedbackCorrupt)
              else (rowState c, None)))"

definition stateRow :: "CPUFeedbackState \<Rightarrow> CPUWindowRecord \<Rightarrow> feedback_row" where
  "stateRow s r = \<lparr>c_tracked = unixNano (the (f_TrackingStartedAt s)),
     c_high = unixNano (the (f_ClockHighWater s)),
     c_dispatch = unixNano (the (f_LastBegunDispatchAt s)),
     c_completed = f_CompletedUnknown s, c_recovered = f_RecoveredUnknown s,
     c_saturated = (if f_CountSaturated s then 1 else 0),
     c_token = w_Token r, c_instance = w_Instance r, c_kind = w_Kind r, c_root = w_RootID r,
     c_job = w_JobID r, c_job_token = w_JobToken r,
     c_lease = map_option unixNano (w_JobLeaseUntil r),
     c_reserved = unixNano (w_DispatchReservedAt r), c_started = unixNano (w_WindowStartedAt r),
     c_recorded = unixNano (w_RecordedAt r), c_status = w_Status r,
     c_settled = map_option unixNano (w_SettledAt r), c_cpu = w_CPUTimeNS r,
     c_elapsed = w_ElapsedNS r, c_reason = w_Reason r, c_backoff = w_BackoffNS r,
     c_capped = (if w_BackoffCapped r then 1 else 0),
     c_next = map_option unixNano (f_NextAllowedAt s)\<rparr>"

definition writeCPUFeedback :: "call_env \<Rightarrow> CPUFeedbackState \<Rightarrow> err + feedback_row" where
  "writeCPUFeedback env s =
     (if \<not> validCPUFeedback s then Inl ErrCPUFeedbackInvalid
      else case exec_err env of Some e \<Rightarrow> Inl e
        | None \<Rightarrow> Inr (stateRow s (the (f_Window s))))"

section \<open>The store operations\<close>

definition CPUFeedback ::
  "call_env \<Rightarrow> fstore \<Rightarrow> CPUFeedbackState option \<times> err option" where
  "CPUFeedback env st =
     (if ctx_nil env then (None, Some ErrCPUFeedbackInvalid)
      else case ctx_entry env of Some e \<Rightarrow> (None, Some e)
        | None \<Rightarrow>
            if fs_schema st < 12 then (Some (cpuFeedbackSnapshot False), None)
            else let (s, e) = readCPUFeedback env (fs_row st) in (Some s, e))"

definition cpuFeedbackWriter :: "call_env \<Rightarrow> fstore \<Rightarrow> err option" where
  "cpuFeedbackWriter env st =
     (if ctx_nil env then Some ErrCPUFeedbackInvalid
      else case ctx_entry env of Some e \<Rightarrow> Some e
        | None \<Rightarrow> if fs_readOnly st then Some ErrCPUFeedbackReadOnly
            else if fs_schema st < 12 then Some ErrCPUFeedbackUnavailable else None)"

text \<open>The common end of the writing operations: write, veto by the context, commit, and the
  uncertain outcome when the commit or the context fails afterwards.\<close>

definition publishFeedback ::
  "call_env \<Rightarrow> fstore \<Rightarrow> CPUFeedbackState \<Rightarrow> fstore \<times> err option" where
  "publishFeedback env st s =
     (case writeCPUFeedback env s of
        Inl e \<Rightarrow> (st, Some e)
      | Inr row \<Rightarrow> (case ctx_before env of
            Some e \<Rightarrow> (st, Some e)
          | None \<Rightarrow> let st' = afterCommit env st (st\<lparr>fs_row := TypedRow row\<rparr>)
              in case commit_err env of
                  Some e \<Rightarrow> (st', Some (ErrJoin ErrCPUFeedbackPublication e))
                | None \<Rightarrow> (case ctx_after env of
                      Some e \<Rightarrow> (st', Some (ErrJoin ErrCPUFeedbackPublication e))
                    | None \<Rightarrow> (st', None))))"

definition sameCPUTime :: "gotime option \<Rightarrow> gotime option \<Rightarrow> bool" where
  "sameCPUTime a b \<longleftrightarrow> (case (a, b) of
       (None, None) \<Rightarrow> True | (Some x, Some y) \<Rightarrow> tEqual x y | _ \<Rightarrow> False)"

definition sameCPUJob :: "job option \<Rightarrow> job option \<Rightarrow> bool" where
  "sameCPUJob a b \<longleftrightarrow> (case (a, b) of
       (None, None) \<Rightarrow> True
     | (Some x, Some y) \<Rightarrow>
         j_ID x = j_ID y \<and> j_RootID x = j_RootID y \<and> j_Kind x = j_Kind y \<and>
         j_Attempts x = j_Attempts y \<and> j_Token x = j_Token y \<and>
         tEqual (j_LeaseUntil x) (j_LeaseUntil y) \<and> j_RootIdentity x = j_RootIdentity y \<and>
         j_Path x = j_Path y \<and> j_Cursor x = j_Cursor y \<and> j_RootPath x = j_RootPath y
     | _ \<Rightarrow> False)"

definition sameCPUWindow :: "CPUWindowRecord \<Rightarrow> CPUWindowRecord \<Rightarrow> bool" where
  "sameCPUWindow a b \<longleftrightarrow>
     w_Token a = w_Token b \<and> w_Instance a = w_Instance b \<and> w_Kind a = w_Kind b \<and>
     w_RootID a = w_RootID b \<and> w_JobID a = w_JobID b \<and> w_JobToken a = w_JobToken b \<and>
     sameCPUTime (w_JobLeaseUntil a) (w_JobLeaseUntil b) \<and>
     tEqual (w_DispatchReservedAt a) (w_DispatchReservedAt b) \<and>
     tEqual (w_WindowStartedAt a) (w_WindowStartedAt b) \<and>
     tEqual (w_RecordedAt a) (w_RecordedAt b)"

definition incrementCPUUnknown :: "int \<Rightarrow> bool \<Rightarrow> int \<times> bool" where
  "incrementCPUUnknown count saturated =
     (let c = (if count < maxInt64 then add64 count 1 else count)
      in (c, saturated \<or> c = maxInt64))"

subsection \<open>Begin\<close>

text \<open>The checks of \<open>BeginCPUWindow\<close> on its arguments, before the transaction.\<close>

definition beginInputError ::
  "fstore \<Rightarrow> FairInventoryTurn option \<Rightarrow> gotime \<Rightarrow> string \<Rightarrow> gotime \<Rightarrow> err option" where
  "beginInputError st claimed now inst windowStartedAt =
     (case (cpuFeedbackTime now, cpuFeedbackTime windowStartedAt, claimed) of
        (Inr now', Inr started, Some turn) \<Rightarrow>
          if tAfter started now' \<or> \<not> metadataDigest inst 32 then Some ErrCPUFeedbackInvalid
          else (case ft_receipt turn of
              None \<Rightarrow> Some ErrCPUFeedbackInvalid
            | Some r \<Rightarrow>
                if rc_store r \<noteq> fs_id st \<or> rc_root r \<noteq> ft_RootID turn \<or>
                   rc_path r \<noteq> ft_RootPath turn \<or> rc_kind r \<noteq> ft_Kind turn \<or>
                   \<not> sameCPUJob (rc_job r) (ft_Job turn) \<or> tBefore now' (rc_reservedAt r) \<or>
                   tSub now' (rc_reservedAt r) \<ge> 2 * second_ns
                then Some ErrCPUFeedbackStale
                else if rc_kind r \<noteq> TSource \<and> rc_kind r \<noteq> TMaintenance
                then Some ErrCPUFeedbackInvalid else None)
      | _ \<Rightarrow> Some ErrCPUFeedbackInvalid)"

text \<open>The checks against the saved state. \<open>dayOf\<close> is \<open>Format(time.DateOnly)\<close>.\<close>

definition beginSavedError ::
  "(gotime \<Rightarrow> string) \<Rightarrow> fstore \<Rightarrow> CPUFeedbackState \<Rightarrow> fairInventoryReceipt \<Rightarrow> gotime \<Rightarrow> err option" where
  "beginSavedError dayOf st s r now =
     (if (case f_ClockHighWater s of None \<Rightarrow> False | Some h \<Rightarrow> tBefore now h)
      then Some ErrCPUFeedbackClockRollback
      else if f_Status s = FPending then Some ErrCPUFeedbackPending
      else if (case f_NextAllowedAt s of None \<Rightarrow> False | Some n \<Rightarrow> tBefore now n)
      then Some ErrCPUFeedbackDeferred
      else if (case f_LastBegunDispatchAt s of None \<Rightarrow> False
                 | Some l \<Rightarrow> \<not> tAfter (rc_reservedAt r) l)
      then Some ErrCPUFeedbackStale
      else case fs_cursor st of Inl e \<Rightarrow> Some e
        | Inr (croot, cdispatch) \<Rightarrow> (case fs_dispatch st of
              Inl e \<Rightarrow> Some e
            | Inr None \<Rightarrow> Some (StorageFailure ''sql: no rows in result set'')
            | Inr (Some d) \<Rightarrow>
                if d_next d \<le> d_last d \<or> sub64 (d_next d) (d_last d) > day_ns \<or>
                   d_chunks d < 1 \<or> d_chunks d > 100000 \<or> d_day d \<noteq> dayOf (rc_reservedAt r) \<or>
                   d_last d \<noteq> unixNano (rc_reservedAt r) \<or> croot \<noteq> rc_root r \<or>
                   cdispatch \<noteq> d_last d
                then Some ErrCPUFeedbackStale else None))"

definition beginJobError :: "fstore \<Rightarrow> fairInventoryReceipt \<Rightarrow> gotime \<Rightarrow> err option" where
  "beginJobError st r now =
     (if rc_kind r = TSource
      then (case rc_job r of
            None \<Rightarrow> Some ErrCPUFeedbackStale
          | Some j \<Rightarrow>
              if j_RootID j \<noteq> rc_root r \<or> j_Kind j \<noteq> ScanKind \<or> \<not> tAfter (j_LeaseUntil j) now
              then Some ErrCPUFeedbackStale
              else if list_ex (\<lambda>q. jr_id q = j_ID j \<and> jr_root q = rc_root r \<and> jr_kind q = ScanKind \<and>
                     jr_status q = ''running'' \<and> jr_token q = j_Token j \<and>
                     jr_lease q = unixNano (j_LeaseUntil j)) (fs_jobs st)
              then None else Some ErrCPUFeedbackStale)
      else if rc_job r \<noteq> None then Some ErrCPUFeedbackStale else None)"

definition beginRecord ::
  "fairInventoryReceipt \<Rightarrow> gotime \<Rightarrow> string \<Rightarrow> gotime \<Rightarrow> string \<Rightarrow> CPUWindowRecord" where
  "beginRecord r now inst started token =
     \<lparr>w_Token = token, w_Instance = inst, w_Kind = rc_kind r, w_RootID = rc_root r,
      w_JobID = (if rc_kind r = TSource then j_ID (the (rc_job r)) else 0),
      w_JobToken = (if rc_kind r = TSource then j_Token (the (rc_job r)) else ''''),
      w_JobLeaseUntil =
        (if rc_kind r = TSource then Some (toUTC (j_LeaseUntil (the (rc_job r)))) else None),
      w_DispatchReservedAt = rc_reservedAt r, w_WindowStartedAt = started, w_RecordedAt = now,
      w_Status = FPending, w_SettledAt = None, w_CPUTimeNS = None, w_ElapsedNS = None,
      w_Reason = RNone, w_BackoffNS = 0, w_BackoffCapped = False\<rparr>"

definition beginState :: "CPUFeedbackState \<Rightarrow> CPUWindowRecord \<Rightarrow> gotime \<Rightarrow> CPUFeedbackState" where
  "beginState s record now =
     s\<lparr>f_TrackingStartedAt :=
         (case f_TrackingStartedAt s of None \<Rightarrow> Some now | Some t \<Rightarrow> Some t),
       f_ClockHighWater := Some now, f_LastBegunDispatchAt := Some (w_DispatchReservedAt record),
       f_Window := Some record, f_Status := w_Status record, f_NextAllowedAt := None\<rparr>"

text \<open>\<open>rnd\<close> is the token drawn from \<open>crypto/rand\<close>, or \<open>None\<close> when drawing failed.\<close>

definition BeginCPUWindow ::
  "(gotime \<Rightarrow> string) \<Rightarrow> call_env \<Rightarrow> string option \<Rightarrow> fstore \<Rightarrow> FairInventoryTurn option \<Rightarrow>
   gotime \<Rightarrow> string \<Rightarrow> gotime \<Rightarrow> fstore \<times> CPUWindowMarker option \<times> err option" where
  "BeginCPUWindow dayOf env rnd st claimed now0 inst started0 =
     (case cpuFeedbackWriter env st of Some e \<Rightarrow> (st, None, Some e)
      | None \<Rightarrow> (case beginInputError st claimed now0 inst started0 of
          Some e \<Rightarrow> (st, None, Some e)
        | None \<Rightarrow> (case begin_err env of Some e \<Rightarrow> (st, None, Some e)
          | None \<Rightarrow>
              let r = the (ft_receipt (the claimed)); now = toUTC now0; started = toUTC started0;
                  (s, re) = readCPUFeedback env (fs_row st)
              in (case re of Some e \<Rightarrow> (st, None, Some e)
                 | None \<Rightarrow> (case beginSavedError dayOf st s r now of
                     Some e \<Rightarrow> (st, None, Some e)
                   | None \<Rightarrow> (case beginJobError st r now of
                       Some e \<Rightarrow> (st, None, Some e)
                     | None \<Rightarrow> (case rnd of
                         None \<Rightarrow> (st, None, Some (StorageFailure ''rand''))
                       | Some token \<Rightarrow>
                           let record = beginRecord r now inst started token;
                               (st', pe) = publishFeedback env st (beginState s record now);
                               marker = \<lparr>mk_store = fs_id st, mk_record = record\<rparr>
                           in (case pe of
                                 None \<Rightarrow> (st', Some marker, None)
                               | Some e \<Rightarrow>
                                   (st', (if errIs e ErrCPUFeedbackPublication then Some marker
                                          else None), Some e)))))))))"

subsection \<open>Settle and recover\<close>

text \<open>The settled state of a pending window.\<close>

definition settleState ::
  "CPUFeedbackState \<Rightarrow> CPUWindowRecord \<Rightarrow> gotime \<Rightarrow> CPUWindowMeasurement \<Rightarrow>
   err + CPUFeedbackState" where
  "settleState s r completedAt m =
     (let r1 = r\<lparr>w_SettledAt := Some completedAt, w_CPUTimeNS := m_CPUTimeNS m,
                 w_ElapsedNS := m_ElapsedNS m, w_Reason := m_Reason m\<rparr>
      in case m_CPUTimeNS m of
          Some cpu \<Rightarrow>
            (let (wait, capped) = CPUFeedbackWait cpu (the (m_ElapsedNS m));
                 r2 = r1\<lparr>w_Status := FObserved, w_BackoffNS := wait, w_BackoffCapped := capped\<rparr>
             in if wait > 0
                then (case cpuFeedbackAdd completedAt wait of
                      Inl e \<Rightarrow> Inl e
                    | Inr next \<Rightarrow> Inr (s\<lparr>f_Window := Some r2, f_NextAllowedAt := Some next,
                        f_ClockHighWater := Some completedAt, f_Status := FObserved\<rparr>))
                else Inr (s\<lparr>f_Window := Some r2, f_ClockHighWater := Some completedAt,
                        f_Status := FObserved\<rparr>))
        | None \<Rightarrow>
            (let (c, sat) = incrementCPUUnknown (f_CompletedUnknown s) (f_CountSaturated s)
             in Inr (s\<lparr>f_Window := Some (r1\<lparr>w_Status := FCompletedUnknown\<rparr>),
                   f_CompletedUnknown := c, f_CountSaturated := sat,
                   f_ClockHighWater := Some completedAt, f_Status := FCompletedUnknown\<rparr>)))"

definition SettleCPUWindow ::
  "call_env \<Rightarrow> fstore \<Rightarrow> CPUWindowMarker \<Rightarrow> gotime \<Rightarrow> CPUWindowMeasurement \<Rightarrow>
   fstore \<times> CPUFeedbackState option \<times> err option" where
  "SettleCPUWindow env st marker completed0 m =
     (case cpuFeedbackWriter env st of Some e \<Rightarrow> (st, None, Some e)
      | None \<Rightarrow> (case cpuFeedbackTime completed0 of
          Inl _ \<Rightarrow> (st, None, Some ErrCPUFeedbackInvalid)
        | Inr completedAt \<Rightarrow>
            if mk_store marker \<noteq> fs_id st \<or> w_Status (mk_record marker) \<noteq> FPending \<or>
               \<not> cpuMeasurementValid m
            then (st, None, Some ErrCPUFeedbackInvalid)
            else (case begin_err env of Some e \<Rightarrow> (st, None, Some e)
              | None \<Rightarrow>
                  let (s, re) = readCPUFeedback env (fs_row st)
                  in (case re of Some e \<Rightarrow> (st, Some s, Some e)
                     | None \<Rightarrow> (case f_Window s of
                         None \<Rightarrow> (st, Some s, Some ErrCPUFeedbackStale)
                       | Some r \<Rightarrow>
                           if \<not> sameCPUWindow (mk_record marker) r
                           then (st, Some s, Some ErrCPUFeedbackStale)
                           else if w_Status r \<noteq> FPending
                           then (if (w_Status r = FObserved \<or> w_Status r = FCompletedUnknown) \<and>
                                    (case w_SettledAt r of None \<Rightarrow> False
                                       | Some t \<Rightarrow> tEqual t completedAt) \<and>
                                    sameCPUNS (w_CPUTimeNS r) (m_CPUTimeNS m) \<and>
                                    sameCPUNS (w_ElapsedNS r) (m_ElapsedNS m) \<and>
                                    w_Reason r = m_Reason m
                                 then (st, Some s, None) else (st, Some s, Some ErrCPUFeedbackStale))
                           else if tBefore completedAt (the (f_ClockHighWater s))
                           then (st, Some s, Some ErrCPUFeedbackClockRollback)
                           else (case settleState s r completedAt m of
                               Inl e \<Rightarrow> (st, Some s, Some e)
                             | Inr next \<Rightarrow>
                                 let (st', pe) = publishFeedback env st next
                                 in (st', Some (if pe = None then next else s), pe)))))))"

definition recoverState :: "CPUFeedbackState \<Rightarrow> gotime \<Rightarrow> err + CPUFeedbackState" where
  "recoverState s now =
     (case cpuFeedbackAdd now hour_ns of
        Inl e \<Rightarrow> Inl e
      | Inr next \<Rightarrow>
          let r = (the (f_Window s))\<lparr>w_Status := FRecoveredUnknown, w_SettledAt := Some now,
                     w_Reason := RInterruptedWindow, w_BackoffNS := hour_ns\<rparr>;
              (c, sat) = incrementCPUUnknown (f_RecoveredUnknown s) (f_CountSaturated s)
          in Inr (s\<lparr>f_Window := Some r, f_ClockHighWater := Some now, f_NextAllowedAt := Some next,
                    f_Status := FRecoveredUnknown, f_RecoveredUnknown := c, f_CountSaturated := sat\<rparr>))"

definition RecoverCPUWindow ::
  "call_env \<Rightarrow> fstore \<Rightarrow> gotime \<Rightarrow> fstore \<times> CPUFeedbackState option \<times> err option" where
  "RecoverCPUWindow env st now0 =
     (case cpuFeedbackWriter env st of Some e \<Rightarrow> (st, None, Some e)
      | None \<Rightarrow> (case cpuFeedbackTime now0 of
          Inl e \<Rightarrow> (st, None, Some e)
        | Inr now \<Rightarrow> (case begin_err env of Some e \<Rightarrow> (st, None, Some e)
          | None \<Rightarrow>
              let (s, re) = readCPUFeedback env (fs_row st)
              in (case re of Some e \<Rightarrow> (st, Some s, Some e)
                 | None \<Rightarrow>
                     if (case f_ClockHighWater s of None \<Rightarrow> False | Some h \<Rightarrow> tBefore now h)
                     then (st, Some s, Some ErrCPUFeedbackClockRollback)
                     else if f_Status s \<noteq> FPending then (st, Some s, None)
                     else (case recoverState s now of
                         Inl e \<Rightarrow> (st, Some s, Some e)
                       | Inr next \<Rightarrow>
                           let (st', pe) = publishFeedback env st next
                           in (st', Some (if pe = None then next else s), pe))))))"

section \<open>Reading back what was written\<close>

lemma savedTime_unixNano [simp]: "okTime t \<Longrightarrow> t_utc t \<Longrightarrow> savedTime (unixNano t) = t"
  by (simp add: savedTime_def toUTC_def unixTime_def)

text \<open>Every time of the state is in UTC, the status of the state is that of its window and the
  state is available: what every operation of this file produces.\<close>

definition utcOpt :: "gotime option \<Rightarrow> bool" where
  "utcOpt t \<longleftrightarrow> (case t of None \<Rightarrow> True | Some at \<Rightarrow> t_utc at)"

definition feedbackNormal :: "CPUFeedbackState \<Rightarrow> bool" where
  "feedbackNormal s \<longleftrightarrow> (case f_Window s of None \<Rightarrow> False | Some r \<Rightarrow>
     f_Available s \<and> f_Status s = w_Status r \<and> utcOpt (f_TrackingStartedAt s) \<and>
     utcOpt (f_ClockHighWater s) \<and> utcOpt (f_LastBegunDispatchAt s) \<and>
     utcOpt (f_NextAllowedAt s) \<and> utcOpt (w_JobLeaseUntil r) \<and> utcOpt (w_SettledAt r) \<and>
     t_utc (w_DispatchReservedAt r) \<and> t_utc (w_WindowStartedAt r) \<and> t_utc (w_RecordedAt r))"

lemma savedTime_utc [simp]: "t_utc (savedTime n)" "t_ns (savedTime n) = n"
  by (simp_all add: savedTime_def)

lemma saved_opt:
  "(case t of None \<Rightarrow> True | Some at \<Rightarrow> \<not> isl (cpuFeedbackTime at)) \<Longrightarrow> utcOpt t \<Longrightarrow>
   map_option savedTime (map_option unixNano t) = t"
  by (cases t) (simp_all add: utcOpt_def)

lemma rowWindow_stateRow:
  assumes "validCPUFeedback s" "feedbackNormal s" "f_Window s = Some r"
  shows "rowWindow (stateRow s r) = r"
  using assms saved_opt [of "w_JobLeaseUntil r"] saved_opt [of "w_SettledAt r"]
  by (simp add: rowWindow_def stateRow_def validCPUFeedback_def feedbackNormal_def
        validFeedbackTimes_def)

lemma rowState_stateRow:
  assumes v: "validCPUFeedback s" and n: "feedbackNormal s" and w: "f_Window s = Some r"
  shows "rowState (stateRow s r) = s"
proof -
  have t: "map_option savedTime (map_option unixNano (f_NextAllowedAt s)) = f_NextAllowedAt s"
    using v n w by (intro saved_opt) (simp_all add: validCPUFeedback_def feedbackNormal_def
        validFeedbackTimes_def)
  obtain a b c where abc: "f_TrackingStartedAt s = Some a" "f_ClockHighWater s = Some b"
      "f_LastBegunDispatchAt s = Some c"
    using v w by (auto simp: validCPUFeedback_def validFeedbackHeader_def)
  have "f_Status s = w_Status r" "f_Available s"
    using n w by (simp_all add: feedbackNormal_def)
  then show ?thesis
    using v n w t abc rowWindow_stateRow [OF v n w]
    by (simp add: rowState_def cpuFeedbackSnapshot_def stateRow_def validCPUFeedback_def
        feedbackNormal_def validFeedbackTimes_def utcOpt_def)
qed

lemma feedbackNormal_rowState: "feedbackNormal (rowState c)"
  by (simp add: feedbackNormal_def rowState_def rowWindow_def cpuFeedbackSnapshot_def utcOpt_def
      option.case_eq_if option.map_sel)

lemma read_written:
  assumes "writeCPUFeedback env s = Inr row" "feedbackNormal s" "query_err env' = None"
  shows "readCPUFeedback env' (TypedRow row) = (s, None)"
proof -
  from assms obtain r where v: "validCPUFeedback s" and w: "f_Window s = Some r"
      and row: "row = stateRow s r"
    by (auto simp: writeCPUFeedback_def feedbackNormal_def split: if_splits option.splits)
  have flags: "c_saturated row \<in> {0, 1}" "c_capped row \<in> {0, 1}"
    by (simp_all add: row stateRow_def)
  have "rowState row = s" unfolding row using v assms(2) w by (rule rowState_stateRow)
  with flags v assms(3) show ?thesis by (auto simp: readCPUFeedback_def)
qed

end
