(* ===== verification/Ledger_Systems.thy ===== *)
theory Ledger_Systems
  imports Rydd_Prelude
begin

text \<open>
  The contracts the durable ledgers share, as locales: a step relation that keeps an invariant,
  a quantity that no step decreases (a clock high-water mark, a total of charges, a counter), and
  a saved cell whose writer only stores records that its reader accepts. The component theories
  interpret them on their own transitions; the lemmas below are then available for every run.
\<close>

section \<open>Runs that keep an invariant\<close>

locale invariant_system =
  fixes step :: "'s \<Rightarrow> 's \<Rightarrow> bool"
    and inv :: "'s \<Rightarrow> bool"
  assumes step_inv: "inv s \<Longrightarrow> step s t \<Longrightarrow> inv t"
begin

lemma run_inv: "step\<^sup>*\<^sup>* s t \<Longrightarrow> inv s \<Longrightarrow> inv t"
  by (induction rule: rtranclp_induct) (auto intro: step_inv)

text \<open>A property that every step from an invariant state keeps is kept by every run.\<close>

lemma run_keeps:
  assumes run: "step\<^sup>*\<^sup>* s t" and "inv s" and "P s"
    and keep: "\<And>a b. inv a \<Longrightarrow> P a \<Longrightarrow> step a b \<Longrightarrow> P b"
  shows "P t"
  using run
proof (induction rule: rtranclp_induct)
  case base
  show ?case by fact
next
  case (step a b)
  have "inv a" using step.hyps(1) \<open>inv s\<close> by (rule run_inv)
  then show ?case using step.IH step.hyps(2) by (rule keep)
qed

end

section \<open>Quantities that never decrease\<close>

locale monotone_ledger = invariant_system step inv
  for step :: "'s \<Rightarrow> 's \<Rightarrow> bool" and inv :: "'s \<Rightarrow> bool" +
  fixes level :: "'s \<Rightarrow> int"
  assumes step_level: "inv s \<Longrightarrow> step s t \<Longrightarrow> level s \<le> level t"
begin

lemma run_level:
  assumes "step\<^sup>*\<^sup>* s t" "inv s"
  shows "level s \<le> level t"
proof (rule run_keeps [OF assms, where P = "\<lambda>u. level s \<le> level u"])
  fix a b
  assume "inv a" "level s \<le> level a" "step a b"
  then show "level s \<le> level b" using step_level [of a b] by linarith
qed simp

text \<open>What lies below the level once lies below it for good: a refused clock reading is never
  admitted later.\<close>

lemma below_stays: "step\<^sup>*\<^sup>* s t \<Longrightarrow> inv s \<Longrightarrow> x < level s \<Longrightarrow> x < level t"
  using run_level by fastforce

end

section \<open>Saved cells\<close>

locale saved_cell =
  fixes save :: "'r \<Rightarrow> 'e + 'c"
    and load :: "'c \<Rightarrow> 'r \<times> 'e option"
    and valid :: "'r \<Rightarrow> bool"
    and normal :: "'r \<Rightarrow> bool"
  assumes save_valid: "save r = Inr c \<Longrightarrow> valid r"
    and load_save: "save r = Inr c \<Longrightarrow> normal r \<Longrightarrow> load c = (r, None)"
    and load_valid: "load c = (r, None) \<Longrightarrow> valid r"
begin

text \<open>Two normal records with the same cell are the same record: nothing a later reader needs
  is lost by writing.\<close>

lemma save_inj: "save a = Inr c \<Longrightarrow> save b = Inr c \<Longrightarrow> normal a \<Longrightarrow> normal b \<Longrightarrow> a = b"
  using load_save [of a c] load_save [of b c] by simp

end

end
