(* ===== verification/CPU_Window_Laws.thy ===== *)
theory CPU_Window_Laws
  imports CPU_Window Ledger_Systems
begin

text \<open>
  The laws of the CPU window store of \<^verbatim>\<open>src/internal/state/cpu_feedback.go\<close>: the states
  that settlement and recovery compute satisfy the validity check of the writer, a settlement is
  applied once, and every run of the operations keeps a readable row and a clock that never goes
  back.
\<close>

section \<open>The computed states are valid\<close>

lemma validFeedbackI:
  assumes "f_Window s = Some r" "validFeedbackHeader s r" "validFeedbackTimes s r"
    "validFeedbackOrder s r" "validFeedbackKind r" "validFeedbackStatus s r"
  shows "validCPUFeedback s"
  using assms by (simp add: validCPUFeedback_def)

lemma validFeedbackD:
  assumes "validCPUFeedback s" "f_Window s = Some r"
  shows "validFeedbackHeader s r" "validFeedbackTimes s r" "validFeedbackOrder s r"
    "validFeedbackKind r" "validFeedbackStatus s r"
  using assms by (simp_all add: validCPUFeedback_def)

lemma incrementCPUUnknown_valid:
  assumes "incrementCPUUnknown c sat = (c', sat')" "i64 c" "0 \<le> c" "sat = (c = maxInt64 \<or> q)"
  shows "1 \<le> c'" "c \<le> c'" "i64 c'" "sat' = (c' = maxInt64 \<or> q)"
  using assms by (auto simp: incrementCPUUnknown_def i64_def Let_def add64_def split: if_splits)

text \<open>What a valid pending window is, with its fields spelled out.\<close>

lemma pendingE:
  assumes "validCPUFeedback s" "f_Window s = Some r" "w_Status r = FPending"
  obtains tr hw ld where "f_TrackingStartedAt s = Some tr" "f_ClockHighWater s = Some hw"
    "f_LastBegunDispatchAt s = Some ld" "f_NextAllowedAt s = None" "w_SettledAt r = None"
    "w_BackoffNS r = 0" "\<not> w_BackoffCapped r" "w_CPUTimeNS r = None" "w_ElapsedNS r = None"
    "t_ns (w_RecordedAt r) \<le> t_ns hw" "t_ns tr \<le> t_ns hw"
proof -
  note d = validFeedbackD [OF assms(1,2)]
  obtain tr hw ld where f: "f_TrackingStartedAt s = Some tr" "f_ClockHighWater s = Some hw"
    "f_LastBegunDispatchAt s = Some ld"
    using d(1) unfolding validFeedbackHeader_def by blast
  have le: "t_ns (w_RecordedAt r) \<le> t_ns hw" "t_ns tr \<le> t_ns hw"
    using d(3) f by (simp_all add: validFeedbackOrder_def go_arith not_less)
  show ?thesis
    using that [OF f _ _ _ _ _ _ le] d(5) assms(3) by (simp add: validFeedbackStatus_def)
qed

text \<open>A terminal update of a pending window: only the clock, the deadline, the counters and the
  outcome fields of the window change.\<close>

definition sameWindowStart :: "CPUWindowRecord \<Rightarrow> CPUWindowRecord \<Rightarrow> bool" where
  "sameWindowStart r r' \<longleftrightarrow>
     w_Token r' = w_Token r \<and> w_Instance r' = w_Instance r \<and> w_Kind r' = w_Kind r \<and>
     w_RootID r' = w_RootID r \<and> w_JobID r' = w_JobID r \<and> w_JobToken r' = w_JobToken r \<and>
     w_JobLeaseUntil r' = w_JobLeaseUntil r \<and> w_RecordedAt r' = w_RecordedAt r \<and>
     w_DispatchReservedAt r' = w_DispatchReservedAt r \<and>
     w_WindowStartedAt r' = w_WindowStartedAt r"

lemma terminal_valid:
  assumes v: "validCPUFeedback s" "f_Window s = Some r" "w_Status r = FPending"
    and at: "okTime at" "\<not> tBefore at (the (f_ClockHighWater s))"
    and n: "f_Window n = Some r'" "f_TrackingStartedAt n = f_TrackingStartedAt s"
      "f_ClockHighWater n = Some at" "f_LastBegunDispatchAt n = f_LastBegunDispatchAt s"
    and rf: "sameWindowStart r r'" "w_SettledAt r' = Some at" "w_Status r' \<noteq> FPending"
      "w_BackoffNS r' = b"
    and b: "0 \<le> b" "b \<le> hour_ns"
    and c: "0 \<le> f_CompletedUnknown n" "0 \<le> f_RecoveredUnknown n"
      "f_CountSaturated n = (f_CompletedUnknown n = maxInt64 \<or> f_RecoveredUnknown n = maxInt64)"
    and nx: "if b = 0 then f_NextAllowedAt n = None
             else \<exists>t. cpuFeedbackAdd at b = Inr t \<and> f_NextAllowedAt n = Some t"
    and settled: "validFeedbackSettled n r'"
  shows "validCPUFeedback n"
proof (rule validFeedbackI [OF n(1)])
  note d = validFeedbackD [OF v(1,2)]
  obtain tr hw ld where f: "f_TrackingStartedAt s = Some tr" "f_ClockHighWater s = Some hw"
    "f_LastBegunDispatchAt s = Some ld" "f_NextAllowedAt s = None" "w_SettledAt r = None"
    "w_BackoffNS r = 0" "\<not> w_BackoffCapped r" "w_CPUTimeNS r = None" "w_ElapsedNS r = None"
    "t_ns (w_RecordedAt r) \<le> t_ns hw" "t_ns tr \<le> t_ns hw"
    using v by (rule pendingE)
  have nx_ok: "f_NextAllowedAt n = Some t \<Longrightarrow> okTime t" for t
    using nx cpuFeedbackAdd_iff [OF at(1), of b t] at(1) b by (auto simp: okTime_def split: if_splits)
  note rf' = rf(1) [unfolded sameWindowStart_def] rf(2-4)
  show "validFeedbackHeader n r'"
    using d(1) rf' n(1-4) b c by (simp add: validFeedbackHeader_def)
  show "validFeedbackTimes n r'"
    using d(2) rf' n(1-4) at nx_ok f
    by (cases "f_NextAllowedAt n") (simp_all add: validFeedbackTimes_def)
  show "validFeedbackOrder n r'"
    using d(3) rf' n(1-4) at f c by (simp add: validFeedbackOrder_def go_arith)
  show "validFeedbackKind r'"
    using d(4) rf' by (cases "w_Kind r"; cases "w_JobLeaseUntil r") (simp_all add: validFeedbackKind_def)
  show "validFeedbackStatus n r'"
    using rf' n(3) at b nx settled f
    by (cases "b = 0") (auto simp: validFeedbackStatus_def go_arith)
qed

lemma settleState_valid:
  assumes v: "validCPUFeedback s" "f_Window s = Some r" "w_Status r = FPending"
    and at: "okTime at" "\<not> tBefore at (the (f_ClockHighWater s))"
    and m: "cpuMeasurementValid m" "i64_opt (m_CPUTimeNS m)" "i64_opt (m_ElapsedNS m)"
    and i: "i64 (f_CompletedUnknown s)"
    and res: "settleState s r at m = Inr n"
  shows "validCPUFeedback n"
proof (cases "m_CPUTimeNS m")
  case None
  note d = validFeedbackD [OF v(1,2)]
  obtain c sat where inc: "incrementCPUUnknown (f_CompletedUnknown s) (f_CountSaturated s) = (c, sat)"
    by fastforce
  have c: "1 \<le> c" "sat = (c = maxInt64 \<or> f_RecoveredUnknown s = maxInt64)"
    using incrementCPUUnknown_valid [OF inc i] d(1,3)
    by (simp_all add: validFeedbackHeader_def validFeedbackOrder_def)
  define r' where "r' = r\<lparr>w_SettledAt := Some at, w_CPUTimeNS := None,
      w_ElapsedNS := m_ElapsedNS m, w_Reason := m_Reason m, w_Status := FCompletedUnknown\<rparr>"
  have n: "n = s\<lparr>f_Window := Some r', f_CompletedUnknown := c, f_CountSaturated := sat,
      f_ClockHighWater := Some at, f_Status := FCompletedUnknown\<rparr>"
    using res None inc by (simp add: settleState_def r'_def)
  obtain p: "w_BackoffNS r = 0" "\<not> w_BackoffCapped r" "f_NextAllowedAt s = None"
    using v by (rule pendingE) blast
  have mv: "cpuMeasurementValid \<lparr>m_CPUTimeNS = None, m_ElapsedNS = m_ElapsedNS m,
      m_Reason = m_Reason m\<rparr>"
    using m(1) None by (cases m) simp
  have settled: "validFeedbackSettled n r'"
    using c p mv by (simp add: validFeedbackSettled_def r'_def n)
  show ?thesis
    by (rule terminal_valid [OF v at _ _ _ _ _ _ _ _ _ _ _ _ _ _ settled, where b = 0])
      (use c p d(1) in \<open>simp_all add: n r'_def sameWindowStart_def validFeedbackHeader_def\<close>)
next
  case (Some cpu)
  then obtain el where el: "m_ElapsedNS m = Some el" "0 \<le> cpu" "0 < el" "m_Reason m = RNone"
    using m(1) by (auto simp: cpuMeasurementValid_def split: option.splits if_splits)
  obtain wait capped where wt: "CPUFeedbackWait cpu el = (wait, capped)" by fastforce
  have rng: "0 \<le> wait" "wait \<le> hour_ns"
    using CPUFeedbackWait_range [of cpu el] m Some el wt by simp_all
  obtain p: "f_NextAllowedAt s = None" using v by (rule pendingE) blast
  note d = validFeedbackD [OF v(1,2)]
  define r' where "r' = r\<lparr>w_SettledAt := Some at, w_CPUTimeNS := Some cpu,
      w_ElapsedNS := Some el, w_Reason := RNone, w_Status := FObserved, w_BackoffNS := wait,
      w_BackoffCapped := capped\<rparr>"
  have n: "f_Window n = Some r'" "f_TrackingStartedAt n = f_TrackingStartedAt s"
      "f_ClockHighWater n = Some at" "f_LastBegunDispatchAt n = f_LastBegunDispatchAt s"
      "f_CompletedUnknown n = f_CompletedUnknown s" "f_RecoveredUnknown n = f_RecoveredUnknown s"
      "f_CountSaturated n = f_CountSaturated s"
      "if wait = 0 then f_NextAllowedAt n = None
       else \<exists>t. cpuFeedbackAdd at wait = Inr t \<and> f_NextAllowedAt n = Some t"
    using res Some el wt p rng
    by (cases "wait = 0"; cases "cpuFeedbackAdd at wait"; auto simp: settleState_def r'_def)+
  have mv: "cpuMeasurementValid \<lparr>m_CPUTimeNS = Some cpu, m_ElapsedNS = Some el,
      m_Reason = RNone\<rparr>"
    using el by (simp add: cpuMeasurementValid_def)
  have settled: "validFeedbackSettled n r'"
    using mv wt by (simp add: validFeedbackSettled_def r'_def)
  show ?thesis
    by (rule terminal_valid [OF v at _ _ _ _ _ _ _ _ _ _ _ _ _ _ settled, where b = wait])
      (use d(1,3) rng n(8) in \<open>simp_all add: n(1-7) r'_def sameWindowStart_def validFeedbackHeader_def
         validFeedbackOrder_def\<close>)
qed

lemma recoverState_valid:
  assumes v: "validCPUFeedback s" "f_Window s = Some r" "w_Status r = FPending"
    and at: "okTime at" "\<not> tBefore at (the (f_ClockHighWater s))"
    and i: "i64 (f_RecoveredUnknown s)" and res: "recoverState s at = Inr n"
  shows "validCPUFeedback n"
proof -
  note d = validFeedbackD [OF v(1,2)]
  obtain c sat where inc: "incrementCPUUnknown (f_RecoveredUnknown s) (f_CountSaturated s) = (c, sat)"
    by fastforce
  have c: "1 \<le> c" "sat = (f_CompletedUnknown s = maxInt64 \<or> c = maxInt64)"
  proof -
    have "0 \<le> f_RecoveredUnknown s" using d(1) by (simp add: validFeedbackHeader_def)
    moreover have
      "f_CountSaturated s = (f_RecoveredUnknown s = maxInt64 \<or> f_CompletedUnknown s = maxInt64)"
      using d(3) unfolding validFeedbackOrder_def by blast
    ultimately show "1 \<le> c" "sat = (f_CompletedUnknown s = maxInt64 \<or> c = maxInt64)"
      using incrementCPUUnknown_valid(1,4) [OF inc i] by blast+
  qed
  define r' where "r' = r\<lparr>w_Status := FRecoveredUnknown, w_SettledAt := Some at,
      w_Reason := RInterruptedWindow, w_BackoffNS := hour_ns\<rparr>"
  obtain nx where nx: "cpuFeedbackAdd at hour_ns = Inr nx"
    and n: "n = s\<lparr>f_Window := Some r', f_ClockHighWater := Some at,
      f_NextAllowedAt := Some nx, f_Status := FRecoveredUnknown, f_RecoveredUnknown := c,
      f_CountSaturated := sat\<rparr>"
    using res v(2) inc by (cases "cpuFeedbackAdd at hour_ns") (simp_all add: recoverState_def r'_def)
  obtain p: "\<not> w_BackoffCapped r" "w_CPUTimeNS r = None" "w_ElapsedNS r = None"
    using v by (rule pendingE) blast
  have settled: "validFeedbackSettled n r'"
    using c p by (simp add: validFeedbackSettled_def r'_def n)
  show ?thesis
    by (rule terminal_valid [OF v at _ _ _ _ _ _ _ _ _ _ _ _ _ _ settled, where b = hour_ns])
      (use d(1) c nx in \<open>simp_all add: n r'_def sameWindowStart_def validFeedbackHeader_def\<close>)
qed

section \<open>The effect of each operation on the row\<close>

lemma publishFeedback_effect:
  assumes "publishFeedback env st s = (st', e)"
  shows "st' = st \<or> (\<exists>row. writeCPUFeedback env s = Inr row \<and> st' = st\<lparr>fs_row := TypedRow row\<rparr>)"
proof (cases "writeCPUFeedback env s")
  case (Inl x)
  then show ?thesis using assms by (simp add: publishFeedback_def)
next
  case (Inr row)
  then show ?thesis
    using assms afterCommit_cases [of env st "st\<lparr>fs_row := TypedRow row\<rparr>"]
    by (auto simp: publishFeedback_def Let_def split: option.splits)
qed

lemma readCPUFeedback_ok:
  assumes "readCPUFeedback env row = (s, None)"
  shows "row = NoRow \<and> s = cpuFeedbackSnapshot True \<or>
    (\<exists>c. row = TypedRow c \<and> s = rowState c \<and> validCPUFeedback s)"
  using assms by (auto simp: readCPUFeedback_def split: option.splits saved_row.splits if_splits)

lemma BeginCPUWindow_effect:
  assumes "BeginCPUWindow dayOf env rnd st claimed now0 inst started0 = (st', mk, e)"
  shows "st' = st \<or> (\<exists>turn r s token row. claimed = Some turn \<and> ft_receipt turn = Some r \<and>
    beginInputError st claimed now0 inst started0 = None \<and>
    readCPUFeedback env (fs_row st) = (s, None) \<and>
    beginSavedError dayOf st s r (toUTC now0) = None \<and>
    writeCPUFeedback env (beginState s (beginRecord r (toUTC now0) inst (toUTC started0) token)
      (toUTC now0)) = Inr row \<and>
    st' = st\<lparr>fs_row := TypedRow row\<rparr>)"
proof (cases "st' = st")
  case False
  obtain s re where rd: "readCPUFeedback env (fs_row st) = (s, re)" by fastforce
  have inp: "beginInputError st claimed now0 inst started0 = None"
    using assms False by (auto simp: BeginCPUWindow_def split: option.splits)
  then obtain turn r where cl: "claimed = Some turn" "ft_receipt turn = Some r"
    by (auto simp: beginInputError_def split: sum.splits option.splits if_splits)
  have "re = None" "beginSavedError dayOf st s r (toUTC now0) = None"
    using assms False rd cl inp
    by (auto simp: BeginCPUWindow_def Let_def split: option.splits)
  moreover obtain token st2 pe where
    "publishFeedback env st (beginState s (beginRecord r (toUTC now0) inst (toUTC started0) token)
      (toUTC now0)) = (st2, pe)" "st' = st2"
    using assms False rd cl inp calculation
    by (auto simp: BeginCPUWindow_def Let_def split: option.splits prod.splits)
  ultimately show ?thesis
    using publishFeedback_effect False rd cl inp by metis
qed simp

lemma SettleCPUWindow_effect:
  assumes "SettleCPUWindow env st marker at0 m = (st', so, e)"
  shows "st' = st \<or> (\<exists>s r n row. okTime at0 \<and> cpuMeasurementValid m \<and>
    readCPUFeedback env (fs_row st) = (s, None) \<and> f_Window s = Some r \<and> w_Status r = FPending \<and>
    sameCPUWindow (mk_record marker) r \<and>
    \<not> tBefore (toUTC at0) (the (f_ClockHighWater s)) \<and> settleState s r (toUTC at0) m = Inr n \<and>
    writeCPUFeedback env n = Inr row \<and> st' = st\<lparr>fs_row := TypedRow row\<rparr>)"
proof (cases "st' = st")
  case False
  obtain s re where rd: "readCPUFeedback env (fs_row st) = (s, re)" by fastforce
  have t: "okTime at0"
    using assms False cpuFeedbackTime_bad
    by (fastforce simp: SettleCPUWindow_def split: option.splits sum.splits)
  then have a: "cpuMeasurementValid m" "re = None"
    using assms False rd
    by (auto simp: SettleCPUWindow_def cpuFeedbackTime_ok split: option.splits if_splits)
  obtain r where r: "f_Window s = Some r"
    using assms False rd t a
    by (auto simp: SettleCPUWindow_def cpuFeedbackTime_ok split: option.splits if_splits)
  have b: "w_Status r = FPending" "sameCPUWindow (mk_record marker) r"
      "\<not> tBefore (toUTC at0) (the (f_ClockHighWater s))"
    using assms False rd t a r
    by (auto simp: SettleCPUWindow_def cpuFeedbackTime_ok split: option.splits if_splits)
  obtain n where n: "settleState s r (toUTC at0) m = Inr n"
    using assms False rd t a r b
    by (cases "settleState s r (toUTC at0) m")
      (auto simp: SettleCPUWindow_def cpuFeedbackTime_ok split: option.splits if_splits)
  obtain st2 pe where p: "publishFeedback env st n = (st2, pe)" by fastforce
  then have "st' = st2"
    using assms False rd t a r b n
    by (auto simp: SettleCPUWindow_def cpuFeedbackTime_ok split: option.splits if_splits)
  then show ?thesis
    using publishFeedback_effect [OF p] False rd t a r b n by blast
qed simp

lemma RecoverCPUWindow_effect:
  assumes "RecoverCPUWindow env st now0 = (st', so, e)"
  shows "st' = st \<or> (\<exists>s n row. okTime now0 \<and>
    readCPUFeedback env (fs_row st) = (s, None) \<and> f_Status s = FPending \<and>
    (case f_ClockHighWater s of None \<Rightarrow> True | Some h \<Rightarrow> \<not> tBefore (toUTC now0) h) \<and>
    recoverState s (toUTC now0) = Inr n \<and>
    writeCPUFeedback env n = Inr row \<and> st' = st\<lparr>fs_row := TypedRow row\<rparr>)"
proof (cases "st' = st")
  case False
  obtain s re where rd: "readCPUFeedback env (fs_row st) = (s, re)" by fastforce
  have t: "okTime now0"
    using assms False cpuFeedbackTime_bad
    by (fastforce simp: RecoverCPUWindow_def split: option.splits sum.splits)
  then have a: "re = None" "f_Status s = FPending"
      "case f_ClockHighWater s of None \<Rightarrow> True | Some h \<Rightarrow> \<not> tBefore (toUTC now0) h"
    using assms False rd
    by (auto simp: RecoverCPUWindow_def cpuFeedbackTime_ok split: option.splits if_splits)
  obtain n where n: "recoverState s (toUTC now0) = Inr n"
    using assms False rd t a
    by (cases "recoverState s (toUTC now0)")
      (auto simp: RecoverCPUWindow_def cpuFeedbackTime_ok split: option.splits if_splits)
  obtain st2 pe where p: "publishFeedback env st n = (st2, pe)" by fastforce
  then have "st' = st2"
    using assms False rd t a n
    by (auto simp: RecoverCPUWindow_def cpuFeedbackTime_ok split: option.splits if_splits)
  then show ?thesis
    using publishFeedback_effect [OF p] False rd t a n by blast
qed simp

section \<open>Runs of the window store\<close>

text \<open>The steps of the store: the three operations under any outcome of their transactions, and
  any change of the rows that belong to the dispatch, the cursor and the job queue. Receipts are
  those of \<open>newFairInventoryReceipt\<close>, whose time is in UTC; the measurement is made of
  \<open>int64\<close> values.\<close>

inductive window_step :: "fstore \<Rightarrow> fstore \<Rightarrow> bool" where
  begun: "(\<And>turn r. claimed = Some turn \<Longrightarrow> ft_receipt turn = Some r \<Longrightarrow> t_utc (rc_reservedAt r)) \<Longrightarrow>
    BeginCPUWindow dayOf env rnd st claimed now inst started = (st', mk, e) \<Longrightarrow> window_step st st'"
| settle: "i64_opt (m_CPUTimeNS m) \<Longrightarrow> i64_opt (m_ElapsedNS m) \<Longrightarrow>
    SettleCPUWindow env st marker at m = (st', so, e) \<Longrightarrow> window_step st st'"
| recover: "RecoverCPUWindow env st now = (st', so, e) \<Longrightarrow> window_step st st'"
| others: "window_step st (st\<lparr>fs_cursor := c, fs_dispatch := d, fs_jobs := j\<rparr>)"

text \<open>The row can be read, and its counters are \<open>int64\<close> values.\<close>

definition windowInv :: "fstore \<Rightarrow> bool" where
  "windowInv st \<longleftrightarrow> (case fs_row st of
       NoRow \<Rightarrow> True
     | UntypedRow \<Rightarrow> False
     | TypedRow c \<Rightarrow> readCPUFeedback good_env (TypedRow c) = (rowState c, None) \<and>
         i64 (c_completed c) \<and> i64 (c_recovered c))"

definition windowClock :: "fstore \<Rightarrow> int" where
  "windowClock st = (case fs_row st of TypedRow c \<Rightarrow> c_high c | _ \<Rightarrow> 0)"

lemma windowInv_read:
  assumes "windowInv st" "readCPUFeedback env (fs_row st) = (s, None)"
  shows "i64 (f_CompletedUnknown s)" "i64 (f_RecoveredUnknown s)"
    "windowClock st = (case f_ClockHighWater s of None \<Rightarrow> 0 | Some h \<Rightarrow> t_ns h)"
    "f_Available s" "f_Window s \<noteq> None \<Longrightarrow> validCPUFeedback s \<and> feedbackNormal s"
    "f_Status s = FPending \<Longrightarrow> f_Window s \<noteq> None"
  using readCPUFeedback_ok [OF assms(2)] assms(1) feedbackNormal_rowState
  by (auto simp: windowInv_def windowClock_def rowState_def cpuFeedbackSnapshot_def i64_def)

text \<open>Writing a normal record keeps the invariant and moves the clock to the record's.\<close>

lemma written_inv:
  assumes "writeCPUFeedback env n = Inr row" "feedbackNormal n"
    "i64 (f_CompletedUnknown n)" "i64 (f_RecoveredUnknown n)" "f_ClockHighWater n = Some at"
  shows "windowInv (st\<lparr>fs_row := TypedRow row\<rparr>)"
    "windowClock (st\<lparr>fs_row := TypedRow row\<rparr>) = t_ns at"
proof -
  have rd: "readCPUFeedback good_env (TypedRow row) = (n, None)"
    using read_written [OF assms(1,2)] by (simp add: good_env_def)
  then have n: "n = rowState row" by (auto dest: readCPUFeedback_ok)
  show "windowInv (st\<lparr>fs_row := TypedRow row\<rparr>)"
    using rd assms(3,4) unfolding windowInv_def n
    by (simp add: rowState_def cpuFeedbackSnapshot_def)
  show "windowClock (st\<lparr>fs_row := TypedRow row\<rparr>) = t_ns at"
    using assms(5) unfolding n by (auto simp: windowClock_def rowState_def cpuFeedbackSnapshot_def)
qed

lemma incrementCPUUnknown_i64: "i64 c \<Longrightarrow> i64 (fst (incrementCPUUnknown c b))"
  by (auto simp: incrementCPUUnknown_def Let_def i64_def)

lemma cpuFeedbackAdd_utc: "cpuFeedbackAdd at w = Inr t \<Longrightarrow> t_utc t"
  by (auto simp: cpuFeedbackAdd_def split: if_splits)

text \<open>A terminal transition keeps the start of the window, moves the clock to its time and sets a
  deadline that lies a backoff after it, or none.\<close>

definition terminalStep ::
  "CPUFeedbackState \<Rightarrow> CPUWindowRecord \<Rightarrow> gotime \<Rightarrow> CPUFeedbackState \<Rightarrow> bool" where
  "terminalStep s r at n \<longleftrightarrow> (\<exists>r'. f_Window n = Some r' \<and> sameWindowStart r r' \<and>
     w_SettledAt r' = Some at \<and> f_Status n = w_Status r' \<and> f_Available n = f_Available s \<and>
     f_TrackingStartedAt n = f_TrackingStartedAt s \<and> f_ClockHighWater n = Some at \<and>
     f_LastBegunDispatchAt n = f_LastBegunDispatchAt s \<and>
     (f_NextAllowedAt n = f_NextAllowedAt s \<or>
      (\<exists>w t. cpuFeedbackAdd at w = Inr t \<and> f_NextAllowedAt n = Some t)) \<and>
     f_CompletedUnknown n \<in> {f_CompletedUnknown s,
       fst (incrementCPUUnknown (f_CompletedUnknown s) (f_CountSaturated s))} \<and>
     f_RecoveredUnknown n \<in> {f_RecoveredUnknown s,
       fst (incrementCPUUnknown (f_RecoveredUnknown s) (f_CountSaturated s))})"

lemma settleState_terminal:
  assumes "settleState s r at m = Inr n"
  shows "terminalStep s r at n"
proof (cases "m_CPUTimeNS m")
  case None
  then show ?thesis using assms
    by (auto simp: settleState_def Let_def terminalStep_def sameWindowStart_def split: prod.splits)
next
  case (Some cpu)
  obtain wait capped where wt: "CPUFeedbackWait cpu (the (m_ElapsedNS m)) = (wait, capped)"
    by fastforce
  show ?thesis using assms Some wt
    by (cases "0 < wait"; cases "cpuFeedbackAdd at wait")
      (auto simp: settleState_def terminalStep_def sameWindowStart_def)
qed

lemma recoverState_terminal:
  assumes "recoverState s at = Inr n" "f_Window s = Some r"
  shows "terminalStep s r at n"
  using assms by (cases "cpuFeedbackAdd at hour_ns")
    (auto simp: recoverState_def Let_def terminalStep_def sameWindowStart_def split: prod.splits)

lemma terminalStep_normal:
  assumes t: "terminalStep s r at n" and s: "feedbackNormal s" "f_Window s = Some r" "t_utc at"
    and i: "i64 (f_CompletedUnknown s)" "i64 (f_RecoveredUnknown s)"
  shows "feedbackNormal n" "i64 (f_CompletedUnknown n)" "i64 (f_RecoveredUnknown n)"
    "f_ClockHighWater n = Some at"
proof -
  obtain r' where r: "f_Window n = Some r'" "sameWindowStart r r'" "w_SettledAt r' = Some at"
      "f_Status n = w_Status r'" "f_Available n = f_Available s"
      "f_TrackingStartedAt n = f_TrackingStartedAt s" "f_ClockHighWater n = Some at"
      "f_LastBegunDispatchAt n = f_LastBegunDispatchAt s"
    and nx: "f_NextAllowedAt n = f_NextAllowedAt s \<or>
      (\<exists>w t. cpuFeedbackAdd at w = Inr t \<and> f_NextAllowedAt n = Some t)"
    using t unfolding terminalStep_def by blast
  have "utcOpt (f_NextAllowedAt n)"
    using nx s cpuFeedbackAdd_utc by (auto simp: feedbackNormal_def utcOpt_def)
  then show "feedbackNormal n"
    using s r by (simp add: feedbackNormal_def sameWindowStart_def) (simp add: utcOpt_def)
  show "i64 (f_CompletedUnknown n)" "i64 (f_RecoveredUnknown n)"
    using t i incrementCPUUnknown_i64 unfolding terminalStep_def by auto
  show "f_ClockHighWater n = Some at" by (fact r(7))
qed

lemma beginInputError_time: "beginInputError st cl now inst started = None \<Longrightarrow> okTime now"
  by (cases "cpuFeedbackTime now") (auto simp: beginInputError_def)

lemma beginState_normal:
  assumes "readCPUFeedback env row = (s, None)" "t_utc now" "t_utc started"
    "t_utc (rc_reservedAt r)"
  shows "feedbackNormal (beginState s (beginRecord r now inst started token) now)"
  using readCPUFeedback_ok [OF assms(1)] assms(2-)
  by (auto simp: feedbackNormal_def beginState_def beginRecord_def utcOpt_def cpuFeedbackSnapshot_def
      rowState_def split: option.splits)

lemma window_step_inv:
  assumes inv: "windowInv st" and stp: "window_step st st'"
  shows "windowInv st' \<and> windowClock st \<le> windowClock st'"
  using stp
proof cases
  case (begun claimed dayOf env rnd now inst started mk e)
  show ?thesis
  proof (cases "st' = st")
    case False
    then obtain turn r s token row where b: "claimed = Some turn" "ft_receipt turn = Some r"
      "beginInputError st claimed now inst started = None"
      "readCPUFeedback env (fs_row st) = (s, None)"
      "beginSavedError dayOf st s r (toUTC now) = None"
      "writeCPUFeedback env (beginState s (beginRecord r (toUTC now) inst (toUTC started) token)
        (toUTC now)) = Inr row" "st' = st\<lparr>fs_row := TypedRow row\<rparr>"
      using BeginCPUWindow_effect [OF begun(2)] by blast
    note w = windowInv_read [OF inv b(4)]
    have "t_utc (rc_reservedAt r)" using begun(1) b by blast
    then have "feedbackNormal (beginState s (beginRecord r (toUTC now) inst (toUTC started) token)
        (toUTC now))" using b(4) by (intro beginState_normal) simp_all
    from written_inv [OF b(6) this, of "toUTC now" st] have
      "windowInv st'" "windowClock st' = t_ns now"
      using w b(7) by (simp_all add: beginState_def)
    moreover have "windowClock st \<le> t_ns now"
      using w(3) b(5) beginInputError_time [OF b(3)]
      by (cases "f_ClockHighWater s")
        (simp_all add: beginSavedError_def go_arith okTime_def split: if_splits)
    ultimately show ?thesis by simp
  qed (use inv in simp)
next
  case (settle m env marker at so e)
  show ?thesis
  proof (cases "st' = st")
    case False
    then obtain s r n row where b: "readCPUFeedback env (fs_row st) = (s, None)"
      "f_Window s = Some r" "\<not> tBefore (toUTC at) (the (f_ClockHighWater s))"
      "settleState s r (toUTC at) m = Inr n" "writeCPUFeedback env n = Inr row"
      "st' = st\<lparr>fs_row := TypedRow row\<rparr>"
      using SettleCPUWindow_effect [OF settle(3)] by blast
    note w = windowInv_read [OF inv b(1)]
    have v: "validCPUFeedback s" "feedbackNormal s" using w(5) b(2) by simp_all
    note n = terminalStep_normal [OF settleState_terminal [OF b(4)] v(2) b(2) _ w(1,2), simplified]
    obtain h where h: "f_ClockHighWater s = Some h"
      using validFeedbackD(1) [OF v(1) b(2)] by (auto simp: validFeedbackHeader_def)
    show ?thesis
      using written_inv [OF b(5) n(1) n(2,3,4), of st] b(3,6) w(3) h by (simp add: go_arith)
  qed (use inv in simp)
next
  case (recover env now so e)
  show ?thesis
  proof (cases "st' = st")
    case False
    then obtain s n row where b: "readCPUFeedback env (fs_row st) = (s, None)"
      "f_Status s = FPending"
      "case f_ClockHighWater s of None \<Rightarrow> True | Some h \<Rightarrow> \<not> tBefore (toUTC now) h"
      "recoverState s (toUTC now) = Inr n" "writeCPUFeedback env n = Inr row"
      "st' = st\<lparr>fs_row := TypedRow row\<rparr>"
      using RecoverCPUWindow_effect [OF recover(1)] by blast
    note w = windowInv_read [OF inv b(1)]
    have v: "validCPUFeedback s" "feedbackNormal s" using w(5,6) b(2) by simp_all
    obtain r where r: "f_Window s = Some r" using w(6) [OF b(2)] by blast
    note n = terminalStep_normal [OF recoverState_terminal [OF b(4) r] v(2) r _ w(1,2), simplified]
    obtain h where h: "f_ClockHighWater s = Some h"
      using v w(6) [OF b(2)] by (auto simp: validCPUFeedback_def validFeedbackHeader_def)
    show ?thesis
      using written_inv [OF b(5) n(1) n(2,3,4), of st] b(3,6) w(3) h by (simp add: go_arith)
  qed (use inv in simp)
next
  case (others c d j)
  then show ?thesis using inv by (simp add: windowInv_def windowClock_def)
qed

interpretation window_ledger: monotone_ledger window_step windowInv windowClock
  by unfold_locales (auto dest: window_step_inv)

interpretation window_cell: saved_cell
  "writeCPUFeedback good_env" "\<lambda>row. readCPUFeedback good_env (TypedRow row)" validCPUFeedback
  feedbackNormal
proof
  fix r c
  assume "writeCPUFeedback good_env r = Inr c"
  then show "validCPUFeedback r"
    by (auto simp: writeCPUFeedback_def split: if_splits)
next
  fix r c
  assume "writeCPUFeedback good_env r = Inr c" "feedbackNormal r"
  then show "readCPUFeedback good_env (TypedRow c) = (r, None)"
    by (rule read_written) (simp add: good_env_def)
next
  fix r c
  assume "readCPUFeedback good_env (TypedRow c) = (r, None)"
  then show "validCPUFeedback r" using readCPUFeedback_ok by fastforce
qed

section \<open>Settlement succeeds once and for all\<close>

lemma publish_good:
  assumes "validCPUFeedback n" "f_Window n = Some r"
  shows "publishFeedback good_env st n = (st\<lparr>fs_row := TypedRow (stateRow n r)\<rparr>, None)"
  using assms by (simp add: publishFeedback_def writeCPUFeedback_def good_env_def afterCommit_def)

text \<open>Before the last hour that \<open>int64\<close> nanoseconds can name, settling computes a state.\<close>

lemma settleState_defined:
  assumes at: "okTime at" "t_ns at + hour_ns \<le> maxInt64"
    and m: "cpuMeasurementValid m" "i64_opt (m_CPUTimeNS m)" "i64_opt (m_ElapsedNS m)"
    and nx: "f_NextAllowedAt s = None"
  obtains n where "settleState s r at m = Inr n"
    "map_option t_ns (f_NextAllowedAt n) = (case m_CPUTimeNS m of None \<Rightarrow> None
       | Some c \<Rightarrow> (let w = min hour_ns (max 0 (100 * c - the (m_ElapsedNS m)))
           in if w = 0 then None else Some (t_ns at + w)))"
proof (cases "m_CPUTimeNS m")
  case None
  then show ?thesis
    using that nx
    by (cases "incrementCPUUnknown (f_CompletedUnknown s) (f_CountSaturated s)")
      (simp add: settleState_def)
next
  case (Some c)
  then obtain el where el: "m_ElapsedNS m = Some el" "0 \<le> c" "0 < el"
    using m(1) by (auto simp: cpuMeasurementValid_def split: option.splits if_splits)
  define w where "w = min hour_ns (max 0 (100 * c - el))"
  have wt: "CPUFeedbackWait c el = (w, hour_ns < 100 * c - el)"
    using CPUFeedbackWait_exact [of c el] m Some el by (simp add: w_def)
  have w: "0 \<le> w" "w \<le> hour_ns" by (simp_all add: w_def)
  then have add: "cpuFeedbackAdd at w = Inr (toUTC (tAdd at w))"
    using cpuFeedbackAdd_iff [OF at(1)] at(2) by simp
  show ?thesis
  proof (cases "w = 0")
    case True
    then show ?thesis
      using that Some el wt nx by (simp add: settleState_def w_def [symmetric])
  next
    case False
    then show ?thesis
      using that Some el wt w add by (simp add: settleState_def w_def [symmetric])
  qed
qed

lemma settle_run:
  assumes wr: "\<not> fs_readOnly st" "12 \<le> fs_schema st"
    and rd: "readCPUFeedback good_env (fs_row st) = (s, None)"
    and w: "f_Window s = Some r" "w_Status r = FPending"
    and mk: "mk_store marker = fs_id st" "w_Status (mk_record marker) = FPending"
      "sameCPUWindow (mk_record marker) r"
    and at: "okTime at" "\<not> tBefore at (the (f_ClockHighWater s))"
    and m: "cpuMeasurementValid m"
    and n: "settleState s r (toUTC at) m = Inr n" "validCPUFeedback n" "f_Window n = Some r'"
  shows "SettleCPUWindow good_env st marker at m =
    (st\<lparr>fs_row := TypedRow (stateRow n r')\<rparr>, Some n, None)"
  using assms publish_good [OF n(2,3), of st]
  by (simp add: SettleCPUWindow_def cpuFeedbackWriter_def good_env_def cpuFeedbackTime_ok tBefore_def)

lemma sameCPUWindow_start:
  "sameCPUWindow a r \<Longrightarrow> sameWindowStart r r' \<Longrightarrow> sameCPUWindow a r'"
  by (simp add: sameCPUWindow_def sameWindowStart_def)

lemma settleState_outcome:
  assumes "settleState s r at m = Inr n" "f_Window n = Some r'"
  shows "w_CPUTimeNS r' = m_CPUTimeNS m" "w_ElapsedNS r' = m_ElapsedNS m" "w_Reason r' = m_Reason m"
    "w_SettledAt r' = Some at" "w_Status r' = FObserved \<or> w_Status r' = FCompletedUnknown"
  using assms by (auto simp: settleState_def Let_def split: option.splits prod.splits if_splits sum.splits)

lemma settle_retry:
  assumes wr: "\<not> fs_readOnly st" "12 \<le> fs_schema st"
    and rd: "readCPUFeedback good_env (fs_row st) = (n, None)"
    and w: "f_Window n = Some r'"
    and mk: "mk_store marker = fs_id st" "w_Status (mk_record marker) = FPending"
      "sameCPUWindow (mk_record marker) r'"
    and m: "okTime at" "cpuMeasurementValid m"
    and o: "w_CPUTimeNS r' = m_CPUTimeNS m" "w_ElapsedNS r' = m_ElapsedNS m"
      "w_Reason r' = m_Reason m" "w_SettledAt r' = Some (toUTC at)"
      "w_Status r' = FObserved \<or> w_Status r' = FCompletedUnknown"
  shows "SettleCPUWindow good_env st marker at m = (st, Some n, None)"
  using assms by (auto simp: SettleCPUWindow_def cpuFeedbackWriter_def good_env_def
      cpuFeedbackTime_ok tEqual_def)

end
