(* ===== verification/CPU_Window_Guarantees.thy ===== *)
theory CPU_Window_Guarantees
  imports CPU_Window_Laws
begin

text \<open>
  What the durable CPU window promises, with a small example on which the promises are exercised:
  a source turn whose window is begun, settled with a measurement and left with a deadline.
\<close>

section \<open>An example window\<close>

definition wxTime :: "int \<Rightarrow> gotime" where
  "wxTime n = \<lparr>t_ns = 1700000000000000000 + n * second_ns, t_utc = True\<rparr>"

definition wxJob :: job where
  "wxJob = \<lparr>j_ID = 7, j_RootID = 3, j_Kind = ScanKind, j_Path = ''/a'', j_Cursor = [], j_Attempts = 1,
     j_Token = replicate 32 CHR ''c'', j_LeaseUntil = wxTime 60, j_RootPath = ''/'', j_RootIdentity = ''r''\<rparr>"

definition wxReceipt :: fairInventoryReceipt where
  "wxReceipt = \<lparr>rc_store = 1, rc_root = 3, rc_path = ''/'', rc_kind = TSource, rc_job = Some wxJob,
     rc_reservedAt = wxTime 0\<rparr>"

definition wxTurn :: FairInventoryTurn where
  "wxTurn = \<lparr>ft_RootID = 3, ft_RootPath = ''/'', ft_Kind = TSource, ft_Job = Some wxJob,
     ft_receipt = Some wxReceipt\<rparr>"

definition wxStore :: fstore where
  "wxStore = \<lparr>fs_id = 1, fs_readOnly = False, fs_schema = 14, fs_row = NoRow,
     fs_cursor = Inr (3, t_ns (wxTime 0)),
     fs_dispatch = Inr (Some \<lparr>d_last = t_ns (wxTime 0), d_next = t_ns (wxTime 30), d_chunks = 1,
       d_day = ''2023-11-14''\<rparr>),
     fs_jobs = [\<lparr>jr_id = 7, jr_root = 3, jr_kind = ScanKind, jr_status = ''running'',
       jr_token = replicate 32 CHR ''c'', jr_lease = t_ns (wxTime 60)\<rparr>]\<rparr>"

definition wxDay :: "gotime \<Rightarrow> string" where "wxDay t = ''2023-11-14''"

definition wxBegin :: "fstore \<times> CPUWindowMarker option \<times> err option" where
  "wxBegin = BeginCPUWindow wxDay good_env (Some (replicate 64 CHR ''d'')) wxStore (Some wxTurn)
     (wxTime 1) (replicate 32 CHR ''e'') (wxTime 0)"

definition wxBegun :: fstore where "wxBegun = fst wxBegin"

definition wxMarker :: CPUWindowMarker where "wxMarker = the (fst (snd wxBegin))"

definition wxState :: CPUFeedbackState where
  "wxState = fst (readCPUFeedback good_env (fs_row wxBegun))"

definition wxMeasured :: CPUWindowMeasurement where
  "wxMeasured = \<lparr>m_CPUTimeNS = Some 1000000000, m_ElapsedNS = Some 2000000000, m_Reason = RNone\<rparr>"

lemma wx_inv: "windowInv wxStore"
  by (simp add: windowInv_def wxStore_def)

lemma wx_step: "window_step wxStore wxBegun"
proof -
  have "BeginCPUWindow wxDay good_env (Some (replicate 64 CHR ''d'')) wxStore (Some wxTurn)
      (wxTime 1) (replicate 32 CHR ''e'') (wxTime 0) = (wxBegun, fst (snd wxBegin), snd (snd wxBegin))"
    by (simp add: wxBegun_def wxBegin_def)
  then show ?thesis
    by (rule window_step.begun [rotated]) (auto simp: wxTurn_def wxReceipt_def wxTime_def)
qed

lemma wx_read: "readCPUFeedback good_env (fs_row wxBegun) = (wxState, None)"
  by code_simp

lemma wx_pending: "f_Window wxState = Some (the (f_Window wxState))"
  "w_Status (the (f_Window wxState)) = FPending" "f_Status wxState = FPending"
  by code_simp+

section \<open>Properties\<close>

text \<open>Property C13. In an open writer, a pending window is settled by its marker whatever was
  measured: the call succeeds, the new state passes the writer's own validity check and is what a
  reader then finds, its deadline is the completion time plus one hundred times the CPU time less
  the elapsed time (at most one hour, and none when that is not positive or the CPU time is
  unknown), and repeating the call changes nothing and returns the same state.\<close>

theorem settle_pending_window:
  assumes inv: "windowInv st" "\<not> fs_readOnly st" "12 \<le> fs_schema st"
    and rd: "readCPUFeedback good_env (fs_row st) = (s, None)"
    and w: "f_Window s = Some r" "w_Status r = FPending"
    and mk: "mk_store marker = fs_id st" "w_Status (mk_record marker) = FPending"
      "sameCPUWindow (mk_record marker) r"
    and at: "okTime at" "\<not> tBefore at (the (f_ClockHighWater s))" "t_ns at + hour_ns \<le> maxInt64"
    and m: "cpuMeasurementValid m" "i64_opt (m_CPUTimeNS m)" "i64_opt (m_ElapsedNS m)"
  shows "\<exists>st' n. SettleCPUWindow good_env st marker at m = (st', Some n, None) \<and>
    validCPUFeedback n \<and> readCPUFeedback good_env (fs_row st') = (n, None) \<and>
    map_option t_ns (f_NextAllowedAt n) = (case m_CPUTimeNS m of None \<Rightarrow> None
       | Some c \<Rightarrow> (let b = min hour_ns (max 0 (100 * c - the (m_ElapsedNS m)))
           in if b = 0 then None else Some (t_ns at + b))) \<and>
    SettleCPUWindow good_env st' marker at m = (st', Some n, None)"
proof -
  note i = windowInv_read [OF inv(1) rd]
  have v: "validCPUFeedback s" "feedbackNormal s" using i(5) w(1) by simp_all
  have nx: "f_NextAllowedAt s = None" using v(1) w by (rule pendingE) blast
  obtain n where n: "settleState s r (toUTC at) m = Inr n"
    and due: "map_option t_ns (f_NextAllowedAt n) = (case m_CPUTimeNS m of None \<Rightarrow> None
       | Some c \<Rightarrow> (let b = min hour_ns (max 0 (100 * c - the (m_ElapsedNS m)))
           in if b = 0 then None else Some (t_ns at + b)))"
  proof -
    have prem: "okTime (toUTC at)" "t_ns (toUTC at) + hour_ns \<le> maxInt64" using at by simp_all
    show ?thesis
      by (rule settleState_defined [OF prem m nx, of r])
        (use that in \<open>simp only: time_simps\<close>)
  qed
  have nv: "validCPUFeedback n"
    using settleState_valid [OF v(1) w _ _ m i(1) n] at by (simp add: tBefore_def)
  note nn = terminalStep_normal [OF settleState_terminal [OF n] v(2) w(1) _ i(1,2), simplified]
  obtain r' where r': "f_Window n = Some r'" "sameWindowStart r r'"
    using settleState_terminal [OF n] by (auto simp: terminalStep_def)
  define st' where "st' = st\<lparr>fs_row := TypedRow (stateRow n r')\<rparr>"
  have run: "SettleCPUWindow good_env st marker at m = (st', Some n, None)"
    unfolding st'_def using inv(2,3) rd w mk at(1,2) m(1) n nv r'(1) by (rule settle_run)
  have rd': "readCPUFeedback good_env (fs_row st') = (n, None)"
    using read_written [of good_env n "stateRow n r'" good_env] nv nn(1) r'(1)
    by (simp add: st'_def writeCPUFeedback_def good_env_def)
  have "SettleCPUWindow good_env st' marker at m = (st', Some n, None)"
    using settle_retry [OF _ _ rd' r'(1) _ mk(2) sameCPUWindow_start [OF mk(3) r'(2)] at(1) m(1)
        settleState_outcome [OF n r'(1)]] inv(2,3) mk(1) by (simp add: st'_def)
  with run nv rd' due show ?thesis by blast
qed

text \<open>A window is never lost: while a window is pending, or before the deadline of
  the last one, or for a clock behind the saved one, \<open>BeginCPUWindow\<close> leaves the store as it is
  and returns no marker, under every outcome of the transaction.\<close>

theorem begin_respects_saved_window:
  assumes "readCPUFeedback env (fs_row st) = (s, None)"
    and "f_Status s = FPending \<or> (\<exists>t. f_NextAllowedAt s = Some t \<and> tBefore now t) \<or>
      (\<exists>h. f_ClockHighWater s = Some h \<and> tBefore now h)"
  shows "\<exists>e. BeginCPUWindow dayOf env rnd st claimed now inst started = (st, None, Some e)"
proof -
  define r where "r = the (ft_receipt (the claimed))"
  have "beginSavedError dayOf st s r (toUTC now) \<noteq> None"
    using assms(2) by (cases "f_ClockHighWater s"; cases "f_NextAllowedAt s")
      (auto simp: beginSavedError_def tBefore_def)
  then obtain e where e: "beginSavedError dayOf st s r (toUTC now) = Some e" by blast
  show ?thesis
    by (cases "cpuFeedbackWriter env st"; cases "beginInputError st claimed now inst started";
        cases "begin_err env")
      (simp_all add: BeginCPUWindow_def Let_def assms(1) e r_def [symmetric])
qed

text \<open>Whatever sequence of begins, settlements and recoveries runs, under any outcome
  of their transactions, a store with a readable row keeps a readable row, and its clock
  high-water mark never goes back.\<close>

theorem window_runs:
  assumes "windowInv st" "window_step\<^sup>*\<^sup>* st st'"
  shows "windowInv st' \<and> windowClock st \<le> windowClock st'"
  using window_ledger.run_inv [OF assms(2,1)] window_ledger.run_level [OF assms(2,1)] by blast

theorem window_runs_witness:
  "windowInv wxBegun \<and> windowClock wxStore \<le> windowClock wxBegun"
  by (rule window_runs [OF wx_inv r_into_rtranclp [of window_step, OF wx_step]])

theorem begin_respects_saved_window_witness:
  "\<exists>e. BeginCPUWindow wxDay good_env None wxBegun (Some wxTurn) (wxTime 5) (replicate 32 CHR ''e'')
     (wxTime 4) = (wxBegun, None, Some e)"
  by (rule begin_respects_saved_window [OF wx_read disjI1 [OF wx_pending(3)]])

theorem settle_pending_window_witness:
  "\<exists>st' n. SettleCPUWindow good_env wxBegun wxMarker (wxTime 3) wxMeasured = (st', Some n, None) \<and>
     map_option t_ns (f_NextAllowedAt n) = Some (t_ns (wxTime 101))"
proof -
  have inv: "windowInv wxBegun"
    using window_ledger.step_inv [OF wx_inv wx_step] .
  have h: "\<not> fs_readOnly wxBegun" "12 \<le> fs_schema wxBegun" "mk_store wxMarker = fs_id wxBegun"
      "w_Status (mk_record wxMarker) = FPending" "sameCPUWindow (mk_record wxMarker) (the (f_Window wxState))"
      "okTime (wxTime 3)" "\<not> tBefore (wxTime 3) (the (f_ClockHighWater wxState))"
      "t_ns (wxTime 3) + hour_ns \<le> maxInt64" "cpuMeasurementValid wxMeasured"
      "i64_opt (m_CPUTimeNS wxMeasured)" "i64_opt (m_ElapsedNS wxMeasured)"
    by code_simp+
  from settle_pending_window [OF inv h(1,2) wx_read wx_pending(1,2) h(3-)]
  show ?thesis by (auto simp: wxMeasured_def wxTime_def Let_def)
qed

text \<open>The bounded feedback formula is computed without overflow on all of \<open>int64\<close>: for
  a non-negative CPU time and a positive elapsed time the wait is one hundred times the CPU time less
  the elapsed time, clipped to the range from zero to one hour, and the flag says that it was
  clipped from above.\<close>

theorem feedback_wait_exact:
  assumes "0 \<le> cpu" "0 < elapsed" "i64 cpu" "i64 elapsed"
  shows "CPUFeedbackWait cpu elapsed =
    (min hour_ns (max 0 (100 * cpu - elapsed)), hour_ns < 100 * cpu - elapsed)"
  using assms by (rule CPUFeedbackWait_exact)

theorem feedback_wait_exact_witness: "CPUFeedbackWait maxInt64 1 = (hour_ns, True)"
  using feedback_wait_exact [of maxInt64 1] by (simp add: i64_def)

text \<open>A window record that was written is read back unchanged, and two records that
  leave the same row are the same record.\<close>

theorem window_row_roundtrip:
  assumes "writeCPUFeedback good_env s = Inr row" "feedbackNormal s"
  shows "readCPUFeedback good_env (TypedRow row) = (s, None) \<and>
    (\<forall>s'. writeCPUFeedback good_env s' = Inr row \<longrightarrow> feedbackNormal s' \<longrightarrow> s' = s)"
  using window_cell.load_save [OF assms] window_cell.save_inj [OF _ assms(1) _ assms(2)] by blast

theorem window_row_roundtrip_witness:
  "readCPUFeedback good_env (TypedRow (projr (writeCPUFeedback good_env wxState))) = (wxState, None)"
proof -
  have "writeCPUFeedback good_env wxState = Inr (projr (writeCPUFeedback good_env wxState))"
    "feedbackNormal wxState" by code_simp+
  from window_row_roundtrip [OF this] show ?thesis by blast
qed

end
