(* ===== verification/CPU_Charges.thy ===== *)
theory CPU_Charges
  imports CPU_Feedback
begin

text \<open>
  \<^verbatim>\<open>src/internal/state/cpu_charges.go\<close>: the ledger of CPU time charged to the sessions of the
  worker. A session starts with the cumulative CPU reading of its process (its prefix), is sampled
  with later readings, and is closed by a final sample, by an observation that cannot be trusted,
  or by recovery after an interruption. Here are the data, the validity check of the saved record
  and the transitions; the transactions around them are in \<open>CPU_Store\<close>.
\<close>

section \<open>Data\<close>

datatype session_status =
  SUnavailable | SUntracked | SActive | SFinished | SUnknown | SRecoveredUnknown

record CPUSessionStart =
  st_ExpectedGeneration :: int
  st_Nonce :: string
  st_Instance :: string
  st_ObservedAt :: gotime
  st_SelfCPUNS :: "int option"
  st_Reason :: cpu_reason

record CPUSessionSample =
  sp_Ordinal :: int
  sp_ObservedAt :: gotime
  sp_SelfCPUNS :: "int option"
  sp_ElapsedNS :: "int option"
  sp_Reason :: cpu_reason

record CPUSessionRecord =
  r_Generation :: int
  r_Start :: CPUSessionStart
  r_Status :: session_status
  r_InitialPrefixChargeNS :: int
  r_SessionChargedCPUNS :: int
  r_LastSelfCPUNS :: "int option"
  r_LastOrdinal :: int
  r_LastSample :: "CPUSessionSample option"
  r_LastSampleFinal :: bool
  r_ClosedAt :: "gotime option"
  r_ClosureReason :: cpu_reason
  r_LastChargeNS :: int
  r_LastBackoffNS :: int
  r_LastBackoffCapped :: bool

record CPUChargeState =
  s_Contract :: string
  s_Scope :: string
  s_Available :: bool
  s_Status :: session_status
  s_PrefixOverlapPossible :: bool
  s_UniqueProcessCPUVerified :: bool
  s_FullProcessLifetimeVerified :: bool
  s_WorkPermissionGranted :: bool
  s_Generation :: int
  s_ChargedCPUNS :: int
  s_ClosedSessions :: int
  s_UnknownTailSessions :: int
  s_OpenTailUnobserved :: bool
  s_RecoveredSessions :: int
  s_ActivatedAt :: "gotime option"
  s_ClockHighWater :: "gotime option"
  s_NextAllowedAt :: "gotime option"
  s_Session :: "CPUSessionRecord option"

definition CPUChargesContract :: string where
  "CPUChargesContract = ''worker_self_cpu_charges_v1''"

definition CPUChargesScope :: string where
  "CPUChargesScope = ''one_private_state_store_run_sessions''"

definition cpuChargesBase :: "bool \<Rightarrow> CPUChargeState" where
  "cpuChargesBase available =
     \<lparr>s_Contract = CPUChargesContract, s_Scope = CPUChargesScope, s_Available = available,
      s_Status = (if available then SUntracked else SUnavailable), s_PrefixOverlapPossible = True,
      s_UniqueProcessCPUVerified = False, s_FullProcessLifetimeVerified = False,
      s_WorkPermissionGranted = False, s_Generation = 0, s_ChargedCPUNS = 0, s_ClosedSessions = 0,
      s_UnknownTailSessions = 0, s_OpenTailUnobserved = False, s_RecoveredSessions = 0,
      s_ActivatedAt = None, s_ClockHighWater = None, s_NextAllowedAt = None, s_Session = None\<rparr>"

section \<open>Comparison and validity of requests\<close>

definition sameCPUStart :: "CPUSessionStart \<Rightarrow> CPUSessionStart \<Rightarrow> bool" where
  "sameCPUStart a b \<longleftrightarrow>
     st_ExpectedGeneration a = st_ExpectedGeneration b \<and> st_Nonce a = st_Nonce b \<and>
     st_Instance a = st_Instance b \<and> tEqual (st_ObservedAt a) (st_ObservedAt b) \<and>
     sameCPUNS (st_SelfCPUNS a) (st_SelfCPUNS b) \<and> st_Reason a = st_Reason b"

definition sameCPUSample :: "CPUSessionSample \<Rightarrow> CPUSessionSample \<Rightarrow> bool" where
  "sameCPUSample a b \<longleftrightarrow>
     sp_Ordinal a = sp_Ordinal b \<and> tEqual (sp_ObservedAt a) (sp_ObservedAt b) \<and>
     sameCPUNS (sp_SelfCPUNS a) (sp_SelfCPUNS b) \<and> sameCPUNS (sp_ElapsedNS a) (sp_ElapsedNS b) \<and>
     sp_Reason a = sp_Reason b"

definition cpuChargesReason :: "cpu_reason \<Rightarrow> bool" where
  "cpuChargesReason r \<longleftrightarrow> r = RUnavailable \<or> r = RInvalid"

definition cpuChargesInputCPU :: "int option \<Rightarrow> cpu_reason \<Rightarrow> bool" where
  "cpuChargesInputCPU cpu r \<longleftrightarrow> cpu \<noteq> None \<and> r = RNone \<or> cpu = None \<and> cpuChargesReason r"

definition cpuChargesTime :: "gotime \<Rightarrow> bool" where
  "cpuChargesTime at \<longleftrightarrow> \<not> isl (cpuFeedbackTime at) \<and> t_utc at"

definition cpuChargesStartValid :: "CPUSessionStart \<Rightarrow> bool" where
  "cpuChargesStartValid s \<longleftrightarrow>
     0 \<le> st_ExpectedGeneration s \<and> metadataDigest (st_Nonce s) 64 \<and>
     metadataDigest (st_Instance s) 32 \<and> cpuChargesTime (st_ObservedAt s) \<and>
     cpuChargesInputCPU (st_SelfCPUNS s) (st_Reason s)"

definition cpuChargesSampleValid :: "CPUSessionSample \<Rightarrow> bool" where
  "cpuChargesSampleValid s \<longleftrightarrow>
     0 < sp_Ordinal s \<and> cpuChargesTime (sp_ObservedAt s) \<and>
     cpuChargesInputCPU (sp_SelfCPUNS s) (sp_Reason s)"

definition cpuChargesProblem ::
  "int option \<Rightarrow> cpu_reason \<Rightarrow> int option \<Rightarrow> bool \<Rightarrow> cpu_reason" where
  "cpuChargesProblem cpu r elapsed requireElapsed =
     (case cpu of
        None \<Rightarrow> r
      | Some c \<Rightarrow>
          if c < 0 then RInvalid
          else if requireElapsed \<and> (case elapsed of None \<Rightarrow> True | Some e \<Rightarrow> e \<le> 0)
          then RElapsedInvalid else RNone)"

abbreviation startProblem :: "CPUSessionStart \<Rightarrow> cpu_reason" where
  "startProblem s \<equiv> cpuChargesProblem (st_SelfCPUNS s) (st_Reason s) None False"

abbreviation sampleProblem :: "CPUSessionSample \<Rightarrow> cpu_reason" where
  "sampleProblem q \<equiv> cpuChargesProblem (sp_SelfCPUNS q) (sp_Reason q) (sp_ElapsedNS q) True"

definition CPUChargesPrefixWait :: "int \<Rightarrow> int \<times> bool" where
  "CPUChargesPrefixWait cpu =
     (if cpu < 0 then (0, False)
      else if cpu > hour_ns sdiv 100 then (hour_ns, True)
      else (mul64 cpu 100, False))"

section \<open>Debt and closure\<close>

definition cpuChargesDebt ::
  "CPUChargeState \<Rightarrow> gotime \<Rightarrow> int \<Rightarrow> bool \<Rightarrow> err + CPUChargeState" where
  "cpuChargesDebt s at wait capped =
     (case cpuFeedbackAdd at wait of
        Inl _ \<Rightarrow> Inl ErrCPUChargesOverflow
      | Inr next \<Rightarrow>
          Inr (s\<lparr>s_Session := map_option (\<lambda>r. r\<lparr>r_LastBackoffNS := wait,
                    r_LastBackoffCapped := capped\<rparr>) (s_Session s),
                 s_NextAllowedAt :=
                   (if wait > 0 \<and> (case s_NextAllowedAt s of None \<Rightarrow> True
                                    | Some n \<Rightarrow> tAfter next n)
                    then Some next else s_NextAllowedAt s)\<rparr>))"

definition cpuChargesClose ::
  "CPUChargeState \<Rightarrow> gotime \<Rightarrow> session_status \<Rightarrow> cpu_reason \<Rightarrow> bool \<Rightarrow> err + CPUChargeState" where
  "cpuChargesClose s at status reason recovered =
     (if s_ClosedSessions s = maxInt64 \<or> s_UnknownTailSessions s = maxInt64 \<or>
         recovered \<and> s_RecoveredSessions s = maxInt64
      then Inl ErrCPUChargesOverflow
      else
        let s1 = s\<lparr>s_OpenTailUnobserved := False,
                   s_ClosedSessions := add64 (s_ClosedSessions s) 1,
                   s_UnknownTailSessions := add64 (s_UnknownTailSessions s) 1,
                   s_RecoveredSessions :=
                     (if recovered then add64 (s_RecoveredSessions s) 1
                      else s_RecoveredSessions s),
                   s_Status := status,
                   s_Session := map_option (\<lambda>r. r\<lparr>r_Status := status, r_ClosedAt := Some at,
                     r_ClosureReason := reason\<rparr>) (s_Session s)\<rparr>
        in if status = SUnknown \<or> status = SRecoveredUnknown
           then cpuChargesDebt
             (s1\<lparr>s_Session := map_option (\<lambda>r. r\<lparr>r_LastChargeNS := 0\<rparr>) (s_Session s1)\<rparr>)
             at hour_ns False
           else Inr s1)"

section \<open>Validity of the saved ledger\<close>

text \<open>\<open>validCPUCharges\<close>, in the order of the source.\<close>

definition validChargesHeader :: "CPUChargeState \<Rightarrow> bool" where
  "validChargesHeader s \<longleftrightarrow>
     s_Contract s = CPUChargesContract \<and> s_Scope s = CPUChargesScope \<and> s_Available s \<and>
     s_PrefixOverlapPossible s \<and> \<not> s_UniqueProcessCPUVerified s \<and>
     \<not> s_FullProcessLifetimeVerified s \<and> \<not> s_WorkPermissionGranted s \<and> 0 \<le> s_Generation s \<and>
     0 \<le> s_ChargedCPUNS s \<and> 0 \<le> s_ClosedSessions s \<and>
     s_UnknownTailSessions s = s_ClosedSessions s \<and> 0 \<le> s_RecoveredSessions s \<and>
     s_RecoveredSessions s \<le> s_ClosedSessions s \<and>
     (case (s_ActivatedAt s, s_ClockHighWater s) of
        (Some a, Some h) \<Rightarrow> cpuChargesTime a \<and> cpuChargesTime h \<and> \<not> tBefore h a
      | _ \<Rightarrow> False)"

definition validChargesDebt :: "CPUChargeState \<Rightarrow> bool" where
  "validChargesDebt s \<longleftrightarrow> (case s_NextAllowedAt s of
       None \<Rightarrow> True
     | Some n \<Rightarrow> cpuChargesTime n \<and> tSub n (the (s_ClockHighWater s)) \<le> hour_ns)"

definition validChargesUntracked :: "CPUChargeState \<Rightarrow> bool" where
  "validChargesUntracked s \<longleftrightarrow>
     s_Status s = SUntracked \<and> s_Session s = None \<and> s_ChargedCPUNS s = 0 \<and>
     s_ClosedSessions s = 0 \<and> s_NextAllowedAt s = None \<and> \<not> s_OpenTailUnobserved s"

definition validChargesSession :: "CPUChargeState \<Rightarrow> CPUSessionRecord \<Rightarrow> bool" where
  "validChargesSession s r \<longleftrightarrow>
     r_Generation r = s_Generation s \<and> cpuChargesStartValid (r_Start r) \<and>
     st_ExpectedGeneration (r_Start r) \<noteq> maxInt64 \<and>
     add64 (st_ExpectedGeneration (r_Start r)) 1 = r_Generation r \<and>
     \<not> tBefore (st_ObservedAt (r_Start r)) (the (s_ActivatedAt s)) \<and>
     \<not> tAfter (st_ObservedAt (r_Start r)) (the (s_ClockHighWater s)) \<and>
     r_Status r = s_Status s \<and> 0 \<le> r_InitialPrefixChargeNS r \<and>
     r_InitialPrefixChargeNS r \<le> r_SessionChargedCPUNS r \<and>
     r_SessionChargedCPUNS r \<le> s_ChargedCPUNS s \<and> 0 \<le> r_LastOrdinal r \<and>
     0 \<le> r_LastChargeNS r \<and> r_LastChargeNS r \<le> r_SessionChargedCPUNS r \<and>
     0 \<le> r_LastBackoffNS r \<and> r_LastBackoffNS r \<le> hour_ns"

definition nonnegCPU :: "int option \<Rightarrow> int option" where
  "nonnegCPU cpu = (case cpu of None \<Rightarrow> None | Some c \<Rightarrow> if c < 0 then None else Some c)"

definition validChargesPrefix :: "CPUSessionRecord \<Rightarrow> bool" where
  "validChargesPrefix r \<longleftrightarrow>
     r_InitialPrefixChargeNS r =
       (case nonnegCPU (st_SelfCPUNS (r_Start r)) of None \<Rightarrow> 0 | Some c \<Rightarrow> c) \<and>
     (case r_LastSelfCPUNS r of
        None \<Rightarrow> r_SessionChargedCPUNS r = 0
      | Some c \<Rightarrow> 0 \<le> c \<and> c = r_SessionChargedCPUNS r)"

definition validChargesSample :: "CPUChargeState \<Rightarrow> CPUSessionRecord \<Rightarrow> bool" where
  "validChargesSample s r \<longleftrightarrow> (case r_LastSample r of
       None \<Rightarrow> r_LastOrdinal r = 0 \<and> \<not> r_LastSampleFinal r \<and>
         sameCPUNS (r_LastSelfCPUNS r) (nonnegCPU (st_SelfCPUNS (r_Start r)))
     | Some q \<Rightarrow> cpuChargesSampleValid q \<and> sp_Ordinal q = r_LastOrdinal r \<and>
         \<not> tAfter (sp_ObservedAt q) (the (s_ClockHighWater s)))"

text \<open>The backoff of an active or finished session is the one its last charge implies, counted
  from the high-water mark, and the deadline is not before it.\<close>

definition validChargesFeedback :: "CPUChargeState \<Rightarrow> CPUSessionRecord \<Rightarrow> bool" where
  "validChargesFeedback s r =
     (if r_Status r = SActive \<or> r_Status r = SFinished
      then
        (case r_LastSample r of
           None \<Rightarrow> r_LastChargeNS r = r_InitialPrefixChargeNS r
         | Some q \<Rightarrow> sampleProblem q = RNone \<and>
             r_InitialPrefixChargeNS r \<le> the (sp_SelfCPUNS q) \<and>
             sameCPUNS (r_LastSelfCPUNS r) (sp_SelfCPUNS q)) \<and>
        (let (anchor, wait, capped) =
           (case r_LastSample r of
              None \<Rightarrow> (st_ObservedAt (r_Start r), CPUChargesPrefixWait (r_InitialPrefixChargeNS r))
            | Some q \<Rightarrow>
                (sp_ObservedAt q, CPUFeedbackWait (r_LastChargeNS r) (the (sp_ElapsedNS q))))
         in r_LastBackoffNS r = wait \<and> r_LastBackoffCapped r = capped \<and>
            tEqual anchor (the (s_ClockHighWater s)) \<and>
            \<not> (wait > 0 \<and> (case s_NextAllowedAt s of None \<Rightarrow> True
                 | Some n \<Rightarrow> tBefore n (tAdd anchor wait))))
      else True)"

definition validChargesActive :: "CPUChargeState \<Rightarrow> CPUSessionRecord \<Rightarrow> bool" where
  "validChargesActive s r \<longleftrightarrow>
     s_OpenTailUnobserved s \<and> s_ClosedSessions s = sub64 (s_Generation s) 1 \<and>
     r_ClosedAt r = None \<and> r_ClosureReason r = RNone \<and>
     nonnegCPU (st_SelfCPUNS (r_Start r)) \<noteq> None \<and> \<not> r_LastSampleFinal r"

definition validUnknownReason :: "CPUSessionRecord \<Rightarrow> gotime \<Rightarrow> bool" where
  "validUnknownReason r closed \<longleftrightarrow> (case r_LastSample r of
       None \<Rightarrow> startProblem (r_Start r) = r_ClosureReason r \<and> r_ClosureReason r \<noteq> RNone
     | Some q \<Rightarrow>
         sampleProblem q \<noteq> RNone \<and> sampleProblem q = r_ClosureReason r \<or>
         r_ClosureReason r = RClockRollback \<and> tBefore (sp_ObservedAt q) closed \<or>
         r_ClosureReason r = RRegressed \<and> sampleProblem q = RNone \<and>
           (case r_LastSelfCPUNS r of None \<Rightarrow> False | Some c \<Rightarrow> the (sp_SelfCPUNS q) < c))"

definition unknownDebt :: "CPUChargeState \<Rightarrow> CPUSessionRecord \<Rightarrow> gotime \<Rightarrow> bool" where
  "unknownDebt s r closed \<longleftrightarrow>
     r_LastBackoffNS r = hour_ns \<and> \<not> r_LastBackoffCapped r \<and>
     (case s_NextAllowedAt s of None \<Rightarrow> False | Some n \<Rightarrow> \<not> tBefore n (tAdd closed hour_ns))"

definition validChargesClosed :: "CPUChargeState \<Rightarrow> CPUSessionRecord \<Rightarrow> bool" where
  "validChargesClosed s r \<longleftrightarrow>
     \<not> s_OpenTailUnobserved s \<and> s_ClosedSessions s = s_Generation s \<and>
     (case r_ClosedAt r of
        None \<Rightarrow> False
      | Some closed \<Rightarrow>
          cpuChargesTime closed \<and> \<not> tBefore closed (st_ObservedAt (r_Start r)) \<and>
          \<not> tAfter closed (the (s_ClockHighWater s)) \<and>
          (case r_Status r of
             SFinished \<Rightarrow> (case r_LastSample r of None \<Rightarrow> False | Some q \<Rightarrow>
               tEqual closed (sp_ObservedAt q) \<and> r_ClosureReason r = RGracefulTail \<and>
               r_LastSampleFinal r \<and> sampleProblem q = RNone \<and>
               (case r_LastSelfCPUNS r of None \<Rightarrow> False | Some c \<Rightarrow> c = the (sp_SelfCPUNS q)))
           | SRecoveredUnknown \<Rightarrow> r_ClosureReason r = RInterruptedSession \<and>
               0 < s_RecoveredSessions s \<and> unknownDebt s r closed
           | SUnknown \<Rightarrow> validUnknownReason r closed \<and> r_LastChargeNS r = 0 \<and>
               unknownDebt s r closed
           | _ \<Rightarrow> False))"

definition validCPUCharges :: "CPUChargeState \<Rightarrow> bool" where
  "validCPUCharges s \<longleftrightarrow>
     validChargesHeader s \<and> validChargesDebt s \<and>
     (if s_Generation s = 0 then validChargesUntracked s
      else case s_Session s of
          None \<Rightarrow> False
        | Some r \<Rightarrow>
            validChargesSession s r \<and> validChargesPrefix r \<and> validChargesSample s r \<and>
            validChargesFeedback s r \<and>
            (if r_Status r = SActive then validChargesActive s r else validChargesClosed s r))"

section \<open>Transitions\<close>

text \<open>The body of \<open>BeginCPUSession\<close> after its guards: the session that is still active is
  closed as recovered, then the new one starts.\<close>

definition freshSession :: "int \<Rightarrow> CPUSessionStart \<Rightarrow> CPUSessionRecord" where
  "freshSession gen start =
     \<lparr>r_Generation = gen, r_Start = start, r_Status = SActive, r_InitialPrefixChargeNS = 0,
      r_SessionChargedCPUNS = 0, r_LastSelfCPUNS = None, r_LastOrdinal = 0, r_LastSample = None,
      r_LastSampleFinal = False, r_ClosedAt = None, r_ClosureReason = RNone, r_LastChargeNS = 0,
      r_LastBackoffNS = 0, r_LastBackoffCapped = False\<rparr>"

definition startSession :: "CPUChargeState \<Rightarrow> CPUSessionStart \<Rightarrow> err + CPUChargeState" where
  "startSession next0 start =
     (let gen = add64 (s_Generation next0) 1;
          next = next0\<lparr>s_Generation := gen, s_ClockHighWater := Some (st_ObservedAt start),
                       s_Status := SActive, s_OpenTailUnobserved := True,
                       s_Session := Some (freshSession gen start)\<rparr>;
          problem = startProblem start
      in if problem = RNone
         then
           (let charge = the (st_SelfCPUNS start)
            in if charge > sub64 maxInt64 (s_ChargedCPUNS next) then Inl ErrCPUChargesOverflow
               else
                 let (wait, capped) = CPUChargesPrefixWait charge
                 in cpuChargesDebt
                      (next\<lparr>s_ChargedCPUNS := add64 (s_ChargedCPUNS next) charge,
                            s_Session := Some ((freshSession gen start)
                              \<lparr>r_InitialPrefixChargeNS := charge, r_LastChargeNS := charge,
                               r_SessionChargedCPUNS := charge,
                               r_LastSelfCPUNS := st_SelfCPUNS start\<rparr>)\<rparr>)
                      (st_ObservedAt start) wait capped)
         else cpuChargesClose next (st_ObservedAt start) SUnknown problem False)"

definition beginCharges :: "CPUChargeState \<Rightarrow> CPUSessionStart \<Rightarrow> err + CPUChargeState" where
  "beginCharges prior start =
     (case (if (case s_Session prior of None \<Rightarrow> False | Some r \<Rightarrow> r_Status r = SActive)
            then cpuChargesClose prior (st_ObservedAt start) SRecoveredUnknown
                   RInterruptedSession True
            else Inr prior) of
        Inl e \<Rightarrow> Inl e
      | Inr next \<Rightarrow> startSession next start)"

text \<open>The body of \<open>sampleCPUSession\<close> after its guards, with the problem it found.\<close>

definition sampleProblemAt :: "CPUSessionRecord \<Rightarrow> CPUSessionSample \<Rightarrow> gotime \<Rightarrow> cpu_reason" where
  "sampleProblemAt r q high =
     (let p = (if tBefore (sp_ObservedAt q) high then RClockRollback else sampleProblem q)
      in if p = RNone \<and> the (sp_SelfCPUNS q) < the (r_LastSelfCPUNS r) then RRegressed else p)"

definition chargeSample ::
  "CPUChargeState \<Rightarrow> CPUSessionRecord \<Rightarrow> CPUSessionSample \<Rightarrow> bool \<Rightarrow> gotime \<Rightarrow>
   err + CPUChargeState" where
  "chargeSample next r q finish at =
     (let delta = sub64 (the (sp_SelfCPUNS q)) (the (r_LastSelfCPUNS r))
      in if delta > sub64 maxInt64 (s_ChargedCPUNS next) then Inl ErrCPUChargesOverflow
         else
           let (wait, capped) = CPUFeedbackWait delta (the (sp_ElapsedNS q));
               next1 = next\<lparr>s_ChargedCPUNS := add64 (s_ChargedCPUNS next) delta,
                            s_Session := Some (r\<lparr>r_LastChargeNS := delta,
                              r_SessionChargedCPUNS := the (sp_SelfCPUNS q),
                              r_LastSelfCPUNS := sp_SelfCPUNS q\<rparr>)\<rparr>
           in case cpuChargesDebt next1 at wait capped of
                Inl e \<Rightarrow> Inl e
              | Inr next2 \<Rightarrow>
                  if finish then cpuChargesClose next2 at SFinished RGracefulTail False
                  else Inr next2)"

definition sampleCharges ::
  "CPUChargeState \<Rightarrow> CPUSessionSample \<Rightarrow> bool \<Rightarrow> err + (CPUChargeState \<times> cpu_reason)" where
  "sampleCharges prior q finish =
     (let high = the (s_ClockHighWater prior);
          r = (the (s_Session prior))\<lparr>r_LastSample := Some q, r_LastSampleFinal := finish,
                r_LastOrdinal := sp_Ordinal q\<rparr>;
          rollback = tBefore (sp_ObservedAt q) high;
          at = (if rollback then high else sp_ObservedAt q);
          next = prior\<lparr>s_Session := Some r,
                       s_ClockHighWater := (if rollback then Some high else Some at)\<rparr>;
          problem = sampleProblemAt r q high
      in if problem \<noteq> RNone
         then (case cpuChargesClose next at SUnknown problem False of
                 Inl e \<Rightarrow> Inl e | Inr n \<Rightarrow> Inr (n, problem))
         else (case chargeSample next r q finish at of
                 Inl e \<Rightarrow> Inl e | Inr n \<Rightarrow> Inr (n, problem)))"

definition recoverCharges :: "CPUChargeState \<Rightarrow> gotime \<Rightarrow> err + CPUChargeState" where
  "recoverCharges prior at =
     cpuChargesClose (prior\<lparr>s_ClockHighWater := Some at\<rparr>) at SRecoveredUnknown
       RInterruptedSession True"

end
