(* ===== verification/CPU_Admission.thy ===== *)
theory CPU_Admission
  imports CPU_Charges
begin

text \<open>
  \<^verbatim>\<open>src/internal/state/cpu_charge_admission.go\<close>: the admission record kept beside the charge
  ledger. It assigns every nanosecond charged after its activation to the UTC hour and the UTC day
  of the observation that brought it, remembers whether a period was only partly tracked or holds
  an unknown observation, and carries the policy (limits and revision), the last limited start and
  the last tracking gap. Here are the data, the validity check, the period arithmetic and the
  transitions of \<^verbatim>\<open>cpu_charge_admission_transitions.go\<close> on the two records; the transactions are in
  \<open>CPU_Store\<close>.
\<close>

section \<open>Data\<close>

record CPUChargeLimits =
  l_HourNS :: int
  l_DayNS :: int

record CPULimitedSessionStart =
  q_Start :: CPUSessionStart
  q_ExpectedPolicyRevision :: int
  q_Limits :: CPUChargeLimits

record CPUTrackingGapRequest =
  g_ExpectedPolicyRevision :: int
  g_ExpectedGeneration :: int
  g_Nonce :: string
  g_ObservedAt :: gotime

record CPUTrackingGapReceipt =
  gr_Request :: CPUTrackingGapRequest
  gr_RequestID :: string
  gr_AppliedRevision :: int

record CPUChargePeriod =
  p_StartNS :: int
  p_NextBoundaryNS :: int
  p_AssignedCPUNS :: int
  p_RetiredAssignedCPUNS :: int
  p_PartialTracking :: bool
  p_BlockingUnknown :: bool

record CPUChargeAdmissionState =
  a_Contract :: string
  a_Scope :: string
  a_Version :: int
  a_Available :: bool
  a_EndpointAssignedCharges :: bool
  a_PrefixOverlapPossible :: bool
  a_CurrentWorkPermissionEvaluated :: bool
  a_WorkPermissionGranted :: bool
  a_PhysicalPeriodCPUVerified :: bool
  a_GlobalCPUQuotaVerified :: bool
  a_FullProcessCPUVerified :: bool
  a_ActivatedAt :: "gotime option"
  a_ClockHighWater :: "gotime option"
  a_ActivationBaselineCPUNS :: int
  a_PolicyRevision :: int
  a_Limits :: CPUChargeLimits
  a_Hour :: CPUChargePeriod
  a_Day :: CPUChargePeriod
  a_CPUGeneration :: int
  a_CPUOrdinal :: int
  a_CPUStateDigest :: string
  a_BeginRequest :: "CPULimitedSessionStart option"
  a_BeginAppliedRevision :: int
  a_TrackingGapOpen :: bool
  a_GapOpenedAt :: "gotime option"
  a_GapClosedAt :: "gotime option"
  a_LatestGap :: "CPUTrackingGapReceipt option"

text \<open>\<open>cpuAdmissionID\<close> names a value by the SHA-256 digest of its JSON encoding behind a prefix.
  The digests are parameters of the model, one for each kind of value that is named.\<close>

record admission_ids =
  id_state :: "CPUChargeState \<Rightarrow> string"
  id_gap :: "CPUTrackingGapRequest \<Rightarrow> string"
  id_activate :: "gotime \<Rightarrow> CPUChargeLimits \<Rightarrow> string"
  id_begin :: "CPULimitedSessionStart \<Rightarrow> string"
  id_sample :: "CPULimitedSessionStart \<Rightarrow> CPUSessionSample \<Rightarrow> bool \<Rightarrow> string"
  id_recover :: "int \<Rightarrow> int \<Rightarrow> gotime \<Rightarrow> string"

definition CPUChargeAdmissionContract :: string where
  "CPUChargeAdmissionContract = ''worker_cpu_charge_admission_v1''"

definition CPUChargeAdmissionScope :: string where
  "CPUChargeAdmissionScope = ''one_private_state_store_utc_endpoint_assigned_charges''"

definition zeroPeriod :: CPUChargePeriod where
  "zeroPeriod = \<lparr>p_StartNS = 0, p_NextBoundaryNS = 0, p_AssignedCPUNS = 0,
     p_RetiredAssignedCPUNS = 0, p_PartialTracking = False, p_BlockingUnknown = False\<rparr>"

definition cpuAdmissionBase :: "bool \<Rightarrow> CPUChargeAdmissionState" where
  "cpuAdmissionBase available =
     \<lparr>a_Contract = CPUChargeAdmissionContract, a_Scope = CPUChargeAdmissionScope, a_Version = 1,
      a_Available = available, a_EndpointAssignedCharges = True, a_PrefixOverlapPossible = True,
      a_CurrentWorkPermissionEvaluated = False, a_WorkPermissionGranted = False,
      a_PhysicalPeriodCPUVerified = False, a_GlobalCPUQuotaVerified = False,
      a_FullProcessCPUVerified = False, a_ActivatedAt = None, a_ClockHighWater = None,
      a_ActivationBaselineCPUNS = 0, a_PolicyRevision = 0, a_Limits = \<lparr>l_HourNS = 0, l_DayNS = 0\<rparr>,
      a_Hour = zeroPeriod, a_Day = zeroPeriod, a_CPUGeneration = 0, a_CPUOrdinal = 0,
      a_CPUStateDigest = [], a_BeginRequest = None, a_BeginAppliedRevision = 0,
      a_TrackingGapOpen = False, a_GapOpenedAt = None, a_GapClosedAt = None, a_LatestGap = None\<rparr>"

section \<open>Limits, periods and requests\<close>

definition cpuAdmissionLimitsValid :: "CPUChargeLimits \<Rightarrow> bool" where
  "cpuAdmissionLimitsValid l \<longleftrightarrow>
     0 \<le> l_HourNS l \<and> l_HourNS l \<le> hour_ns \<and> 0 \<le> l_DayNS l \<and> l_DayNS l \<le> day_ns"

definition admissionSlot :: "int \<Rightarrow> int \<Rightarrow> err + CPUChargePeriod" where
  "admissionSlot n d =
     (let start = sub64 n (n smod d)
      in if start > sub64 maxInt64 d then Inl ErrCPUChargesOverflow
         else Inr (zeroPeriod\<lparr>p_StartNS := start, p_NextBoundaryNS := add64 start d\<rparr>))"

definition cpuAdmissionSlots :: "gotime \<Rightarrow> err + (CPUChargePeriod \<times> CPUChargePeriod)" where
  "cpuAdmissionSlots at =
     (if \<not> cpuChargesTime at then Inl ErrCPUChargeAdmissionInvalid
      else case admissionSlot (unixNano at) hour_ns of
          Inl e \<Rightarrow> Inl e
        | Inr h \<Rightarrow> (case admissionSlot (unixNano at) day_ns of
              Inl e \<Rightarrow> Inl e
            | Inr d \<Rightarrow> Inr (h, d)))"

definition cpuAdmissionTime :: "gotime \<Rightarrow> bool" where
  "cpuAdmissionTime at \<longleftrightarrow> cpuChargesTime at \<and> \<not> isl (cpuAdmissionSlots at)"

definition ValidCPUTrackingGapRequestID :: "string \<Rightarrow> bool" where
  "ValidCPUTrackingGapRequestID i =
     (let prefix = ''cpu-tracking-gap-v1-''
      in length i = length prefix + 64 \<and> take (length prefix) i = prefix \<and>
         metadataDigest (drop (length prefix) i) 64)"

definition validCPUGapRequest :: "CPUTrackingGapRequest \<Rightarrow> bool" where
  "validCPUGapRequest q \<longleftrightarrow>
     0 \<le> g_ExpectedGeneration q \<and> 0 \<le> g_ExpectedPolicyRevision q \<and>
     metadataDigest (g_Nonce q) 64 \<and> cpuAdmissionTime (g_ObservedAt q)"

definition sameCPUGapRequest :: "CPUTrackingGapRequest \<Rightarrow> CPUTrackingGapRequest \<Rightarrow> bool" where
  "sameCPUGapRequest a b \<longleftrightarrow>
     g_ExpectedGeneration a = g_ExpectedGeneration b \<and>
     g_ExpectedPolicyRevision a = g_ExpectedPolicyRevision b \<and> g_Nonce a = g_Nonce b \<and>
     tEqual (g_ObservedAt a) (g_ObservedAt b)"

definition sameCPULimitedStart :: "CPULimitedSessionStart \<Rightarrow> CPULimitedSessionStart \<Rightarrow> bool" where
  "sameCPULimitedStart a b \<longleftrightarrow>
     q_ExpectedPolicyRevision a = q_ExpectedPolicyRevision b \<and> q_Limits a = q_Limits b \<and>
     sameCPUStart (q_Start a) (q_Start b)"

definition validCPULimitedStart :: "CPULimitedSessionStart \<Rightarrow> bool" where
  "validCPULimitedStart q \<longleftrightarrow>
     0 \<le> q_ExpectedPolicyRevision q \<and> cpuAdmissionLimitsValid (q_Limits q) \<and>
     cpuChargesStartValid (q_Start q) \<and> cpuAdmissionTime (st_ObservedAt (q_Start q))"

definition ledgerOrdinal :: "CPUChargeState \<Rightarrow> int" where
  "ledgerOrdinal c = (case s_Session c of None \<Rightarrow> 0 | Some r \<Rightarrow> r_LastOrdinal r)"

definition bindCPUAdmission ::
  "admission_ids \<Rightarrow> CPUChargeAdmissionState \<Rightarrow> CPUChargeState \<Rightarrow> CPUChargeAdmissionState" where
  "bindCPUAdmission ids a c =
     a\<lparr>a_CPUGeneration := s_Generation c, a_CPUOrdinal := ledgerOrdinal c,
       a_CPUStateDigest := id_state ids c\<rparr>"

section \<open>Validity of the saved admission record\<close>

definition validAdmissionHeader ::
  "admission_ids \<Rightarrow> CPUChargeAdmissionState \<Rightarrow> CPUChargeState \<Rightarrow> bool" where
  "validAdmissionHeader ids a c \<longleftrightarrow>
     a_Contract a = CPUChargeAdmissionContract \<and> a_Scope a = CPUChargeAdmissionScope \<and>
     a_Version a = 1 \<and> a_Available a \<and> a_EndpointAssignedCharges a \<and> a_PrefixOverlapPossible a \<and>
     \<not> a_CurrentWorkPermissionEvaluated a \<and> \<not> a_WorkPermissionGranted a \<and>
     \<not> a_PhysicalPeriodCPUVerified a \<and> \<not> a_GlobalCPUQuotaVerified a \<and>
     \<not> a_FullProcessCPUVerified a \<and> validCPUCharges c \<and>
     (case (a_ActivatedAt a, a_ClockHighWater a) of
        (Some t, Some h) \<Rightarrow>
          cpuAdmissionTime t \<and> cpuAdmissionTime h \<and> \<not> tBefore t (the (s_ActivatedAt c)) \<and>
          \<not> tBefore h t \<and> \<not> tBefore h (the (s_ClockHighWater c))
      | _ \<Rightarrow> False) \<and>
     0 \<le> a_ActivationBaselineCPUNS a \<and> a_ActivationBaselineCPUNS a \<le> s_ChargedCPUNS c \<and>
     0 \<le> a_PolicyRevision a \<and> cpuAdmissionLimitsValid (a_Limits a) \<and>
     a_CPUGeneration a = s_Generation c \<and> a_CPUStateDigest a = id_state ids c \<and>
     ledgerOrdinal c = a_CPUOrdinal a"

text \<open>One saved period against the slot of the high-water mark: the baseline, what earlier periods
  were assigned and what this one was assigned make up the ledger's total.\<close>

definition validPeriod ::
  "CPUChargeAdmissionState \<Rightarrow> CPUChargeState \<Rightarrow> CPUChargePeriod \<Rightarrow> CPUChargePeriod \<Rightarrow> bool" where
  "validPeriod a c s w \<longleftrightarrow>
     p_StartNS s = p_StartNS w \<and> p_NextBoundaryNS s = p_NextBoundaryNS w \<and>
     0 \<le> p_AssignedCPUNS s \<and> 0 \<le> p_RetiredAssignedCPUNS s \<and>
     p_RetiredAssignedCPUNS s \<le> sub64 maxInt64 (a_ActivationBaselineCPUNS a) \<and>
     p_AssignedCPUNS s \<le>
       sub64 (sub64 maxInt64 (a_ActivationBaselineCPUNS a)) (p_RetiredAssignedCPUNS s) \<and>
     add64 (add64 (a_ActivationBaselineCPUNS a) (p_RetiredAssignedCPUNS s)) (p_AssignedCPUNS s) =
       s_ChargedCPUNS c"

definition validPeriodMarks ::
  "CPUChargeAdmissionState \<Rightarrow> CPUChargeState \<Rightarrow> CPUChargePeriod \<Rightarrow> CPUChargePeriod \<Rightarrow> int \<Rightarrow> bool"
  where
  "validPeriodMarks a c slot activation duration \<longleftrightarrow>
     (p_StartNS slot = p_StartNS activation \<longrightarrow> p_PartialTracking slot) \<and>
     (case a_GapClosedAt a of None \<Rightarrow> True | Some t \<Rightarrow>
        unixNano t sdiv duration = p_StartNS slot sdiv duration \<longrightarrow> p_PartialTracking slot) \<and>
     (case s_Session c of None \<Rightarrow> True | Some r \<Rightarrow> (case r_ClosedAt r of None \<Rightarrow> True | Some t \<Rightarrow>
        a_BeginRequest a \<noteq> None \<and> (s_Status c = SUnknown \<or> s_Status c = SRecoveredUnknown) \<and>
        unixNano t sdiv duration = p_StartNS slot sdiv duration \<longrightarrow> p_BlockingUnknown slot))"

definition validAdmissionPeriods :: "CPUChargeAdmissionState \<Rightarrow> CPUChargeState \<Rightarrow> bool" where
  "validAdmissionPeriods a c \<longleftrightarrow>
     (case cpuAdmissionSlots (the (a_ClockHighWater a)) of
        Inl _ \<Rightarrow> False
      | Inr (h, d) \<Rightarrow> validPeriod a c (a_Hour a) h \<and> validPeriod a c (a_Day a) d) \<and>
     (a_PolicyRevision a = 0 \<longrightarrow>
        a_BeginRequest a = None \<and> a_LatestGap a = None \<and>
        tEqual (the (a_ClockHighWater a)) (the (a_ActivatedAt a)) \<and>
        a_ActivationBaselineCPUNS a = s_ChargedCPUNS c) \<and>
     (case cpuAdmissionSlots (the (a_ActivatedAt a)) of
        Inl _ \<Rightarrow> False
      | Inr (h, d) \<Rightarrow>
          validPeriodMarks a c (a_Hour a) h hour_ns \<and> validPeriodMarks a c (a_Day a) d day_ns)"

definition validAdmissionBegin :: "CPUChargeAdmissionState \<Rightarrow> CPUChargeState \<Rightarrow> bool" where
  "validAdmissionBegin a c \<longleftrightarrow> (case a_BeginRequest a of
       None \<Rightarrow> a_BeginAppliedRevision a = 0 \<and>
         \<not> (l_HourNS (a_Limits a) = 0 \<and> l_DayNS (a_Limits a) = 0)
     | Some q \<Rightarrow> validCPULimitedStart q \<and> q_ExpectedPolicyRevision q \<noteq> maxInt64 \<and>
         add64 (q_ExpectedPolicyRevision q) 1 = a_BeginAppliedRevision a \<and>
         a_BeginAppliedRevision a \<le> a_PolicyRevision a \<and> q_Limits q = a_Limits a \<and>
         (case s_Session c of None \<Rightarrow> False | Some r \<Rightarrow> sameCPUStart (q_Start q) (r_Start r)))"

definition validGapReceipt ::
  "admission_ids \<Rightarrow> CPUChargeAdmissionState \<Rightarrow> CPUChargeState \<Rightarrow> CPUTrackingGapReceipt \<Rightarrow> bool" where
  "validGapReceipt ids a c r \<longleftrightarrow>
     validCPUGapRequest (gr_Request r) \<and> g_ExpectedPolicyRevision (gr_Request r) \<noteq> maxInt64 \<and>
     gr_AppliedRevision r = add64 (g_ExpectedPolicyRevision (gr_Request r)) 1 \<and>
     gr_AppliedRevision r \<le> a_PolicyRevision a \<and>
     g_ExpectedGeneration (gr_Request r) \<le> s_Generation c \<and>
     gr_RequestID r = id_gap ids (gr_Request r) \<and>
     (case a_GapOpenedAt a of None \<Rightarrow> False | Some t \<Rightarrow>
        tEqual t (g_ObservedAt (gr_Request r)) \<and> \<not> tAfter t (the (a_ClockHighWater a)) \<and>
        \<not> tBefore t (the (a_ActivatedAt a)))"

definition validAdmissionGap ::
  "admission_ids \<Rightarrow> CPUChargeAdmissionState \<Rightarrow> CPUChargeState \<Rightarrow> bool" where
  "validAdmissionGap ids a c = (case a_LatestGap a of
       None \<Rightarrow> \<not> a_TrackingGapOpen a \<and> a_GapOpenedAt a = None \<and> a_GapClosedAt a = None \<and>
         (a_PolicyRevision a = 0 \<or>
          a_BeginRequest a \<noteq> None \<and> a_BeginAppliedRevision a = a_PolicyRevision a)
     | Some r \<Rightarrow> validGapReceipt ids a c r \<and>
         (if a_TrackingGapOpen a
          then gr_AppliedRevision r = a_PolicyRevision a \<and>
            g_ExpectedGeneration (gr_Request r) = s_Generation c \<and> a_GapClosedAt a = None \<and>
            p_PartialTracking (a_Hour a) \<and> p_PartialTracking (a_Day a) \<and>
            p_BlockingUnknown (a_Hour a) \<and> p_BlockingUnknown (a_Day a) \<and> s_Status c \<noteq> SActive
          else (case a_GapClosedAt a of None \<Rightarrow> False | Some t \<Rightarrow>
            cpuAdmissionTime t \<and> \<not> tBefore t (the (a_GapOpenedAt a)) \<and>
            \<not> tAfter t (the (a_ClockHighWater a)) \<and>
            (case a_BeginRequest a of None \<Rightarrow> False | Some q \<Rightarrow>
               a_BeginAppliedRevision a = a_PolicyRevision a \<and>
               \<not> tBefore (st_ObservedAt (q_Start q)) t \<and>
               a_BeginAppliedRevision a > gr_AppliedRevision r))))"

definition validCPUAdmission ::
  "admission_ids \<Rightarrow> CPUChargeAdmissionState \<Rightarrow> CPUChargeState \<Rightarrow> bool" where
  "validCPUAdmission ids a c \<longleftrightarrow>
     validAdmissionHeader ids a c \<and> validAdmissionPeriods a c \<and> validAdmissionBegin a c \<and>
     validAdmissionGap ids a c"

section \<open>Rolling the periods\<close>

definition rollPeriod ::
  "CPUChargePeriod \<Rightarrow> CPUChargePeriod \<Rightarrow> int \<Rightarrow> bool \<Rightarrow> err + CPUChargePeriod" where
  "rollPeriod s fresh charge unknown =
     (case (if p_StartNS s \<noteq> p_StartNS fresh
            then if p_AssignedCPUNS s > sub64 maxInt64 (p_RetiredAssignedCPUNS s)
                 then Inl ErrCPUChargesOverflow
                 else Inr (fresh\<lparr>p_RetiredAssignedCPUNS :=
                        add64 (p_RetiredAssignedCPUNS s) (p_AssignedCPUNS s)\<rparr>)
            else Inr s) of
        Inl e \<Rightarrow> Inl e
      | Inr s1 \<Rightarrow>
          if charge > sub64 maxInt64 (p_AssignedCPUNS s1) then Inl ErrCPUChargesOverflow
          else Inr (s1\<lparr>p_AssignedCPUNS := add64 (p_AssignedCPUNS s1) charge,
                       p_BlockingUnknown := p_BlockingUnknown s1 \<or> unknown\<rparr>))"

definition rollCPUAdmission ::
  "CPUChargeAdmissionState \<Rightarrow> gotime \<Rightarrow> int \<Rightarrow> bool \<Rightarrow> err + CPUChargeAdmissionState" where
  "rollCPUAdmission a at charge unknown =
     (if charge < 0 \<or> tBefore at (the (a_ClockHighWater a)) then Inl ErrCPUChargesClockRollback
      else case cpuAdmissionSlots at of
          Inl e \<Rightarrow> Inl e
        | Inr (h, d) \<Rightarrow> (case rollPeriod (a_Hour a) h charge unknown of
              Inl e \<Rightarrow> Inl e
            | Inr h' \<Rightarrow> (case rollPeriod (a_Day a) d charge unknown of
                  Inl e \<Rightarrow> Inl e
                | Inr d' \<Rightarrow> Inr (a\<lparr>a_Hour := h', a_Day := d', a_ClockHighWater := Some at\<rparr>))))"

section \<open>Transitions of both records\<close>

definition cpuLimitedBeginState :: "CPUChargeState \<Rightarrow> CPUSessionStart \<Rightarrow> err + CPUChargeState" where
  "cpuLimitedBeginState prior start =
     (let gen = add64 (s_Generation prior) 1;
          r = freshSession gen start;
          next = prior\<lparr>s_Generation := gen, s_ClockHighWater := Some (st_ObservedAt start),
                       s_Status := SActive, s_OpenTailUnobserved := True, s_Session := Some r\<rparr>;
          problem = startProblem start
      in if problem \<noteq> RNone
         then cpuChargesClose next (st_ObservedAt start) SUnknown problem False
         else
           let charge = the (st_SelfCPUNS start)
           in if charge > sub64 maxInt64 (s_ChargedCPUNS next) then Inl ErrCPUChargesOverflow
              else
                let r1 = r\<lparr>r_InitialPrefixChargeNS := charge, r_LastChargeNS := charge,
                           r_SessionChargedCPUNS := charge,
                           r_LastSelfCPUNS := st_SelfCPUNS start\<rparr>;
                    (wait, capped) = CPUChargesPrefixWait charge
                in cpuChargesDebt
                     (next\<lparr>s_ChargedCPUNS := add64 (s_ChargedCPUNS next) charge,
                           s_Session := Some r1\<rparr>)
                     (st_ObservedAt start) wait capped)"

definition cpuLimitedSampleState ::
  "CPUChargeState \<Rightarrow> CPUSessionSample \<Rightarrow> bool \<Rightarrow> gotime \<Rightarrow> err + CPUChargeState" where
  "cpuLimitedSampleState prior q finish high =
     (let r = (the (s_Session prior))\<lparr>r_LastSample := Some q, r_LastSampleFinal := finish,
                r_LastOrdinal := sp_Ordinal q\<rparr>;
          problem0 = sampleProblem q;
          (at, problem1) = (if tBefore (sp_ObservedAt q) high then (high, RClockRollback)
                            else (sp_ObservedAt q, problem0));
          next = prior\<lparr>s_Session := Some r, s_ClockHighWater := Some at\<rparr>;
          problem = (if problem1 = RNone \<and> the (sp_SelfCPUNS q) < the (r_LastSelfCPUNS r)
                     then RRegressed else problem1)
      in if problem \<noteq> RNone then cpuChargesClose next at SUnknown problem False
         else
           let delta = sub64 (the (sp_SelfCPUNS q)) (the (r_LastSelfCPUNS r))
           in if delta > sub64 maxInt64 (s_ChargedCPUNS next) then Inl ErrCPUChargesOverflow
              else
                let (wait, capped) = CPUFeedbackWait delta (the (sp_ElapsedNS q))
                in case cpuChargesDebt
                     (next\<lparr>s_ChargedCPUNS := add64 (s_ChargedCPUNS next) delta,
                           s_Session := Some (r\<lparr>r_LastChargeNS := delta,
                             r_SessionChargedCPUNS := the (sp_SelfCPUNS q),
                             r_LastSelfCPUNS := sp_SelfCPUNS q\<rparr>)\<rparr>) at wait capped of
                     Inl e \<Rightarrow> Inl e
                   | Inr next2 \<Rightarrow>
                       if finish then cpuChargesClose next2 at SFinished RGracefulTail False
                       else Inr next2)"

definition admissionActivated ::
  "admission_ids \<Rightarrow> CPUChargeState \<Rightarrow> gotime \<Rightarrow> CPUChargeLimits \<Rightarrow> err + CPUChargeAdmissionState" where
  "admissionActivated ids c at limits =
     (case cpuAdmissionSlots at of
        Inl e \<Rightarrow> Inl e
      | Inr (h, d) \<Rightarrow>
          Inr (bindCPUAdmission ids
            ((cpuAdmissionBase True)\<lparr>a_ActivatedAt := Some at, a_ClockHighWater := Some at,
               a_ActivationBaselineCPUNS := s_ChargedCPUNS c,
               a_Hour := h\<lparr>p_PartialTracking := True\<rparr>, a_Day := d\<lparr>p_PartialTracking := True\<rparr>,
               a_Limits := limits\<rparr>) c))"

definition closeGap :: "CPUChargeAdmissionState \<Rightarrow> gotime \<Rightarrow> CPUChargeAdmissionState" where
  "closeGap a at =
     (if a_TrackingGapOpen a
      then a\<lparr>a_TrackingGapOpen := False, a_GapClosedAt := Some at,
             a_Hour := (a_Hour a)\<lparr>p_PartialTracking := True\<rparr>,
             a_Day := (a_Day a)\<lparr>p_PartialTracking := True\<rparr>\<rparr>
      else a)"

definition limitedBegin ::
  "admission_ids \<Rightarrow> CPUChargeState \<Rightarrow> CPUChargeAdmissionState \<Rightarrow> CPULimitedSessionStart \<Rightarrow>
   err + (CPUChargeState \<times> CPUChargeAdmissionState)" where
  "limitedBegin ids c a q =
     (case cpuLimitedBeginState c (q_Start q) of
        Inl e \<Rightarrow> Inl e
      | Inr nc \<Rightarrow>
          let rev = add64 (a_PolicyRevision a) 1;
              na = a\<lparr>a_PolicyRevision := rev, a_Limits := q_Limits q, a_BeginRequest := Some q,
                     a_BeginAppliedRevision := rev\<rparr>
          in case rollCPUAdmission na (st_ObservedAt (q_Start q))
                    (sub64 (s_ChargedCPUNS nc) (s_ChargedCPUNS c)) (s_Status nc = SUnknown) of
               Inl e \<Rightarrow> Inl e
             | Inr na1 \<Rightarrow>
                 Inr (nc, bindCPUAdmission ids (closeGap na1 (st_ObservedAt (q_Start q))) nc))"

definition limitedSample ::
  "admission_ids \<Rightarrow> CPUChargeState \<Rightarrow> CPUChargeAdmissionState \<Rightarrow> CPUSessionSample \<Rightarrow> bool \<Rightarrow>
   err + (CPUChargeState \<times> CPUChargeAdmissionState)" where
  "limitedSample ids c a q finish =
     (case cpuLimitedSampleState c q finish (the (a_ClockHighWater a)) of
        Inl e \<Rightarrow> Inl e
      | Inr nc \<Rightarrow> (case rollCPUAdmission a (the (s_ClockHighWater nc))
                    (sub64 (s_ChargedCPUNS nc) (s_ChargedCPUNS c)) (s_Status nc = SUnknown) of
            Inl e \<Rightarrow> Inl e
          | Inr na \<Rightarrow> Inr (nc, bindCPUAdmission ids na nc)))"

definition limitedRecover ::
  "admission_ids \<Rightarrow> CPUChargeState \<Rightarrow> CPUChargeAdmissionState \<Rightarrow> gotime \<Rightarrow>
   err + (CPUChargeState \<times> CPUChargeAdmissionState)" where
  "limitedRecover ids c a at =
     (case recoverCharges c at of
        Inl e \<Rightarrow> Inl e
      | Inr nc \<Rightarrow> (case rollCPUAdmission a at 0 True of
            Inl e \<Rightarrow> Inl e
          | Inr na \<Rightarrow> Inr (nc, bindCPUAdmission ids na nc)))"

definition limitedGap ::
  "admission_ids \<Rightarrow> CPUChargeState \<Rightarrow> CPUChargeAdmissionState \<Rightarrow> CPUTrackingGapRequest \<Rightarrow>
   err + (CPUChargeState \<times> CPUChargeAdmissionState)" where
  "limitedGap ids c a q =
     (case (if s_Status c = SActive then recoverCharges c (g_ObservedAt q) else Inr c) of
        Inl e \<Rightarrow> Inl e
      | Inr nc \<Rightarrow> (case rollCPUAdmission a (g_ObservedAt q) 0 True of
            Inl e \<Rightarrow> Inl e
          | Inr na \<Rightarrow>
              let rev = add64 (a_PolicyRevision na) 1
              in Inr (nc, bindCPUAdmission ids
                   (na\<lparr>a_PolicyRevision := rev, a_TrackingGapOpen := True,
                       a_GapOpenedAt := Some (g_ObservedAt q), a_GapClosedAt := None,
                       a_Hour := (a_Hour na)\<lparr>p_PartialTracking := True\<rparr>,
                       a_Day := (a_Day na)\<lparr>p_PartialTracking := True\<rparr>,
                       a_LatestGap := Some \<lparr>gr_Request = q, gr_RequestID = id_gap ids q,
                         gr_AppliedRevision = rev\<rparr>\<rparr>) nc)))"

end
