(* ===== verification/CPU_Store.thy ===== *)
theory CPU_Store
  imports CPU_Admission
begin

text \<open>
  The transactions of \<^verbatim>\<open>src/internal/state/cpu_charges.go\<close> and
  \<^verbatim>\<open>src/internal/state/cpu_charge_admission_transitions.go\<close> on the state database: checking the
  schema and the shape of the tables, reading the two singleton records, writing and committing
  them, and every operation on the ledger, bare (before the admission record is activated) and
  limited (afterwards). SQLite serializes the transactions on one connection, so the operations
  are functions of the database and of what the environment answers during the call.
\<close>

section \<open>The database\<close>

text \<open>Names of the migrations, \<open>migrations\<close> of \<^verbatim>\<open>src/internal/state/schema.go\<close>.\<close>

definition migrationNames :: "string list" where
  "migrationNames =
     [''inventory-foundation'', ''worker-queue-leases'', ''streaming-inventory'',
      ''durable-scan-dispatch'', ''compact-directory-inventory'', ''scoped-allocated-reductions'',
      ''absent-subtree-retirement'', ''complete-scope-coverage'', ''inventory-incarnation'',
      ''scanner-metadata-reservations'', ''fair-inventory-root-turns'',
      ''experimental-worker-cpu-feedback'', ''adaptive-historical-metadata-revisits'',
      ''background-compact-mode'', ''conservative-self-cpu-charges'',
      ''conservative-cpu-period-admission'']"

abbreviation applicationID :: int where "applicationID \<equiv> 1381581892"

record migration_row =
  mg_version :: int
  mg_name :: string
  mg_typed :: bool
  mg_applied :: int

text \<open>An entry of \<open>sqlite_master\<close>: absent, of another kind or definition, or the table the
  migration creates.\<close>

datatype table_shape = NoTable | OtherShape | ExactTable

text \<open>A singleton table with an integer column and a JSON payload: no row; a row that is not typed,
  not alone or too long; a payload that does not decode or is not canonical; and a row with the
  record its canonical payload encodes.\<close>

datatype 'a cell = CellMissing | CellUntyped | CellUndecodable int | CellRow int 'a

record cpudb =
  db_app :: int
  db_version :: int
  db_ledgerShape :: bool
  db_migrations :: "migration_row list"
  db_chargesShape :: table_shape
  db_chargesExtra :: bool
  db_admissionShadow :: bool
  db_admissionShape :: table_shape
  db_admissionExtra :: bool
  db_charges :: "CPUChargeState cell"
  db_admission :: "CPUChargeAdmissionState cell"

text \<open>The answers of one call, beside those of \<open>call_env\<close>: the error of each query by its number,
  of the migration statements, of the admission write, whether the admission record fits its size
  bound, and the error of releasing the connection.\<close>

record ledger_env = call_env +
  q_err :: "nat \<Rightarrow> err option"
  mig_err :: "err option"
  adm_exec_err :: "err option"
  adm_json_fits :: bool
  conn_err :: "err option"

text \<open>An open store: its identity, the mode it was opened in, the latch that refuses further CPU
  mutations after an uncertain publication, and its database.\<close>

record cpustore =
  cs_id :: nat
  cs_open :: bool
  cs_readOnly :: bool
  cs_refused :: bool
  cs_db :: cpudb

section \<open>Schema and reading\<close>

definition cpuChargesStorageError :: "ledger_env \<Rightarrow> err option \<Rightarrow> err" where
  "cpuChargesStorageError env e =
     (case ctx_query env of
        Some c \<Rightarrow> c
      | None \<Rightarrow> (case e of None \<Rightarrow> ErrCPUChargesCorrupt | Some x \<Rightarrow> ErrJoin ErrCPUChargesCorrupt x))"

definition admissionCorrupt :: "err option \<Rightarrow> err" where
  "admissionCorrupt e =
     (case e of None \<Rightarrow> ErrCPUChargeAdmissionCorrupt
      | Some x \<Rightarrow> ErrJoin ErrCPUChargeAdmissionCorrupt x)"

definition shapeQuery :: "ledger_env \<Rightarrow> nat \<Rightarrow> table_shape \<Rightarrow> err + table_shape" where
  "shapeQuery env k shape =
     (case q_err env k of
        Some e \<Rightarrow> Inl e
      | None \<Rightarrow> if shape = NoTable then Inl ErrNoRows else Inr shape)"

definition errOf :: "'e + 'a \<Rightarrow> 'e option" where
  "errOf x = (case x of Inl e \<Rightarrow> Some e | Inr _ \<Rightarrow> None)"

definition cpuChargeAdmissionSchema :: "ledger_env \<Rightarrow> cpudb \<Rightarrow> int \<Rightarrow> err option" where
  "cpuChargeAdmissionSchema env db version =
     (if q_err env 4 \<noteq> None \<or> db_admissionShadow db then Some (admissionCorrupt (q_err env 4))
      else
        let shape = shapeQuery env 5 (db_admissionShape db); e = errOf shape
        in if version < 16
           then if optIs e ErrNoRows then None else Some (admissionCorrupt e)
           else if shape \<noteq> Inr ExactTable then Some (admissionCorrupt e)
           else if q_err env 6 \<noteq> None \<or> db_admissionExtra db
           then Some (admissionCorrupt (q_err env 6))
           else None)"

text \<open>The census of \<open>schema_migrations\<close>: the versions are \<open>1..version\<close> with their names.\<close>

fun census :: "int \<Rightarrow> nat \<Rightarrow> migration_row list \<Rightarrow> bool" where
  "census version count [] \<longleftrightarrow> int count = version"
| "census version count (m # ms) \<longleftrightarrow>
     \<not> (int (Suc count) > version \<or> mg_version m \<noteq> int (Suc count) \<or> \<not> mg_typed m \<or>
        mg_name m \<noteq> migrationNames ! count) \<and>
     census version (Suc count) ms"

definition cpuChargesSchema :: "ledger_env \<Rightarrow> cpudb \<Rightarrow> err + int" where
  "cpuChargesSchema env db =
     (case q_err env 0 of Some e \<Rightarrow> Inl e | None \<Rightarrow>
      case q_err env 1 of Some e \<Rightarrow> Inl e | None \<Rightarrow>
      let version = db_version db in
      if db_app db \<noteq> applicationID \<or> version < 4 \<or> version > 16 then Inl ErrCPUChargesCorrupt
      else if q_err env 2 \<noteq> None \<or> \<not> db_ledgerShape db
      then Inl (cpuChargesStorageError env (q_err env 2))
      else if q_err env 3 \<noteq> None \<or> \<not> census version 0 (take 17 (db_migrations db))
      then Inl (cpuChargesStorageError env (q_err env 3))
      else case cpuChargeAdmissionSchema env db version of Some e \<Rightarrow> Inl e | None \<Rightarrow>
      let shape = shapeQuery env 7 (db_chargesShape db); e = errOf shape in
      if version < 15
      then if \<not> optIs e ErrNoRows then Inl (cpuChargesStorageError env e) else Inr version
      else if shape \<noteq> Inr ExactTable then Inl (cpuChargesStorageError env e)
      else if q_err env 8 \<noteq> None \<or> db_chargesExtra db
      then Inl (cpuChargesStorageError env (q_err env 8))
      else Inr version)"

definition appliedAt :: "cpudb \<Rightarrow> int \<Rightarrow> migration_row option" where
  "appliedAt db v = find (\<lambda>m. mg_version m = v) (db_migrations db)"

definition appliedQuery :: "ledger_env \<Rightarrow> nat \<Rightarrow> cpudb \<Rightarrow> int \<Rightarrow> err + migration_row" where
  "appliedQuery env k db v =
     (case q_err env k of
        Some e \<Rightarrow> Inl e
      | None \<Rightarrow> (case appliedAt db v of None \<Rightarrow> Inl ErrNoRows | Some m \<Rightarrow> Inr m))"

definition readCPUAdmission ::
  "admission_ids \<Rightarrow> ledger_env \<Rightarrow> nat \<Rightarrow> cpudb \<Rightarrow> CPUChargeState \<Rightarrow> int \<Rightarrow>
   CPUChargeAdmissionState \<times> err option" where
  "readCPUAdmission ids env k db c version =
     (if version < 16 then (cpuAdmissionBase False, None)
      else case q_err env k of
          Some e \<Rightarrow> (cpuAdmissionBase True, Some (admissionCorrupt (Some e)))
        | None \<Rightarrow> (case db_admission db of
            CellMissing \<Rightarrow> (cpuAdmissionBase True, Some (admissionCorrupt (Some ErrNoRows)))
          | CellUntyped \<Rightarrow> (cpuAdmissionBase True, Some (admissionCorrupt None))
          | CellUndecodable revision \<Rightarrow> (case appliedQuery env (k + 1) db 16 of
              Inl e \<Rightarrow> (cpuAdmissionBase True, Some (admissionCorrupt (Some e)))
            | Inr _ \<Rightarrow> (cpuAdmissionBase True, Some ErrCPUChargeAdmissionCorrupt))
          | CellRow revision a \<Rightarrow> (case appliedQuery env (k + 1) db 16 of
              Inl e \<Rightarrow> (cpuAdmissionBase True, Some (admissionCorrupt (Some e)))
            | Inr m \<Rightarrow>
                if \<not> validCPUAdmission ids a c \<or> a_PolicyRevision a \<noteq> revision \<or> \<not> mg_typed m \<or>
                   unixNano (the (a_ActivatedAt a)) \<noteq> mg_applied m
                then (cpuAdmissionBase True, Some ErrCPUChargeAdmissionCorrupt)
                else (a, None))))"

definition readCPUCharges ::
  "admission_ids \<Rightarrow> ledger_env \<Rightarrow> cpudb \<Rightarrow> CPUChargeState \<times> err option" where
  "readCPUCharges ids env db =
     (case cpuChargesSchema env db of
        Inl e \<Rightarrow> (cpuChargesBase False, Some e)
      | Inr v \<Rightarrow>
          if v < 15 then (cpuChargesBase False, None)
          else case q_err env 9 of
              Some e \<Rightarrow> (cpuChargesBase True, Some (cpuChargesStorageError env (Some e)))
            | None \<Rightarrow> (case db_charges db of
                CellMissing \<Rightarrow> (cpuChargesBase True, Some (cpuChargesStorageError env (Some ErrNoRows)))
              | CellUntyped \<Rightarrow> (cpuChargesBase True, Some (cpuChargesStorageError env None))
              | CellUndecodable gen \<Rightarrow> (case appliedQuery env 10 db 15 of
                  Inl e \<Rightarrow> (cpuChargesBase True, Some (cpuChargesStorageError env (Some e)))
                | Inr _ \<Rightarrow> (cpuChargesBase True, Some ErrCPUChargesCorrupt))
              | CellRow gen s \<Rightarrow> (case appliedQuery env 10 db 15 of
                  Inl e \<Rightarrow> (cpuChargesBase True, Some (cpuChargesStorageError env (Some e)))
                | Inr m \<Rightarrow>
                    if \<not> validCPUCharges s \<or> s_Generation s \<noteq> gen \<or> \<not> mg_typed m \<or>
                       unixNano (the (s_ActivatedAt s)) \<noteq> mg_applied m
                    then (cpuChargesBase True, Some ErrCPUChargesCorrupt)
                    else if v \<ge> 16
                    then (case snd (readCPUAdmission ids env 11 db s v) of
                            Some e \<Rightarrow> (cpuChargesBase True, Some e)
                          | None \<Rightarrow> (s, None))
                    else (s, None))))"

section \<open>Writing and completing a transaction\<close>

definition writeCPUCharges :: "ledger_env \<Rightarrow> CPUChargeState \<Rightarrow> err + CPUChargeState cell" where
  "writeCPUCharges env s =
     (if \<not> validCPUCharges s then Inl ErrCPUChargesInvalid
      else if \<not> json_fits env then Inl ErrCPUChargesOverflow
      else case exec_err env of Some e \<Rightarrow> Inl e | None \<Rightarrow> Inr (CellRow (s_Generation s) s))"

definition writeCPUAdmission ::
  "admission_ids \<Rightarrow> ledger_env \<Rightarrow> CPUChargeState \<Rightarrow> CPUChargeAdmissionState \<Rightarrow>
   err + CPUChargeAdmissionState cell" where
  "writeCPUAdmission ids env c a =
     (if \<not> validCPUAdmission ids a c then Inl ErrCPUChargeAdmissionInvalid
      else if \<not> adm_json_fits env then Inl ErrCPUChargesOverflow
      else case adm_exec_err env of Some e \<Rightarrow> Inl e | None \<Rightarrow> Inr (CellRow (a_PolicyRevision a) a))"

definition cpuChargesWriter :: "ledger_env \<Rightarrow> cpustore \<Rightarrow> err option" where
  "cpuChargesWriter env st =
     (if ctx_nil env then Some ErrCPUChargesInvalid
      else case ctx_entry env of Some e \<Rightarrow> Some e
        | None \<Rightarrow>
            if \<not> cs_open st then Some ErrCPUChargesReadOnly
            else if cs_refused st then Some ErrCPUChargeAdmissionAuthority
            else if cs_readOnly st then Some ErrCPUChargesReadOnly else None)"

text \<open>\<open>commitCPUCharges\<close>: \<open>db\<close> is the database as the transaction has changed it so far.\<close>

definition commitCPUCharges ::
  "ledger_env \<Rightarrow> cpustore \<Rightarrow> cpudb \<Rightarrow> CPUChargeState \<Rightarrow> CPUChargeState \<Rightarrow>
   cpustore \<times> CPUChargeState \<times> err option" where
  "commitCPUCharges env st db prior next =
     (case writeCPUCharges env next of
        Inl e \<Rightarrow> (st, prior, Some e)
      | Inr row \<Rightarrow> (case ctx_before env of
            Some e \<Rightarrow> (st, prior, Some e)
          | None \<Rightarrow>
              let st' = st\<lparr>cs_db := afterCommit (call_env.truncate env) (cs_db st)
                            (db\<lparr>db_charges := row\<rparr>)\<rparr>
              in case commit_err env of
                  Some e \<Rightarrow> (st', prior, Some (ErrJoin ErrCPUChargesPublication e))
                | None \<Rightarrow> (case ctx_after env of
                      Some e \<Rightarrow> (st', prior, Some (ErrJoin ErrCPUChargesPublication e))
                    | None \<Rightarrow> (st', next, None))))"

definition finishCPUChargesView ::
  "ledger_env \<Rightarrow> CPUChargeState \<Rightarrow> err option \<Rightarrow> CPUChargeState \<times> err option" where
  "finishCPUChargesView env s outcome =
     (case ctx_before env of Some e \<Rightarrow> (s, Some e) | None \<Rightarrow>
      case commit_err env of Some e \<Rightarrow> (s, Some e) | None \<Rightarrow>
      case ctx_after env of Some e \<Rightarrow> (s, Some e) | None \<Rightarrow> (s, outcome))"

definition bareCPUAuthority :: "ledger_env \<Rightarrow> cpustore \<Rightarrow> err option" where
  "bareCPUAuthority env st =
     (if cs_refused st then Some ErrCPUChargeAdmissionAuthority
      else case q_err env 14 of Some e \<Rightarrow> Some e
        | None \<Rightarrow> if db_version (cs_db st) \<ge> 16 then Some ErrCPUChargeAdmissionPolicyRequired
            else None)"

section \<open>The bare operations\<close>

definition CPUCharges ::
  "admission_ids \<Rightarrow> ledger_env \<Rightarrow> cpustore \<Rightarrow> CPUChargeState \<times> err option" where
  "CPUCharges ids env st =
     (if ctx_nil env then (cpuChargesBase False, Some ErrCPUChargesInvalid)
      else case begin_err env of Some e \<Rightarrow> (cpuChargesBase False, Some e)
        | None \<Rightarrow>
            let (s, e) = readCPUCharges ids env (cs_db st)
            in case e of Some x \<Rightarrow> (s, Some x) | None \<Rightarrow> finishCPUChargesView env s None)"

text \<open>The common opening of the writing operations: the writer's checks, the operation's own check
  of its input, the transaction, the bare authority and the saved ledger.\<close>

definition bareOpen ::
  "admission_ids \<Rightarrow> ledger_env \<Rightarrow> cpustore \<Rightarrow> err option \<Rightarrow>
   (CPUChargeState \<times> err) + CPUChargeState" where
  "bareOpen ids env st inputErr =
     (case cpuChargesWriter env st of Some e \<Rightarrow> Inl (cpuChargesBase False, e) | None \<Rightarrow>
      case inputErr of Some e \<Rightarrow> Inl (cpuChargesBase False, e) | None \<Rightarrow>
      case begin_err env of Some e \<Rightarrow> Inl (cpuChargesBase False, e) | None \<Rightarrow>
      case bareCPUAuthority env st of Some e \<Rightarrow> Inl (cpuChargesBase False, e) | None \<Rightarrow>
      let (s, e) = readCPUCharges ids env (cs_db st)
      in case e of Some x \<Rightarrow> Inl (s, x) | None \<Rightarrow> Inr s)"

definition chargesActivated :: "gotime \<Rightarrow> CPUChargeState" where
  "chargesActivated at = (cpuChargesBase True)\<lparr>s_ActivatedAt := Some at, s_ClockHighWater := Some at\<rparr>"

definition migrate15 :: "gotime \<Rightarrow> cpudb \<Rightarrow> cpudb" where
  "migrate15 at db = db\<lparr>db_chargesShape := ExactTable, db_version := 15,
     db_migrations := db_migrations db @ [\<lparr>mg_version = 15, mg_name = migrationNames ! 14,
       mg_typed = True, mg_applied = unixNano at\<rparr>]\<rparr>"

definition ActivateCPUCharges ::
  "admission_ids \<Rightarrow> ledger_env \<Rightarrow> cpustore \<Rightarrow> gotime \<Rightarrow> cpustore \<times> CPUChargeState \<times> err option" where
  "ActivateCPUCharges ids env st at =
     (case bareOpen ids env st (if cpuChargesTime at then None else Some ErrCPUChargesInvalid) of
        Inl (s, e) \<Rightarrow> (st, s, Some e)
      | Inr prior \<Rightarrow>
          if s_Available prior
          then let (s, e) = finishCPUChargesView env prior None in (st, s, e)
          else case q_err env 13 of Some e \<Rightarrow> (st, prior, Some e) | None \<Rightarrow>
            if db_version (cs_db st) \<noteq> 14 then (st, prior, Some ErrCPUChargesUnavailable)
            else case mig_err env of Some e \<Rightarrow> (st, prior, Some e) | None \<Rightarrow>
              commitCPUCharges env st (migrate15 at (cs_db st)) prior (chargesActivated at))"

record CPUSessionMarker =
  sm_store :: nat
  sm_generation :: int
  sm_start :: CPUSessionStart

definition BeginCPUSession ::
  "admission_ids \<Rightarrow> ledger_env \<Rightarrow> cpustore \<Rightarrow> CPUSessionStart \<Rightarrow>
   cpustore \<times> CPUSessionMarker option \<times> CPUChargeState \<times> err option" where
  "BeginCPUSession ids env st start =
     (case bareOpen ids env st
             (if cpuChargesStartValid start then None else Some ErrCPUChargesInvalid) of
        Inl (s, e) \<Rightarrow> (st, None, s, Some e)
      | Inr prior \<Rightarrow>
          if \<not> s_Available prior then (st, None, prior, Some ErrCPUChargesUnavailable)
          else if s_Generation prior > 0 \<and>
            sub64 (s_Generation prior) 1 = st_ExpectedGeneration start \<and>
            sameCPUStart (r_Start (the (s_Session prior))) start
          then let (s, e) = finishCPUChargesView env prior
                     (if startProblem start \<noteq> RNone then Some ErrCPUChargesUnknown else None)
               in (st, None, s, e)
          else if st_ExpectedGeneration start \<noteq> s_Generation prior
          then (st, None, prior, Some ErrCPUChargesStale)
          else if tBefore (st_ObservedAt start) (the (s_ClockHighWater prior))
          then (st, None, prior, Some ErrCPUChargesClockRollback)
          else if s_Generation prior = maxInt64 then (st, None, prior, Some ErrCPUChargesOverflow)
          else case beginCharges prior start of
              Inl e \<Rightarrow> (st, None, prior, Some e)
            | Inr next \<Rightarrow>
                let marker = \<lparr>sm_store = cs_id st, sm_generation = s_Generation next,
                              sm_start = start\<rparr>;
                    (st', s, e) = commitCPUCharges env st (cs_db st) prior next
                in case e of
                     Some x \<Rightarrow>
                       (st', if errIs x ErrCPUChargesPublication then Some marker else None, s, Some x)
                   | None \<Rightarrow> (st', Some marker, s,
                       if startProblem start \<noteq> RNone then Some ErrCPUChargesUnknown else None))"

definition sampleOutcome :: "CPUSessionRecord \<Rightarrow> err option" where
  "sampleOutcome r =
     (if r_Status r = SUnknown \<or> r_Status r = SRecoveredUnknown
      then if r_ClosureReason r = RClockRollback then Some ErrCPUChargesClockRollback
           else Some ErrCPUChargesUnknown
      else None)"

definition sampleCPUSession ::
  "admission_ids \<Rightarrow> ledger_env \<Rightarrow> cpustore \<Rightarrow> CPUSessionMarker \<Rightarrow> CPUSessionSample \<Rightarrow> bool \<Rightarrow>
   cpustore \<times> CPUChargeState \<times> err option" where
  "sampleCPUSession ids env st marker sample finish =
     (case bareOpen ids env st
             (if sm_store marker \<noteq> cs_id st \<or> sm_generation marker \<le> 0 \<or>
                 \<not> cpuChargesStartValid (sm_start marker) \<or> \<not> cpuChargesSampleValid sample
              then Some ErrCPUChargesStale else None) of
        Inl (s, e) \<Rightarrow> (st, s, Some e)
      | Inr prior \<Rightarrow>
          if \<not> s_Available prior then (st, prior, Some ErrCPUChargesUnavailable)
          else case s_Session prior of
              None \<Rightarrow> (st, prior, Some ErrCPUChargesStale)
            | Some r \<Rightarrow>
                if sm_generation marker \<noteq> s_Generation prior \<or>
                   \<not> sameCPUStart (sm_start marker) (r_Start r)
                then (st, prior, Some ErrCPUChargesStale)
                else if (case r_LastSample r of None \<Rightarrow> False | Some q \<Rightarrow>
                  sp_Ordinal sample = r_LastOrdinal r \<and> r_LastSampleFinal r = finish \<and>
                  sameCPUSample q sample)
                then let (s, e) = finishCPUChargesView env prior (sampleOutcome r) in (st, s, e)
                else if r_LastOrdinal r = maxInt64 then (st, prior, Some ErrCPUChargesOverflow)
                else if r_Status r \<noteq> SActive \<or> sp_Ordinal sample \<noteq> add64 (r_LastOrdinal r) 1
                then (st, prior, Some ErrCPUChargesStale)
                else case sampleCharges prior sample finish of
                    Inl e \<Rightarrow> (st, prior, Some e)
                  | Inr (next, problem) \<Rightarrow>
                      let (st', s, e) = commitCPUCharges env st (cs_db st) prior next
                      in case e of
                           Some x \<Rightarrow> (st', s, Some x)
                         | None \<Rightarrow> (st', s,
                             if problem = RClockRollback then Some ErrCPUChargesClockRollback
                             else if problem \<noteq> RNone then Some ErrCPUChargesUnknown else None))"

definition SampleCPUSession ::
  "admission_ids \<Rightarrow> ledger_env \<Rightarrow> cpustore \<Rightarrow> CPUSessionMarker \<Rightarrow> CPUSessionSample \<Rightarrow>
   cpustore \<times> CPUChargeState \<times> err option" where
  "SampleCPUSession ids env st marker sample = sampleCPUSession ids env st marker sample False"

definition FinishCPUSession ::
  "admission_ids \<Rightarrow> ledger_env \<Rightarrow> cpustore \<Rightarrow> CPUSessionMarker \<Rightarrow> CPUSessionSample \<Rightarrow>
   cpustore \<times> CPUChargeState \<times> err option" where
  "FinishCPUSession ids env st marker sample = sampleCPUSession ids env st marker sample True"

definition RecoverCPUSession ::
  "admission_ids \<Rightarrow> ledger_env \<Rightarrow> cpustore \<Rightarrow> gotime \<Rightarrow> cpustore \<times> CPUChargeState \<times> err option" where
  "RecoverCPUSession ids env st at =
     (case bareOpen ids env st (if cpuChargesTime at then None else Some ErrCPUChargesInvalid) of
        Inl (s, e) \<Rightarrow> (st, s, Some e)
      | Inr prior \<Rightarrow>
          if \<not> s_Available prior then (st, prior, Some ErrCPUChargesUnavailable)
          else if tBefore at (the (s_ClockHighWater prior))
          then (st, prior, Some ErrCPUChargesClockRollback)
          else if (case s_Session prior of None \<Rightarrow> True | Some r \<Rightarrow> r_Status r \<noteq> SActive)
          then let (s, e) = finishCPUChargesView env prior None in (st, s, e)
          else case recoverCharges prior at of
              Inl e \<Rightarrow> (st, prior, Some e)
            | Inr next \<Rightarrow> commitCPUCharges env st (cs_db st) prior next)"

end
