(* ===== verification/CPU_Limited.thy ===== *)
theory CPU_Limited
  imports CPU_Store
begin

text \<open>
  The limited operations of \<^verbatim>\<open>src/internal/state/cpu_charge_admission_transitions.go\<close>: activation of
  the admission record, and beginning, sampling, finishing and recovering a session and opening a
  tracking gap under it. Each reads both records in one transaction, computes their successors and
  publishes them together; a publication whose outcome is uncertain latches the store.
\<close>

section \<open>Operations of the admission record\<close>

type_synonym limited_result = "CPUChargeState \<times> CPUChargeAdmissionState \<times> err option"

definition cpuAdmissionOperation :: "ledger_env \<Rightarrow> cpustore \<Rightarrow> bool \<Rightarrow> err option" where
  "cpuAdmissionOperation env st wr =
     (if ctx_nil env then Some ErrCPUChargeAdmissionInvalid
      else case ctx_entry env of Some e \<Rightarrow> Some e
        | None \<Rightarrow>
            if \<not> cs_open st \<or> wr \<and> cs_readOnly st then Some ErrCPUChargesReadOnly
            else if wr \<and> cs_refused st then Some ErrCPUChargeAdmissionAuthority
            else begin_err env)"

definition admissionRead ::
  "admission_ids \<Rightarrow> ledger_env \<Rightarrow> cpudb \<Rightarrow>
   CPUChargeState \<times> CPUChargeAdmissionState \<times> int \<times> err option" where
  "admissionRead ids env db =
     (let (c, e) = readCPUCharges ids env db
      in case e of
          Some x \<Rightarrow> (c, cpuAdmissionBase False, 0, Some x)
        | None \<Rightarrow> (case q_err env 13 of
              Some x \<Rightarrow> (c, cpuAdmissionBase False, 0, Some x)
            | None \<Rightarrow>
                let (a, e) = readCPUAdmission ids env 15 db c (db_version db)
                in (c, a, db_version db, e)))"

definition admissionView ::
  "ledger_env \<Rightarrow> CPUChargeState \<Rightarrow> CPUChargeAdmissionState \<Rightarrow> err option \<Rightarrow> limited_result" where
  "admissionView env c a outcome =
     (case ctx_before env of
        Some e \<Rightarrow> (cpuChargesBase False, cpuAdmissionBase False, Some e) | None \<Rightarrow>
      case commit_err env of
        Some e \<Rightarrow> (cpuChargesBase False, cpuAdmissionBase False, Some e) | None \<Rightarrow>
      case conn_err env of
        Some e \<Rightarrow> (cpuChargesBase False, cpuAdmissionBase False, Some e) | None \<Rightarrow>
      case ctx_after env of
        Some e \<Rightarrow> (cpuChargesBase False, cpuAdmissionBase False, Some e) | None \<Rightarrow>
      (c, a, outcome))"

text \<open>\<open>publish\<close>: \<open>db\<close> is the database as the transaction has changed it so far. A commit that
  reported an error, or a context that ended after it, sets the latch.\<close>

definition admissionPublish ::
  "admission_ids \<Rightarrow> ledger_env \<Rightarrow> cpustore \<Rightarrow> cpudb \<Rightarrow> CPUChargeState \<Rightarrow> CPUChargeState \<Rightarrow>
   CPUChargeAdmissionState \<Rightarrow> CPUChargeAdmissionState \<Rightarrow> string \<Rightarrow> string \<Rightarrow>
   cpustore \<times> limited_result" where
  "admissionPublish ids env st db prior next pa na op i =
     (if cs_refused st then (st, prior, pa, Some ErrCPUChargeAdmissionAuthority)
      else case writeCPUCharges env next of Inl e \<Rightarrow> (st, prior, pa, Some e) | Inr row \<Rightarrow>
      case writeCPUAdmission ids env next na of Inl e \<Rightarrow> (st, prior, pa, Some e) | Inr arow \<Rightarrow>
      case ctx_before env of Some e \<Rightarrow> (st, prior, pa, Some e) | None \<Rightarrow>
      let st' = st\<lparr>cs_db := afterCommit (call_env.truncate env) (cs_db st)
                    (db\<lparr>db_charges := row, db_admission := arow\<rparr>)\<rparr>
      in case joinOpt (commit_err env) (ctx_after env) of
          Some cause \<Rightarrow> (st'\<lparr>cs_refused := True\<rparr>, prior, pa, Some (PublicationError op i cause))
        | None \<Rightarrow> (st', next, na, None))"

definition cpuAdmissionOutcome :: "CPUChargeState \<Rightarrow> err option" where
  "cpuAdmissionOutcome c =
     (if s_Status c = SUnknown \<or> s_Status c = SRecoveredUnknown
      then if r_ClosureReason (the (s_Session c)) = RClockRollback
           then Some ErrCPUChargesClockRollback else Some ErrCPUChargesUnknown
      else None)"

definition CPUChargeAdmission ::
  "admission_ids \<Rightarrow> ledger_env \<Rightarrow> cpustore \<Rightarrow> CPUChargeAdmissionState \<times> err option" where
  "CPUChargeAdmission ids env st =
     (case cpuAdmissionOperation env st False of
        Some e \<Rightarrow> (cpuAdmissionBase False, Some e)
      | None \<Rightarrow>
          let (c, a, v, e) = admissionRead ids env (cs_db st)
          in case e of
              Some x \<Rightarrow> (cpuAdmissionBase False, Some x)
            | None \<Rightarrow> let (_, a', e') = admissionView env c a None in (a', e'))"

definition migrate16 :: "gotime \<Rightarrow> cpudb \<Rightarrow> cpudb" where
  "migrate16 at db = db\<lparr>db_admissionShape := ExactTable, db_version := 16,
     db_migrations := db_migrations db @ [\<lparr>mg_version = 16, mg_name = migrationNames ! 15,
       mg_typed = True, mg_applied = unixNano at\<rparr>]\<rparr>"

definition activateCPUChargeAdmission ::
  "admission_ids \<Rightarrow> ledger_env \<Rightarrow> cpustore \<Rightarrow> gotime \<Rightarrow> CPUChargeLimits \<Rightarrow>
   cpustore \<times> CPUChargeAdmissionState \<times> err option" where
  "activateCPUChargeAdmission ids env st at limits =
     (if \<not> cpuAdmissionLimitsValid limits \<or> \<not> cpuAdmissionTime at
      then (st, cpuAdmissionBase False, Some ErrCPUChargeAdmissionInvalid)
      else case cpuAdmissionOperation env st True of
        Some e \<Rightarrow> (st, cpuAdmissionBase False, Some e)
      | None \<Rightarrow>
          let (c, a, v, e) = admissionRead ids env (cs_db st)
          in case e of Some x \<Rightarrow> (st, cpuAdmissionBase False, Some x) | None \<Rightarrow>
          if v = 16 then let (_, a', e') = admissionView env c a None in (st, a', e')
          else if v \<noteq> 15 \<or> \<not> s_Available c then (st, a, Some ErrCPUChargeAdmissionUnavailable)
          else if l_HourNS limits = 0 \<and> l_DayNS limits = 0
          then (st, a, Some ErrCPUChargeAdmissionInvalid)
          else if s_Status c = SActive then (st, a, Some ErrCPUChargesStale)
          else if tBefore at (the (s_ClockHighWater c)) then (st, a, Some ErrCPUChargesClockRollback)
          else case admissionActivated ids c at limits of Inl e \<Rightarrow> (st, a, Some e) | Inr na \<Rightarrow>
          case mig_err env of Some e \<Rightarrow> (st, a, Some e) | None \<Rightarrow>
          let (st', _, a', e') = admissionPublish ids env st (migrate16 at (cs_db st)) c c a na
                ''activate'' (id_activate ids at limits)
          in (st', a', e'))"

section \<open>Sessions under a policy\<close>

record CPULimitedSessionMarker =
  lm_store :: nat
  lm_contract :: string
  lm_generation :: int
  lm_revision :: int
  lm_request :: CPULimitedSessionStart

definition cpuLimitedMarkerContract :: string where
  "cpuLimitedMarkerContract = ''cpu_limited_session_marker_v1''"

definition beginCPUSessionLimited ::
  "admission_ids \<Rightarrow> ledger_env \<Rightarrow> cpustore \<Rightarrow> CPULimitedSessionStart \<Rightarrow>
   cpustore \<times> CPULimitedSessionMarker option \<times> limited_result" where
  "beginCPUSessionLimited ids env st q =
     (if \<not> validCPULimitedStart q
      then (st, None, cpuChargesBase False, cpuAdmissionBase False, Some ErrCPUChargeAdmissionInvalid)
      else case cpuAdmissionOperation env st True of
        Some e \<Rightarrow> (st, None, cpuChargesBase False, cpuAdmissionBase False, Some e)
      | None \<Rightarrow>
          let (c, a, v, e) = admissionRead ids env (cs_db st)
          in case e of Some x \<Rightarrow> (st, None, c, a, Some x) | None \<Rightarrow>
          if v \<noteq> 16 then (st, None, c, a, Some ErrCPUChargeAdmissionUnavailable)
          else if (case a_BeginRequest a of None \<Rightarrow> False | Some b \<Rightarrow> sameCPULimitedStart b q)
          then (st, None, admissionView env c a (cpuAdmissionOutcome c))
          else if st_ExpectedGeneration (q_Start q) \<noteq> s_Generation c \<or>
                  q_ExpectedPolicyRevision q \<noteq> a_PolicyRevision a
          then (st, None, c, a, Some ErrCPUChargesStale)
          else if tBefore (st_ObservedAt (q_Start q)) (the (a_ClockHighWater a))
          then (st, None, c, a, Some ErrCPUChargesClockRollback)
          else if s_Status c = SActive then (st, None, c, a, Some ErrCPUChargesStale)
          else if s_Generation c = maxInt64 \<or> a_PolicyRevision a = maxInt64
          then (st, None, c, a, Some ErrCPUChargesOverflow)
          else case limitedBegin ids c a q of
              Inl e \<Rightarrow> (st, None, c, a, Some e)
            | Inr (nc, na) \<Rightarrow>
                let marker = \<lparr>lm_store = cs_id st, lm_contract = cpuLimitedMarkerContract,
                      lm_generation = s_Generation nc, lm_revision = a_PolicyRevision na,
                      lm_request = q\<rparr>;
                    (st', c', a', e') = admissionPublish ids env st (cs_db st) c nc a na
                      ''begin'' (id_begin ids q)
                in case e' of
                     Some x \<Rightarrow>
                       (st', if errIs x ErrCPUChargeAdmissionPublication then Some marker else None,
                        c', a', Some x)
                   | None \<Rightarrow> (st', Some marker, c', a', cpuAdmissionOutcome c'))"

definition sampleCPUSessionLimited ::
  "admission_ids \<Rightarrow> ledger_env \<Rightarrow> cpustore \<Rightarrow> CPULimitedSessionMarker \<Rightarrow> CPUSessionSample \<Rightarrow>
   bool \<Rightarrow> cpustore \<times> limited_result" where
  "sampleCPUSessionLimited ids env st m q finish =
     (if lm_store m \<noteq> cs_id st \<or> lm_contract m \<noteq> cpuLimitedMarkerContract \<or> lm_generation m \<le> 0 \<or>
         lm_revision m \<le> 0 \<or> \<not> validCPULimitedStart (lm_request m) \<or> \<not> cpuChargesSampleValid q \<or>
         \<not> cpuAdmissionTime (sp_ObservedAt q)
      then (st, cpuChargesBase False, cpuAdmissionBase False, Some ErrCPUChargesStale)
      else case cpuAdmissionOperation env st True of
        Some e \<Rightarrow> (st, cpuChargesBase False, cpuAdmissionBase False, Some e)
      | None \<Rightarrow>
          let (c, a, v, e) = admissionRead ids env (cs_db st)
          in case e of Some x \<Rightarrow> (st, c, a, Some x) | None \<Rightarrow>
          if v \<noteq> 16 then (st, c, a, Some ErrCPUChargeAdmissionUnavailable)
          else if a_TrackingGapOpen a \<or> a_PolicyRevision a \<noteq> lm_revision m \<or>
                  s_Generation c \<noteq> lm_generation m \<or>
                  (case a_BeginRequest a of None \<Rightarrow> True
                   | Some b \<Rightarrow> \<not> sameCPULimitedStart b (lm_request m))
          then (st, c, a, Some ErrCPUChargesStale)
          else let r = the (s_Session c) in
          if (case r_LastSample r of None \<Rightarrow> False | Some p \<Rightarrow>
                sp_Ordinal q = r_LastOrdinal r \<and> r_LastSampleFinal r = finish \<and> sameCPUSample p q)
          then (st, admissionView env c a (cpuAdmissionOutcome c))
          else if r_LastOrdinal r = maxInt64 then (st, c, a, Some ErrCPUChargesOverflow)
          else if r_Status r \<noteq> SActive \<or> sp_Ordinal q \<noteq> add64 (r_LastOrdinal r) 1
          then (st, c, a, Some ErrCPUChargesStale)
          else case limitedSample ids c a q finish of
              Inl e \<Rightarrow> (st, c, a, Some e)
            | Inr (nc, na) \<Rightarrow>
                let (st', c', a', e') = admissionPublish ids env st (cs_db st) c nc a na
                      ''sample'' (id_sample ids (lm_request m) q finish)
                in case e' of Some x \<Rightarrow> (st', c', a', Some x)
                   | None \<Rightarrow> (st', c', a', cpuAdmissionOutcome c'))"

definition recoverCPUSessionLimited ::
  "admission_ids \<Rightarrow> ledger_env \<Rightarrow> cpustore \<Rightarrow> gotime \<Rightarrow> cpustore \<times> limited_result" where
  "recoverCPUSessionLimited ids env st at =
     (if \<not> cpuAdmissionTime at
      then (st, cpuChargesBase False, cpuAdmissionBase False, Some ErrCPUChargeAdmissionInvalid)
      else case cpuAdmissionOperation env st True of
        Some e \<Rightarrow> (st, cpuChargesBase False, cpuAdmissionBase False, Some e)
      | None \<Rightarrow>
          let (c, a, v, e) = admissionRead ids env (cs_db st)
          in case e of Some x \<Rightarrow> (st, c, a, Some x) | None \<Rightarrow>
          if v \<noteq> 16 then (st, c, a, Some ErrCPUChargeAdmissionUnavailable)
          else if s_Status c \<noteq> SActive then (st, admissionView env c a None)
          else if tBefore at (the (a_ClockHighWater a))
          then (st, c, a, Some ErrCPUChargesClockRollback)
          else case limitedRecover ids c a at of
              Inl e \<Rightarrow> (st, c, a, Some e)
            | Inr (nc, na) \<Rightarrow> admissionPublish ids env st (cs_db st) c nc a na ''recover''
                (id_recover ids (s_Generation c) (a_PolicyRevision a) at))"

definition openCPUTrackingGap ::
  "admission_ids \<Rightarrow> ledger_env \<Rightarrow> cpustore \<Rightarrow> CPUTrackingGapRequest \<Rightarrow> cpustore \<times> limited_result" where
  "openCPUTrackingGap ids env st q =
     (if \<not> validCPUGapRequest q
      then (st, cpuChargesBase False, cpuAdmissionBase False, Some ErrCPUChargeAdmissionInvalid)
      else case cpuAdmissionOperation env st True of
        Some e \<Rightarrow> (st, cpuChargesBase False, cpuAdmissionBase False, Some e)
      | None \<Rightarrow>
          let (c, a, v, e) = admissionRead ids env (cs_db st)
          in case e of Some x \<Rightarrow> (st, c, a, Some x) | None \<Rightarrow>
          if v \<noteq> 16 then (st, c, a, Some ErrCPUChargeAdmissionUnavailable)
          else if a_TrackingGapOpen a \<and>
            (case a_LatestGap a of None \<Rightarrow> False | Some g \<Rightarrow>
               a_PolicyRevision a = gr_AppliedRevision g \<and> sameCPUGapRequest (gr_Request g) q)
          then (st, admissionView env c a None)
          else if g_ExpectedGeneration q \<noteq> s_Generation c \<or>
                  g_ExpectedPolicyRevision q \<noteq> a_PolicyRevision a
          then (st, c, a, Some ErrCPUChargesStale)
          else if tBefore (g_ObservedAt q) (the (a_ClockHighWater a))
          then (st, c, a, Some ErrCPUChargesClockRollback)
          else if a_TrackingGapOpen a then (st, admissionView env c a None)
          else if a_PolicyRevision a = maxInt64 then (st, c, a, Some ErrCPUChargesOverflow)
          else case limitedGap ids c a q of
              Inl e \<Rightarrow> (st, c, a, Some e)
            | Inr (nc, na) \<Rightarrow>
                admissionPublish ids env st (cs_db st) c nc a na ''gap'' (id_gap ids q))"

end
