(* ===== verification/CPU_Charges_Laws.thy ===== *)
theory CPU_Charges_Laws
  imports CPU_Charges
begin

text \<open>
  The transitions of the charge ledger keep its validity: what \<open>beginCharges\<close>,
  \<open>sampleCharges\<close> and \<open>recoverCharges\<close> compute from a valid ledger always passes
  \<open>validCPUCharges\<close>, so the check in the writer never refuses them. On the way, the effect of
  every transition on the charges, the counters, the clock and the deadline is stated.
\<close>

section \<open>Requests and times\<close>

lemma cpuChargesTime_iff [simp]: "cpuChargesTime at \<longleftrightarrow> okTime at \<and> t_utc at"
  by (simp add: cpuChargesTime_def)

text \<open>The \<open>int64\<close> typing of a start request, a sample and a ledger.\<close>

definition startI64 :: "CPUSessionStart \<Rightarrow> bool" where
  "startI64 s \<longleftrightarrow> i64 (st_ExpectedGeneration s) \<and> i64_opt (st_SelfCPUNS s)"

definition sampleI64 :: "CPUSessionSample \<Rightarrow> bool" where
  "sampleI64 q \<longleftrightarrow> i64 (sp_Ordinal q) \<and> i64_opt (sp_SelfCPUNS q) \<and> i64_opt (sp_ElapsedNS q)"

definition chargesI64 :: "CPUChargeState \<Rightarrow> bool" where
  "chargesI64 s \<longleftrightarrow> i64 (s_Generation s) \<and> i64 (s_ChargedCPUNS s) \<and> i64 (s_ClosedSessions s) \<and>
     i64 (s_RecoveredSessions s) \<and>
     (case s_Session s of None \<Rightarrow> True | Some r \<Rightarrow> startI64 (r_Start r) \<and> i64 (r_LastOrdinal r))"

lemma startProblem_RNone:
  "cpuChargesInputCPU (st_SelfCPUNS s) (st_Reason s) \<Longrightarrow>
   startProblem s = RNone \<longleftrightarrow> (\<exists>c. st_SelfCPUNS s = Some c \<and> 0 \<le> c)"
  by (auto simp: cpuChargesProblem_def cpuChargesInputCPU_def cpuChargesReason_def
      split: option.splits)

lemma sampleProblem_RNone:
  "cpuChargesInputCPU (sp_SelfCPUNS q) (sp_Reason q) \<Longrightarrow>
   sampleProblem q = RNone \<longleftrightarrow>
     (\<exists>c e. sp_SelfCPUNS q = Some c \<and> sp_ElapsedNS q = Some e \<and> 0 \<le> c \<and> 0 < e)"
  by (auto simp: cpuChargesProblem_def cpuChargesInputCPU_def cpuChargesReason_def
      split: option.splits if_splits)

text \<open>The prefix wait is one hundred times the prefix, at most one hour.\<close>

lemma CPUChargesPrefixWait_exact:
  assumes "0 \<le> cpu"
  shows "CPUChargesPrefixWait cpu = (min hour_ns (100 * cpu), hour_ns < 100 * cpu)"
proof -
  have "hour_ns sdiv 100 = (36000000000 :: int)" by (simp add: signed_divide_int_def)
  moreover have "cpu \<le> 36000000000 \<Longrightarrow> mul64 cpu 100 = cpu * 100"
    using assms by (simp add: mul64_def i64_def)
  ultimately show ?thesis using assms by (auto simp: CPUChargesPrefixWait_def)
qed

lemma CPUChargesPrefixWait_range:
  "0 \<le> fst (CPUChargesPrefixWait cpu)" "fst (CPUChargesPrefixWait cpu) \<le> hour_ns"
  using CPUChargesPrefixWait_exact [of cpu] by (auto simp: CPUChargesPrefixWait_def)

section \<open>Debt and closure\<close>

definition dueMono :: "gotime option \<Rightarrow> gotime option \<Rightarrow> bool" where
  "dueMono old new \<longleftrightarrow> (case old of None \<Rightarrow> True | Some o' \<Rightarrow>
     (case new of None \<Rightarrow> False | Some n \<Rightarrow> t_ns o' \<le> t_ns n))"

lemma dueMono_refl [simp]: "dueMono t t"
  by (cases t) (simp_all add: dueMono_def)

lemma dueMono_trans [trans]: "dueMono a b \<Longrightarrow> dueMono b c \<Longrightarrow> dueMono a c"
  by (cases a; cases b; cases c) (simp_all add: dueMono_def)

text \<open>The deadline after a wait that starts at \<open>at\<close>: it is kept, or moved to the end of the wait,
  and it is not before that end.\<close>

definition dueStep :: "gotime option \<Rightarrow> gotime \<Rightarrow> int \<Rightarrow> gotime option \<Rightarrow> bool" where
  "dueStep old at w new \<longleftrightarrow>
     (new = old \<or> new = Some (toUTC (tAdd at w)) \<and> okTime (tAdd at w)) \<and>
     (0 < w \<longrightarrow> (case new of None \<Rightarrow> False | Some n \<Rightarrow> t_ns at + w \<le> t_ns n)) \<and>
     dueMono old new"

lemma cpuChargesDebt_effect:
  assumes "cpuChargesDebt s at w cap = Inr n" "okTime at" "s_Session s = Some r"
  obtains due where "n = s\<lparr>s_Session := Some (r\<lparr>r_LastBackoffNS := w, r_LastBackoffCapped := cap\<rparr>),
      s_NextAllowedAt := due\<rparr>"
    "dueStep (s_NextAllowedAt s) at w due" "0 \<le> w" "w \<le> hour_ns"
proof -
  obtain nx where nx: "cpuFeedbackAdd at w = Inr nx"
    using assms(1) by (cases "cpuFeedbackAdd at w") (simp_all add: cpuChargesDebt_def)
  then have w: "0 \<le> w" "w \<le> hour_ns" "t_ns at + w \<le> maxInt64" "nx = toUTC (tAdd at w)"
    using cpuFeedbackAdd_iff [OF assms(2)] by simp_all
  then have ok: "okTime (tAdd at w)" using assms(2) by (simp add: okTime_def)
  define due where "due = (if w > 0 \<and> (case s_NextAllowedAt s of None \<Rightarrow> True
      | Some n \<Rightarrow> tAfter nx n) then Some nx else s_NextAllowedAt s)"
  have "dueStep (s_NextAllowedAt s) at w due"
    using w ok by (cases "s_NextAllowedAt s") (auto simp: dueStep_def dueMono_def due_def tAfter_def)
  moreover have "n = s\<lparr>s_Session := Some (r\<lparr>r_LastBackoffNS := w, r_LastBackoffCapped := cap\<rparr>),
      s_NextAllowedAt := due\<rparr>"
    using assms(1,3) nx by (simp add: cpuChargesDebt_def due_def)
  ultimately show ?thesis using that w by blast
qed

lemma cpuChargesDebt_defined:
  assumes "okTime at" "0 \<le> w" "w \<le> hour_ns" "t_ns at + hour_ns \<le> maxInt64"
  shows "\<exists>n. cpuChargesDebt s at w cap = Inr n"
proof -
  have "cpuFeedbackAdd at w = Inr (toUTC (tAdd at w))"
    using cpuFeedbackAdd_iff [OF assms(1)] assms by simp
  then show ?thesis by (simp add: cpuChargesDebt_def)
qed

text \<open>Closing as unknown: the counters move by one, nothing is charged, and the deadline moves to
  one hour after the closure at least.\<close>

lemma cpuChargesClose_unknown:
  assumes c: "cpuChargesClose s at st reason rec = Inr n"
    and st: "st = SUnknown \<or> st = SRecoveredUnknown"
    and r: "s_Session s = Some r" "okTime at"
    and i: "i64 (s_ClosedSessions s)" "i64 (s_RecoveredSessions s)"
      "s_UnknownTailSessions s = s_ClosedSessions s"
  obtains due where "n = s\<lparr>s_OpenTailUnobserved := False,
      s_ClosedSessions := s_ClosedSessions s + 1, s_UnknownTailSessions := s_ClosedSessions s + 1,
      s_RecoveredSessions := s_RecoveredSessions s + (if rec then 1 else 0), s_Status := st,
      s_NextAllowedAt := due,
      s_Session := Some (r\<lparr>r_Status := st, r_ClosedAt := Some at, r_ClosureReason := reason,
        r_LastChargeNS := 0, r_LastBackoffNS := hour_ns, r_LastBackoffCapped := False\<rparr>)\<rparr>"
    "dueStep (s_NextAllowedAt s) at hour_ns due"
    "i64 (s_ClosedSessions s + 1)" "i64 (s_RecoveredSessions s + (if rec then 1 else 0))"
proof -
  have g: "s_ClosedSessions s \<noteq> maxInt64" "rec \<Longrightarrow> s_RecoveredSessions s \<noteq> maxInt64"
    using c by (auto simp: cpuChargesClose_def split: if_splits)
  define s1 where "s1 = s\<lparr>s_OpenTailUnobserved := False,
      s_ClosedSessions := s_ClosedSessions s + 1, s_UnknownTailSessions := s_ClosedSessions s + 1,
      s_RecoveredSessions := s_RecoveredSessions s + (if rec then 1 else 0), s_Status := st,
      s_Session := Some (r\<lparr>r_Status := st, r_ClosedAt := Some at, r_ClosureReason := reason,
        r_LastChargeNS := 0\<rparr>)\<rparr>"
  have d: "cpuChargesDebt s1 at hour_ns False = Inr n"
    using c g st r i by (cases rec) (auto simp: cpuChargesClose_def s1_def Let_def)
  have s1: "s_Session s1 = Some (r\<lparr>r_Status := st, r_ClosedAt := Some at,
      r_ClosureReason := reason, r_LastChargeNS := 0\<rparr>)" by (simp add: s1_def)
  obtain due where n: "n = s1\<lparr>s_Session := Some ((r\<lparr>r_Status := st, r_ClosedAt := Some at,
      r_ClosureReason := reason, r_LastChargeNS := 0\<rparr>)\<lparr>r_LastBackoffNS := hour_ns,
      r_LastBackoffCapped := False\<rparr>), s_NextAllowedAt := due\<rparr>"
    and due: "dueStep (s_NextAllowedAt s1) at hour_ns due"
    by (rule cpuChargesDebt_effect [OF d r(2) s1])
  have "i64 (s_ClosedSessions s + 1)" "i64 (s_RecoveredSessions s + (if rec then 1 else 0))"
    using g i by (auto simp: i64_def)
  then show ?thesis
    by (intro that [of due]) (use n due in \<open>simp_all add: s1_def\<close>)
qed

section \<open>Validity of an open ledger and of its closure\<close>

lemma headerE:
  assumes "validChargesHeader s"
  obtains a h where "s_ActivatedAt s = Some a" "s_ClockHighWater s = Some h"
    "okTime a" "t_utc a" "okTime h" "t_utc h" "t_ns a \<le> t_ns h"
  using assms by (cases "s_ActivatedAt s"; cases "s_ClockHighWater s")
    (simp_all add: validChargesHeader_def tBefore_def)

text \<open>A ledger whose newest session is not counted as closed.\<close>

definition openLedger :: "CPUChargeState \<Rightarrow> CPUSessionRecord \<Rightarrow> bool" where
  "openLedger s r \<longleftrightarrow> s_Session s = Some r \<and> validChargesHeader s \<and> validChargesDebt s \<and>
     s_Generation s \<noteq> 0 \<and> validChargesSession s r \<and> validChargesPrefix r \<and>
     validChargesSample s r \<and> s_ClosedSessions s = s_Generation s - 1"

lemma openLedgerD:
  assumes "openLedger s r"
  shows "s_Session s = Some r" "validChargesHeader s" "validChargesDebt s" "s_Generation s \<noteq> 0"
    "validChargesSession s r" "validChargesPrefix r" "validChargesSample s r"
    "s_ClosedSessions s = s_Generation s - 1"
  using assms by (simp_all add: openLedger_def)

lemma active_open:
  assumes "validCPUCharges s" "s_Session s = Some r" "r_Status r = SActive" "chargesI64 s"
  shows "openLedger s r" "validChargesFeedback s r" "validChargesActive s r" "s_Status s = SActive"
proof -
  have g: "s_Generation s \<noteq> 0"
    using assms(1,2) by (auto simp: validCPUCharges_def validChargesUntracked_def)
  then have v: "validChargesHeader s" "validChargesDebt s" "validChargesSession s r"
      "validChargesPrefix r" "validChargesSample s r" "validChargesFeedback s r"
      "validChargesActive s r"
    using assms by (simp_all add: validCPUCharges_def)
  have "sub64 (s_Generation s) 1 = s_Generation s - 1"
    using v(1) assms(4) by (intro sub64_nonneg) (simp_all add: validChargesHeader_def chargesI64_def i64_def)
  then show "openLedger s r"
    using v g assms(2) by (simp add: openLedger_def validChargesActive_def)
  show "validChargesFeedback s r" "validChargesActive s r" by fact+
  show "s_Status s = SActive" using v(3) assms(3) by (simp add: validChargesSession_def)
qed

text \<open>The deadline stays within an hour of the clock, and stays a storable UTC time.\<close>

lemma dueStep_bound:
  assumes "dueStep old at w new" "w \<le> hour_ns"
    and "\<And>n. old = Some n \<Longrightarrow> okTime n \<and> t_utc n \<and> t_ns n \<le> t_ns at + hour_ns"
  shows "case new of None \<Rightarrow> True | Some n \<Rightarrow> okTime n \<and> t_utc n \<and> t_ns n \<le> t_ns at + hour_ns"
  using assms by (cases new) (auto simp: dueStep_def)

lemma dueStep_valid:
  assumes "dueStep old at w new" "0 \<le> w" "w \<le> hour_ns" "okTime at"
    and "\<And>n. old = Some n \<Longrightarrow> okTime n \<and> t_utc n \<and> t_ns n \<le> t_ns at + hour_ns"
  shows "case new of None \<Rightarrow> True | Some n \<Rightarrow> cpuChargesTime n \<and> tSub n at \<le> hour_ns"
proof (cases new)
  case (Some n)
  have "okTime n \<and> t_utc n \<and> t_ns n \<le> t_ns at + hour_ns"
    using assms Some by (auto simp: dueStep_def)
  then show ?thesis using Some by (simp add: tSub_def)
qed simp

lemma debtD:
  assumes "validChargesDebt s" "s_ClockHighWater s = Some h" "s_NextAllowedAt s = Some n"
  shows "okTime n" "t_utc n" "t_ns n \<le> t_ns h + hour_ns"
  using assms by (auto simp: validChargesDebt_def tSub_def)

lemma validChargesDebt_frame:
  assumes "validChargesDebt s" "s_NextAllowedAt t = s_NextAllowedAt s"
    "s_ClockHighWater t = s_ClockHighWater s"
  shows "validChargesDebt t"
  using assms(1) unfolding validChargesDebt_def assms(2,3) .

text \<open>Advancing the clock of an open ledger.\<close>

lemma openLedger_advance:
  assumes o: "openLedger s r" and at: "okTime at" "t_utc at" "t_ns (the (s_ClockHighWater s)) \<le> t_ns at"
  shows "openLedger (s\<lparr>s_ClockHighWater := Some at\<rparr>) r"
proof -
  note d = openLedgerD [OF o]
  obtain a h where ah: "s_ActivatedAt s = Some a" "s_ClockHighWater s = Some h"
    "okTime a" "t_utc a" "okTime h" "t_utc h" "t_ns a \<le> t_ns h"
    using d(2) by (rule headerE)
  have "validChargesHeader (s\<lparr>s_ClockHighWater := Some at\<rparr>)"
    using d(2) at ah by (simp add: validChargesHeader_def tBefore_def)
  moreover have "validChargesDebt (s\<lparr>s_ClockHighWater := Some at\<rparr>)"
  proof (cases "s_NextAllowedAt s")
    case (Some n)
    then show ?thesis
      using debtD [OF d(3) ah(2) Some] at ah by (simp add: validChargesDebt_def tSub_def)
  qed (simp add: validChargesDebt_def)
  moreover have "validChargesSession (s\<lparr>s_ClockHighWater := Some at\<rparr>) r"
    using d(5) at ah by (simp add: validChargesSession_def go_arith)
  moreover have "validChargesSample (s\<lparr>s_ClockHighWater := Some at\<rparr>) r"
    using d(7) at ah by (cases "r_LastSample r") (simp_all add: validChargesSample_def go_arith)
  ultimately show ?thesis using d by (simp add: openLedger_def)
qed

text \<open>Closing an open ledger at its clock as unknown or recovered gives a valid ledger.\<close>

lemma close_unknown_valid:
  assumes o: "openLedger s r" and h: "s_ClockHighWater s = Some at"
    and c: "cpuChargesClose s at st reason rec = Inr n"
    and st: "st = SUnknown \<and> validUnknownReason r' at \<or>
      st = SRecoveredUnknown \<and> rec \<and> reason = RInterruptedSession"
    and r': "r' = r\<lparr>r_Status := st, r_ClosedAt := Some at, r_ClosureReason := reason,
        r_LastChargeNS := 0, r_LastBackoffNS := hour_ns, r_LastBackoffCapped := False\<rparr>"
    and i: "i64 (s_ClosedSessions s)" "i64 (s_RecoveredSessions s)"
  shows "validCPUCharges n" "s_Session n = Some r'" "s_ChargedCPUNS n = s_ChargedCPUNS s"
    "s_Generation n = s_Generation s" "s_ClockHighWater n = Some at"
    "dueStep (s_NextAllowedAt s) at hour_ns (s_NextAllowedAt n)"
    "i64 (s_ClosedSessions n)" "i64 (s_RecoveredSessions n)" "s_Status n = st"
    "s_ClosedSessions n = s_ClosedSessions s + 1" "s_ActivatedAt n = s_ActivatedAt s"
proof -
  note d = openLedgerD [OF o]
  obtain a where a: "s_ActivatedAt s = Some a" "okTime a" "t_utc a" "okTime at" "t_utc at"
      "t_ns a \<le> t_ns at"
    using headerE [OF d(2)] h by (metis option.inject)
  have u: "s_UnknownTailSessions s = s_ClosedSessions s" using d(2) by (simp add: validChargesHeader_def)
  have st': "st = SUnknown \<or> st = SRecoveredUnknown" using st by blast
  obtain due where n: "n = s\<lparr>s_OpenTailUnobserved := False,
      s_ClosedSessions := s_ClosedSessions s + 1, s_UnknownTailSessions := s_ClosedSessions s + 1,
      s_RecoveredSessions := s_RecoveredSessions s + (if rec then 1 else 0), s_Status := st,
      s_NextAllowedAt := due, s_Session := Some r'\<rparr>"
    and due: "dueStep (s_NextAllowedAt s) at hour_ns due"
    and ci: "i64 (s_ClosedSessions s + 1)" "i64 (s_RecoveredSessions s + (if rec then 1 else 0))"
    unfolding r' by (rule cpuChargesClose_unknown [OF c st' d(1) a(4) i u])
  have due': "case due of None \<Rightarrow> True | Some n \<Rightarrow> cpuChargesTime n \<and> tSub n at \<le> hour_ns"
    using dueStep_valid [OF due _ _ a(4)] debtD [OF d(3) h] by simp
  have ud: "unknownDebt n r' at"
    using due by (cases due) (simp_all add: unknownDebt_def n r' dueStep_def tBefore_def)
  have rf: "r_Generation r' = r_Generation r" "r_Start r' = r_Start r" "r_Status r' = st"
    "r_InitialPrefixChargeNS r' = r_InitialPrefixChargeNS r"
    "r_SessionChargedCPUNS r' = r_SessionChargedCPUNS r" "r_LastSelfCPUNS r' = r_LastSelfCPUNS r"
    "r_LastOrdinal r' = r_LastOrdinal r" "r_LastSample r' = r_LastSample r"
    "r_LastSampleFinal r' = r_LastSampleFinal r" "r_ClosedAt r' = Some at"
    "r_ClosureReason r' = reason" "r_LastChargeNS r' = 0" "r_LastBackoffNS r' = hour_ns"
    by (simp_all add: r')
  have 1: "validChargesHeader n" using d(2) by (simp add: n validChargesHeader_def)
  have 2: "validChargesDebt n" using due' h by (cases due) (simp_all add: n validChargesDebt_def)
  have 3: "validChargesSession n r'" using d(5) by (simp add: n rf validChargesSession_def)
  have 4: "validChargesPrefix r'" using d(6)
    by (cases "r_LastSelfCPUNS r") (simp_all add: rf validChargesPrefix_def)
  have 5: "validChargesSample n r'" using d(7)
    by (cases "r_LastSample r") (simp_all add: n rf validChargesSample_def)
  have 6: "validChargesFeedback n r'" using st' by (auto simp: rf validChargesFeedback_def)
  have 7: "validChargesClosed n r'"
    using st ud a d(5,8) h d(2)
    by (auto simp: n rf validChargesClosed_def validChargesSession_def validChargesHeader_def go_arith)
  show "validCPUCharges n"
    using 1 2 3 4 5 6 7 d(4) st' by (auto simp: validCPUCharges_def n rf)
  show "s_Session n = Some r'" "s_ChargedCPUNS n = s_ChargedCPUNS s"
    "s_Generation n = s_Generation s" "s_ClockHighWater n = Some at"
    "dueStep (s_NextAllowedAt s) at hour_ns (s_NextAllowedAt n)"
    "i64 (s_ClosedSessions n)" "i64 (s_RecoveredSessions n)" "s_Status n = st"
    "s_ClosedSessions n = s_ClosedSessions s + 1" "s_ActivatedAt n = s_ActivatedAt s"
    using due ci h by (simp_all add: n)
qed

section \<open>Beginning a session\<close>

text \<open>A ledger with no open session, as seen from a later observation.\<close>

definition closedLedger :: "CPUChargeState \<Rightarrow> gotime \<Rightarrow> bool" where
  "closedLedger s at \<longleftrightarrow> validChargesHeader s \<and> s_ClosedSessions s = s_Generation s \<and>
     okTime at \<and> t_utc at \<and> t_ns (the (s_ClockHighWater s)) \<le> t_ns at \<and>
     (case s_NextAllowedAt s of None \<Rightarrow> True
      | Some n \<Rightarrow> okTime n \<and> t_utc n \<and> t_ns n \<le> t_ns at + hour_ns)"

text \<open>The frame of a started session: the header, the deadline and the session fields that do not
  depend on whether the prefix was observed.\<close>

lemma started_frame:
  assumes cl: "closedLedger s at" and start: "cpuChargesStartValid start" "startI64 start"
      "st_ObservedAt start = at" "st_ExpectedGeneration start = s_Generation s"
      "s_Generation s \<noteq> maxInt64" "i64 (s_Generation s)"
    and nx: "next = s\<lparr>s_Generation := s_Generation s + 1, s_ClockHighWater := Some at,
      s_Status := SActive, s_OpenTailUnobserved := True, s_ChargedCPUNS := charged,
      s_Session := Some r\<rparr>"
    and r: "r_Generation r = s_Generation s + 1" "r_Start r = start" "r_Status r = SActive"
      "r_InitialPrefixChargeNS r = charge" "r_SessionChargedCPUNS r = charge"
      "r_LastSelfCPUNS r = nonnegCPU (st_SelfCPUNS start)" "r_LastOrdinal r = 0"
      "r_LastSample r = None" "\<not> r_LastSampleFinal r" "r_LastChargeNS r = charge"
      "r_LastBackoffNS r = 0"
    and charge: "charge = (case nonnegCPU (st_SelfCPUNS start) of None \<Rightarrow> 0 | Some c \<Rightarrow> c)"
      "0 \<le> charge" "charge \<le> charged"
  shows "openLedger next r"
proof -
  have s: "validChargesHeader s" using cl by (simp add: closedLedger_def)
  obtain a h where ah: "s_ActivatedAt s = Some a" "s_ClockHighWater s = Some h"
    "okTime a" "t_utc a" "okTime h" "t_utc h" "t_ns a \<le> t_ns h"
    using s by (rule headerE)
  have at: "okTime at" "t_utc at" "t_ns h \<le> t_ns at" using cl ah by (simp_all add: closedLedger_def)
  have "validChargesHeader next"
    using s ah at charge by (simp add: nx validChargesHeader_def tBefore_def)
  moreover have "validChargesDebt next"
    using cl by (cases "s_NextAllowedAt s") (simp_all add: nx validChargesDebt_def closedLedger_def tSub_def)
  moreover have "validChargesSession next r"
    using start charge ah at r by (simp add: nx validChargesSession_def go_arith)
  moreover have "validChargesPrefix r"
    using r charge by (cases "nonnegCPU (st_SelfCPUNS start)") (simp_all add: validChargesPrefix_def)
  moreover have "validChargesSample next r"
    using r by (simp add: validChargesSample_def)
  ultimately show ?thesis
    using cl s by (auto simp: openLedger_def nx closedLedger_def validChargesHeader_def)
qed

text \<open>The wait an open session owes after its last observation, and the instant it starts.\<close>

definition sessionWait :: "CPUSessionRecord \<Rightarrow> gotime \<times> int \<times> bool" where
  "sessionWait r = (case r_LastSample r of
       None \<Rightarrow> (st_ObservedAt (r_Start r), CPUChargesPrefixWait (r_InitialPrefixChargeNS r))
     | Some q \<Rightarrow> (sp_ObservedAt q, CPUFeedbackWait (r_LastChargeNS r) (the (sp_ElapsedNS q))))"

definition sessionObserved :: "CPUSessionRecord \<Rightarrow> bool" where
  "sessionObserved r \<longleftrightarrow> (case r_LastSample r of
       None \<Rightarrow> r_LastChargeNS r = r_InitialPrefixChargeNS r
     | Some q \<Rightarrow> sampleProblem q = RNone \<and> r_InitialPrefixChargeNS r \<le> the (sp_SelfCPUNS q) \<and>
         r_LastSelfCPUNS r = sp_SelfCPUNS q)"

lemma validChargesFeedback_alt:
  "validChargesFeedback s r \<longleftrightarrow>
     (r_Status r = SActive \<or> r_Status r = SFinished \<longrightarrow>
      sessionObserved r \<and>
      (case sessionWait r of (anchor, wait, capped) \<Rightarrow>
         r_LastBackoffNS r = wait \<and> r_LastBackoffCapped r = capped \<and>
         t_ns anchor = t_ns (the (s_ClockHighWater s)) \<and>
         (0 < wait \<longrightarrow> (case s_NextAllowedAt s of None \<Rightarrow> False
            | Some n \<Rightarrow> t_ns anchor + wait \<le> t_ns n))))"
  by (cases "s_NextAllowedAt s"; cases "r_LastSample r")
    (auto simp: validChargesFeedback_def sessionObserved_def sessionWait_def go_arith
      split: prod.splits)

text \<open>Adding the debt of the last observation to an open ledger.\<close>

lemma debt_open:
  assumes o: "openLedger s r" and h: "s_ClockHighWater s = Some at"
    and r: "r_Status r = SActive" "sessionObserved r" "sessionWait r = (anchor, w, cap)"
      "t_ns anchor = t_ns at"
    and d: "cpuChargesDebt s at w cap = Inr n"
  obtains due where "n = s\<lparr>s_Session := Some (r\<lparr>r_LastBackoffNS := w, r_LastBackoffCapped := cap\<rparr>),
      s_NextAllowedAt := due\<rparr>" "dueStep (s_NextAllowedAt s) at w due"
    "openLedger n (r\<lparr>r_LastBackoffNS := w, r_LastBackoffCapped := cap\<rparr>)"
    "validChargesFeedback n (r\<lparr>r_LastBackoffNS := w, r_LastBackoffCapped := cap\<rparr>)"
proof -
  note od = openLedgerD [OF o]
  define r' where "r' = r\<lparr>r_LastBackoffNS := w, r_LastBackoffCapped := cap\<rparr>"
  obtain a where a: "s_ActivatedAt s = Some a" "okTime at" "t_utc at"
    using headerE [OF od(2)] h by (metis option.inject)
  obtain due where n: "n = s\<lparr>s_Session := Some r', s_NextAllowedAt := due\<rparr>"
    and due: "dueStep (s_NextAllowedAt s) at w due" and w: "0 \<le> w" "w \<le> hour_ns"
    unfolding r'_def by (rule cpuChargesDebt_effect [OF d a(2) od(1)])
  have due': "case due of None \<Rightarrow> True | Some n \<Rightarrow> cpuChargesTime n \<and> tSub n at \<le> hour_ns"
    using dueStep_valid [OF due w a(2)] debtD [OF od(3) h] by simp
  have rf: "r_Generation r' = r_Generation r" "r_Start r' = r_Start r" "r_Status r' = r_Status r"
    "r_InitialPrefixChargeNS r' = r_InitialPrefixChargeNS r"
    "r_SessionChargedCPUNS r' = r_SessionChargedCPUNS r" "r_LastSelfCPUNS r' = r_LastSelfCPUNS r"
    "r_LastOrdinal r' = r_LastOrdinal r" "r_LastSample r' = r_LastSample r"
    "r_LastSampleFinal r' = r_LastSampleFinal r" "r_LastChargeNS r' = r_LastChargeNS r"
    "r_LastBackoffNS r' = w" "r_LastBackoffCapped r' = cap"
    by (simp_all add: r'_def)
  have 1: "validChargesHeader n" using od(2) by (simp add: n validChargesHeader_def)
  have 2: "validChargesDebt n" using due' h by (cases due) (simp_all add: n validChargesDebt_def)
  have 3: "validChargesSession n r'" using od(5) w by (simp add: n rf validChargesSession_def)
  have 4: "validChargesPrefix r'" using od(6)
    by (cases "r_LastSelfCPUNS r") (simp_all add: rf validChargesPrefix_def)
  have 5: "validChargesSample n r'" using od(7)
    by (cases "r_LastSample r") (simp_all add: n rf validChargesSample_def)
  have so: "sessionObserved r' = sessionObserved r" "sessionWait r' = sessionWait r"
    unfolding sessionObserved_def sessionWait_def rf by simp_all
  have "validChargesFeedback n r'"
    using r due h so by (cases due)
      (simp_all add: validChargesFeedback_alt rf n dueStep_def)
  moreover have "openLedger n r'"
    using 1 2 3 4 5 od by (simp add: openLedger_def n)
  ultimately show ?thesis using that [of due] n due by (simp add: r'_def)
qed

lemma startProblem_nonneg:
  "cpuChargesInputCPU (st_SelfCPUNS s) (st_Reason s) \<Longrightarrow>
   startProblem s \<noteq> RNone \<longleftrightarrow> nonnegCPU (st_SelfCPUNS s) = None"
  by (auto simp: cpuChargesProblem_def cpuChargesInputCPU_def cpuChargesReason_def nonnegCPU_def
      split: option.splits)

abbreviation prefixCharge :: "CPUSessionStart \<Rightarrow> int" where
  "prefixCharge start \<equiv> (case nonnegCPU (st_SelfCPUNS start) of None \<Rightarrow> 0 | Some c \<Rightarrow> c)"

text \<open>What a transition does to the ledger: it is valid again, its integers are \<open>int64\<close>, the clock
  is at the observation and the deadline did not move back.\<close>

definition ledgerStep :: "CPUChargeState \<Rightarrow> gotime \<Rightarrow> CPUChargeState \<Rightarrow> bool" where
  "ledgerStep s at n \<longleftrightarrow> validCPUCharges n \<and> chargesI64 n \<and> s_ClockHighWater n = Some at \<and>
     s_ActivatedAt n = s_ActivatedAt s \<and> dueMono (s_NextAllowedAt s) (s_NextAllowedAt n)"

lemma dueStep_mono: "dueStep old at w new \<Longrightarrow> dueMono old new"
  by (simp add: dueStep_def)

lemma open_active_valid:
  assumes "openLedger s r" "validChargesFeedback s r" "r_Status r = SActive"
    "s_OpenTailUnobserved s" "r_ClosedAt r = None" "r_ClosureReason r = RNone"
    "\<not> r_LastSampleFinal r" "nonnegCPU (st_SelfCPUNS (r_Start r)) \<noteq> None" "i64 (s_Generation s)"
  shows "validCPUCharges s"
proof -
  note d = openLedgerD [OF assms(1)]
  have "sub64 (s_Generation s) 1 = s_Generation s - 1"
    using d(2) assms(9) by (intro sub64_nonneg) (simp_all add: validChargesHeader_def i64_def)
  then show ?thesis
    using assms d by (simp add: validCPUCharges_def validChargesActive_def)
qed

lemma startSession_valid:
  assumes cl: "closedLedger s at" and i: "chargesI64 s"
    and start: "cpuChargesStartValid start" "startI64 start" "st_ObservedAt start = at"
      "st_ExpectedGeneration start = s_Generation s" "s_Generation s \<noteq> maxInt64"
    and n: "startSession s start = Inr n"
  shows "ledgerStep s at n" "s_Generation n = s_Generation s + 1"
    "s_ChargedCPUNS n = s_ChargedCPUNS s + prefixCharge start"
    "s_Status n = (if startProblem start = RNone then SActive else SUnknown)"
    "\<exists>r. s_Session n = Some r \<and> r_Start r = start \<and> r_SessionChargedCPUNS r = prefixCharge start"
proof -
  have gi: "i64 (s_Generation s)" "i64 (s_ChargedCPUNS s)" "i64 (s_ClosedSessions s)"
      "i64 (s_RecoveredSessions s)" using i by (simp_all add: chargesI64_def)
  have gen: "add64 (s_Generation s) 1 = s_Generation s + 1" "i64 (s_Generation s + 1)"
    using gi start(5) by (auto simp: i64_def)
  have hd: "validChargesHeader s" "0 \<le> s_ChargedCPUNS s"
    using cl by (simp_all add: closedLedger_def validChargesHeader_def)
  have inp: "cpuChargesInputCPU (st_SelfCPUNS start) (st_Reason start)"
    using start(1) by (simp add: cpuChargesStartValid_def)
  let ?g = "s_Generation s + 1"
  have goal: "ledgerStep s at n \<and> s_Generation n = ?g \<and>
    s_ChargedCPUNS n = s_ChargedCPUNS s + prefixCharge start \<and>
    s_Status n = (if startProblem start = RNone then SActive else SUnknown) \<and>
    (\<exists>r. s_Session n = Some r \<and> r_Start r = start \<and> r_SessionChargedCPUNS r = prefixCharge start)"
  proof (cases "startProblem start = RNone")
    case True
    then obtain c where c: "st_SelfCPUNS start = Some c" "0 \<le> c"
      using startProblem_RNone [OF inp] by blast
    have nc: "nonnegCPU (st_SelfCPUNS start) = Some c" using c by (simp add: nonnegCPU_def)
    have ic: "i64 c" using start(2) c by (simp add: startI64_def)
    have fit: "c \<le> maxInt64 - s_ChargedCPUNS s"
      using n True c gen hd(2) gi(2) by (auto simp: startSession_def Let_def split: if_splits)
    note ch = guarded_add64 [OF c(2) hd(2) fit]
    define r where "r = (freshSession ?g start)\<lparr>r_InitialPrefixChargeNS := c, r_LastChargeNS := c,
        r_SessionChargedCPUNS := c, r_LastSelfCPUNS := st_SelfCPUNS start\<rparr>"
    define m where "m = s\<lparr>s_Generation := ?g, s_ClockHighWater := Some at, s_Status := SActive,
        s_OpenTailUnobserved := True, s_ChargedCPUNS := s_ChargedCPUNS s + c, s_Session := Some r\<rparr>"
    obtain w cap where wc: "CPUChargesPrefixWait c = (w, cap)" by fastforce
    have deb: "cpuChargesDebt m at w cap = Inr n"
      using n True c gen hd(2) gi(2) fit ch(1) wc start(3)
      by (auto simp: startSession_def Let_def m_def r_def)
    have om: "openLedger m r"
      by (rule started_frame [OF cl start gi(1) m_def, where charge = c])
        (use c nc hd(2) in \<open>simp_all add: r_def freshSession_def\<close>)
    have rr: "r_Status r = SActive" "sessionObserved r" "sessionWait r = (at, w, cap)"
      using wc start(3) by (simp_all add: r_def freshSession_def sessionObserved_def sessionWait_def)
    obtain due where nn: "n = m\<lparr>s_Session := Some (r\<lparr>r_LastBackoffNS := w, r_LastBackoffCapped := cap\<rparr>),
        s_NextAllowedAt := due\<rparr>" and due: "dueStep (s_NextAllowedAt m) at w due"
      and on: "openLedger n (r\<lparr>r_LastBackoffNS := w, r_LastBackoffCapped := cap\<rparr>)"
        "validChargesFeedback n (r\<lparr>r_LastBackoffNS := w, r_LastBackoffCapped := cap\<rparr>)"
      by (rule debt_open [OF om _ rr _ deb]) (simp_all add: m_def)
    have "validCPUCharges n"
      by (rule open_active_valid [OF on])
        (use nc gen(2) in \<open>simp_all add: nn m_def r_def freshSession_def\<close>)
    moreover have "chargesI64 n"
      using gen(2) ch(2) gi start(2) by (simp add: nn m_def r_def freshSession_def chargesI64_def i64_def)
    ultimately show ?thesis
      using dueStep_mono [OF due] nc True
      by (simp add: ledgerStep_def nn m_def r_def freshSession_def)
  next
    case False
    then have nc: "nonnegCPU (st_SelfCPUNS start) = None" using startProblem_nonneg [OF inp] by blast
    define r where "r = freshSession ?g start"
    define m where "m = s\<lparr>s_Generation := ?g, s_ClockHighWater := Some at, s_Status := SActive,
        s_OpenTailUnobserved := True, s_ChargedCPUNS := s_ChargedCPUNS s, s_Session := Some r\<rparr>"
    have clo: "cpuChargesClose m at SUnknown (startProblem start) False = Inr n"
      using n False gen start(3) by (simp add: startSession_def Let_def m_def r_def)
    have om: "openLedger m r"
      by (rule started_frame [OF cl start gi(1) m_def, where charge = 0])
        (use nc hd(2) in \<open>simp_all add: r_def freshSession_def\<close>)
    note cv = close_unknown_valid [OF om _ clo _ refl]
    have "validCPUCharges n \<and> s_ChargedCPUNS n = s_ChargedCPUNS m \<and> s_Generation n = ?g \<and>
        s_ClockHighWater n = Some at \<and>
        dueStep (s_NextAllowedAt m) at hour_ns (s_NextAllowedAt n) \<and> i64 (s_ClosedSessions n) \<and>
        i64 (s_RecoveredSessions n) \<and> s_Status n = SUnknown \<and>
        (\<exists>r'. s_Session n = Some r' \<and> r_Start r' = start \<and> r_SessionChargedCPUNS r' = 0 \<and>
           r_LastOrdinal r' = 0)"
      using cv False gi
      by (simp add: m_def r_def freshSession_def validUnknownReason_def)
    moreover have "s_ActivatedAt n = s_ActivatedAt s"
      using cv(11) False gi by (simp add: m_def r_def freshSession_def validUnknownReason_def)
    ultimately show ?thesis
      using dueStep_mono gen gi start(2) nc False
      by (auto simp: ledgerStep_def chargesI64_def m_def i64_def)
  qed
  then show "ledgerStep s at n" "s_Generation n = s_Generation s + 1"
    "s_ChargedCPUNS n = s_ChargedCPUNS s + prefixCharge start"
    "s_Status n = (if startProblem start = RNone then SActive else SUnknown)"
    "\<exists>r. s_Session n = Some r \<and> r_Start r = start \<and> r_SessionChargedCPUNS r = prefixCharge start"
    by blast+
qed

lemma closed_ledger:
  assumes v: "validCPUCharges s" and na: "s_Status s \<noteq> SActive"
    and at: "okTime at" "t_utc at" "t_ns (the (s_ClockHighWater s)) \<le> t_ns at"
  shows "closedLedger s at"
proof -
  have hd: "validChargesHeader s" "validChargesDebt s" using v by (simp_all add: validCPUCharges_def)
  obtain a h where ah: "s_ActivatedAt s = Some a" "s_ClockHighWater s = Some h"
    using hd(1) by (rule headerE)
  have "s_ClosedSessions s = s_Generation s"
  proof (cases "s_Generation s = 0")
    case True
    then show ?thesis using v by (simp add: validCPUCharges_def validChargesUntracked_def)
  next
    case False
    then obtain r where r: "s_Session s = Some r" using v by (auto simp: validCPUCharges_def split: option.splits)
    have "r_Status r = s_Status s" using v False r by (simp add: validCPUCharges_def validChargesSession_def)
    then have "validChargesClosed s r" using v False r na by (simp add: validCPUCharges_def)
    then show ?thesis by (simp add: validChargesClosed_def)
  qed
  moreover have "case s_NextAllowedAt s of None \<Rightarrow> True
      | Some n \<Rightarrow> okTime n \<and> t_utc n \<and> t_ns n \<le> t_ns at + hour_ns"
  proof (cases "s_NextAllowedAt s")
    case (Some n)
    then show ?thesis using debtD [OF hd(2) ah(2) Some] at ah by simp
  qed simp
  ultimately show ?thesis using hd at by (simp add: closedLedger_def)
qed

lemma status_session:
  assumes "validCPUCharges s"
  shows "s_Status s = SActive \<longleftrightarrow> (\<exists>r. s_Session s = Some r \<and> r_Status r = SActive)"
proof (cases "s_Generation s = 0")
  case True
  then show ?thesis using assms by (auto simp: validCPUCharges_def validChargesUntracked_def)
next
  case False
  then show ?thesis using assms by (auto simp: validCPUCharges_def validChargesSession_def split: option.splits)
qed

lemma recovered_ledger:
  assumes v: "validCPUCharges s" "chargesI64 s" "s_Session s = Some r" "r_Status r = SActive"
    and at: "okTime at" "t_utc at" "t_ns (the (s_ClockHighWater s)) \<le> t_ns at"
    and n: "cpuChargesClose s at SRecoveredUnknown RInterruptedSession True = Inr n"
  shows "closedLedger n at" "chargesI64 n" "s_Generation n = s_Generation s"
    "s_ChargedCPUNS n = s_ChargedCPUNS s" "s_ActivatedAt n = s_ActivatedAt s"
    "dueMono (s_NextAllowedAt s) (s_NextAllowedAt n)"
proof -
  note ao = active_open [OF v(1,3,4,2)]
  note od = openLedgerD [OF ao(1)]
  have i: "i64 (s_ClosedSessions s)" "i64 (s_RecoveredSessions s)"
      "s_UnknownTailSessions s = s_ClosedSessions s"
    using v(2) od(2) by (simp_all add: chargesI64_def validChargesHeader_def)
  obtain a h where ah: "s_ActivatedAt s = Some a" "s_ClockHighWater s = Some h"
    using od(2) by (rule headerE)
  obtain due where nn: "n = s\<lparr>s_OpenTailUnobserved := False,
      s_ClosedSessions := s_ClosedSessions s + 1, s_UnknownTailSessions := s_ClosedSessions s + 1,
      s_RecoveredSessions := s_RecoveredSessions s + (if True then 1 else 0),
      s_Status := SRecoveredUnknown, s_NextAllowedAt := due,
      s_Session := Some (r\<lparr>r_Status := SRecoveredUnknown, r_ClosedAt := Some at,
        r_ClosureReason := RInterruptedSession, r_LastChargeNS := 0, r_LastBackoffNS := hour_ns,
        r_LastBackoffCapped := False\<rparr>)\<rparr>"
    and due: "dueStep (s_NextAllowedAt s) at hour_ns due"
    and ci: "i64 (s_ClosedSessions s + 1)" "i64 (s_RecoveredSessions s + (if True then 1 else 0))"
    by (rule cpuChargesClose_unknown [OF n disjI2 [OF refl] v(3) at(1) i])
  have "case due of None \<Rightarrow> True
      | Some d \<Rightarrow> okTime d \<and> t_utc d \<and> t_ns d \<le> t_ns at + hour_ns"
    by (rule dueStep_bound [OF due order_refl])
      (use debtD [OF od(3) ah(2)] at ah in fastforce)
  moreover have "validChargesHeader n" using od(2) by (simp add: nn validChargesHeader_def)
  ultimately show "closedLedger n at"
    using at od(8) by (cases due) (simp_all add: closedLedger_def nn)
  show "chargesI64 n" using v(2,3) ci by (simp add: chargesI64_def nn)
  show "s_Generation n = s_Generation s"
    "s_ChargedCPUNS n = s_ChargedCPUNS s" "s_ActivatedAt n = s_ActivatedAt s"
    "dueMono (s_NextAllowedAt s) (s_NextAllowedAt n)"
    using dueStep_mono [OF due] by (simp_all add: nn)
qed

lemma beginCharges_valid:
  assumes v: "validCPUCharges s" "chargesI64 s"
    and start: "cpuChargesStartValid start" "startI64 start"
      "st_ExpectedGeneration start = s_Generation s" "s_Generation s \<noteq> maxInt64"
      "\<not> tBefore (st_ObservedAt start) (the (s_ClockHighWater s))"
    and n: "beginCharges s start = Inr n"
  shows "ledgerStep s (st_ObservedAt start) n \<and> s_Generation n = s_Generation s + 1 \<and>
    s_ChargedCPUNS n = s_ChargedCPUNS s + prefixCharge start \<and>
    s_Status n = (if startProblem start = RNone then SActive else SUnknown) \<and>
    (\<exists>r. s_Session n = Some r \<and> r_Start r = start \<and> r_SessionChargedCPUNS r = prefixCharge start)"
proof -
  let ?at = "st_ObservedAt start"
  have at: "okTime ?at" "t_utc ?at" "t_ns (the (s_ClockHighWater s)) \<le> t_ns ?at"
    using start(1,5) by (simp_all add: cpuChargesStartValid_def tBefore_def)
  show ?thesis
  proof (cases "s_Status s = SActive")
    case False
    have na: "\<not> (case s_Session s of None \<Rightarrow> False | Some r \<Rightarrow> r_Status r = SActive)"
      using status_session [OF v(1)] False by (auto split: option.splits)
    then have "startSession s start = Inr n" using n by (simp add: beginCharges_def)
    from startSession_valid [OF closed_ledger [OF v(1) False at] v(2) start(1,2) refl start(3,4) this]
    show ?thesis by blast
  next
    case True
    then obtain r where r: "s_Session s = Some r" "r_Status r = SActive"
      using status_session [OF v(1)] by blast
    then obtain m where m: "cpuChargesClose s ?at SRecoveredUnknown RInterruptedSession True = Inr m"
      "startSession m start = Inr n"
      using n by (auto simp: beginCharges_def split: sum.splits)
    note rl = recovered_ledger [OF v r at m(1)]
    from startSession_valid [OF rl(1,2) start(1,2) refl _ _ m(2)] start(3,4) rl(3)
    have sv: "ledgerStep m ?at n" "s_Generation n = s_Generation m + 1"
      "s_ChargedCPUNS n = s_ChargedCPUNS m + prefixCharge start"
      "s_Status n = (if startProblem start = RNone then SActive else SUnknown)"
      "\<exists>r. s_Session n = Some r \<and> r_Start r = start \<and> r_SessionChargedCPUNS r = prefixCharge start"
      by simp_all
    have "ledgerStep s ?at n"
      using sv(1) rl(5) dueMono_trans [OF rl(6)] by (simp add: ledgerStep_def)
    with sv rl show ?thesis by simp
  qed
qed

section \<open>Sampling and finishing a session\<close>

text \<open>The last reading of an active session is known, and it is the session's total charge.\<close>

lemma active_reading:
  assumes "validCPUCharges s" "s_Session s = Some r" "r_Status r = SActive" "chargesI64 s"
  shows "r_LastSelfCPUNS r = Some (r_SessionChargedCPUNS r)" "0 \<le> r_SessionChargedCPUNS r"
proof -
  note a = active_open [OF assms]
  note od = openLedgerD [OF a(1)]
  have "r_LastSelfCPUNS r \<noteq> None"
  proof (cases "r_LastSample r")
    case None
    then show ?thesis using od(7) a(3) by (simp add: validChargesSample_def validChargesActive_def)
  next
    case (Some q)
    then have "sampleProblem q = RNone" "r_LastSelfCPUNS r = sp_SelfCPUNS q"
      using a(2) assms(3) by (simp_all add: validChargesFeedback_def)
    moreover have "cpuChargesInputCPU (sp_SelfCPUNS q) (sp_Reason q)"
      using od(7) Some by (simp add: validChargesSample_def cpuChargesSampleValid_def)
    ultimately show ?thesis using sampleProblem_RNone by force
  qed
  then show "r_LastSelfCPUNS r = Some (r_SessionChargedCPUNS r)" "0 \<le> r_SessionChargedCPUNS r"
    using od(6) by (auto simp: validChargesPrefix_def)
qed

text \<open>Recording a sample in an open ledger at a clock that is not before it.\<close>

lemma sample_frame:
  assumes o: "openLedger s r" and q: "cpuChargesSampleValid q"
    and at: "okTime at" "t_utc at" "t_ns (the (s_ClockHighWater s)) \<le> t_ns at"
      "t_ns (sp_ObservedAt q) \<le> t_ns at"
    and r1: "r1 = r\<lparr>r_LastSample := Some q, r_LastSampleFinal := f, r_LastOrdinal := sp_Ordinal q\<rparr>"
  shows "openLedger (s\<lparr>s_Session := Some r1, s_ClockHighWater := Some at\<rparr>) r1"
proof -
  note d = openLedgerD [OF openLedger_advance [OF o at(1-3)]]
  have hd: "validChargesHeader (s\<lparr>s_Session := Some r1, s_ClockHighWater := Some at\<rparr>)"
    "validChargesDebt (s\<lparr>s_Session := Some r1, s_ClockHighWater := Some at\<rparr>)"
    using d(2) validChargesDebt_frame [OF d(3)] by (simp_all add: validChargesHeader_def)
  have "validChargesSession (s\<lparr>s_Session := Some r1, s_ClockHighWater := Some at\<rparr>) r1"
    using d(5) q by (simp add: validChargesSession_def r1 cpuChargesSampleValid_def)
  moreover have "validChargesPrefix r1"
    using d(6) by (cases "r_LastSelfCPUNS r") (simp_all add: validChargesPrefix_def r1)
  moreover have "validChargesSample (s\<lparr>s_Session := Some r1, s_ClockHighWater := Some at\<rparr>) r1"
    using q at by (simp add: validChargesSample_def r1 tAfter_def)
  ultimately show ?thesis using hd d(4,8) by (simp add: openLedger_def)
qed

text \<open>Closing at the final sample.\<close>

lemma close_finished_valid:
  assumes o: "openLedger s r" "validChargesFeedback s r" and h: "s_ClockHighWater s = Some at"
    and r: "r_Status r = SActive" "r_LastSample r = Some q" "r_LastSampleFinal r"
      "sp_ObservedAt q = at"
    and c: "cpuChargesClose s at SFinished RGracefulTail False = Inr n"
    and i: "i64 (s_ClosedSessions s)"
  shows "validCPUCharges n"
    "n = s\<lparr>s_OpenTailUnobserved := False, s_ClosedSessions := s_ClosedSessions s + 1,
       s_UnknownTailSessions := s_ClosedSessions s + 1, s_Status := SFinished,
       s_Session := Some (r\<lparr>r_Status := SFinished, r_ClosedAt := Some at,
         r_ClosureReason := RGracefulTail\<rparr>)\<rparr>"
    "i64 (s_ClosedSessions n)"
proof -
  note d = openLedgerD [OF o(1)]
  obtain a where a: "s_ActivatedAt s = Some a" "okTime at" "t_utc at"
    using headerE [OF d(2)] h by (metis option.inject)
  have u: "s_UnknownTailSessions s = s_ClosedSessions s" "0 \<le> s_ClosedSessions s"
      "s_RecoveredSessions s \<le> s_ClosedSessions s"
    using d(2) by (simp_all add: validChargesHeader_def)
  have m: "s_ClosedSessions s \<noteq> maxInt64" using c by (auto simp: cpuChargesClose_def split: if_splits)
  define r' where "r' = r\<lparr>r_Status := SFinished, r_ClosedAt := Some at,
      r_ClosureReason := RGracefulTail\<rparr>"
  have n: "n = s\<lparr>s_OpenTailUnobserved := False, s_ClosedSessions := s_ClosedSessions s + 1,
      s_UnknownTailSessions := s_ClosedSessions s + 1, s_Status := SFinished, s_Session := Some r'\<rparr>"
    using c m u i d(1) by (simp add: cpuChargesClose_def Let_def r'_def split: if_splits)
  have rf: "r_Generation r' = r_Generation r" "r_Start r' = r_Start r" "r_Status r' = SFinished"
    "r_InitialPrefixChargeNS r' = r_InitialPrefixChargeNS r"
    "r_SessionChargedCPUNS r' = r_SessionChargedCPUNS r" "r_LastSelfCPUNS r' = r_LastSelfCPUNS r"
    "r_LastOrdinal r' = r_LastOrdinal r" "r_LastSample r' = r_LastSample r"
    "r_LastSampleFinal r' = r_LastSampleFinal r" "r_ClosedAt r' = Some at"
    "r_ClosureReason r' = RGracefulTail" "r_LastChargeNS r' = r_LastChargeNS r"
    "r_LastBackoffNS r' = r_LastBackoffNS r" "r_LastBackoffCapped r' = r_LastBackoffCapped r"
    by (simp_all add: r'_def)
  have so: "sessionObserved r" "sessionWait r' = sessionWait r" "sessionObserved r' = sessionObserved r"
    using o(2) r(1,2) by (simp_all add: validChargesFeedback_alt sessionObserved_def sessionWait_def rf)
  have sq: "sampleProblem q = RNone" "r_LastSelfCPUNS r = sp_SelfCPUNS q"
    using so(1) r(2) by (simp_all add: sessionObserved_def)
  obtain c0 where c0: "sp_SelfCPUNS q = Some c0"
    using sampleProblem_RNone [of q] sq(1) d(7) r(2)
    by (auto simp: validChargesSample_def cpuChargesSampleValid_def)
  have 1: "validChargesHeader n" using d(2) u by (simp add: n validChargesHeader_def)
  have 2: "validChargesDebt n" by (rule validChargesDebt_frame [OF d(3)]) (simp_all add: n)
  have 3: "validChargesSession n r'" using d(5) by (simp add: n rf validChargesSession_def)
  have 4: "validChargesPrefix r'" using d(6) unfolding validChargesPrefix_def rf .
  have 5: "validChargesSample n r'" using d(7) r(2) by (simp add: n rf validChargesSample_def)
  have 6: "validChargesFeedback n r'"
    using o(2) r(1) so by (simp add: validChargesFeedback_alt rf n)
  have "\<not> tBefore at (st_ObservedAt (r_Start r))"
    using d(5) h by (simp add: validChargesSession_def go_arith)
  then have 7: "validChargesClosed n r'"
    using a d(8) h r sq c0 by (simp add: n rf validChargesClosed_def go_arith)
  show "validCPUCharges n"
    using 1 2 3 4 5 6 7 d(4) by (simp add: validCPUCharges_def n rf)
  show "n = s\<lparr>s_OpenTailUnobserved := False, s_ClosedSessions := s_ClosedSessions s + 1,
       s_UnknownTailSessions := s_ClosedSessions s + 1, s_Status := SFinished,
       s_Session := Some (r\<lparr>r_Status := SFinished, r_ClosedAt := Some at,
         r_ClosureReason := RGracefulTail\<rparr>)\<rparr>"
    using n by (simp add: r'_def)
  show "i64 (s_ClosedSessions n)" using i m by (simp add: n i64_def)
qed

text \<open>What a sample does: nothing is charged when it cannot be trusted; otherwise the charge grows by
  exactly the difference of the two readings and the session's total is the new reading.\<close>

lemma sampleProblemAt_reason:
  assumes p: "sampleProblemAt r q high \<noteq> RNone" "r_LastSelfCPUNS r = Some c"
    and r': "r_LastSample r' = Some q" "r_LastSelfCPUNS r' = Some c"
      "r_ClosureReason r' = sampleProblemAt r q high"
    and at: "tBefore (sp_ObservedAt q) high \<Longrightarrow> at = high"
  shows "validUnknownReason r' at"
  using assms by (auto simp: sampleProblemAt_def validUnknownReason_def Let_def split: if_splits)

lemma sampleProblemAt_RNone:
  assumes "sampleProblemAt r q high = RNone" "r_LastSelfCPUNS r = Some c"
  shows "\<not> tBefore (sp_ObservedAt q) high" "sampleProblem q = RNone" "c \<le> the (sp_SelfCPUNS q)"
  using assms unfolding sampleProblemAt_def Let_def by (simp_all split: if_splits)

lemma charged_frame:
  assumes o: "openLedger s r" and r: "r_LastSelfCPUNS r = Some c" "r_SessionChargedCPUNS r = c" "0 \<le> c"
    and c': "c \<le> c'"
    and r2: "r2 = r\<lparr>r_LastChargeNS := c' - c, r_SessionChargedCPUNS := c', r_LastSelfCPUNS := Some c'\<rparr>"
    and q: "r_LastSample r = Some q"
  shows "openLedger (s\<lparr>s_ChargedCPUNS := s_ChargedCPUNS s + (c' - c), s_Session := Some r2\<rparr>) r2"
    (is "openLedger ?m r2")
proof -
  note d = openLedgerD [OF o]
  have "validChargesHeader ?m" using d(2) c' by (simp add: validChargesHeader_def)
  moreover have "validChargesDebt ?m" by (rule validChargesDebt_frame [OF d(3)]) simp_all
  moreover have "validChargesSession ?m r2"
    using d(5) r c' by (simp add: validChargesSession_def r2)
  moreover have "validChargesPrefix r2" "validChargesSample ?m r2"
    using d(6,7) r c' q by (simp_all add: validChargesPrefix_def validChargesSample_def r2)
  ultimately show ?thesis using d(4,8) by (simp add: openLedger_def)
qed

lemma chargeSample_valid:
  assumes o: "openLedger s r" and h: "s_ClockHighWater s = Some at"
    and st: "r_Status r = SActive" "s_OpenTailUnobserved s" "r_ClosedAt r = None"
      "r_ClosureReason r = RNone" "nonnegCPU (st_SelfCPUNS (r_Start r)) \<noteq> None"
    and i: "chargesI64 s"
    and q: "r_LastSample r = Some q" "r_LastSampleFinal r = f" "sp_ObservedAt q = at"
      "sampleProblem q = RNone" "sampleI64 q"
    and r: "r_LastSelfCPUNS r = Some c" "r_SessionChargedCPUNS r = c" "0 \<le> c" "sp_SelfCPUNS q = Some c'"
      "c \<le> c'"
    and n: "chargeSample s r q f at = Inr n"
  shows "ledgerStep s at n \<and> s_ChargedCPUNS n = s_ChargedCPUNS s + (c' - c) \<and>
    s_Generation n = s_Generation s \<and> s_Status n = (if f then SFinished else s_Status s) \<and>
    (\<exists>r'. s_Session n = Some r' \<and> r_Start r' = r_Start r \<and> r_SessionChargedCPUNS r' = c' \<and>
      r_LastSample r' = Some q \<and> r_LastSampleFinal r' = f \<and> r_LastOrdinal r' = r_LastOrdinal r \<and>
      r_Generation r' = r_Generation r)"
proof -
  note d = openLedgerD [OF o]
  have ci: "i64 c'" "0 \<le> s_ChargedCPUNS s" "i64 (s_ChargedCPUNS s)" "i64 (s_Generation s)"
      "i64 (s_ClosedSessions s)" "i64 (s_RecoveredSessions s)" "startI64 (r_Start r)"
      "i64 (r_LastOrdinal r)"
    using q(5) r(4) i d(1,2) by (simp_all add: sampleI64_def chargesI64_def validChargesHeader_def)
  have delta: "sub64 c' c = c' - c" using r ci(1) by (intro sub64_nonneg) (simp_all add: i64_def)
  obtain w cap where wc: "CPUFeedbackWait (c' - c) (the (sp_ElapsedNS q)) = (w, cap)" by fastforce
  define r2 where "r2 = r\<lparr>r_LastChargeNS := c' - c, r_SessionChargedCPUNS := c',
      r_LastSelfCPUNS := Some c'\<rparr>"
  define m where "m = s\<lparr>s_ChargedCPUNS := s_ChargedCPUNS s + (c' - c), s_Session := Some r2\<rparr>"
  have fit: "c' - c \<le> maxInt64 - s_ChargedCPUNS s"
    using n r delta ci by (auto simp: chargeSample_def Let_def split: if_splits)
  note ch = guarded_add64 [OF _ ci(2) fit]
  obtain n2 where n2: "cpuChargesDebt m at w cap = Inr n2"
    and fin: "(if f then cpuChargesClose n2 at SFinished RGracefulTail False else Inr n2) = Inr n"
    using n r delta ci fit ch wc
    by (auto simp: chargeSample_def Let_def m_def r2_def split: sum.splits)
  have om: "openLedger m r2"
    unfolding m_def by (rule charged_frame [OF o r(1,2,3,5) r2_def q(1)])
  have ini: "r_InitialPrefixChargeNS r \<le> c'" using d(5) r by (simp add: validChargesSession_def)
  have so: "sessionObserved r2" "sessionWait r2 = (at, w, cap)" "r_Status r2 = SActive"
    using q r st wc ini by (simp_all add: sessionObserved_def sessionWait_def r2_def)
  define r3 where "r3 = r2\<lparr>r_LastBackoffNS := w, r_LastBackoffCapped := cap\<rparr>"
  obtain due where nn: "n2 = m\<lparr>s_Session := Some r3, s_NextAllowedAt := due\<rparr>"
    and due: "dueStep (s_NextAllowedAt m) at w due"
    and on: "openLedger n2 r3" "validChargesFeedback n2 r3"
    unfolding r3_def by (rule debt_open [OF om _ so(3,1,2) _ n2]) (simp_all add: m_def h)
  have r3: "r_Status r3 = SActive" "r_LastSample r3 = Some q" "r_LastSampleFinal r3 = f"
      "r_ClosedAt r3 = None" "r_ClosureReason r3 = RNone" "r_Start r3 = r_Start r"
      "r_SessionChargedCPUNS r3 = c'" "r_LastOrdinal r3 = r_LastOrdinal r"
      "r_Generation r3 = r_Generation r"
    using st q by (simp_all add: r3_def r2_def)
  have n2f: "s_ClockHighWater n2 = Some at" "s_ClosedSessions n2 = s_ClosedSessions s"
      "s_OpenTailUnobserved n2" "s_Generation n2 = s_Generation s" "s_Status n2 = s_Status s"
      "s_ChargedCPUNS n2 = s_ChargedCPUNS s + (c' - c)" "s_ActivatedAt n2 = s_ActivatedAt s"
      "dueMono (s_NextAllowedAt s) (s_NextAllowedAt n2)" "s_RecoveredSessions n2 = s_RecoveredSessions s"
      "s_Session n2 = Some r3"
    using h st dueStep_mono [OF due] by (simp_all add: nn m_def)
  have chi: "i64 (s_ChargedCPUNS s + (c' - c))" using ch(2) r by simp
  show ?thesis
  proof (cases f)
    case False
    then have "n = n2" using fin by simp
    moreover have "validCPUCharges n2"
      by (rule open_active_valid [OF on]) (use r3 n2f st False ci in simp_all)
    ultimately show ?thesis
      using n2f r3 False chi ci by (simp add: ledgerStep_def chargesI64_def)
  next
    case True
    then have "cpuChargesClose n2 at SFinished RGracefulTail False = Inr n" using fin by simp
    note cf = close_finished_valid [OF on n2f(1) r3(1,2) _ q(3) this]
    have "validCPUCharges n" "i64 (s_ClosedSessions n)"
      using cf True r3 n2f ci by simp_all
    moreover have "n = n2\<lparr>s_OpenTailUnobserved := False, s_ClosedSessions := s_ClosedSessions n2 + 1,
       s_UnknownTailSessions := s_ClosedSessions n2 + 1, s_Status := SFinished,
       s_Session := Some (r3\<lparr>r_Status := SFinished, r_ClosedAt := Some at,
         r_ClosureReason := RGracefulTail\<rparr>)\<rparr>"
      using cf(2) True r3 n2f ci by simp
    ultimately show ?thesis
      using n2f r3 True chi ci by (simp add: ledgerStep_def chargesI64_def)
  qed
qed

lemma sampleCharges_valid:
  assumes v: "validCPUCharges s" "chargesI64 s" "s_Session s = Some r" "r_Status r = SActive"
    and q: "cpuChargesSampleValid q" "sampleI64 q"
    and n: "sampleCharges s q f = Inr (n, problem)"
    and at: "at = maxTime (the (s_ClockHighWater s)) (sp_ObservedAt q)"
  shows "ledgerStep s at n \<and> s_Generation n = s_Generation s \<and>
    problem = sampleProblemAt r q (the (s_ClockHighWater s)) \<and>
    s_Status n = (if problem \<noteq> RNone then SUnknown else if f then SFinished else SActive) \<and>
    s_ChargedCPUNS n = s_ChargedCPUNS s +
      (if problem \<noteq> RNone then 0 else the (sp_SelfCPUNS q) - r_SessionChargedCPUNS r) \<and>
    s_ChargedCPUNS s \<le> s_ChargedCPUNS n \<and>
    (\<exists>r'. s_Session n = Some r' \<and> r_Start r' = r_Start r \<and> r_Generation r' = r_Generation r \<and>
      r_SessionChargedCPUNS r' =
        (if problem \<noteq> RNone then r_SessionChargedCPUNS r else the (sp_SelfCPUNS q)) \<and>
      r_LastSample r' = Some q \<and> r_LastSampleFinal r' = f \<and> r_LastOrdinal r' = sp_Ordinal q)"
proof -
  note ao = active_open [OF v(1,3,4,2)]
  note ar = active_reading [OF v(1,3,4,2)]
  note od = openLedgerD [OF ao(1)]
  obtain h where h: "s_ClockHighWater s = Some h" "okTime h" "t_utc h"
    using od(2) by (rule headerE)
  have qt: "okTime (sp_ObservedAt q)" "t_utc (sp_ObservedAt q)"
      "cpuChargesInputCPU (sp_SelfCPUNS q) (sp_Reason q)"
    using q(1) by (simp_all add: cpuChargesSampleValid_def)
  have cond: "at = (if tBefore (sp_ObservedAt q) h then h else sp_ObservedAt q)"
    using h qt by (auto simp: at maxTime_def go_arith)
  have ats: "okTime at" "t_utc at" "t_ns h \<le> t_ns at" "t_ns (sp_ObservedAt q) \<le> t_ns at"
    using h qt by (simp_all add: cond go_arith)
  define r1 where "r1 = r\<lparr>r_LastSample := Some q, r_LastSampleFinal := f, r_LastOrdinal := sp_Ordinal q\<rparr>"
  define m where "m = s\<lparr>s_Session := Some r1, s_ClockHighWater := Some at\<rparr>"
  have om: "openLedger m r1" unfolding m_def
    by (rule sample_frame [OF ao(1) q(1) ats(1,2) _ ats(4) r1_def]) (use ats h in simp)
  have mi: "chargesI64 m" using v(2,3) q(2) by (simp add: m_def r1_def chargesI64_def sampleI64_def)
  define p where "p = sampleProblemAt r1 q h"
  have pr: "p = sampleProblemAt r q h" by (simp add: p_def r1_def sampleProblemAt_def)
  have sc: "(if p \<noteq> RNone then (case cpuChargesClose m at SUnknown p False of
      Inl e \<Rightarrow> Inl e | Inr n \<Rightarrow> Inr (n, p))
    else (case chargeSample m r1 q f at of Inl e \<Rightarrow> Inl e | Inr n \<Rightarrow> Inr (n, p))) = Inr (n, problem)"
    using n unfolding sampleCharges_def Let_def v(3) h(1) option.sel p_def m_def r1_def cond
    by (simp split: if_splits)
  then have pp: "problem = p" by (auto split: if_splits sum.splits)
  show ?thesis
  proof (cases "p = RNone")
    case False
    then have clo: "cpuChargesClose m at SUnknown p False = Inr n"
      using sc by (auto split: sum.splits)
    define r' where "r' = r1\<lparr>r_Status := SUnknown, r_ClosedAt := Some at, r_ClosureReason := p,
        r_LastChargeNS := 0, r_LastBackoffNS := hour_ns, r_LastBackoffCapped := False\<rparr>"
    have vr: "validUnknownReason r' at"
      by (rule sampleProblemAt_reason [of r q h "r_SessionChargedCPUNS r"])
        (use False ar pr cond in \<open>simp_all add: r'_def r1_def\<close>)
    have "i64 (s_ClosedSessions m)" "i64 (s_RecoveredSessions m)"
      using mi by (simp_all add: chargesI64_def)
    note cv = close_unknown_valid [OF om _ clo disjI1 [OF conjI [OF refl vr]] r'_def this]
    have mh: "s_ClockHighWater m = Some at" by (simp add: m_def)
    show ?thesis
      using cv [OF mh] dueStep_mono False pp pr mi h(1)
      by (simp add: ledgerStep_def m_def r'_def r1_def chargesI64_def)
  next
    case True
    then have "sampleProblemAt r q h = RNone" using pr by simp
    note sp = sampleProblemAt_RNone [OF this ar(1)]
    obtain c' where "sp_SelfCPUNS q = Some c'"
      using sp(2) sampleProblem_RNone [OF qt(3)] by blast
    with sp have c': "sp_SelfCPUNS q = Some c'" "r_SessionChargedCPUNS r \<le> c'"
        "sampleProblem q = RNone" "\<not> tBefore (sp_ObservedAt q) h" by simp_all
    have "chargeSample m r1 q f at = Inr n" using sc True by (auto split: sum.splits)
    note cs = chargeSample_valid [OF om _ _ _ _ _ _ mi _ _ _ c'(3) q(2) _ refl _ c'(1) _ this]
    have mf: "s_ClockHighWater m = Some at" "r_Status r1 = SActive" "s_OpenTailUnobserved m"
        "r_ClosedAt r1 = None" "r_ClosureReason r1 = RNone"
        "nonnegCPU (st_SelfCPUNS (r_Start r1)) \<noteq> None" "r_LastSample r1 = Some q"
        "r_LastSampleFinal r1 = f" "sp_ObservedAt q = at"
        "r_LastSelfCPUNS r1 = Some (r_SessionChargedCPUNS r1)" "0 \<le> r_SessionChargedCPUNS r1"
        "r_SessionChargedCPUNS r1 \<le> c'"
      using ar ao(3) v(4) c'(2,4) by (simp_all add: m_def r1_def cond validChargesActive_def)
    note cs [OF mf]
    then show ?thesis
      using True pp pr h(1) c' ao(4) by (auto simp: ledgerStep_def m_def r1_def)
  qed
qed

section \<open>Recovering an interrupted session\<close>

lemma recoverCharges_valid:
  assumes v: "validCPUCharges s" "chargesI64 s" "s_Session s = Some r" "r_Status r = SActive"
    and at: "okTime at" "t_utc at" "\<not> tBefore at (the (s_ClockHighWater s))"
    and n: "recoverCharges s at = Inr n"
  shows "ledgerStep s at n \<and> s_Generation n = s_Generation s \<and> s_Status n = SRecoveredUnknown \<and>
    s_ChargedCPUNS n = s_ChargedCPUNS s \<and>
    (\<exists>d. s_NextAllowedAt n = Some d \<and> t_ns at + hour_ns \<le> t_ns d) \<and>
    (\<exists>r'. s_Session n = Some r' \<and> r_Start r' = r_Start r \<and> r_Generation r' = r_Generation r \<and>
      r_LastOrdinal r' = r_LastOrdinal r)"
proof -
  note ao = active_open [OF v(1,3,4,2)]
  define m where "m = s\<lparr>s_ClockHighWater := Some at\<rparr>"
  have om: "openLedger m r" unfolding m_def
    by (rule openLedger_advance [OF ao(1) at(1,2)]) (use at(3) in \<open>simp add: tBefore_def\<close>)
  have clo: "cpuChargesClose m at SRecoveredUnknown RInterruptedSession True = Inr n"
    using n by (simp add: recoverCharges_def m_def)
  have mi: "i64 (s_ClosedSessions m)" "i64 (s_RecoveredSessions m)" "s_ClockHighWater m = Some at"
    using v(2) by (simp_all add: chargesI64_def m_def)
  note cv = close_unknown_valid [OF om mi(3) clo disjI2 refl mi(1,2)]
  have "\<exists>d. s_NextAllowedAt n = Some d \<and> t_ns at + hour_ns \<le> t_ns d"
    using cv(6) by (cases "s_NextAllowedAt n") (simp_all add: dueStep_def)
  then show ?thesis
    using cv dueStep_mono v(2,3) by (simp add: ledgerStep_def m_def chargesI64_def)
qed

end
