(* ===== verification/CPU_Admission_Laws.thy ===== *)
theory CPU_Admission_Laws
  imports CPU_Admission CPU_Charges_Laws
begin

text \<open>
  The transitions of the ledger and its admission record together: the limited transitions compute
  what the bare ones compute, the periods account for every nanosecond charged since activation,
  and what a transition writes always passes \<open>validCPUAdmission\<close>.
\<close>

section \<open>The limited transitions are the bare ones\<close>

lemma cpuLimitedBeginState_eq: "cpuLimitedBeginState prior start = startSession prior start"
  by (simp add: cpuLimitedBeginState_def startSession_def Let_def)

lemma cpuLimitedSampleState_eq:
  assumes "s_ClockHighWater c = Some h"
  shows "cpuLimitedSampleState c q f h =
    (case sampleCharges c q f of Inl e \<Rightarrow> Inl e | Inr (n, _) \<Rightarrow> Inr n)"
  using assms
  by (auto simp: cpuLimitedSampleState_def sampleCharges_def chargeSample_def sampleProblemAt_def
      Let_def split: sum.splits prod.splits)

section \<open>Slots\<close>

lemma admissionSlot_iff:
  assumes "0 < n" "n \<le> maxInt64" "d = hour_ns \<or> d = day_ns"
  shows "admissionSlot n d = Inr p \<longleftrightarrow> n div d * d \<le> maxInt64 - d \<and>
    p = zeroPeriod\<lparr>p_StartNS := n div d * d, p_NextBoundaryNS := n div d * d + d\<rparr>"
proof -
  have d: "0 < d" "i64 d" using assms(3) by (auto simp: i64_def)
  have m: "n smod d = n mod d" using assms(1) d by (simp add: signed_modulo_int_def)
  have "0 \<le> n mod d" "n mod d \<le> n" using d assms(1) by (simp_all add: zmod_le_nonneg_dividend)
  then have "i64 (n - n mod d)" using assms(1,2) by (simp add: i64_def)
  then have s: "sub64 n (n smod d) = n div d * d"
    using m sub64_id by (simp add: minus_mod_eq_div_mult)
  have "0 \<le> n div d * d" using assms(1) d by (simp add: pos_imp_zdiv_nonneg_iff)
  then have "n div d * d \<le> maxInt64 - d \<Longrightarrow> add64 (n div d * d) d = n div d * d + d"
    using d by (intro add64_id) (simp add: i64_def)
  moreover have "sub64 maxInt64 d = maxInt64 - d" using d by simp
  ultimately show ?thesis using s by (auto simp: admissionSlot_def Let_def)
qed

definition slotOf :: "int \<Rightarrow> gotime \<Rightarrow> CPUChargePeriod" where
  "slotOf d at = zeroPeriod\<lparr>p_StartNS := t_ns at div d * d, p_NextBoundaryNS := t_ns at div d * d + d\<rparr>"

lemma cpuAdmissionSlots_iff:
  "cpuAdmissionSlots at = Inr (h, d) \<longleftrightarrow>
     cpuAdmissionTime at \<and> h = slotOf hour_ns at \<and> d = slotOf day_ns at"
proof (cases "cpuChargesTime at")
  case True
  then have n: "0 < unixNano at" "unixNano at \<le> maxInt64" "unixNano at = t_ns at"
    by (simp_all add: okTime_def unixNano_def i64_def)
  obtain x where x: "admissionSlot (unixNano at) hour_ns = x" by simp
  obtain y where y: "admissionSlot (unixNano at) day_ns = y" by simp
  show ?thesis
    using True n x y admissionSlot_iff [OF n(1,2) disjI1 [OF refl]] admissionSlot_iff [OF n(1,2) disjI2 [OF refl]]
    by (cases x; cases y) (auto simp: cpuAdmissionSlots_def cpuAdmissionTime_def slotOf_def)
next
  case False
  then show ?thesis by (auto simp: cpuAdmissionSlots_def cpuAdmissionTime_def)
qed

lemma cpuAdmissionTimeD:
  assumes "cpuAdmissionTime at"
  shows "okTime at" "t_utc at" "cpuAdmissionSlots at = Inr (slotOf hour_ns at, slotOf day_ns at)"
  using assms cpuAdmissionSlots_iff by (simp_all add: cpuAdmissionTime_def)

lemma slotOf_simps [simp]:
  "p_StartNS (slotOf d at) = t_ns at div d * d" "p_NextBoundaryNS (slotOf d at) = t_ns at div d * d + d"
  "p_AssignedCPUNS (slotOf d at) = 0" "p_RetiredAssignedCPUNS (slotOf d at) = 0"
  "\<not> p_PartialTracking (slotOf d at)" "\<not> p_BlockingUnknown (slotOf d at)"
  by (simp_all add: slotOf_def zeroPeriod_def)

text \<open>The slot of an instant contains it; slots follow the order of instants.\<close>

lemma slotOf_contains:
  assumes "0 < d"
  shows "p_StartNS (slotOf d at) \<le> t_ns at" "t_ns at < p_NextBoundaryNS (slotOf d at)"
proof -
  have "t_ns at div d * d + t_ns at mod d = t_ns at" by simp
  moreover have "0 \<le> t_ns at mod d" "t_ns at mod d < d" using assms by simp_all
  ultimately show "p_StartNS (slotOf d at) \<le> t_ns at" "t_ns at < p_NextBoundaryNS (slotOf d at)"
    by (simp_all only: slotOf_simps)
qed

lemma sdiv_nonneg: "0 \<le> a \<Longrightarrow> 0 < (d::int) \<Longrightarrow> a sdiv d = a div d"
  by (cases "a = 0") (simp_all add: signed_divide_int_def)

lemma slot_left:
  assumes "0 < d" "t \<le> u" "u \<le> (v::int)" "u div d \<noteq> v div d"
  shows "t div d \<noteq> v div d"
proof -
  have "t div d \<le> u div d" "u div d \<le> v div d" using assms by (simp_all add: zdiv_mono1)
  with assms(4) show ?thesis by linarith
qed

section \<open>Rolling the periods\<close>

text \<open>The conservation law of a period: what was charged before activation, what earlier periods of
  the kind were assigned and what this one was assigned add up to the ledger's total.\<close>

definition periodSum :: "int \<Rightarrow> CPUChargePeriod \<Rightarrow> int \<Rightarrow> bool" where
  "periodSum base p tot \<longleftrightarrow> 0 \<le> base \<and> 0 \<le> p_AssignedCPUNS p \<and> 0 \<le> p_RetiredAssignedCPUNS p \<and>
     base + p_RetiredAssignedCPUNS p + p_AssignedCPUNS p = tot"

lemma validPeriod_iff:
  assumes "0 \<le> a_ActivationBaselineCPUNS a" "a_ActivationBaselineCPUNS a \<le> s_ChargedCPUNS c"
    "s_ChargedCPUNS c \<le> maxInt64"
  shows "validPeriod a c s w \<longleftrightarrow> p_StartNS s = p_StartNS w \<and> p_NextBoundaryNS s = p_NextBoundaryNS w \<and>
    periodSum (a_ActivationBaselineCPUNS a) s (s_ChargedCPUNS c)"
proof -
  let ?b = "a_ActivationBaselineCPUNS a" and ?r = "p_RetiredAssignedCPUNS s" and ?g = "p_AssignedCPUNS s"
  have b: "sub64 maxInt64 ?b = maxInt64 - ?b" using assms by (simp add: i64_def)
  have r: "0 \<le> ?r \<Longrightarrow> ?r \<le> maxInt64 - ?b \<Longrightarrow> sub64 (maxInt64 - ?b) ?r = maxInt64 - ?b - ?r"
    using assms by (simp add: i64_def)
  have sum: "0 \<le> ?r \<Longrightarrow> 0 \<le> ?g \<Longrightarrow> ?b + ?r + ?g \<le> maxInt64 \<Longrightarrow> add64 (add64 ?b ?r) ?g = ?b + ?r + ?g"
    using assms by (simp add: add64_id i64_def)
  show ?thesis
  proof
    assume v: "validPeriod a c s w"
    then have "0 \<le> ?r" "0 \<le> ?g" "?b + ?r + ?g \<le> maxInt64" using b r by (simp_all add: validPeriod_def)
    with v sum show "p_StartNS s = p_StartNS w \<and> p_NextBoundaryNS s = p_NextBoundaryNS w \<and>
        periodSum ?b s (s_ChargedCPUNS c)"
      using assms by (simp add: validPeriod_def periodSum_def)
  next
    assume p: "p_StartNS s = p_StartNS w \<and> p_NextBoundaryNS s = p_NextBoundaryNS w \<and>
        periodSum ?b s (s_ChargedCPUNS c)"
    then have "0 \<le> ?r" "0 \<le> ?g" "?b + ?r + ?g = s_ChargedCPUNS c" by (simp_all add: periodSum_def)
    with p sum assms b r show "validPeriod a c s w" by (simp add: validPeriod_def)
  qed
qed

definition rolled :: "int \<Rightarrow> gotime \<Rightarrow> int \<Rightarrow> bool \<Rightarrow> CPUChargePeriod \<Rightarrow> CPUChargePeriod" where
  "rolled d at charge unknown s =
     (if p_StartNS s \<noteq> t_ns at div d * d
      then (slotOf d at)\<lparr>p_RetiredAssignedCPUNS := p_RetiredAssignedCPUNS s + p_AssignedCPUNS s,
             p_AssignedCPUNS := charge, p_BlockingUnknown := unknown\<rparr>
      else s\<lparr>p_AssignedCPUNS := p_AssignedCPUNS s + charge,
             p_BlockingUnknown := p_BlockingUnknown s \<or> unknown\<rparr>)"

lemma rolled_simps [simp]:
  "p_StartNS (rolled d at charge unknown s) = t_ns at div d * d"
  "p_NextBoundaryNS s = p_StartNS s + d \<Longrightarrow>
   p_NextBoundaryNS (rolled d at charge unknown s) = t_ns at div d * d + d"
  "unknown \<Longrightarrow> p_BlockingUnknown (rolled d at charge unknown s)"
  by (simp_all add: rolled_def)

lemma rolled_sum:
  "periodSum b s tot \<Longrightarrow> 0 \<le> charge \<Longrightarrow> periodSum b (rolled d at charge u s) (tot + charge)"
  by (auto simp: periodSum_def rolled_def)

text \<open>Rolling never overflows while the ledger's total fits.\<close>

lemma rollPeriod_exact:
  assumes "periodSum b s tot" "0 \<le> charge" "tot + charge \<le> maxInt64"
  shows "rollPeriod s (slotOf d at) charge unknown = Inr (rolled d at charge unknown s)"
proof -
  have s: "0 \<le> p_AssignedCPUNS s" "0 \<le> p_RetiredAssignedCPUNS s"
      "p_RetiredAssignedCPUNS s + p_AssignedCPUNS s + charge \<le> maxInt64"
    using assms by (simp_all add: periodSum_def)
  then have "sub64 maxInt64 (p_RetiredAssignedCPUNS s) = maxInt64 - p_RetiredAssignedCPUNS s"
      "sub64 maxInt64 (p_AssignedCPUNS s) = maxInt64 - p_AssignedCPUNS s"
      "sub64 maxInt64 0 = maxInt64" "add64 0 charge = charge"
      "add64 (p_RetiredAssignedCPUNS s) (p_AssignedCPUNS s) = p_RetiredAssignedCPUNS s + p_AssignedCPUNS s"
      "add64 (p_AssignedCPUNS s) charge = p_AssignedCPUNS s + charge"
    using assms(2) by (simp_all add: add64_id i64_def)
  then show ?thesis
    using s assms(2) by (simp add: rollPeriod_def rolled_def)
qed

lemma rollCPUAdmission_exact:
  assumes "periodSum b (a_Hour a) tot" "periodSum b (a_Day a) tot"
    and "0 \<le> charge" "tot + charge \<le> maxInt64" "cpuAdmissionTime at"
    and "t_ns (the (a_ClockHighWater a)) \<le> t_ns at"
  shows "rollCPUAdmission a at charge unknown =
    Inr (a\<lparr>a_Hour := rolled hour_ns at charge unknown (a_Hour a),
           a_Day := rolled day_ns at charge unknown (a_Day a), a_ClockHighWater := Some at\<rparr>)"
  using assms rollPeriod_exact [OF assms(1,3,4)] rollPeriod_exact [OF assms(2,3,4)]
    cpuAdmissionTimeD(3) [OF assms(5)]
  by (simp add: rollCPUAdmission_def tBefore_def)

section \<open>The two records after a transition\<close>

text \<open>The typing of the record's integers.\<close>

definition admissionI64 :: "CPUChargeAdmissionState \<Rightarrow> bool" where
  "admissionI64 a \<longleftrightarrow> i64 (a_PolicyRevision a) \<and> i64 (a_BeginAppliedRevision a)"

text \<open>What the transactions keep: both records valid, and a session that is active was started by
  the last limited begin under the current policy, with the two clocks together.\<close>

definition admissionInv :: "admission_ids \<Rightarrow> CPUChargeState \<Rightarrow> CPUChargeAdmissionState \<Rightarrow> bool" where
  "admissionInv ids c a \<longleftrightarrow> validCPUAdmission ids a c \<and> chargesI64 c \<and> admissionI64 a \<and>
     (s_Status c = SActive \<longrightarrow> a_BeginRequest a \<noteq> None \<and>
        a_BeginAppliedRevision a = a_PolicyRevision a \<and> a_ClockHighWater a = s_ClockHighWater c)"

text \<open>The facts a valid pair gives.\<close>

lemma admissionE:
  assumes "validCPUAdmission ids a c" "chargesI64 c"
  obtains t h where "a_ActivatedAt a = Some t" "a_ClockHighWater a = Some h"
    "cpuAdmissionTime t" "cpuAdmissionTime h" "t_ns t \<le> t_ns h"
    "t_ns (the (s_ClockHighWater c)) \<le> t_ns h" "t_ns (the (s_ActivatedAt c)) \<le> t_ns t"
    "validCPUCharges c"
    "periodSum (a_ActivationBaselineCPUNS a) (a_Hour a) (s_ChargedCPUNS c)"
    "periodSum (a_ActivationBaselineCPUNS a) (a_Day a) (s_ChargedCPUNS c)"
    "p_StartNS (a_Hour a) = t_ns h div hour_ns * hour_ns"
    "p_NextBoundaryNS (a_Hour a) = p_StartNS (a_Hour a) + hour_ns"
    "p_StartNS (a_Day a) = t_ns h div day_ns * day_ns"
    "p_NextBoundaryNS (a_Day a) = p_StartNS (a_Day a) + day_ns"
    "validPeriodMarks a c (a_Hour a) (slotOf hour_ns t) hour_ns"
    "validPeriodMarks a c (a_Day a) (slotOf day_ns t) day_ns"
proof -
  have hd: "validAdmissionHeader ids a c" and pd: "validAdmissionPeriods a c"
    using assms(1) by (simp_all add: validCPUAdmission_def)
  obtain t where t: "a_ActivatedAt a = Some t"
    using hd by (cases "a_ActivatedAt a") (simp_all add: validAdmissionHeader_def)
  obtain h where h: "a_ClockHighWater a = Some h"
    using hd t by (cases "a_ClockHighWater a") (simp_all add: validAdmissionHeader_def)
  have th: "cpuAdmissionTime t" "cpuAdmissionTime h" "t_ns t \<le> t_ns h"
      "t_ns (the (s_ClockHighWater c)) \<le> t_ns h" "t_ns (the (s_ActivatedAt c)) \<le> t_ns t" "validCPUCharges c"
    using hd t h by (simp_all add: validAdmissionHeader_def tBefore_def)
  have b: "0 \<le> a_ActivationBaselineCPUNS a" "a_ActivationBaselineCPUNS a \<le> s_ChargedCPUNS c"
      "s_ChargedCPUNS c \<le> maxInt64"
    using hd assms(2) by (simp_all add: validAdmissionHeader_def chargesI64_def i64_def)
  have p: "validPeriod a c (a_Hour a) (slotOf hour_ns h)" "validPeriod a c (a_Day a) (slotOf day_ns h)"
    and m: "validPeriodMarks a c (a_Hour a) (slotOf hour_ns t) hour_ns"
      "validPeriodMarks a c (a_Day a) (slotOf day_ns t) day_ns"
    using pd h t cpuAdmissionTimeD(3) [OF th(1)] cpuAdmissionTimeD(3) [OF th(2)]
    by (simp_all add: validAdmissionPeriods_def)
  have "periodSum (a_ActivationBaselineCPUNS a) (a_Hour a) (s_ChargedCPUNS c)"
    "periodSum (a_ActivationBaselineCPUNS a) (a_Day a) (s_ChargedCPUNS c)"
    "p_StartNS (a_Hour a) = t_ns h div hour_ns * hour_ns"
    "p_NextBoundaryNS (a_Hour a) = p_StartNS (a_Hour a) + hour_ns"
    "p_StartNS (a_Day a) = t_ns h div day_ns * day_ns"
    "p_NextBoundaryNS (a_Day a) = p_StartNS (a_Day a) + day_ns"
    using p validPeriod_iff [OF b] by simp_all
  then show ?thesis using that t h th m by blast
qed

text \<open>One period after a roll: its slot, its sum, and the marks that may not be lost.\<close>

definition periodNext ::
  "int \<Rightarrow> gotime \<Rightarrow> int \<Rightarrow> int \<Rightarrow> bool \<Rightarrow> CPUChargePeriod \<Rightarrow> CPUChargePeriod \<Rightarrow> bool" where
  "periodNext d at base tot unknown s s' \<longleftrightarrow>
     p_StartNS s' = t_ns at div d * d \<and> p_NextBoundaryNS s' = t_ns at div d * d + d \<and>
     periodSum base s' tot \<and>
     (p_StartNS s' = p_StartNS s \<and> p_PartialTracking s \<longrightarrow> p_PartialTracking s') \<and>
     (unknown \<longrightarrow> p_BlockingUnknown s')"

lemma rolled_next:
  assumes "periodSum b s tot" "0 \<le> charge" "p_NextBoundaryNS s = p_StartNS s + d"
  shows "periodNext d at b (tot + charge) u s (rolled d at charge u s)"
  using rolled_sum [OF assms(1,2)] assms(3) by (simp add: periodNext_def) (simp add: rolled_def)

lemma periodNext_partial:
  "periodNext d at b tot u s s' \<Longrightarrow> periodNext d at b tot u s (s'\<lparr>p_PartialTracking := True\<rparr>)"
  by (simp add: periodNext_def periodSum_def)

lemma marks_next:
  assumes m: "validPeriodMarks a c s (slotOf d t) d" and s: "p_StartNS s = t_ns h div d * d"
    and n: "periodNext d at b tot u s s'" and d: "d = hour_ns \<or> d = day_ns"
    and tt: "t_ns t \<le> t_ns h" "t_ns h \<le> t_ns at"
    and g: "case a_GapClosedAt a' of None \<Rightarrow> True
      | Some g \<Rightarrow> okTime g \<and> (p_PartialTracking s' \<or> a_GapClosedAt a = Some g \<and> t_ns g \<le> t_ns h)"
    and u: "s_Status c' = SUnknown \<or> s_Status c' = SRecoveredUnknown \<Longrightarrow> u"
  shows "validPeriodMarks a' c' s' (slotOf d t) d"
proof -
  have dp: "0 < d" using d by auto
  have s': "p_StartNS s' = t_ns at div d * d"
    and keep: "p_StartNS s' = p_StartNS s \<Longrightarrow> p_PartialTracking s \<Longrightarrow> p_PartialTracking s'"
    and unk: "u \<Longrightarrow> p_BlockingUnknown s'"
    using n by (simp_all add: periodNext_def)
  have eq: "p_StartNS s' = p_StartNS s \<longleftrightarrow> t_ns h div d = t_ns at div d" using s s' dp by auto
  have 1: "p_PartialTracking s'" if "p_StartNS s' = p_StartNS (slotOf d t)"
  proof -
    have "t_ns t div d = t_ns at div d" using that s' dp by simp
    then have "t_ns h div d = t_ns at div d" using slot_left [OF dp tt] by blast
    then show ?thesis using keep eq m that by (simp add: validPeriodMarks_def)
  qed
  have 2: "p_PartialTracking s'" if g': "a_GapClosedAt a' = Some x"
    "unixNano x sdiv d = p_StartNS s' sdiv d" for x
  proof (cases "p_PartialTracking s'")
    case False
    then have x: "okTime x" "a_GapClosedAt a = Some x" "t_ns x \<le> t_ns h" using g g' by simp_all
    have pos: "0 \<le> t_ns x" "0 \<le> t_ns at div d * d"
      using x tt dp by (simp_all add: okTime_def pos_imp_zdiv_nonneg_iff)
    then have e: "t_ns x div d = t_ns at div d"
      using g'(2) x(1) s' dp by (simp add: sdiv_nonneg)
    then have "t_ns h div d = t_ns at div d" using slot_left [OF dp x(3) tt(2)] by blast
    then have st: "p_StartNS s' = p_StartNS s" using eq by simp
    then show ?thesis using keep m x(2) g'(2) by (simp add: validPeriodMarks_def)
  qed
  show ?thesis
    using 1 2 unk u by (auto simp: validPeriodMarks_def split: option.splits)
qed

lemma admissionNext_valid:
  assumes v: "validCPUAdmission ids a c" "chargesI64 c"
    and at: "cpuAdmissionTime at" "t_ns (the (a_ClockHighWater a)) \<le> t_ns at"
    and nc: "validCPUCharges nc" "chargesI64 nc" "s_ActivatedAt nc = s_ActivatedAt c"
      "t_ns (the (s_ClockHighWater nc)) \<le> t_ns at" "s_ChargedCPUNS nc = s_ChargedCPUNS c + charge"
      "0 \<le> charge" "s_Status nc = SUnknown \<or> s_Status nc = SRecoveredUnknown \<Longrightarrow> u"
    and p: "periodNext hour_ns at (a_ActivationBaselineCPUNS a) (s_ChargedCPUNS nc) u (a_Hour a) hour"
      "periodNext day_ns at (a_ActivationBaselineCPUNS a) (s_ChargedCPUNS nc) u (a_Day a) day"
    and na: "na = bindCPUAdmission ids (a\<lparr>a_Hour := hour, a_Day := day, a_ClockHighWater := Some at,
        a_PolicyRevision := rv, a_Limits := lim, a_BeginRequest := br, a_BeginAppliedRevision := ba,
        a_TrackingGapOpen := go, a_GapOpenedAt := oa, a_GapClosedAt := ca, a_LatestGap := lg\<rparr>) nc"
    and rev: "0 < rv" "cpuAdmissionLimitsValid lim"
    and g: "case ca of None \<Rightarrow> True
      | Some g \<Rightarrow> okTime g \<and> (p_PartialTracking hour \<and> p_PartialTracking day \<or>
          a_GapClosedAt a = Some g \<and> t_ns g \<le> t_ns (the (a_ClockHighWater a)))"
    and rest: "validAdmissionBegin na nc" "validAdmissionGap ids na nc"
  shows "validCPUAdmission ids na nc"
proof -
  obtain t h where th: "a_ActivatedAt a = Some t" "a_ClockHighWater a = Some h"
    "cpuAdmissionTime t" "cpuAdmissionTime h" "t_ns t \<le> t_ns h"
    "t_ns (the (s_ClockHighWater c)) \<le> t_ns h" "t_ns (the (s_ActivatedAt c)) \<le> t_ns t"
    "validCPUCharges c"
    "periodSum (a_ActivationBaselineCPUNS a) (a_Hour a) (s_ChargedCPUNS c)"
    "periodSum (a_ActivationBaselineCPUNS a) (a_Day a) (s_ChargedCPUNS c)"
    "p_StartNS (a_Hour a) = t_ns h div hour_ns * hour_ns"
    "p_NextBoundaryNS (a_Hour a) = p_StartNS (a_Hour a) + hour_ns"
    "p_StartNS (a_Day a) = t_ns h div day_ns * day_ns"
    "p_NextBoundaryNS (a_Day a) = p_StartNS (a_Day a) + day_ns"
    "validPeriodMarks a c (a_Hour a) (slotOf hour_ns t) hour_ns"
    "validPeriodMarks a c (a_Day a) (slotOf day_ns t) day_ns"
    by (rule admissionE [OF v])
  have hd: "validAdmissionHeader ids a c" using v(1) by (simp add: validCPUAdmission_def)
  have f: "a_ActivatedAt na = Some t" "a_ClockHighWater na = Some at" "a_Hour na = hour"
      "a_Day na = day" "a_PolicyRevision na = rv" "a_GapClosedAt na = ca"
      "a_ActivationBaselineCPUNS na = a_ActivationBaselineCPUNS a"
    using th by (simp_all add: na bindCPUAdmission_def)
  have 1: "validAdmissionHeader ids na nc"
    using hd nc at rev th by (simp add: na bindCPUAdmission_def validAdmissionHeader_def tBefore_def)
  have b: "0 \<le> a_ActivationBaselineCPUNS na" "a_ActivationBaselineCPUNS na \<le> s_ChargedCPUNS nc"
      "s_ChargedCPUNS nc \<le> maxInt64"
    using 1 nc(2) by (simp_all add: validAdmissionHeader_def chargesI64_def i64_def)
  have 2: "validPeriod na nc hour (slotOf hour_ns at)" "validPeriod na nc day (slotOf day_ns at)"
    using p f by (simp_all add: validPeriod_iff [OF b] periodNext_def)
  have gc: "case a_GapClosedAt na of None \<Rightarrow> True
      | Some g \<Rightarrow> okTime g \<and> (p_PartialTracking hour \<or> a_GapClosedAt a = Some g \<and> t_ns g \<le> t_ns h)"
      "case a_GapClosedAt na of None \<Rightarrow> True
      | Some g \<Rightarrow> okTime g \<and> (p_PartialTracking day \<or> a_GapClosedAt a = Some g \<and> t_ns g \<le> t_ns h)"
    using g f th(2) by (auto split: option.splits)
  have ath: "t_ns h \<le> t_ns at" using at th(2) by simp
  have 3: "validPeriodMarks na nc hour (slotOf hour_ns t) hour_ns"
    by (rule marks_next [OF th(15,11) p(1) _ th(5) ath gc(1) nc(7)]) simp_all
  have 4: "validPeriodMarks na nc day (slotOf day_ns t) day_ns"
    by (rule marks_next [OF th(16,13) p(2) _ th(5) ath gc(2) nc(7)]) simp_all
  have "validAdmissionPeriods na nc"
    using 2 3 4 f rev cpuAdmissionTimeD(3) [OF at(1)] cpuAdmissionTimeD(3) [OF th(3)]
    by (simp add: validAdmissionPeriods_def)
  with 1 rest show ?thesis by (simp add: validCPUAdmission_def)
qed

lemma begun_revision:
  assumes "validCPUAdmission ids a c" "a_BeginRequest a \<noteq> None \<or> a_LatestGap a \<noteq> None"
  shows "0 < a_PolicyRevision a"
  using assms by (auto simp: validCPUAdmission_def validAdmissionPeriods_def validAdmissionHeader_def)

text \<open>A closed gap lies in the past of the record's clock.\<close>

lemma gapClosed_bound:
  assumes "validCPUAdmission ids a c"
  shows "case a_GapClosedAt a of None \<Rightarrow> True
    | Some g \<Rightarrow> okTime g \<and> t_ns g \<le> t_ns (the (a_ClockHighWater a))"
proof (cases "a_GapClosedAt a")
  case (Some g)
  have v: "validAdmissionGap ids a c" using assms by (simp add: validCPUAdmission_def)
  then obtain r where r: "a_LatestGap a = Some r"
    using Some by (cases "a_LatestGap a") (simp_all add: validAdmissionGap_def)
  then have "cpuAdmissionTime g \<and> \<not> tAfter g (the (a_ClockHighWater a))"
    using v Some by (auto simp: validAdmissionGap_def split: if_splits)
  then show ?thesis using Some cpuAdmissionTimeD(1) by (simp add: tAfter_def)
qed simp

section \<open>Sampling and recovery under a policy\<close>

text \<open>A transition of an active session that keeps the policy.\<close>

lemma keep_policy_valid:
  assumes v: "admissionInv ids c a" "s_Status c = SActive" "s_Session c = Some r"
    and at: "cpuAdmissionTime at" "t_ns (the (a_ClockHighWater a)) \<le> t_ns at"
    and nc: "ledgerStep c at nc" "s_Generation nc = s_Generation c"
      "s_ChargedCPUNS nc = s_ChargedCPUNS c + charge" "0 \<le> charge"
      "s_Session nc = Some r'" "r_Start r' = r_Start r"
      "s_Status nc = SUnknown \<or> s_Status nc = SRecoveredUnknown \<Longrightarrow> u"
    and na: "rollCPUAdmission a at charge u = Inr na'" "na = bindCPUAdmission ids na' nc"
  shows "admissionInv ids nc na" "a_PolicyRevision na = a_PolicyRevision a"
    "a_ActivationBaselineCPUNS na = a_ActivationBaselineCPUNS a"
proof -
  have va: "validCPUAdmission ids a c" "chargesI64 c" "admissionI64 a" "a_BeginRequest a \<noteq> None"
      "a_BeginAppliedRevision a = a_PolicyRevision a"
    using v(1,2) by (simp_all add: admissionInv_def)
  have n: "validCPUCharges nc" "chargesI64 nc" "s_ActivatedAt nc = s_ActivatedAt c"
      "s_ClockHighWater nc = Some at" using nc(1) by (simp_all add: ledgerStep_def)
  obtain t h where th: "a_ActivatedAt a = Some t" "a_ClockHighWater a = Some h" "cpuAdmissionTime h"
    "periodSum (a_ActivationBaselineCPUNS a) (a_Hour a) (s_ChargedCPUNS c)"
    "periodSum (a_ActivationBaselineCPUNS a) (a_Day a) (s_ChargedCPUNS c)"
    "p_NextBoundaryNS (a_Hour a) = p_StartNS (a_Hour a) + hour_ns"
    "p_NextBoundaryNS (a_Day a) = p_StartNS (a_Day a) + day_ns"
    by (rule admissionE [OF va(1,2)])
  have tot: "s_ChargedCPUNS c + charge \<le> maxInt64" using n(2) nc(3) by (simp add: chargesI64_def i64_def)
  define hour where "hour = rolled hour_ns at charge u (a_Hour a)"
  define day where "day = rolled day_ns at charge u (a_Day a)"
  have na': "na' = a\<lparr>a_Hour := hour, a_Day := day, a_ClockHighWater := Some at\<rparr>"
    using rollCPUAdmission_exact [OF th(4,5) nc(4) tot at] na(1) by (simp add: hour_def day_def)
  have parts: "validAdmissionHeader ids a c" "validAdmissionBegin a c" "validAdmissionGap ids a c"
    using va(1) by (simp_all add: validCPUAdmission_def)
  obtain q where q: "a_BeginRequest a = Some q" using va(4) by auto
  have naf: "a_BeginRequest na = Some q" "a_BeginAppliedRevision na = a_BeginAppliedRevision a"
      "a_PolicyRevision na = a_PolicyRevision a" "a_Limits na = a_Limits a"
      "a_LatestGap na = a_LatestGap a" "a_TrackingGapOpen na = a_TrackingGapOpen a"
      "a_GapOpenedAt na = a_GapOpenedAt a" "a_GapClosedAt na = a_GapClosedAt a"
      "a_ClockHighWater na = Some at" "a_ActivatedAt na = a_ActivatedAt a"
      "a_ActivationBaselineCPUNS na = a_ActivationBaselineCPUNS a"
    using q by (simp_all add: na(2) na' bindCPUAdmission_def)
  have bg: "validAdmissionBegin na nc"
    using parts(2) q naf nc(5,6) v(3) by (simp add: validAdmissionBegin_def)
  have gp: "validAdmissionGap ids na nc"
  proof (cases "a_LatestGap a")
    case None
    then show ?thesis using parts(3) naf q va(5) by (simp add: validAdmissionGap_def)
  next
    case (Some g)
    then have g: "validGapReceipt ids a c g" "\<not> a_TrackingGapOpen a"
      using parts(3) v(2) by (auto simp: validAdmissionGap_def split: if_splits)
    then have "validGapReceipt ids na nc g"
      using naf nc(2) at th(2) by (cases "a_GapOpenedAt a") (auto simp: validGapReceipt_def go_arith)
    then show ?thesis
      using parts(3) Some g naf q th(2) at
      by (cases "a_GapClosedAt a") (simp_all add: validAdmissionGap_def go_arith)
  qed
  have pos: "0 < a_PolicyRevision a" using begun_revision [OF va(1)] q by simp
  have lim: "cpuAdmissionLimitsValid (a_Limits a)" using parts(1) by (simp add: validAdmissionHeader_def)
  have form: "na = bindCPUAdmission ids (a\<lparr>a_Hour := hour, a_Day := day, a_ClockHighWater := Some at,
      a_PolicyRevision := a_PolicyRevision a, a_Limits := a_Limits a,
      a_BeginRequest := a_BeginRequest a, a_BeginAppliedRevision := a_BeginAppliedRevision a,
      a_TrackingGapOpen := a_TrackingGapOpen a, a_GapOpenedAt := a_GapOpenedAt a,
      a_GapClosedAt := a_GapClosedAt a, a_LatestGap := a_LatestGap a\<rparr>) nc"
    unfolding na(2) na' by (cases a) simp
  have gb: "case a_GapClosedAt a of None \<Rightarrow> True
      | Some g \<Rightarrow> okTime g \<and> (p_PartialTracking hour \<and> p_PartialTracking day \<or>
          a_GapClosedAt a = Some g \<and> t_ns g \<le> t_ns (the (a_ClockHighWater a)))"
    using gapClosed_bound [OF va(1)] by (cases "a_GapClosedAt a") simp_all
  have "validCPUAdmission ids na nc"
    by (rule admissionNext_valid [OF va(1,2) at n(1,2,3) _ nc(3,4,7) _ _ form pos lim gb bg gp])
      (use n(4) nc(3) rolled_next [OF th(4) nc(4) th(6)] rolled_next [OF th(5) nc(4) th(7)]
        in \<open>simp_all add: hour_def day_def\<close>)
  then show "admissionInv ids nc na"
    using n va naf q by (simp add: admissionInv_def admissionI64_def)
  show "a_PolicyRevision na = a_PolicyRevision a"
    "a_ActivationBaselineCPUNS na = a_ActivationBaselineCPUNS a" by (fact naf)+
qed

lemma active_session:
  assumes "admissionInv ids c a" "s_Status c = SActive"
  obtains r where "validCPUCharges c" "chargesI64 c" "s_Session c = Some r" "r_Status r = SActive"
    "a_ClockHighWater a = s_ClockHighWater c"
proof -
  have v: "validCPUCharges c" "chargesI64 c" "a_ClockHighWater a = s_ClockHighWater c"
    using assms by (simp_all add: admissionInv_def validCPUAdmission_def validAdmissionHeader_def)
  then show ?thesis using status_session [OF v(1)] assms(2) that by blast
qed

lemma limitedRecover_inv:
  assumes v: "admissionInv ids c a" "s_Status c = SActive"
    and at: "cpuAdmissionTime at" "\<not> tBefore at (the (a_ClockHighWater a))"
    and n: "limitedRecover ids c a at = Inr (nc, na)"
  shows "admissionInv ids nc na \<and> s_ChargedCPUNS nc = s_ChargedCPUNS c \<and>
    s_Status nc = SRecoveredUnknown \<and> ledgerStep c at nc \<and>
    s_Generation nc = s_Generation c \<and> a_PolicyRevision na = a_PolicyRevision a \<and>
    p_BlockingUnknown (a_Hour na) \<and> p_BlockingUnknown (a_Day na)"
proof -
  obtain r where r: "validCPUCharges c" "chargesI64 c" "s_Session c = Some r" "r_Status r = SActive"
    "a_ClockHighWater a = s_ClockHighWater c" by (rule active_session [OF v])
  obtain na' where s: "recoverCharges c at = Inr nc" "rollCPUAdmission a at 0 True = Inr na'"
      "na = bindCPUAdmission ids na' nc"
    using n by (auto simp: limitedRecover_def split: sum.splits)
  have at': "okTime at" "t_utc at" "\<not> tBefore at (the (s_ClockHighWater c))"
    using cpuAdmissionTimeD [OF at(1)] at(2) r(5) by simp_all
  from recoverCharges_valid [OF r(1-4) at' s(1)] obtain r' where rc: "ledgerStep c at nc"
      "s_Generation nc = s_Generation c" "s_Status nc = SRecoveredUnknown"
      "s_ChargedCPUNS nc = s_ChargedCPUNS c" "s_Session nc = Some r'" "r_Start r' = r_Start r"
    by blast
  have atb: "t_ns (the (a_ClockHighWater a)) \<le> t_ns at" using at(2) by (simp add: tBefore_def)
  note kp = keep_policy_valid [OF v r(3) at(1) atb rc(1,2) _ _ rc(5,6) _ s(2,3)]
  have "p_BlockingUnknown (a_Hour na) \<and> p_BlockingUnknown (a_Day na)"
    using s(2,3) by (auto simp: rollCPUAdmission_def rollPeriod_def bindCPUAdmission_def
        split: if_splits sum.splits)
  then show ?thesis using kp rc by simp
qed

lemma limitedSample_inv:
  assumes v: "admissionInv ids c a" "s_Session c = Some r" "r_Status r = SActive"
    and q: "cpuChargesSampleValid q" "sampleI64 q" "cpuAdmissionTime (sp_ObservedAt q)"
    and n: "limitedSample ids c a q f = Inr (nc, na)"
  shows "admissionInv ids nc na \<and> a_PolicyRevision na = a_PolicyRevision a \<and>
    a_ActivationBaselineCPUNS na = a_ActivationBaselineCPUNS a \<and>
    s_ChargedCPUNS c \<le> s_ChargedCPUNS nc \<and> s_Generation nc = s_Generation c \<and>
    sampleCharges c q f = Inr (nc, sampleProblemAt r q (the (s_ClockHighWater c)))"
proof -
  have vc: "validCPUCharges c" "chargesI64 c" "validCPUAdmission ids a c"
    using v(1) by (simp_all add: admissionInv_def validCPUAdmission_def validAdmissionHeader_def)
  have act: "s_Status c = SActive" using status_session [OF vc(1)] v(2,3) by blast
  obtain t h where h: "a_ClockHighWater a = Some h" "cpuAdmissionTime h"
    by (rule admissionE [OF vc(3,2)])
  have ch: "s_ClockHighWater c = Some h" using v(1) act h by (simp add: admissionInv_def)
  obtain na' where s: "cpuLimitedSampleState c q f h = Inr nc"
      "rollCPUAdmission a (the (s_ClockHighWater nc))
         (sub64 (s_ChargedCPUNS nc) (s_ChargedCPUNS c)) (s_Status nc = SUnknown) = Inr na'"
      "na = bindCPUAdmission ids na' nc"
    using n h by (auto simp: limitedSample_def split: sum.splits)
  obtain pr where sc: "sampleCharges c q f = Inr (nc, pr)"
    using s(1) cpuLimitedSampleState_eq [OF ch] by (auto split: sum.splits)
  note sv = sampleCharges_valid [OF vc(1,2) v(2,3) q(1,2) sc refl]
  define at where "at = maxTime (the (s_ClockHighWater c)) (sp_ObservedAt q)"
  have at: "cpuAdmissionTime at" "t_ns (the (a_ClockHighWater a)) \<le> t_ns at"
    using h q(3) ch by (simp_all add: at_def maxTime_def go_arith)
  obtain r' where r': "s_Session nc = Some r'" "r_Start r' = r_Start r" using sv by blast
  have nc: "ledgerStep c at nc" "s_Generation nc = s_Generation c"
      "s_ChargedCPUNS c \<le> s_ChargedCPUNS nc" "s_Session nc = Some r'" "r_Start r' = r_Start r"
      "pr = sampleProblemAt r q (the (s_ClockHighWater c))"
    using sv r' unfolding at_def by blast+
  have st: "s_Status nc \<noteq> SRecoveredUnknown" using sv by auto
  have clk: "the (s_ClockHighWater nc) = at" using nc(1) by (simp add: ledgerStep_def)
  have "i64 (s_ChargedCPUNS nc)" "i64 (s_ChargedCPUNS c)" "0 \<le> s_ChargedCPUNS c"
    using nc(1) vc by (simp_all add: ledgerStep_def chargesI64_def validCPUCharges_def validChargesHeader_def)
  then have "sub64 (s_ChargedCPUNS nc) (s_ChargedCPUNS c) = s_ChargedCPUNS nc - s_ChargedCPUNS c"
    using nc(3) by simp
  then have roll: "rollCPUAdmission a at (s_ChargedCPUNS nc - s_ChargedCPUNS c)
      (s_Status nc = SUnknown) = Inr na'" using s(2) clk by simp
  note kp = keep_policy_valid [OF v(1) act v(2) at nc(1,2) _ _ nc(4,5) _ roll s(3)]
  show ?thesis using kp nc sc st by auto
qed

section \<open>Beginning a session under a policy\<close>

definition limitedI64 :: "CPULimitedSessionStart \<Rightarrow> bool" where
  "limitedI64 q \<longleftrightarrow> startI64 (q_Start q) \<and> i64 (q_ExpectedPolicyRevision q)"

lemma limitedBegin_inv:
  assumes v: "admissionInv ids c a" "s_Status c \<noteq> SActive"
    and q: "validCPULimitedStart q" "limitedI64 q" "st_ExpectedGeneration (q_Start q) = s_Generation c"
      "q_ExpectedPolicyRevision q = a_PolicyRevision a"
      "\<not> tBefore (st_ObservedAt (q_Start q)) (the (a_ClockHighWater a))"
      "s_Generation c \<noteq> maxInt64" "a_PolicyRevision a \<noteq> maxInt64"
    and n: "limitedBegin ids c a q = Inr (nc, na)"
  shows "admissionInv ids nc na" "s_ChargedCPUNS nc = s_ChargedCPUNS c + prefixCharge (q_Start q)"
    "s_Generation nc = s_Generation c + 1" "a_PolicyRevision na = a_PolicyRevision a + 1"
    "a_Limits na = q_Limits q" "\<not> a_TrackingGapOpen na"
    "a_ActivationBaselineCPUNS na = a_ActivationBaselineCPUNS a"
    "s_Status nc = (if startProblem (q_Start q) = RNone then SActive else SUnknown)"
    "ledgerStep c (st_ObservedAt (q_Start q)) nc"
proof -
  define at where "at = st_ObservedAt (q_Start q)"
  have vc: "validCPUCharges c" "chargesI64 c" "validCPUAdmission ids a c" "i64 (a_PolicyRevision a)"
      "validAdmissionGap ids a c" "0 \<le> a_PolicyRevision a"
    using v(1) by (simp_all add: admissionInv_def validCPUAdmission_def validAdmissionHeader_def admissionI64_def)
  obtain t h where th: "a_ActivatedAt a = Some t" "a_ClockHighWater a = Some h" "cpuAdmissionTime h"
    "t_ns (the (s_ClockHighWater c)) \<le> t_ns h"
    "periodSum (a_ActivationBaselineCPUNS a) (a_Hour a) (s_ChargedCPUNS c)"
    "periodSum (a_ActivationBaselineCPUNS a) (a_Day a) (s_ChargedCPUNS c)"
    "p_NextBoundaryNS (a_Hour a) = p_StartNS (a_Hour a) + hour_ns"
    "p_NextBoundaryNS (a_Day a) = p_StartNS (a_Day a) + day_ns"
    by (rule admissionE [OF vc(3,2)])
  have qv: "cpuChargesStartValid (q_Start q)" "startI64 (q_Start q)" "cpuAdmissionTime at"
      "cpuAdmissionLimitsValid (q_Limits q)"
    using q(1,2) by (simp_all add: validCPULimitedStart_def limitedI64_def at_def)
  have att: "okTime at" "t_utc at" "t_ns h \<le> t_ns at" "t_ns (the (a_ClockHighWater a)) \<le> t_ns at"
    using cpuAdmissionTimeD [OF qv(3)] q(5) th(2) by (simp_all add: at_def tBefore_def)
  define rv where "rv = a_PolicyRevision a + 1"
  have rv: "add64 (a_PolicyRevision a) 1 = rv" "0 < rv" "i64 rv"
    using vc(4,6) q(7) by (simp_all add: rv_def i64_def)
  define a0 where "a0 = a\<lparr>a_PolicyRevision := rv, a_Limits := q_Limits q, a_BeginRequest := Some q,
      a_BeginAppliedRevision := rv\<rparr>"
  obtain na' where s: "startSession c (q_Start q) = Inr nc"
      "rollCPUAdmission a0 at (sub64 (s_ChargedCPUNS nc) (s_ChargedCPUNS c)) (s_Status nc = SUnknown) = Inr na'"
      "na = bindCPUAdmission ids (closeGap na' at) nc"
    using n rv(1) by (auto simp: limitedBegin_def Let_def a0_def at_def cpuLimitedBeginState_eq split: sum.splits)
  have cl: "closedLedger c at"
    by (rule closed_ledger [OF vc(1) v(2) att(1,2)]) (use att(3) th(4) in simp)
  note ss = startSession_valid [OF cl vc(2) qv(1,2) at_def [symmetric] q(3,6) s(1)]
  have nc: "validCPUCharges nc" "chargesI64 nc" "s_ActivatedAt nc = s_ActivatedAt c"
      "s_ClockHighWater nc = Some at"
    using ss(1) by (simp_all add: ledgerStep_def)
  define charge where "charge = prefixCharge (q_Start q)"
  have ch: "0 \<le> charge" "s_ChargedCPUNS nc = s_ChargedCPUNS c + charge"
    using ss(3) by (auto simp: charge_def nonnegCPU_def split: option.splits)
  have tot: "s_ChargedCPUNS c + charge \<le> maxInt64" "0 \<le> s_ChargedCPUNS c" "i64 (s_ChargedCPUNS c)"
      "i64 (s_ChargedCPUNS nc)" "0 \<le> s_ChargedCPUNS nc"
    using nc(1,2) ch vc(1,2)
    by (simp_all add: chargesI64_def i64_def validCPUCharges_def validChargesHeader_def)
  define u where "u = (s_Status nc = SUnknown)"
  define hour where "hour = rolled hour_ns at charge u (a_Hour a)"
  define day where "day = rolled day_ns at charge u (a_Day a)"
  have sub: "sub64 (s_ChargedCPUNS nc) (s_ChargedCPUNS c) = charge" using tot ch by simp
  have "rollCPUAdmission a0 at charge u =
      Inr (a0\<lparr>a_Hour := rolled hour_ns at charge u (a_Hour a0),
             a_Day := rolled day_ns at charge u (a_Day a0), a_ClockHighWater := Some at\<rparr>)"
    by (rule rollCPUAdmission_exact [OF _ _ ch(1) tot(1) qv(3)])
      (use th att in \<open>simp_all add: a0_def\<close>)
  then have na': "na' = a0\<lparr>a_Hour := hour, a_Day := day, a_ClockHighWater := Some at\<rparr>"
    using s(2) sub by (simp add: hour_def day_def u_def a0_def)
  define open' where "open' = a_TrackingGapOpen a"
  define hour' where "hour' = (if open' then hour\<lparr>p_PartialTracking := True\<rparr> else hour)"
  define day' where "day' = (if open' then day\<lparr>p_PartialTracking := True\<rparr> else day)"
  define ca where "ca = (if open' then Some at else a_GapClosedAt a)"
  have form: "na = bindCPUAdmission ids (a\<lparr>a_Hour := hour', a_Day := day', a_ClockHighWater := Some at,
      a_PolicyRevision := rv, a_Limits := q_Limits q, a_BeginRequest := Some q,
      a_BeginAppliedRevision := rv, a_TrackingGapOpen := False, a_GapOpenedAt := a_GapOpenedAt a,
      a_GapClosedAt := ca, a_LatestGap := a_LatestGap a\<rparr>) nc"
    unfolding s(3) na' a0_def hour'_def day'_def ca_def open'_def by (cases a) (simp add: closeGap_def)
  have naf: "a_BeginRequest na = Some q" "a_BeginAppliedRevision na = rv" "a_PolicyRevision na = rv"
      "a_Limits na = q_Limits q" "a_LatestGap na = a_LatestGap a" "\<not> a_TrackingGapOpen na"
      "a_GapOpenedAt na = a_GapOpenedAt a" "a_GapClosedAt na = ca" "a_ClockHighWater na = Some at"
      "a_ActivatedAt na = a_ActivatedAt a" "a_ActivationBaselineCPUNS na = a_ActivationBaselineCPUNS a"
    by (simp_all add: form bindCPUAdmission_def)
  obtain r where r: "s_Session nc = Some r" "r_Start r = q_Start q" using ss(5) by blast
  have bg: "validAdmissionBegin na nc"
    using q(1,4,7) naf r rv by (simp add: validAdmissionBegin_def sameCPUStart_def tEqual_def)
  have gp: "validAdmissionGap ids na nc"
  proof (cases "a_LatestGap a")
    case None
    then show ?thesis using vc(5) naf by (simp add: validAdmissionGap_def ca_def open'_def)
  next
    case (Some g)
    then have g: "validGapReceipt ids a c g" using vc(5) by (simp add: validAdmissionGap_def)
    then have g2: "validGapReceipt ids na nc g" "gr_AppliedRevision g < rv"
      using naf ss(2) att th(2)
      by (cases "a_GapOpenedAt a"; auto simp: validGapReceipt_def go_arith rv_def)+
    have "\<not> tAfter (the (a_GapOpenedAt a)) at"
      using g2(1) naf by (cases "a_GapOpenedAt a") (simp_all add: validGapReceipt_def)
    then show ?thesis
      using vc(5) Some g2 naf att th(2) qv(3)
      by (cases "a_GapClosedAt a"; cases open')
        (auto simp: validAdmissionGap_def go_arith ca_def open'_def at_def)
  qed
  have gb: "case ca of None \<Rightarrow> True
      | Some g \<Rightarrow> okTime g \<and> (p_PartialTracking hour' \<and> p_PartialTracking day' \<or>
          a_GapClosedAt a = Some g \<and> t_ns g \<le> t_ns (the (a_ClockHighWater a)))"
    using gapClosed_bound [OF vc(3)] att(1)
    by (cases open'; cases "a_GapClosedAt a") (simp_all add: ca_def hour'_def day'_def)
  have pn: "periodNext hour_ns at (a_ActivationBaselineCPUNS a) (s_ChargedCPUNS nc) u (a_Hour a) hour'"
      "periodNext day_ns at (a_ActivationBaselineCPUNS a) (s_ChargedCPUNS nc) u (a_Day a) day'"
    using rolled_next [OF th(5) ch(1) th(7)] rolled_next [OF th(6) ch(1) th(8)] ch(2)
      periodNext_partial by (simp_all add: hour'_def day'_def hour_def day_def)
  have "validCPUAdmission ids na nc"
    by (rule admissionNext_valid [OF vc(3,2) qv(3) att(4) nc(1,2,3) _ ch(2,1) _ pn form rv(2) qv(4) gb bg gp])
      (use nc(4) ss(4) in \<open>auto simp: u_def\<close>)
  then show "admissionInv ids nc na"
    using nc naf rv by (simp add: admissionInv_def admissionI64_def)
  show "s_ChargedCPUNS nc = s_ChargedCPUNS c + prefixCharge (q_Start q)"
    "s_Generation nc = s_Generation c + 1" "a_PolicyRevision na = a_PolicyRevision a + 1"
    "a_Limits na = q_Limits q" "\<not> a_TrackingGapOpen na"
    "a_ActivationBaselineCPUNS na = a_ActivationBaselineCPUNS a"
    "s_Status nc = (if startProblem (q_Start q) = RNone then SActive else SUnknown)"
    "ledgerStep c (st_ObservedAt (q_Start q)) nc"
    using ss naf by (simp_all add: rv_def at_def)
qed

section \<open>Opening a tracking gap\<close>

text \<open>The ledger an opened gap leaves: a session still active is closed as recovered.\<close>

lemma gap_ledger:
  assumes v: "admissionInv ids c a" and at: "cpuAdmissionTime at" "t_ns (the (a_ClockHighWater a)) \<le> t_ns at"
    and n: "(if s_Status c = SActive then recoverCharges c at else Inr c) = Inr nc"
  shows "validCPUCharges nc" "chargesI64 nc" "s_ActivatedAt nc = s_ActivatedAt c"
    "t_ns (the (s_ClockHighWater nc)) \<le> t_ns at" "s_ChargedCPUNS nc = s_ChargedCPUNS c"
    "s_Generation nc = s_Generation c" "s_Status nc \<noteq> SActive"
    "map_option r_Start (s_Session nc) = map_option r_Start (s_Session c)"
    "dueMono (s_NextAllowedAt c) (s_NextAllowedAt nc)"
    "t_ns (the (s_ClockHighWater c)) \<le> t_ns (the (s_ClockHighWater nc))"
proof -
  have vc: "validCPUCharges c" "chargesI64 c" "validCPUAdmission ids a c"
    using v by (simp_all add: admissionInv_def validCPUAdmission_def validAdmissionHeader_def)
  obtain t h where h: "a_ClockHighWater a = Some h" "t_ns (the (s_ClockHighWater c)) \<le> t_ns h"
    by (rule admissionE [OF vc(3,2)])
  have "validCPUCharges nc \<and> chargesI64 nc \<and> s_ActivatedAt nc = s_ActivatedAt c \<and>
    t_ns (the (s_ClockHighWater nc)) \<le> t_ns at \<and> s_ChargedCPUNS nc = s_ChargedCPUNS c \<and>
    s_Generation nc = s_Generation c \<and> s_Status nc \<noteq> SActive \<and>
    map_option r_Start (s_Session nc) = map_option r_Start (s_Session c) \<and>
    dueMono (s_NextAllowedAt c) (s_NextAllowedAt nc) \<and>
    t_ns (the (s_ClockHighWater c)) \<le> t_ns (the (s_ClockHighWater nc))"
  proof (cases "s_Status c = SActive")
    case True
    obtain r where r: "s_Session c = Some r" "r_Status r = SActive"
      by (rule active_session [OF v True])
    have "recoverCharges c at = Inr nc" using n True by simp
    moreover have "\<not> tBefore at (the (s_ClockHighWater c))" using h at(2) by (simp add: tBefore_def)
    ultimately show ?thesis
      using recoverCharges_valid [OF vc(1,2) r cpuAdmissionTimeD(1,2) [OF at(1)], of nc] r(1)
      by (auto simp: ledgerStep_def tBefore_def)
  next
    case False
    then show ?thesis using n vc h at(2) by simp
  qed
  then show "validCPUCharges nc" "chargesI64 nc" "s_ActivatedAt nc = s_ActivatedAt c"
    "t_ns (the (s_ClockHighWater nc)) \<le> t_ns at" "s_ChargedCPUNS nc = s_ChargedCPUNS c"
    "s_Generation nc = s_Generation c" "s_Status nc \<noteq> SActive"
    "map_option r_Start (s_Session nc) = map_option r_Start (s_Session c)"
    "dueMono (s_NextAllowedAt c) (s_NextAllowedAt nc)"
    "t_ns (the (s_ClockHighWater c)) \<le> t_ns (the (s_ClockHighWater nc))" by blast+
qed

lemma limitedGap_inv:
  assumes v: "admissionInv ids c a"
    and q: "validCPUGapRequest q" "g_ExpectedGeneration q = s_Generation c"
      "g_ExpectedPolicyRevision q = a_PolicyRevision a"
      "\<not> tBefore (g_ObservedAt q) (the (a_ClockHighWater a))" "a_PolicyRevision a \<noteq> maxInt64"
    and n: "limitedGap ids c a q = Inr (nc, na)"
  shows "admissionInv ids nc na" "s_ChargedCPUNS nc = s_ChargedCPUNS c"
    "s_Generation nc = s_Generation c" "a_PolicyRevision na = a_PolicyRevision a + 1"
    "a_TrackingGapOpen na" "s_Status nc \<noteq> SActive"
    "a_ActivationBaselineCPUNS na = a_ActivationBaselineCPUNS a"
    "p_BlockingUnknown (a_Hour na)" "p_BlockingUnknown (a_Day na)"
    "dueMono (s_NextAllowedAt c) (s_NextAllowedAt nc)"
    "t_ns (the (s_ClockHighWater c)) \<le> t_ns (the (s_ClockHighWater nc))"
proof -
  define at where "at = g_ObservedAt q"
  have vc: "chargesI64 c" "validCPUAdmission ids a c" "i64 (a_PolicyRevision a)"
      "validAdmissionBegin a c" "0 \<le> a_PolicyRevision a" "cpuAdmissionLimitsValid (a_Limits a)"
      "i64 (a_BeginAppliedRevision a)"
    using v by (simp_all add: admissionInv_def validCPUAdmission_def validAdmissionHeader_def admissionI64_def)
  obtain t h where th: "a_ActivatedAt a = Some t" "a_ClockHighWater a = Some h" "cpuAdmissionTime t"
    "t_ns t \<le> t_ns h"
    "periodSum (a_ActivationBaselineCPUNS a) (a_Hour a) (s_ChargedCPUNS c)"
    "periodSum (a_ActivationBaselineCPUNS a) (a_Day a) (s_ChargedCPUNS c)"
    "p_NextBoundaryNS (a_Hour a) = p_StartNS (a_Hour a) + hour_ns"
    "p_NextBoundaryNS (a_Day a) = p_StartNS (a_Day a) + day_ns"
    by (rule admissionE [OF vc(2,1)])
  have att: "cpuAdmissionTime at" "t_ns (the (a_ClockHighWater a)) \<le> t_ns at" "t_ns h \<le> t_ns at"
    using q(1,4) th(2) by (simp_all add: validCPUGapRequest_def at_def tBefore_def)
  define rv where "rv = a_PolicyRevision a + 1"
  have rv: "add64 (a_PolicyRevision a) 1 = rv" "0 < rv" "i64 rv"
    using vc(3,5) q(5) by (simp_all add: rv_def i64_def)
  have tot: "s_ChargedCPUNS c + 0 \<le> maxInt64" using vc(1) by (simp add: chargesI64_def i64_def)
  define hour where "hour = (rolled hour_ns at 0 True (a_Hour a))\<lparr>p_PartialTracking := True\<rparr>"
  define day where "day = (rolled day_ns at 0 True (a_Day a))\<lparr>p_PartialTracking := True\<rparr>"
  define lg where "lg = \<lparr>gr_Request = q, gr_RequestID = id_gap ids q, gr_AppliedRevision = rv\<rparr>"
  have nc: "(if s_Status c = SActive then recoverCharges c at else Inr c) = Inr nc"
    and form: "na = bindCPUAdmission ids (a\<lparr>a_Hour := hour, a_Day := day, a_ClockHighWater := Some at,
      a_PolicyRevision := rv, a_Limits := a_Limits a, a_BeginRequest := a_BeginRequest a,
      a_BeginAppliedRevision := a_BeginAppliedRevision a, a_TrackingGapOpen := True,
      a_GapOpenedAt := Some at, a_GapClosedAt := None, a_LatestGap := Some lg\<rparr>) nc"
    using n rv(1) rollCPUAdmission_exact [OF th(5,6) order_refl tot att(1,2)]
    by (cases a; auto simp: limitedGap_def Let_def at_def hour_def day_def lg_def split: sum.splits)+
  note gl = gap_ledger [OF v att(1,2) nc]
  have naf: "a_BeginRequest na = a_BeginRequest a" "a_Limits na = a_Limits a"
      "a_BeginAppliedRevision na = a_BeginAppliedRevision a" "a_PolicyRevision na = rv"
      "a_LatestGap na = Some lg" "a_TrackingGapOpen na" "a_GapOpenedAt na = Some at"
      "a_GapClosedAt na = None" "a_ClockHighWater na = Some at" "a_ActivatedAt na = Some t"
      "a_Hour na = hour" "a_Day na = day"
      "a_ActivationBaselineCPUNS na = a_ActivationBaselineCPUNS a"
    using th(1) by (simp_all add: form bindCPUAdmission_def)
  have bg: "validAdmissionBegin na nc"
    using vc(4) naf(1-4) gl(8)
    by (cases "a_BeginRequest a"; cases "s_Session c"; cases "s_Session nc")
      (simp_all add: validAdmissionBegin_def rv_def)
  have gp: "validAdmissionGap ids na nc"
    using naf q gl(6,7) rv th(4) att(3)
    by (simp add: validAdmissionGap_def validGapReceipt_def lg_def at_def hour_def day_def go_arith)
  have pn: "periodNext hour_ns at (a_ActivationBaselineCPUNS a) (s_ChargedCPUNS nc) True (a_Hour a) hour"
      "periodNext day_ns at (a_ActivationBaselineCPUNS a) (s_ChargedCPUNS nc) True (a_Day a) day"
    using rolled_next [OF th(5) order_refl th(7)] rolled_next [OF th(6) order_refl th(8)] gl(5)
      periodNext_partial by (simp_all add: hour_def day_def)
  have "validCPUAdmission ids na nc"
    by (rule admissionNext_valid [OF vc(2,1) att(1,2) gl(1-4) _ order_refl _ pn form rv(2) vc(6) _ bg gp])
      (simp_all add: gl(5))
  then show "admissionInv ids nc na"
    using gl naf rv vc(7) by (simp add: admissionInv_def admissionI64_def)
  show "s_ChargedCPUNS nc = s_ChargedCPUNS c" "s_Generation nc = s_Generation c"
    "a_PolicyRevision na = a_PolicyRevision a + 1" "a_TrackingGapOpen na" "s_Status nc \<noteq> SActive"
    "a_ActivationBaselineCPUNS na = a_ActivationBaselineCPUNS a"
    "p_BlockingUnknown (a_Hour na)" "p_BlockingUnknown (a_Day na)"
    "dueMono (s_NextAllowedAt c) (s_NextAllowedAt nc)"
    "t_ns (the (s_ClockHighWater c)) \<le> t_ns (the (s_ClockHighWater nc))"
    using gl naf by (simp_all add: rv_def hour_def day_def)
qed

section \<open>Activating the admission record\<close>

lemma admissionActivated_inv:
  assumes c: "validCPUCharges c" "chargesI64 c" "s_Status c \<noteq> SActive"
    and at: "cpuAdmissionTime at" "\<not> tBefore at (the (s_ClockHighWater c))"
    and l: "cpuAdmissionLimitsValid limits" "\<not> (l_HourNS limits = 0 \<and> l_DayNS limits = 0)"
    and n: "admissionActivated ids c at limits = Inr na"
  shows "admissionInv ids c na" "a_ActivationBaselineCPUNS na = s_ChargedCPUNS c"
    "a_PolicyRevision na = 0" "a_ClockHighWater na = Some at"
proof -
  obtain t h where th: "s_ActivatedAt c = Some t" "s_ClockHighWater c = Some h" "t_ns t \<le> t_ns h"
    using c(1) headerE by (metis validCPUCharges_def)
  have ch: "0 \<le> s_ChargedCPUNS c" "s_ChargedCPUNS c \<le> maxInt64"
    using c(1,2) by (simp_all add: validCPUCharges_def validChargesHeader_def chargesI64_def i64_def)
  have na: "na = bindCPUAdmission ids ((cpuAdmissionBase True)\<lparr>a_ActivatedAt := Some at,
      a_ClockHighWater := Some at, a_ActivationBaselineCPUNS := s_ChargedCPUNS c,
      a_Hour := (slotOf hour_ns at)\<lparr>p_PartialTracking := True\<rparr>,
      a_Day := (slotOf day_ns at)\<lparr>p_PartialTracking := True\<rparr>, a_Limits := limits\<rparr>) c"
    using n cpuAdmissionTimeD(3) [OF at(1)] by (simp add: admissionActivated_def)
  have 1: "validAdmissionHeader ids na c"
    using c at l th ch
    by (simp add: na bindCPUAdmission_def cpuAdmissionBase_def validAdmissionHeader_def go_arith)
  have f: "a_ActivationBaselineCPUNS na = s_ChargedCPUNS c" "a_ClockHighWater na = Some at"
      "a_ActivatedAt na = Some at" "a_PolicyRevision na = 0"
      "a_Hour na = (slotOf hour_ns at)\<lparr>p_PartialTracking := True\<rparr>"
      "a_Day na = (slotOf day_ns at)\<lparr>p_PartialTracking := True\<rparr>"
    by (simp_all add: na bindCPUAdmission_def cpuAdmissionBase_def)
  have b: "0 \<le> a_ActivationBaselineCPUNS na" "a_ActivationBaselineCPUNS na \<le> s_ChargedCPUNS c"
    using f ch by simp_all
  have g: "a_BeginRequest na = None" "a_LatestGap na = None" "a_GapClosedAt na = None"
      "a_GapOpenedAt na = None" "\<not> a_TrackingGapOpen na" "a_BeginAppliedRevision na = 0"
      "a_Limits na = limits"
    by (simp_all add: na bindCPUAdmission_def cpuAdmissionBase_def)
  have 2: "validPeriod na c (a_Hour na) (slotOf hour_ns at)" "validPeriod na c (a_Day na) (slotOf day_ns at)"
    using f ch by (simp_all add: validPeriod_iff [OF b ch(2)] periodSum_def)
  have 3: "validPeriodMarks na c (a_Hour na) (slotOf hour_ns at) hour_ns"
      "validPeriodMarks na c (a_Day na) (slotOf day_ns at) day_ns"
    using f g by (auto simp: validPeriodMarks_def split: option.splits)
  have "validAdmissionPeriods na c"
    using 2 3 f g cpuAdmissionTimeD(3) [OF at(1)] by (simp add: validAdmissionPeriods_def tEqual_def)
  then have "validCPUAdmission ids na c"
    using 1 f g l(2) by (simp add: validCPUAdmission_def validAdmissionBegin_def validAdmissionGap_def)
  then show "admissionInv ids c na"
    using c f g by (simp add: admissionInv_def admissionI64_def i64_def)
  show "a_ActivationBaselineCPUNS na = s_ChargedCPUNS c" "a_PolicyRevision na = 0"
    "a_ClockHighWater na = Some at" by (fact f)+
qed

end
