(* ===== verification/CPU_Store_Laws.thy ===== *)
theory CPU_Store_Laws
  imports CPU_Limited CPU_Admission_Laws Ledger_Systems
begin

text \<open>
  The store's transactions on the charge ledger: what a successful read returns, the invariant of
  the database that every operation keeps under every answer of the environment, the quantities
  that never decrease, exact retries, and the latch of an uncertain publication.
\<close>

section \<open>Reading\<close>

lemma cpuChargesSchema_version:
  assumes "cpuChargesSchema env db = Inr v"
  shows "v = db_version db" "4 \<le> v" "v \<le> 16"
proof -
  have "v = db_version db \<and> 4 \<le> v \<and> v \<le> 16"
    using assms by (auto simp: cpuChargesSchema_def Let_def split: option.splits if_splits)
  then show "v = db_version db" "4 \<le> v" "v \<le> 16" by simp_all
qed

lemma readCPUAdmission_ok:
  assumes "readCPUAdmission ids env k db c 16 = (a, None)"
  shows "db_admission db = CellRow (a_PolicyRevision a) a" "validCPUAdmission ids a c"
  using assms by (auto simp: readCPUAdmission_def split: option.splits cell.splits sum.splits if_splits)

lemma readCPUAdmission_base:
  "v < 16 \<Longrightarrow> readCPUAdmission ids env k db c v = (cpuAdmissionBase False, None)"
  by (simp add: readCPUAdmission_def)

lemma readCPUCharges_ok:
  assumes r: "readCPUCharges ids env db = (s, None)"
  shows "4 \<le> db_version db" "db_version db \<le> 16"
    "db_version db < 15 \<Longrightarrow> s = cpuChargesBase False"
    "15 \<le> db_version db \<Longrightarrow> db_charges db = CellRow (s_Generation s) s"
    "15 \<le> db_version db \<Longrightarrow> validCPUCharges s"
proof -
  obtain v where v: "cpuChargesSchema env db = Inr v"
    using r by (cases "cpuChargesSchema env db") (simp_all add: readCPUCharges_def)
  note vv = cpuChargesSchema_version [OF v]
  show "4 \<le> db_version db" "db_version db \<le> 16" using vv by simp_all
  show "s = cpuChargesBase False" if "db_version db < 15"
    using r v vv that by (simp add: readCPUCharges_def)
  have "db_charges db = CellRow (s_Generation s) s \<and> validCPUCharges s" if "15 \<le> db_version db"
    using r v vv that unfolding readCPUCharges_def
    by (auto split: option.splits cell.splits sum.splits if_splits)
  then show "15 \<le> db_version db \<Longrightarrow> db_charges db = CellRow (s_Generation s) s"
    "15 \<le> db_version db \<Longrightarrow> validCPUCharges s" by simp_all
qed

lemma admissionRead_ok:
  assumes r: "admissionRead ids env db = (c, a, v, None)" and v: "v = 16"
  shows "db_version db = 16" "db_charges db = CellRow (s_Generation c) c"
    "db_admission db = CellRow (a_PolicyRevision a) a" "validCPUAdmission ids a c"
proof -
  obtain e where rc: "readCPUCharges ids env db = (c, e)"
    using r by (cases "readCPUCharges ids env db") (auto simp: admissionRead_def split: option.splits prod.splits)
  then have e: "e = None" "q_err env 13 = None" "v = db_version db"
    "readCPUAdmission ids env 15 db c (db_version db) = (a, None)"
    using r by (auto simp: admissionRead_def split: option.splits prod.splits)
  then show "db_version db = 16" "db_charges db = CellRow (s_Generation c) c"
    "db_admission db = CellRow (a_PolicyRevision a) a" "validCPUAdmission ids a c"
    using readCPUCharges_ok [of ids env db c] rc v readCPUAdmission_ok by simp_all
qed

lemma admissionRead_v15:
  assumes r: "admissionRead ids env db = (c, a, v, None)" and v: "v = 15"
  shows "db_version db = 15" "db_charges db = CellRow (s_Generation c) c" "validCPUCharges c"
proof -
  obtain e where rc: "readCPUCharges ids env db = (c, e)"
    using r by (cases "readCPUCharges ids env db") (auto simp: admissionRead_def split: option.splits prod.splits)
  then have e: "e = None" "v = db_version db"
    using r by (auto simp: admissionRead_def split: option.splits prod.splits)
  then show "db_version db = 15" "db_charges db = CellRow (s_Generation c) c" "validCPUCharges c"
    using readCPUCharges_ok [of ids env db c] rc v by simp_all
qed

lemma bareOpen_ok:
  assumes "bareOpen ids env st inp = Inr s"
  shows "inp = None" "\<not> cs_refused st" "\<not> cs_readOnly st" "cs_open st" "db_version (cs_db st) < 16"
    "readCPUCharges ids env (cs_db st) = (s, None)"
proof -
  have "inp = None \<and> \<not> cs_refused st \<and> \<not> cs_readOnly st \<and> cs_open st \<and> db_version (cs_db st) < 16 \<and>
    readCPUCharges ids env (cs_db st) = (s, None)"
    using assms
    by (auto simp: bareOpen_def cpuChargesWriter_def bareCPUAuthority_def
        split: option.splits if_splits prod.splits)
  then show "inp = None" "\<not> cs_refused st" "\<not> cs_readOnly st" "cs_open st" "db_version (cs_db st) < 16"
    "readCPUCharges ids env (cs_db st) = (s, None)" by simp_all
qed

section \<open>The invariant of the database\<close>

text \<open>Before activation there is no ledger; at version 15 the saved ledger is valid; at version 16
  both records are, and fit each other.\<close>

definition dbInv :: "admission_ids \<Rightarrow> cpudb \<Rightarrow> bool" where
  "dbInv ids db \<longleftrightarrow>
     (db_version db < 15 \<longrightarrow> db_charges db = CellMissing \<and> db_admission db = CellMissing) \<and>
     (db_version db = 15 \<longrightarrow>
        (\<exists>c. db_charges db = CellRow (s_Generation c) c \<and> validCPUCharges c \<and> chargesI64 c) \<and>
        db_admission db = CellMissing) \<and>
     (15 < db_version db \<longrightarrow>
        (\<exists>c a. db_charges db = CellRow (s_Generation c) c \<and>
           db_admission db = CellRow (a_PolicyRevision a) a \<and> admissionInv ids c a))"

definition ledgerOf :: "cpudb \<Rightarrow> CPUChargeState option" where
  "ledgerOf db = (case db_charges db of CellRow _ c \<Rightarrow> Some c | _ \<Rightarrow> None)"

definition clockLevel :: "cpudb \<Rightarrow> int" where
  "clockLevel db = (case ledgerOf db of None \<Rightarrow> 0 | Some c \<Rightarrow> t_ns (the (s_ClockHighWater c)))"

definition chargedLevel :: "cpudb \<Rightarrow> int" where
  "chargedLevel db = (case ledgerOf db of None \<Rightarrow> 0 | Some c \<Rightarrow> s_ChargedCPUNS c)"

definition generationLevel :: "cpudb \<Rightarrow> int" where
  "generationLevel db = (case ledgerOf db of None \<Rightarrow> 0 | Some c \<Rightarrow> s_Generation c)"

definition policyLevel :: "cpudb \<Rightarrow> int" where
  "policyLevel db = (case db_admission db of CellRow _ a \<Rightarrow> a_PolicyRevision a | _ \<Rightarrow> 0)"

definition deadlineOf :: "cpudb \<Rightarrow> gotime option" where
  "deadlineOf db = (case ledgerOf db of None \<Rightarrow> None | Some c \<Rightarrow> s_NextAllowedAt c)"

text \<open>What one transaction may do to the database.\<close>

definition dbMove :: "admission_ids \<Rightarrow> cpudb \<Rightarrow> cpudb \<Rightarrow> bool" where
  "dbMove ids db db' \<longleftrightarrow> dbInv ids db' \<and> db_version db \<le> db_version db' \<and>
     clockLevel db \<le> clockLevel db' \<and> chargedLevel db \<le> chargedLevel db' \<and>
     generationLevel db \<le> generationLevel db' \<and> policyLevel db \<le> policyLevel db' \<and>
     dueMono (deadlineOf db) (deadlineOf db')"

lemma dbMove_refl: "dbInv ids db \<Longrightarrow> dbMove ids db db"
  by (simp add: dbMove_def)

lemma commitCPUCharges_db:
  assumes "commitCPUCharges env st db prior next = (st', s, e)"
  shows "cs_db st' = cs_db st \<or>
    validCPUCharges next \<and> cs_db st' = db\<lparr>db_charges := CellRow (s_Generation next) next\<rparr>"
    "cs_refused st' = cs_refused st" "cs_id st' = cs_id st"
  using assms
  by (auto simp: commitCPUCharges_def writeCPUCharges_def Let_def afterCommit_def
      split: option.splits sum.splits if_splits)

lemma admissionPublish_db:
  assumes "admissionPublish ids env st db prior next pa na op i = (st', c', a', e')"
  shows "cs_db st' = cs_db st \<or> validCPUAdmission ids na next \<and>
    cs_db st' = db\<lparr>db_charges := CellRow (s_Generation next) next,
                   db_admission := CellRow (a_PolicyRevision na) na\<rparr>"
  using assms
  by (auto simp: admissionPublish_def writeCPUCharges_def writeCPUAdmission_def Let_def afterCommit_def
      split: option.splits sum.splits if_splits)

text \<open>A published successor of the saved ledger at version 15.\<close>

lemma bare_move:
  assumes "dbInv ids db" "db_version db = 15" "db_charges db = CellRow (s_Generation c) c"
    and n: "ledgerStep c at n" "s_ChargedCPUNS c \<le> s_ChargedCPUNS n" "s_Generation c \<le> s_Generation n"
      "t_ns (the (s_ClockHighWater c)) \<le> t_ns at"
  shows "dbMove ids db (db\<lparr>db_charges := CellRow (s_Generation n) n\<rparr>)"
  using assms
  by (simp add: dbMove_def dbInv_def clockLevel_def chargedLevel_def generationLevel_def policyLevel_def
      deadlineOf_def ledgerOf_def ledgerStep_def)

lemma limited_move:
  assumes "db_version db = 16" "db_charges db = CellRow (s_Generation c) c"
    "db_admission db = CellRow (a_PolicyRevision a) a"
    and n: "admissionInv ids n na" "s_ChargedCPUNS c \<le> s_ChargedCPUNS n" "s_Generation c \<le> s_Generation n"
      "t_ns (the (s_ClockHighWater c)) \<le> t_ns (the (s_ClockHighWater n))"
      "dueMono (s_NextAllowedAt c) (s_NextAllowedAt n)" "a_PolicyRevision a \<le> a_PolicyRevision na"
  shows "dbMove ids db (db\<lparr>db_charges := CellRow (s_Generation n) n,
      db_admission := CellRow (a_PolicyRevision na) na\<rparr>)"
  using assms
  by (simp add: dbMove_def dbInv_def clockLevel_def chargedLevel_def generationLevel_def policyLevel_def
      deadlineOf_def ledgerOf_def)

section \<open>The bare operations keep the invariant\<close>

lemma chargesActivated_valid:
  assumes "cpuChargesTime at"
  shows "validCPUCharges (chargesActivated at)" "chargesI64 (chargesActivated at)"
  using assms
  by (simp_all add: chargesActivated_def cpuChargesBase_def validCPUCharges_def validChargesHeader_def
      validChargesDebt_def validChargesUntracked_def chargesI64_def i64_def tBefore_def)

lemma ActivateCPUCharges_move:
  assumes inv: "dbInv ids (cs_db st)" and op: "ActivateCPUCharges ids env st at = (st', s, e)"
  shows "dbMove ids (cs_db st) (cs_db st')"
proof (cases "cs_db st' = cs_db st")
  case False
  then have v: "db_version (cs_db st) = 14" "cpuChargesTime at"
    and c: "commitCPUCharges env st (migrate15 at (cs_db st)) (cpuChargesBase False) (chargesActivated at) =
      (st', s, e) \<or> (\<exists>p. commitCPUCharges env st (migrate15 at (cs_db st)) p (chargesActivated at) = (st', s, e))"
    using op bareOpen_ok(1) [of ids env st "if cpuChargesTime at then None else Some ErrCPUChargesInvalid"]
    by (auto simp: ActivateCPUCharges_def split: sum.splits if_splits prod.splits option.splits)
  have db: "cs_db st' = (migrate15 at (cs_db st))\<lparr>db_charges := CellRow 0 (chargesActivated at)\<rparr>"
    using c False commitCPUCharges_db(1)
    by (fastforce simp: chargesActivated_def cpuChargesBase_def)
  have m: "db_charges (cs_db st) = CellMissing" "db_admission (cs_db st) = CellMissing"
    using inv v(1) by (simp_all add: dbInv_def)
  have "s_Generation (chargesActivated at) = 0" "s_ChargedCPUNS (chargesActivated at) = 0"
      "s_ClockHighWater (chargesActivated at) = Some at" "0 < t_ns at"
    using v(2) by (simp_all add: chargesActivated_def cpuChargesBase_def okTime_def)
  then show ?thesis
    using v(1) m chargesActivated_valid [OF v(2)]
    by (auto simp: dbMove_def dbInv_def clockLevel_def chargedLevel_def generationLevel_def policyLevel_def
        deadlineOf_def ledgerOf_def db migrate15_def dueMono_def)
qed (simp add: dbMove_refl [OF inv])

text \<open>The saved ledger behind a bare operation that reached its transition.\<close>

lemma bare_saved:
  assumes inv: "dbInv ids (cs_db st)" and o: "bareOpen ids env st inp = Inr c" "s_Available c"
  shows "db_version (cs_db st) = 15" "db_charges (cs_db st) = CellRow (s_Generation c) c"
    "validCPUCharges c" "chargesI64 c"
proof -
  note b = bareOpen_ok [OF o(1)]
  note r = readCPUCharges_ok [OF b(6)]
  have "15 \<le> db_version (cs_db st)"
    using r(3) o(2) by (cases "db_version (cs_db st) < 15") (auto simp: cpuChargesBase_def)
  then show v: "db_version (cs_db st) = 15" using b(5) by simp
  show "db_charges (cs_db st) = CellRow (s_Generation c) c" "validCPUCharges c" using r v by simp_all
  then show "chargesI64 c" using inv v by (auto simp: dbInv_def)
qed

lemma BeginCPUSession_commit:
  assumes op: "BeginCPUSession ids env st start = (st', m, s, e)" and ch: "cs_db st' \<noteq> cs_db st"
  obtains prior nxt where "bareOpen ids env st None = Inr prior" "s_Available prior"
    "cpuChargesStartValid start" "st_ExpectedGeneration start = s_Generation prior"
    "\<not> tBefore (st_ObservedAt start) (the (s_ClockHighWater prior))" "s_Generation prior \<noteq> maxInt64"
    "beginCharges prior start = Inr nxt" "validCPUCharges nxt"
    "cs_db st' = (cs_db st)\<lparr>db_charges := CellRow (s_Generation nxt) nxt\<rparr>"
proof -
  let ?i = "if cpuChargesStartValid start then None else Some ErrCPUChargesInvalid"
  obtain prior where o: "bareOpen ids env st ?i = Inr prior"
    using op ch by (cases "bareOpen ids env st ?i") (auto simp: BeginCPUSession_def split: prod.splits)
  have v: "cpuChargesStartValid start" using bareOpen_ok(1) [OF o] by (simp split: if_splits)
  have "s_Available prior \<and> st_ExpectedGeneration start = s_Generation prior \<and>
      \<not> tBefore (st_ObservedAt start) (the (s_ClockHighWater prior)) \<and> s_Generation prior \<noteq> maxInt64 \<and>
      (\<exists>nxt s1 e1. beginCharges prior start = Inr nxt \<and>
         commitCPUCharges env st (cs_db st) prior nxt = (st', s1, e1))"
    using op ch o unfolding BeginCPUSession_def Let_def
    by (auto split: if_splits sum.splits option.splits prod.splits)
  then obtain nxt s1 e1 where n: "s_Available prior" "st_ExpectedGeneration start = s_Generation prior"
      "\<not> tBefore (st_ObservedAt start) (the (s_ClockHighWater prior))" "s_Generation prior \<noteq> maxInt64"
      "beginCharges prior start = Inr nxt" "commitCPUCharges env st (cs_db st) prior nxt = (st', s1, e1)"
    by blast
  have p: "bareOpen ids env st None = Inr prior" using o v by simp
  have "validCPUCharges nxt" "cs_db st' = (cs_db st)\<lparr>db_charges := CellRow (s_Generation nxt) nxt\<rparr>"
    using commitCPUCharges_db(1) [OF n(6)] ch by simp_all
  from that [OF p n(1) v n(2-5) this] show ?thesis .
qed

lemma BeginCPUSession_move:
  assumes inv: "dbInv ids (cs_db st)" "startI64 start"
    and op: "BeginCPUSession ids env st start = (st', m, s, e)"
  shows "dbMove ids (cs_db st) (cs_db st')"
proof (cases "cs_db st' = cs_db st")
  case False
  obtain prior nxt where b: "bareOpen ids env st None = Inr prior" "s_Available prior"
    "cpuChargesStartValid start" "st_ExpectedGeneration start = s_Generation prior"
    "\<not> tBefore (st_ObservedAt start) (the (s_ClockHighWater prior))" "s_Generation prior \<noteq> maxInt64"
    "beginCharges prior start = Inr nxt" "validCPUCharges nxt"
    "cs_db st' = (cs_db st)\<lparr>db_charges := CellRow (s_Generation nxt) nxt\<rparr>"
    by (rule BeginCPUSession_commit [OF op False])
  note sv = bare_saved [OF inv(1) b(1,2)]
  note bv = beginCharges_valid [OF sv(3,4) b(3) inv(2) b(4,6,5,7)]
  have "0 \<le> prefixCharge start" by (auto simp: nonnegCPU_def split: option.splits)
  then show ?thesis unfolding b(9)
    by (intro bare_move [OF inv(1) sv(1,2) conjunct1 [OF bv]]) (use bv b(5) in \<open>auto simp: tBefore_def\<close>)
qed (simp add: dbMove_refl [OF inv(1)])

lemma sampleCPUSession_commit:
  assumes op: "sampleCPUSession ids env st m q f = (st', s, e)" and ch: "cs_db st' \<noteq> cs_db st"
  obtains prior r nxt problem where "bareOpen ids env st None = Inr prior" "s_Available prior"
    "sm_store m = cs_id st" "cpuChargesSampleValid q" "s_Session prior = Some r"
    "sm_generation m = s_Generation prior" "sameCPUStart (sm_start m) (r_Start r)"
    "r_Status r = SActive" "sp_Ordinal q = add64 (r_LastOrdinal r) 1" "r_LastOrdinal r \<noteq> maxInt64"
    "sampleCharges prior q f = Inr (nxt, problem)" "validCPUCharges nxt"
    "cs_db st' = (cs_db st)\<lparr>db_charges := CellRow (s_Generation nxt) nxt\<rparr>"
    "cpuChargesStartValid (sm_start m)" "0 < sm_generation m"
proof -
  let ?i = "if sm_store m \<noteq> cs_id st \<or> sm_generation m \<le> 0 \<or> \<not> cpuChargesStartValid (sm_start m) \<or>
      \<not> cpuChargesSampleValid q then Some ErrCPUChargesStale else None"
  obtain prior where o: "bareOpen ids env st ?i = Inr prior"
    using op ch by (cases "bareOpen ids env st ?i") (auto simp: sampleCPUSession_def split: prod.splits)
  have i: "?i = None" by (rule bareOpen_ok(1) [OF o])
  have "s_Available prior \<and> (\<exists>r nxt problem s1 e1. s_Session prior = Some r \<and>
      sm_generation m = s_Generation prior \<and> sameCPUStart (sm_start m) (r_Start r) \<and>
      r_Status r = SActive \<and> sp_Ordinal q = add64 (r_LastOrdinal r) 1 \<and> r_LastOrdinal r \<noteq> maxInt64 \<and>
      sampleCharges prior q f = Inr (nxt, problem) \<and>
      commitCPUCharges env st (cs_db st) prior nxt = (st', s1, e1))"
    using op ch o unfolding sampleCPUSession_def Let_def
    by (auto split: if_splits sum.splits option.splits prod.splits)
  then obtain r nxt problem s1 e1 where n: "s_Available prior" "s_Session prior = Some r"
      "sm_generation m = s_Generation prior" "sameCPUStart (sm_start m) (r_Start r)"
      "r_Status r = SActive" "sp_Ordinal q = add64 (r_LastOrdinal r) 1" "r_LastOrdinal r \<noteq> maxInt64"
      "sampleCharges prior q f = Inr (nxt, problem)"
      "commitCPUCharges env st (cs_db st) prior nxt = (st', s1, e1)"
    by blast
  have p: "bareOpen ids env st None = Inr prior" "sm_store m = cs_id st" "cpuChargesSampleValid q"
      "cpuChargesStartValid (sm_start m)" "0 < sm_generation m"
    using i o by (simp_all split: if_splits)
  have "validCPUCharges nxt" "cs_db st' = (cs_db st)\<lparr>db_charges := CellRow (s_Generation nxt) nxt\<rparr>"
    using commitCPUCharges_db(1) [OF n(9)] ch by simp_all
  from that [OF p(1) n(1) p(2,3) n(2-8) this p(4,5)] show ?thesis .
qed

lemma sampleCPUSession_move:
  assumes inv: "dbInv ids (cs_db st)" "sampleI64 q"
    and op: "sampleCPUSession ids env st m q f = (st', s, e)"
  shows "dbMove ids (cs_db st) (cs_db st')"
proof (cases "cs_db st' = cs_db st")
  case False
  obtain prior r nxt problem where b: "bareOpen ids env st None = Inr prior" "s_Available prior"
    "sm_store m = cs_id st" "cpuChargesSampleValid q" "s_Session prior = Some r"
    "sm_generation m = s_Generation prior" "sameCPUStart (sm_start m) (r_Start r)"
    "r_Status r = SActive" "sp_Ordinal q = add64 (r_LastOrdinal r) 1" "r_LastOrdinal r \<noteq> maxInt64"
    "sampleCharges prior q f = Inr (nxt, problem)" "validCPUCharges nxt"
    "cs_db st' = (cs_db st)\<lparr>db_charges := CellRow (s_Generation nxt) nxt\<rparr>"
    "cpuChargesStartValid (sm_start m)" "0 < sm_generation m"
    by (rule sampleCPUSession_commit [OF op False])
  note sv = bare_saved [OF inv(1) b(1,2)]
  note s = sampleCharges_valid [OF sv(3,4) b(5,8,4) inv(2) b(11) refl]
  show ?thesis unfolding b(13)
    by (intro bare_move [OF inv(1) sv(1,2) conjunct1 [OF s]]) (use s in auto)
qed (simp add: dbMove_refl [OF inv(1)])

lemma RecoverCPUSession_move:
  assumes inv: "dbInv ids (cs_db st)" and op: "RecoverCPUSession ids env st at = (st', s, e)"
  shows "dbMove ids (cs_db st) (cs_db st')"
proof (cases "cs_db st' = cs_db st")
  case False
  let ?i = "if cpuChargesTime at then None else Some ErrCPUChargesInvalid"
  obtain prior where o: "bareOpen ids env st ?i = Inr prior"
    using op False by (cases "bareOpen ids env st ?i") (auto simp: RecoverCPUSession_def split: prod.splits)
  have t: "cpuChargesTime at" using bareOpen_ok(1) [OF o] by (simp split: if_splits)
  have "s_Available prior \<and> \<not> tBefore at (the (s_ClockHighWater prior)) \<and>
      (\<exists>r nxt s1 e1. s_Session prior = Some r \<and> r_Status r = SActive \<and> recoverCharges prior at = Inr nxt \<and>
         commitCPUCharges env st (cs_db st) prior nxt = (st', s1, e1))"
    using op False o unfolding RecoverCPUSession_def
    by (auto split: if_splits sum.splits option.splits prod.splits)
  then obtain r nxt s1 e1 where n: "s_Available prior" "\<not> tBefore at (the (s_ClockHighWater prior))"
      "s_Session prior = Some r" "r_Status r = SActive" "recoverCharges prior at = Inr nxt"
      "commitCPUCharges env st (cs_db st) prior nxt = (st', s1, e1)" by blast
  note sv = bare_saved [OF inv o n(1)]
  have tt: "okTime at" "t_utc at" using t by simp_all
  note rv = recoverCharges_valid [OF sv(3,4) n(3,4) tt n(2,5)]
  have db: "cs_db st' = (cs_db st)\<lparr>db_charges := CellRow (s_Generation nxt) nxt\<rparr>"
    using commitCPUCharges_db(1) [OF n(6)] False by simp
  show ?thesis unfolding db
    by (intro bare_move [OF inv sv(1,2) conjunct1 [OF rv]]) (use rv n(2) in \<open>auto simp: tBefore_def\<close>)
qed (simp add: dbMove_refl [OF inv])

section \<open>The limited operations keep the invariant\<close>

lemma limited_saved:
  assumes inv: "dbInv ids (cs_db st)" and r: "admissionRead ids env (cs_db st) = (c, a, 16, None)"
  shows "db_version (cs_db st) = 16" "db_charges (cs_db st) = CellRow (s_Generation c) c"
    "db_admission (cs_db st) = CellRow (a_PolicyRevision a) a" "admissionInv ids c a"
    "t_ns (the (s_ClockHighWater c)) \<le> t_ns (the (a_ClockHighWater a))"
proof -
  note ok = admissionRead_ok [OF r refl]
  show "db_version (cs_db st) = 16" "db_charges (cs_db st) = CellRow (s_Generation c) c"
    "db_admission (cs_db st) = CellRow (a_PolicyRevision a) a" by (fact ok)+
  show i: "admissionInv ids c a" using inv ok by (auto simp: dbInv_def)
  obtain h where "a_ClockHighWater a = Some h" "t_ns (the (s_ClockHighWater c)) \<le> t_ns h"
    using admissionE [OF ok(4)] i by (metis admissionInv_def)
  then show "t_ns (the (s_ClockHighWater c)) \<le> t_ns (the (a_ClockHighWater a))" by simp
qed

lemma activateCPUChargeAdmission_move:
  assumes inv: "dbInv ids (cs_db st)" and op: "activateCPUChargeAdmission ids env st at limits = (st', s, e)"
  shows "dbMove ids (cs_db st) (cs_db st')"
proof (cases "cs_db st' = cs_db st")
  case False
  obtain c a v er where r: "admissionRead ids env (cs_db st) = (c, a, v, er)" by (metis prod_cases4)
  have g: "cpuAdmissionLimitsValid limits \<and> cpuAdmissionTime at \<and> er = None \<and> v = 15 \<and>
      \<not> (l_HourNS limits = 0 \<and> l_DayNS limits = 0) \<and> s_Status c \<noteq> SActive \<and>
      \<not> tBefore at (the (s_ClockHighWater c)) \<and>
      (\<exists>na c1 a1 e1. admissionActivated ids c at limits = Inr na \<and>
         admissionPublish ids env st (migrate16 at (cs_db st)) c c a na ''activate''
           (id_activate ids at limits) = (st', c1, a1, e1))"
    using op False r unfolding activateCPUChargeAdmission_def Let_def
    by (auto split: if_splits sum.splits option.splits prod.splits)
  then obtain na c1 a1 e1 where n: "admissionActivated ids c at limits = Inr na"
      "admissionPublish ids env st (migrate16 at (cs_db st)) c c a na ''activate''
         (id_activate ids at limits) = (st', c1, a1, e1)" by blast
  have r15: "admissionRead ids env (cs_db st) = (c, a, 15, None)" using r g by simp
  note v15 = admissionRead_v15 [OF r15 refl]
  have i: "chargesI64 c" "db_admission (cs_db st) = CellMissing" using inv v15 by (auto simp: dbInv_def)
  have na: "admissionInv ids c na" "a_PolicyRevision na = 0"
    by (rule admissionActivated_inv [OF v15(3) i(1) _ _ _ _ _ n(1)]; use g in blast)+
  have "cs_db st' = (migrate16 at (cs_db st))\<lparr>db_charges := CellRow (s_Generation c) c,
      db_admission := CellRow (a_PolicyRevision na) na\<rparr>"
    using admissionPublish_db [OF n(2)] False by simp
  then show ?thesis
    using v15 i na
    by (auto simp: dbMove_def dbInv_def clockLevel_def chargedLevel_def generationLevel_def policyLevel_def
        deadlineOf_def ledgerOf_def migrate16_def)
qed (simp add: dbMove_refl [OF inv])

lemma beginCPUSessionLimited_move:
  assumes inv: "dbInv ids (cs_db st)" "limitedI64 q"
    and op: "beginCPUSessionLimited ids env st q = (st', m, c', a', e)"
  shows "dbMove ids (cs_db st) (cs_db st')"
proof (cases "cs_db st' = cs_db st")
  case False
  obtain c a v er where r: "admissionRead ids env (cs_db st) = (c, a, v, er)" by (metis prod_cases4)
  have g: "validCPULimitedStart q \<and> er = None \<and> v = 16 \<and> st_ExpectedGeneration (q_Start q) = s_Generation c \<and>
      q_ExpectedPolicyRevision q = a_PolicyRevision a \<and>
      \<not> tBefore (st_ObservedAt (q_Start q)) (the (a_ClockHighWater a)) \<and> s_Status c \<noteq> SActive \<and>
      s_Generation c \<noteq> maxInt64 \<and> a_PolicyRevision a \<noteq> maxInt64 \<and>
      (\<exists>nc na c1 a1 e1. limitedBegin ids c a q = Inr (nc, na) \<and>
         admissionPublish ids env st (cs_db st) c nc a na ''begin'' (id_begin ids q) = (st', c1, a1, e1))"
    using op False r unfolding beginCPUSessionLimited_def Let_def
    by (auto split: if_splits sum.splits option.splits prod.splits)
  then obtain nc na c1 a1 e1 where n: "limitedBegin ids c a q = Inr (nc, na)"
      "admissionPublish ids env st (cs_db st) c nc a na ''begin'' (id_begin ids q) = (st', c1, a1, e1)"
    by blast
  have r16: "admissionRead ids env (cs_db st) = (c, a, 16, None)" using r g by simp
  note sv = limited_saved [OF inv(1) r16]
  have lb: "admissionInv ids nc na" "s_ChargedCPUNS nc = s_ChargedCPUNS c + prefixCharge (q_Start q)"
    "s_Generation nc = s_Generation c + 1" "a_PolicyRevision na = a_PolicyRevision a + 1"
    "ledgerStep c (st_ObservedAt (q_Start q)) nc"
    by (rule limitedBegin_inv [OF sv(4) _ _ inv(2) _ _ _ _ _ n(1)]; use g in blast)+
  have p: "0 \<le> prefixCharge (q_Start q)" by (auto simp: nonnegCPU_def split: option.splits)
  have db: "cs_db st' = (cs_db st)\<lparr>db_charges := CellRow (s_Generation nc) nc,
      db_admission := CellRow (a_PolicyRevision na) na\<rparr>"
    using admissionPublish_db [OF n(2)] False by simp
  show ?thesis unfolding db
    by (rule limited_move [OF sv(1-3) lb(1)])
      (use lb p g sv(5) in \<open>simp_all add: ledgerStep_def tBefore_def\<close>)
qed (simp add: dbMove_refl [OF inv(1)])

lemma sampleCPUSessionLimited_move:
  assumes inv: "dbInv ids (cs_db st)" "sampleI64 q"
    and op: "sampleCPUSessionLimited ids env st m q f = (st', c', a', e)"
  shows "dbMove ids (cs_db st) (cs_db st')"
proof (cases "cs_db st' = cs_db st")
  case False
  obtain c a v er where r: "admissionRead ids env (cs_db st) = (c, a, v, er)" by (metis prod_cases4)
  have g: "cpuChargesSampleValid q \<and> cpuAdmissionTime (sp_ObservedAt q) \<and> er = None \<and> v = 16 \<and>
      a_BeginRequest a \<noteq> None \<and> r_Status (the (s_Session c)) = SActive \<and>
      (\<exists>nc na c1 a1 e1. limitedSample ids c a q f = Inr (nc, na) \<and>
         admissionPublish ids env st (cs_db st) c nc a na ''sample'' (id_sample ids (lm_request m) q f) =
           (st', c1, a1, e1))"
    using op False r unfolding sampleCPUSessionLimited_def Let_def
    by (auto split: if_splits sum.splits option.splits prod.splits)
  then obtain nc na c1 a1 e1 where n: "limitedSample ids c a q f = Inr (nc, na)"
      "admissionPublish ids env st (cs_db st) c nc a na ''sample'' (id_sample ids (lm_request m) q f) =
         (st', c1, a1, e1)"
    by blast
  have r16: "admissionRead ids env (cs_db st) = (c, a, 16, None)" using r g by simp
  note sv = limited_saved [OF inv(1) r16]
  have vc: "validCPUCharges c" "chargesI64 c" "validAdmissionBegin a c"
    using sv(4) by (simp_all add: admissionInv_def validCPUAdmission_def validAdmissionHeader_def)
  obtain rr where rr: "s_Session c = Some rr" "r_Status rr = SActive"
    using vc(3) g by (cases "s_Session c") (auto simp: validAdmissionBegin_def split: option.splits)
  have ls: "admissionInv ids nc na \<and> a_PolicyRevision na = a_PolicyRevision a \<and>
    s_ChargedCPUNS c \<le> s_ChargedCPUNS nc \<and> s_Generation nc = s_Generation c \<and>
    sampleCharges c q f = Inr (nc, sampleProblemAt rr q (the (s_ClockHighWater c)))"
    using limitedSample_inv [OF sv(4) rr _ inv(2) _ n(1)] g by blast
  then have "ledgerStep c (maxTime (the (s_ClockHighWater c)) (sp_ObservedAt q)) nc"
    using sampleCharges_valid [OF vc(1,2) rr _ inv(2) _ refl] g by blast
  moreover have "cs_db st' = (cs_db st)\<lparr>db_charges := CellRow (s_Generation nc) nc,
      db_admission := CellRow (a_PolicyRevision na) na\<rparr>"
    using admissionPublish_db [OF n(2)] False by simp
  ultimately show ?thesis
    using limited_move [OF sv(1-3), of ids nc na] ls by (simp add: ledgerStep_def)
qed (simp add: dbMove_refl [OF inv(1)])

lemma recoverCPUSessionLimited_move:
  assumes inv: "dbInv ids (cs_db st)"
    and op: "recoverCPUSessionLimited ids env st at = (st', c', a', e)"
  shows "dbMove ids (cs_db st) (cs_db st')"
proof (cases "cs_db st' = cs_db st")
  case False
  obtain c a v er where r: "admissionRead ids env (cs_db st) = (c, a, v, er)" by (metis prod_cases4)
  have g: "cpuAdmissionTime at \<and> er = None \<and> v = 16 \<and> s_Status c = SActive \<and>
      \<not> tBefore at (the (a_ClockHighWater a)) \<and>
      (\<exists>nc na c1 a1 e1. limitedRecover ids c a at = Inr (nc, na) \<and>
         admissionPublish ids env st (cs_db st) c nc a na ''recover''
           (id_recover ids (s_Generation c) (a_PolicyRevision a) at) = (st', c1, a1, e1))"
    using op False r unfolding recoverCPUSessionLimited_def Let_def
    by (auto split: if_splits sum.splits option.splits prod.splits)
  then obtain nc na c1 a1 e1 where n: "limitedRecover ids c a at = Inr (nc, na)"
      "admissionPublish ids env st (cs_db st) c nc a na ''recover''
         (id_recover ids (s_Generation c) (a_PolicyRevision a) at) = (st', c1, a1, e1)"
    by blast
  have r16: "admissionRead ids env (cs_db st) = (c, a, 16, None)" using r g by simp
  note sv = limited_saved [OF inv r16]
  have lr: "admissionInv ids nc na \<and> s_ChargedCPUNS nc = s_ChargedCPUNS c \<and> ledgerStep c at nc \<and>
    s_Generation nc = s_Generation c \<and> a_PolicyRevision na = a_PolicyRevision a"
    using limitedRecover_inv [OF sv(4) _ _ _ n(1)] g by blast
  have db: "cs_db st' = (cs_db st)\<lparr>db_charges := CellRow (s_Generation nc) nc,
      db_admission := CellRow (a_PolicyRevision na) na\<rparr>"
    using admissionPublish_db [OF n(2)] False by simp
  show ?thesis unfolding db
    by (rule limited_move [OF sv(1-3) conjunct1 [OF lr]])
      (use lr g sv(5) in \<open>simp_all add: ledgerStep_def tBefore_def\<close>)
qed (simp add: dbMove_refl [OF inv])

lemma openCPUTrackingGap_move:
  assumes inv: "dbInv ids (cs_db st)"
    and op: "openCPUTrackingGap ids env st q = (st', c', a', e)"
  shows "dbMove ids (cs_db st) (cs_db st')"
proof (cases "cs_db st' = cs_db st")
  case False
  obtain c a v er where r: "admissionRead ids env (cs_db st) = (c, a, v, er)" by (metis prod_cases4)
  have g: "validCPUGapRequest q \<and> er = None \<and> v = 16 \<and> g_ExpectedGeneration q = s_Generation c \<and>
      g_ExpectedPolicyRevision q = a_PolicyRevision a \<and>
      \<not> tBefore (g_ObservedAt q) (the (a_ClockHighWater a)) \<and> a_PolicyRevision a \<noteq> maxInt64 \<and>
      (\<exists>nc na c1 a1 e1. limitedGap ids c a q = Inr (nc, na) \<and>
         admissionPublish ids env st (cs_db st) c nc a na ''gap'' (id_gap ids q) = (st', c1, a1, e1))"
    using op False r unfolding openCPUTrackingGap_def Let_def
    by (auto split: if_splits sum.splits option.splits prod.splits)
  then obtain nc na c1 a1 e1 where n: "limitedGap ids c a q = Inr (nc, na)"
      "admissionPublish ids env st (cs_db st) c nc a na ''gap'' (id_gap ids q) = (st', c1, a1, e1)"
    by blast
  have r16: "admissionRead ids env (cs_db st) = (c, a, 16, None)" using r g by simp
  note sv = limited_saved [OF inv r16]
  have lg: "admissionInv ids nc na" "s_ChargedCPUNS nc = s_ChargedCPUNS c"
    "s_Generation nc = s_Generation c" "a_PolicyRevision na = a_PolicyRevision a + 1"
    "dueMono (s_NextAllowedAt c) (s_NextAllowedAt nc)"
    "t_ns (the (s_ClockHighWater c)) \<le> t_ns (the (s_ClockHighWater nc))"
    by (rule limitedGap_inv [OF sv(4) _ _ _ _ _ n(1)]; use g in blast)+
  have db: "cs_db st' = (cs_db st)\<lparr>db_charges := CellRow (s_Generation nc) nc,
      db_admission := CellRow (a_PolicyRevision na) na\<rparr>"
    using admissionPublish_db [OF n(2)] False by simp
  show ?thesis unfolding db by (rule limited_move [OF sv(1-3) lg(1)]) (use lg in simp_all)
qed (simp add: dbMove_refl [OF inv])

section \<open>Runs of the store\<close>

text \<open>One call of an operation, with any typed request and any answers of the environment, or a
  close and reopen of the store, which clears the latch and gives the store a new identity.\<close>

inductive ledger_step :: "admission_ids \<Rightarrow> cpustore \<Rightarrow> cpustore \<Rightarrow> bool" for ids where
  activate: "ActivateCPUCharges ids env st at = (st', s, e) \<Longrightarrow> ledger_step ids st st'"
| start: "startI64 q \<Longrightarrow> BeginCPUSession ids env st q = (st', m, s, e) \<Longrightarrow> ledger_step ids st st'"
| sample: "sampleI64 q \<Longrightarrow> sampleCPUSession ids env st mk q f = (st', s, e) \<Longrightarrow> ledger_step ids st st'"
| recover: "RecoverCPUSession ids env st at = (st', s, e) \<Longrightarrow> ledger_step ids st st'"
| admission: "activateCPUChargeAdmission ids env st at l = (st', a, e) \<Longrightarrow> ledger_step ids st st'"
| limited_start: "limitedI64 lq \<Longrightarrow> beginCPUSessionLimited ids env st lq = (st', lm, s, a, e) \<Longrightarrow>
    ledger_step ids st st'"
| limited_sample: "sampleI64 q \<Longrightarrow> sampleCPUSessionLimited ids env st lmk q f = (st', s, a, e) \<Longrightarrow>
    ledger_step ids st st'"
| limited_recover: "recoverCPUSessionLimited ids env st at = (st', s, a, e) \<Longrightarrow> ledger_step ids st st'"
| gap: "openCPUTrackingGap ids env st g = (st', s, a, e) \<Longrightarrow> ledger_step ids st st'"
| reopen: "ledger_step ids st (st\<lparr>cs_id := i, cs_readOnly := ro, cs_refused := False\<rparr>)"

abbreviation storeInv :: "admission_ids \<Rightarrow> cpustore \<Rightarrow> bool" where
  "storeInv ids st \<equiv> dbInv ids (cs_db st)"

lemma ledger_step_move:
  assumes "ledger_step ids st st'" "storeInv ids st"
  shows "dbMove ids (cs_db st) (cs_db st')"
  using assms
proof (cases rule: ledger_step.cases)
  case (reopen i ro)
  then show ?thesis using assms(2) by (simp add: dbMove_refl)
qed (auto intro: ActivateCPUCharges_move BeginCPUSession_move sampleCPUSession_move RecoverCPUSession_move
    activateCPUChargeAdmission_move beginCPUSessionLimited_move sampleCPUSessionLimited_move
    recoverCPUSessionLimited_move openCPUTrackingGap_move)

interpretation charged_ledger: monotone_ledger "ledger_step ids" "storeInv ids"
  "\<lambda>st. chargedLevel (cs_db st)" for ids
  by unfold_locales (auto dest: ledger_step_move simp: dbMove_def)

interpretation clock_ledger: monotone_ledger "ledger_step ids" "storeInv ids"
  "\<lambda>st. clockLevel (cs_db st)" for ids
  by unfold_locales (auto dest: ledger_step_move simp: dbMove_def)

interpretation generation_ledger: monotone_ledger "ledger_step ids" "storeInv ids"
  "\<lambda>st. generationLevel (cs_db st)" for ids
  by unfold_locales (auto dest: ledger_step_move simp: dbMove_def)

interpretation policy_ledger: monotone_ledger "ledger_step ids" "storeInv ids"
  "\<lambda>st. policyLevel (cs_db st)" for ids
  by unfold_locales (auto dest: ledger_step_move simp: dbMove_def)

lemma run_deadline:
  assumes "(ledger_step ids)\<^sup>*\<^sup>* st st'" "storeInv ids st"
  shows "dueMono (deadlineOf (cs_db st)) (deadlineOf (cs_db st'))"
proof (rule charged_ledger.run_keeps [OF assms, where P = "\<lambda>u. dueMono (deadlineOf (cs_db st)) (deadlineOf (cs_db u))"])
  fix a b
  assume "storeInv ids a" "dueMono (deadlineOf (cs_db st)) (deadlineOf (cs_db a))" "ledger_step ids a b"
  then show "dueMono (deadlineOf (cs_db st)) (deadlineOf (cs_db b))"
    using ledger_step_move [of ids a b] dueMono_trans by (auto simp: dbMove_def)
qed simp

section \<open>Exact retries\<close>

text \<open>The answers of a retry: what the call asked before its transaction ended is answered the same,
  and the end of the transaction succeeds.\<close>

definition retryEnv :: "ledger_env \<Rightarrow> ledger_env" where
  "retryEnv env = env\<lparr>ctx_before := None, commit_err := None, ctx_after := None\<rparr>"

lemma retryEnv_simps [simp]:
  "q_err (retryEnv env) = q_err env" "ctx_query (retryEnv env) = ctx_query env"
  "ctx_nil (retryEnv env) = ctx_nil env" "ctx_entry (retryEnv env) = ctx_entry env"
  "begin_err (retryEnv env) = begin_err env" "ctx_before (retryEnv env) = None"
  "commit_err (retryEnv env) = None" "ctx_after (retryEnv env) = None"
  by (simp_all add: retryEnv_def)

lemma finish_retry [simp]: "finishCPUChargesView (retryEnv env) s out = (s, out)"
  by (simp add: finishCPUChargesView_def)

text \<open>The saved successor of a ledger that was read is read back.\<close>

lemma schema_frame:
  "cpuChargesSchema (retryEnv env) (db\<lparr>db_charges := x\<rparr>) = cpuChargesSchema env db"
proof -
  have f: "db_app (db\<lparr>db_charges := x\<rparr>) = db_app db" "db_version (db\<lparr>db_charges := x\<rparr>) = db_version db"
    "db_ledgerShape (db\<lparr>db_charges := x\<rparr>) = db_ledgerShape db"
    "db_migrations (db\<lparr>db_charges := x\<rparr>) = db_migrations db"
    "db_chargesShape (db\<lparr>db_charges := x\<rparr>) = db_chargesShape db"
    "db_chargesExtra (db\<lparr>db_charges := x\<rparr>) = db_chargesExtra db"
    "db_admissionShadow (db\<lparr>db_charges := x\<rparr>) = db_admissionShadow db"
    "db_admissionShape (db\<lparr>db_charges := x\<rparr>) = db_admissionShape db"
    "db_admissionExtra (db\<lparr>db_charges := x\<rparr>) = db_admissionExtra db"
    by simp_all
  have e: "cpuChargesStorageError (retryEnv env) = cpuChargesStorageError env"
    "shapeQuery (retryEnv env) = shapeQuery env"
    by (auto simp: fun_eq_iff cpuChargesStorageError_def shapeQuery_def)
  show ?thesis
    unfolding cpuChargesSchema_def cpuChargeAdmissionSchema_def f e retryEnv_simps ..
qed

lemma read_back:
  assumes r: "readCPUCharges ids env db = (c, None)" "db_version db = 15"
    and n: "validCPUCharges n" "s_ActivatedAt n = s_ActivatedAt c"
  shows "readCPUCharges ids (retryEnv env) (db\<lparr>db_charges := CellRow (s_Generation n) n\<rparr>) = (n, None)"
proof -
  let ?db = "db\<lparr>db_charges := CellRow (s_Generation n) n\<rparr>"
  note ok = readCPUCharges_ok [OF r(1)]
  obtain v where v: "cpuChargesSchema env db = Inr v"
    using r by (cases "cpuChargesSchema env db") (simp_all add: readCPUCharges_def)
  have v15: "v = 15" using cpuChargesSchema_version(1) [OF v] r(2) by simp
  have s: "cpuChargesSchema (retryEnv env) ?db = Inr 15" using v v15 by (simp add: schema_frame)
  have cell: "db_charges db = CellRow (s_Generation c) c" using ok r(2) by simp
  have q: "q_err env 9 = None"
    using r v v15 by (simp add: readCPUCharges_def split: option.splits)
  obtain m where m: "appliedQuery env 10 db 15 = Inr m" "mg_typed m"
      "unixNano (the (s_ActivatedAt c)) = mg_applied m"
    using r v v15 q cell by (simp add: readCPUCharges_def split: sum.splits if_splits)
  have "appliedQuery (retryEnv env) 10 ?db 15 = Inr m"
    using m(1) by (cases "q_err env 10") (simp_all add: appliedQuery_def appliedAt_def)
  then show ?thesis using s q m n by (simp add: readCPUCharges_def)
qed

lemma bare_reopen:
  assumes o: "bareOpen ids env st None = Inr c" "db_version (cs_db st) = 15"
    and n: "validCPUCharges n" "s_ActivatedAt n = s_ActivatedAt c"
    and st': "cs_db st' = (cs_db st)\<lparr>db_charges := CellRow (s_Generation n) n\<rparr>"
      "cs_refused st' = cs_refused st" "cs_readOnly st' = cs_readOnly st" "cs_open st' = cs_open st"
  shows "bareOpen ids (retryEnv env) st' None = Inr n"
proof -
  note b = bareOpen_ok [OF o(1)]
  have e: "\<not> ctx_nil env" "ctx_entry env = None" "begin_err env = None" "q_err env 14 = None"
    using o(1) b by (simp_all add: bareOpen_def cpuChargesWriter_def bareCPUAuthority_def
        split: option.splits if_splits)
  show ?thesis
    using read_back [OF b(6) o(2) n] b e st' o(2)
    by (simp add: bareOpen_def cpuChargesWriter_def bareCPUAuthority_def)
qed

lemma commit_frame:
  assumes "commitCPUCharges env st db prior n = (st', s, e)"
  shows "cs_readOnly st' = cs_readOnly st" "cs_open st' = cs_open st"
  using assms by (auto simp: commitCPUCharges_def Let_def split: option.splits sum.splits)

lemma begin_effects:
  assumes op: "BeginCPUSession ids env st start = (st', m, s, e)" and ch: "cs_db st' \<noteq> cs_db st"
  shows "cs_refused st' = cs_refused st" "cs_readOnly st' = cs_readOnly st" "cs_open st' = cs_open st"
    "cs_id st' = cs_id st"
proof -
  have "\<exists>prior n s1 e1. commitCPUCharges env st (cs_db st) prior n = (st', s1, e1)"
    using op ch unfolding BeginCPUSession_def Let_def
    by (auto split: if_splits sum.splits option.splits prod.splits)
  then show "cs_refused st' = cs_refused st" "cs_readOnly st' = cs_readOnly st" "cs_open st' = cs_open st"
    "cs_id st' = cs_id st"
    using commitCPUCharges_db(2,3) commit_frame by metis+
qed

lemma sample_effects:
  assumes op: "sampleCPUSession ids env st m q f = (st', s, e)" and ch: "cs_db st' \<noteq> cs_db st"
  shows "cs_refused st' = cs_refused st" "cs_readOnly st' = cs_readOnly st" "cs_open st' = cs_open st"
    "cs_id st' = cs_id st"
proof -
  have "\<exists>prior n s1 e1. commitCPUCharges env st (cs_db st) prior n = (st', s1, e1)"
    using op ch unfolding sampleCPUSession_def Let_def
    by (auto split: if_splits sum.splits option.splits prod.splits)
  then show "cs_refused st' = cs_refused st" "cs_readOnly st' = cs_readOnly st" "cs_open st' = cs_open st"
    "cs_id st' = cs_id st"
    using commitCPUCharges_db(2,3) commit_frame by metis+
qed

lemma sameCPUStart_refl [simp]: "sameCPUStart a a"
  by (simp add: sameCPUStart_def tEqual_def)

lemma sameCPUSample_refl [simp]: "sameCPUSample a a"
  by (simp add: sameCPUSample_def tEqual_def)

lemma begin_retry_reads:
  assumes inv: "storeInv ids st" "startI64 start"
    and op: "BeginCPUSession ids env st start = (st', m, s, e)" "cs_db st' \<noteq> cs_db st"
  obtains n r where "bareOpen ids (retryEnv env) st' None = Inr n" "ledgerOf (cs_db st') = Some n"
    "s_Generation n = st_ExpectedGeneration start + 1" "0 \<le> st_ExpectedGeneration start"
    "s_Generation n \<le> maxInt64" "s_Session n = Some r" "r_Start r = start" "s_Available n"
    "cpuChargesStartValid start"
proof -
  obtain prior n where b: "bareOpen ids env st None = Inr prior" "s_Available prior"
    "cpuChargesStartValid start" "st_ExpectedGeneration start = s_Generation prior"
    "\<not> tBefore (st_ObservedAt start) (the (s_ClockHighWater prior))" "s_Generation prior \<noteq> maxInt64"
    "beginCharges prior start = Inr n" "validCPUCharges n"
    "cs_db st' = (cs_db st)\<lparr>db_charges := CellRow (s_Generation n) n\<rparr>"
    by (rule BeginCPUSession_commit [OF op])
  note sv = bare_saved [OF inv(1) b(1,2)]
  note bv = beginCharges_valid [OF sv(3,4) b(3) inv(2) b(4,6,5,7)]
  obtain r where r: "s_Session n = Some r" "r_Start r = start" using bv by blast
  have act: "s_ActivatedAt n = s_ActivatedAt prior" "chargesI64 n" using bv by (simp_all add: ledgerStep_def)
  have "bareOpen ids (retryEnv env) st' None = Inr n"
    by (rule bare_reopen [OF b(1) sv(1) b(8) act(1) b(9) begin_effects(1-3) [OF op]])
  moreover have "ledgerOf (cs_db st') = Some n" by (simp add: ledgerOf_def b(9))
  moreover have "s_Available n" using b(8) by (simp add: validCPUCharges_def validChargesHeader_def)
  ultimately show ?thesis
    using that [of n r] bv b(3,4) r act(2) by (simp add: cpuChargesStartValid_def chargesI64_def i64_def)
qed

lemma sample_retry_reads:
  assumes inv: "storeInv ids st" "sampleI64 q"
    and op: "sampleCPUSession ids env st m q f = (st', s, e)" "cs_db st' \<noteq> cs_db st"
  obtains n r where "bareOpen ids (retryEnv env) st' None = Inr n" "ledgerOf (cs_db st') = Some n"
    "s_Generation n = sm_generation m" "s_Session n = Some r" "sameCPUStart (sm_start m) (r_Start r)"
    "s_Available n" "r_LastSample r = Some q" "r_LastSampleFinal r = f" "r_LastOrdinal r = sp_Ordinal q"
    "sm_store m = cs_id st'" "cpuChargesStartValid (sm_start m)" "0 < sm_generation m"
    "cpuChargesSampleValid q"
proof -
  obtain prior r0 n problem where b: "bareOpen ids env st None = Inr prior" "s_Available prior"
    "sm_store m = cs_id st" "cpuChargesSampleValid q" "s_Session prior = Some r0"
    "sm_generation m = s_Generation prior" "sameCPUStart (sm_start m) (r_Start r0)"
    "r_Status r0 = SActive" "sp_Ordinal q = add64 (r_LastOrdinal r0) 1" "r_LastOrdinal r0 \<noteq> maxInt64"
    "sampleCharges prior q f = Inr (n, problem)" "validCPUCharges n"
    "cs_db st' = (cs_db st)\<lparr>db_charges := CellRow (s_Generation n) n\<rparr>"
    "cpuChargesStartValid (sm_start m)" "0 < sm_generation m"
    by (rule sampleCPUSession_commit [OF op])
  note sv = bare_saved [OF inv(1) b(1,2)]
  note sm = sampleCharges_valid [OF sv(3,4) b(5,8,4) inv(2) b(11) refl]
  obtain r where r: "s_Session n = Some r" "r_Start r = r_Start r0" "r_LastSample r = Some q"
      "r_LastSampleFinal r = f" "r_LastOrdinal r = sp_Ordinal q" using sm by blast
  have act: "s_ActivatedAt n = s_ActivatedAt prior" "s_Generation n = s_Generation prior"
    using sm by (simp_all add: ledgerStep_def)
  have "bareOpen ids (retryEnv env) st' None = Inr n"
    by (rule bare_reopen [OF b(1) sv(1) b(12) act(1) b(13) sample_effects(1-3) [OF op]])
  moreover have "ledgerOf (cs_db st') = Some n" by (simp add: ledgerOf_def b(13))
  moreover have "s_Available n" using b(12) by (simp add: validCPUCharges_def validChargesHeader_def)
  ultimately show ?thesis
    using that [of n r] b(3,4,6,7,14,15) r act(2) sample_effects(4) [OF op] by simp
qed

end
