(* ===== verification/CPU_Ledger_Example.thy ===== *)
theory CPU_Ledger_Example
  imports CPU_Store_Laws
begin

text \<open>
  A small run of the charge ledger on which the properties are exercised: a store at schema 14 is
  activated, a session is begun and sampled once.
\<close>

section \<open>An example run\<close>

definition exIds :: admission_ids where
  "exIds = \<lparr>id_state = (\<lambda>c. ''state''), id_gap = (\<lambda>q. ''gap''), id_activate = (\<lambda>t l. ''activate''),
     id_begin = (\<lambda>q. ''begin''), id_sample = (\<lambda>q s f. ''sample''), id_recover = (\<lambda>g r t. ''recover'')\<rparr>"

definition exTime :: "int \<Rightarrow> gotime" where
  "exTime n = \<lparr>t_ns = 1700000000000000000 + n * second_ns, t_utc = True\<rparr>"

definition exMigrations :: "migration_row list" where
  "exMigrations = map (\<lambda>i. \<lparr>mg_version = int (Suc i), mg_name = migrationNames ! i, mg_typed = True,
     mg_applied = 1\<rparr>) [0..<14]"

definition exStore14 :: cpustore where
  "exStore14 = \<lparr>cs_id = 1, cs_open = True, cs_readOnly = False, cs_refused = False,
     cs_db = \<lparr>db_app = applicationID, db_version = 14, db_ledgerShape = True,
       db_migrations = exMigrations, db_chargesShape = NoTable, db_chargesExtra = False,
       db_admissionShadow = False, db_admissionShape = NoTable, db_admissionExtra = False,
       db_charges = CellMissing, db_admission = CellMissing\<rparr>\<rparr>"

definition exEnv :: ledger_env where
  "exEnv = \<lparr>ctx_nil = False, ctx_entry = None, begin_err = None, query_err = None,
     ctx_query = None, json_fits = True, exec_err = None, ctx_before = None, commit_err = None,
     commit_applied = True, ctx_after = None, q_err = (\<lambda>_. None), mig_err = None,
     adm_exec_err = None, adm_json_fits = True, conn_err = None\<rparr>"

definition exStore15 :: cpustore where
  "exStore15 = fst (ActivateCPUCharges exIds exEnv exStore14 (exTime 0))"

definition exStart :: CPUSessionStart where
  "exStart = \<lparr>st_ExpectedGeneration = 0, st_Nonce = replicate 64 CHR ''a'',
     st_Instance = replicate 32 CHR ''b'', st_ObservedAt = exTime 1, st_SelfCPUNS = Some 5000000,
     st_Reason = RNone\<rparr>"

definition exMarker :: CPUSessionMarker where
  "exMarker = \<lparr>sm_store = 1, sm_generation = 1, sm_start = exStart\<rparr>"

definition exStoreBegun :: cpustore where
  "exStoreBegun = fst (BeginCPUSession exIds exEnv exStore15 exStart)"

definition exSample :: CPUSessionSample where
  "exSample = \<lparr>sp_Ordinal = 1, sp_ObservedAt = exTime 11, sp_SelfCPUNS = Some 205000000,
     sp_ElapsedNS = Some 10000000000, sp_Reason = RNone\<rparr>"

definition exStoreSampled :: cpustore where
  "exStoreSampled = fst (sampleCPUSession exIds exEnv exStoreBegun exMarker exSample False)"

lemma ex_inv14: "storeInv exIds exStore14"
  by (simp add: dbInv_def exStore14_def)

lemma ex_step15: "ledger_step exIds exStore14 exStore15"
proof -
  obtain s e where "ActivateCPUCharges exIds exEnv exStore14 (exTime 0) = (exStore15, s, e)"
    by (metis exStore15_def prod.collapse)
  then show ?thesis by (rule ledger_step.activate)
qed

lemma ex_call_begin:
  "BeginCPUSession exIds exEnv exStore15 exStart =
     (exStoreBegun, fst (snd (BeginCPUSession exIds exEnv exStore15 exStart)),
      fst (snd (snd (BeginCPUSession exIds exEnv exStore15 exStart))),
      snd (snd (snd (BeginCPUSession exIds exEnv exStore15 exStart))))"
  by (simp add: exStoreBegun_def)

lemma ex_call_sample:
  "sampleCPUSession exIds exEnv exStoreBegun exMarker exSample False =
     (exStoreSampled, fst (snd (sampleCPUSession exIds exEnv exStoreBegun exMarker exSample False)),
      snd (snd (sampleCPUSession exIds exEnv exStoreBegun exMarker exSample False)))"
  by (simp add: exStoreSampled_def)

lemma ex_step_begun: "ledger_step exIds exStore15 exStoreBegun"
  by (rule ledger_step.start [OF _ ex_call_begin]) code_simp

lemma ex_step_sampled: "ledger_step exIds exStoreBegun exStoreSampled"
  by (rule ledger_step.sample [OF _ ex_call_sample]) code_simp

lemma ex_run: "(ledger_step exIds)\<^sup>*\<^sup>* exStore14 exStoreSampled"
  by (rule converse_rtranclp_into_rtranclp [OF ex_step15 converse_rtranclp_into_rtranclp
      [OF ex_step_begun r_into_rtranclp [of "ledger_step exIds", OF ex_step_sampled]]])

lemma ex_inv: "storeInv exIds exStore15" "storeInv exIds exStoreBegun" "storeInv exIds exStoreSampled"
  using ex_inv14 ex_step15 ex_step_begun ex_step_sampled charged_ledger.step_inv by blast+

end
