(* ===== verification/CPU_Ledger_Guarantees.thy ===== *)
theory CPU_Ledger_Guarantees
  imports CPU_Ledger_Example
begin

text \<open>
  What the charge ledger and its admission record promise, for every run of the store and every
  answer of the environment. The example run of
  \<^verbatim>\<open>CPU_Ledger_Example.thy\<close> exercises them.
\<close>

section \<open>Runs\<close>

text \<open>Property C1. In every run of the store, through any operations with any requests, failures of
  the database, cancellations, uncertain commits and reopenings, the saved records stay valid, and
  the total charge, the clock, the generation, the policy revision and the deadline of the next
  admission never move back.\<close>

theorem ledger_runs:
  assumes "(ledger_step ids)\<^sup>*\<^sup>* st st'" "dbInv ids (cs_db st)"
  shows "dbInv ids (cs_db st') \<and> chargedLevel (cs_db st) \<le> chargedLevel (cs_db st') \<and>
    clockLevel (cs_db st) \<le> clockLevel (cs_db st') \<and>
    generationLevel (cs_db st) \<le> generationLevel (cs_db st') \<and>
    policyLevel (cs_db st) \<le> policyLevel (cs_db st') \<and>
    dueMono (deadlineOf (cs_db st)) (deadlineOf (cs_db st'))"
  using charged_ledger.run_inv [OF assms] charged_ledger.run_level [OF assms]
    clock_ledger.run_level [OF assms] generation_ledger.run_level [OF assms]
    policy_ledger.run_level [OF assms] run_deadline [OF assms] by simp_all

theorem ledger_runs_witness:
  "(ledger_step exIds)\<^sup>*\<^sup>* exStore14 exStoreSampled \<and> dbInv exIds (cs_db exStoreSampled) \<and>
   chargedLevel (cs_db exStore14) \<le> chargedLevel (cs_db exStoreSampled)"
  using ledger_runs [OF ex_run ex_inv14] ex_run by blast

text \<open>Property C2. The admission record of every reachable store accounts for the whole ledger: in the
  UTC hour and the UTC day that contain its clock, the charges before activation, the charges
  assigned to earlier periods and the charges assigned to the current one add up to the ledger's
  total, and the record's clock is not behind the ledger's.\<close>

theorem admission_conservation:
  assumes "(ledger_step ids)\<^sup>*\<^sup>* st st'" "dbInv ids (cs_db st)"
    and "15 < db_version (cs_db st')"
  shows "\<exists>c a h. ledgerOf (cs_db st') = Some c \<and> db_admission (cs_db st') = CellRow (a_PolicyRevision a) a \<and>
    a_ClockHighWater a = Some h \<and> t_ns (the (s_ClockHighWater c)) \<le> t_ns h \<and>
    (\<forall>p. p = a_Hour a \<or> p = a_Day a \<longrightarrow>
       a_ActivationBaselineCPUNS a + p_RetiredAssignedCPUNS p + p_AssignedCPUNS p = s_ChargedCPUNS c \<and>
       p_StartNS p \<le> t_ns h \<and> t_ns h < p_NextBoundaryNS p)"
proof -
  obtain c a where ca: "db_charges (cs_db st') = CellRow (s_Generation c) c"
      "db_admission (cs_db st') = CellRow (a_PolicyRevision a) a" "admissionInv ids c a"
    using charged_ledger.run_inv [OF assms(1,2)] assms(3) by (auto simp: dbInv_def)
  have v: "validCPUAdmission ids a c" "chargesI64 c" using ca(3) by (simp_all add: admissionInv_def)
  obtain t h where th: "a_ClockHighWater a = Some h" "t_ns (the (s_ClockHighWater c)) \<le> t_ns h"
    "periodSum (a_ActivationBaselineCPUNS a) (a_Hour a) (s_ChargedCPUNS c)"
    "periodSum (a_ActivationBaselineCPUNS a) (a_Day a) (s_ChargedCPUNS c)"
    "p_StartNS (a_Hour a) = t_ns h div hour_ns * hour_ns"
    "p_NextBoundaryNS (a_Hour a) = p_StartNS (a_Hour a) + hour_ns"
    "p_StartNS (a_Day a) = t_ns h div day_ns * day_ns"
    "p_NextBoundaryNS (a_Day a) = p_StartNS (a_Day a) + day_ns"
    by (rule admissionE [OF v])
  have "p_StartNS (a_Hour a) \<le> t_ns h \<and> t_ns h < p_NextBoundaryNS (a_Hour a)"
    "p_StartNS (a_Day a) \<le> t_ns h \<and> t_ns h < p_NextBoundaryNS (a_Day a)"
    using slotOf_contains [of hour_ns h] slotOf_contains [of day_ns h] th(5-8) by simp_all
  with th ca show ?thesis
    by (intro exI [of _ c] exI [of _ a] exI [of _ h]) (auto simp: ledgerOf_def periodSum_def)
qed

definition exLimits :: CPUChargeLimits where
  "exLimits = \<lparr>l_HourNS = 36000000000, l_DayNS = 864000000000\<rparr>"

definition exStore16 :: cpustore where
  "exStore16 = fst (activateCPUChargeAdmission exIds exEnv exStore15 (exTime 1) exLimits)"

lemma ex_step16: "ledger_step exIds exStore15 exStore16"
proof -
  obtain s e where "activateCPUChargeAdmission exIds exEnv exStore15 (exTime 1) exLimits = (exStore16, s, e)"
    by (metis exStore16_def prod.collapse)
  then show ?thesis by (rule ledger_step.admission)
qed

lemma ex_run16: "(ledger_step exIds)\<^sup>*\<^sup>* exStore14 exStore16"
  by (rule converse_rtranclp_into_rtranclp [OF ex_step15 r_into_rtranclp [of "ledger_step exIds", OF ex_step16]])

lemma ex_version16: "db_version (cs_db exStore16) = 16"
  by code_simp

theorem admission_conservation_witness:
  "\<exists>c a. ledgerOf (cs_db exStore16) = Some c \<and> db_admission (cs_db exStore16) = CellRow (a_PolicyRevision a) a \<and>
     a_ActivationBaselineCPUNS a + p_RetiredAssignedCPUNS (a_Hour a) + p_AssignedCPUNS (a_Hour a) =
       s_ChargedCPUNS c"
  using admission_conservation [OF ex_run16 ex_inv14] ex_version16 by fastforce

section \<open>Exact retries\<close>

text \<open>A session start that reached the database, even when its commit was reported as
  failed, is applied once: retrying the same request changes nothing, returns the saved ledger with
  the outcome of the start, and hands out no marker.\<close>

theorem begin_retry:
  assumes "dbInv ids (cs_db st)" "startI64 start"
    and "BeginCPUSession ids env st start = (st', m, s, e)" "cs_db st' \<noteq> cs_db st"
  shows "BeginCPUSession ids (retryEnv env) st' start =
    (st', None, the (ledgerOf (cs_db st')),
     if startProblem start \<noteq> RNone then Some ErrCPUChargesUnknown else None)"
proof -
  obtain n r where n: "bareOpen ids (retryEnv env) st' None = Inr n" "ledgerOf (cs_db st') = Some n"
    "s_Generation n = st_ExpectedGeneration start + 1" "0 \<le> st_ExpectedGeneration start"
    "s_Generation n \<le> maxInt64" "s_Session n = Some r" "r_Start r = start" "s_Available n"
    "cpuChargesStartValid start"
    by (rule begin_retry_reads [OF assms])
  have "sub64 (s_Generation n) 1 = st_ExpectedGeneration start" "0 < s_Generation n"
    using n(3-5) by (simp_all add: sub64_def i64_def)
  then show ?thesis using n by (simp add: BeginCPUSession_def)
qed

lemma ex_begin_changes: "cs_db exStoreBegun \<noteq> cs_db exStore15"
  by code_simp

theorem begin_retry_witness:
  "BeginCPUSession exIds (retryEnv exEnv) exStoreBegun exStart =
     (exStoreBegun, None, the (ledgerOf (cs_db exStoreBegun)), None)"
proof -
  have "startI64 exStart" "startProblem exStart = RNone" by code_simp+
  then show ?thesis using begin_retry [OF ex_inv(1) _ ex_call_begin ex_begin_changes] by simp
qed

text \<open>A sample that reached the database is charged once: retrying the same ordinal,
  observation and finality changes nothing and returns the saved ledger with its outcome.\<close>

theorem sample_retry:
  assumes "dbInv ids (cs_db st)" "sampleI64 q"
    and "sampleCPUSession ids env st m q f = (st', s, e)" "cs_db st' \<noteq> cs_db st"
  shows "sampleCPUSession ids (retryEnv env) st' m q f =
    (st', the (ledgerOf (cs_db st')), sampleOutcome (the (s_Session (the (ledgerOf (cs_db st'))))))"
proof -
  obtain n r where n: "bareOpen ids (retryEnv env) st' None = Inr n" "ledgerOf (cs_db st') = Some n"
    "s_Generation n = sm_generation m" "s_Session n = Some r" "sameCPUStart (sm_start m) (r_Start r)"
    "s_Available n" "r_LastSample r = Some q" "r_LastSampleFinal r = f" "r_LastOrdinal r = sp_Ordinal q"
    "sm_store m = cs_id st'" "cpuChargesStartValid (sm_start m)" "0 < sm_generation m"
    "cpuChargesSampleValid q"
    by (rule sample_retry_reads [OF assms])
  then show ?thesis by (simp add: sampleCPUSession_def)
qed

lemma ex_sample_changes: "cs_db exStoreSampled \<noteq> cs_db exStoreBegun"
  by code_simp

theorem sample_retry_witness:
  "sampleCPUSession exIds (retryEnv exEnv) exStoreSampled exMarker exSample False =
     (exStoreSampled, the (ledgerOf (cs_db exStoreSampled)), None)"
proof -
  have "sampleI64 exSample" "sampleOutcome (the (s_Session (the (ledgerOf (cs_db exStoreSampled))))) = None"
    by code_simp+
  then show ?thesis using sample_retry [OF ex_inv(2) _ ex_call_sample ex_sample_changes] by simp
qed

section \<open>Uncertain publication and authority\<close>

text \<open>The operations of a store whose latch is set.\<close>

lemma refused_bare:
  assumes "cs_refused st"
  shows "fst (ActivateCPUCharges ids env st at) = st" "fst (BeginCPUSession ids env st start) = st"
    "fst (sampleCPUSession ids env st m q f) = st" "fst (RecoverCPUSession ids env st at) = st"
proof -
  have "\<exists>x. bareOpen ids env st inp = Inl x" for inp
    using assms by (auto simp: bareOpen_def cpuChargesWriter_def split: option.splits)
  then obtain x where x: "bareOpen ids env st inp = Inl (x inp)" for inp by metis
  show "fst (ActivateCPUCharges ids env st at) = st" "fst (BeginCPUSession ids env st start) = st"
    "fst (sampleCPUSession ids env st m q f) = st" "fst (RecoverCPUSession ids env st at) = st"
    unfolding ActivateCPUCharges_def BeginCPUSession_def sampleCPUSession_def RecoverCPUSession_def x
    by (simp_all split: prod.splits)
qed

lemma refused_limited:
  assumes "cs_refused st"
  shows "fst (activateCPUChargeAdmission ids env st at l) = st"
    "fst (beginCPUSessionLimited ids env st lq) = st"
    "fst (sampleCPUSessionLimited ids env st lm q f) = st"
    "fst (recoverCPUSessionLimited ids env st at) = st" "fst (openCPUTrackingGap ids env st g) = st"
proof -
  have "cpuAdmissionOperation env st True \<noteq> None"
    using assms by (auto simp: cpuAdmissionOperation_def split: option.splits)
  then obtain e where e: "cpuAdmissionOperation env st True = Some e" by blast
  show "fst (activateCPUChargeAdmission ids env st at l) = st"
    "fst (beginCPUSessionLimited ids env st lq) = st"
    "fst (sampleCPUSessionLimited ids env st lm q f) = st"
    "fst (recoverCPUSessionLimited ids env st at) = st" "fst (openCPUTrackingGap ids env st g) = st"
    unfolding activateCPUChargeAdmission_def beginCPUSessionLimited_def sampleCPUSessionLimited_def
      recoverCPUSessionLimited_def openCPUTrackingGap_def e by simp_all
qed

text \<open>A call of any limited operation that writes, with the store it leaves and the error it reports.\<close>

definition limitedCall :: "admission_ids \<Rightarrow> ledger_env \<Rightarrow> cpustore \<Rightarrow> cpustore \<Rightarrow> err option \<Rightarrow> bool" where
  "limitedCall ids env st st' e \<longleftrightarrow>
     (\<exists>at l a. activateCPUChargeAdmission ids env st at l = (st', a, e)) \<or>
     (\<exists>q m c a. beginCPUSessionLimited ids env st q = (st', m, c, a, e)) \<or>
     (\<exists>m q f c a. sampleCPUSessionLimited ids env st m q f = (st', c, a, e)) \<or>
     (\<exists>at c a. recoverCPUSessionLimited ids env st at = (st', c, a, e)) \<or>
     (\<exists>q c a. openCPUTrackingGap ids env st q = (st', c, a, e))"

text \<open>A limited call that changed the store went through one publication, and reports its error.\<close>

definition publishedBy :: "admission_ids \<Rightarrow> ledger_env \<Rightarrow> cpustore \<Rightarrow> cpustore \<Rightarrow> err option \<Rightarrow> bool" where
  "publishedBy ids env st st' e \<longleftrightarrow> (\<exists>db c nc a na op i c1 a1 e1.
     admissionPublish ids env st db c nc a na op i = (st', c1, a1, e1) \<and> (e1 \<noteq> None \<longrightarrow> e = e1))"

lemma publishedByI: "admissionPublish ids env st db c nc a na op i = (st', c1, a1, e1) \<Longrightarrow> (e1 \<noteq> None \<Longrightarrow> e = e1) \<Longrightarrow>
    publishedBy ids env st st' e"
  unfolding publishedBy_def by blast

lemma activate_published:
  assumes "activateCPUChargeAdmission ids env st at l = (st', a, e)" "st' \<noteq> st"
  shows "publishedBy ids env st st' e"
  using assms unfolding activateCPUChargeAdmission_def Let_def
  by (fastforce intro: publishedByI split: if_splits sum.splits option.splits prod.splits)

lemma begin_published:
  assumes "beginCPUSessionLimited ids env st q = (st', m, c, a, e)" "st' \<noteq> st"
  shows "publishedBy ids env st st' e"
    "e \<noteq> None \<Longrightarrow> errIs (the e) ErrCPUChargeAdmissionPublication \<Longrightarrow> m \<noteq> None"
  using assms unfolding beginCPUSessionLimited_def Let_def
  by (fastforce intro: publishedByI split: if_splits sum.splits option.splits prod.splits)+

lemma sample_published:
  assumes "sampleCPUSessionLimited ids env st m q f = (st', c, a, e)" "st' \<noteq> st"
  shows "publishedBy ids env st st' e"
  using assms unfolding sampleCPUSessionLimited_def Let_def
  by (fastforce intro: publishedByI split: if_splits sum.splits option.splits prod.splits)

lemma recover_published:
  assumes "recoverCPUSessionLimited ids env st at = (st', c, a, e)" "st' \<noteq> st"
  shows "publishedBy ids env st st' e"
  using assms unfolding recoverCPUSessionLimited_def Let_def
  by (fastforce intro: publishedByI split: if_splits sum.splits option.splits prod.splits)

lemma gap_published:
  assumes "openCPUTrackingGap ids env st q = (st', c, a, e)" "st' \<noteq> st"
  shows "publishedBy ids env st st' e"
  using assms unfolding openCPUTrackingGap_def Let_def
  by (fastforce intro: publishedByI split: if_splits sum.splits option.splits prod.splits)

lemma limited_published:
  "limitedCall ids env st st' e \<Longrightarrow> st' \<noteq> st \<Longrightarrow> publishedBy ids env st st' e"
  unfolding limitedCall_def
  by (elim disjE exE) (erule (1) activate_published begin_published(1) sample_published recover_published gap_published)+

lemma uncertain_publication:
  assumes "publishedBy ids env st st' e" "st' \<noteq> st" "commit_err env \<noteq> None \<or> ctx_after env \<noteq> None"
  shows "cs_refused st' \<and> optIs e ErrCPUChargeAdmissionPublication"
proof -
  obtain db c nc a na op i c1 a1 e1 where p:
      "admissionPublish ids env st db c nc a na op i = (st', c1, a1, e1)" "e1 \<noteq> None \<longrightarrow> e = e1"
    using assms(1) unfolding publishedBy_def by blast
  have "joinOpt (commit_err env) (ctx_after env) \<noteq> None"
    using assms(3) by (auto simp: joinOpt_def split: option.splits)
  then obtain cause where "joinOpt (commit_err env) (ctx_after env) = Some cause" by blast
  then have "cs_refused st' \<and> e1 = Some (PublicationError op i cause)"
    using p(1) assms(2) by (auto simp: admissionPublish_def Let_def split: option.splits sum.splits if_splits)
  then show ?thesis using p(2) by auto
qed

text \<open>Property C23. A limited operation of any kind (activating the record, starting, sampling, finishing
  or recovering a session, opening a tracking gap) that got as far as its commit, so that the store
  changed by the transaction or by the latch, may see the commit report an error or the context end
  right after it. Then the caller is told that the publication is uncertain, a start keeps
  its marker, and the store is latched: no later operation of any kind changes it, whatever the
  environment answers, until it is reopened.\<close>

theorem uncertain_publication_freezes:
  assumes "limitedCall ids env st st' e" "st' \<noteq> st"
    and "commit_err env \<noteq> None \<or> ctx_after env \<noteq> None"
  shows "cs_refused st' \<and> optIs e ErrCPUChargeAdmissionPublication \<and>
    (\<forall>q m c a. beginCPUSessionLimited ids env st q = (st', m, c, a, e) \<longrightarrow> m \<noteq> None) \<and>
    fst (ActivateCPUCharges ids env' st' at) = st' \<and> fst (BeginCPUSession ids env' st' start) = st' \<and>
    fst (sampleCPUSession ids env' st' bm smp fin) = st' \<and> fst (RecoverCPUSession ids env' st' at) = st' \<and>
    fst (activateCPUChargeAdmission ids env' st' at l) = st' \<and>
    fst (beginCPUSessionLimited ids env' st' lq) = st' \<and>
    fst (sampleCPUSessionLimited ids env' st' lm smp fin) = st' \<and>
    fst (recoverCPUSessionLimited ids env' st' at) = st' \<and> fst (openCPUTrackingGap ids env' st' g) = st'"
proof -
  note u = uncertain_publication [OF limited_published [OF assms(1,2)] assms(2,3)]
  then have r: "cs_refused st'" and o: "e \<noteq> None" "errIs (the e) ErrCPUChargeAdmissionPublication"
    by (auto simp: optIs_def split: option.splits)
  have "\<forall>q m c a. beginCPUSessionLimited ids env st q = (st', m, c, a, e) \<longrightarrow> m \<noteq> None"
    using begin_published(2) [OF _ assms(2) o] by blast
  then show ?thesis using u by (simp add: refused_bare [OF r] refused_limited [OF r])
qed

definition exLimitedStart :: CPULimitedSessionStart where
  "exLimitedStart = \<lparr>q_Start = exStart\<lparr>st_ObservedAt := exTime 2\<rparr>, q_ExpectedPolicyRevision = 0,
     q_Limits = exLimits\<rparr>"

definition exCall :: "ledger_env \<Rightarrow> cpustore \<times> CPULimitedSessionMarker option \<times> limited_result" where
  "exCall env = beginCPUSessionLimited exIds env exStore16 exLimitedStart"

definition exEnvLost :: ledger_env where
  "exEnvLost = exEnv\<lparr>commit_err := Some (StorageFailure ''disk I/O error''), commit_applied := True\<rparr>"

lemma exCall_eta:
  "beginCPUSessionLimited exIds env exStore16 exLimitedStart =
     (fst (exCall env), fst (snd (exCall env)), fst (snd (snd (exCall env))),
      fst (snd (snd (snd (exCall env)))), snd (snd (snd (snd (exCall env)))))"
  by (simp add: exCall_def)

lemma ex_lost_changes: "fst (exCall exEnvLost) \<noteq> exStore16" "commit_err exEnvLost \<noteq> None"
  by code_simp+

lemma ex_lost_call: "limitedCall exIds exEnvLost exStore16 (fst (exCall exEnvLost)) (snd (snd (snd (snd (exCall exEnvLost)))))"
  unfolding limitedCall_def using exCall_eta [of exEnvLost] by blast

theorem uncertain_publication_freezes_witness:
  "cs_refused (fst (exCall exEnvLost)) \<and>
   fst (RecoverCPUSession exIds exEnv (fst (exCall exEnvLost)) (exTime 9)) = fst (exCall exEnvLost)"
  using uncertain_publication_freezes [OF ex_lost_call ex_lost_changes(1)] ex_lost_changes(2) by blast

text \<open>Once the admission record is activated, the bare operations change nothing: every
  change of the ledger goes through a limited operation, which updates both records together.\<close>

theorem bare_operations_need_no_policy:
  assumes "15 < db_version (cs_db st)"
  shows "fst (ActivateCPUCharges ids env st at) = st \<and> fst (BeginCPUSession ids env st start) = st \<and>
    fst (sampleCPUSession ids env st m q f) = st \<and> fst (RecoverCPUSession ids env st at) = st"
proof -
  have "\<exists>x. bareOpen ids env st inp = Inl x" for inp
    using assms by (auto simp: bareOpen_def bareCPUAuthority_def split: option.splits)
  then obtain x where x: "bareOpen ids env st inp = Inl (x inp)" for inp by metis
  show ?thesis
    unfolding ActivateCPUCharges_def BeginCPUSession_def sampleCPUSession_def RecoverCPUSession_def x
    by (simp split: prod.splits)
qed

theorem bare_operations_need_no_policy_witness:
  "fst (BeginCPUSession exIds exEnv exStore16 exStart) = exStore16"
  using bare_operations_need_no_policy [of exStore16] ex_version16 by simp

section \<open>Accounting\<close>

lemma unknown_deadline:
  assumes v: "validCPUCharges s" and st: "s_Status s = SUnknown \<or> s_Status s = SRecoveredUnknown"
  obtains r closed d where "s_Session s = Some r" "r_ClosedAt r = Some closed"
    "s_NextAllowedAt s = Some d" "t_ns closed + hour_ns \<le> t_ns d"
proof -
  have g: "s_Generation s \<noteq> 0" using v st by (auto simp: validCPUCharges_def validChargesUntracked_def)
  then obtain r where r: "s_Session s = Some r"
    using v by (cases "s_Session s") (simp_all add: validCPUCharges_def)
  have "r_Status r = s_Status s" using v g r by (simp add: validCPUCharges_def validChargesSession_def)
  then have c: "validChargesClosed s r" "r_Status r = SUnknown \<or> r_Status r = SRecoveredUnknown"
    using v g r st by (auto simp: validCPUCharges_def)
  then obtain closed where cl: "r_ClosedAt r = Some closed"
    by (cases "r_ClosedAt r") (simp_all add: validChargesClosed_def)
  then have "unknownDebt s r closed" using c by (auto simp: validChargesClosed_def)
  then obtain d where "s_NextAllowedAt s = Some d" "\<not> tBefore d (tAdd closed hour_ns)"
    by (cases "s_NextAllowedAt s") (simp_all add: unknownDebt_def)
  then show ?thesis using that r cl by (simp add: tBefore_def)
qed

text \<open>Property C4. Sampling an active session of a valid ledger charges exactly the growth of the
  cumulative reading since the last one, and the session's total is the new reading; an observation
  that cannot be trusted (rolled-back clock, missing or negative reading, no elapsed time, a reading
  that went back) charges nothing and closes the session as unknown with a deadline at least one
  hour after its closure. The result is always a valid ledger.\<close>

theorem sample_accounting:
  assumes "validCPUCharges s" "chargesI64 s" "s_Session s = Some r" "r_Status r = SActive"
    and "cpuChargesSampleValid q" "sampleI64 q" "sampleCharges s q f = Inr (n, problem)"
  shows "validCPUCharges n \<and> s_Generation n = s_Generation s \<and>
    (if problem = RNone
     then s_ChargedCPUNS n = s_ChargedCPUNS s + (the (sp_SelfCPUNS q) - r_SessionChargedCPUNS r) \<and>
       r_SessionChargedCPUNS (the (s_Session n)) = the (sp_SelfCPUNS q) \<and>
       s_Status n = (if f then SFinished else SActive)
     else s_ChargedCPUNS n = s_ChargedCPUNS s \<and> s_Status n = SUnknown \<and>
       (\<exists>closed d. r_ClosedAt (the (s_Session n)) = Some closed \<and> s_NextAllowedAt n = Some d \<and>
          t_ns closed + hour_ns \<le> t_ns d))"
proof -
  note sv = sampleCharges_valid [OF assms refl]
  have v: "validCPUCharges n" using sv by (simp add: ledgerStep_def)
  show ?thesis
  proof (cases "problem = RNone")
    case True
    then show ?thesis using sv v by auto
  next
    case False
    then have st: "s_Status n = SUnknown" using sv by simp
    obtain r' closed d where "s_Session n = Some r'" "r_ClosedAt r' = Some closed"
      "s_NextAllowedAt n = Some d" "t_ns closed + hour_ns \<le> t_ns d"
      by (rule unknown_deadline [OF v disjI1 [OF st]])
    then show ?thesis using sv v False st by auto
  qed
qed

definition exLedger :: CPUChargeState where
  "exLedger = the (ledgerOf (cs_db exStoreBegun))"

theorem sample_accounting_witness:
  "s_ChargedCPUNS (fst (projr (sampleCharges exLedger exSample False))) = 205000000"
proof -
  have h: "validCPUCharges exLedger" "chargesI64 exLedger"
      "s_Session exLedger = Some (the (s_Session exLedger))"
      "r_Status (the (s_Session exLedger)) = SActive" "cpuChargesSampleValid exSample"
      "sampleI64 exSample"
      "sampleCharges exLedger exSample False =
         Inr (fst (projr (sampleCharges exLedger exSample False)), RNone)"
    by code_simp+
  have "s_ChargedCPUNS exLedger = 5000000" "r_SessionChargedCPUNS (the (s_Session exLedger)) = 5000000"
      "the (sp_SelfCPUNS exSample) = 205000000"
    by code_simp+
  then show ?thesis using sample_accounting [OF h] by simp
qed

text \<open>What a closure and a start do to the count of recovered sessions and to the deadline.\<close>

lemma close_recovered:
  assumes "cpuChargesClose s at st reason rec = Inr n" "i64 (s_RecoveredSessions s)"
  shows "s_RecoveredSessions n = s_RecoveredSessions s + (if rec then 1 else 0)"
proof -
  have "rec \<Longrightarrow> add64 (s_RecoveredSessions s) 1 = s_RecoveredSessions s + 1"
    using assms by (auto simp: cpuChargesClose_def i64_def add64_def split: if_splits)
  then show ?thesis
    using assms(1) by (auto simp: cpuChargesClose_def cpuChargesDebt_def Let_def split: if_splits sum.splits)
qed

lemma start_recovered:
  assumes "startSession s start = Inr n" "i64 (s_RecoveredSessions s)"
  shows "s_RecoveredSessions n = s_RecoveredSessions s"
proof (cases "startProblem start = RNone")
  case True
  then show ?thesis
    using assms(1) by (auto simp: startSession_def cpuChargesDebt_def Let_def split: if_splits sum.splits prod.splits)
next
  case False
  then show ?thesis using assms close_recovered [of _ "st_ObservedAt start" SUnknown] by (fastforce simp: startSession_def Let_def)
qed

lemma begin_recovers:
  assumes v: "validCPUCharges s" "chargesI64 s" and start: "cpuChargesStartValid start"
    and h: "\<not> tBefore (st_ObservedAt start) (the (s_ClockHighWater s))" and n: "beginCharges s start = Inr n"
    and mono: "\<And>m. startSession m start = Inr n \<Longrightarrow> closedLedger m (st_ObservedAt start) \<Longrightarrow> chargesI64 m \<Longrightarrow>
      s_Generation m = s_Generation s \<Longrightarrow> dueMono (s_NextAllowedAt m) (s_NextAllowedAt n)"
  shows "s_RecoveredSessions n = s_RecoveredSessions s + (if s_Status s = SActive then 1 else 0)"
    "s_Status s = SActive \<Longrightarrow> \<exists>d. s_NextAllowedAt n = Some d \<and> t_ns (st_ObservedAt start) + hour_ns \<le> t_ns d"
proof -
  let ?at = "st_ObservedAt start"
  have at: "okTime ?at" "t_utc ?at" "t_ns (the (s_ClockHighWater s)) \<le> t_ns ?at"
    using start h by (simp_all add: cpuChargesStartValid_def tBefore_def)
  have ir: "i64 (s_RecoveredSessions s)" using v(2) by (simp add: chargesI64_def)
  show "s_RecoveredSessions n = s_RecoveredSessions s + (if s_Status s = SActive then 1 else 0)"
    "s_Status s = SActive \<Longrightarrow> \<exists>d. s_NextAllowedAt n = Some d \<and> t_ns ?at + hour_ns \<le> t_ns d"
  proof (atomize (full), cases "s_Status s = SActive")
    case False
    have "\<not> (case s_Session s of None \<Rightarrow> False | Some r \<Rightarrow> r_Status r = SActive)"
      using status_session [OF v(1)] False by (auto split: option.splits)
    then have "startSession s start = Inr n" using n by (simp add: beginCharges_def)
    then show "s_RecoveredSessions n = s_RecoveredSessions s + (if s_Status s = SActive then 1 else 0) \<and>
        (s_Status s = SActive \<longrightarrow> (\<exists>d. s_NextAllowedAt n = Some d \<and> t_ns ?at + hour_ns \<le> t_ns d))"
      using start_recovered [OF _ ir] False by simp
  next
    case True
    then obtain r where r: "s_Session s = Some r" "r_Status r = SActive" using status_session [OF v(1)] by blast
    then obtain m where m: "cpuChargesClose s ?at SRecoveredUnknown RInterruptedSession True = Inr m"
      "startSession m start = Inr n" using n by (auto simp: beginCharges_def split: sum.splits)
    note rl = recovered_ledger [OF v r at m(1)]
    have rm: "s_RecoveredSessions m = s_RecoveredSessions s + 1" using close_recovered [OF m(1) ir] by simp
    have i: "i64 (s_ClosedSessions s)" "s_UnknownTailSessions s = s_ClosedSessions s"
      using v by (auto simp: chargesI64_def validCPUCharges_def validChargesHeader_def)
    obtain due where due: "s_NextAllowedAt m = due" "dueStep (s_NextAllowedAt s) ?at hour_ns due"
      by (rule cpuChargesClose_unknown [OF m(1) disjI2 [OF refl] r(1) at(1) i(1) ir i(2)]) simp
    then obtain d where d: "s_NextAllowedAt m = Some d" "t_ns ?at + hour_ns \<le> t_ns d"
      by (cases due) (auto simp: dueStep_def)
    have "i64 (s_RecoveredSessions m)" using rl(2) by (simp add: chargesI64_def)
    then have "s_RecoveredSessions n = s_RecoveredSessions m" using start_recovered [OF m(2)] by blast
    then show "s_RecoveredSessions n = s_RecoveredSessions s + (if s_Status s = SActive then 1 else 0) \<and>
        (s_Status s = SActive \<longrightarrow> (\<exists>d. s_NextAllowedAt n = Some d \<and> t_ns ?at + hour_ns \<le> t_ns d))"
      using True rm d mono [OF m(2) rl(1-3)] by (cases "s_NextAllowedAt n") (auto simp: dueMono_def)
  qed
qed

text \<open>The deadline of an active session is not before the backoff of its prefix.\<close>

lemma prefix_deadline:
  assumes "validCPUCharges n" "s_Session n = Some r" "r_Status r = SActive" "r_LastSample r = None"
    "0 < fst (CPUChargesPrefixWait (r_InitialPrefixChargeNS r))"
  shows "\<exists>d. s_NextAllowedAt n = Some d \<and>
     t_ns (st_ObservedAt (r_Start r)) + fst (CPUChargesPrefixWait (r_InitialPrefixChargeNS r)) \<le> t_ns d"
proof -
  have "validChargesFeedback n r" using assms(1-3) by (auto simp: validCPUCharges_def validChargesUntracked_def split: if_splits)
  then show ?thesis
    using assms(3-5) by (auto simp: validChargesFeedback_def Let_def tBefore_def split: prod.splits option.splits)
qed

lemma start_unsampled:
  assumes "startSession s start = Inr n"
  obtains r where "s_Session n = Some r" "r_Start r = start" "r_LastSample r = None"
  using assms
  by (auto simp: startSession_def cpuChargesClose_def cpuChargesDebt_def freshSession_def Let_def
      split: if_splits sum.splits prod.splits)

lemma begin_unsampled:
  assumes "beginCharges s start = Inr n"
  obtains r where "s_Session n = Some r" "r_Start r = start" "r_LastSample r = None"
  using assms start_unsampled unfolding beginCharges_def by (auto split: sum.splits if_splits)

lemma closed_count:
  assumes "validCPUCharges s" "chargesI64 s"
  shows "s_ClosedSessions s = s_Generation s - (if s_Status s = SActive then 1 else 0)"
proof (cases "s_Generation s = 0")
  case True
  then show ?thesis using assms by (simp add: validCPUCharges_def validChargesUntracked_def)
next
  case False
  then obtain r where r: "s_Session s = Some r" "r_Status r = s_Status s"
    using assms by (auto simp: validCPUCharges_def validChargesSession_def split: option.splits)
  have "0 \<le> s_Generation s" "i64 (s_Generation s)"
    using assms by (simp_all add: validCPUCharges_def validChargesHeader_def chargesI64_def)
  then have "sub64 (s_Generation s) 1 = s_Generation s - 1" by (simp add: sub64_def i64_def)
  then show ?thesis
    using assms False r by (auto simp: validCPUCharges_def validChargesActive_def validChargesClosed_def)
qed

lemma begin_facts:
  assumes "validCPUCharges s" "chargesI64 s" "cpuChargesStartValid start" "startI64 start"
    and "st_ExpectedGeneration start = s_Generation s" "s_Generation s \<noteq> maxInt64"
    and "\<not> tBefore (st_ObservedAt start) (the (s_ClockHighWater s))" "beginCharges s start = Inr n"
  shows "s_RecoveredSessions n = s_RecoveredSessions s + (if s_Status s = SActive then 1 else 0)"
    "prefixCharge start = (if startProblem start = RNone then the (st_SelfCPUNS start) else 0)"
    "s_Status s = SActive \<or> startProblem start \<noteq> RNone \<or> 0 < the (st_SelfCPUNS start) \<Longrightarrow>
      \<exists>d. s_NextAllowedAt n = Some d \<and> t_ns (st_ObservedAt start) +
        (if s_Status s = SActive \<or> startProblem start \<noteq> RNone then hour_ns
         else min hour_ns (100 * the (st_SelfCPUNS start))) \<le> t_ns d"
proof -
  note b = beginCharges_valid [OF assms]
  have inp: "cpuChargesInputCPU (st_SelfCPUNS start) (st_Reason start)"
    using assms(3) by (simp add: cpuChargesStartValid_def)
  have pre: "prefixCharge start = (if startProblem start = RNone then the (st_SelfCPUNS start) else 0)"
    using startProblem_nonneg [OF inp] by (auto simp: nonnegCPU_def split: option.splits if_splits)
  have v: "validCPUCharges n" using b by (simp add: ledgerStep_def)
  have mono: "dueMono (s_NextAllowedAt m) (s_NextAllowedAt n)"
    if "startSession m start = Inr n" "closedLedger m (st_ObservedAt start)" "chargesI64 m" "s_Generation m = s_Generation s" for m
    using startSession_valid(1) [OF that(2,3) assms(3,4) refl _ _ that(1)] that(4) assms(5,6) by (simp add: ledgerStep_def)
  have rec: "s_RecoveredSessions n = s_RecoveredSessions s + (if s_Status s = SActive then 1 else 0)"
    by (rule begin_recovers(1) [OF assms(1-3,7,8)]) (rule mono)
  have recDebt: "\<exists>d. s_NextAllowedAt n = Some d \<and> t_ns (st_ObservedAt start) + hour_ns \<le> t_ns d"
    if "s_Status s = SActive"
    by (rule begin_recovers(2) [OF assms(1-3,7,8) _ that]) (rule mono)
  obtain r where r: "s_Session n = Some r" "r_Start r = start" "r_LastSample r = None"
    using begin_unsampled [OF assms(8)] .
  have rv: "validChargesSession n r" "validChargesPrefix r" "r_Status r \<noteq> SActive \<Longrightarrow> validChargesClosed n r"
    using v r b by (auto simp: validCPUCharges_def validChargesUntracked_def split: if_splits)
  then have rs: "r_Status r = s_Status n" by (simp add: validChargesSession_def)
  have debt: "\<exists>d. s_NextAllowedAt n = Some d \<and> t_ns (st_ObservedAt start) +
        (if s_Status s = SActive \<or> startProblem start \<noteq> RNone then hour_ns
         else min hour_ns (100 * the (st_SelfCPUNS start))) \<le> t_ns d"
    if pos: "s_Status s = SActive \<or> startProblem start \<noteq> RNone \<or> 0 < the (st_SelfCPUNS start)"
  proof (cases "s_Status s = SActive")
    case True
    then show ?thesis using recDebt by simp
  next
    case idle: False
    show ?thesis
    proof (cases "startProblem start = RNone")
      case False
      then have st: "s_Status n = SUnknown" using b by simp
      obtain r1 closed d where d: "s_Session n = Some r1" "r_ClosedAt r1 = Some closed"
          "s_NextAllowedAt n = Some d" "t_ns closed + hour_ns \<le> t_ns d"
        by (rule unknown_deadline [OF v disjI1 [OF st]])
      then have "t_ns (st_ObservedAt start) \<le> t_ns closed"
        using rv(3) rs st r by (auto simp: validChargesClosed_def tBefore_def)
      then show ?thesis using False d by simp
    next
      case True
      have "r_InitialPrefixChargeNS r = prefixCharge start" "0 \<le> prefixCharge start"
        using rv(2) r(2) by (auto simp: validChargesPrefix_def nonnegCPU_def split: option.splits)
      then have "fst (CPUChargesPrefixWait (r_InitialPrefixChargeNS r)) = min hour_ns (100 * the (st_SelfCPUNS start))"
        using pre True CPUChargesPrefixWait_exact [of "prefixCharge start"] by simp
      moreover have "r_Status r = SActive" using rs b True by simp
      ultimately show ?thesis
        using prefix_deadline [OF v r(1) _ r(3)] r(2) pos idle True by auto
    qed
  qed
  show "s_RecoveredSessions n = s_RecoveredSessions s + (if s_Status s = SActive then 1 else 0)"
    "prefixCharge start = (if startProblem start = RNone then the (st_SelfCPUNS start) else 0)"
    "s_Status s = SActive \<or> startProblem start \<noteq> RNone \<or> 0 < the (st_SelfCPUNS start) \<Longrightarrow>
      \<exists>d. s_NextAllowedAt n = Some d \<and> t_ns (st_ObservedAt start) +
        (if s_Status s = SActive \<or> startProblem start \<noteq> RNone then hour_ns
         else min hour_ns (100 * the (st_SelfCPUNS start))) \<le> t_ns d"
    using rec pre debt by blast+
qed

text \<open>Property C12. Starting a session charges exactly its observed prefix and opens the next
  generation. A session that was still active is first closed as recovered: without a charge, but
  counted as a recovered session and with a deadline at least one hour after the start. A start
  without a usable reading is closed as unknown at once, with the same debt; a usable start puts
  off the next admission by one hundred times its prefix, at most an hour. The result is always a
  valid ledger whose deadline did not move back.\<close>

theorem begin_accounting:
  assumes "validCPUCharges s" "chargesI64 s" "cpuChargesStartValid start" "startI64 start"
    and "st_ExpectedGeneration start = s_Generation s" "s_Generation s \<noteq> maxInt64"
    and "\<not> tBefore (st_ObservedAt start) (the (s_ClockHighWater s))" "beginCharges s start = Inr n"
  shows "validCPUCharges n \<and> s_Generation n = s_Generation s + 1 \<and>
    s_ClockHighWater n = Some (st_ObservedAt start) \<and>
    s_ChargedCPUNS n = s_ChargedCPUNS s +
      (if startProblem start = RNone then the (st_SelfCPUNS start) else 0) \<and>
    s_Status n = (if startProblem start = RNone then SActive else SUnknown) \<and>
    s_RecoveredSessions n = s_RecoveredSessions s + (if s_Status s = SActive then 1 else 0) \<and>
    s_ClosedSessions n = s_ClosedSessions s + (if s_Status s = SActive then 1 else 0) +
      (if startProblem start = RNone then 0 else 1) \<and>
    dueMono (s_NextAllowedAt s) (s_NextAllowedAt n) \<and>
    (let debt = (if s_Status s = SActive \<or> startProblem start \<noteq> RNone then hour_ns
                 else min hour_ns (100 * the (st_SelfCPUNS start)))
     in 0 < debt \<longrightarrow> (\<exists>d. s_NextAllowedAt n = Some d \<and> t_ns (st_ObservedAt start) + debt \<le> t_ns d))"
proof -
  note b = beginCharges_valid [OF assms] and f = begin_facts [OF assms]
  have "s_ClosedSessions n = s_ClosedSessions s + (if s_Status s = SActive then 1 else 0) +
      (if startProblem start = RNone then 0 else 1)"
    using closed_count [OF assms(1,2)] closed_count [of n] b by (auto simp: ledgerStep_def)
  then show ?thesis
    using b f by (auto simp: ledgerStep_def Let_def)
qed

definition exRestart :: CPUSessionStart where
  "exRestart = exStart\<lparr>st_ExpectedGeneration := 1, st_Nonce := replicate 64 CHR ''c'', st_ObservedAt := exTime 30\<rparr>"

theorem begin_accounting_witness:
  "s_RecoveredSessions (projr (beginCharges exLedger exRestart)) = 1"
proof -
  have h: "validCPUCharges exLedger" "chargesI64 exLedger" "cpuChargesStartValid exRestart" "startI64 exRestart"
      "st_ExpectedGeneration exRestart = s_Generation exLedger" "s_Generation exLedger \<noteq> maxInt64"
      "\<not> tBefore (st_ObservedAt exRestart) (the (s_ClockHighWater exLedger))"
      "beginCharges exLedger exRestart = Inr (projr (beginCharges exLedger exRestart))"
    by code_simp+
  have "s_Status exLedger = SActive" "s_RecoveredSessions exLedger = 0" by code_simp+
  then show ?thesis using begin_accounting [OF h] by simp
qed

text \<open>A sample under a policy does to the ledger what the bare sample does, whenever the
  admission clock and the ledger's clock are together, and a limited start is the bare start of a
  ledger without an active session.\<close>

theorem limited_transitions_agree:
  assumes "s_ClockHighWater c = Some h"
    and "case s_Session d of None \<Rightarrow> True | Some r \<Rightarrow> r_Status r \<noteq> SActive"
  shows "cpuLimitedSampleState c q f h =
      (case sampleCharges c q f of Inl e \<Rightarrow> Inl e | Inr (n, _) \<Rightarrow> Inr n) \<and>
    cpuLimitedBeginState d start = beginCharges d start"
  using assms(2) cpuLimitedSampleState_eq [OF assms(1)]
  by (auto simp: cpuLimitedBeginState_eq beginCharges_def split: option.splits)

theorem limited_transitions_agree_witness:
  "cpuLimitedSampleState exLedger exSample False (exTime 1) =
     (case sampleCharges exLedger exSample False of Inl e \<Rightarrow> Inl e | Inr (n, _) \<Rightarrow> Inr n) \<and>
   cpuLimitedBeginState (chargesActivated (exTime 0)) exStart =
     beginCharges (chargesActivated (exTime 0)) exStart"
proof -
  have "s_ClockHighWater exLedger = Some (exTime 1)"
    "case s_Session (chargesActivated (exTime 0)) of None \<Rightarrow> True | Some r \<Rightarrow> r_Status r \<noteq> SActive"
    by code_simp+
  from limited_transitions_agree [OF this] show ?thesis .
qed

end
