(* ===== verification/Worker_Waits.thy ===== *)
theory Worker_Waits
  imports CPU_Window
begin

text \<open>
  The waits of the worker loop: \<^verbatim>\<open>src/internal/worker/cpu_feedback.go\<close> (how waits on the wall clock
  and on the elapsed clock are combined, and the live gate over the saved CPU window) and
  \<^verbatim>\<open>src/internal/worker/cpu_budget.go\<close> (the live observation of one worker window).
\<close>

section \<open>Combining waits\<close>

record dispatchWait =
  dw_duration :: int
  dw_reason :: string

definition noWait :: dispatchWait where
  "noWait = \<lparr>dw_duration = 0, dw_reason = []\<rparr>"

definition waitAdd :: "dispatchWait \<Rightarrow> int \<Rightarrow> string \<Rightarrow> dispatchWait" where
  "waitAdd w remaining reason =
     (if remaining > dw_duration w then \<lparr>dw_duration = remaining, dw_reason = reason\<rparr> else w)"

definition waitWall :: "dispatchWait \<Rightarrow> gotime \<Rightarrow> gotime \<Rightarrow> string \<Rightarrow> dispatchWait" where
  "waitWall w deadline now reason =
     (if \<not> isZero deadline then waitAdd w (tSub (toUTC deadline) (toUTC now)) reason else w)"

definition waitElapsed :: "dispatchWait \<Rightarrow> gotime \<Rightarrow> gotime \<Rightarrow> string \<Rightarrow> dispatchWait" where
  "waitElapsed w deadline now reason =
     (if \<not> isZero deadline then waitAdd w (tSub deadline now) reason else w)"

text \<open>Adding a wait never shortens the combined one, and covers the added one.\<close>

lemma waitAdd_duration [simp]: "dw_duration (waitAdd w r reason) = max (dw_duration w) r"
  by (simp add: waitAdd_def)

lemma waitAdd_reason: "dw_duration w < dw_duration (waitAdd w r reason) \<Longrightarrow>
    dw_reason (waitAdd w r reason) = reason"
  by (auto simp: waitAdd_def split: if_splits)

lemma waitWall_mono: "dw_duration w \<le> dw_duration (waitWall w deadline now reason)"
  by (simp add: waitWall_def)

lemma waitElapsed_mono: "dw_duration w \<le> dw_duration (waitElapsed w deadline now reason)"
  by (simp add: waitElapsed_def)

lemma tSub_nonneg_le: "tSub a b \<le> 0 \<Longrightarrow> t_ns a \<le> t_ns b"
  by (simp add: tSub_nonpos_iff)

lemma waitWall_zero:
  "dw_duration (waitWall w deadline now reason) \<le> 0 \<Longrightarrow>
   dw_duration w \<le> 0 \<and> (isZero deadline \<or> t_ns deadline \<le> t_ns now)"
  by (auto simp: waitWall_def tSub_nonpos_iff split: if_splits)

lemma waitElapsed_zero:
  "dw_duration (waitElapsed w deadline now reason) \<le> 0 \<Longrightarrow>
   dw_duration w \<le> 0 \<and> (isZero deadline \<or> t_ns deadline \<le> t_ns now)"
  by (auto simp: waitElapsed_def tSub_nonpos_iff split: if_splits)

section \<open>The live gate over the saved window\<close>

text \<open>The gate's status is the empty string until its first update.\<close>

record cpuFeedbackGate =
  fg_token :: string
  fg_status :: "feedback_status option"
  fg_savedDeadline :: gotime
  fg_elapsedDue :: gotime

definition newFeedbackGate :: cpuFeedbackGate where
  "newFeedbackGate = \<lparr>fg_token = [], fg_status = None, fg_savedDeadline = zeroTime,
     fg_elapsedDue = zeroTime\<rparr>"

definition gateUpdate :: "cpuFeedbackGate \<Rightarrow> CPUFeedbackState \<Rightarrow> gotime \<Rightarrow> gotime \<Rightarrow> cpuFeedbackGate" where
  "gateUpdate gate feedback wall elapsed =
     (let token = (case f_Window feedback of None \<Rightarrow> [] | Some w \<Rightarrow> w_Token w);
          due = (case f_NextAllowedAt feedback of None \<Rightarrow> zeroTime | Some n \<Rightarrow> toUTC n)
      in if fg_token gate = token \<and> fg_status gate = Some (f_Status feedback) \<and>
            tEqual (fg_savedDeadline gate) due
         then gate
         else \<lparr>fg_token = token, fg_status = Some (f_Status feedback), fg_savedDeadline = due,
               fg_elapsedDue = (if \<not> isZero due then tAdd elapsed (max (tSub due (toUTC wall)) 0)
                                else zeroTime)\<rparr>)"

definition gateAdd ::
  "cpuFeedbackGate \<Rightarrow> dispatchWait \<Rightarrow> CPUFeedbackState \<Rightarrow> gotime \<Rightarrow> gotime \<Rightarrow> dispatchWait" where
  "gateAdd gate wait0 feedback wall elapsed =
     (let w1 = (case f_ClockHighWater feedback of None \<Rightarrow> wait0
                | Some h \<Rightarrow> waitWall wait0 h wall ''cpu_clock_rollback'');
          reason = (if f_Status feedback = FRecoveredUnknown then ''cpu_recovery_backoff''
                    else ''durable_cpu_backoff'')
      in waitElapsed (waitWall w1 (fg_savedDeadline gate) wall reason) (fg_elapsedDue gate)
           elapsed reason)"

text \<open>A second update with the same saved window keeps the gate, whatever the clocks say.\<close>

lemma gateUpdate_stable:
  "gateUpdate (gateUpdate gate feedback wall elapsed) feedback wall' elapsed' =
   gateUpdate gate feedback wall elapsed"
  by (auto simp: gateUpdate_def Let_def tEqual_def)

lemma gateAdd_zero:
  assumes "dw_duration (gateAdd gate w feedback wall elapsed) \<le> 0"
  shows "(isZero (fg_savedDeadline gate) \<or> t_ns (fg_savedDeadline gate) \<le> t_ns wall) \<and>
    (isZero (fg_elapsedDue gate) \<or> t_ns (fg_elapsedDue gate) \<le> t_ns elapsed)"
  using waitElapsed_zero [OF assms [unfolded gateAdd_def Let_def]]
    waitWall_zero [of _ "fg_savedDeadline gate" wall] by blast

lemma gateAdd_mono: "dw_duration w \<le> dw_duration (gateAdd gate w feedback wall elapsed)"
  unfolding gateAdd_def Let_def
  by (rule order_trans [OF _ waitElapsed_mono], rule order_trans [OF _ waitWall_mono])
    (simp add: waitWall_mono split: option.splits)

section \<open>The native reading of the process CPU time\<close>

text \<open>\<open>cpu_clock.go\<close>: the two \<open>timeval\<close>s of \<open>getrusage\<close> become one duration, or an error when a
  field is out of its range or the sum does not fit. The system call itself is an answer of the
  environment.\<close>

abbreviation errInvalidCPU :: err where "errInvalidCPU \<equiv> StorageFailure ''invalid process CPU observation''"
abbreviation errCPURange :: err where
  "errCPURange \<equiv> StorageFailure ''process CPU observation exceeds duration range''"

definition convertTimeval :: "int \<Rightarrow> int \<Rightarrow> err + int" where
  "convertTimeval seconds micros =
     (if seconds < 0 \<or> micros < 0 \<or> micros \<ge> 1000000 \<or> seconds > maxInt64 sdiv second_ns
      then Inl errInvalidCPU
      else
        let nanos = mul64 seconds second_ns; fraction = mul64 micros 1000
        in if nanos > sub64 maxInt64 fraction then Inl errCPURange else Inr (add64 nanos fraction))"

definition cpuTimevalSum :: "int \<Rightarrow> int \<Rightarrow> int \<Rightarrow> int \<Rightarrow> err + int" where
  "cpuTimevalSum userSeconds userMicros systemSeconds systemMicros =
     (case convertTimeval userSeconds userMicros of
        Inl e \<Rightarrow> Inl e
      | Inr user \<Rightarrow> (case convertTimeval systemSeconds systemMicros of
            Inl e \<Rightarrow> Inl e
          | Inr system \<Rightarrow>
              if user > sub64 maxInt64 system then Inl errCPURange else Inr (add64 user system)))"

text \<open>The exact value of a \<open>timeval\<close>.\<close>

definition timevalNS :: "int \<Rightarrow> int \<Rightarrow> int" where
  "timevalNS seconds micros = seconds * second_ns + micros * 1000"

lemma convertTimeval_exact:
  "convertTimeval s m =
     (if s < 0 \<or> m < 0 \<or> 1000000 \<le> m \<or> s > 9223372036 then Inl errInvalidCPU
      else if maxInt64 < timevalNS s m then Inl errCPURange else Inr (timevalNS s m))"
proof (cases "s < 0 \<or> m < 0 \<or> 1000000 \<le> m \<or> s > 9223372036")
  case True
  then show ?thesis by (auto simp: convertTimeval_def signed_divide_int_def)
next
  case False
  then have "mul64 s second_ns = s * second_ns" "mul64 m 1000 = m * 1000" "sub64 maxInt64 (m * 1000) = maxInt64 - m * 1000"
    by (simp_all add: mul64_def sub64_def i64_def)
  then show ?thesis using False
    by (auto simp: convertTimeval_def timevalNS_def signed_divide_int_def Let_def add64_def i64_def)
qed

lemma convertTimeval_ok: "convertTimeval s m = Inr v \<Longrightarrow> v = timevalNS s m \<and> 0 \<le> v \<and> v \<le> maxInt64"
  by (auto simp: convertTimeval_exact timevalNS_def split: if_splits)

section \<open>The live observation of a window\<close>

datatype observation_status = NotRecorded | Observed | ObservationUnknown

record CPUObservation =
  co_Contract :: string
  co_Source :: string
  co_TargetPercent :: int
  co_Status :: observation_status
  co_Reason :: cpu_reason
  co_ObservedAt :: "gotime option"
  co_WindowCPUNS :: "int option"
  co_WindowElapsedNS :: "int option"
  co_BackoffNS :: int
  co_BackoffCapped :: bool
  co_NextAllowedAt :: "gotime option"
  co_UnknownObservations :: int

record cpuWindow =
  cw_startedAt :: gotime
  cw_before :: int
  cw_err :: "err option"

record cpuBudget =
  cb_observation :: CPUObservation
  cb_nextAllowed :: gotime

definition newCPUBudget :: cpuBudget where
  "newCPUBudget =
     \<lparr>cb_observation = \<lparr>co_Contract = ''worker_process_cpu_window_v1'', co_Source = ''getrusage_self'',
        co_TargetPercent = 1, co_Status = NotRecorded, co_Reason = RNone, co_ObservedAt = None,
        co_WindowCPUNS = None, co_WindowElapsedNS = None, co_BackoffNS = 0, co_BackoffCapped = False,
        co_NextAllowedAt = None, co_UnknownObservations = 0\<rparr>,
      cb_nextAllowed = zeroTime\<rparr>"

text \<open>\<open>observe\<close> is the answer of the native CPU observer: a duration and an error.\<close>

definition beginCPUWindowAt :: "int \<times> err option \<Rightarrow> gotime \<Rightarrow> cpuWindow" where
  "beginCPUWindowAt observed started =
     \<lparr>cw_startedAt = started, cw_before = fst observed, cw_err = snd observed\<rparr>"

definition cpuFeedbackWait :: "int \<Rightarrow> int \<Rightarrow> int \<times> bool" where
  "cpuFeedbackWait cpu elapsed = CPUFeedbackWait cpu elapsed"

definition finishWithClocks ::
  "cpuBudget \<Rightarrow> cpuWindow \<Rightarrow> gotime \<Rightarrow> gotime \<Rightarrow> int \<Rightarrow> err option \<Rightarrow> cpuBudget" where
  "finishWithClocks budget window completedWall completedElapsed after observationErr =
     (let elapsed = tSub completedElapsed (cw_startedAt window);
          o0 = (cb_observation newCPUBudget)\<lparr>co_ObservedAt := Some (toUTC completedWall),
            co_UnknownObservations := co_UnknownObservations (cb_observation budget),
            co_WindowElapsedNS := (if elapsed > 0 then Some elapsed else None)\<rparr>;
          unknown = (\<lambda>reason. budget\<lparr>cb_nextAllowed := zeroTime,
            cb_observation := o0\<lparr>co_Reason := reason, co_Status := ObservationUnknown,
              co_UnknownObservations :=
                (if co_UnknownObservations o0 \<noteq> maxUint64 then co_UnknownObservations o0 + 1
                 else co_UnknownObservations o0)\<rparr>\<rparr>)
      in if cw_err window \<noteq> None \<or> observationErr \<noteq> None then unknown RUnavailable
         else if cw_before window < 0 \<or> after < 0 then unknown RInvalid
         else if after < cw_before window then unknown RRegressed
         else if elapsed \<le> 0 then unknown RElapsedInvalid
         else
           let delta = sub64 after (cw_before window);
               (wait, capped) = cpuFeedbackWait delta elapsed
           in budget\<lparr>cb_nextAllowed := (if wait > 0 then tAdd completedElapsed wait else zeroTime),
                cb_observation := o0\<lparr>co_WindowCPUNS := Some delta, co_Status := Observed,
                  co_BackoffNS := wait, co_BackoffCapped := capped,
                  co_NextAllowedAt := (if wait > 0 then Some (toUTC (tAdd completedWall wait))
                                       else None)\<rparr>\<rparr>)"

definition finishBudget ::
  "cpuBudget \<Rightarrow> cpuWindow \<Rightarrow> gotime \<Rightarrow> int \<Rightarrow> err option \<Rightarrow> cpuBudget" where
  "finishBudget budget window completed after observationErr =
     finishWithClocks budget window completed completed after observationErr"

definition cpuMeasurement :: "CPUObservation \<Rightarrow> CPUWindowMeasurement" where
  "cpuMeasurement obs = \<lparr>m_CPUTimeNS = co_WindowCPUNS obs, m_ElapsedNS = co_WindowElapsedNS obs,
     m_Reason = co_Reason obs\<rparr>"

section \<open>What a window's observation says\<close>

lemma tSub_i64 [simp]: "i64 (tSub a b)"
  by (simp add: tSub_def)

text \<open>Whatever the observer answers, the measurement of a finished window is one the durable window
  accepts: a failed observation is recorded as unknown, never as zero.\<close>

lemma measurement_accepted:
  assumes "i64 after" "i64 (cw_before w)"
  shows "cpuMeasurementValid (cpuMeasurement (cb_observation (finishWithClocks b w cwall cel after e)))"
    "i64_opt (m_CPUTimeNS (cpuMeasurement (cb_observation (finishWithClocks b w cwall cel after e))))"
    "i64_opt (m_ElapsedNS (cpuMeasurement (cb_observation (finishWithClocks b w cwall cel after e))))"
proof -
  let ?el = "tSub cel (cw_startedAt w)"
  obtain wt cp where wc: "cpuFeedbackWait (sub64 after (cw_before w)) ?el = (wt, cp)" by fastforce
  have d: "0 \<le> cw_before w \<Longrightarrow> 0 \<le> after \<Longrightarrow> sub64 after (cw_before w) = after - cw_before w"
    using assms by simp
  have i: "0 \<le> cw_before w \<Longrightarrow> cw_before w \<le> after \<Longrightarrow> i64 (after - cw_before w)"
    using assms by (simp add: i64_def)
  show "cpuMeasurementValid (cpuMeasurement (cb_observation (finishWithClocks b w cwall cel after e)))"
    "i64_opt (m_CPUTimeNS (cpuMeasurement (cb_observation (finishWithClocks b w cwall cel after e))))"
    "i64_opt (m_ElapsedNS (cpuMeasurement (cb_observation (finishWithClocks b w cwall cel after e))))"
    using wc d i
    by (auto simp: finishWithClocks_def Let_def cpuMeasurement_def cpuMeasurementValid_def
        newCPUBudget_def cpuUnknownReason_def)
qed

end
