(* ===== verification/Worker_Session.thy ===== *)
theory Worker_Session
  imports Worker_Waits CPU_Limited
begin

text \<open>
  \<^verbatim>\<open>src/internal/worker/cpu_session_policy.go\<close> and \<^verbatim>\<open>src/internal/worker/cpu_period_policy.go\<close>: the
  policy of the worker loop over the charge ledger. It activates, recovers and begins a session in
  three startup stages, samples it at the boundaries of work, and answers how long the next work has
  to wait: for the saved deadline on the wall clock, for the live debt on the elapsed clock and for
  the blocked periods of the admission record. A refusal is never taken back.
\<close>

section \<open>Periods\<close>

record cpuPeriodFence =
  pf_start :: int
  pf_limit :: int
  pf_elapsedDue :: gotime
  pf_attached :: bool

definition noFence :: cpuPeriodFence where
  "noFence = \<lparr>pf_start = 0, pf_limit = 0, pf_elapsedDue = zeroTime, pf_attached = False\<rparr>"

record cpuPeriodPolicy =
  pp_saved :: CPUChargeAdmissionState
  pp_limits :: CPUChargeLimits
  pp_marker :: "CPULimitedSessionMarker option"
  pp_hour :: cpuPeriodFence
  pp_day :: cpuPeriodFence
  pp_start :: "CPULimitedSessionStart option"
  pp_gap :: "CPUTrackingGapRequest option"

definition newPeriodPolicy :: "CPUChargeLimits \<Rightarrow> cpuPeriodPolicy" where
  "newPeriodPolicy limits = \<lparr>pp_saved = cpuAdmissionBase False, pp_limits = limits, pp_marker = None,
     pp_hour = noFence, pp_day = noFence, pp_start = None, pp_gap = None\<rparr>"

definition periodBlocked :: "CPUChargePeriod \<Rightarrow> int \<Rightarrow> bool \<Rightarrow> bool" where
  "periodBlocked slot limit gap \<longleftrightarrow>
     limit > 0 \<and> (gap \<or> p_PartialTracking slot \<or> p_BlockingUnknown slot \<or> p_AssignedCPUNS slot \<ge> limit)"

definition fenceAccept ::
  "cpuPeriodFence \<Rightarrow> CPUChargePeriod \<Rightarrow> int \<Rightarrow> bool \<Rightarrow> gotime \<Rightarrow> gotime \<Rightarrow> cpuPeriodFence" where
  "fenceAccept f slot limit blocked wall elapsed =
     (if limit = 0 then noFence
      else if \<not> blocked then f
      else if \<not> pf_attached f \<or> pf_start f \<noteq> p_StartNS slot \<or> pf_limit f \<noteq> limit
      then \<lparr>pf_start = p_StartNS slot, pf_limit = limit,
            pf_elapsedDue = maxTime (pf_elapsedDue f) (tAdd elapsed
              (max (tSub (toUTC (unixTime (p_NextBoundaryNS slot))) wall) 0)),
            pf_attached = True\<rparr>
      else f)"

definition periodAccept ::
  "cpuPeriodPolicy \<Rightarrow> CPUChargeAdmissionState \<Rightarrow> gotime \<Rightarrow> gotime \<Rightarrow> cpuPeriodPolicy" where
  "periodAccept p saved wall elapsed =
     p\<lparr>pp_saved := saved,
       pp_hour := fenceAccept (pp_hour p) (a_Hour saved) (l_HourNS (pp_limits p))
         (periodBlocked (a_Hour saved) (l_HourNS (pp_limits p)) (a_TrackingGapOpen saved)) wall elapsed,
       pp_day := fenceAccept (pp_day p) (a_Day saved) (l_DayNS (pp_limits p))
         (periodBlocked (a_Day saved) (l_DayNS (pp_limits p)) (a_TrackingGapOpen saved)) wall elapsed\<rparr>"

text \<open>One round of the loop over the two periods: the wait and whether a period blocks.\<close>

definition periodRound ::
  "bool \<Rightarrow> gotime \<Rightarrow> gotime \<Rightarrow> CPUChargePeriod \<times> int \<times> cpuPeriodFence \<times> string \<Rightarrow>
   dispatchWait \<times> bool \<Rightarrow> dispatchWait \<times> bool" where
  "periodRound gap wall elapsed v acc =
     (case v of (slot, limit, fence, name) \<Rightarrow> case acc of (w, blocked) \<Rightarrow>
        let currentBlocked = periodBlocked slot limit gap;
            reason = (if currentBlocked
                      then if gap \<or> p_BlockingUnknown slot then name @ ''_unknown''
                           else if p_PartialTracking slot then name @ ''_partial''
                           else name @ ''_backoff''
                      else name @ ''_backoff'');
            w1 = (if currentBlocked
                  then waitWall w (toUTC (unixTime (p_NextBoundaryNS slot))) wall reason else w);
            fenced = limit > 0 \<and> pf_attached fence;
            w2 = (if fenced then waitElapsed w1 (pf_elapsedDue fence) elapsed reason else w1);
            blocked2 = blocked \<or> currentBlocked \<or> fenced \<and> tAfter (pf_elapsedDue fence) elapsed;
            w3 = (if currentBlocked \<and> dw_duration w2 = 0 \<and> dw_reason w2 = []
                  then w2\<lparr>dw_reason := name @ ''_sample_required''\<rparr> else w2)
        in (w3, blocked2))"

definition periodWait ::
  "cpuPeriodPolicy option \<Rightarrow> dispatchWait \<Rightarrow> gotime \<Rightarrow> gotime \<Rightarrow> bool \<Rightarrow> dispatchWait \<times> bool" where
  "periodWait po wait wall elapsed selection =
     (case po of
        None \<Rightarrow> (wait, True)
      | Some p \<Rightarrow>
          let gap = a_TrackingGapOpen (pp_saved p);
              (w, blocked) =
                periodRound gap wall elapsed
                  (a_Day (pp_saved p), l_DayNS (pp_limits p), pp_day p, ''cpu_day_charge'')
                  (periodRound gap wall elapsed
                    (a_Hour (pp_saved p), l_HourNS (pp_limits p), pp_hour p, ''cpu_hour_charge'')
                    (wait, False))
          in (w, \<not> blocked \<or> selection \<and> dw_duration w = 0))"

definition cpuPeriodPublication :: "err \<Rightarrow> bool" where
  "cpuPeriodPublication e \<longleftrightarrow>
     errIs e ErrCPUChargeAdmissionPublication \<or> errIs e ErrCPUChargesPublication"

section \<open>The session policy\<close>

text \<open>The test hooks of the source are nil in production and are left out. A zero marker is
  \<open>None\<close>.\<close>

record cpuSessionPolicy =
  sn_instance :: string
  sn_selectProtocol :: bool
  sn_routed :: bool
  sn_tracking :: bool
  sn_bypass :: bool
  sn_limits :: CPUChargeLimits
  sn_period :: "cpuPeriodPolicy option"
  sn_stage :: nat
  sn_saved :: CPUChargeState
  sn_marker :: "CPUSessionMarker option"
  sn_start :: "CPUSessionStart option"
  sn_sample :: "CPUSessionSample option"
  sn_operation :: string
  sn_operationAt :: gotime
  sn_wallHigh :: gotime
  sn_elapsedHigh :: gotime
  sn_elapsedDue :: gotime
  sn_observedElapsed :: gotime
  sn_attached :: bool
  sn_refused :: "err option"

text \<open>What one call of the policy reads: two readings of the two clocks, the answer of the native
  CPU observer, a random nonce (or the error of drawing it), the context's error, and the answers to
  its calls of the store.\<close>

record session_env =
  se_clock :: "gotime \<times> gotime"
  se_clock2 :: "gotime \<times> gotime"
  se_observe :: "err + int"
  se_nonce :: "err + string"
  se_ctx :: "err option"
  se_view :: ledger_env
  se_charges :: ledger_env
  se_op :: ledger_env
  se_op2 :: ledger_env

definition sessionFail :: "cpuSessionPolicy \<Rightarrow> err option \<Rightarrow> cpuSessionPolicy" where
  "sessionFail p e =
     (case e of None \<Rightarrow> p
      | Some x \<Rightarrow> if sn_refused p = None then p\<lparr>sn_refused := Some x\<rparr> else p)"

definition sessionClocks ::
  "cpuSessionPolicy \<Rightarrow> gotime \<times> gotime \<Rightarrow> cpuSessionPolicy \<times> gotime \<times> gotime \<times> err option" where
  "sessionClocks p clk =
     (let wall = toUTC (round0 (fst clk)); elapsed = snd clk; n = unixNano wall;
          e = (if n \<le> 0 \<or> \<not> tEqual (toUTC (unixTime n)) wall \<or> isZero elapsed
               then Some ErrCPUChargesInvalid
               else if \<not> isZero (sn_wallHigh p) \<and> tBefore wall (sn_wallHigh p)
               then Some ErrCPUChargesClockRollback
               else if \<not> isZero (sn_elapsedHigh p) \<and> tBefore elapsed (sn_elapsedHigh p)
               then Some ErrCPUChargesUnknown else None)
      in (p\<lparr>sn_wallHigh := (if tAfter wall (sn_wallHigh p) then wall else sn_wallHigh p),
            sn_elapsedHigh := (if tAfter elapsed (sn_elapsedHigh p) then elapsed
                               else sn_elapsedHigh p)\<rparr>,
          wall, elapsed, e))"

definition sessionAccept ::
  "cpuSessionPolicy \<Rightarrow> CPUChargeState \<Rightarrow> gotime \<Rightarrow> gotime \<Rightarrow> int \<Rightarrow> cpuSessionPolicy" where
  "sessionAccept p saved wall elapsed intrinsic =
     (let p1 = (if \<not> sn_attached p
                then p\<lparr>sn_elapsedDue := (case s_NextAllowedAt saved of None \<Rightarrow> sn_elapsedDue p
                         | Some n \<Rightarrow> tAdd elapsed (max (tSub n wall) 0)),
                       sn_attached := True\<rparr>
                else p);
          p2 = (if intrinsic > 0
                then p1\<lparr>sn_elapsedDue := maxTime (sn_elapsedDue p1) (tAdd elapsed intrinsic)\<rparr>
                else p1)
      in p2\<lparr>sn_saved := saved\<rparr>)"

definition waitMode ::
  "cpuSessionPolicy \<Rightarrow> dispatchWait \<Rightarrow> gotime \<times> gotime \<Rightarrow> bool \<Rightarrow>
   cpuSessionPolicy \<times> dispatchWait \<times> bool" where
  "waitMode p0 wait clk selection =
     (if sn_bypass p0 \<and> sn_refused p0 = None then (p0, wait, True)
      else
        let (p1, wall, elapsed, e) = sessionClocks p0 clk;
            p = sessionFail p1 e
        in case sn_refused p of
            Some r \<Rightarrow>
              (p, wait\<lparr>dw_reason :=
                 (if cpuPeriodPublication r then ''cpu_session_outcome_unknown''
                  else if errIs r ErrCPUChargesClockRollback then ''cpu_session_clock_refused''
                  else if errIs r ErrCPUChargesUnknown then ''cpu_session_unknown''
                  else ''cpu_session_refused'')\<rparr>, False)
          | None \<Rightarrow>
              let w1 = (case s_ClockHighWater (sn_saved p) of None \<Rightarrow> wait
                        | Some h \<Rightarrow> waitWall wait h wall ''cpu_session_clock_wait'')
              in if sn_stage p < 3
                 then (p, if dw_duration w1 = 0 then w1\<lparr>dw_reason := ''cpu_session_startup''\<rparr> else w1,
                       False)
                 else
                   let w2 = (case s_NextAllowedAt (sn_saved p) of None \<Rightarrow> w1
                             | Some n \<Rightarrow> waitWall w1 n wall ''cpu_session_backoff'');
                       w3 = waitElapsed w2 (sn_elapsedDue p) elapsed ''cpu_session_backoff'';
                       (w4, ready) = periodWait (sn_period p) w3 wall elapsed selection
                   in (p, w4, ready \<and> dw_duration w4 = 0))"

definition sessionRoute ::
  "admission_ids \<Rightarrow> session_env \<Rightarrow> cpustore \<Rightarrow> cpuSessionPolicy \<Rightarrow> gotime \<Rightarrow> gotime \<Rightarrow>
   cpuSessionPolicy \<times> err option" where
  "sessionRoute ids env st p wall elapsed =
     (if \<not> sn_selectProtocol p \<or> sn_routed p then (p, None)
      else
        let (a, e) = CPUChargeAdmission ids (se_view env) st
        in case e of Some x \<Rightarrow> (p, Some x) | None \<Rightarrow>
          let p1 = p\<lparr>sn_routed := True\<rparr>
          in if a_Available a
             then
               let p2 = p1\<lparr>sn_period :=
                     Some (periodAccept (newPeriodPolicy (sn_limits p1)) a wall elapsed)\<rparr>;
                   (c, e2) = CPUCharges ids (se_charges env) st;
                   p3 = p2\<lparr>sn_saved := c\<rparr>
               in (case e2 of Some x \<Rightarrow> (p3, Some x) | None \<Rightarrow>
                     if s_Generation c \<noteq> a_CPUGeneration a
                     then (p3, Some ErrCPUChargeAdmissionCorrupt)
                     else (sessionAccept p3 c wall elapsed 0, None))
             else if \<not> sn_tracking p1 then (p1\<lparr>sn_bypass := True, sn_stage := 3\<rparr>, None)
             else (p1, None))"

definition sessionOpenGap ::
  "admission_ids \<Rightarrow> session_env \<Rightarrow> cpustore \<Rightarrow> cpuSessionPolicy \<Rightarrow> gotime \<Rightarrow> gotime \<Rightarrow>
   cpustore \<times> cpuSessionPolicy \<times> err option" where
  "sessionOpenGap ids env st p wall elapsed =
     (let pd = the (sn_period p); a = pp_saved pd;
          request = (if a_TrackingGapOpen a \<and> a_LatestGap a \<noteq> None
                     then Inr (gr_Request (the (a_LatestGap a)))
                     else (case se_nonce env of
                         Inl e \<Rightarrow> Inl e
                       | Inr nonce \<Rightarrow> Inr \<lparr>g_ExpectedPolicyRevision = a_PolicyRevision a,
                           g_ExpectedGeneration = a_CPUGeneration a, g_Nonce = nonce,
                           g_ObservedAt = wall\<rparr>))
      in case request of
          Inl e \<Rightarrow> (st, p, Some e)
        | Inr q \<Rightarrow>
            let p1 = p\<lparr>sn_period := Some (pd\<lparr>pp_gap := Some q\<rparr>),
                       sn_operation := ''tracking_gap'', sn_operationAt := g_ObservedAt q\<rparr>;
                (st', saved, nx, e) = openCPUTrackingGap ids (se_op env) st q
            in case e of Some x \<Rightarrow> (st', p1, Some x) | None \<Rightarrow>
              if \<not> a_Available nx \<or> \<not> a_TrackingGapOpen nx
              then (st', p1, Some ErrCPUChargeAdmissionCorrupt)
              else (st', p1\<lparr>sn_saved := saved,
                     sn_period := Some (periodAccept (pd\<lparr>pp_gap := Some q\<rparr>) nx wall elapsed),
                     sn_bypass := True, sn_stage := 3\<rparr>, None))"

definition activatePeriod ::
  "admission_ids \<Rightarrow> ledger_env \<Rightarrow> cpustore \<Rightarrow> cpuSessionPolicy \<Rightarrow> gotime \<Rightarrow> gotime \<Rightarrow>
   cpustore \<times> cpuSessionPolicy \<times> err option" where
  "activatePeriod ids lenv st p wall elapsed =
     (let p1 = p\<lparr>sn_operation := ''activate_period'', sn_operationAt := wall\<rparr>;
          (st', a, e) = activateCPUChargeAdmission ids lenv st wall (sn_limits p)
      in case e of Some x \<Rightarrow> (st', p1, Some x) | None \<Rightarrow>
        if \<not> a_Available a then (st', p1, Some ErrCPUChargeAdmissionUnavailable)
        else (st', p1\<lparr>sn_period :=
               Some (periodAccept (newPeriodPolicy (sn_limits p)) a wall elapsed)\<rparr>, None))"

subsection \<open>Startup\<close>

text \<open>The three stages; each returns the store, the policy and the error that refuses it. The stage
  that activated the period already returns early and advances by itself.\<close>

definition startupActivate ::
  "admission_ids \<Rightarrow> session_env \<Rightarrow> cpustore \<Rightarrow> cpuSessionPolicy \<Rightarrow> gotime \<Rightarrow> gotime \<Rightarrow>
   cpustore \<times> cpuSessionPolicy \<times> err option" where
  "startupActivate ids env st p wall elapsed =
     (let p1 = p\<lparr>sn_operation := ''activate'', sn_operationAt := wall\<rparr>;
          (st', saved, e) = ActivateCPUCharges ids (se_op env) st wall
      in case e of Some x \<Rightarrow> (st', p1, Some x)
         | None \<Rightarrow> (st', sessionAccept p1 saved wall elapsed 0, None))"

definition startupRecover ::
  "admission_ids \<Rightarrow> session_env \<Rightarrow> cpustore \<Rightarrow> cpuSessionPolicy \<Rightarrow> gotime \<Rightarrow> gotime \<Rightarrow>
   cpustore \<times> cpuSessionPolicy \<times> err option" where
  "startupRecover ids env st p wall elapsed =
     (let p1 = p\<lparr>sn_operation := ''recover'', sn_operationAt := wall\<rparr>;
          wasActive = (case s_Session (sn_saved p1) of None \<Rightarrow> False | Some r \<Rightarrow> r_Status r = SActive);
          intrinsic = (if wasActive then hour_ns else 0)
      in case sn_period p1 of
          Some pd \<Rightarrow>
            (let (st', saved, a, e) = recoverCPUSessionLimited ids (se_op env) st wall
             in case e of Some x \<Rightarrow> (st', p1, Some x)
                | None \<Rightarrow> (st', (sessionAccept p1 saved wall elapsed intrinsic)
                    \<lparr>sn_period := Some (periodAccept pd a wall elapsed)\<rparr>, None))
        | None \<Rightarrow>
            (let (st', saved, e) = RecoverCPUSession ids (se_op env) st wall
             in case e of Some x \<Rightarrow> (st', p1, Some x)
                | None \<Rightarrow>
                    let p2 = sessionAccept p1 saved wall elapsed intrinsic
                    in if l_HourNS (sn_limits p2) > 0 \<or> l_DayNS (sn_limits p2) > 0
                       then activatePeriod ids (se_op2 env) st' p2 wall elapsed
                       else (st', p2, None)))"

definition sessionRequest :: "cpuSessionPolicy \<Rightarrow> gotime \<Rightarrow> string \<Rightarrow> err + int \<Rightarrow> CPUSessionStart" where
  "sessionRequest p wall nonce obs =
     \<lparr>st_ExpectedGeneration = s_Generation (sn_saved p), st_Nonce = nonce,
      st_Instance = sn_instance p, st_ObservedAt = wall,
      st_SelfCPUNS = (case obs of Inl _ \<Rightarrow> None | Inr cpu \<Rightarrow> Some cpu),
      st_Reason = (case obs of Inl _ \<Rightarrow> RUnavailable | Inr _ \<Rightarrow> RNone)\<rparr>"

definition beginAccept ::
  "cpuSessionPolicy \<Rightarrow> CPUChargeState \<Rightarrow> gotime \<Rightarrow> gotime \<Rightarrow> cpuSessionPolicy \<times> err option" where
  "beginAccept p saved wall elapsed =
     (case s_Session saved of
        None \<Rightarrow> (p, Some ErrCPUChargesStale)
      | Some r \<Rightarrow>
          if s_Status saved \<noteq> SActive then (p, Some ErrCPUChargesStale)
          else ((sessionAccept p saved wall elapsed (r_LastBackoffNS r))
                  \<lparr>sn_observedElapsed := elapsed\<rparr>, None))"

definition startupBegin ::
  "admission_ids \<Rightarrow> session_env \<Rightarrow> cpustore \<Rightarrow> cpuSessionPolicy \<Rightarrow>
   cpustore \<times> cpuSessionPolicy \<times> err option" where
  "startupBegin ids env st p0 =
     (let (p1, wall, elapsed, ce) = sessionClocks p0 (se_clock2 env)
      in case ce of Some x \<Rightarrow> (st, p1, Some x) | None \<Rightarrow>
      case se_nonce env of Inl e \<Rightarrow> (st, p1, Some e) | Inr nonce \<Rightarrow>
      let request = sessionRequest p1 wall nonce (se_observe env);
          p2 = p1\<lparr>sn_start := Some request, sn_operation := ''begin'', sn_operationAt := wall\<rparr>
      in case sn_period p2 of
          Some pd \<Rightarrow>
            (let q = \<lparr>q_Start = request, q_ExpectedPolicyRevision = a_PolicyRevision (pp_saved pd),
                      q_Limits = sn_limits p2\<rparr>;
                 (st', m, saved, a, e) = beginCPUSessionLimited ids (se_op env) st q;
                 pd1 = pd\<lparr>pp_start := Some q, pp_marker := m\<rparr>;
                 p3 = p2\<lparr>sn_period := Some pd1\<rparr>
             in case e of Some x \<Rightarrow> (st', p3, Some x) | None \<Rightarrow>
                if (case m of None \<Rightarrow> True
                    | Some mk \<Rightarrow> lm_generation mk = 0 \<or> lm_revision mk \<noteq> a_PolicyRevision a)
                then (st', p3, Some ErrCPUChargesStale)
                else let (p4, be) = beginAccept p3 saved wall elapsed
                     in case be of Some x \<Rightarrow> (st', p4, Some x)
                        | None \<Rightarrow> (st', p4\<lparr>sn_period := Some (periodAccept pd1 a wall elapsed)\<rparr>, None))
        | None \<Rightarrow>
            (let (st', m, saved, e) = BeginCPUSession ids (se_op env) st request;
                 p3 = p2\<lparr>sn_marker := m\<rparr>
             in case e of Some x \<Rightarrow> (st', p3, Some x) | None \<Rightarrow>
                if (case m of None \<Rightarrow> True | Some mk \<Rightarrow> sm_generation mk = 0)
                then (st', p3, Some ErrCPUChargesStale)
                else let (p4, be) = beginAccept p3 saved wall elapsed in (st', p4, be)))"

definition startup ::
  "admission_ids \<Rightarrow> session_env \<Rightarrow> cpustore \<Rightarrow> cpuSessionPolicy \<Rightarrow> cpustore \<times> cpuSessionPolicy" where
  "startup ids env st p0 =
     (if sn_refused p0 \<noteq> None \<or> sn_stage p0 \<ge> 3 then (st, p0)
      else
        let (p1, wall, elapsed, ce) = sessionClocks p0 (se_clock env)
        in case ce of Some x \<Rightarrow> (st, sessionFail p1 (Some x)) | None \<Rightarrow>
        let (p2, re) = sessionRoute ids env st p1 wall elapsed
        in case re of Some x \<Rightarrow> (st, sessionFail p2 (Some x)) | None \<Rightarrow>
        if sn_bypass p2 then (st, p2)
        else if (case s_ClockHighWater (sn_saved p2) of None \<Rightarrow> False | Some h \<Rightarrow> tBefore wall h)
        then (st, p2)
        else if sn_period p2 \<noteq> None \<and> sn_selectProtocol p2 \<and> \<not> sn_tracking p2
        then (let (st', p3, e) = sessionOpenGap ids env st p2 wall elapsed in (st', sessionFail p3 e))
        else if sn_stage p2 = 0 \<and> sn_period p2 \<noteq> None then (st, p2\<lparr>sn_stage := 1\<rparr>)
        else
          let (st', p3, e) =
                (if sn_stage p2 = 0 then startupActivate ids env st p2 wall elapsed
                 else if sn_stage p2 = 1 then startupRecover ids env st p2 wall elapsed
                 else startupBegin ids env st p2)
          in case e of Some x \<Rightarrow> (st', sessionFail p3 (Some x))
             | None \<Rightarrow> (st', p3\<lparr>sn_stage := Suc (sn_stage p3)\<rparr>))"

subsection \<open>Sampling\<close>

definition boundarySample ::
  "cpuSessionPolicy \<Rightarrow> gotime \<Rightarrow> gotime \<Rightarrow> err option \<Rightarrow> err + int \<Rightarrow> CPUSessionSample" where
  "boundarySample p wall elapsed clockErr obs =
     (let duration = tSub elapsed (sn_observedElapsed p)
      in \<lparr>sp_Ordinal = add64 (r_LastOrdinal (the (s_Session (sn_saved p)))) 1, sp_ObservedAt = wall,
          sp_SelfCPUNS = (case obs of Inl _ \<Rightarrow> None | Inr cpu \<Rightarrow> Some cpu),
          sp_ElapsedNS = (if clockErr = None \<and> duration > 0 then Some duration else None),
          sp_Reason = (case obs of Inl _ \<Rightarrow> RUnavailable | Inr _ \<Rightarrow> RNone)\<rparr>)"

text \<open>The call of the ledger, limited or bare; a policy without a marker has nothing to sample.\<close>

definition boundaryCall ::
  "admission_ids \<Rightarrow> ledger_env \<Rightarrow> cpustore \<Rightarrow> cpuSessionPolicy \<Rightarrow> CPUSessionSample \<Rightarrow> bool \<Rightarrow>
   cpustore \<times> CPUChargeState \<times> CPUChargeAdmissionState option \<times> err option" where
  "boundaryCall ids lenv st p request finish =
     (case sn_period p of
        Some pd \<Rightarrow> (case pp_marker pd of
            None \<Rightarrow> (st, cpuChargesBase False, None, Some ErrCPUChargesStale)
          | Some m \<Rightarrow>
              let (st1, c, a, x) = sampleCPUSessionLimited ids lenv st m request finish
              in (st1, c, Some a, x))
      | None \<Rightarrow> (case sn_marker p of
            None \<Rightarrow> (st, cpuChargesBase False, None, Some ErrCPUChargesStale)
          | Some m \<Rightarrow>
              let (st1, c, x) = sampleCPUSession ids lenv st m request finish
              in (st1, c, None, x)))"

definition boundaryAccept ::
  "cpuSessionPolicy \<Rightarrow> CPUChargeState \<Rightarrow> CPUChargeAdmissionState option \<Rightarrow> gotime \<Rightarrow> gotime \<Rightarrow>
   cpuSessionPolicy" where
  "boundaryAccept p saved ao wall elapsed =
     (let p1 = (sessionAccept p saved wall elapsed (r_LastBackoffNS (the (s_Session saved))))
            \<lparr>sn_observedElapsed := elapsed\<rparr>
      in case (sn_period p1, ao) of
          (Some pd, Some a) \<Rightarrow> p1\<lparr>sn_period := Some (periodAccept pd a wall elapsed)\<rparr>
        | _ \<Rightarrow> p1)"

definition sampleAtBoundary ::
  "admission_ids \<Rightarrow> session_env \<Rightarrow> cpustore \<Rightarrow> cpuSessionPolicy \<Rightarrow> bool \<Rightarrow>
   cpustore \<times> cpuSessionPolicy \<times> bool" where
  "sampleAtBoundary ids env st p0 finish =
     (if sn_bypass p0 then (st, p0, sn_refused p0 = None)
      else if sn_refused p0 \<noteq> None \<or> sn_stage p0 \<noteq> 3 \<or> s_Status (sn_saved p0) \<noteq> SActive \<or>
              s_Session (sn_saved p0) = None
      then (st, p0, False)
      else case se_ctx env of Some x \<Rightarrow> (st, sessionFail p0 (Some x), False) | None \<Rightarrow>
      if r_LastOrdinal (the (s_Session (sn_saved p0))) = maxInt64
      then (st, sessionFail p0 (Some ErrCPUChargesOverflow), False)
      else
        let (p1, wall, elapsed, clockErr) = sessionClocks p0 (se_clock env);
            request = boundarySample p1 wall elapsed clockErr (se_observe env);
            p2 = p1\<lparr>sn_sample := Some request,
                    sn_operation := (if finish then ''finish'' else ''sample''),
                    sn_operationAt := wall\<rparr>;
            (st', saved, ao, e) = boundaryCall ids (se_op env) st p2 request finish
        in if e = None \<and> clockErr = None
           then (st', boundaryAccept p2 saved ao wall elapsed, True)
           else (st', sessionFail p2 (joinOpt e clockErr), False))"

text \<open>\<open>finish\<close>: the graceful end of the worker samples an active session once more.\<close>

definition sessionFinish ::
  "admission_ids \<Rightarrow> session_env \<Rightarrow> cpustore \<Rightarrow> cpuSessionPolicy \<Rightarrow>
   cpustore \<times> cpuSessionPolicy \<times> err option" where
  "sessionFinish ids env st p =
     (if \<not> sn_bypass p \<and> sn_refused p = None \<and> sn_stage p = 3 \<and> s_Status (sn_saved p) = SActive
      then let (st', p', _) = sampleAtBoundary ids env st p True in (st', p', sn_refused p')
      else (st, p, sn_refused p))"

end
