(* ===== verification/Worker_Session_Laws.thy ===== *)
theory Worker_Session_Laws
  imports Worker_Session CPU_Store_Laws
begin

text \<open>
  What the session policy relies on and what it guarantees. The contract of an accepted sample is a
  locale with two interpretations, the bare ledger and the ledger under a policy. Over it: what an
  admission implies, that the live debt never shrinks, that a refusal is final, and that the policy
  moves the store only through the operations of the ledger.
\<close>

section \<open>Accepted samples\<close>

definition acceptedSample :: "CPUSessionSample \<Rightarrow> bool \<Rightarrow> CPUChargeState \<Rightarrow> bool" where
  "acceptedSample q f s \<longleftrightarrow> validCPUCharges s \<and> chargesI64 s \<and>
     (\<exists>r p. s_Session s = Some r \<and> (r_Status r = SActive \<or> r_Status r = SFinished) \<and>
        r_LastSample r = Some p \<and> sameCPUSample p q \<and> r_LastSampleFinal r = f)"

lemma acceptedE:
  assumes "acceptedSample q f s"
  obtains r p where "validCPUCharges s" "chargesI64 s" "s_Session s = Some r"
    "r_Status r = SActive \<or> r_Status r = SFinished" "r_LastSample r = Some p" "sameCPUSample p q"
    "r_LastSampleFinal r = f"
  using assms by (auto simp: acceptedSample_def)

text \<open>The contract of the operation that samples a session, over any store and marker.\<close>

locale sampled_ledger =
  fixes inv :: "'s \<Rightarrow> bool"
    and ledger :: "'s \<Rightarrow> CPUChargeState option"
    and sample :: "'s \<Rightarrow> CPUSessionSample \<Rightarrow> bool \<Rightarrow> 's \<Rightarrow> CPUChargeState \<Rightarrow> bool"
  assumes sample_accepted: "inv s \<Longrightarrow> sampleI64 q \<Longrightarrow> sample s q f t c \<Longrightarrow>
      inv t \<and> ledger t = Some c \<and> acceptedSample q f c"
begin

text \<open>An accepted sample has a usable elapsed time, and the backoff it saved is exactly the wait its
  charge implies.\<close>

lemma sample_backoff:
  assumes "inv s" "sampleI64 q" "sample s q f t c"
  shows "\<exists>r e. s_Session c = Some r \<and> sp_ElapsedNS q = Some e \<and> 0 < e \<and> 0 \<le> r_LastChargeNS r \<and>
    r_LastBackoffNS r = min hour_ns (max 0 (100 * r_LastChargeNS r - e))"
proof -
  have "acceptedSample q f c" using sample_accepted [OF assms] by simp
  then obtain r p where r: "validCPUCharges c" "chargesI64 c" "s_Session c = Some r"
    "r_Status r = SActive \<or> r_Status r = SFinished" "r_LastSample r = Some p" "sameCPUSample p q"
    by (rule acceptedE)
  have gen: "s_Generation c \<noteq> 0" using r(1,3) by (auto simp: validCPUCharges_def validChargesUntracked_def)
  then have v: "validChargesSession c r" "validChargesFeedback c r" "cpuChargesSampleValid p"
    using r(1,3,5) by (simp_all add: validCPUCharges_def validChargesSample_def)
  have fb: "sampleProblem p = RNone" "r_LastBackoffNS r = fst (CPUFeedbackWait (r_LastChargeNS r) (the (sp_ElapsedNS p)))"
    using v(2) r(4,5) by (auto simp: validChargesFeedback_def split: prod.splits)
  obtain e where e: "sp_ElapsedNS p = Some e" "0 < e"
    using fb(1) v(3) by (auto simp: cpuChargesProblem_def cpuChargesSampleValid_def
        cpuChargesInputCPU_def cpuChargesReason_def split: option.splits if_splits)
  then have q: "sp_ElapsedNS q = Some e"
    using r(6) by (auto simp: sameCPUSample_def sameCPUNS_def split: option.splits)
  have "0 \<le> r_LastChargeNS r" "i64 (r_LastChargeNS r)"
    using v(1) r(2) by (auto simp: validChargesSession_def chargesI64_def i64_def)
  moreover have "i64 e" using assms(2) q by (simp add: sampleI64_def)
  ultimately show ?thesis using r(3) q e fb(2) CPUFeedbackWait_exact [of "r_LastChargeNS r" e] by simp
qed

end

text \<open>The bare ledger keeps the contract.\<close>

lemma live_status:
  assumes "validCPUCharges s" "s_Session s = Some r" "r_Status r \<noteq> SUnknown" "r_Status r \<noteq> SRecoveredUnknown"
  shows "r_Status r = SActive \<or> r_Status r = SFinished"
proof -
  have gen: "s_Generation s \<noteq> 0" using assms(1,2) by (auto simp: validCPUCharges_def validChargesUntracked_def)
  then have "r_Status r \<noteq> SActive \<Longrightarrow> validChargesClosed s r"
    using assms(1,2) by (simp add: validCPUCharges_def)
  then show ?thesis
    using assms(3,4) by (cases "r_Status r") (auto simp: validChargesClosed_def split: option.splits)
qed

lemma sampled_accepted:
  assumes v: "validCPUCharges s" "chargesI64 s" "s_Session s = Some r" "r_Status r = SActive"
    and q: "cpuChargesSampleValid q" "sampleI64 q"
    and n: "sampleCharges s q f = Inr (n, RNone)"
  shows "acceptedSample q f n"
proof -
  note sv = sampleCharges_valid [OF v q n refl]
  obtain r' where r': "s_Session n = Some r'" "r_LastSample r' = Some q" "r_LastSampleFinal r' = f"
    using sv by blast
  have n: "validCPUCharges n" "chargesI64 n" "s_Status n = SActive \<or> s_Status n = SFinished"
    using sv by (auto simp: ledgerStep_def split: if_splits)
  have "s_Generation n \<noteq> 0" using n(1) r'(1) by (auto simp: validCPUCharges_def validChargesUntracked_def)
  then have "r_Status r' = s_Status n"
    using n(1) r'(1) by (simp add: validCPUCharges_def validChargesSession_def)
  then show ?thesis using n r' by (auto simp: acceptedSample_def)
qed

lemma retry_accepted:
  assumes "validCPUCharges s" "chargesI64 s" "s_Session s = Some r" "sampleOutcome r = None"
    "case r_LastSample r of None \<Rightarrow> False | Some p \<Rightarrow>
       sp_Ordinal q = r_LastOrdinal r \<and> r_LastSampleFinal r = f \<and> sameCPUSample p q"
  shows "acceptedSample q f s"
proof -
  have "r_Status r = SActive \<or> r_Status r = SFinished"
    using live_status [OF assms(1,3)] assms(4) by (auto simp: sampleOutcome_def split: if_splits)
  then show ?thesis using assms(1-3,5) by (auto simp: acceptedSample_def split: option.splits)
qed

lemma finishView_ok: "finishCPUChargesView env s out = (c, None) \<Longrightarrow> c = s \<and> out = None"
  by (auto simp: finishCPUChargesView_def split: option.splits)

lemma commit_ok:
  assumes "commitCPUCharges env st db prior n = (st', c, None)"
  shows "c = n" "cs_db st' = db\<lparr>db_charges := CellRow (s_Generation n) n\<rparr>" "cs_id st' = cs_id st"
    "cs_refused st' = cs_refused st"
  using assms
  by (auto simp: commitCPUCharges_def writeCPUCharges_def Let_def afterCommit_def call_env.truncate_def
      split: option.splits sum.splits if_splits)

definition bareSampled ::
  "admission_ids \<Rightarrow> cpustore \<Rightarrow> CPUSessionSample \<Rightarrow> bool \<Rightarrow> cpustore \<Rightarrow> CPUChargeState \<Rightarrow> bool" where
  "bareSampled ids st q f st' c \<longleftrightarrow> (\<exists>env m. sampleCPUSession ids env st m q f = (st', c, None))"

definition limitedSampled ::
  "admission_ids \<Rightarrow> cpustore \<Rightarrow> CPUSessionSample \<Rightarrow> bool \<Rightarrow> cpustore \<Rightarrow> CPUChargeState \<Rightarrow> bool" where
  "limitedSampled ids st q f st' c \<longleftrightarrow>
     (\<exists>env m a. sampleCPUSessionLimited ids env st m q f = (st', c, a, None))"

lemma sampleCPUSession_accepted:
  assumes inv: "storeInv ids st" "sampleI64 q" and op: "sampleCPUSession ids env st m q f = (st', c, None)"
  shows "ledgerOf (cs_db st') = Some c \<and> acceptedSample q f c"
proof -
  let ?i = "if sm_store m \<noteq> cs_id st \<or> sm_generation m \<le> 0 \<or> \<not> cpuChargesStartValid (sm_start m) \<or>
      \<not> cpuChargesSampleValid q then Some ErrCPUChargesStale else None"
  obtain prior where o: "bareOpen ids env st ?i = Inr prior" "s_Available prior"
    using op unfolding sampleCPUSession_def by (auto split: sum.splits if_splits)
  note sv = bare_saved [OF inv(1) o]
  have qv: "cpuChargesSampleValid q" using bareOpen_ok(1) [OF o(1)] by (auto split: if_splits)
  obtain r where r: "s_Session prior = Some r"
    using op o by (auto simp: sampleCPUSession_def split: option.splits)
  let ?same = "case r_LastSample r of None \<Rightarrow> False | Some p \<Rightarrow>
    sp_Ordinal q = r_LastOrdinal r \<and> r_LastSampleFinal r = f \<and> sameCPUSample p q"
  show ?thesis
  proof (cases ?same)
    case True
    obtain c1 e1 where fin: "finishCPUChargesView env prior (sampleOutcome r) = (c1, e1)" by fastforce
    have "st' = st \<and> c = c1 \<and> e1 = None"
      using op o r True fin by (auto simp: sampleCPUSession_def split: if_splits)
    then show ?thesis
      using finishView_ok [of env prior "sampleOutcome r"] fin sv
        retry_accepted [OF sv(3,4) r _ True] by (auto simp: ledgerOf_def)
  next
    case False
    have "\<exists>n. sampleCharges prior q f = Inr (n, RNone) \<and> r_Status r = SActive \<and>
        commitCPUCharges env st (cs_db st) prior n = (st', c, None)"
      using op o r False unfolding sampleCPUSession_def Let_def
      by (auto split: if_splits sum.splits option.splits prod.splits)
    then obtain n where n: "sampleCharges prior q f = Inr (n, RNone)" "r_Status r = SActive"
        "commitCPUCharges env st (cs_db st) prior n = (st', c, None)" by blast
    then show ?thesis
      using sampled_accepted [OF sv(3,4) r n(2) qv inv(2) n(1)] commit_ok [OF n(3)]
      by (simp add: ledgerOf_def)
  qed
qed

interpretation bare_samples: sampled_ledger "storeInv ids" "\<lambda>st. ledgerOf (cs_db st)" "bareSampled ids" for ids
proof
  fix st q f st' c
  assume a: "storeInv ids st" "sampleI64 q" "bareSampled ids st q f st' c"
  then obtain env m where op: "sampleCPUSession ids env st m q f = (st', c, None)"
    by (auto simp: bareSampled_def)
  show "storeInv ids st' \<and> ledgerOf (cs_db st') = Some c \<and> acceptedSample q f c"
    using sampleCPUSession_move [OF a(1,2) op] sampleCPUSession_accepted [OF a(1,2) op]
    by (simp add: dbMove_def)
qed

text \<open>The ledger under a policy keeps it too.\<close>

lemma admissionView_ok: "admissionView env c a out = (c', a', None) \<Longrightarrow> c' = c \<and> a' = a \<and> out = None"
  by (auto simp: admissionView_def split: option.splits)

lemma publish_ok:
  assumes "admissionPublish ids env st db prior n pa na op i = (st', c, a, None)"
  shows "c = n" "a = na" "cs_db st' = db\<lparr>db_charges := CellRow (s_Generation n) n,
    db_admission := CellRow (a_PolicyRevision na) na\<rparr>"
  using assms
  by (auto simp: admissionPublish_def writeCPUCharges_def writeCPUAdmission_def Let_def afterCommit_def
      call_env.truncate_def joinOpt_def split: option.splits sum.splits if_splits)

lemma outcome_session:
  assumes "validCPUCharges s" "s_Session s = Some r" "cpuAdmissionOutcome s = None"
  shows "sampleOutcome r = None"
proof -
  have "s_Generation s \<noteq> 0" using assms(1,2) by (auto simp: validCPUCharges_def validChargesUntracked_def)
  then have "r_Status r = s_Status s"
    using assms(1,2) by (simp add: validCPUCharges_def validChargesSession_def)
  then show ?thesis using assms(2,3) by (simp add: cpuAdmissionOutcome_def sampleOutcome_def split: if_splits)
qed

lemma sampleCPUSessionLimited_accepted:
  assumes inv: "storeInv ids st" "sampleI64 q"
    and op: "sampleCPUSessionLimited ids env st m q f = (st', c', a', None)"
  shows "ledgerOf (cs_db st') = Some c' \<and> acceptedSample q f c'"
proof -
  obtain c a v er where r: "admissionRead ids env (cs_db st) = (c, a, v, er)" by (metis prod_cases4)
  have g: "cpuChargesSampleValid q \<and> cpuAdmissionTime (sp_ObservedAt q) \<and> er = None \<and> v = 16 \<and>
      a_BeginRequest a \<noteq> None"
    using op r unfolding sampleCPUSessionLimited_def Let_def
    by (auto split: if_splits sum.splits option.splits prod.splits)
  then have r16: "admissionRead ids env (cs_db st) = (c, a, 16, None)"
    and qv: "cpuChargesSampleValid q" "cpuAdmissionTime (sp_ObservedAt q)" using r by simp_all
  note sv = limited_saved [OF inv(1) r16]
  have vc: "validCPUCharges c" "chargesI64 c" "validAdmissionBegin a c"
    using sv(4) by (simp_all add: admissionInv_def validCPUAdmission_def validAdmissionHeader_def)
  obtain rr where rr: "s_Session c = Some rr"
    using vc(3) g by (cases "s_Session c") (auto simp: validAdmissionBegin_def split: option.splits)
  let ?same = "case r_LastSample rr of None \<Rightarrow> False | Some p \<Rightarrow>
    sp_Ordinal q = r_LastOrdinal rr \<and> r_LastSampleFinal rr = f \<and> sameCPUSample p q"
  show ?thesis
  proof (cases ?same)
    case True
    have "st' = st \<and> admissionView env c a (cpuAdmissionOutcome c) = (c', a', None)"
      using op r16 rr True unfolding sampleCPUSessionLimited_def Let_def
      by (auto split: if_splits option.splits)
    then have e: "st' = st" "c' = c" "cpuAdmissionOutcome c = None"
      using admissionView_ok [of env c a "cpuAdmissionOutcome c" c' a'] by simp_all
    have "sampleOutcome rr = None" by (rule outcome_session [OF vc(1) rr e(3)])
    then show ?thesis using retry_accepted [OF vc(1,2) rr _ True] e sv by (simp add: ledgerOf_def)
  next
    case False
    have "\<exists>nc na. limitedSample ids c a q f = Inr (nc, na) \<and> r_Status rr = SActive \<and>
        admissionPublish ids env st (cs_db st) c nc a na ''sample'' (id_sample ids (lm_request m) q f) =
          (st', c', a', None) \<and> cpuAdmissionOutcome c' = None"
      using op r16 rr False unfolding sampleCPUSessionLimited_def Let_def
      by (auto split: if_splits sum.splits option.splits prod.splits)
    then obtain nc na where n: "limitedSample ids c a q f = Inr (nc, na)" "r_Status rr = SActive"
        "admissionPublish ids env st (cs_db st) c nc a na ''sample'' (id_sample ids (lm_request m) q f) =
          (st', c', a', None)" "cpuAdmissionOutcome c' = None" by blast
    note p = publish_ok [OF n(3)]
    have ls: "sampleCharges c q f = Inr (nc, sampleProblemAt rr q (the (s_ClockHighWater c)))"
      using limitedSample_inv [OF sv(4) rr n(2) qv(1) inv(2) qv(2) n(1)] by blast
    have "s_Status nc = SUnknown" if "sampleProblemAt rr q (the (s_ClockHighWater c)) \<noteq> RNone"
      using sampleCharges_valid [OF vc(1,2) rr n(2) qv(1) inv(2) ls refl] that by simp
    then have "sampleProblemAt rr q (the (s_ClockHighWater c)) = RNone"
      using n(4) p(1) by (auto simp: cpuAdmissionOutcome_def split: if_splits)
    then show ?thesis
      using sampled_accepted [OF vc(1,2) rr n(2) qv(1) inv(2), of f nc] ls p by (simp add: ledgerOf_def)
  qed
qed

interpretation limited_samples: sampled_ledger "storeInv ids" "\<lambda>st. ledgerOf (cs_db st)" "limitedSampled ids" for ids
proof
  fix st q f st' c
  assume a: "storeInv ids st" "sampleI64 q" "limitedSampled ids st q f st' c"
  then obtain env m a' where op: "sampleCPUSessionLimited ids env st m q f = (st', c, a', None)"
    by (auto simp: limitedSampled_def)
  show "storeInv ids st' \<and> ledgerOf (cs_db st') = Some c \<and> acceptedSample q f c"
    using sampleCPUSessionLimited_move [OF a(1,2) op] sampleCPUSessionLimited_accepted [OF a(1,2) op]
    by (simp add: dbMove_def)
qed

section \<open>What one call of the policy does\<close>

lemma sessionClocks_eq:
  "sessionClocks p clk = (fst (sessionClocks p clk), toUTC (fst clk), snd clk, snd (snd (snd (sessionClocks p clk))))"
  by (simp add: sessionClocks_def Let_def)

text \<open>The clocks only move their two high-water marks.\<close>

lemma sessionClocks_frame [simp]:
  "sn_elapsedDue (fst (sessionClocks p clk)) = sn_elapsedDue p" "sn_attached (fst (sessionClocks p clk)) = sn_attached p"
  "sn_saved (fst (sessionClocks p clk)) = sn_saved p" "sn_period (fst (sessionClocks p clk)) = sn_period p"
  "sn_refused (fst (sessionClocks p clk)) = sn_refused p" "sn_bypass (fst (sessionClocks p clk)) = sn_bypass p"
  "sn_stage (fst (sessionClocks p clk)) = sn_stage p" "sn_marker (fst (sessionClocks p clk)) = sn_marker p"
  "sn_observedElapsed (fst (sessionClocks p clk)) = sn_observedElapsed p"
  "sn_limits (fst (sessionClocks p clk)) = sn_limits p"
  by (simp_all add: sessionClocks_def Let_def)

lemma sessionFail_frame [simp]:
  "sn_elapsedDue (sessionFail p e) = sn_elapsedDue p" "sn_attached (sessionFail p e) = sn_attached p"
  "sn_saved (sessionFail p e) = sn_saved p" "sn_period (sessionFail p e) = sn_period p"
  "sn_bypass (sessionFail p e) = sn_bypass p" "sn_stage (sessionFail p e) = sn_stage p"
  by (simp_all add: sessionFail_def split: option.splits)

lemma sessionFail_refused:
  "sn_refused p \<noteq> None \<Longrightarrow> sessionFail p e = p" "e \<noteq> None \<Longrightarrow> sn_refused (sessionFail p e) \<noteq> None"
  "sn_refused (sessionFail p e) = None \<longleftrightarrow> sn_refused p = None \<and> e = None"
  by (auto simp: sessionFail_def split: option.splits)

text \<open>Accepting a ledger never shortens the live debt once the policy is attached, and covers the
  given wait.\<close>

lemma sessionAccept_frame [simp]:
  "sn_saved (sessionAccept p s wall elapsed i) = s" "sn_attached (sessionAccept p s wall elapsed i)"
  "sn_bypass (sessionAccept p s wall elapsed i) = sn_bypass p" "sn_stage (sessionAccept p s wall elapsed i) = sn_stage p"
  "sn_refused (sessionAccept p s wall elapsed i) = sn_refused p"
  "sn_period (sessionAccept p s wall elapsed i) = sn_period p"
  by (simp_all add: sessionAccept_def Let_def)

lemma sessionAccept_due:
  "sn_attached p \<Longrightarrow> t_ns (sn_elapsedDue p) \<le> t_ns (sn_elapsedDue (sessionAccept p s wall elapsed i))"
  "0 < i \<Longrightarrow> t_ns elapsed + i \<le> t_ns (sn_elapsedDue (sessionAccept p s wall elapsed i))"
  by (simp_all add: sessionAccept_def Let_def)

definition envI64 :: "session_env \<Rightarrow> bool" where
  "envI64 env \<longleftrightarrow> (case se_observe env of Inl _ \<Rightarrow> True | Inr c \<Rightarrow> i64 c)"

lemma boundarySample_i64: "envI64 env \<Longrightarrow> sampleI64 (boundarySample p wall elapsed ce (se_observe env))"
  by (simp add: boundarySample_def sampleI64_def envI64_def Let_def split: sum.splits)

lemma boundaryAccept_frame [simp]:
  "sn_saved (boundaryAccept p s ao wall elapsed) = s" "sn_attached (boundaryAccept p s ao wall elapsed)"
  "sn_bypass (boundaryAccept p s ao wall elapsed) = sn_bypass p"
  "sn_stage (boundaryAccept p s ao wall elapsed) = sn_stage p"
  "sn_refused (boundaryAccept p s ao wall elapsed) = sn_refused p"
  "sn_observedElapsed (boundaryAccept p s ao wall elapsed) = elapsed"
  "sn_elapsedDue (boundaryAccept p s ao wall elapsed) =
     sn_elapsedDue (sessionAccept p s wall elapsed (r_LastBackoffNS (the (s_Session s))))"
  by (simp_all add: boundaryAccept_def Let_def split: option.splits)

lemma boundaryCall_sampled:
  assumes "boundaryCall ids env st p q f = (st', c, ao, None)"
  shows "bareSampled ids st q f st' c \<or> limitedSampled ids st q f st' c"
  using assms unfolding boundaryCall_def bareSampled_def limitedSampled_def
  by (auto split: option.splits prod.splits)

text \<open>The request of a boundary, and what is known when the policy took it.\<close>

definition boundaryRequest :: "session_env \<Rightarrow> cpuSessionPolicy \<Rightarrow> CPUSessionSample" where
  "boundaryRequest env p = boundarySample p (toUTC (fst (se_clock env))) (snd (se_clock env))
     (snd (snd (snd (sessionClocks p (se_clock env))))) (se_observe env)"

lemma sampleAtBoundary_cases:
  assumes nb: "\<not> sn_bypass p" and "sampleAtBoundary ids env st p f = (st', p', ok)"
  obtains (idle) "st' = st" "\<not> ok" "p' = p \<or> (\<exists>e. p' = sessionFail p (Some e))"
  | (called) p2 c ao e where "sn_refused p = None" "sn_stage p = 3"
    "boundaryCall ids (se_op env) st p2 (boundaryRequest env p) f = (st', c, ao, e)"
    "sn_elapsedDue p2 = sn_elapsedDue p" "sn_attached p2 = sn_attached p" "sn_bypass p2 = sn_bypass p"
    "sn_stage p2 = 3" "sn_refused p2 = None" "sn_saved p2 = sn_saved p"
    "ok \<longleftrightarrow> e = None \<and> snd (snd (snd (sessionClocks p (se_clock env)))) = None"
    "ok \<Longrightarrow> p' = boundaryAccept p2 c ao (toUTC (fst (se_clock env))) (snd (se_clock env))"
    "\<not> ok \<Longrightarrow> (\<exists>x. p' = sessionFail p2 (Some x))"
proof -
  obtain p1 ce where cl: "sessionClocks p (se_clock env) = (p1, toUTC (fst (se_clock env)), snd (se_clock env), ce)"
    using sessionClocks_eq by blast
  then have p1: "fst (sessionClocks p (se_clock env)) = p1" and ce: "snd (snd (snd (sessionClocks p (se_clock env)))) = ce"
    by simp_all
  let ?q = "boundaryRequest env p"
  have q: "boundarySample p1 (toUTC (fst (se_clock env))) (snd (se_clock env)) ce (se_observe env) = ?q"
    using p1 ce by (simp add: boundaryRequest_def boundarySample_def flip: p1)
  define p2 where "p2 = p1\<lparr>sn_sample := Some ?q, sn_operation := (if f then ''finish'' else ''sample''),
      sn_operationAt := toUTC (fst (se_clock env))\<rparr>"
  obtain s1 c ao e where call: "boundaryCall ids (se_op env) st p2 ?q f = (s1, c, ao, e)"
    by (metis prod_cases4)
  show thesis
  proof (cases "sn_refused p \<noteq> None \<or> sn_stage p \<noteq> 3 \<or> s_Status (sn_saved p) \<noteq> SActive \<or>
      s_Session (sn_saved p) = None \<or> se_ctx env \<noteq> None \<or>
      r_LastOrdinal (the (s_Session (sn_saved p))) = maxInt64")
    case True
    then have "st' = st \<and> \<not> ok \<and> (p' = p \<or> (\<exists>e. p' = sessionFail p (Some e)))"
      using assms by (auto simp: sampleAtBoundary_def split: if_splits option.splits)
    then show thesis using idle by blast
  next
    case False
    then have g: "sn_refused p = None" "sn_stage p = 3" "s_Status (sn_saved p) = SActive"
        "s_Session (sn_saved p) \<noteq> None" "se_ctx env = None"
        "r_LastOrdinal (the (s_Session (sn_saved p))) \<noteq> maxInt64" by simp_all
    have r: "(if e = None \<and> ce = None
         then (s1, boundaryAccept p2 c ao (toUTC (fst (se_clock env))) (snd (se_clock env)), True)
         else (s1, sessionFail p2 (joinOpt e ce), False)) = (st', p', ok)"
      using assms(2)
      unfolding sampleAtBoundary_def cl Let_def prod.case q p2_def [symmetric] call
      by (simp only: g nb option.case if_False simp_thms)
    have j: "joinOpt e ce \<noteq> None" if "\<not> (e = None \<and> ce = None)"
      using that by (auto simp: joinOpt_def split: option.splits)
    show thesis
    proof (rule called [OF g(1,2), of p2 c ao e])
      show "boundaryCall ids (se_op env) st p2 ?q f = (st', c, ao, e)"
        using call r by (auto split: if_splits)
      show "\<exists>x. p' = sessionFail p2 (Some x)" if "\<not> ok" using r j that by (auto split: if_splits)
    qed (use r ce g in \<open>auto simp: p2_def p1 [symmetric] split: if_splits\<close>)
  qed
qed

section \<open>Steps of the policy\<close>

text \<open>One call of the policy, with any answers of the clocks, of the native observer and of the
  store. The values of the policy are int64 values, as their Go types say.\<close>

definition policyI64 :: "cpuSessionPolicy \<Rightarrow> bool" where
  "policyI64 p \<longleftrightarrow> i64 (s_Generation (sn_saved p)) \<and>
     (case sn_period p of None \<Rightarrow> True | Some pd \<Rightarrow> i64 (a_PolicyRevision (pp_saved pd)))"

inductive policy_step ::
  "admission_ids \<Rightarrow> cpustore \<times> cpuSessionPolicy \<Rightarrow> cpustore \<times> cpuSessionPolicy \<Rightarrow> bool" for ids where
  start: "policyI64 p \<Longrightarrow> envI64 env \<Longrightarrow> policy_step ids (st, p) (startup ids env st p)"
| wait: "waitMode p w clk sel = (p', w', ok) \<Longrightarrow> policy_step ids (st, p) (st, p')"
| sample: "envI64 env \<Longrightarrow> sampleAtBoundary ids env st p f = (st', p', ok) \<Longrightarrow>
    policy_step ids (st, p) (st', p')"
| finish: "envI64 env \<Longrightarrow> sessionFinish ids env st p = (st', p', e) \<Longrightarrow>
    policy_step ids (st, p) (st', p')"

inductive_cases policy_stepE: "policy_step ids (st, p) (st', p')"

lemmas policy_step_cases = policy_stepE [consumes 1, case_names start wait sample finish]

subsection \<open>Waiting\<close>

lemma waitMode_frame:
  assumes "waitMode p w clk sel = (p', w', ok)"
  shows "sn_elapsedDue p' = sn_elapsedDue p" "sn_attached p' = sn_attached p" "sn_bypass p' = sn_bypass p"
    "sn_stage p' = sn_stage p" "sn_saved p' = sn_saved p" "sn_period p' = sn_period p"
    "sn_refused p \<noteq> None \<Longrightarrow> sn_refused p' = sn_refused p"
proof -
  have "p' = p \<or> p' = sessionFail (fst (sessionClocks p clk)) (snd (snd (snd (sessionClocks p clk))))"
    using assms sessionClocks_eq [of p clk]
    by (auto simp: waitMode_def Let_def split: if_splits option.splits prod.splits)
  then show "sn_elapsedDue p' = sn_elapsedDue p" "sn_attached p' = sn_attached p" "sn_bypass p' = sn_bypass p"
    "sn_stage p' = sn_stage p" "sn_saved p' = sn_saved p" "sn_period p' = sn_period p"
    "sn_refused p \<noteq> None \<Longrightarrow> sn_refused p' = sn_refused p"
    by (auto simp: sessionFail_refused)
qed

text \<open>What the two periods allow.\<close>

definition periodOpen :: "CPUChargePeriod \<Rightarrow> int \<Rightarrow> cpuPeriodFence \<Rightarrow> bool \<Rightarrow> gotime \<Rightarrow> bool" where
  "periodOpen slot limit fence gap elapsed \<longleftrightarrow>
     (limit > 0 \<longrightarrow> \<not> gap \<and> \<not> p_PartialTracking slot \<and> \<not> p_BlockingUnknown slot \<and>
        p_AssignedCPUNS slot < limit \<and> (pf_attached fence \<longrightarrow> t_ns (pf_elapsedDue fence) \<le> t_ns elapsed))"

lemma periodRound_open:
  assumes "periodRound gap wall elapsed (slot, limit, fence, name) (w, b) = (w', False)"
  shows "\<not> b" "periodOpen slot limit fence gap elapsed"
  using assms
  by (auto simp: periodRound_def Let_def periodOpen_def periodBlocked_def tAfter_def split: if_splits)

lemma periodRound_mono:
  "dw_duration w \<le> dw_duration (fst (periodRound gap wall elapsed v (w, b)))"
  by (cases v) (auto simp: periodRound_def Let_def waitWall_def waitElapsed_def)

lemma periodWait_mono: "dw_duration w \<le> dw_duration (fst (periodWait po w wall elapsed sel))"
proof (cases po)
  case (Some p)
  let ?g = "a_TrackingGapOpen (pp_saved p)"
  let ?h = "periodRound ?g wall elapsed (a_Hour (pp_saved p), l_HourNS (pp_limits p), pp_hour p, ''cpu_hour_charge'') (w, False)"
  have "dw_duration (fst ?h) \<le> dw_duration (fst (periodRound ?g wall elapsed
      (a_Day (pp_saved p), l_DayNS (pp_limits p), pp_day p, ''cpu_day_charge'') (fst ?h, snd ?h)))"
    by (rule periodRound_mono)
  moreover have "dw_duration w \<le> dw_duration (fst ?h)" by (rule periodRound_mono)
  ultimately show ?thesis using Some by (auto simp: periodWait_def Let_def split: prod.splits)
qed (simp add: periodWait_def)

lemma periodWait_open:
  assumes "periodWait (Some p) w wall elapsed False = (w', True)"
  shows "periodOpen (a_Hour (pp_saved p)) (l_HourNS (pp_limits p)) (pp_hour p) (a_TrackingGapOpen (pp_saved p)) elapsed"
    "periodOpen (a_Day (pp_saved p)) (l_DayNS (pp_limits p)) (pp_day p) (a_TrackingGapOpen (pp_saved p)) elapsed"
proof -
  obtain w1 b1 where h: "periodRound (a_TrackingGapOpen (pp_saved p)) wall elapsed
      (a_Hour (pp_saved p), l_HourNS (pp_limits p), pp_hour p, ''cpu_hour_charge'') (w, False) = (w1, b1)" by fastforce
  then have d: "periodRound (a_TrackingGapOpen (pp_saved p)) wall elapsed
      (a_Day (pp_saved p), l_DayNS (pp_limits p), pp_day p, ''cpu_day_charge'') (w1, b1) = (w', False)"
    using assms by (auto simp: periodWait_def Let_def split: prod.splits)
  note dd = periodRound_open [OF d]
  show "periodOpen (a_Hour (pp_saved p)) (l_HourNS (pp_limits p)) (pp_hour p) (a_TrackingGapOpen (pp_saved p)) elapsed"
    "periodOpen (a_Day (pp_saved p)) (l_DayNS (pp_limits p)) (pp_day p) (a_TrackingGapOpen (pp_saved p)) elapsed"
    using periodRound_open(2) [of _ _ _ _ _ _ _ w False w1] h dd by simp_all
qed

text \<open>What an admission implies.\<close>

lemma waitMode_admits:
  assumes op: "waitMode p w clk sel = (p', w', True)" and nb: "\<not> sn_bypass p" and w: "0 \<le> dw_duration w"
  shows "sn_refused p' = None" "3 \<le> sn_stage p" "dw_duration w = 0" "dw_duration w' = 0"
    "case s_ClockHighWater (sn_saved p) of None \<Rightarrow> True | Some h \<Rightarrow> isZero h \<or> t_ns h \<le> t_ns (fst clk)"
    "case s_NextAllowedAt (sn_saved p) of None \<Rightarrow> True | Some n \<Rightarrow> isZero n \<or> t_ns n \<le> t_ns (fst clk)"
    "isZero (sn_elapsedDue p) \<or> t_ns (sn_elapsedDue p) \<le> t_ns (snd clk)"
    "\<exists>w3 w4. periodWait (sn_period p) w3 (toUTC (fst clk)) (snd clk) sel = (w4, True)"
proof -
  obtain p1 ce where cl: "sessionClocks p clk = (p1, toUTC (fst clk), snd clk, ce)"
    using sessionClocks_eq by blast
  then have p1: "p1 = fst (sessionClocks p clk)" by simp
  define pf where "pf = sessionFail p1 ce"
  define w1 where "w1 = (case s_ClockHighWater (sn_saved p) of None \<Rightarrow> w
    | Some h \<Rightarrow> waitWall w h (toUTC (fst clk)) ''cpu_session_clock_wait'')"
  define w2 where "w2 = (case s_NextAllowedAt (sn_saved p) of None \<Rightarrow> w1
    | Some n \<Rightarrow> waitWall w1 n (toUTC (fst clk)) ''cpu_session_backoff'')"
  define w3 where "w3 = waitElapsed w2 (sn_elapsedDue p) (snd clk) ''cpu_session_backoff''"
  obtain w4 ready where pw: "periodWait (sn_period p) w3 (toUTC (fst clk)) (snd clk) sel = (w4, ready)" by fastforce
  have f: "sn_saved pf = sn_saved p" "sn_elapsedDue pf = sn_elapsedDue p" "sn_period pf = sn_period p"
      "sn_stage pf = sn_stage p"
    by (simp_all add: pf_def p1)
  have "sn_refused pf = None \<and> 3 \<le> sn_stage p \<and> p' = pf \<and> w' = w4 \<and> ready \<and> dw_duration w4 = 0"
    using op nb pw unfolding waitMode_def cl Let_def prod.case pf_def [symmetric] f w1_def [symmetric]
      w2_def [symmetric] w3_def [symmetric]
    by (auto split: option.splits if_splits)
  then have r: "sn_refused pf = None" "3 \<le> sn_stage p" "p' = pf" "w' = w4" ready "dw_duration w4 = 0" by simp_all
  have d3: "dw_duration w3 \<le> 0" using periodWait_mono [of w3 "sn_period p" "toUTC (fst clk)" "snd clk" sel] pw r(6) by simp
  then have d2: "dw_duration w2 \<le> 0" "isZero (sn_elapsedDue p) \<or> t_ns (sn_elapsedDue p) \<le> t_ns (snd clk)"
    using waitElapsed_zero [of w2] by (simp_all add: w3_def)
  then have d1: "dw_duration w1 \<le> 0" "case s_NextAllowedAt (sn_saved p) of None \<Rightarrow> True | Some n \<Rightarrow> isZero n \<or> t_ns n \<le> t_ns (fst clk)"
    using waitWall_zero [of w1 _ "toUTC (fst clk)"] by (auto simp: w2_def split: option.splits)
  then have d0: "dw_duration w \<le> 0" "case s_ClockHighWater (sn_saved p) of None \<Rightarrow> True | Some h \<Rightarrow> isZero h \<or> t_ns h \<le> t_ns (fst clk)"
    using waitWall_zero [of w _ "toUTC (fst clk)"] by (auto simp: w1_def split: option.splits)
  show "sn_refused p' = None" "3 \<le> sn_stage p" "dw_duration w' = 0" using r by simp_all
  show "dw_duration w = 0" using d0(1) w by simp
  show "\<exists>w3 w4. periodWait (sn_period p) w3 (toUTC (fst clk)) (snd clk) sel = (w4, True)" using pw r(5) by auto
  show "case s_ClockHighWater (sn_saved p) of None \<Rightarrow> True | Some h \<Rightarrow> isZero h \<or> t_ns h \<le> t_ns (fst clk)"
    "case s_NextAllowedAt (sn_saved p) of None \<Rightarrow> True | Some n \<Rightarrow> isZero n \<or> t_ns n \<le> t_ns (fst clk)"
    "isZero (sn_elapsedDue p) \<or> t_ns (sn_elapsedDue p) \<le> t_ns (snd clk)"
    by (fact d0(2) d1(2) d2(2))+
qed

subsection \<open>The live debt never shrinks\<close>

text \<open>A policy whose session runs: it is attached and past its startup.\<close>

definition policyLive :: "cpuSessionPolicy \<Rightarrow> bool" where
  "policyLive p \<longleftrightarrow> sn_attached p \<and> \<not> sn_bypass p \<and> sn_stage p = 3"

lemma startup_live: "policyLive p \<Longrightarrow> startup ids env st p = (st, p)"
  by (simp add: policyLive_def startup_def)

lemma sampleAtBoundary_live:
  assumes live: "policyLive p" and op: "sampleAtBoundary ids env st p f = (st', p', ok)"
  shows "policyLive p' \<and> t_ns (sn_elapsedDue p) \<le> t_ns (sn_elapsedDue p')"
proof -
  have nb: "\<not> sn_bypass p" using live by (simp add: policyLive_def)
  show ?thesis
  proof (cases rule: sampleAtBoundary_cases [OF nb op, case_names idle called])
    case idle
    then show ?thesis using live by (auto simp: policyLive_def)
  next
    case (called p2 c ao e)
    then show ?thesis using live sessionAccept_due(1) [of p2]
      by (cases ok) (auto simp: policyLive_def)
  qed
qed

lemma sessionFinish_sample:
  assumes "sessionFinish ids env st p = (st', p', e)"
  shows "(st', p') = (st, p) \<or> \<not> sn_bypass p \<and> sn_refused p = None \<and>
    (\<exists>ok. sampleAtBoundary ids env st p True = (st', p', ok))"
  using assms by (auto simp: sessionFinish_def split: if_splits prod.splits)

lemma policy_step_live:
  assumes "policy_step ids (st, p) (st', p')" "policyLive p"
  shows "policyLive p' \<and> t_ns (sn_elapsedDue p) \<le> t_ns (sn_elapsedDue p')"
  using assms(1)
proof (cases rule: policy_step_cases)
  case (start env)
  then show ?thesis using startup_live [OF assms(2)] assms(2) by simp
next
  case (wait w clk sel w' ok)
  then show ?thesis using waitMode_frame [OF wait(2)] assms(2) by (simp add: policyLive_def)
next
  case (sample env f ok)
  then show ?thesis using sampleAtBoundary_live [OF assms(2)] by blast
next
  case (finish env e)
  then show ?thesis using sessionFinish_sample [OF finish(2)] sampleAtBoundary_live [OF assms(2)] assms(2)
    by blast
qed

interpretation live_debt: monotone_ledger "policy_step ids" "\<lambda>x. policyLive (snd x)"
  "\<lambda>x. t_ns (sn_elapsedDue (snd x))" for ids
  by unfold_locales (use policy_step_live in force)+

subsection \<open>A refusal is final\<close>

lemma sampleAtBoundary_refused:
  assumes "sn_refused p \<noteq> None"
  shows "sampleAtBoundary ids env st p f = (st, p, False)"
  using assms by (auto simp: sampleAtBoundary_def)

lemma policy_step_refused:
  assumes "policy_step ids (st, p) (st', p')" "sn_refused p \<noteq> None"
  shows "st' = st \<and> sn_refused p' = sn_refused p"
  using assms(1)
proof (cases rule: policy_step_cases)
  case (start env)
  then show ?thesis using assms(2) by (simp add: startup_def)
next
  case (wait w clk sel w' ok)
  then show ?thesis using waitMode_frame(7) [OF wait(2)] assms(2) by simp
next
  case (sample env f ok)
  then show ?thesis using sampleAtBoundary_refused [OF assms(2)] by simp
next
  case (finish env e)
  then show ?thesis using sessionFinish_sample [OF finish(2)] assms(2) by auto
qed

lemma refused_waits:
  assumes "sn_refused p \<noteq> None" "waitMode p w clk sel = (p', w', ok)"
  shows "\<not> ok"
proof -
  have "sn_refused (sessionFail (fst (sessionClocks p clk)) (snd (snd (snd (sessionClocks p clk))))) = sn_refused p"
    using assms(1) by (simp add: sessionFail_refused)
  then show ?thesis using assms
    by (auto simp: waitMode_def Let_def split: if_splits option.splits prod.splits)
qed

interpretation refusal: invariant_system "policy_step ids"
  "\<lambda>x. fst x = st \<and> sn_refused (snd x) = Some e" for ids st e
  by unfold_locales (use policy_step_refused in force)

subsection \<open>The policy moves the store only through the ledger\<close>

lemma ledger_once: "ledger_step ids st st' \<Longrightarrow> (ledger_step ids)\<^sup>*\<^sup>* st st'"
  by (rule r_into_rtranclp)

lemma boundaryCall_ledger:
  assumes "sampleI64 q" "boundaryCall ids env st p q f = (st', c, ao, e)"
  shows "(ledger_step ids)\<^sup>*\<^sup>* st st'"
  using assms
  by (auto simp: boundaryCall_def split: option.splits prod.splits
      intro!: ledger_once intro: ledger_step.sample ledger_step.limited_sample)

lemma boundaryRequest_i64: "envI64 env \<Longrightarrow> sampleI64 (boundaryRequest env p)"
  unfolding boundaryRequest_def by (rule boundarySample_i64)

lemma sampleAtBoundary_ledger:
  assumes "envI64 env" and op: "sampleAtBoundary ids env st p f = (st', p', ok)"
  shows "(ledger_step ids)\<^sup>*\<^sup>* st st'"
proof (cases "sn_bypass p")
  case False
  show ?thesis
  proof (cases rule: sampleAtBoundary_cases [OF False op, case_names idle called])
    case (called p2 c ao e)
    then show ?thesis by (rule_tac boundaryCall_ledger [OF boundaryRequest_i64 [OF assms(1)]])
  qed simp
qed (use op in \<open>simp add: sampleAtBoundary_def\<close>)

lemma sessionOpenGap_ledger:
  assumes "sessionOpenGap ids env st p wall elapsed = (st', p', e)"
  shows "(ledger_step ids)\<^sup>*\<^sup>* st st'"
proof -
  have "st' = st \<or> (\<exists>q c a x. openCPUTrackingGap ids (se_op env) st q = (st', c, a, x))"
    using assms unfolding sessionOpenGap_def Let_def
    by (auto split: sum.splits prod.splits option.splits if_splits)
  then show ?thesis using ledger_once ledger_step.gap by fastforce
qed

lemma startupActivate_ledger:
  assumes "startupActivate ids env st p wall elapsed = (st', p', e)"
  shows "(ledger_step ids)\<^sup>*\<^sup>* st st'"
proof -
  have "\<exists>c x. ActivateCPUCharges ids (se_op env) st wall = (st', c, x)"
    using assms unfolding startupActivate_def Let_def by (auto split: prod.splits option.splits)
  then show ?thesis using ledger_once ledger_step.activate by fastforce
qed

lemma activatePeriod_ledger:
  assumes "activatePeriod ids env st p wall elapsed = (st', p', e)"
  shows "(ledger_step ids)\<^sup>*\<^sup>* st st'"
proof -
  have "\<exists>l c x. activateCPUChargeAdmission ids env st wall l = (st', c, x)"
    using assms unfolding activatePeriod_def Let_def by (auto split: prod.splits option.splits if_splits)
  then show ?thesis using ledger_once ledger_step.admission by fastforce
qed

lemma startupRecover_ledger:
  assumes op: "startupRecover ids env st p wall elapsed = (st', p', e)"
  shows "(ledger_step ids)\<^sup>*\<^sup>* st st'"
proof (cases "sn_period p")
  case None
  obtain s1 c x where r: "RecoverCPUSession ids (se_op env) st wall = (s1, c, x)" by (metis prod_cases3)
  have "st' = s1 \<or> (\<exists>p2. activatePeriod ids (se_op2 env) s1 p2 wall elapsed = (st', p', e))"
    using op None r unfolding startupRecover_def Let_def by (auto split: option.splits if_splits)
  then have "(ledger_step ids)\<^sup>*\<^sup>* s1 st'" using activatePeriod_ledger by auto
  with ledger_once [OF ledger_step.recover [OF r]] show ?thesis by (rule rtranclp_trans)
next
  case (Some pd)
  obtain s1 c a x where r: "recoverCPUSessionLimited ids (se_op env) st wall = (s1, c, a, x)"
    by (metis prod_cases4)
  then have "st' = s1" using op Some unfolding startupRecover_def Let_def by (auto split: option.splits)
  then show ?thesis using r by (auto intro: ledger_once [OF ledger_step.limited_recover])
qed

lemma sessionRequest_i64:
  "policyI64 p \<Longrightarrow> envI64 env \<Longrightarrow> sn_saved q = sn_saved p \<Longrightarrow>
   startI64 (sessionRequest q wall nonce (se_observe env))"
  by (simp add: sessionRequest_def startI64_def policyI64_def envI64_def split: sum.splits)

lemma startupBegin_ledger:
  assumes i: "policyI64 p" "envI64 env" and op: "startupBegin ids env st p = (st', p', e)"
  shows "(ledger_step ids)\<^sup>*\<^sup>* st st'"
proof (cases "st' = st")
  case False
  obtain p1 ce where cl: "sessionClocks p (se_clock2 env) = (p1, toUTC (fst (se_clock2 env)), snd (se_clock2 env), ce)"
    using sessionClocks_eq by blast
  then have f: "sn_saved p1 = sn_saved p" "sn_period p1 = sn_period p"
    using sessionClocks_frame [of p "se_clock2 env"] by simp_all
  from False obtain nonce where g: "ce = None" "se_nonce env = Inr nonce"
    using op unfolding startupBegin_def cl by (auto split: option.splits sum.splits)
  define rq where "rq = sessionRequest p1 (toUTC (fst (se_clock2 env))) nonce (se_observe env)"
  have ri: "startI64 rq" unfolding rq_def by (rule sessionRequest_i64 [OF i f(1)])
  show ?thesis
  proof (cases "sn_period p")
    case None
    have "\<exists>m c x. BeginCPUSession ids (se_op env) st rq = (st', m, c, x)"
      using op g None f unfolding startupBegin_def cl Let_def rq_def
      by (auto split: prod.splits option.splits if_splits)
    then show ?thesis using ledger_once ledger_step.start [OF ri] by blast
  next
    case (Some pd)
    let ?q = "\<lparr>q_Start = rq, q_ExpectedPolicyRevision = a_PolicyRevision (pp_saved pd), q_Limits = sn_limits p1\<rparr>"
    have "\<exists>m c a x. beginCPUSessionLimited ids (se_op env) st ?q = (st', m, c, a, x)"
      using op g Some f unfolding startupBegin_def cl Let_def rq_def
      by (auto split: prod.splits option.splits if_splits)
    moreover have "limitedI64 ?q" using ri i(1) Some by (simp add: limitedI64_def policyI64_def)
    ultimately show ?thesis using ledger_once ledger_step.limited_start by blast
  qed
qed simp

text \<open>What is read of an invariant store are int64 values.\<close>

lemma CPUCharges_i64:
  assumes "storeInv ids st" "CPUCharges ids env st = (c, None)"
  shows "i64 (s_Generation c)"
proof -
  have r: "readCPUCharges ids env (cs_db st) = (c, None)"
    using assms(2) finishView_ok [of env] by (fastforce simp: CPUCharges_def split: option.splits if_splits prod.splits)
  note ok = readCPUCharges_ok [OF r]
  show ?thesis
  proof (cases "15 \<le> db_version (cs_db st)")
    case True
    then show ?thesis using ok(4) assms(1)
      by (cases "db_version (cs_db st) = 15") (auto simp: dbInv_def admissionInv_def chargesI64_def)
  next
    case False
    then show ?thesis using ok(3) by (simp add: cpuChargesBase_def i64_def)
  qed
qed

lemma CPUChargeAdmission_i64:
  assumes "storeInv ids st" "CPUChargeAdmission ids env st = (a, None)" "a_Available a"
  shows "i64 (a_PolicyRevision a)"
proof -
  obtain c a1 v e where r: "admissionRead ids env (cs_db st) = (c, a1, v, e)" by (metis prod_cases4)
  have e: "e = None \<and> a1 = a"
    using assms(2) r admissionView_ok [of env c a1 None]
    by (fastforce simp: CPUChargeAdmission_def split: option.splits prod.splits)
  have rc: "readCPUCharges ids env (cs_db st) = (c, None)" "v = db_version (cs_db st)"
      "readCPUAdmission ids env 15 (cs_db st) c v = (a, None)"
    using r e by (auto simp: admissionRead_def split: option.splits prod.splits)
  have "\<not> v < 16" using rc(3) assms(3) by (auto simp: readCPUAdmission_base cpuAdmissionBase_def)
  then have "v = 16" using readCPUCharges_ok(2) [OF rc(1)] rc(2) by simp
  then have "admissionRead ids env (cs_db st) = (c, a, 16, None)" using r e by simp
  then have "admissionInv ids c a" by (rule limited_saved(4) [OF assms(1)])
  then show ?thesis by (simp add: admissionInv_def admissionI64_def)
qed

lemma sessionRoute_i64:
  assumes "storeInv ids st" "policyI64 p" "sessionRoute ids env st p wall elapsed = (p', None)"
  shows "policyI64 p'"
proof -
  obtain a e where a: "CPUChargeAdmission ids (se_view env) st = (a, e)" by fastforce
  obtain c e2 where c: "CPUCharges ids (se_charges env) st = (c, e2)" by fastforce
  show ?thesis
    using assms a c CPUChargeAdmission_i64 [OF assms(1), of "se_view env" a]
      CPUCharges_i64 [OF assms(1), of "se_charges env" c]
    by (auto simp: sessionRoute_def Let_def policyI64_def periodAccept_def split: if_splits option.splits)
qed

lemma startup_ledger:
  assumes inv: "storeInv ids st" "policyI64 p" "envI64 env"
    and op: "startup ids env st p = (st', p')"
  shows "(ledger_step ids)\<^sup>*\<^sup>* st st'"
proof (cases "st' = st")
  case False
  obtain p1 ce where cl: "sessionClocks p (se_clock env) = (p1, toUTC (fst (se_clock env)), snd (se_clock env), ce)"
    using sessionClocks_eq by blast
  then have p1: "policyI64 p1" using inv(2) sessionClocks_frame [of p "se_clock env"] by (simp add: policyI64_def)
  obtain p2 re where rt: "sessionRoute ids env st p1 (toUTC (fst (se_clock env))) (snd (se_clock env)) = (p2, re)" by fastforce
  have re: "re = None" using op False cl rt by (auto simp: startup_def split: if_splits option.splits)
  then have p2: "policyI64 p2" using sessionRoute_i64 [OF inv(1) p1] rt by simp
  have "(\<exists>p3 e. sessionOpenGap ids env st p2 (toUTC (fst (se_clock env))) (snd (se_clock env)) = (st', p3, e)) \<or>
    (\<exists>p3 e. startupActivate ids env st p2 (toUTC (fst (se_clock env))) (snd (se_clock env)) = (st', p3, e)) \<or>
    (\<exists>p3 e. startupRecover ids env st p2 (toUTC (fst (se_clock env))) (snd (se_clock env)) = (st', p3, e)) \<or>
    (\<exists>p3 e. startupBegin ids env st p2 = (st', p3, e))"
    using op False re unfolding startup_def cl rt Let_def prod.case
    by (auto split: if_splits option.splits prod.splits)
  then show ?thesis
    by (elim disjE exE)
      (erule sessionOpenGap_ledger startupActivate_ledger startupRecover_ledger
        startupBegin_ledger [OF p2 inv(3)])+
qed simp

lemma policy_step_ledger:
  assumes "policy_step ids (st, p) (st', p')" "storeInv ids st"
  shows "(ledger_step ids)\<^sup>*\<^sup>* st st'"
  using assms(1)
proof (cases rule: policy_step_cases)
  case (start env)
  then show ?thesis using startup_ledger [OF assms(2), of p env] by metis
next
  case (finish env e)
  then show ?thesis using sessionFinish_sample [OF finish(2)] sampleAtBoundary_ledger by blast
qed (use sampleAtBoundary_ledger in blast)+

interpretation policy_ledgers: invariant_system "policy_step ids"
  "\<lambda>x. storeInv ids (fst x) \<and> (ledger_step ids)\<^sup>*\<^sup>* st (fst x)" for ids st
proof
  fix x y
  assume a: "storeInv ids (fst x) \<and> (ledger_step ids)\<^sup>*\<^sup>* st (fst x)" "policy_step ids x y"
  then have r: "(ledger_step ids)\<^sup>*\<^sup>* (fst x) (fst y)"
    using policy_step_ledger [of ids "fst x" "snd x" "fst y" "snd y"] by simp
  show "storeInv ids (fst y) \<and> (ledger_step ids)\<^sup>*\<^sup>* st (fst y)"
    using a charged_ledger.run_inv [OF r] rtranclp_trans [OF _ r] by blast
qed

end
