(* ===== verification/Worker_Tracking.thy ===== *)
theory Worker_Tracking
  imports Worker_Session_Laws
begin

text \<open>
  What the session policy knows of the ledger: as long as it is neither refused nor bypassed, the
  ledger and the admission record it holds in memory are the ones in the store, one startup stage
  does one thing, and one policy begins at most one session.
\<close>

section \<open>What a successful call returns is what the store holds\<close>

definition holdsLedger :: "cpustore \<Rightarrow> CPUChargeState \<Rightarrow> bool" where
  "holdsLedger st c \<longleftrightarrow> ledgerOf (cs_db st) = Some c"

definition holdsAdmission :: "cpustore \<Rightarrow> CPUChargeAdmissionState \<Rightarrow> bool" where
  "holdsAdmission st a \<longleftrightarrow> db_admission (cs_db st) = CellRow (a_PolicyRevision a) a"

abbreviation genOf :: "cpustore \<Rightarrow> int" where "genOf st \<equiv> generationLevel (cs_db st)"

lemma holds_generation: "holdsLedger st c \<Longrightarrow> genOf st = s_Generation c"
  by (simp add: holdsLedger_def generationLevel_def)

lemma ledger_row: "db_charges (cs_db st) = CellRow g c \<Longrightarrow> holdsLedger st c"
  by (simp add: holdsLedger_def ledgerOf_def)

lemma activate_holds:
  assumes inv: "storeInv ids st" and op: "ActivateCPUCharges ids env st at = (st', c, None)"
  shows "holdsLedger st' c \<and> genOf st' = genOf st"
proof -
  let ?i = "if cpuChargesTime at then None else Some ErrCPUChargesInvalid"
  obtain prior where o: "bareOpen ids env st ?i = Inr prior"
    using op by (cases "bareOpen ids env st ?i") (auto simp: ActivateCPUCharges_def split: prod.splits)
  show ?thesis
  proof (cases "s_Available prior")
    case True
    obtain c1 e1 where f: "finishCPUChargesView env prior None = (c1, e1)" by fastforce
    have "st' = st \<and> c = c1 \<and> e1 = None" using op o True f by (simp add: ActivateCPUCharges_def)
    then have "st' = st" "c = prior" using finishView_ok f by blast+
    then show ?thesis using bare_saved(2) [OF inv o True] ledger_row by blast
  next
    case False
    then have v: "db_version (cs_db st) = 14"
      and com: "commitCPUCharges env st (migrate15 at (cs_db st)) prior (chargesActivated at) = (st', c, None)"
      using op o by (auto simp: ActivateCPUCharges_def split: if_splits option.splits)
    have "ledgerOf (cs_db st) = None" using inv v by (simp add: dbInv_def ledgerOf_def)
    then have "genOf st = 0" by (simp add: generationLevel_def)
    moreover have "holdsLedger st' c" "s_Generation c = 0"
      using commit_ok [OF com] by (simp_all add: holdsLedger_def ledgerOf_def chargesActivated_def cpuChargesBase_def)
    ultimately show ?thesis using holds_generation by simp
  qed
qed

lemma recover_holds:
  assumes inv: "storeInv ids st" and op: "RecoverCPUSession ids env st at = (st', c, None)"
  shows "holdsLedger st' c \<and> s_Generation c = genOf st \<and> s_Status c \<noteq> SActive"
proof -
  let ?i = "if cpuChargesTime at then None else Some ErrCPUChargesInvalid"
  obtain prior where o: "bareOpen ids env st ?i = Inr prior"
    using op by (cases "bareOpen ids env st ?i") (auto simp: RecoverCPUSession_def split: prod.splits)
  have t: "okTime at" "t_utc at" using bareOpen_ok(1) [OF o] by (simp_all split: if_splits)
  have av: "s_Available prior" "\<not> tBefore at (the (s_ClockHighWater prior))"
    using op o by (auto simp: RecoverCPUSession_def split: if_splits)
  note sv = bare_saved [OF inv o av(1)]
  note h = ledger_row [OF sv(2)]
  show ?thesis
  proof (cases "s_Status prior = SActive")
    case False
    have "(case s_Session prior of None \<Rightarrow> True | Some r \<Rightarrow> r_Status r \<noteq> SActive)"
      using status_session [OF sv(3)] False by (auto split: option.splits)
    then have "st' = st \<and> finishCPUChargesView env prior None = (c, None)"
      using op o av by (simp add: RecoverCPUSession_def split: prod.splits)
    then have "st' = st" "c = prior" using finishView_ok by blast+
    then show ?thesis using h holds_generation [OF h] False by simp
  next
    case True
    then obtain r where r: "s_Session prior = Some r" "r_Status r = SActive" using status_session [OF sv(3)] by blast
    then obtain n where n: "recoverCharges prior at = Inr n" "commitCPUCharges env st (cs_db st) prior n = (st', c, None)"
      using op o av by (auto simp: RecoverCPUSession_def split: sum.splits)
    note rv = recoverCharges_valid [OF sv(3,4) r t av(2) n(1)]
    have "holdsLedger st' c" "c = n" using commit_ok [OF n(2)] by (simp_all add: holdsLedger_def ledgerOf_def)
    then show ?thesis using rv holds_generation [OF h] by simp
  qed
qed

lemma recoverLimited_holds:
  assumes inv: "storeInv ids st" and op: "recoverCPUSessionLimited ids env st at = (st', c, a, None)"
  shows "holdsLedger st' c \<and> holdsAdmission st' a \<and> s_Generation c = genOf st \<and> s_Status c \<noteq> SActive"
proof -
  obtain c0 a0 v er where r: "admissionRead ids env (cs_db st) = (c0, a0, v, er)" by (metis prod_cases4)
  have g: "cpuAdmissionTime at \<and> er = None \<and> v = 16"
    using op r unfolding recoverCPUSessionLimited_def Let_def
    by (auto split: if_splits option.splits)
  then have r16: "admissionRead ids env (cs_db st) = (c0, a0, 16, None)" using r by simp
  note sv = limited_saved [OF inv r16]
  note h = ledger_row [OF sv(2)]
  show ?thesis
  proof (cases "s_Status c0 = SActive")
    case False
    then have "st' = st \<and> admissionView env c0 a0 None = (c, a, None)"
      using op r16 unfolding recoverCPUSessionLimited_def Let_def by (auto split: if_splits option.splits)
    then have "st' = st" "c = c0" "a = a0" using admissionView_ok by blast+
    then show ?thesis using h holds_generation [OF h] sv(3) False by (simp add: holdsAdmission_def)
  next
    case True
    then obtain nc na i where n: "limitedRecover ids c0 a0 at = Inr (nc, na)" "\<not> tBefore at (the (a_ClockHighWater a0))"
        "admissionPublish ids env st (cs_db st) c0 nc a0 na ''recover'' i = (st', c, a, None)"
      using op r16 unfolding recoverCPUSessionLimited_def Let_def by (auto split: if_splits option.splits sum.splits)
    note rv = limitedRecover_inv [OF sv(4) True conjunct1 [OF g] n(2,1)] and p = publish_ok [OF n(3)]
    show ?thesis using rv p holds_generation [OF h] by (simp add: holdsLedger_def ledgerOf_def holdsAdmission_def)
  qed
qed

lemma activateAdmission_holds:
  assumes inv: "storeInv ids st" "holdsLedger st c"
    and op: "activateCPUChargeAdmission ids env st at limits = (st', a, None)"
  shows "holdsLedger st' c \<and> (a_Available a \<longrightarrow> holdsAdmission st' a)"
proof -
  obtain c0 a0 v er where r: "admissionRead ids env (cs_db st) = (c0, a0, v, er)" by (metis prod_cases4)
  have g: "er = None \<and> (v = 16 \<or> v = 15)"
    using op r unfolding activateCPUChargeAdmission_def Let_def
    by (auto split: if_splits option.splits)
  show ?thesis
  proof (cases "v = 16")
    case True
    then have r16: "admissionRead ids env (cs_db st) = (c0, a0, 16, None)" using r g by simp
    have "st' = st \<and> (\<exists>x. admissionView env c0 a0 None = (x, a, None))"
      using op r16 unfolding activateCPUChargeAdmission_def Let_def by (auto split: if_splits option.splits prod.splits)
    then have "st' = st" "a = a0" using admissionView_ok by blast+
    then show ?thesis using inv(2) limited_saved(3) [OF inv(1) r16] by (simp add: holdsAdmission_def)
  next
    case False
    then have r15: "admissionRead ids env (cs_db st) = (c0, a0, 15, None)" using r g by auto
    have "holdsLedger st c0" using ledger_row [OF admissionRead_v15(2) [OF r15 refl]] .
    then have c0: "c0 = c" using inv(2) by (simp add: holdsLedger_def)
    obtain na i x where "admissionPublish ids env st (migrate16 at (cs_db st)) c0 c0 a0 na ''activate'' i = (st', x, a, None)"
      using op r15 unfolding activateCPUChargeAdmission_def Let_def
      by (auto split: if_splits option.splits sum.splits prod.splits)
    note p = publish_ok [OF this]
    show ?thesis using p c0 by (simp add: holdsLedger_def ledgerOf_def holdsAdmission_def)
  qed
qed

lemma started_session:
  assumes "startSession s start = Inr n"
  shows "\<exists>r. s_Session n = Some r \<and> r_Start r = start"
  using assms
  by (auto simp: startSession_def cpuChargesClose_def cpuChargesDebt_def freshSession_def Let_def
      split: if_splits sum.splits prod.splits)

lemma begin_holds:
  assumes inv: "storeInv ids st" "startI64 start"
    and op: "BeginCPUSession ids env st start = (st', Some m, c, None)"
  shows "holdsLedger st' c \<and> s_Generation c = genOf st + 1 \<and> sm_generation m = s_Generation c \<and>
    sm_start m = start \<and> (\<exists>r. s_Session c = Some r \<and> r_Start r = start)"
proof -
  let ?i = "if cpuChargesStartValid start then None else Some ErrCPUChargesInvalid"
  obtain prior where o: "bareOpen ids env st ?i = Inr prior"
    using op by (cases "bareOpen ids env st ?i") (auto simp: BeginCPUSession_def split: prod.splits)
  have v: "cpuChargesStartValid start" using bareOpen_ok(1) [OF o] by (simp split: if_splits)
  have "s_Available prior \<and> st_ExpectedGeneration start = s_Generation prior \<and>
      \<not> tBefore (st_ObservedAt start) (the (s_ClockHighWater prior)) \<and> s_Generation prior \<noteq> maxInt64 \<and>
      (\<exists>n. beginCharges prior start = Inr n \<and> commitCPUCharges env st (cs_db st) prior n = (st', c, None) \<and>
         sm_generation m = s_Generation n \<and> sm_start m = start)"
    using op o unfolding BeginCPUSession_def Let_def
    by (auto split: if_splits sum.splits option.splits prod.splits)
  then obtain n where b: "s_Available prior" "st_ExpectedGeneration start = s_Generation prior"
      "\<not> tBefore (st_ObservedAt start) (the (s_ClockHighWater prior))" "s_Generation prior \<noteq> maxInt64"
      "beginCharges prior start = Inr n" "commitCPUCharges env st (cs_db st) prior n = (st', c, None)"
      "sm_generation m = s_Generation n" "sm_start m = start" by blast
  note sv = bare_saved [OF inv(1) o b(1)]
  note bv = beginCharges_valid [OF sv(3,4) v inv(2) b(2,4,3,5)]
  have "holdsLedger st' c" "c = n" using commit_ok [OF b(6)] by (simp_all add: holdsLedger_def ledgerOf_def)
  then show ?thesis using bv b(7,8) holds_generation [OF ledger_row [OF sv(2)]] by auto
qed

lemma beginLimited_holds:
  assumes inv: "storeInv ids st" "limitedI64 q"
    and op: "beginCPUSessionLimited ids env st q = (st', Some m, c, a, None)"
  shows "holdsLedger st' c \<and> holdsAdmission st' a \<and>
    (s_Generation c = genOf st + 1 \<and> lm_generation m = s_Generation c \<and> lm_revision m = a_PolicyRevision a \<and>
     lm_request m = q \<and> (\<exists>r. s_Session c = Some r \<and> r_Start r = q_Start q))"
proof -
  obtain c0 a0 v er where r: "admissionRead ids env (cs_db st) = (c0, a0, v, er)" by (metis prod_cases4)
  have g: "validCPULimitedStart q \<and> er = None \<and> v = 16 \<and> st_ExpectedGeneration (q_Start q) = s_Generation c0 \<and>
      q_ExpectedPolicyRevision q = a_PolicyRevision a0 \<and>
      \<not> tBefore (st_ObservedAt (q_Start q)) (the (a_ClockHighWater a0)) \<and> s_Status c0 \<noteq> SActive \<and>
      s_Generation c0 \<noteq> maxInt64 \<and> a_PolicyRevision a0 \<noteq> maxInt64 \<and>
      (\<exists>nc na. limitedBegin ids c0 a0 q = Inr (nc, na) \<and> lm_generation m = s_Generation nc \<and>
         lm_revision m = a_PolicyRevision na \<and> lm_request m = q \<and>
         admissionPublish ids env st (cs_db st) c0 nc a0 na ''begin'' (id_begin ids q) = (st', c, a, None))"
    using op r unfolding beginCPUSessionLimited_def Let_def
    by (auto split: if_splits sum.splits option.splits prod.splits)
  then obtain nc na where n: "limitedBegin ids c0 a0 q = Inr (nc, na)" "lm_generation m = s_Generation nc"
      "lm_revision m = a_PolicyRevision na" "lm_request m = q"
      "admissionPublish ids env st (cs_db st) c0 nc a0 na ''begin'' (id_begin ids q) = (st', c, a, None)" by blast
  have r16: "admissionRead ids env (cs_db st) = (c0, a0, 16, None)" using r g by simp
  note sv = limited_saved [OF inv(1) r16]
  have lb: "s_Generation nc = s_Generation c0 + 1"
    by (rule limitedBegin_inv [OF sv(4) _ _ inv(2) _ _ _ _ _ n(1)]; use g in blast)
  have "startSession c0 (q_Start q) = Inr nc"
    using n(1) by (auto simp: limitedBegin_def cpuLimitedBeginState_eq Let_def split: sum.splits)
  then have "\<exists>r. s_Session nc = Some r \<and> r_Start r = q_Start q" by (rule started_session)
  then show ?thesis
    using publish_ok [OF n(5)] n(2-4) lb holds_generation [OF ledger_row [OF sv(2)]]
    by (auto simp: holdsLedger_def ledgerOf_def holdsAdmission_def)
qed

text \<open>What a successful sample keeps of the ledger before it.\<close>

definition sameSession :: "CPUChargeState \<Rightarrow> CPUChargeState \<Rightarrow> bool" where
  "sameSession c0 c \<longleftrightarrow> s_Generation c = s_Generation c0 \<and> (s_Status c = SActive \<or> s_Status c = SFinished) \<and>
     (\<exists>r0 r. s_Session c0 = Some r0 \<and> s_Session c = Some r \<and> r_Start r = r_Start r0)"

lemma accepted_status:
  assumes "acceptedSample q f c"
  shows "s_Status c = SActive \<or> s_Status c = SFinished"
proof -
  obtain r p where r: "validCPUCharges c" "s_Session c = Some r" "r_Status r = SActive \<or> r_Status r = SFinished"
    by (rule acceptedE [OF assms]) blast
  then have "s_Generation c \<noteq> 0" by (auto simp: validCPUCharges_def validChargesUntracked_def)
  then have "r_Status r = s_Status c" using r by (simp add: validCPUCharges_def validChargesSession_def)
  then show ?thesis using r(3) by simp
qed

lemma sample_holds:
  assumes inv: "storeInv ids st" "sampleI64 q" "holdsLedger st c0"
    and op: "sampleCPUSession ids env st m q f = (st', c, None)"
  shows "holdsLedger st' c \<and> sameSession c0 c"
proof -
  note acc = sampleCPUSession_accepted [OF inv(1,2) op]
  let ?i = "if sm_store m \<noteq> cs_id st \<or> sm_generation m \<le> 0 \<or> \<not> cpuChargesStartValid (sm_start m) \<or>
      \<not> cpuChargesSampleValid q then Some ErrCPUChargesStale else None"
  obtain prior where o: "bareOpen ids env st ?i = Inr prior" "s_Available prior"
    using op unfolding sampleCPUSession_def by (auto split: sum.splits if_splits)
  note sv = bare_saved [OF inv(1) o]
  have prior: "prior = c0" using ledger_row [OF sv(2)] inv(3) by (simp add: holdsLedger_def)
  have qv: "cpuChargesSampleValid q" using bareOpen_ok(1) [OF o(1)] by (auto split: if_splits)
  obtain r where r: "s_Session prior = Some r"
    using op o by (auto simp: sampleCPUSession_def split: option.splits)
  have "(\<exists>out. finishCPUChargesView env prior out = (c, None)) \<or>
      (\<exists>n problem. sampleCharges prior q f = Inr (n, problem) \<and> r_Status r = SActive \<and>
        commitCPUCharges env st (cs_db st) prior n = (st', c, None))"
    using op o r unfolding sampleCPUSession_def Let_def
    by (auto split: if_splits sum.splits option.splits prod.splits)
  then show ?thesis
  proof (elim disjE exE conjE)
    fix out assume "finishCPUChargesView env prior out = (c, None)"
    then have "c = prior" using finishView_ok by blast
    then show ?thesis using acc accepted_status r prior by (auto simp: holdsLedger_def sameSession_def)
  next
    fix n problem
    assume n: "sampleCharges prior q f = Inr (n, problem)" "r_Status r = SActive"
      "commitCPUCharges env st (cs_db st) prior n = (st', c, None)"
    have "s_Generation n = s_Generation prior" "\<exists>r'. s_Session n = Some r' \<and> r_Start r' = r_Start r"
      using sampleCharges_valid [OF sv(3,4) r n(2) qv inv(2) n(1) refl] by blast+
    then show ?thesis using acc accepted_status [OF conjunct2 [OF acc]] commit_ok(1) [OF n(3)] r prior
      by (simp add: holdsLedger_def sameSession_def)
  qed
qed

lemma sampleLimited_holds:
  assumes inv: "storeInv ids st" "sampleI64 q" "holdsLedger st c0"
    and op: "sampleCPUSessionLimited ids env st m q f = (st', c, a, None)"
  shows "holdsLedger st' c \<and> holdsAdmission st' a \<and> sameSession c0 c \<and> a_PolicyRevision a = lm_revision m"
proof -
  note acc = sampleCPUSessionLimited_accepted [OF inv(1,2) op]
  obtain c1 a1 v er where r: "admissionRead ids env (cs_db st) = (c1, a1, v, er)" by (metis prod_cases4)
  have g: "cpuChargesSampleValid q \<and> cpuAdmissionTime (sp_ObservedAt q) \<and> er = None \<and> v = 16 \<and>
      a_BeginRequest a1 \<noteq> None \<and> a_PolicyRevision a1 = lm_revision m"
    using op r unfolding sampleCPUSessionLimited_def Let_def
    by (auto split: if_splits sum.splits option.splits prod.splits)
  then have r16: "admissionRead ids env (cs_db st) = (c1, a1, 16, None)" using r by simp
  note sv = limited_saved [OF inv(1) r16]
  have c1: "c1 = c0" using ledger_row [OF sv(2)] inv(3) by (simp add: holdsLedger_def)
  have vc: "validCPUCharges c1" "chargesI64 c1" "validAdmissionBegin a1 c1"
    using sv(4) by (simp_all add: admissionInv_def validCPUAdmission_def validAdmissionHeader_def)
  obtain rr where rr: "s_Session c1 = Some rr"
    using vc(3) g by (cases "s_Session c1") (auto simp: validAdmissionBegin_def split: option.splits)
  have "(st' = st \<and> (\<exists>out. admissionView env c1 a1 out = (c, a, None))) \<or>
      (\<exists>nc na i. limitedSample ids c1 a1 q f = Inr (nc, na) \<and> r_Status rr = SActive \<and>
        admissionPublish ids env st (cs_db st) c1 nc a1 na ''sample'' i = (st', c, a, None))"
    using op r16 rr unfolding sampleCPUSessionLimited_def Let_def
    by (auto split: if_splits sum.splits option.splits prod.splits)
  then show ?thesis
  proof (elim disjE exE conjE)
    fix out assume "st' = st" "admissionView env c1 a1 out = (c, a, None)"
    then have "st' = st" "c = c1" "a = a1" using admissionView_ok by blast+
    then show ?thesis using acc accepted_status rr c1 g sv(3) by (auto simp: holdsLedger_def sameSession_def holdsAdmission_def)
  next
    fix nc na i
    assume n: "limitedSample ids c1 a1 q f = Inr (nc, na)" "r_Status rr = SActive"
      "admissionPublish ids env st (cs_db st) c1 nc a1 na ''sample'' i = (st', c, a, None)"
    have ls: "a_PolicyRevision na = a_PolicyRevision a1"
        "sampleCharges c1 q f = Inr (nc, sampleProblemAt rr q (the (s_ClockHighWater c1)))"
      using limitedSample_inv [OF sv(4) rr n(2) _ inv(2) _ n(1)] g by blast+
    have "s_Generation nc = s_Generation c1" "\<exists>r'. s_Session nc = Some r' \<and> r_Start r' = r_Start rr"
      using sampleCharges_valid [OF vc(1,2) rr n(2) _ inv(2) ls(2) refl] g by blast+
    then show ?thesis using g acc accepted_status [OF conjunct2 [OF acc]] publish_ok [OF n(3)] rr c1 ls(1)
      by (simp add: holdsLedger_def sameSession_def holdsAdmission_def)
  qed
qed

section \<open>The policy tracks the store\<close>

text \<open>The session in the policy's ledger is the one it began: its instance, its marker.\<close>

definition ownSession :: "cpuSessionPolicy \<Rightarrow> bool" where
  "ownSession p \<longleftrightarrow> (\<exists>r. s_Session (sn_saved p) = Some r \<and> st_Instance (r_Start r) = sn_instance p \<and>
     (case sn_period p of
        None \<Rightarrow> \<exists>m. sn_marker p = Some m \<and> sm_generation m = s_Generation (sn_saved p) \<and> sm_start m = r_Start r
      | Some pd \<Rightarrow> \<exists>m. pp_marker pd = Some m \<and> lm_generation m = s_Generation (sn_saved p) \<and>
          lm_revision m = a_PolicyRevision (pp_saved pd) \<and> q_Start (lm_request m) = r_Start r))"

definition tracks :: "int \<Rightarrow> cpustore \<Rightarrow> cpuSessionPolicy \<Rightarrow> bool" where
  "tracks g st p \<longleftrightarrow> sn_stage p \<le> 3 \<and>
     (0 < sn_stage p \<or> sn_period p \<noteq> None \<longrightarrow> holdsLedger st (sn_saved p)) \<and>
     (0 < sn_stage p \<longrightarrow> sn_selectProtocol p \<longrightarrow> sn_routed p) \<and>
     (\<forall>pd. sn_period p = Some pd \<longrightarrow> holdsAdmission st (pp_saved pd)) \<and>
     genOf st = g + (if sn_stage p = 3 then 1 else 0) \<and>
     (sn_stage p = 2 \<longrightarrow> s_Status (sn_saved p) \<noteq> SActive) \<and>
     (sn_stage p = 3 \<longrightarrow> (s_Status (sn_saved p) = SActive \<or> s_Status (sn_saved p) = SFinished) \<and> ownSession p)"

lemma ownSession_cong:
  assumes "sn_saved q = sn_saved p" "sn_instance q = sn_instance p" "sn_period q = sn_period p" "sn_marker q = sn_marker p"
  shows "ownSession q = ownSession p"
  unfolding ownSession_def assms ..

lemma tracks_cong:
  assumes "sn_saved q = sn_saved p" "sn_instance q = sn_instance p" "sn_period q = sn_period p" "sn_marker q = sn_marker p"
    "sn_stage q = sn_stage p" "sn_selectProtocol q = sn_selectProtocol p" "sn_routed q = sn_routed p"
  shows "tracks g st q = tracks g st p"
  unfolding tracks_def assms ownSession_cong [OF assms(1-4)] ..

lemma clocks_fields [simp]:
  "sn_routed (fst (sessionClocks p clk)) = sn_routed p"
  "sn_selectProtocol (fst (sessionClocks p clk)) = sn_selectProtocol p"
  "sn_instance (fst (sessionClocks p clk)) = sn_instance p"
  by (simp_all add: sessionClocks_def Let_def)

lemma clocks_tracks [simp]: "tracks g st (fst (sessionClocks p clk)) = tracks g st p"
  by (rule tracks_cong) simp_all

lemma fail_tracks [simp]: "tracks g st (sessionFail p e) = tracks g st p"
  by (rule tracks_cong) (simp_all add: sessionFail_def split: option.splits)

lemma accept_tracks [simp]:
  "sn_routed (sessionAccept p s wall elapsed i) = sn_routed p"
  "sn_selectProtocol (sessionAccept p s wall elapsed i) = sn_selectProtocol p"
  "sn_instance (sessionAccept p s wall elapsed i) = sn_instance p"
  "sn_marker (sessionAccept p s wall elapsed i) = sn_marker p"
  "sn_limits (sessionAccept p s wall elapsed i) = sn_limits p"
  by (simp_all add: sessionAccept_def Let_def)

lemma periodAccept_simps [simp]:
  "pp_saved (periodAccept pd a wall elapsed) = a" "pp_marker (periodAccept pd a wall elapsed) = pp_marker pd"
  by (simp_all add: periodAccept_def)

lemma CPUCharges_holds:
  assumes "CPUCharges ids env st = (c, None)" "15 \<le> db_version (cs_db st)"
  shows "holdsLedger st c"
proof -
  have "readCPUCharges ids env (cs_db st) = (c, None)"
    using assms(1) finishView_ok [of env] by (fastforce simp: CPUCharges_def split: option.splits if_splits prod.splits)
  then show ?thesis using readCPUCharges_ok(4) assms(2) ledger_row by blast
qed

lemma CPUChargeAdmission_holds:
  assumes "CPUChargeAdmission ids env st = (a, None)" "a_Available a"
  shows "holdsAdmission st a" "db_version (cs_db st) = 16"
proof -
  obtain c a1 v e where r: "admissionRead ids env (cs_db st) = (c, a1, v, e)" by (metis prod_cases4)
  have e: "e = None \<and> a1 = a"
    using assms(1) r admissionView_ok [of env c a1 None]
    by (fastforce simp: CPUChargeAdmission_def split: option.splits prod.splits)
  have rc: "readCPUCharges ids env (cs_db st) = (c, None)" "v = db_version (cs_db st)"
      "readCPUAdmission ids env 15 (cs_db st) c v = (a, None)"
    using r e by (auto simp: admissionRead_def split: option.splits prod.splits)
  have "\<not> v < 16" using rc(3) assms(2) by (auto simp: readCPUAdmission_base cpuAdmissionBase_def)
  then have "v = 16" using readCPUCharges_ok(2) [OF rc(1)] rc(2) by simp
  then have "admissionRead ids env (cs_db st) = (c, a, 16, None)" using r e by simp
  from admissionRead_ok [OF this refl] show "holdsAdmission st a" "db_version (cs_db st) = 16"
    by (simp_all add: holdsAdmission_def)
qed

lemma route_tracks:
  assumes t: "tracks g st p" "\<not> sn_bypass p" and op: "sessionRoute ids env st p wall elapsed = (p', None)"
    and nb: "\<not> sn_bypass p'"
  shows "tracks g st p' \<and> (sn_selectProtocol p' \<longrightarrow> sn_routed p') \<and> sn_stage p' = sn_stage p \<and> sn_refused p' = sn_refused p"
proof (cases "\<not> sn_selectProtocol p \<or> sn_routed p")
  case True
  then show ?thesis using t op by (auto simp: sessionRoute_def)
next
  case False
  then have s0: "sn_stage p = 0" using t(1) by (auto simp: tracks_def)
  obtain a x where a: "CPUChargeAdmission ids (se_view env) st = (a, x)" by fastforce
  obtain c e2 where c: "CPUCharges ids (se_charges env) st = (c, e2)" by fastforce
  have x: "x = None" using op False a by (simp add: sessionRoute_def split: option.splits)
  show ?thesis
  proof (cases "a_Available a")
    case True
    then have e2: "e2 = None" "p' = sessionAccept (p\<lparr>sn_routed := True,
        sn_period := Some (periodAccept (newPeriodPolicy (sn_limits p)) a wall elapsed), sn_saved := c\<rparr>) c wall elapsed 0"
      using op False a c x by (auto simp: sessionRoute_def Let_def split: option.splits if_splits)
    have "holdsAdmission st a" "holdsLedger st c"
      using CPUChargeAdmission_holds [of ids "se_view env" st a] CPUCharges_holds [of ids "se_charges env" st c] a c x e2(1) True
      by simp_all
    then show ?thesis using t(1) s0 e2(2) by (simp add: tracks_def)
  next
    case unav: False
    then have "p' = p\<lparr>sn_routed := True\<rparr>"
      using op False a x nb by (auto simp: sessionRoute_def Let_def split: if_splits)
    then show ?thesis using t(1) s0 by (simp add: tracks_def)
  qed
qed

lemma startupActivate_tracks:
  assumes inv: "storeInv ids st" "tracks g st p" "sn_stage p = 0" "sn_period p = None" "sn_selectProtocol p \<longrightarrow> sn_routed p"
    and op: "startupActivate ids env st p wall elapsed = (st', p', None)"
  shows "tracks g st' (p'\<lparr>sn_stage := Suc (sn_stage p')\<rparr>)"
proof -
  obtain c where c: "ActivateCPUCharges ids (se_op env) st wall = (st', c, None)"
      "p' = sessionAccept (p\<lparr>sn_operation := ''activate'', sn_operationAt := wall\<rparr>) c wall elapsed 0"
    using op by (auto simp: startupActivate_def Let_def split: prod.splits option.splits)
  show ?thesis using activate_holds [OF inv(1) c(1)] inv(2-5) c(2) by (simp add: tracks_def)
qed

lemma startupRecover_tracks:
  assumes inv: "storeInv ids st" "tracks g st p" "sn_stage p = 1"
    and op: "startupRecover ids env st p wall elapsed = (st', p', None)"
  shows "tracks g st' (p'\<lparr>sn_stage := Suc (sn_stage p')\<rparr>)"
proof (cases "sn_period p")
  case (Some pd)
  obtain c a i where c: "recoverCPUSessionLimited ids (se_op env) st wall = (st', c, a, None)"
      "p' = (sessionAccept (p\<lparr>sn_operation := ''recover'', sn_operationAt := wall\<rparr>) c wall elapsed i)
         \<lparr>sn_period := Some (periodAccept pd a wall elapsed)\<rparr>"
    using op Some by (auto simp: startupRecover_def Let_def split: prod.splits option.splits)
  note r = recoverLimited_holds [OF inv(1) c(1)]
  then show ?thesis using holds_generation [of st' c] inv(2,3) c(2) by (simp add: tracks_def)
next
  case None
  obtain s1 c i where c: "RecoverCPUSession ids (se_op env) st wall = (s1, c, None)"
      "(let p2 = sessionAccept (p\<lparr>sn_operation := ''recover'', sn_operationAt := wall\<rparr>) c wall elapsed i
        in if l_HourNS (sn_limits p2) > 0 \<or> l_DayNS (sn_limits p2) > 0
           then activatePeriod ids (se_op2 env) s1 p2 wall elapsed else (s1, p2, None)) = (st', p', None)"
    using op None by (auto simp: startupRecover_def Let_def split: prod.splits option.splits)
  note r = recover_holds [OF inv(1) c(1)]
  let ?p2 = "sessionAccept (p\<lparr>sn_operation := ''recover'', sn_operationAt := wall\<rparr>) c wall elapsed i"
  show ?thesis
  proof (cases "l_HourNS (sn_limits ?p2) > 0 \<or> l_DayNS (sn_limits ?p2) > 0")
    case False
    then have "st' = s1" "p' = ?p2" using c(2) by (simp_all add: Let_def)
    then show ?thesis using r holds_generation [of s1 c] inv(2,3) None by (simp add: tracks_def)
  next
    case True
    then have "activatePeriod ids (se_op2 env) s1 ?p2 wall elapsed = (st', p', None)" using c(2) by (simp add: Let_def)
    then obtain a where a: "activateCPUChargeAdmission ids (se_op2 env) s1 wall (sn_limits ?p2) = (st', a, None)" "a_Available a"
        "p' = ?p2\<lparr>sn_operation := ''activate_period'', sn_operationAt := wall,
           sn_period := Some (periodAccept (newPeriodPolicy (sn_limits ?p2)) a wall elapsed)\<rparr>"
      by (auto simp: activatePeriod_def Let_def split: prod.splits option.splits if_splits)
    have "storeInv ids s1" using RecoverCPUSession_move [OF inv(1) c(1)] by (simp add: dbMove_def)
    then have h: "holdsLedger st' c" "holdsAdmission st' a"
      using activateAdmission_holds [OF _ conjunct1 [OF r] a(1)] a(2) by simp_all
    have "genOf st' = genOf st" using holds_generation [OF h(1)] r by simp
    then show ?thesis using r h inv(2,3) unfolding a(3) tracks_def by simp
  qed
qed

lemma beginAccept_ok:
  assumes "beginAccept p c wall elapsed = (p', None)"
  shows "s_Status c = SActive" "p' = (sessionAccept p c wall elapsed (r_LastBackoffNS (the (s_Session c))))\<lparr>sn_observedElapsed := elapsed\<rparr>"
  using assms by (auto simp: beginAccept_def split: option.splits if_splits)

lemma startupBegin_tracks:
  assumes inv: "storeInv ids st" "tracks g st p" "sn_stage p = 2" "policyI64 p" "envI64 env"
    and op: "startupBegin ids env st p = (st', p', None)"
  shows "tracks g st' (p'\<lparr>sn_stage := Suc (sn_stage p')\<rparr>)"
proof -
  obtain p1 ce where cl: "sessionClocks p (se_clock2 env) = (p1, toUTC (fst (se_clock2 env)), snd (se_clock2 env), ce)"
    using sessionClocks_eq by blast
  then have p1: "p1 = fst (sessionClocks p (se_clock2 env))" by simp
  then have f: "sn_saved p1 = sn_saved p" "sn_period p1 = sn_period p" "sn_stage p1 = 2" "tracks g st p1" "sn_instance p1 = sn_instance p"
    using inv(2,3) by simp_all
  obtain nonce where n: "ce = None" "se_nonce env = Inr nonce"
    using op unfolding startupBegin_def cl by (auto split: option.splits sum.splits)
  define wall elapsed where "wall = toUTC (fst (se_clock2 env))" and "elapsed = snd (se_clock2 env)"
  define rq where "rq = sessionRequest p1 wall nonce (se_observe env)"
  have ri: "startI64 rq" "st_Instance rq = sn_instance p"
    unfolding rq_def by (rule sessionRequest_i64 [OF inv(4,5) f(1)]) (simp add: sessionRequest_def f(5))
  define p2 where "p2 = p1\<lparr>sn_start := Some rq, sn_operation := ''begin'', sn_operationAt := wall\<rparr>"
  show ?thesis
  proof (cases "sn_period p")
    case None
    obtain m c where c: "BeginCPUSession ids (se_op env) st rq = (st', Some m, c, None)"
        "beginAccept (p2\<lparr>sn_marker := Some m\<rparr>) c wall elapsed = (p', None)"
      using op n None f(2) unfolding startupBegin_def cl Let_def rq_def p2_def wall_def elapsed_def
      by (auto split: prod.splits option.splits if_splits)
    note b = begin_holds [OF inv(1) ri(1) c(1)] and ba = beginAccept_ok [OF c(2)]
    show ?thesis
      using b ba(1) f inv(2,3) None ri(2) holds_generation [of st' c]
      unfolding ba(2) tracks_def ownSession_def p2_def by auto
  next
    case (Some pd)
    define q where "q = \<lparr>q_Start = rq, q_ExpectedPolicyRevision = a_PolicyRevision (pp_saved pd), q_Limits = sn_limits p2\<rparr>"
    obtain m c a p4 where c: "beginCPUSessionLimited ids (se_op env) st q = (st', Some m, c, a, None)"
        "beginAccept (p2\<lparr>sn_period := Some (pd\<lparr>pp_start := Some q, pp_marker := Some m\<rparr>)\<rparr>) c wall elapsed = (p4, None)"
        "p' = p4\<lparr>sn_period := Some (periodAccept (pd\<lparr>pp_start := Some q, pp_marker := Some m\<rparr>) a wall elapsed)\<rparr>"
      using op n Some f(2) unfolding startupBegin_def cl Let_def rq_def p2_def wall_def elapsed_def q_def
      by (auto split: prod.splits option.splits if_splits)
    have "limitedI64 q" using ri(1) inv(4) Some by (simp add: limitedI64_def policyI64_def q_def)
    note b = beginLimited_holds [OF inv(1) this c(1)] and ba = beginAccept_ok [OF c(2)]
    show ?thesis
      using b ba(1) f inv(2,3) Some ri(2) holds_generation [of st' c]
      unfolding c(3) ba(2) tracks_def ownSession_def p2_def by (auto simp: q_def)
  qed
qed

lemma failed_refused: "sn_refused (sessionFail p (Some x)) \<noteq> None"
  using sessionFail_refused(2) by blast

lemma gap_bypasses:
  assumes "sessionOpenGap ids env st p wall elapsed = (st', p', e)" "sn_refused (sessionFail p' e) = None"
  shows "sn_bypass (sessionFail p' e)"
proof -
  have "e = None" using assms(2) by (simp add: sessionFail_refused(3))
  then show ?thesis
    using assms(1) unfolding sessionOpenGap_def Let_def by (auto split: sum.splits prod.splits option.splits if_splits)
qed

text \<open>A call of \<open>startup\<close> that leaves the policy neither refused nor bypassed: it was live already, or
  the wall clock is behind the saved one, or exactly one stage was completed.\<close>

lemma startup_progress:
  assumes op: "startup ids env st p = (st', p')" and live: "sn_refused p' = None" "\<not> sn_bypass p'"
  obtains (finished) "sn_refused p \<noteq> None \<or> 3 \<le> sn_stage p" "st' = st" "p' = p"
  | (stage) wall elapsed p2 p3 where "sn_refused p = None" "sn_stage p < 3" "\<not> sn_bypass p2"
    "sessionRoute ids env st (fst (sessionClocks p (se_clock env))) wall elapsed = (p2, None)"
    "(st', p') = (st, p2) \<or>
     (st', p') = (st, p2\<lparr>sn_stage := 1\<rparr>) \<and> sn_stage p2 = 0 \<and> sn_period p2 \<noteq> None \<or>
     p' = p3\<lparr>sn_stage := Suc (sn_stage p3)\<rparr> \<and>
       (sn_stage p2 = 0 \<and> sn_period p2 = None \<and> startupActivate ids env st p2 wall elapsed = (st', p3, None) \<or>
        sn_stage p2 = 1 \<and> startupRecover ids env st p2 wall elapsed = (st', p3, None) \<or>
        1 < sn_stage p2 \<and> startupBegin ids env st p2 = (st', p3, None))"
proof (cases "sn_refused p \<noteq> None \<or> 3 \<le> sn_stage p")
  case True
  then show thesis using finished op by (auto simp: startup_def)
next
  case False
  obtain p1 ce where cl: "sessionClocks p (se_clock env) = (p1, toUTC (fst (se_clock env)), snd (se_clock env), ce)"
    using sessionClocks_eq by blast
  define wall elapsed where "wall = toUTC (fst (se_clock env))" and "elapsed = snd (se_clock env)"
  note cl = cl [folded wall_def elapsed_def]
  obtain p2 re where rt: "sessionRoute ids env st p1 wall elapsed = (p2, re)" by fastforce
  have ce: "ce = None"
    using op False cl live(1) by (cases ce) (auto simp: startup_def sessionFail_refused(3))
  have re: "re = None"
    using op False cl rt ce live(1) by (cases re) (auto simp: startup_def sessionFail_refused(3))
  obtain st3 p3 e where g: "sessionOpenGap ids env st p2 wall elapsed = (st3, p3, e)" using prod_cases3 by blast
  obtain st4 p4 x where c: "(if sn_stage p2 = 0 then startupActivate ids env st p2 wall elapsed
      else if sn_stage p2 = 1 then startupRecover ids env st p2 wall elapsed else startupBegin ids env st p2) = (st4, p4, x)"
    using prod_cases3 by blast
  have F: "(sn_refused p \<noteq> None \<or> 3 \<le> sn_stage p) = False" using False by blast
  have step: "(st', p') = (if sn_bypass p2 then (st, p2)
        else if (case s_ClockHighWater (sn_saved p2) of None \<Rightarrow> False | Some h \<Rightarrow> tBefore wall h) then (st, p2)
        else if sn_period p2 \<noteq> None \<and> sn_selectProtocol p2 \<and> \<not> sn_tracking p2 then (st3, sessionFail p3 e)
        else if sn_stage p2 = 0 \<and> sn_period p2 \<noteq> None then (st, p2\<lparr>sn_stage := 1\<rparr>)
        else case x of Some y \<Rightarrow> (st4, sessionFail p4 (Some y)) | None \<Rightarrow> (st4, p4\<lparr>sn_stage := Suc (sn_stage p4)\<rparr>))"
    using op [symmetric] unfolding startup_def F if_False cl Let_def prod.case ce option.case rt re g c .
  have b2: "\<not> sn_bypass p2" using step live(2) by auto
  have ng: "(st', p') \<noteq> (st3, sessionFail p3 e)" using gap_bypasses [OF g] live by auto
  have "x \<noteq> None \<Longrightarrow> (st', p') \<noteq> (case x of Some y \<Rightarrow> (st4, sessionFail p4 (Some y)) | None \<Rightarrow> (st4, p4\<lparr>sn_stage := Suc (sn_stage p4)\<rparr>))"
    using live(1) by (auto simp: sessionFail_refused(3))
  then have "(st', p') = (st, p2) \<or>
     (st', p') = (st, p2\<lparr>sn_stage := 1\<rparr>) \<and> sn_stage p2 = 0 \<and> sn_period p2 \<noteq> None \<or>
     p' = p4\<lparr>sn_stage := Suc (sn_stage p4)\<rparr> \<and> st' = st4 \<and> x = None \<and> (sn_stage p2 = 0 \<longrightarrow> sn_period p2 = None)"
    using step b2 ng by (cases x) (auto split: if_splits)
  then show thesis
    using stage [of p2 wall elapsed p4] False b2 rt re c cl by (auto split: if_splits)
qed

lemma startup_tracks:
  assumes inv: "storeInv ids st" "sn_refused p = None \<Longrightarrow> \<not> sn_bypass p \<Longrightarrow> tracks g st p" "policyI64 p" "envI64 env"
    and op: "startup ids env st p = (st', p')" and live: "sn_refused p' = None" "\<not> sn_bypass p'"
  shows "tracks g st' p'"
  using op live
proof (cases rule: startup_progress)
  case finished
  then show ?thesis using inv(2) live by simp
next
  case (stage wall elapsed p2 p3)
  let ?p1 = "fst (sessionClocks p (se_clock env))"
  have b1: "\<not> sn_bypass p"
    using stage(3,4) sessionClocks_frame(6) [of p "se_clock env"]
    by (auto simp: sessionRoute_def Let_def split: if_splits option.splits prod.splits)
  have t1: "tracks g st ?p1" "\<not> sn_bypass ?p1" using inv(2) stage(1) b1 by simp_all
  note r = route_tracks [OF t1 stage(4,3)]
  have i2: "policyI64 p2" using sessionRoute_i64 [OF inv(1) _ stage(4)] inv(3) by (simp add: policyI64_def)
  have s2: "1 < sn_stage p2 \<Longrightarrow> sn_stage p2 = 2" using r stage(2) by simp
  from stage(5) consider "(st', p') = (st, p2)"
    | "(st', p') = (st, p2\<lparr>sn_stage := 1\<rparr>)" "sn_stage p2 = 0" "sn_period p2 \<noteq> None"
    | "p' = p3\<lparr>sn_stage := Suc (sn_stage p3)\<rparr>" "sn_stage p2 = 0" "sn_period p2 = None"
      "startupActivate ids env st p2 wall elapsed = (st', p3, None)"
    | "p' = p3\<lparr>sn_stage := Suc (sn_stage p3)\<rparr>" "sn_stage p2 = 1" "startupRecover ids env st p2 wall elapsed = (st', p3, None)"
    | "p' = p3\<lparr>sn_stage := Suc (sn_stage p3)\<rparr>" "1 < sn_stage p2" "startupBegin ids env st p2 = (st', p3, None)"
    by (elim disjE conjE) blast+
  then show ?thesis
  proof cases
    case 1
    then show ?thesis using r by simp
  next
    case 2
    then show ?thesis using r by (simp add: tracks_def)
  next
    case 3
    then show ?thesis using startupActivate_tracks [OF inv(1) _ 3(2,3) _ 3(4)] r by simp
  next
    case 4
    then show ?thesis using startupRecover_tracks [OF inv(1) _ 4(2,3)] r by simp
  next
    case 5
    then show ?thesis using startupBegin_tracks [OF inv(1) _ s2 [OF 5(2)] i2 inv(4) 5(3)] r by simp
  qed
qed

lemma boundaryAccept_tracks [simp]:
  "sn_instance (boundaryAccept p s ao wall elapsed) = sn_instance p"
  "sn_marker (boundaryAccept p s ao wall elapsed) = sn_marker p"
  "sn_routed (boundaryAccept p s ao wall elapsed) = sn_routed p"
  "sn_selectProtocol (boundaryAccept p s ao wall elapsed) = sn_selectProtocol p"
  by (simp_all add: boundaryAccept_def Let_def split: option.splits)

lemma boundaryAccept_period:
  "sn_period p = None \<Longrightarrow> sn_period (boundaryAccept p s ao wall elapsed) = None"
  "sn_period p = Some pd \<Longrightarrow> sn_period (boundaryAccept p s (Some a) wall elapsed) = Some (periodAccept pd a wall elapsed)"
  by (simp_all add: boundaryAccept_def Let_def)

lemma boundary_tracks:
  assumes inv: "storeInv ids st" "tracks g st p" "sn_stage p = 3" "sampleI64 q"
    and call: "boundaryCall ids lenv st p q f = (st', c, ao, None)"
  shows "tracks g st' (boundaryAccept p c ao wall elapsed)"
proof -
  have h: "holdsLedger st (sn_saved p)" and own: "ownSession p" and g: "genOf st = g + 1"
    and rt: "sn_selectProtocol p \<longrightarrow> sn_routed p" using inv(2,3) by (simp_all add: tracks_def)
  have accepted: "tracks g st' (boundaryAccept p c ao wall elapsed)"
    if "holdsLedger st' c" "sameSession (sn_saved p) c"
      "\<forall>pd. sn_period (boundaryAccept p c ao wall elapsed) = Some pd \<longrightarrow> holdsAdmission st' (pp_saved pd)"
      "ownSession (boundaryAccept p c ao wall elapsed)"
    using that holds_generation [OF that(1)] holds_generation [OF h] g rt inv(3) by (simp add: tracks_def sameSession_def)
  show ?thesis
  proof (cases "sn_period p")
    case None
    then obtain m where m: "sn_marker p = Some m" "sampleCPUSession ids lenv st m q f = (st', c, None)"
      using call by (auto simp: boundaryCall_def split: option.splits prod.splits)
    note s = sample_holds [OF inv(1,4) h m(2)]
    have "ownSession (boundaryAccept p c ao wall elapsed)"
      using own s None by (auto simp: ownSession_def sameSession_def boundaryAccept_period)
    then show ?thesis using accepted s None by (simp add: boundaryAccept_period)
  next
    case (Some pd)
    then obtain m a where m: "pp_marker pd = Some m" "sampleCPUSessionLimited ids lenv st m q f = (st', c, a, None)" "ao = Some a"
      using call by (auto simp: boundaryCall_def split: option.splits prod.splits)
    note s = sampleLimited_holds [OF inv(1,4) h m(2)]
    have "ownSession (boundaryAccept p c ao wall elapsed)"
      using own s Some m by (auto simp: ownSession_def sameSession_def boundaryAccept_period)
    then show ?thesis using accepted s Some m by (simp add: boundaryAccept_period)
  qed
qed

lemma sampleAtBoundary_tracks:
  assumes inv: "storeInv ids st" "\<not> sn_bypass p" "tracks g st p" "envI64 env"
    and op: "sampleAtBoundary ids env st p f = (st', p', ok)" and live: "sn_refused p' = None"
  shows "tracks g st' p'"
proof (cases ok)
  case False
  have "p' = p \<and> st' = st"
    using inv(2) op
  proof (cases rule: sampleAtBoundary_cases [case_names idle called])
    case idle
    then show ?thesis using live by (auto simp: sessionFail_refused(3))
  next
    case (called p2 c ao e)
    then show ?thesis using False live by (auto simp: sessionFail_refused(3))
  qed
  then show ?thesis using inv(3) by simp
next
  case True
  obtain p1 ce where cl: "sessionClocks p (se_clock env) = (p1, toUTC (fst (se_clock env)), snd (se_clock env), ce)"
    using sessionClocks_eq by blast
  then have p1: "p1 = fst (sessionClocks p (se_clock env))" by simp
  define q where "q = boundarySample p1 (toUTC (fst (se_clock env))) (snd (se_clock env)) ce (se_observe env)"
  define p2 where "p2 = p1\<lparr>sn_sample := Some q, sn_operation := (if f then ''finish'' else ''sample''),
      sn_operationAt := toUTC (fst (se_clock env))\<rparr>"
  obtain s1 c ao e where call: "boundaryCall ids (se_op env) st p2 q f = (s1, c, ao, e)" by (metis prod_cases4)
  have r: "sn_stage p = 3" "e = None" "st' = s1"
      "p' = boundaryAccept p2 c ao (toUTC (fst (se_clock env))) (snd (se_clock env))"
    using op True inv(2) call cl unfolding sampleAtBoundary_def cl Let_def prod.case q_def [symmetric] p2_def [symmetric] call
    by (auto split: if_splits option.splits)
  have "tracks g st p2" using inv(3) tracks_cong [of p2 p1] by (simp add: p2_def p1)
  moreover have "sn_stage p2 = 3" using r(1) by (simp add: p2_def p1)
  moreover have "sampleI64 q" unfolding q_def by (rule boundarySample_i64 [OF inv(4)])
  ultimately show ?thesis using boundary_tracks [OF inv(1)] call r by blast
qed

section \<open>Runs\<close>

lemma waitMode_shape:
  assumes "waitMode p w clk sel = (p', w', ok)"
  shows "p' = p \<or> p' = sessionFail (fst (sessionClocks p clk)) (snd (snd (snd (sessionClocks p clk))))"
  using assms sessionClocks_eq [of p clk]
  by (auto simp: waitMode_def Let_def split: if_splits option.splits prod.splits)

definition tracking :: "int \<Rightarrow> cpustore \<times> cpuSessionPolicy \<Rightarrow> bool" where
  "tracking g x \<longleftrightarrow> (sn_refused (snd x) = None \<longrightarrow> \<not> sn_bypass (snd x) \<longrightarrow> tracks g (fst x) (snd x))"

lemma policy_step_tracks:
  assumes "policy_step ids (st, p) (st', p')" "storeInv ids st" "tracking g (st, p)"
  shows "tracking g (st', p')"
proof (cases "sn_refused p' = None \<and> \<not> sn_bypass p'")
  case live: True
  have nr: "sn_refused p = None" using policy_step_refused [OF assms(1)] live by (cases "sn_refused p") auto
  have sample: "tracks g st' p'" if "envI64 env" "sampleAtBoundary ids env st p f = (st', p', ok)" for env f ok
  proof (cases "sn_bypass p")
    case True
    then show ?thesis using that(2) live by (simp add: sampleAtBoundary_def)
  next
    case False
    then show ?thesis using sampleAtBoundary_tracks [OF assms(2) False _ that] assms(3) nr live by (simp add: tracking_def)
  qed
  show ?thesis
    using assms(1)
  proof (cases rule: policy_step_cases)
    case (start env)
    have "tracks g st' p'"
      by (rule startup_tracks [OF assms(2) _ start(2,3) start(1) [symmetric]]) (use assms(3) live in \<open>simp_all add: tracking_def\<close>)
    then show ?thesis by (simp add: tracking_def)
  next
    case (wait w clk sel w' ok)
    then show ?thesis
      using waitMode_shape [OF wait(2)] waitMode_frame(3) [OF wait(2)] assms(3) nr live by (auto simp: tracking_def)
  next
    case (sample env f ok)
    then show ?thesis using \<open>\<And>env f ok. envI64 env \<Longrightarrow> sampleAtBoundary ids env st p f = (st', p', ok) \<Longrightarrow> tracks g st' p'\<close>
      by (simp add: tracking_def)
  next
    case (finish env e)
    have "tracks g st' p'"
      using sessionFinish_sample [OF finish(2)] \<open>\<And>env f ok. envI64 env \<Longrightarrow> sampleAtBoundary ids env st p f = (st', p', ok) \<Longrightarrow> tracks g st' p'\<close>
        finish(1) assms(3) live by (auto simp: tracking_def)
    then show ?thesis by (simp add: tracking_def)
  qed
qed (auto simp: tracking_def)

interpretation tracked: invariant_system "policy_step ids" "\<lambda>x. storeInv ids (fst x) \<and> tracking g x" for ids g
proof
  fix x y
  assume a: "storeInv ids (fst x) \<and> tracking g x" "policy_step ids x y"
  obtain st p st' p' where xy: "x = (st, p)" "y = (st', p')" by fastforce
  have "(ledger_step ids)\<^sup>*\<^sup>* st st'" using policy_step_ledger [of ids st p st' p'] a xy by simp
  then have "storeInv ids st'" using charged_ledger.run_inv a xy by fastforce
  then show "storeInv ids (fst y) \<and> tracking g y" using policy_step_tracks [of ids st p st' p'] a xy by simp
qed

text \<open>Behind the saved clock the startup waits: nothing is called and nothing is refused.\<close>

lemma startup_waits:
  assumes "sn_refused p = None" "sn_stage p < 3" "\<not> sn_bypass p" "sn_selectProtocol p \<longrightarrow> sn_routed p"
    "snd (snd (snd (sessionClocks p (se_clock env)))) = None" "s_ClockHighWater (sn_saved p) = Some h"
    "tBefore (toUTC (fst (se_clock env))) h"
  shows "startup ids env st p = (st, fst (sessionClocks p (se_clock env)))"
proof -
  have cl: "sessionClocks p (se_clock env) =
      (fst (sessionClocks p (se_clock env)), toUTC (fst (se_clock env)), snd (se_clock env), None)"
    using sessionClocks_eq [of p "se_clock env"] assms(5) by simp
  have rt: "sessionRoute ids env st (fst (sessionClocks p (se_clock env))) w e = (fst (sessionClocks p (se_clock env)), None)" for w e
    using assms(4) by (simp add: sessionRoute_def)
  have F: "(sn_refused p \<noteq> None \<or> 3 \<le> sn_stage p) = False" using assms(1,2) by simp
  show ?thesis
    unfolding startup_def F if_False by (subst cl) (simp add: Let_def rt assms(3,6,7))
qed

end
