(* ===== verification/Worker_Guarantees.thy ===== *)
theory Worker_Guarantees
  imports Worker_Tracking CPU_Window_Laws CPU_Ledger_Example
begin

text \<open>
  What the worker's CPU policies promise: the one-percent rule over the elapsed clock across samples,
  waits and retries, what an admission implies, that a refusal is final, that the policy implements
  itself by runs of the ledger, and that the live window agrees with the durable one.
\<close>

section \<open>An example policy\<close>

definition exElapsed :: "int \<Rightarrow> gotime" where
  "exElapsed n = \<lparr>t_ns = n * second_ns, t_utc = False\<rparr>"

definition exPolicy0 :: cpuSessionPolicy where
  "exPolicy0 = \<lparr>sn_instance = replicate 32 CHR ''b'', sn_selectProtocol = False, sn_routed = False,
     sn_tracking = True, sn_bypass = False, sn_limits = \<lparr>l_HourNS = 0, l_DayNS = 0\<rparr>, sn_period = None,
     sn_stage = 0, sn_saved = cpuChargesBase False, sn_marker = None, sn_start = None, sn_sample = None,
     sn_operation = [], sn_operationAt = zeroTime, sn_wallHigh = zeroTime, sn_elapsedHigh = zeroTime,
     sn_elapsedDue = zeroTime, sn_observedElapsed = zeroTime, sn_attached = False, sn_refused = None\<rparr>"

definition exSession :: "int \<Rightarrow> int \<Rightarrow> session_env" where
  "exSession n cpu = \<lparr>se_clock = (exTime n, exElapsed n), se_clock2 = (exTime n, exElapsed n),
     se_observe = Inr cpu, se_nonce = Inr (replicate 64 CHR ''a''), se_ctx = None,
     se_view = exEnv, se_charges = exEnv, se_op = exEnv, se_op2 = exEnv\<rparr>"

text \<open>The policy after its startup over the store of the example run.\<close>

definition exLive :: cpuSessionPolicy where
  "exLive = exPolicy0\<lparr>sn_stage := 3, sn_saved := the (ledgerOf (cs_db exStoreBegun)),
     sn_marker := Some exMarker, sn_wallHigh := exTime 1, sn_elapsedHigh := exElapsed 1,
     sn_elapsedDue := exElapsed 1, sn_observedElapsed := exElapsed 1, sn_attached := True\<rparr>"

text \<open>Two hundred milliseconds of CPU time over ten seconds.\<close>

definition exBoundary :: "cpustore \<times> cpuSessionPolicy \<times> bool" where
  "exBoundary = sampleAtBoundary exIds (exSession 11 205000000) exStoreBegun exLive False"

definition exAdmitted :: "gotime \<times> gotime \<Rightarrow> cpuSessionPolicy \<times> dispatchWait \<times> bool" where
  "exAdmitted clk = waitMode (fst (snd exBoundary)) noWait clk False"

lemma ex_started: "\<not> sn_bypass exLive" "snd (snd exBoundary)"
  by (simp add: exLive_def exPolicy0_def) code_simp

lemma ex_admits: "snd (snd (exAdmitted (exTime 21, exElapsed 21)))"
  by code_simp

lemma ex_boundary:
  "sampleAtBoundary exIds (exSession 11 205000000) exStoreBegun exLive False =
     (fst exBoundary, fst (snd exBoundary), True)"
  using ex_started(2) by (simp add: exBoundary_def prod_eq_iff)

lemma ex_wait:
  "waitMode (fst (snd exBoundary)) noWait (exTime 21, exElapsed 21) False =
     (fst (exAdmitted (exTime 21, exElapsed 21)), fst (snd (exAdmitted (exTime 21, exElapsed 21))), True)"
  using ex_admits by (simp add: exAdmitted_def prod_eq_iff)

section \<open>The one-percent rule\<close>

lemma sampleAtBoundary_taken:
  assumes inv: "storeInv ids st" "envI64 env" and nb: "\<not> sn_bypass p"
    and op: "sampleAtBoundary ids env st p f = (st', p', True)"
  obtains r e where "policyLive p'" "ledgerOf (cs_db st') = Some (sn_saved p')"
    "s_Session (sn_saved p') = Some r" "sp_ElapsedNS (boundaryRequest env p) = Some e" "0 < e"
    "0 \<le> r_LastChargeNS r"
    "r_LastBackoffNS r = min hour_ns (max 0 (100 * r_LastChargeNS r - e))"
    "0 < r_LastBackoffNS r \<Longrightarrow> t_ns (snd (se_clock env)) + r_LastBackoffNS r \<le> t_ns (sn_elapsedDue p')"
proof (cases rule: sampleAtBoundary_cases [OF nb op, case_names idle called])
  case (called p2 c ao e)
  note qi = boundaryRequest_i64 [OF inv(2), of p]
  have e: "e = None" and p': "p' = boundaryAccept p2 c ao (toUTC (fst (se_clock env))) (snd (se_clock env))"
    using called by simp_all
  have call: "boundaryCall ids (se_op env) st p2 (boundaryRequest env p) f = (st', c, ao, None)"
    using called(3) e by simp
  have "ledgerOf (cs_db st') = Some c \<and> (\<exists>r el. s_Session c = Some r \<and>
      sp_ElapsedNS (boundaryRequest env p) = Some el \<and> 0 < el \<and> 0 \<le> r_LastChargeNS r \<and>
      r_LastBackoffNS r = min hour_ns (max 0 (100 * r_LastChargeNS r - el)))"
    using boundaryCall_sampled [OF call] bare_samples.sample_backoff [OF inv(1) qi]
      limited_samples.sample_backoff [OF inv(1) qi] bare_samples.sample_accepted [OF inv(1) qi]
      limited_samples.sample_accepted [OF inv(1) qi] by blast
  then obtain r el where r: "ledgerOf (cs_db st') = Some c" "s_Session c = Some r"
      "sp_ElapsedNS (boundaryRequest env p) = Some el" "0 < el" "0 \<le> r_LastChargeNS r"
      "r_LastBackoffNS r = min hour_ns (max 0 (100 * r_LastChargeNS r - el))" by blast
  show thesis
    by (rule that [of r el]) (use r called nb p' sessionAccept_due(2) in \<open>simp_all add: policyLive_def\<close>)
qed simp

text \<open>Property C3. After the policy took a sample, no later admission is early, whatever samples, waits,
  startups, failures and wall-clock readings happen in between: when the sample charged \<open>c\<close>
  nanoseconds over an elapsed time \<open>e\<close>, the next admission of any kind comes when one hundred times
  \<open>c\<close> is at most \<open>e\<close> plus the time that passed since on the elapsed clock, or after a full hour.\<close>

theorem one_percent_rule:
  assumes "dbInv ids (cs_db st)" "envI64 env" "\<not> sn_bypass p"
    and "sampleAtBoundary ids env st p f = (st1, p1, True)" "zero_ns < t_ns (snd (se_clock env))"
    and "(policy_step ids)\<^sup>*\<^sup>* (st1, p1) (st2, p2)"
    and "waitMode p2 w clk sel = (p3, w3, True)" "0 \<le> dw_duration w"
  shows "\<exists>r e. ledgerOf (cs_db st1) = Some (sn_saved p1) \<and> s_Session (sn_saved p1) = Some r \<and>
    sp_ElapsedNS (boundaryRequest env p) = Some e \<and>
    (100 * r_LastChargeNS r \<le> e + max 0 (t_ns (snd clk) - t_ns (snd (se_clock env))) \<or>
     t_ns (snd (se_clock env)) + hour_ns \<le> t_ns (snd clk))"
proof -
  obtain r e where r: "policyLive p1" "ledgerOf (cs_db st1) = Some (sn_saved p1)"
    "s_Session (sn_saved p1) = Some r" "sp_ElapsedNS (boundaryRequest env p) = Some e" "0 < e"
    "0 \<le> r_LastChargeNS r"
    "r_LastBackoffNS r = min hour_ns (max 0 (100 * r_LastChargeNS r - e))"
    "0 < r_LastBackoffNS r \<Longrightarrow> t_ns (snd (se_clock env)) + r_LastBackoffNS r \<le> t_ns (sn_elapsedDue p1)"
    by (rule sampleAtBoundary_taken [OF assms(1-4)]) blast
  have live: "policyLive p2" and due: "t_ns (sn_elapsedDue p1) \<le> t_ns (sn_elapsedDue p2)"
    using live_debt.run_inv [OF assms(6)] live_debt.run_level [OF assms(6)] r(1) by simp_all
  have "isZero (sn_elapsedDue p2) \<or> t_ns (sn_elapsedDue p2) \<le> t_ns (snd clk)"
    using waitMode_admits(7) [OF assms(7) _ assms(8)] live by (simp add: policyLive_def)
  then have "t_ns (snd (se_clock env)) + r_LastBackoffNS r \<le> t_ns (snd clk)" if "0 < r_LastBackoffNS r"
    using r(8) [OF that] due assms(5) that by (auto simp: isZero_def)
  then have "100 * r_LastChargeNS r \<le> e + max 0 (t_ns (snd clk) - t_ns (snd (se_clock env))) \<or>
     t_ns (snd (se_clock env)) + hour_ns \<le> t_ns (snd clk)"
    using r(7) by (cases "0 < r_LastBackoffNS r") (auto simp: min_def max_def split: if_splits)
  then show ?thesis using r(2-4) by blast
qed

theorem one_percent_rule_witness:
  "\<exists>r e. s_Session (sn_saved (fst (snd exBoundary))) = Some r \<and>
    sp_ElapsedNS (boundaryRequest (exSession 11 205000000) exLive) = Some e \<and>
    (100 * r_LastChargeNS r \<le> e + max 0 (t_ns (exElapsed 21) - t_ns (exElapsed 11)) \<or>
     t_ns (exElapsed 11) + hour_ns \<le> t_ns (exElapsed 21))"
proof -
  have "envI64 (exSession 11 205000000)" "zero_ns < t_ns (snd (se_clock (exSession 11 205000000)))"
      "0 \<le> dw_duration noWait" "snd (se_clock (exSession 11 205000000)) = exElapsed 11"
    by code_simp+
  then show ?thesis
    using one_percent_rule [OF ex_inv(2) _ ex_started(1) ex_boundary _ rtranclp.rtrancl_refl ex_wait] by auto
qed

section \<open>Admission and refusal\<close>

text \<open>When the policy admits work, nothing refused it, its startup is complete, no wait
  is left, the wall clock has reached the saved high-water mark and the saved deadline, the elapsed
  clock has reached the live debt, and, under a policy with a limit, the hour and the day have no open
  gap, no partial tracking, no unknown charge and less than their limit assigned, and their fences have
  passed on the elapsed clock.\<close>

theorem session_admission:
  assumes "waitMode p w clk False = (p', w', True)" "\<not> sn_bypass p" "0 \<le> dw_duration w"
  shows "sn_refused p' = None \<and> 3 \<le> sn_stage p \<and> dw_duration w' = 0 \<and>
    (\<forall>h. s_ClockHighWater (sn_saved p) = Some h \<longrightarrow> isZero h \<or> t_ns h \<le> t_ns (fst clk)) \<and>
    (\<forall>n. s_NextAllowedAt (sn_saved p) = Some n \<longrightarrow> isZero n \<or> t_ns n \<le> t_ns (fst clk)) \<and>
    (isZero (sn_elapsedDue p) \<or> t_ns (sn_elapsedDue p) \<le> t_ns (snd clk)) \<and>
    (\<forall>pd. sn_period p = Some pd \<longrightarrow>
       periodOpen (a_Hour (pp_saved pd)) (l_HourNS (pp_limits pd)) (pp_hour pd) (a_TrackingGapOpen (pp_saved pd)) (snd clk) \<and>
       periodOpen (a_Day (pp_saved pd)) (l_DayNS (pp_limits pd)) (pp_day pd) (a_TrackingGapOpen (pp_saved pd)) (snd clk))"
proof -
  note a = waitMode_admits [OF assms]
  have "periodOpen (a_Hour (pp_saved pd)) (l_HourNS (pp_limits pd)) (pp_hour pd) (a_TrackingGapOpen (pp_saved pd)) (snd clk) \<and>
       periodOpen (a_Day (pp_saved pd)) (l_DayNS (pp_limits pd)) (pp_day pd) (a_TrackingGapOpen (pp_saved pd)) (snd clk)"
    if "sn_period p = Some pd" for pd
    using a(8) that periodWait_open by fastforce
  then show ?thesis using a by (simp split: option.splits)
qed

theorem session_admission_witness:
  "3 \<le> sn_stage (fst (snd exBoundary)) \<and>
   (isZero (sn_elapsedDue (fst (snd exBoundary))) \<or> t_ns (sn_elapsedDue (fst (snd exBoundary))) \<le> t_ns (exElapsed 21))"
proof -
  have "policyLive exLive" by (simp add: policyLive_def exLive_def exPolicy0_def)
  then have "\<not> sn_bypass (fst (snd exBoundary))"
    using sampleAtBoundary_live [OF _ ex_boundary] by (simp add: policyLive_def)
  from session_admission [OF ex_wait this] show ?thesis by (simp add: noWait_def)
qed

text \<open>A refusal is final: in every run from a refused policy the store does not change, the
  refusal stays, and no wait and no boundary admits work any more.\<close>

theorem refusal_is_final:
  assumes "(policy_step ids)\<^sup>*\<^sup>* (st, p) (st', p')" "sn_refused p = Some e"
  shows "st' = st \<and> sn_refused p' = Some e \<and> \<not> snd (snd (waitMode p' w clk sel)) \<and>
    \<not> snd (snd (sampleAtBoundary ids env st' p' f))"
proof -
  have r: "st' = st" "sn_refused p' = Some e"
    using refusal.run_inv [OF assms(1), of st e] assms(2) by simp_all
  then have "sn_refused p' \<noteq> None" by simp
  then show ?thesis
    using r refused_waits [of p' w clk sel] sampleAtBoundary_refused [of p' ids env st' f]
    by (cases "waitMode p' w clk sel") auto
qed

definition exRefused :: cpuSessionPolicy where
  "exRefused = fst (waitMode exLive noWait (exTime 0, exElapsed 21) False)"

theorem refusal_is_final_witness:
  "sn_refused exRefused = Some ErrCPUChargesClockRollback \<and>
   \<not> snd (snd (waitMode exRefused noWait (exTime 99, exElapsed 99) False))"
proof -
  have "sn_refused exRefused = Some ErrCPUChargesClockRollback" by code_simp
  then show ?thesis using refusal_is_final [OF rtranclp.rtrancl_refl] by blast
qed

section \<open>Refinement\<close>

text \<open>Property C11. What a policy holds in memory is what the store holds, startup stage by startup
  stage. Take any run of a policy that has not started over a valid store (startups, waits, boundary
  samples, the final one, in any order and under any clock, observer, context and storage answer) that
  leaves it neither refused nor bypassed. It
  ran operations of the ledger only; from the first stage on its charge record, and from its selection on
  its admission record, is the saved one; the ledger's generation has moved by exactly one once the
  startup is complete and not at all before, so one policy begins one session; after the recovery stage no
  session is left active; after the last stage the saved session is the one this policy began, with its
  instance and under the marker it keeps for its samples. Between the stages a call of \<open>startup\<close> whose
  clocks can be read but whose wall clock is behind the saved one only notes the readings.\<close>

theorem policy_tracks_ledger:
  assumes "(policy_step ids)\<^sup>*\<^sup>* (st0, p0) (st, p)" "dbInv ids (cs_db st0)"
    and "sn_stage p0 = 0" "sn_period p0 = None" "sn_refused p = None" "\<not> sn_bypass p"
  shows "(ledger_step ids)\<^sup>*\<^sup>* st0 st \<and> sn_stage p \<le> 3 \<and>
    (0 < sn_stage p \<longrightarrow> ledgerOf (cs_db st) = Some (sn_saved p)) \<and>
    (\<forall>pd. sn_period p = Some pd \<longrightarrow>
       db_admission (cs_db st) = CellRow (a_PolicyRevision (pp_saved pd)) (pp_saved pd)) \<and>
    generationLevel (cs_db st) = generationLevel (cs_db st0) + (if sn_stage p = 3 then 1 else 0) \<and>
    (sn_stage p = 2 \<longrightarrow> s_Status (sn_saved p) \<noteq> SActive) \<and>
    (sn_stage p = 3 \<longrightarrow> s_Status (sn_saved p) \<in> {SActive, SFinished} \<and> ownSession p) \<and>
    (\<forall>env h. 0 < sn_stage p \<longrightarrow> sn_stage p < 3 \<longrightarrow>
       snd (snd (snd (sessionClocks p (se_clock env)))) = None \<longrightarrow>
       s_ClockHighWater (sn_saved p) = Some h \<longrightarrow> tBefore (toUTC (fst (se_clock env))) h \<longrightarrow>
       startup ids env st p = (st, fst (sessionClocks p (se_clock env))))"
proof -
  have "tracking (generationLevel (cs_db st0)) (st0, p0)" using assms(3,4) by (simp add: tracking_def tracks_def)
  then have t: "tracks (generationLevel (cs_db st0)) st p"
    using tracked.run_inv [OF assms(1)] assms(2,5,6) by (simp add: tracking_def)
  have r: "(ledger_step ids)\<^sup>*\<^sup>* st0 st" using policy_ledgers.run_inv [OF assms(1), of st0] assms(2) by simp
  show ?thesis
    using t r startup_waits [OF assms(5) _ assms(6)]
    by (simp add: tracks_def holdsLedger_def holdsAdmission_def)
qed

text \<open>A process that starts after one that died in its session: the three stages in turn.\<close>

definition exStage :: "int \<Rightarrow> cpustore \<times> cpuSessionPolicy \<Rightarrow> cpustore \<times> cpuSessionPolicy" where
  "exStage n x = startup exIds (exSession n 500000) (fst x) (snd x)"

definition exStaged :: "nat \<Rightarrow> cpustore \<times> cpuSessionPolicy" where
  "exStaged n = fold (\<lambda>i. exStage (21 + int i)) [0..<n] (exStoreSampled, exPolicy0)"

definition exReached :: "cpustore \<times> cpuSessionPolicy \<Rightarrow> cpustore \<times> cpuSessionPolicy \<Rightarrow> cpustore \<times> cpuSessionPolicy \<Rightarrow> bool" where
  "exReached x y z \<longleftrightarrow> policyI64 (snd x) \<and> policyI64 (snd y) \<and>
     sn_stage (snd z) = 3 \<and> sn_refused (snd z) = None \<and> \<not> sn_bypass (snd z)"

definition exReached2 :: "cpustore \<times> cpuSessionPolicy \<Rightarrow> cpustore \<times> cpuSessionPolicy \<Rightarrow> bool" where
  "exReached2 x y = exReached x y (exStage 23 y)"

definition exReached1 :: "cpustore \<times> cpuSessionPolicy \<Rightarrow> bool" where
  "exReached1 x = exReached2 x (exStage 22 x)"

lemma ex_reached: "exReached (exStaged 1) (exStaged 2) (exStaged 3)"
proof -
  have "exReached1 (exStage 21 (exStoreSampled, exPolicy0))" by code_simp
  then show ?thesis by (simp add: exReached1_def exReached2_def exStaged_def eval_nat_numeral)
qed

lemma exStage_step:
  assumes "policyI64 (snd x)" "envI64 (exSession n 500000)"
  shows "policy_step exIds x (exStage n x)"
  using policy_step.start [OF assms, of exIds "fst x"] by (simp add: exStage_def)

lemma ex_staged: "(policy_step exIds)\<^sup>*\<^sup>* (exStoreSampled, exPolicy0) (exStaged 3)"
proof -
  have e: "envI64 (exSession 21 500000)" "envI64 (exSession 22 500000)" "envI64 (exSession 23 500000)" by code_simp+
  have "policyI64 exPolicy0" by code_simp
  then have "policy_step exIds (exStaged 0) (exStaged 1)" "policy_step exIds (exStaged 1) (exStaged 2)"
      "policy_step exIds (exStaged 2) (exStaged 3)"
    using ex_reached e exStage_step [of "exStaged 0" 21] exStage_step [of "exStaged 1" 22] exStage_step [of "exStaged 2" 23]
    by (simp_all add: exReached_def exStaged_def eval_nat_numeral)
  then have "(policy_step exIds)\<^sup>*\<^sup>* (exStaged 0) (exStaged 3)" by (meson converse_rtranclp_into_rtranclp rtranclp.rtrancl_refl)
  then show ?thesis by (simp add: exStaged_def)
qed

theorem policy_tracks_ledger_witness:
  "ownSession (snd (exStaged 3)) \<and>
   generationLevel (cs_db (fst (exStaged 3))) = generationLevel (cs_db exStoreSampled) + 1"
proof -
  have "sn_stage (snd (exStaged 3)) = 3" "sn_refused (snd (exStaged 3)) = None" "\<not> sn_bypass (snd (exStaged 3))"
    using ex_reached by (simp_all add: exReached_def)
  moreover have "sn_stage exPolicy0 = 0" "sn_period exPolicy0 = None" by (simp_all add: exPolicy0_def)
  ultimately show ?thesis
    using policy_tracks_ledger [of exIds exStoreSampled exPolicy0 "fst (exStaged 3)" "snd (exStaged 3)"] ex_staged ex_inv(3)
    by simp
qed

section \<open>The live window and the durable one\<close>

lemma live_deadline:
  assumes "i64 after" "i64 (cw_before w)"
  shows "map_option t_ns (co_NextAllowedAt (cb_observation (finishWithClocks b w at cel after e))) =
    (let m = cpuMeasurement (cb_observation (finishWithClocks b w at cel after e))
     in case m_CPUTimeNS m of None \<Rightarrow> None
        | Some c \<Rightarrow> (let d = min hour_ns (max 0 (100 * c - the (m_ElapsedNS m)))
            in if d = 0 then None else Some (t_ns at + d)))"
proof (cases "cw_err w \<noteq> None \<or> e \<noteq> None \<or> cw_before w < 0 \<or> after < 0 \<or> after < cw_before w \<or>
    tSub cel (cw_startedAt w) \<le> 0")
  case True
  then show ?thesis by (auto simp: finishWithClocks_def Let_def cpuMeasurement_def newCPUBudget_def)
next
  case False
  let ?el = "tSub cel (cw_startedAt w)" and ?d = "after - cw_before w"
  have d: "sub64 after (cw_before w) = ?d" "0 \<le> ?d" "i64 ?d" using False assms by (simp_all add: i64_def)
  have "cpuFeedbackWait ?d ?el = (min hour_ns (max 0 (100 * ?d - ?el)), hour_ns < 100 * ?d - ?el)"
    unfolding cpuFeedbackWait_def using CPUFeedbackWait_exact [OF d(2) _ d(3), of ?el] False by simp
  then show ?thesis using False d
    by (auto simp: finishWithClocks_def Let_def cpuMeasurement_def newCPUBudget_def)
qed

text \<open>Whatever the native observer answers at the end of a window (an error, a negative or
  regressed reading, a useless elapsed time or a proper one), its measurement settles a pending durable
  window, and the deadline that is saved is exactly the deadline the live observation reports.\<close>

theorem live_window_settles:
  assumes "i64 after" "i64 (cw_before w)" "okTime at" "t_ns at + hour_ns \<le> maxInt64"
    and "f_NextAllowedAt s = None"
  shows "\<exists>n. settleState s r at (cpuMeasurement (cb_observation (finishWithClocks b w at cel after e))) = Inr n \<and>
    map_option t_ns (f_NextAllowedAt n) =
      map_option t_ns (co_NextAllowedAt (cb_observation (finishWithClocks b w at cel after e)))"
proof -
  note m = measurement_accepted [OF assms(1,2), of b at cel e]
  show ?thesis
    by (rule settleState_defined [OF assms(3,4) m assms(5), of r])
      (use live_deadline [OF assms(1,2), of b at cel e] in \<open>simp add: Let_def\<close>)
qed

definition exWindow :: cpuWindow where
  "exWindow = beginCPUWindowAt (1000000000, None) (exElapsed 10)"

definition exPending :: CPUFeedbackState where
  "exPending = cpuFeedbackSnapshot True"

definition exWindowRecord :: CPUWindowRecord where
  "exWindowRecord = \<lparr>w_Token = replicate 64 CHR ''d'', w_Instance = replicate 32 CHR ''e'', w_Kind = TMaintenance,
     w_RootID = 3, w_JobID = 0, w_JobToken = [], w_JobLeaseUntil = None, w_DispatchReservedAt = exTime 9,
     w_WindowStartedAt = exTime 10, w_RecordedAt = exTime 10, w_Status = FPending, w_SettledAt = None,
     w_CPUTimeNS = None, w_ElapsedNS = None, w_Reason = RNone, w_BackoffNS = 0, w_BackoffCapped = False\<rparr>"

theorem live_window_settles_witness:
  "\<exists>n. settleState exPending exWindowRecord (exTime 12)
       (cpuMeasurement (cb_observation (finishWithClocks newCPUBudget exWindow (exTime 12) (exElapsed 12) 1100000000 None))) = Inr n \<and>
     map_option t_ns (f_NextAllowedAt n) = Some (t_ns (exTime 20))"
proof -
  have h: "i64 (1100000000 :: int)" "i64 (cw_before exWindow)" "okTime (exTime 12)"
      "t_ns (exTime 12) + hour_ns \<le> maxInt64" "f_NextAllowedAt exPending = None"
      "map_option t_ns (co_NextAllowedAt (cb_observation (finishWithClocks newCPUBudget exWindow (exTime 12)
         (exElapsed 12) 1100000000 None))) = Some (t_ns (exTime 20))"
    by code_simp+
  from live_window_settles [OF h(1-5), of exWindowRecord newCPUBudget "exElapsed 12" None] h(6) show ?thesis by auto
qed

text \<open>The live gate holds the whole saved wait on both clocks: once the gate was set from a
  saved deadline, later updates with the same saved window do not move it, and dispatch is free only
  when the wall clock has reached the saved deadline and the elapsed clock has advanced by what was
  left of it when the gate was set. Setting the wall clock forward does not shorten the wait.\<close>

theorem gate_holds_both_clocks:
  assumes "f_NextAllowedAt fb = Some n" "\<not> isZero n" "i64 (t_ns n - t_ns wall)"
    and "fg_status g \<noteq> Some (f_Status fb)" "zero_ns < t_ns elapsed"
    and "dw_duration (gateAdd (gateUpdate (gateUpdate g fb wall elapsed) fb wall1 elapsed1) w fb wall2 elapsed2) \<le> 0"
  shows "t_ns n \<le> t_ns wall2 \<and> max 0 (t_ns n - t_ns wall) \<le> max 0 (t_ns elapsed2 - t_ns elapsed)"
proof -
  define g1 where "g1 = gateUpdate g fb wall elapsed"
  have g1: "t_ns (fg_savedDeadline g1) = t_ns n"
      "t_ns (fg_elapsedDue g1) = t_ns elapsed + max 0 (t_ns n - t_ns wall)"
    using assms(1-4) by (auto simp: g1_def gateUpdate_def Let_def isZero_def tSub_def sat64_id max.commute)
  have "dw_duration (gateAdd g1 w fb wall2 elapsed2) \<le> 0"
    using assms(6) unfolding g1_def by (simp only: gateUpdate_stable)
  from gateAdd_zero [OF this] show ?thesis using g1 assms(2,5) by (auto simp: isZero_def)
qed

definition exSettled :: CPUFeedbackState where
  "exSettled = exPending\<lparr>f_Status := FObserved, f_NextAllowedAt := Some (exTime 20)\<rparr>"

theorem gate_holds_both_clocks_witness:
  "t_ns (exTime 20) \<le> t_ns (exTime 500) \<and>
   max 0 (t_ns (exTime 20) - t_ns (exTime 12)) \<le> max 0 (t_ns (exElapsed 20) - t_ns (exElapsed 12))"
proof -
  have h: "f_NextAllowedAt exSettled = Some (exTime 20)" "\<not> isZero (exTime 20)"
      "i64 (t_ns (exTime 20) - t_ns (exTime 12))" "fg_status newFeedbackGate \<noteq> Some (f_Status exSettled)"
      "zero_ns < t_ns (exElapsed 12)"
      "dw_duration (gateAdd (gateUpdate (gateUpdate newFeedbackGate exSettled (exTime 12) (exElapsed 12)) exSettled
         (exTime 400) (exElapsed 11)) noWait exSettled (exTime 500) (exElapsed 20)) \<le> 0"
    by code_simp+
  show ?thesis by (rule gate_holds_both_clocks [OF h])
qed

text \<open>The native CPU clock is exact: the sum of the user and the system time is returned
  exactly when every field is in its range and the sum is a 64-bit number of nanoseconds, and then
  it is the exact sum; every other reading is an error.\<close>

theorem cpu_clock_exact:
  "cpuTimevalSum us um ss sm = Inr v \<longleftrightarrow>
     0 \<le> us \<and> 0 \<le> um \<and> um < 1000000 \<and> 0 \<le> ss \<and> 0 \<le> sm \<and> sm < 1000000 \<and>
     v = timevalNS us um + timevalNS ss sm \<and> v \<le> maxInt64"
proof (cases "0 \<le> us \<and> 0 \<le> um \<and> um < 1000000 \<and> 0 \<le> ss \<and> 0 \<le> sm \<and> sm < 1000000")
  case False
  then show ?thesis by (auto simp: cpuTimevalSum_def convertTimeval_exact)
next
  case True
  have conv: "convertTimeval s m = (if timevalNS s m \<le> maxInt64 then Inr (timevalNS s m)
      else Inl (if s > 9223372036 then errInvalidCPU else errCPURange))" if "0 \<le> s" "0 \<le> m" "m < 1000000" for s m
    using that by (auto simp: convertTimeval_exact timevalNS_def)
  have pos: "0 \<le> timevalNS us um" "0 \<le> timevalNS ss sm" using True by (simp_all add: timevalNS_def)
  show ?thesis
    using True pos by (auto simp: cpuTimevalSum_def conv add64_def i64_def)
qed

end
