(* ===== verification/Power_Observe.thy ===== *)
theory Power_Observe
  imports Rydd_Prelude
begin

text \<open>
  \<^verbatim>\<open>src/internal/powerinfo/power.go\<close>: one bounded, sequential observation of the power supplies. The
  guard of the wall clock and the context are consulted between all steps; the platform's source of
  supplies is a parameter. Each call of the source may itself consult the guard a number of times
  before it answers.
\<close>

abbreviation ErrNilContext :: err where "ErrNilContext \<equiv> Sentinel 49"

abbreviation powerContract :: string where "powerContract \<equiv> ''power_observation_v1''"
abbreviation LinuxProfile :: string where "LinuxProfile \<equiv> ''linux_sysfs_power_v1''"
abbreviation MaxSupplyEntries :: nat where "MaxSupplyEntries \<equiv> 32"
abbreviation MaxAttributeBytes :: nat where "MaxAttributeBytes \<equiv> 64"
abbreviation MaxAttributeAttempts :: nat where "MaxAttributeAttempts \<equiv> 160"
abbreviation MaxReturnedAttributeBytes :: nat where "MaxReturnedAttributeBytes \<equiv> 10400"
abbreviation ObservationTimeout :: int where "ObservationTimeout \<equiv> 5000000000"

section \<open>Data\<close>

text \<open>The counters only grow by one from zero and stay below the bounds above, so they are natural
  numbers.\<close>

record Observation =
  o_Contract :: string
  o_Platform :: string
  o_Profile :: string
  o_Status :: string
  o_Reason :: string
  o_StartedAt :: gotime
  o_FinishedAt :: gotime
  o_SystemBatteryDischargingObserved :: "bool option"
  o_SupplyEntriesObserved :: "nat option"
  o_ProvidersProcessed :: nat
  o_ConfirmedSystemBatteries :: nat
  o_DischargingSystemBatteries :: nat
  o_AmbiguousProviders :: nat
  o_AttributeAttempts :: nat
  o_ReturnedAttributeBytes :: nat
  o_CoverageComplete :: bool
  o_SequentialObservations :: bool
  o_NamespaceAuthenticated :: bool
  o_PhysicalPowerVerified :: bool

text \<open>\<open>reason\<close>: the reason of the first \<open>sourceError\<close> in an error.\<close>

fun sourceReason :: "err \<Rightarrow> string option" where
  "sourceReason (SourceError r) = Some r"
| "sourceReason (ErrJoin a b) = (case sourceReason a of Some r \<Rightarrow> Some r | None \<Rightarrow> sourceReason b)"
| "sourceReason (PublicationError op i c) = sourceReason c"
| "sourceReason (Sentinel n) = None"
| "sourceReason (StorageFailure m) = None"

definition reason :: "err \<Rightarrow> string" where
  "reason e = (case sourceReason e of Some r \<Rightarrow> r | None \<Rightarrow> ''provider_unavailable'')"

section \<open>The guard of the wall clock\<close>

text \<open>What the context and the wall clock answer at each consultation; the guard counts them.\<close>

record probe_env =
  pe_cause :: "nat \<Rightarrow> err option"
  pe_now :: "nat \<Rightarrow> gotime"

record wallGuard =
  wg_tick :: nat
  wg_high :: gotime
  wg_deadline :: gotime
  wg_denied :: "err option"

definition guardAccept :: "wallGuard \<Rightarrow> gotime \<Rightarrow> wallGuard \<times> err option" where
  "guardAccept g stamp =
     (if wg_denied g \<noteq> None then (g, wg_denied g)
      else if tBefore stamp (wg_high g)
      then (g\<lparr>wg_denied := Some ErrWallClockRollback\<rparr>, Some ErrWallClockRollback)
      else
        let g1 = g\<lparr>wg_high := stamp\<rparr>
        in if \<not> tBefore stamp (wg_deadline g)
           then (g1\<lparr>wg_denied := Some ContextDeadlineExceeded\<rparr>, Some ContextDeadlineExceeded)
           else (g1, None))"

definition canceled :: "probe_env \<Rightarrow> wallGuard \<Rightarrow> wallGuard \<times> err option" where
  "canceled env g =
     (let n = wg_tick g; g1 = g\<lparr>wg_tick := Suc n\<rparr>
      in case pe_cause env n of
          Some e \<Rightarrow> (g1, Some e)
        | None \<Rightarrow> guardAccept g1 (toUTC (round0 (pe_now env n))))"

definition checkedStamp :: "probe_env \<Rightarrow> wallGuard \<Rightarrow> wallGuard \<times> (err + gotime)" where
  "checkedStamp env g =
     (let n = wg_tick g; g1 = g\<lparr>wg_tick := Suc n\<rparr>
      in case pe_cause env n of
          Some e \<Rightarrow> (g1, Inl e)
        | None \<Rightarrow>
            let stamp = toUTC (round0 (pe_now env n)); (g2, e) = guardAccept g1 stamp
            in (g2, case e of Some x \<Rightarrow> Inl x | None \<Rightarrow> Inr stamp))"

text \<open>A call of the source consults the guard up to \<open>k\<close> times and stops at the first denial.\<close>

fun consult :: "probe_env \<Rightarrow> nat \<Rightarrow> wallGuard \<Rightarrow> wallGuard" where
  "consult env 0 g = g"
| "consult env (Suc k) g =
     (case canceled env g of (g1, Some e) \<Rightarrow> g1 | (g1, None) \<Rightarrow> consult env k g1)"

section \<open>The source of supplies\<close>

text \<open>The answers of the platform: of opening, of enumerating, of the provider with an index, of its
  attributes and of its closing, of the final check and of closing the source. Each comes with the
  number of consultations of the guard.\<close>

record power_source =
  ps_open :: "nat \<times> err option"
  ps_names :: "nat \<times> (err + string list)"
  ps_provider :: "nat \<Rightarrow> string \<Rightarrow> nat \<times> err option"
  ps_attribute :: "nat \<Rightarrow> string \<Rightarrow> nat \<times> string \<times> err option"
  ps_providerClose :: "nat \<Rightarrow> err option"
  ps_check :: "nat \<times> err option"
  ps_close :: "err option"

record classification =
  c_battery :: bool
  c_discharging :: bool
  c_ambiguous :: string

definition noClass :: classification where
  "noClass = \<lparr>c_battery = False, c_discharging = False, c_ambiguous = []\<rparr>"

definition ambiguousClass :: "string \<Rightarrow> classification" where
  "ambiguousClass why = noClass\<lparr>c_ambiguous := why\<rparr>"

text \<open>\<open>readToken\<close> after the attribute was read: the bytes and the error become a token.\<close>

definition printable :: "char \<Rightarrow> bool" where
  "printable c \<longleftrightarrow> (let n = (of_char c :: nat) in \<not> (n < 32 \<or> n > 126))"

definition tokenOf :: "string \<Rightarrow> err option \<Rightarrow> err + string" where
  "tokenOf b e =
     (case e of
        Some x \<Rightarrow> Inl x
      | None \<Rightarrow>
          if b = [] \<or> length b > MaxAttributeBytes then Inl (SourceError ''malformed_attribute'')
          else
            let t = (if last b = CHR 0x0A then butlast b else b)
            in if t = [] \<or> \<not> list_all printable t then Inl (SourceError ''malformed_attribute'')
               else Inr t)"

text \<open>The answer of an attribute read, cut at one byte over the limit.\<close>

definition cutAttribute :: "string \<times> err option \<Rightarrow> string \<times> err option" where
  "cutAttribute r =
     (if length (fst r) > MaxAttributeBytes + 1
      then (take (MaxAttributeBytes + 1) (fst r), Some (SourceError ''attribute_byte_limit'')) else r)"

type_synonym probe_state = "wallGuard \<times> Observation"

definition readToken ::
  "probe_env \<Rightarrow> power_source \<Rightarrow> nat \<Rightarrow> string \<Rightarrow> probe_state \<Rightarrow> probe_state \<times> (err + string)" where
  "readToken env src i name s =
     (case s of (g, obs) \<Rightarrow>
        case canceled env g of
          (g1, Some e) \<Rightarrow> ((g1, obs), Inl e)
        | (g1, None) \<Rightarrow>
            if o_AttributeAttempts obs \<ge> MaxAttributeAttempts
            then ((g1, obs), Inl (SourceError ''attribute_attempt_limit''))
            else
              let (k, r) = ps_attribute src i name;
                  (b, e) = cutAttribute r;
                  o2 = obs\<lparr>o_AttributeAttempts := Suc (o_AttributeAttempts obs),
                           o_ReturnedAttributeBytes := o_ReturnedAttributeBytes obs + length b\<rparr>
              in ((consult env k g1, o2), tokenOf b e))"

definition externalTypes :: "string list" where
  "externalTypes = [''Mains'', ''USB'', ''USB_DCP'', ''USB_CDP'', ''USB_ACA'', ''USB_C'', ''USB_PD'',
     ''USB_PD_DRP'', ''BrickID'', ''Wireless'']"

text \<open>\<open>classify\<close>, split at its further reads: an external supply, then a battery.\<close>

definition classifyExternal ::
  "probe_env \<Rightarrow> power_source \<Rightarrow> nat \<Rightarrow> probe_state \<Rightarrow> probe_state \<times> classification" where
  "classifyExternal env src i s =
     (let (s1, online) = readToken env src i ''online'' s
      in (s1, case online of
                Inr v \<Rightarrow> if v = ''0'' \<or> v = ''1'' \<or> v = ''2'' then noClass
                         else ambiguousClass ''external_supply_unconfirmed''
              | Inl _ \<Rightarrow> ambiguousClass ''external_supply_unconfirmed''))"

definition batteryStatus :: "err + string \<Rightarrow> classification" where
  "batteryStatus status =
     (case status of
        Inl _ \<Rightarrow> ambiguousClass ''battery_status_unconfirmed''
      | Inr v \<Rightarrow>
          if v = ''Discharging'' then noClass\<lparr>c_battery := True, c_discharging := True\<rparr>
          else if v = ''Charging'' \<or> v = ''Not charging'' \<or> v = ''Full'' then noClass\<lparr>c_battery := True\<rparr>
          else ambiguousClass ''battery_status_unconfirmed'')"

definition classifyBattery ::
  "probe_env \<Rightarrow> power_source \<Rightarrow> nat \<Rightarrow> probe_state \<Rightarrow> probe_state \<times> classification" where
  "classifyBattery env src i s =
     (let (s1, present) = readToken env src i ''present'' s
      in case present of
          Inl _ \<Rightarrow> (s1, ambiguousClass ''battery_presence_unconfirmed'')
        | Inr v \<Rightarrow>
            if v = ''0'' then (s1, noClass)
            else if v \<noteq> ''1'' then (s1, ambiguousClass ''battery_presence_unconfirmed'')
            else let (s2, status) = readToken env src i ''status'' s1 in (s2, batteryStatus status))"

definition classify ::
  "probe_env \<Rightarrow> power_source \<Rightarrow> nat \<Rightarrow> probe_state \<Rightarrow> probe_state \<times> (err + classification)" where
  "classify env src i s =
     (let (s1, typ) = readToken env src i ''type'' s;
          (s2, scope) = readToken env src i ''scope'' s1;
          (g3, ce) = canceled env (fst s2); s3 = (g3, snd s2)
      in case ce of Some e \<Rightarrow> (s3, Inl e) | None \<Rightarrow>
         case scope of Inl _ \<Rightarrow> (s3, Inr (ambiguousClass ''system_scope_unconfirmed'')) | Inr sc \<Rightarrow>
         if sc = ''Device'' then (s3, Inr noClass)
         else if sc \<noteq> ''System'' then (s3, Inr (ambiguousClass ''system_scope_unconfirmed''))
         else case typ of Inl _ \<Rightarrow> (s3, Inr (ambiguousClass ''supply_type_unconfirmed'')) | Inr ty \<Rightarrow>
           if ty = ''Battery'' then map_prod id Inr (classifyBattery env src i s3)
           else if ty \<in> set externalTypes then map_prod id Inr (classifyExternal env src i s3)
           else (s3, Inr (ambiguousClass ''supply_type_outside_profile'')))"

section \<open>One observation\<close>

definition markAmbiguous :: "Observation \<Rightarrow> string \<Rightarrow> Observation" where
  "markAmbiguous obs why =
     obs\<lparr>o_AmbiguousProviders := Suc (o_AmbiguousProviders obs), o_CoverageComplete := False,
         o_Reason := (if o_Reason obs = ''no_system_battery_discharge_witness'' then why
                      else o_Reason obs)\<rparr>"

definition recordClass :: "Observation \<Rightarrow> classification \<Rightarrow> Observation" where
  "recordClass obs c =
     (let o1 = (if c_ambiguous c \<noteq> [] then markAmbiguous obs (c_ambiguous c) else obs);
          o2 = (if c_battery c
                then o1\<lparr>o_ConfirmedSystemBatteries := Suc (o_ConfirmedSystemBatteries o1)\<rparr> else o1)
      in if c_discharging c
         then o2\<lparr>o_DischargingSystemBatteries := Suc (o_DischargingSystemBatteries o2)\<rparr> else o2)"

text \<open>One round of the loop over the names, and the loop.\<close>

definition observeSupply ::
  "probe_env \<Rightarrow> power_source \<Rightarrow> nat \<Rightarrow> string \<Rightarrow> probe_state \<Rightarrow> probe_state \<times> err option" where
  "observeSupply env src i name s =
     (case s of (g, obs) \<Rightarrow>
        case canceled env g of
          (g1, Some e) \<Rightarrow> ((g1, obs), Some e)
        | (g1, None) \<Rightarrow>
            let o1 = obs\<lparr>o_ProvidersProcessed := Suc (o_ProvidersProcessed obs)\<rparr>;
                (k, pe) = ps_provider src i name; g2 = consult env k g1
            in case pe of
                Some e \<Rightarrow> ((g2, markAmbiguous o1 (reason e)), None)
              | None \<Rightarrow>
                  let ((g3, o3), c) = classify env src i (g2, o1);
                      (g4, ce) = canceled env g3
                  in case ce of
                      Some e \<Rightarrow> ((g4, o3), Some e)
                    | None \<Rightarrow> (case c of
                          Inl _ \<Rightarrow> ((g4, markAmbiguous o3 ''provider_unavailable''), None)
                        | Inr cl \<Rightarrow>
                            if ps_providerClose src i \<noteq> None
                            then ((g4, markAmbiguous o3 ''provider_unavailable''), None)
                            else ((g4, recordClass o3 cl), None)))"

fun observeSupplies ::
  "probe_env \<Rightarrow> power_source \<Rightarrow> nat \<Rightarrow> string list \<Rightarrow> probe_state \<Rightarrow> probe_state \<times> err option" where
  "observeSupplies env src i [] s = (s, None)"
| "observeSupplies env src i (name # names) s =
     (case observeSupply env src i name s of
        (s1, Some e) \<Rightarrow> (s1, Some e)
      | (s1, None) \<Rightarrow> observeSupplies env src (Suc i) names s1)"

definition newObservation :: "string \<Rightarrow> gotime \<Rightarrow> Observation" where
  "newObservation platform started =
     \<lparr>o_Contract = powerContract, o_Platform = platform,
      o_Profile = (if platform \<noteq> ''linux'' then ''unsupported'' else LinuxProfile),
      o_Status = ''unknown'', o_Reason = ''no_system_battery_discharge_witness'',
      o_StartedAt = started, o_FinishedAt = zeroTime, o_SystemBatteryDischargingObserved = None,
      o_SupplyEntriesObserved = None, o_ProvidersProcessed = 0, o_ConfirmedSystemBatteries = 0,
      o_DischargingSystemBatteries = 0, o_AmbiguousProviders = 0, o_AttributeAttempts = 0,
      o_ReturnedAttributeBytes = 0, o_CoverageComplete = False, o_SequentialObservations = True,
      o_NamespaceAuthenticated = False, o_PhysicalPowerVerified = False\<rparr>"

text \<open>The enumeration: what the loop runs over.\<close>

definition enumerate ::
  "probe_env \<Rightarrow> power_source \<Rightarrow> probe_state \<Rightarrow> probe_state \<times> err option" where
  "enumerate env src s =
     (case s of (g, obs) \<Rightarrow>
        let (k, r) = ps_names src; g1 = consult env k g
        in case r of
            Inl _ \<Rightarrow> ((g1, obs\<lparr>o_Reason := ''enumeration_unavailable''\<rparr>), None)
          | Inr names0 \<Rightarrow>
              let names1 = take (MaxSupplyEntries + 1) names0; n = length names1;
                  complete = n \<le> MaxSupplyEntries;
                  o1 = obs\<lparr>o_SupplyEntriesObserved := Some n, o_CoverageComplete := complete,
                           o_Reason := (if \<not> complete then ''supply_entry_limit'' else o_Reason obs)\<rparr>
              in observeSupplies env src 0 (take MaxSupplyEntries names1) (g1, o1))"

text \<open>The recheck of the scope and the witness.\<close>

definition dropWitness :: "string \<Rightarrow> Observation \<Rightarrow> Observation" where
  "dropWitness why obs = obs\<lparr>o_CoverageComplete := False, o_Reason := why,
     o_DischargingSystemBatteries := 0\<rparr>"

definition closeScope :: "power_source \<Rightarrow> Observation \<Rightarrow> Observation" where
  "closeScope src obs =
     (let o1 = (if snd (ps_check src) \<noteq> None then dropWitness ''scope_changed'' obs else obs)
      in if ps_close src \<noteq> None then dropWitness ''source_close_failed'' o1 else o1)"

definition markWitness :: "Observation \<Rightarrow> Observation" where
  "markWitness obs =
     (if o_DischargingSystemBatteries obs > 0
      then obs\<lparr>o_SystemBatteryDischargingObserved := Some True,
               o_Status := ''system_battery_discharging_observed'',
               o_Reason := ''confirmed_system_battery_discharge_witness''\<rparr>
      else obs)"

definition finishObservation :: "probe_env \<Rightarrow> probe_state \<Rightarrow> err + Observation" where
  "finishObservation env s =
     (case s of (g, obs) \<Rightarrow>
        case checkedStamp env g of
          (g1, Inl e) \<Rightarrow> Inl e
        | (g1, Inr finished) \<Rightarrow>
            case canceled env g1 of
              (_, Some e) \<Rightarrow> Inl e
            | (_, None) \<Rightarrow> Inr (obs\<lparr>o_FinishedAt := finished\<rparr>))"

text \<open>\<open>observe\<close>: the start is read first, at consultation 0 without a check of the context.\<close>

definition observePower ::
  "probe_env \<Rightarrow> power_source \<Rightarrow> bool \<Rightarrow> string \<Rightarrow> err + Observation" where
  "observePower env src parentNil platform =
     (if parentNil then Inl ErrNilContext
      else
        let started = toUTC (round0 (pe_now env 0));
            g0 = \<lparr>wg_tick = 1, wg_high = started, wg_deadline = tAdd started ObservationTimeout,
                  wg_denied = None\<rparr>;
            o0 = newObservation platform started
        in case canceled env g0 of (_, Some e) \<Rightarrow> Inl e | (g1, None) \<Rightarrow>
        case snd (ps_open src) of
          Some oe \<Rightarrow>
            (case canceled env (consult env (fst (ps_open src)) g1) of
               (_, Some e) \<Rightarrow> Inl e
             | (g2, None) \<Rightarrow> finishObservation env (g2, o0\<lparr>o_Reason := reason oe\<rparr>))
        | None \<Rightarrow>
            (case canceled env (consult env (fst (ps_open src)) g1) of (_, Some e) \<Rightarrow> Inl e | (g2, None) \<Rightarrow>
             case enumerate env src (g2, o0) of (_, Some e) \<Rightarrow> Inl e | ((g3, o3), None) \<Rightarrow>
             case canceled env g3 of (_, Some e) \<Rightarrow> Inl e | (g4, None) \<Rightarrow>
             let g5 = consult env (fst (ps_check src)) g4; o5 = closeScope src o3
             in case canceled env g5 of (_, Some e) \<Rightarrow> Inl e | (g6, None) \<Rightarrow>
             finishObservation env (g6, markWitness o5)))"

end
