(* ===== verification/Power_Policy.thy ===== *)
theory Power_Policy
  imports Power_Observe
begin

text \<open>
  \<^verbatim>\<open>src/internal/worker/power_policy.go\<close>: the coordinator of the power probe. One probe at a time
  runs in its own goroutine; the worker loop asks the policy before source work. The state is the
  coordinator with its ticket; the goroutine is a phase of the ticket, advanced by three steps (entry,
  capture after the callback, publication) that interleave with the calls of the policy. Every step
  takes the answers of the clocks and of the observer as arguments.
\<close>

abbreviation powerSampleInterval :: int where "powerSampleInterval \<equiv> 300000000000"

section \<open>Data\<close>

record powerCompletion =
  cm_ID :: int
  cm_LaunchWall :: gotime
  cm_LaunchElapsed :: gotime
  cm_CompletedWall :: gotime
  cm_CompletedElapsed :: gotime
  cm_Observation :: "Observation option"
  cm_Err :: "err option"

text \<open>Where the producer of a ticket stands; its channel is closed in the last phase.\<close>

datatype producer =
    PLaunched
  | PEntered "err option"
  | PCaptured gotime gotime "err option" Observation
  | PDone powerCompletion

text \<open>\<open>tk_cause\<close> is \<open>context.Cause\<close> of the ticket's context.\<close>

record powerTicket =
  tk_ID :: int
  tk_LaunchWall :: gotime
  tk_LaunchElapsed :: gotime
  tk_cause :: "err option"
  tk_refusal :: "err option"
  tk_phase :: producer

record powerCoordinator =
  pw_hasObserver :: bool
  pw_ticket :: "powerTicket option"
  pw_nextID :: int
  pw_wallHigh :: gotime
  pw_elapsedHigh :: gotime
  pw_lastWall :: gotime
  pw_lastElapsed :: gotime

record powerPolicyDecision =
  pd_Ticket :: "int option"
  pd_Status :: string
  pd_Reason :: string
  pd_Observation :: "Observation option"
  pd_SourceBackoff :: bool
  pd_Sampling :: bool
  pd_Started :: bool
  pd_Wait :: int
  pd_NextSampleWait :: int

definition newPowerCoordinator :: "bool \<Rightarrow> powerCoordinator" where
  "newPowerCoordinator hasObserver =
     \<lparr>pw_hasObserver = hasObserver, pw_ticket = None, pw_nextID = 0, pw_wallHigh = zeroTime,
      pw_elapsedHigh = zeroTime, pw_lastWall = zeroTime, pw_lastElapsed = zeroTime\<rparr>"

definition ticketCompleted :: "powerTicket \<Rightarrow> powerCompletion option" where
  "ticketCompleted t = (case tk_phase t of PDone c \<Rightarrow> Some c | _ \<Rightarrow> None)"

text \<open>The context's cancel function: the first cause stays.\<close>

definition cancelContext :: "err \<Rightarrow> powerTicket \<Rightarrow> powerTicket" where
  "cancelContext e t = (if tk_cause t = None then t\<lparr>tk_cause := Some e\<rparr> else t)"

definition refuseTicket :: "err \<Rightarrow> powerTicket \<Rightarrow> powerTicket" where
  "refuseTicket e t =
     cancelContext ContextCanceled (if tk_refusal t = None then t\<lparr>tk_refusal := Some e\<rparr> else t)"

definition cancelTicket :: "powerCoordinator \<Rightarrow> int option \<Rightarrow> powerCoordinator \<times> bool" where
  "cancelTicket c i =
     (case pw_ticket c of
        None \<Rightarrow> (c, False)
      | Some t \<Rightarrow>
          if i \<noteq> Some (tk_ID t) \<or> ticketCompleted t \<noteq> None then (c, False)
          else (c\<lparr>pw_ticket := Some (refuseTicket ContextCanceled t)\<rparr>, True))"

section \<open>Clocks\<close>

definition clockSample ::
  "powerCoordinator \<Rightarrow> gotime \<times> gotime \<Rightarrow> powerCoordinator \<times> gotime \<times> gotime \<times> err option" where
  "clockSample c clk =
     (let wall = toUTC (round0 (fst clk)); elapsed = snd clk;
          e1 = (if \<not> isZero (pw_wallHigh c) \<and> tBefore wall (pw_wallHigh c)
                then Some ErrWallClockRollback else None);
          e2 = (if \<not> isZero (pw_elapsedHigh c) \<and> tBefore elapsed (pw_elapsedHigh c)
                then joinOpt e1 (Some ErrPowerElapsedRollback) else e1)
      in (c\<lparr>pw_wallHigh := (if tAfter wall (pw_wallHigh c) then wall else pw_wallHigh c),
            pw_elapsedHigh := (if tAfter elapsed (pw_elapsedHigh c) then elapsed
                               else pw_elapsedHigh c)\<rparr>,
          wall, elapsed, e2))"

definition sampleWait :: "powerCoordinator \<Rightarrow> gotime \<Rightarrow> gotime \<Rightarrow> int" where
  "sampleWait c wall elapsed =
     (let w1 = (if \<not> isZero (pw_lastWall c)
                then max 0 (tSub (tAdd (pw_lastWall c) powerSampleInterval) wall) else 0);
          w2 = (if \<not> isZero (pw_lastElapsed c)
                then max w1 (tSub (tAdd (pw_lastElapsed c) powerSampleInterval) elapsed) else w1)
      in max (max w2 (tSub (pw_wallHigh c) wall)) (tSub (pw_elapsedHigh c) elapsed))"

definition powerWindowError :: "powerTicket \<Rightarrow> gotime \<Rightarrow> gotime \<Rightarrow> err option" where
  "powerWindowError t wall elapsed =
     (if tBefore wall (tk_LaunchWall t) then Some ErrWallClockRollback
      else if tBefore elapsed (tk_LaunchElapsed t) then Some ErrPowerElapsedRollback
      else if \<not> tBefore wall (tAdd (tk_LaunchWall t) ObservationTimeout) \<or>
              \<not> tBefore elapsed (tAdd (tk_LaunchElapsed t) ObservationTimeout)
      then Some ContextDeadlineExceeded else None)"

section \<open>Evidence\<close>

definition freshPowerCompletion :: "powerCompletion \<Rightarrow> gotime \<Rightarrow> gotime \<Rightarrow> bool" where
  "freshPowerCompletion r wall elapsed \<longleftrightarrow>
     cm_Err r = None \<and> cm_Observation r \<noteq> None \<and>
     list_all (\<lambda>(a, b). \<not> (tSub a b < 0 \<or> tSub a b \<ge> powerSampleInterval))
       [(wall, cm_LaunchWall r), (wall, cm_CompletedWall r),
        (elapsed, cm_LaunchElapsed r), (elapsed, cm_CompletedElapsed r)]"

definition observedPowerDischarge :: "Observation option \<Rightarrow> bool" where
  "observedPowerDischarge obs \<longleftrightarrow>
     (case obs of None \<Rightarrow> False | Some o' \<Rightarrow> o_SystemBatteryDischargingObserved o' = Some True)"

definition validPowerHeader :: "Observation \<Rightarrow> gotime \<Rightarrow> gotime \<Rightarrow> bool" where
  "validPowerHeader obs launch completed \<longleftrightarrow>
     \<not> (o_Contract obs \<noteq> powerContract \<or> \<not> o_SequentialObservations obs \<or>
        o_NamespaceAuthenticated obs \<or> o_PhysicalPowerVerified obs \<or> isZero (o_StartedAt obs) \<or>
        isZero (o_FinishedAt obs) \<or> tBefore (o_StartedAt obs) launch \<or>
        tBefore (o_FinishedAt obs) (o_StartedAt obs) \<or> tAfter (o_FinishedAt obs) completed) \<and>
     (o_Platform obs = ''linux'' \<or> o_Platform obs = ''darwin'') \<and>
     (o_Profile obs = LinuxProfile \<or> o_Profile obs = ''unsupported'')"

definition validPowerCounts :: "Observation \<Rightarrow> bool" where
  "validPowerCounts obs \<longleftrightarrow>
     o_AttributeAttempts obs \<le> MaxAttributeAttempts \<and>
     o_ReturnedAttributeBytes obs \<le> MaxReturnedAttributeBytes \<and>
     o_ProvidersProcessed obs \<le> MaxSupplyEntries \<and>
     o_ConfirmedSystemBatteries obs \<le> o_ProvidersProcessed obs \<and>
     o_DischargingSystemBatteries obs \<le> o_ConfirmedSystemBatteries obs \<and>
     o_AmbiguousProviders obs \<le> o_ProvidersProcessed obs \<and>
     (case o_SupplyEntriesObserved obs of None \<Rightarrow> True | Some n \<Rightarrow> n \<le> MaxSupplyEntries + 1)"

definition validPowerObservation :: "Observation \<Rightarrow> gotime \<Rightarrow> gotime \<Rightarrow> bool" where
  "validPowerObservation obs launch completed \<longleftrightarrow>
     validPowerHeader obs launch completed \<and> validPowerCounts obs \<and>
     (case o_SystemBatteryDischargingObserved obs of
        Some w \<Rightarrow> w \<and> o_Platform obs = ''linux'' \<and> o_Profile obs = LinuxProfile \<and>
          o_Status obs = ''system_battery_discharging_observed'' \<and> o_DischargingSystemBatteries obs > 0
      | None \<Rightarrow> o_Status obs = ''unknown'' \<and> o_DischargingSystemBatteries obs = 0)"

definition powerCompletionReason :: "powerCompletion \<Rightarrow> err option \<Rightarrow> string" where
  "powerCompletionReason r clockErr =
     (if clockErr \<noteq> None \<or> optIs (cm_Err r) ErrWallClockRollback \<or>
         optIs (cm_Err r) ErrPowerElapsedRollback then ''power_clock_rollback''
      else if optIs (cm_Err r) ContextCanceled then ''power_sample_canceled''
      else if optIs (cm_Err r) ContextDeadlineExceeded then ''power_sample_deadline''
      else if cm_Err r \<noteq> None then ''power_sample_unavailable''
      else ''power_sample_stale'')"

section \<open>The policy\<close>

definition newDecision :: powerPolicyDecision where
  "newDecision = \<lparr>pd_Ticket = None, pd_Status = ''unknown'', pd_Reason = ''power_observer_unavailable'',
     pd_Observation = None, pd_SourceBackoff = False, pd_Sampling = False, pd_Started = False,
     pd_Wait = 0, pd_NextSampleWait = 0\<rparr>"

text \<open>What a completed ticket says.\<close>

definition completedDecision ::
  "powerPolicyDecision \<Rightarrow> powerCompletion \<Rightarrow> gotime \<Rightarrow> gotime \<Rightarrow> err option \<Rightarrow> powerPolicyDecision" where
  "completedDecision d r wall elapsed clockErr =
     (if clockErr = None \<and> freshPowerCompletion r wall elapsed
      then if observedPowerDischarge (cm_Observation r)
           then d\<lparr>pd_Observation := cm_Observation r, pd_Status := ''system_battery_discharging_observed'',
                  pd_Reason := ''power_discharge_witness'', pd_SourceBackoff := True,
                  pd_Wait := pd_NextSampleWait d\<rparr>
           else d\<lparr>pd_Observation := cm_Observation r, pd_Reason := ''power_sample_unknown''\<rparr>
      else d\<lparr>pd_Reason := powerCompletionReason r clockErr\<rparr>)"

text \<open>What a pending ticket says; a ticket whose window is over, whose context ended or whose clocks
  went back is refused and no longer holds the work.\<close>

definition pendingDecision ::
  "powerPolicyDecision \<Rightarrow> powerTicket \<Rightarrow> gotime \<Rightarrow> gotime \<Rightarrow> err option \<Rightarrow>
   powerTicket \<times> powerPolicyDecision" where
  "pendingDecision d t wall elapsed clockErr =
     (let refusal = (case clockErr of Some e \<Rightarrow> Some e | None \<Rightarrow>
            (case tk_cause t of Some e \<Rightarrow> Some e | None \<Rightarrow> powerWindowError t wall elapsed))
      in case refusal of
          Some e \<Rightarrow> (refuseTicket e t, d\<lparr>pd_Sampling := True, pd_Reason := ''power_observer_stalled''\<rparr>)
        | None \<Rightarrow> (t, d\<lparr>pd_Sampling := True, pd_Status := ''observing'', pd_Reason := ''power_sample_pending'',
            pd_SourceBackoff := True,
            pd_Wait := min (tSub (tAdd (tk_LaunchWall t) ObservationTimeout) wall)
                           (tSub (tAdd (tk_LaunchElapsed t) ObservationTimeout) elapsed)\<rparr>))"

text \<open>The launch of a new probe, when nothing is pending.\<close>

definition launchDecision ::
  "powerCoordinator \<Rightarrow> powerPolicyDecision \<Rightarrow> gotime \<Rightarrow> gotime \<Rightarrow> err option \<Rightarrow> bool \<Rightarrow>
   powerCoordinator \<times> powerPolicyDecision" where
  "launchDecision c d wall elapsed clockErr allowStart =
     (if clockErr \<noteq> None then (c, d\<lparr>pd_Reason := ''power_clock_rollback''\<rparr>)
      else if pd_NextSampleWait d > 0 then (c, d\<lparr>pd_Reason := ''power_sampling_interval''\<rparr>)
      else if \<not> pw_hasObserver c \<or> pw_nextID c = maxUint64 then (c, d)
      else if \<not> allowStart
      then (c, d\<lparr>pd_Status := ''sample_required'', pd_Reason := ''power_sample_required'',
                 pd_Observation := None, pd_SourceBackoff := True, pd_Wait := 0\<rparr>)
      else
        let n = pw_nextID c + 1;
            t = \<lparr>tk_ID = n, tk_LaunchWall = wall, tk_LaunchElapsed = elapsed, tk_cause = None,
                 tk_refusal = None, tk_phase = PLaunched\<rparr>
        in (c\<lparr>pw_nextID := n, pw_ticket := Some t, pw_lastWall := wall, pw_lastElapsed := elapsed\<rparr>,
            newDecision\<lparr>pd_Ticket := Some n, pd_Status := ''observing'', pd_Reason := ''power_sample_pending'',
              pd_SourceBackoff := True, pd_Sampling := True, pd_Started := True,
              pd_Wait := ObservationTimeout, pd_NextSampleWait := powerSampleInterval\<rparr>))"

definition powerPolicy ::
  "powerCoordinator \<Rightarrow> bool \<Rightarrow> gotime \<times> gotime \<Rightarrow> bool \<Rightarrow> powerCoordinator \<times> powerPolicyDecision" where
  "powerPolicy c0 parentEnded clk allowStart =
     (if parentEnded then (c0, newDecision)
      else
        let (c, wall, elapsed, clockErr) = clockSample c0 clk;
            d0 = newDecision\<lparr>pd_NextSampleWait := sampleWait c wall elapsed\<rparr>
        in case pw_ticket c of
            None \<Rightarrow> launchDecision c d0 wall elapsed clockErr allowStart
          | Some t \<Rightarrow>
              let d = d0\<lparr>pd_Ticket := Some (tk_ID t)\<rparr>
              in case ticketCompleted t of
                  Some r \<Rightarrow>
                    let d1 = completedDecision d r wall elapsed clockErr
                    in if pd_NextSampleWait d1 > 0 \<or> clockErr \<noteq> None then (c, d1)
                       else launchDecision c d1 wall elapsed clockErr allowStart
                | None \<Rightarrow>
                    let (t', d1) = pendingDecision d t wall elapsed clockErr
                    in (c\<lparr>pw_ticket := Some t'\<rparr>, d1))"

definition sourcePolicy :: "powerCoordinator \<Rightarrow> bool \<Rightarrow> gotime \<times> gotime \<Rightarrow> powerCoordinator \<times> powerPolicyDecision" where
  "sourcePolicy c parentEnded clk = powerPolicy c parentEnded clk True"

definition recheckSourcePolicy ::
  "powerCoordinator \<Rightarrow> bool \<Rightarrow> gotime \<times> gotime \<Rightarrow> powerCoordinator \<times> powerPolicyDecision" where
  "recheckSourcePolicy c parentEnded clk = powerPolicy c parentEnded clk False"

section \<open>The producer\<close>

text \<open>\<open>observe\<close> before the callback, under the lock.\<close>

definition observeEntry :: "powerCoordinator \<Rightarrow> gotime \<times> gotime \<Rightarrow> powerCoordinator" where
  "observeEntry c0 clk =
     (case pw_ticket c0 of
        Some t \<Rightarrow>
          if tk_phase t = PLaunched
          then
            let (c, wall, elapsed, e0) = clockSample c0 clk;
                e1 = (case e0 of Some e \<Rightarrow> Some e | None \<Rightarrow>
                       (case tk_cause t of Some e \<Rightarrow> Some e | None \<Rightarrow> powerWindowError t wall elapsed));
                e2 = (case tk_refusal t of Some e \<Rightarrow> Some e | None \<Rightarrow> e1)
            in c\<lparr>pw_ticket := Some (t\<lparr>tk_phase := PEntered e2\<rparr>)\<rparr>
          else c0
      | None \<Rightarrow> c0)"

definition zeroObservation :: Observation where
  "zeroObservation = \<lparr>o_Contract = [], o_Platform = [], o_Profile = [], o_Status = [], o_Reason = [],
     o_StartedAt = zeroTime, o_FinishedAt = zeroTime, o_SystemBatteryDischargingObserved = None,
     o_SupplyEntriesObserved = None, o_ProvidersProcessed = 0, o_ConfirmedSystemBatteries = 0,
     o_DischargingSystemBatteries = 0, o_AmbiguousProviders = 0, o_AttributeAttempts = 0,
     o_ReturnedAttributeBytes = 0, o_CoverageComplete = False, o_SequentialObservations = False,
     o_NamespaceAuthenticated = False, o_PhysicalPowerVerified = False\<rparr>"

text \<open>The callback and the capture of the terminal anchors, without the lock. \<open>answer\<close> is what the
  observer returns if it is called.\<close>

definition observeCapture ::
  "powerCoordinator \<Rightarrow> gotime \<times> gotime \<Rightarrow> Observation \<times> err option \<Rightarrow> powerCoordinator" where
  "observeCapture c0 clk answer =
     (case pw_ticket c0 of
        Some t \<Rightarrow> (case tk_phase t of
            PEntered entered \<Rightarrow>
              let (obs, e0) = (case entered of Some e \<Rightarrow> (zeroObservation, Some e) | None \<Rightarrow> answer);
                  (c, wall, elapsed, ce) = clockSample c0 clk;
                  e1 = (case ce of Some e \<Rightarrow> Some e | None \<Rightarrow> e0);
                  e2 = (case tk_cause t of Some e \<Rightarrow> Some e | None \<Rightarrow> e1);
                  e3 = (case powerWindowError t wall elapsed of Some e \<Rightarrow> Some e | None \<Rightarrow> e2)
              in c\<lparr>pw_ticket := Some (t\<lparr>tk_phase := PCaptured wall elapsed e3 obs\<rparr>)\<rparr>
          | _ \<Rightarrow> c0)
      | None \<Rightarrow> c0)"

text \<open>The publication, under the lock; the deferred cancel runs after it.\<close>

definition publishTicket :: "powerTicket \<Rightarrow> gotime \<Rightarrow> gotime \<Rightarrow> err option \<Rightarrow> Observation \<Rightarrow> powerCompletion" where
  "publishTicket t wall elapsed e0 obs =
     (let e1 = (case tk_refusal t of Some e \<Rightarrow> Some e | None \<Rightarrow> e0);
          e2 = (if tk_cause t \<noteq> None \<and> e1 = None then tk_cause t else e1);
          valid = validPowerObservation obs (tk_LaunchWall t) wall;
          saved = (if e2 = None \<and> valid then Some obs else None);
          e3 = (if e2 = None \<and> \<not> valid then Some ErrPowerObservationInvalid else e2)
      in \<lparr>cm_ID = tk_ID t, cm_LaunchWall = tk_LaunchWall t, cm_LaunchElapsed = tk_LaunchElapsed t,
          cm_CompletedWall = wall, cm_CompletedElapsed = elapsed, cm_Observation = saved, cm_Err = e3\<rparr>)"

definition observePublish :: "powerCoordinator \<Rightarrow> powerCoordinator" where
  "observePublish c =
     (case pw_ticket c of
        Some t \<Rightarrow> (case tk_phase t of
            PCaptured wall elapsed e obs \<Rightarrow>
              c\<lparr>pw_ticket := Some (cancelContext ContextCanceled
                  (t\<lparr>tk_phase := PDone (publishTicket t wall elapsed e obs)\<rparr>))\<rparr>
          | _ \<Rightarrow> c)
      | None \<Rightarrow> c)"

text \<open>The ticket's context ends from outside: its parent is cancelled or its timer fires.\<close>

definition contextEnds :: "powerCoordinator \<Rightarrow> err \<Rightarrow> powerCoordinator" where
  "contextEnds c e = c\<lparr>pw_ticket := map_option (cancelContext e) (pw_ticket c)\<rparr>"

inductive power_step :: "powerCoordinator \<Rightarrow> powerCoordinator \<Rightarrow> bool" where
  policy: "powerPolicy c ended clk allow = (c', d) \<Longrightarrow> power_step c c'"
| cancelled: "cancelTicket c i = (c', ok) \<Longrightarrow> power_step c c'"
| entered: "power_step c (observeEntry c clk)"
| captured: "power_step c (observeCapture c clk answer)"
| published: "power_step c (observePublish c)"
| ended: "power_step c (contextEnds c e)"

end
