(* ===== verification/Power_Observe_Laws.thy ===== *)
theory Power_Observe_Laws
  imports Power_Observe
begin

text \<open>
  The guard of an observation, the bounds of its counters, and its equivalence with a reference
  definition that reads every supply once and knows of no cancellation.
\<close>

section \<open>The guard\<close>

definition guardIn :: "gotime \<Rightarrow> wallGuard \<Rightarrow> bool" where
  "guardIn started g \<longleftrightarrow> t_ns started \<le> t_ns (wg_high g) \<and>
     t_ns (wg_deadline g) = t_ns started + ObservationTimeout"

lemma guardAccept_in: "guardIn started g \<Longrightarrow> guardIn started (fst (guardAccept g stamp))"
  by (auto simp: guardAccept_def guardIn_def Let_def tBefore_def)

lemma guardIn_tick [simp]: "guardIn started (g\<lparr>wg_tick := n\<rparr>) = guardIn started g"
  by (simp add: guardIn_def)

lemma canceled_in: "guardIn started g \<Longrightarrow> guardIn started (fst (canceled env g))"
  by (simp add: canceled_def Let_def guardAccept_in split: option.splits)

lemma consult_in: "guardIn started g \<Longrightarrow> guardIn started (consult env k g)"
proof (induction k arbitrary: g)
  case (Suc k)
  then show ?case using canceled_in [OF Suc.prems, of env] by (auto split: prod.splits option.splits)
qed simp

lemma checkedStamp_in:
  assumes "guardIn started g" "checkedStamp env g = (g', Inr stamp)"
  shows "guardIn started g'" "t_ns started \<le> t_ns stamp" "t_ns stamp < t_ns started + ObservationTimeout"
proof -
  have "guardIn started g' \<and> t_ns started \<le> t_ns stamp \<and> t_ns stamp < t_ns started + ObservationTimeout"
    using assms
    by (auto simp: checkedStamp_def guardAccept_def Let_def guardIn_def tBefore_def
        split: option.splits if_splits)
  then show "guardIn started g'" "t_ns started \<le> t_ns stamp" "t_ns stamp < t_ns started + ObservationTimeout"
    by simp_all
qed

text \<open>A context that was cancelled stays cancelled: the documented behaviour of \<open>context.Cause\<close>. Then
  a denial is never taken back.\<close>

definition stickyCause :: "probe_env \<Rightarrow> bool" where
  "stickyCause env \<longleftrightarrow> (\<forall>n m. pe_cause env n \<noteq> None \<longrightarrow> n \<le> m \<longrightarrow> pe_cause env m \<noteq> None)"

definition dead :: "probe_env \<Rightarrow> wallGuard \<Rightarrow> bool" where
  "dead env g \<longleftrightarrow> wg_denied g \<noteq> None \<or> (\<exists>n < wg_tick g. pe_cause env n \<noteq> None)"

lemma canceled_dead:
  assumes "stickyCause env"
  shows "dead env g \<Longrightarrow> snd (canceled env g) \<noteq> None" "dead env g \<Longrightarrow> dead env (fst (canceled env g))"
    "snd (canceled env g) \<noteq> None \<Longrightarrow> dead env (fst (canceled env g))"
proof -
  have c: "pe_cause env (wg_tick g) \<noteq> None" if "n < wg_tick g" "pe_cause env n \<noteq> None" for n
    using assms that unfolding stickyCause_def by (metis less_imp_le)
  show "dead env g \<Longrightarrow> snd (canceled env g) \<noteq> None"
    using c by (auto simp: dead_def canceled_def Let_def guardAccept_def split: option.splits)
  show "dead env g \<Longrightarrow> dead env (fst (canceled env g))"
    by (auto simp: dead_def canceled_def Let_def guardAccept_def less_Suc_eq split: option.splits)
  show "snd (canceled env g) \<noteq> None \<Longrightarrow> dead env (fst (canceled env g))"
    by (auto simp: dead_def canceled_def Let_def guardAccept_def less_Suc_eq split: option.splits if_splits)
qed

lemma canceled_alive:
  assumes "stickyCause env" "canceled env g = (g', None)"
  shows "\<not> dead env g"
  using canceled_dead(1) [OF assms(1), of g] assms(2) by auto

lemma alive_before:
  assumes "stickyCause env" "canceled env g = (g', e)" "\<not> dead env g'"
  shows "e = None" "\<not> dead env g"
  using canceled_dead(2,3) [OF assms(1), of g] assms(2,3) by (cases e; auto)+

lemma consult_alive:
  assumes "stickyCause env" "\<not> dead env (consult env k g)"
  shows "\<not> dead env g"
  using assms(2)
proof (induction k arbitrary: g)
  case (Suc k)
  obtain g1 e where c: "canceled env g = (g1, e)" by fastforce
  show ?case
  proof (cases e)
    case None
    then show ?thesis using Suc c alive_before(2) [OF assms(1) c] by simp
  next
    case (Some x)
    then show ?thesis using Suc.prems c alive_before(2) [OF assms(1) c] by simp
  qed
qed simp

section \<open>Reading attributes\<close>

text \<open>Up to \<open>k\<close> further reads: only the two counters of the reads move, within their bounds.\<close>

definition attrStep :: "nat \<Rightarrow> Observation \<Rightarrow> Observation \<Rightarrow> bool" where
  "attrStep k a b \<longleftrightarrow>
     b = a\<lparr>o_AttributeAttempts := o_AttributeAttempts b, o_ReturnedAttributeBytes := o_ReturnedAttributeBytes b\<rparr> \<and>
     o_AttributeAttempts a \<le> o_AttributeAttempts b \<and> o_AttributeAttempts b \<le> o_AttributeAttempts a + k \<and>
     (o_AttributeAttempts a \<le> MaxAttributeAttempts \<longrightarrow> o_AttributeAttempts b \<le> MaxAttributeAttempts) \<and>
     o_ReturnedAttributeBytes b + 65 * o_AttributeAttempts a \<le> o_ReturnedAttributeBytes a + 65 * o_AttributeAttempts b"

lemma attrStep_refl: "attrStep k a a"
  by (simp add: attrStep_def)

lemma attrStep_trans:
  assumes "attrStep j a b" "attrStep k b c" "j + k \<le> n"
  shows "attrStep n a c"
proof -
  have ab: "b = a\<lparr>o_AttributeAttempts := o_AttributeAttempts b, o_ReturnedAttributeBytes := o_ReturnedAttributeBytes b\<rparr>"
    and bc: "c = b\<lparr>o_AttributeAttempts := o_AttributeAttempts c, o_ReturnedAttributeBytes := o_ReturnedAttributeBytes c\<rparr>"
    using assms(1,2) unfolding attrStep_def by blast+
  have "c = a\<lparr>o_AttributeAttempts := o_AttributeAttempts c, o_ReturnedAttributeBytes := o_ReturnedAttributeBytes c\<rparr>"
    by (subst bc, subst ab) simp
  then show ?thesis using assms by (simp add: attrStep_def)
qed

lemma cutAttribute_length: "length (fst (cutAttribute r)) \<le> 65"
  by (simp add: cutAttribute_def)

lemma readToken_step:
  assumes "readToken env src i name (g, a) = ((g', b), r)"
  shows "attrStep 1 a b" "guardIn started g \<Longrightarrow> guardIn started g'"
proof -
  obtain g1 e where c: "canceled env g = (g1, e)" by fastforce
  obtain k x where k: "ps_attribute src i name = (k, x)" by (metis surj_pair)
  obtain bs be where cut: "cutAttribute x = (bs, be)" by fastforce
  then have len: "length bs \<le> 65" using cutAttribute_length [of x] by simp
  show "attrStep 1 a b"
    using assms c k cut len
    by (auto simp: readToken_def attrStep_def split: option.splits if_splits)
  show "guardIn started g'" if "guardIn started g"
    using assms c k cut canceled_in [OF that, of env] consult_in
    by (auto simp: readToken_def split: option.splits if_splits)
qed

text \<open>The reference: the token of an attribute, the class of a supply.\<close>

definition supplyToken :: "power_source \<Rightarrow> nat \<Rightarrow> string \<Rightarrow> string option" where
  "supplyToken src i name =
     (case cutAttribute (snd (ps_attribute src i name)) of (b, e) \<Rightarrow>
        (case tokenOf b e of Inl _ \<Rightarrow> None | Inr t \<Rightarrow> Some t))"

definition dischargingSupply :: "power_source \<Rightarrow> nat \<Rightarrow> bool" where
  "dischargingSupply src i \<longleftrightarrow> supplyToken src i ''type'' = Some ''Battery'' \<and>
     supplyToken src i ''scope'' = Some ''System'' \<and> supplyToken src i ''present'' = Some ''1'' \<and>
     supplyToken src i ''status'' = Some ''Discharging''"

definition confirmedSupply :: "power_source \<Rightarrow> nat \<Rightarrow> bool" where
  "confirmedSupply src i \<longleftrightarrow> supplyToken src i ''type'' = Some ''Battery'' \<and>
     supplyToken src i ''scope'' = Some ''System'' \<and> supplyToken src i ''present'' = Some ''1'' \<and>
     (\<exists>v \<in> {''Discharging'', ''Charging'', ''Not charging'', ''Full''}. supplyToken src i ''status'' = Some v)"

text \<open>While the observation is not denied and the limit of the reads is not reached, a read gives the
  reference token.\<close>

lemma readToken_alive:
  assumes "stickyCause env" "readToken env src i name (g, a) = ((g', b), r)" "\<not> dead env g'"
  shows "\<not> dead env g"
    "o_AttributeAttempts a < MaxAttributeAttempts \<Longrightarrow>
       supplyToken src i name = (case r of Inl _ \<Rightarrow> None | Inr t \<Rightarrow> Some t)"
proof -
  obtain g1 e where c: "canceled env g = (g1, e)" by fastforce
  obtain k x where k: "ps_attribute src i name = (k, x)" by (metis surj_pair)
  obtain bs be where cut: "cutAttribute x = (bs, be)" by fastforce
  have g1: "\<not> dead env g1"
    using assms c k cut consult_alive [OF assms(1), of k g1]
    by (auto simp: readToken_def split: option.splits if_splits)
  note al = alive_before [OF assms(1) c g1]
  show "\<not> dead env g" by (rule al)
  show "supplyToken src i name = (case r of Inl _ \<Rightarrow> None | Inr t \<Rightarrow> Some t)"
    if "o_AttributeAttempts a < MaxAttributeAttempts"
    using assms(2) c k cut al(1) that
    by (auto simp: readToken_def supplyToken_def split: option.splits if_splits)
qed

section \<open>Classifying a supply\<close>

lemma classifyExternal_step:
  assumes "classifyExternal env src i (g, a) = ((g', b), c)"
  shows "attrStep 1 a b" "guardIn started g \<Longrightarrow> guardIn started g'"
    "\<not> c_battery c" "\<not> c_discharging c"
    "stickyCause env \<Longrightarrow> \<not> dead env g' \<Longrightarrow> \<not> dead env g"
proof -
  obtain g1 a1 r where t: "readToken env src i ''online'' (g, a) = ((g1, a1), r)" by (metis surj_pair)
  then have e: "g' = g1" "b = a1" "\<not> c_battery c" "\<not> c_discharging c"
    using assms by (auto simp: classifyExternal_def noClass_def ambiguousClass_def split: sum.splits if_splits)
  then show "attrStep 1 a b" "guardIn started g \<Longrightarrow> guardIn started g'"
    "\<not> c_battery c" "\<not> c_discharging c"
    "stickyCause env \<Longrightarrow> \<not> dead env g' \<Longrightarrow> \<not> dead env g"
    using readToken_step [OF t] readToken_alive(1) [OF _ t] by simp_all
qed

lemma classifyBattery_step:
  assumes "classifyBattery env src i (g, a) = ((g', b), c)"
  shows "attrStep 2 a b" "guardIn started g \<Longrightarrow> guardIn started g'"
    "c_discharging c \<Longrightarrow> c_battery c"
    "stickyCause env \<Longrightarrow> \<not> dead env g' \<Longrightarrow> \<not> dead env g"
    "stickyCause env \<Longrightarrow> \<not> dead env g' \<Longrightarrow> o_AttributeAttempts a + 2 \<le> MaxAttributeAttempts \<Longrightarrow>
       c_discharging c = (supplyToken src i ''present'' = Some ''1'' \<and>
         supplyToken src i ''status'' = Some ''Discharging'') \<and>
       c_battery c = (supplyToken src i ''present'' = Some ''1'' \<and>
         (\<exists>v \<in> {''Discharging'', ''Charging'', ''Not charging'', ''Full''}. supplyToken src i ''status'' = Some v))"
proof -
  obtain g1 a1 r where t: "readToken env src i ''present'' (g, a) = ((g1, a1), r)" by (metis surj_pair)
  note s1 = readToken_step [OF t] and l1 = readToken_alive [OF _ t]
  obtain g2 a2 r2 where t2: "readToken env src i ''status'' (g1, a1) = ((g2, a2), r2)" by (metis surj_pair)
  note s2 = readToken_step [OF t2] and l2 = readToken_alive [OF _ t2]
  have "attrStep 2 a b \<and> (guardIn started g \<longrightarrow> guardIn started g') \<and> (c_discharging c \<longrightarrow> c_battery c) \<and>
    (stickyCause env \<longrightarrow> \<not> dead env g' \<longrightarrow> \<not> dead env g \<and> (o_AttributeAttempts a + 2 \<le> MaxAttributeAttempts \<longrightarrow>
       c_discharging c = (supplyToken src i ''present'' = Some ''1'' \<and>
         supplyToken src i ''status'' = Some ''Discharging'') \<and>
       c_battery c = (supplyToken src i ''present'' = Some ''1'' \<and>
         (\<exists>v \<in> {''Discharging'', ''Charging'', ''Not charging'', ''Full''}. supplyToken src i ''status'' = Some v))))"
  proof (cases "r = Inr ''1''")
    case True
    then have e: "g' = g2" "b = a2" "c = batteryStatus r2"
      using assms t t2 by (simp_all add: classifyBattery_def)
    have "o_AttributeAttempts a1 < MaxAttributeAttempts" if "o_AttributeAttempts a + 2 \<le> MaxAttributeAttempts"
      using s1(1) that by (simp add: attrStep_def)
    then show ?thesis
      using e s1 s2 l1 l2 True attrStep_trans [OF s1(1) s2(1), of 2]
      by (auto simp: batteryStatus_def noClass_def ambiguousClass_def split: sum.splits if_splits)
  next
    case False
    then have e: "g' = g1" "b = a1" "\<not> c_battery c" "\<not> c_discharging c"
      using assms t
      by (auto simp: classifyBattery_def noClass_def ambiguousClass_def split: sum.splits if_splits)
    then show ?thesis
      using s1 l1 False attrStep_trans [OF s1(1) attrStep_refl, of 1 2]
      by (auto split: sum.splits)
  qed
  then show "attrStep 2 a b" "guardIn started g \<Longrightarrow> guardIn started g'"
    "c_discharging c \<Longrightarrow> c_battery c"
    "stickyCause env \<Longrightarrow> \<not> dead env g' \<Longrightarrow> \<not> dead env g"
    "stickyCause env \<Longrightarrow> \<not> dead env g' \<Longrightarrow> o_AttributeAttempts a + 2 \<le> MaxAttributeAttempts \<Longrightarrow>
       c_discharging c = (supplyToken src i ''present'' = Some ''1'' \<and>
         supplyToken src i ''status'' = Some ''Discharging'') \<and>
       c_battery c = (supplyToken src i ''present'' = Some ''1'' \<and>
         (\<exists>v \<in> {''Discharging'', ''Charging'', ''Not charging'', ''Full''}. supplyToken src i ''status'' = Some v))"
    by blast+
qed

text \<open>The dispatch of \<open>classify\<close> once the type and the scope are read.\<close>

definition classifyRest ::
  "probe_env \<Rightarrow> power_source \<Rightarrow> nat \<Rightarrow> probe_state \<Rightarrow> err + string \<Rightarrow> err + string \<Rightarrow>
   probe_state \<times> classification" where
  "classifyRest env src i s typ scope =
     (case scope of Inl _ \<Rightarrow> (s, ambiguousClass ''system_scope_unconfirmed'') | Inr sc \<Rightarrow>
      if sc = ''Device'' then (s, noClass)
      else if sc \<noteq> ''System'' then (s, ambiguousClass ''system_scope_unconfirmed'')
      else case typ of Inl _ \<Rightarrow> (s, ambiguousClass ''supply_type_unconfirmed'') | Inr ty \<Rightarrow>
        if ty = ''Battery'' then classifyBattery env src i s
        else if ty \<in> set externalTypes then classifyExternal env src i s
        else (s, ambiguousClass ''supply_type_outside_profile''))"

lemma classify_rest:
  assumes "readToken env src i ''type'' s = (s1, typ)" "readToken env src i ''scope'' s1 = (s2, scope)"
    "canceled env (fst s2) = (g3, ce)"
  shows "classify env src i s = (case ce of Some e \<Rightarrow> ((g3, snd s2), Inl e)
     | None \<Rightarrow> map_prod id Inr (classifyRest env src i (g3, snd s2) typ scope))"
  using assms
  by (auto simp: classify_def classifyRest_def Let_def split: option.splits sum.splits if_splits)

lemma classifyRest_step:
  assumes "classifyRest env src i (g, a) typ scope = ((g', b), c)"
  shows "attrStep 2 a b" "guardIn started g \<Longrightarrow> guardIn started g'" "c_discharging c \<Longrightarrow> c_battery c"
    "stickyCause env \<Longrightarrow> \<not> dead env g' \<Longrightarrow> \<not> dead env g"
    "stickyCause env \<Longrightarrow> \<not> dead env g' \<Longrightarrow> o_AttributeAttempts a + 2 \<le> MaxAttributeAttempts \<Longrightarrow>
       supplyToken src i ''type'' = (case typ of Inl _ \<Rightarrow> None | Inr t \<Rightarrow> Some t) \<Longrightarrow>
       supplyToken src i ''scope'' = (case scope of Inl _ \<Rightarrow> None | Inr t \<Rightarrow> Some t) \<Longrightarrow>
       c_discharging c = dischargingSupply src i \<and> c_battery c = confirmedSupply src i"
proof -
  have "attrStep 2 a b \<and> (guardIn started g \<longrightarrow> guardIn started g') \<and> (c_discharging c \<longrightarrow> c_battery c) \<and>
    (stickyCause env \<longrightarrow> \<not> dead env g' \<longrightarrow> \<not> dead env g) \<and>
    (stickyCause env \<longrightarrow> \<not> dead env g' \<longrightarrow> o_AttributeAttempts a + 2 \<le> MaxAttributeAttempts \<longrightarrow>
       supplyToken src i ''type'' = (case typ of Inl _ \<Rightarrow> None | Inr t \<Rightarrow> Some t) \<longrightarrow>
       supplyToken src i ''scope'' = (case scope of Inl _ \<Rightarrow> None | Inr t \<Rightarrow> Some t) \<longrightarrow>
       c_discharging c = dischargingSupply src i \<and> c_battery c = confirmedSupply src i)"
  proof (cases "scope = Inr ''System'' \<and> typ = Inr ''Battery''")
    case True
    then have "classifyBattery env src i (g, a) = ((g', b), c)" using assms by (simp add: classifyRest_def)
    note st = classifyBattery_step [OF this]
    show ?thesis using st True by (auto simp: dischargingSupply_def confirmedSupply_def)
  next
    case False
    have "((g', b) = (g, a) \<and> \<not> c_discharging c \<and> \<not> c_battery c) \<or>
        classifyExternal env src i (g, a) = ((g', b), c)"
      using assms False
      by (auto simp: classifyRest_def noClass_def ambiguousClass_def split: sum.splits if_splits)
    moreover have "\<not> dischargingSupply src i \<and> \<not> confirmedSupply src i"
      if "supplyToken src i ''type'' = (case typ of Inl _ \<Rightarrow> None | Inr t \<Rightarrow> Some t)"
        "supplyToken src i ''scope'' = (case scope of Inl _ \<Rightarrow> None | Inr t \<Rightarrow> Some t)"
      using False that by (auto simp: dischargingSupply_def confirmedSupply_def split: sum.splits)
    ultimately show ?thesis
      using classifyExternal_step [of env src i g a g' b c] attrStep_trans [OF _ attrStep_refl, of 1 a b 1 2]
      by (auto simp: attrStep_refl)
  qed
  then show "attrStep 2 a b" "guardIn started g \<Longrightarrow> guardIn started g'" "c_discharging c \<Longrightarrow> c_battery c"
    "stickyCause env \<Longrightarrow> \<not> dead env g' \<Longrightarrow> \<not> dead env g"
    "stickyCause env \<Longrightarrow> \<not> dead env g' \<Longrightarrow> o_AttributeAttempts a + 2 \<le> MaxAttributeAttempts \<Longrightarrow>
       supplyToken src i ''type'' = (case typ of Inl _ \<Rightarrow> None | Inr t \<Rightarrow> Some t) \<Longrightarrow>
       supplyToken src i ''scope'' = (case scope of Inl _ \<Rightarrow> None | Inr t \<Rightarrow> Some t) \<Longrightarrow>
       c_discharging c = dischargingSupply src i \<and> c_battery c = confirmedSupply src i"
    by blast+
qed

lemma classify_step:
  assumes "classify env src i (g, a) = ((g', b), r)"
  shows "attrStep 4 a b \<and> (guardIn started g \<longrightarrow> guardIn started g') \<and>
    (\<forall>c. r = Inr c \<longrightarrow> c_discharging c \<longrightarrow> c_battery c) \<and>
    (stickyCause env \<longrightarrow> \<not> dead env g' \<longrightarrow> \<not> dead env g \<and>
      (o_AttributeAttempts a + 4 \<le> MaxAttributeAttempts \<longrightarrow>
        (\<exists>c. r = Inr c \<and> c_discharging c = dischargingSupply src i \<and> c_battery c = confirmedSupply src i)))"
proof -
  obtain g1 a1 tt where t1: "readToken env src i ''type'' (g, a) = ((g1, a1), tt)" by (metis surj_pair)
  obtain g2 a2 scope where t2: "readToken env src i ''scope'' (g1, a1) = ((g2, a2), scope)" by (metis surj_pair)
  obtain g3 ce where c3: "canceled env g2 = (g3, ce)" by fastforce
  note s1 = readToken_step [OF t1] and s2 = readToken_step [OF t2]
  note l1 = readToken_alive [OF _ t1] and l2 = readToken_alive [OF _ t2]
  have s12: "attrStep 2 a a2" using attrStep_trans [OF s1(1) s2(1), of 2] by simp
  have g3: "guardIn started g \<longrightarrow> guardIn started g3" using s1(2) s2(2) canceled_in [of started g2 env] c3 by simp
  have cl: "classify env src i (g, a) = (case ce of Some e \<Rightarrow> ((g3, a2), Inl e)
     | None \<Rightarrow> map_prod id Inr (classifyRest env src i (g3, a2) tt scope))"
    using classify_rest [OF t1 t2, of g3 ce] c3 by (cases ce) simp_all
  have low: "o_AttributeAttempts a < MaxAttributeAttempts \<and> o_AttributeAttempts a1 < MaxAttributeAttempts \<and>
      o_AttributeAttempts a2 + 2 \<le> MaxAttributeAttempts" if "o_AttributeAttempts a + 4 \<le> MaxAttributeAttempts"
    using that s1(1) s2(1) by (simp add: attrStep_def)
  show ?thesis
  proof (cases ce)
    case None
    obtain c where rest: "classifyRest env src i (g3, a2) tt scope = ((g', b), c)" and r: "r = Inr c"
      using assms cl None by (cases "classifyRest env src i (g3, a2) tt scope") auto
    note sr = classifyRest_step [OF rest]
    have "\<not> dead env g \<and> (o_AttributeAttempts a + 4 \<le> MaxAttributeAttempts \<longrightarrow>
        c_discharging c = dischargingSupply src i \<and> c_battery c = confirmedSupply src i)"
      if st: "stickyCause env" and al: "\<not> dead env g'"
    proof -
      have d3: "\<not> dead env g3" by (rule sr(4) [OF st al])
      have d2: "\<not> dead env g2" by (rule alive_before(2) [OF st c3 d3])
      have d1: "\<not> dead env g1" by (rule l2(1) [OF st d2])
      show ?thesis using l1(1) [OF st d1] sr(5) [OF st al] l1(2) [OF st d1] l2(2) [OF st d2] low by simp
    qed
    then show ?thesis using sr(1-3) s12 g3 r attrStep_trans [OF s12 sr(1), of 4] by simp
  next
    case (Some e)
    then have e: "g' = g3" "b = a2" "r = Inl e" using assms cl by simp_all
    have "dead env g3" if "stickyCause env" using canceled_dead(3) [OF that, of g2] c3 Some by simp
    then show ?thesis using e g3 attrStep_trans [OF s12 attrStep_refl, of 2 4] by auto
  qed
qed

section \<open>Counters\<close>

text \<open>What one observation of the supplies keeps, from a given platform and start.\<close>

definition obsInv :: "string \<Rightarrow> gotime \<Rightarrow> Observation \<Rightarrow> bool" where
  "obsInv platform started a \<longleftrightarrow>
     o_Contract a = powerContract \<and> o_Platform a = platform \<and>
     o_Profile a = (if platform \<noteq> ''linux'' then ''unsupported'' else LinuxProfile) \<and>
     o_Status a = ''unknown'' \<and> o_StartedAt a = started \<and> o_SystemBatteryDischargingObserved a = None \<and>
     o_ConfirmedSystemBatteries a \<le> o_ProvidersProcessed a \<and>
     o_DischargingSystemBatteries a \<le> o_ConfirmedSystemBatteries a \<and>
     o_AmbiguousProviders a \<le> o_ProvidersProcessed a \<and>
     o_AttributeAttempts a \<le> 4 * o_ProvidersProcessed a \<and>
     o_AttributeAttempts a \<le> MaxAttributeAttempts \<and>
     o_ReturnedAttributeBytes a \<le> 65 * o_AttributeAttempts a \<and>
     (case o_SupplyEntriesObserved a of None \<Rightarrow> True | Some n \<Rightarrow> n \<le> MaxSupplyEntries + 1) \<and>
     o_SequentialObservations a \<and> \<not> o_NamespaceAuthenticated a \<and> \<not> o_PhysicalPowerVerified a"

lemma obsInv_attr:
  assumes "obsInv platform started a"
    "attrStep 4 (a\<lparr>o_ProvidersProcessed := Suc (o_ProvidersProcessed a)\<rparr>) b"
  shows "obsInv platform started b" "o_ProvidersProcessed b = Suc (o_ProvidersProcessed a)"
    "o_ConfirmedSystemBatteries b = o_ConfirmedSystemBatteries a"
    "o_DischargingSystemBatteries b = o_DischargingSystemBatteries a"
    "o_AmbiguousProviders b = o_AmbiguousProviders a"
proof -
  obtain x y where b: "b = a\<lparr>o_ProvidersProcessed := Suc (o_ProvidersProcessed a),
      o_AttributeAttempts := x, o_ReturnedAttributeBytes := y\<rparr>"
    using assms(2) by (auto simp: attrStep_def)
  then have le: "x \<le> o_AttributeAttempts a + 4" "x \<le> MaxAttributeAttempts"
      "y + 65 * o_AttributeAttempts a \<le> o_ReturnedAttributeBytes a + 65 * x"
    using assms by (simp_all add: attrStep_def obsInv_def)
  show "obsInv platform started b" "o_ProvidersProcessed b = Suc (o_ProvidersProcessed a)"
    "o_ConfirmedSystemBatteries b = o_ConfirmedSystemBatteries a"
    "o_DischargingSystemBatteries b = o_DischargingSystemBatteries a"
    "o_AmbiguousProviders b = o_AmbiguousProviders a"
    using assms(1) le by (auto simp: b obsInv_def)
qed

lemma obsInv_mark:
  "obsInv platform started a \<Longrightarrow> o_AmbiguousProviders a < o_ProvidersProcessed a \<Longrightarrow>
   obsInv platform started (markAmbiguous a why)"
  by (simp add: obsInv_def markAmbiguous_def)

lemma obsInv_record:
  assumes "obsInv platform started a" "o_AmbiguousProviders a < o_ProvidersProcessed a"
    "o_ConfirmedSystemBatteries a < o_ProvidersProcessed a" "c_discharging c \<Longrightarrow> c_battery c"
  shows "obsInv platform started (recordClass a c)"
  using assms by (auto simp: obsInv_def recordClass_def markAmbiguous_def Let_def)

lemma mark_counts [simp]:
  "o_ProvidersProcessed (markAmbiguous a why) = o_ProvidersProcessed a"
  "o_ConfirmedSystemBatteries (markAmbiguous a why) = o_ConfirmedSystemBatteries a"
  "o_DischargingSystemBatteries (markAmbiguous a why) = o_DischargingSystemBatteries a"
  "o_AttributeAttempts (markAmbiguous a why) = o_AttributeAttempts a"
  by (simp_all add: markAmbiguous_def)

lemma record_counts [simp]:
  "o_ProvidersProcessed (recordClass a c) = o_ProvidersProcessed a"
  "o_ConfirmedSystemBatteries (recordClass a c) = o_ConfirmedSystemBatteries a + (if c_battery c then 1 else 0)"
  "o_DischargingSystemBatteries (recordClass a c) =
     o_DischargingSystemBatteries a + (if c_discharging c then 1 else 0)"
  by (simp_all add: recordClass_def Let_def)

text \<open>The strict inequalities hold between the providers.\<close>

lemma obsInv_strict: "obsInv platform started a \<Longrightarrow>
    o_AmbiguousProviders a < Suc (o_ProvidersProcessed a) \<and>
    o_ConfirmedSystemBatteries a < Suc (o_ProvidersProcessed a)"
  by (simp add: obsInv_def)

text \<open>Which supplies count.\<close>

definition usable :: "power_source \<Rightarrow> nat \<Rightarrow> string \<Rightarrow> bool" where
  "usable src i name \<longleftrightarrow> snd (ps_provider src i name) = None \<and> ps_providerClose src i = None"

lemma observeSupply_step:
  assumes op: "observeSupply env src i name (g, a) = ((g', b), e)"
    and inv: "obsInv platform started a"
  shows "(guardIn started g \<longrightarrow> guardIn started g') \<and> (e = None \<longrightarrow> obsInv platform started b \<and>
      o_ProvidersProcessed b = Suc (o_ProvidersProcessed a)) \<and>
    (stickyCause env \<longrightarrow> \<not> dead env g' \<longrightarrow> \<not> dead env g \<and> e = None \<and>
      (4 * Suc (o_ProvidersProcessed a) \<le> MaxAttributeAttempts \<longrightarrow>
        o_DischargingSystemBatteries b = o_DischargingSystemBatteries a +
          (if usable src i name \<and> dischargingSupply src i then 1 else 0) \<and>
        o_ConfirmedSystemBatteries b = o_ConfirmedSystemBatteries a +
          (if usable src i name \<and> confirmedSupply src i then 1 else 0)))"
proof -
  obtain g1 e1 where c1: "canceled env g = (g1, e1)" by fastforce
  obtain k pe where pr: "ps_provider src i name = (k, pe)" by fastforce
  let ?a = "a\<lparr>o_ProvidersProcessed := Suc (o_ProvidersProcessed a)\<rparr>"
  define g2 where "g2 = consult env k g1"
  obtain g3 a3 r where cl: "classify env src i (g2, ?a) = ((g3, a3), r)" by (metis surj_pair)
  obtain g4 e4 where c4: "canceled env g3 = (g4, e4)" by fastforce
  have g1: "guardIn started g \<longrightarrow> guardIn started g1" using canceled_in [of started g env] c1 by simp
  have g2: "guardIn started g \<longrightarrow> guardIn started g2" using g1 consult_in by (simp add: g2_def)
  note cs = classify_step [OF cl, of started]
  have g4: "guardIn started g \<longrightarrow> guardIn started g4" using cs g2 canceled_in [of started g3 env] c4 by auto
  have strict: "o_AmbiguousProviders a < Suc (o_ProvidersProcessed a)"
      "o_ConfirmedSystemBatteries a < Suc (o_ProvidersProcessed a)" "obsInv platform started ?a"
    using obsInv_strict [OF inv] obsInv_attr(1) [OF inv attrStep_refl] by simp_all
  show ?thesis
  proof (cases "e1 \<noteq> None")
    case True
    then have "g' = g1" "e = e1" using op c1 by (auto simp: observeSupply_def)
    then show ?thesis using True g1 canceled_dead(3) [of env g] c1 by auto
  next
    case e1: False
    show ?thesis
    proof (cases pe)
      case (Some x)
      then have r: "g' = g2" "e = None" "b = markAmbiguous ?a (reason x)"
        using op c1 pr e1 by (auto simp: observeSupply_def g2_def)
      have "\<not> usable src i name" using Some pr by (simp add: usable_def)
      moreover have "\<not> dead env g" if "stickyCause env" "\<not> dead env g2"
        using alive_before(2) [OF that(1) c1] consult_alive [OF that(1), of k g1] that(2) by (simp add: g2_def)
      moreover have "obsInv platform started (markAmbiguous ?a (reason x))"
        by (rule obsInv_mark [OF strict(3)]) (use strict(1) in simp)
      ultimately show ?thesis using r g2 by simp
    next
      case None
      note oa = obsInv_attr [OF inv, of a3]
      have a3: "attrStep 4 ?a a3" using cs by blast
      have bk: "\<not> dead env g \<and> \<not> dead env g3" if "stickyCause env" "\<not> dead env g4"
        using alive_before(2) [OF that(1) c4 that(2)] cs that(1) alive_before(2) [OF that(1) c1]
          consult_alive [OF that(1), of k g1] by (auto simp: g2_def)
      show ?thesis
      proof (cases "e4 \<noteq> None")
        case True
        then have "g' = g4" "e = e4"
          using op c1 pr e1 None cl c4 by (auto simp: observeSupply_def g2_def)
        then show ?thesis using True g4 canceled_dead(3) [of env g3] c4 by auto
      next
        case e4: False
        define out where "out = (case r of Inl _ \<Rightarrow> markAmbiguous a3 ''provider_unavailable''
          | Inr c \<Rightarrow> if ps_providerClose src i \<noteq> None then markAmbiguous a3 ''provider_unavailable''
                     else recordClass a3 c)"
        have r: "g' = g4" "e = None" "b = out"
          using op c1 pr e1 None cl c4 e4
          by (auto simp: observeSupply_def g2_def out_def split: sum.splits if_splits)
        have "obsInv platform started out"
          unfolding out_def using obsInv_mark [OF oa(1) [OF a3]] obsInv_record [OF oa(1) [OF a3]] oa(2-5) [OF a3]
            strict(1,2) cs by (auto split: sum.splits)
        moreover have "o_ProvidersProcessed out = Suc (o_ProvidersProcessed a)"
          using oa(2) [OF a3] by (auto simp: out_def split: sum.splits)
        moreover have "o_DischargingSystemBatteries out = o_DischargingSystemBatteries a +
            (if usable src i name \<and> dischargingSupply src i then 1 else 0) \<and>
          o_ConfirmedSystemBatteries out = o_ConfirmedSystemBatteries a +
            (if usable src i name \<and> confirmedSupply src i then 1 else 0)"
          if st: "stickyCause env" and al: "\<not> dead env g4"
            and lo: "4 * Suc (o_ProvidersProcessed a) \<le> MaxAttributeAttempts"
        proof -
          have "o_AttributeAttempts ?a + 4 \<le> MaxAttributeAttempts"
            using inv lo by (simp add: obsInv_def)
          then obtain c where "r = Inr c" "c_discharging c = dischargingSupply src i"
              "c_battery c = confirmedSupply src i"
            using cs st bk [OF st al] by blast
          then show ?thesis using oa(3,4) [OF a3] None pr by (auto simp: out_def usable_def)
        qed
        ultimately show ?thesis using r g4 bk by blast
      qed
    qed
  qed
qed

section \<open>The loop\<close>

text \<open>How many of the named supplies, counted from index \<open>i\<close>, satisfy a predicate.\<close>

fun countSupplies :: "(nat \<Rightarrow> string \<Rightarrow> bool) \<Rightarrow> nat \<Rightarrow> string list \<Rightarrow> nat" where
  "countSupplies P i [] = 0"
| "countSupplies P i (n # ns) = (if P i n then 1 else 0) + countSupplies P (Suc i) ns"

lemma countSupplies_pos: "0 < countSupplies P i ns \<longleftrightarrow> (\<exists>j < length ns. P (i + j) (ns ! j))"
proof (induction ns arbitrary: i)
  case (Cons n ns)
  show ?case
  proof
    assume "0 < countSupplies P i (n # ns)"
    then consider "P i n" | j where "j < length ns" "P (Suc i + j) (ns ! j)"
      using Cons [of "Suc i"] by (auto split: if_splits)
    then show "\<exists>j < length (n # ns). P (i + j) ((n # ns) ! j)"
    proof cases
      case 1
      then show ?thesis by (intro exI [of _ 0]) simp
    next
      case 2
      then show ?thesis by (intro exI [of _ "Suc j"]) simp
    qed
  next
    assume "\<exists>j < length (n # ns). P (i + j) ((n # ns) ! j)"
    then obtain j where j: "j < length (n # ns)" "P (i + j) ((n # ns) ! j)" by blast
    then show "0 < countSupplies P i (n # ns)"
      using Cons [of "Suc i"] by (cases j) auto
  qed
qed simp

definition usableDischarging :: "power_source \<Rightarrow> nat \<Rightarrow> string \<Rightarrow> bool" where
  "usableDischarging src i name \<longleftrightarrow> usable src i name \<and> dischargingSupply src i"

definition usableConfirmed :: "power_source \<Rightarrow> nat \<Rightarrow> string \<Rightarrow> bool" where
  "usableConfirmed src i name \<longleftrightarrow> usable src i name \<and> confirmedSupply src i"

lemma observeSupplies_step:
  assumes "observeSupplies env src i names (g, a) = ((g', b), e)" "obsInv platform started a"
    "o_ProvidersProcessed a + length names \<le> MaxSupplyEntries"
  shows "(guardIn started g \<longrightarrow> guardIn started g') \<and> (e = None \<longrightarrow> obsInv platform started b \<and>
      o_ProvidersProcessed b = o_ProvidersProcessed a + length names) \<and>
    (stickyCause env \<longrightarrow> \<not> dead env g' \<longrightarrow> \<not> dead env g \<and> e = None \<and>
      o_DischargingSystemBatteries b = o_DischargingSystemBatteries a +
        countSupplies (usableDischarging src) i names \<and>
      o_ConfirmedSystemBatteries b = o_ConfirmedSystemBatteries a +
        countSupplies (usableConfirmed src) i names)"
  using assms
proof (induction names arbitrary: i g a)
  case Nil
  then show ?case by simp
next
  case (Cons n ns)
  obtain g1 a1 e1 where o: "observeSupply env src i n (g, a) = ((g1, a1), e1)" by (metis surj_pair)
  note s1 = observeSupply_step [OF o Cons.prems(2)]
  show ?case
  proof (cases e1)
    case (Some x)
    then have "g' = g1" "e = Some x" using Cons.prems(1) o by simp_all
    then show ?thesis using s1 Some by blast
  next
    case None
    then have rest: "observeSupplies env src (Suc i) ns (g1, a1) = ((g', b), e)" using Cons.prems(1) o by simp
    have i1: "obsInv platform started a1" "o_ProvidersProcessed a1 = Suc (o_ProvidersProcessed a)"
      using s1 None by simp_all
    have lo: "4 * Suc (o_ProvidersProcessed a) \<le> MaxAttributeAttempts" using Cons.prems(3) by simp
    note ih = Cons.IH [OF rest i1(1)]
    then show ?thesis
      using s1 i1(2) lo Cons.prems(3) by (auto simp: usableDischarging_def usableConfirmed_def)
  qed
qed

lemma obsInv_new: "obsInv platform started (newObservation platform started)"
  by (simp add: obsInv_def newObservation_def)

lemma obsInv_entries:
  "obsInv platform started a \<Longrightarrow> n \<le> MaxSupplyEntries + 1 \<Longrightarrow>
   obsInv platform started (a\<lparr>o_SupplyEntriesObserved := Some n, o_CoverageComplete := c, o_Reason := r\<rparr>)"
  by (simp add: obsInv_def)

text \<open>The names the loop runs over.\<close>

definition observedNames :: "power_source \<Rightarrow> string list" where
  "observedNames src = (case snd (ps_names src) of Inl _ \<Rightarrow> [] | Inr ns \<Rightarrow> take MaxSupplyEntries ns)"

lemma enumerate_step:
  assumes op: "enumerate env src (g, a) = ((g', b), e)" and inv: "obsInv platform started a"
    and z: "o_ProvidersProcessed a = 0" "o_DischargingSystemBatteries a = 0" "o_ConfirmedSystemBatteries a = 0"
  shows "(guardIn started g \<longrightarrow> guardIn started g') \<and> (e = None \<longrightarrow> obsInv platform started b \<and>
      o_ProvidersProcessed b = length (observedNames src)) \<and>
    (stickyCause env \<longrightarrow> \<not> dead env g' \<longrightarrow> \<not> dead env g \<and> e = None \<and>
      o_DischargingSystemBatteries b = countSupplies (usableDischarging src) 0 (observedNames src) \<and>
      o_ConfirmedSystemBatteries b = countSupplies (usableConfirmed src) 0 (observedNames src))"
proof -
  obtain k r where kr: "ps_names src = (k, r)" by fastforce
  define g1 where "g1 = consult env k g"
  have g1: "guardIn started g \<longrightarrow> guardIn started g1" "stickyCause env \<longrightarrow> \<not> dead env g1 \<longrightarrow> \<not> dead env g"
    using consult_in consult_alive by (auto simp: g1_def)
  show ?thesis
  proof (cases r)
    case (Inl x)
    then have "g' = g1" "b = a\<lparr>o_Reason := ''enumeration_unavailable''\<rparr>" "e = None" "observedNames src = []"
      using op kr by (simp_all add: enumerate_def g1_def observedNames_def)
    then show ?thesis using g1 inv z by (auto simp: obsInv_def)
  next
    case (Inr ns)
    let ?n = "length (take (MaxSupplyEntries + 1) ns)"
    let ?a = "a\<lparr>o_SupplyEntriesObserved := Some ?n, o_CoverageComplete := ?n \<le> MaxSupplyEntries,
      o_Reason := (if \<not> ?n \<le> MaxSupplyEntries then ''supply_entry_limit'' else o_Reason a)\<rparr>"
    have names: "take MaxSupplyEntries (take (MaxSupplyEntries + 1) ns) = observedNames src"
      using kr Inr by (simp add: observedNames_def min_def)
    have op': "observeSupplies env src 0 (observedNames src) (g1, ?a) = ((g', b), e)"
      using op kr Inr unfolding enumerate_def Let_def by (simp add: g1_def flip: names)
    have len: "o_ProvidersProcessed ?a + length (observedNames src) \<le> MaxSupplyEntries"
      using z by (simp flip: names)
    have ia: "obsInv platform started ?a" using obsInv_entries [OF inv, of ?n] by simp
    show ?thesis using observeSupplies_step [OF op' ia len] g1 z by auto
  qed
qed

section \<open>The whole observation\<close>

lemma obsInv_close:
  assumes "obsInv platform started a"
  shows "obsInv platform started (closeScope src a)"
    "o_ProvidersProcessed (closeScope src a) = o_ProvidersProcessed a"
    "o_DischargingSystemBatteries (closeScope src a) =
       (if snd (ps_check src) = None \<and> ps_close src = None then o_DischargingSystemBatteries a else 0)"
    "o_ConfirmedSystemBatteries (closeScope src a) = o_ConfirmedSystemBatteries a"
  using assms by (auto simp: closeScope_def dropWitness_def Let_def obsInv_def)

lemma finishObservation_ok:
  assumes "finishObservation env (g, a) = Inr obs" "guardIn started g"
  obtains f where "obs = a\<lparr>o_FinishedAt := f\<rparr>" "t_ns started \<le> t_ns f"
    "t_ns f < t_ns started + ObservationTimeout" "stickyCause env \<Longrightarrow> \<not> dead env g"
proof -
  obtain g1 r where c: "checkedStamp env g = (g1, r)" by fastforce
  obtain f where r: "r = Inr f" using assms(1) c by (cases r) (simp_all add: finishObservation_def)
  obtain g2 e where c2: "canceled env g1 = (g2, e)" by fastforce
  have e: "e = None" "obs = a\<lparr>o_FinishedAt := f\<rparr>"
    using assms(1) c r c2 by (auto simp: finishObservation_def split: option.splits)
  have "\<not> dead env g" if "stickyCause env"
  proof
    assume "dead env g"
    then have "snd (canceled env g) \<noteq> None" by (rule canceled_dead(1) [OF that])
    then show False using c r
      by (auto simp: canceled_def checkedStamp_def Let_def guardAccept_def split: option.splits if_splits)
  qed
  then show thesis using that e(2) checkedStamp_in(2,3) [OF assms(2), of env g1 f] c r by blast
qed

lemma markWitness_none: "o_DischargingSystemBatteries a = 0 \<Longrightarrow> markWitness a = a"
  by (simp add: markWitness_def)

lemma observePower_ok:
  assumes op: "observePower env src False platform = Inr obs"
  obtains a f where "obs = (markWitness a)\<lparr>o_FinishedAt := f\<rparr>" "obsInv platform (toUTC (pe_now env 0)) a"
    "o_ProvidersProcessed a \<le> MaxSupplyEntries"
    "t_ns (pe_now env 0) \<le> t_ns f" "t_ns f < t_ns (pe_now env 0) + ObservationTimeout"
    "snd (ps_open src) \<noteq> None \<Longrightarrow> o_DischargingSystemBatteries a = 0"
    "stickyCause env \<Longrightarrow> snd (ps_open src) = None \<Longrightarrow> o_DischargingSystemBatteries a =
       (if snd (ps_check src) = None \<and> ps_close src = None
        then countSupplies (usableDischarging src) 0 (observedNames src) else 0)"
proof -
  let ?st = "toUTC (pe_now env 0)"
  let ?g0 = "\<lparr>wg_tick = 1, wg_high = ?st, wg_deadline = tAdd ?st ObservationTimeout, wg_denied = None\<rparr>"
  let ?o0 = "newObservation platform ?st"
  obtain g1 e1 where c1: "canceled env ?g0 = (g1, e1)" by fastforce
  have e1: "e1 = None" using op c1 by (auto simp: observePower_def Let_def split: option.splits)
  have "guardIn ?st ?g0" by (simp add: guardIn_def)
  then have g1: "guardIn ?st g1" using canceled_in [of ?st ?g0 env] c1 by simp
  define gc where "gc = consult env (fst (ps_open src)) g1"
  obtain g2 e2 where c2: "canceled env gc = (g2, e2)" by fastforce
  have e2: "e2 = None"
    using op c1 e1 c2 by (auto simp: observePower_def Let_def gc_def split: option.splits)
  have g2: "guardIn ?st g2" using canceled_in [OF consult_in [OF g1, of env "fst (ps_open src)"], of env] c2 by (simp add: gc_def)
  show thesis
  proof (cases "snd (ps_open src)")
    case (Some oe)
    have fin: "finishObservation env (g2, ?o0\<lparr>o_Reason := reason oe\<rparr>) = Inr obs"
      using op c1 e1 c2 e2 Some by (simp add: observePower_def Let_def gc_def)
    have inv: "obsInv platform ?st (?o0\<lparr>o_Reason := reason oe\<rparr>)" using obsInv_new by (simp add: obsInv_def)
    show thesis
      by (rule finishObservation_ok [OF fin g2], rule that [OF _ inv])
        (simp_all add: markWitness_none newObservation_def Some)
  next
    case None
    obtain g3 o3 e3 where en: "enumerate env src (g2, ?o0) = ((g3, o3), e3)" by (metis surj_pair)
    have e3: "e3 = None"
      using op c1 e1 c2 e2 None en by (auto simp: observePower_def Let_def gc_def split: option.splits)
    obtain g4 e4 where c4: "canceled env g3 = (g4, e4)" by fastforce
    have e4: "e4 = None"
      using op c1 e1 c2 e2 None en e3 c4 by (auto simp: observePower_def Let_def gc_def split: option.splits)
    define g5 where "g5 = consult env (fst (ps_check src)) g4"
    obtain g6 e6 where c6: "canceled env g5 = (g6, e6)" by fastforce
    have e6: "e6 = None"
      using op c1 e1 c2 e2 None en e3 c4 e4 c6
      by (auto simp: observePower_def Let_def gc_def g5_def split: option.splits)
    have fin: "finishObservation env (g6, markWitness (closeScope src o3)) = Inr obs"
      using op c1 e1 c2 e2 None en e3 c4 e4 c6 e6 by (simp add: observePower_def Let_def gc_def g5_def)
    have z: "o_ProvidersProcessed ?o0 = 0" "o_DischargingSystemBatteries ?o0 = 0" "o_ConfirmedSystemBatteries ?o0 = 0"
      by (simp_all add: newObservation_def)
    note es = enumerate_step [OF en obsInv_new z]
    have g6: "guardIn ?st g6"
      using es g2 canceled_in [of ?st g3 env] c4 consult_in [of ?st g4 env] canceled_in [of ?st g5 env] c6
      by (simp add: g5_def)
    have inv: "obsInv platform ?st o3" "o_ProvidersProcessed o3 = length (observedNames src)" using es e3 by simp_all
    have len: "length (observedNames src) \<le> MaxSupplyEntries" by (simp add: observedNames_def split: sum.splits)
    have al: "\<not> dead env g3" if "stickyCause env" using canceled_alive [OF that, of g3 g4] c4 e4 by simp
    have pp: "o_ProvidersProcessed (closeScope src o3) \<le> MaxSupplyEntries"
      using obsInv_close(2) [OF inv(1), of src] inv(2) len by linarith
    have dd: "o_DischargingSystemBatteries (closeScope src o3) =
       (if snd (ps_check src) = None \<and> ps_close src = None
        then countSupplies (usableDischarging src) 0 (observedNames src) else 0)" if "stickyCause env"
      using obsInv_close(3) [OF inv(1), of src] es al [OF that] that by presburger
    show thesis
      by (rule finishObservation_ok [OF fin g6], rule that [OF _ obsInv_close(1) [OF inv(1)]])
        (use pp dd None in \<open>simp_all\<close>)
  qed
qed

end
