(* ===== verification/Power_Laws.thy ===== *)
theory Power_Laws
  imports Power_Policy Power_Observe_Laws Ledger_Systems
begin

text \<open>
  The invariant of the power coordinator under every interleaving of the policy, the producer, the
  context and cancellations, and what a decision of the policy implies.
\<close>

section \<open>The invariant\<close>

definition completionOk :: "powerTicket \<Rightarrow> powerCompletion \<Rightarrow> bool" where
  "completionOk t r \<longleftrightarrow> cm_ID r = tk_ID t \<and> cm_LaunchWall r = tk_LaunchWall t \<and>
     cm_LaunchElapsed r = tk_LaunchElapsed t \<and>
     (case cm_Observation r of
        None \<Rightarrow> cm_Err r \<noteq> None
      | Some obs \<Rightarrow> cm_Err r = None \<and> validPowerObservation obs (tk_LaunchWall t) (cm_CompletedWall r) \<and>
          powerWindowError t (cm_CompletedWall r) (cm_CompletedElapsed r) = None) \<and>
     (case tk_refusal t of None \<Rightarrow> True | Some e \<Rightarrow> cm_Err r = Some e)"

definition ticketOk :: "powerTicket \<Rightarrow> bool" where
  "ticketOk t \<longleftrightarrow> (case tk_phase t of
       PDone r \<Rightarrow> completionOk t r
     | PCaptured wall elapsed e obs \<Rightarrow> e = None \<longrightarrow> powerWindowError t wall elapsed = None
     | _ \<Rightarrow> True)"

definition powInv :: "powerCoordinator \<Rightarrow> bool" where
  "powInv c \<longleftrightarrow> (case pw_ticket c of
       None \<Rightarrow> True
     | Some t \<Rightarrow> tk_ID t = pw_nextID c \<and> tk_LaunchWall t = pw_lastWall c \<and>
         tk_LaunchElapsed t = pw_lastElapsed c \<and> ticketOk t)"

lemma clockSample_eq:
  "clockSample c clk = (fst (clockSample c clk), toUTC (fst clk), snd clk, snd (snd (snd (clockSample c clk))))"
  by (simp add: clockSample_def Let_def)

lemma clockSample_frame [simp]:
  "pw_ticket (fst (clockSample c clk)) = pw_ticket c" "pw_nextID (fst (clockSample c clk)) = pw_nextID c"
  "pw_lastWall (fst (clockSample c clk)) = pw_lastWall c"
  "pw_lastElapsed (fst (clockSample c clk)) = pw_lastElapsed c"
  "pw_hasObserver (fst (clockSample c clk)) = pw_hasObserver c"
  by (simp_all add: clockSample_def Let_def)

lemma clockSample_high:
  "t_ns (pw_wallHigh c) \<le> t_ns (pw_wallHigh (fst (clockSample c clk)))"
  "t_ns (pw_elapsedHigh c) \<le> t_ns (pw_elapsedHigh (fst (clockSample c clk)))"
  by (simp_all add: clockSample_def Let_def tAfter_def)

text \<open>Without an error the sample does not wait for the high-water marks.\<close>

lemma clockSample_current:
  assumes "clockSample c clk = (c', wall, elapsed, None)" "zero_ns \<le> t_ns (fst clk)" "zero_ns \<le> t_ns (snd clk)"
  shows "tSub (pw_wallHigh c') wall = 0" "tSub (pw_elapsedHigh c') elapsed = 0"
  using assms
  by (auto simp: clockSample_def Let_def tAfter_def tBefore_def isZero_def tSub_def sat64_def joinOpt_def
      split: if_splits option.splits)

lemma powInv_cong:
  "pw_ticket c' = pw_ticket c \<Longrightarrow> pw_nextID c' = pw_nextID c \<Longrightarrow> pw_lastWall c' = pw_lastWall c \<Longrightarrow>
   pw_lastElapsed c' = pw_lastElapsed c \<Longrightarrow> powInv c' = powInv c"
  by (cases "pw_ticket c") (simp_all add: powInv_def)

lemma cancelContext_frame [simp]:
  "tk_ID (cancelContext e t) = tk_ID t" "tk_LaunchWall (cancelContext e t) = tk_LaunchWall t"
  "tk_LaunchElapsed (cancelContext e t) = tk_LaunchElapsed t" "tk_refusal (cancelContext e t) = tk_refusal t"
  "tk_phase (cancelContext e t) = tk_phase t"
  by (simp_all add: cancelContext_def)

lemma refuseTicket_frame [simp]:
  "tk_ID (refuseTicket e t) = tk_ID t" "tk_LaunchWall (refuseTicket e t) = tk_LaunchWall t"
  "tk_LaunchElapsed (refuseTicket e t) = tk_LaunchElapsed t" "tk_phase (refuseTicket e t) = tk_phase t"
  by (simp_all add: refuseTicket_def)

lemma powerWindowError_frame:
  "tk_LaunchWall t' = tk_LaunchWall t \<Longrightarrow> tk_LaunchElapsed t' = tk_LaunchElapsed t \<Longrightarrow>
   powerWindowError t' wall elapsed = powerWindowError t wall elapsed"
  by (simp add: powerWindowError_def)

lemma completionOk_frame:
  "tk_ID t' = tk_ID t \<Longrightarrow> tk_LaunchWall t' = tk_LaunchWall t \<Longrightarrow> tk_LaunchElapsed t' = tk_LaunchElapsed t \<Longrightarrow>
   tk_refusal t' = tk_refusal t \<Longrightarrow> completionOk t' r = completionOk t r"
  by (cases "cm_Observation r"; cases "tk_refusal t") (simp_all add: completionOk_def powerWindowError_def)

lemma ticketOk_cancel [simp]: "ticketOk (cancelContext e t) = ticketOk t"
  using powerWindowError_frame [of "cancelContext e t" t]
  by (auto simp: ticketOk_def completionOk_def split: producer.splits option.splits)

lemma ticketOk_refuse:
  assumes "ticketOk t" "ticketCompleted t = None"
  shows "ticketOk (refuseTicket e t)"
  using assms powerWindowError_frame [of "refuseTicket e t" t]
  by (simp add: ticketOk_def ticketCompleted_def split: producer.splits)

text \<open>Replacing the ticket by one with the same identity.\<close>

lemma powInv_ticket:
  assumes "powInv c" "pw_ticket c = Some t" "pw_ticket c' = Some t'" "pw_nextID c' = pw_nextID c"
    "pw_lastWall c' = pw_lastWall c" "pw_lastElapsed c' = pw_lastElapsed c"
    "tk_ID t' = tk_ID t" "tk_LaunchWall t' = tk_LaunchWall t" "tk_LaunchElapsed t' = tk_LaunchElapsed t" "ticketOk t'"
  shows "powInv c'"
  using assms by (simp add: powInv_def)

lemma publishTicket_ok:
  assumes "e = None \<Longrightarrow> powerWindowError t wall elapsed = None"
  shows "completionOk t (publishTicket t wall elapsed e obs)"
  using assms by (auto simp: publishTicket_def completionOk_def Let_def split: option.splits if_splits)

lemma launchDecision_inv:
  assumes "launchDecision c d wall elapsed ce allow = (c', d')" "powInv c"
  shows "powInv c'" "pw_nextID c \<le> pw_nextID c'"
  using assms by (auto simp: launchDecision_def Let_def powInv_def ticketOk_def split: if_splits)

lemma pendingDecision_inv:
  assumes "pendingDecision d t wall elapsed ce = (t', d')" "ticketOk t" "ticketCompleted t = None"
  shows "ticketOk t'" "tk_ID t' = tk_ID t" "tk_LaunchWall t' = tk_LaunchWall t"
    "tk_LaunchElapsed t' = tk_LaunchElapsed t" "ticketCompleted t' = None"
  using assms ticketOk_refuse [OF assms(2,3)]
  by (auto simp: pendingDecision_def Let_def ticketCompleted_def split: option.splits producer.splits)

lemma powerPolicy_inv:
  assumes op: "powerPolicy c ended clk allow = (c', d)" and inv: "powInv c"
  shows "powInv c'" "pw_nextID c \<le> pw_nextID c'"
proof -
  obtain c1 ce where cs: "clockSample c clk = (c1, toUTC (fst clk), snd clk, ce)"
    using clockSample_eq by blast
  have f: "pw_ticket c1 = pw_ticket c" "pw_nextID c1 = pw_nextID c" "pw_lastWall c1 = pw_lastWall c"
      "pw_lastElapsed c1 = pw_lastElapsed c"
    using clockSample_frame [of c clk] cs by simp_all
  then have inv1: "powInv c1" using inv powInv_cong [of c1 c] by simp
  have "powInv c' \<and> pw_nextID c \<le> pw_nextID c'"
  proof (cases ended)
    case True
    then show ?thesis using op inv by (simp add: powerPolicy_def)
  next
    case False
    show ?thesis
    proof (cases "pw_ticket c")
      case None
      then show ?thesis
        using op False cs f launchDecision_inv [OF _ inv1] by (auto simp: powerPolicy_def Let_def)
    next
      case (Some t)
      have tok: "ticketOk t" using inv Some by (simp add: powInv_def)
      show ?thesis
      proof (cases "ticketCompleted t")
        case None
        obtain t' d' where pd: "pendingDecision (newDecision\<lparr>pd_NextSampleWait := sampleWait c1 (toUTC (fst clk)) (snd clk),
            pd_Ticket := Some (tk_ID t)\<rparr>) t (toUTC (fst clk)) (snd clk) ce = (t', d')" by fastforce
        then have "c' = c1\<lparr>pw_ticket := Some t'\<rparr>"
          using op False cs f Some None by (simp add: powerPolicy_def Let_def)
        then show ?thesis
          using powInv_ticket [OF inv Some, of c' t'] pendingDecision_inv [OF pd tok None] f by simp
      next
        case (Some r)
        then have "c' = c1 \<or> (\<exists>dd d'. launchDecision c1 dd (toUTC (fst clk)) (snd clk) ce allow = (c', d'))"
          using op False cs f \<open>pw_ticket c = Some t\<close> by (auto simp: powerPolicy_def Let_def split: if_splits)
        then show ?thesis using inv1 f launchDecision_inv [OF _ inv1] by auto
      qed
    qed
  qed
  then show "powInv c'" "pw_nextID c \<le> pw_nextID c'" by simp_all
qed

section \<open>Every step\<close>

lemma cancelTicket_inv:
  assumes "cancelTicket c i = (c', ok)" "powInv c"
  shows "powInv c'" "pw_nextID c' = pw_nextID c"
  using assms powInv_ticket [OF assms(2)] ticketOk_refuse
  by (auto simp: cancelTicket_def powInv_def split: option.splits if_splits)

lemma observeEntry_inv:
  assumes "powInv c"
  shows "powInv (observeEntry c clk)" "pw_nextID (observeEntry c clk) = pw_nextID c"
proof -
  obtain c1 ce where cs: "clockSample c clk = (c1, toUTC (fst clk), snd clk, ce)"
    using clockSample_eq by blast
  have f: "pw_ticket c1 = pw_ticket c" "pw_nextID c1 = pw_nextID c" "pw_lastWall c1 = pw_lastWall c"
      "pw_lastElapsed c1 = pw_lastElapsed c"
    using clockSample_frame [of c clk] cs by simp_all
  show "powInv (observeEntry c clk)" "pw_nextID (observeEntry c clk) = pw_nextID c"
    using assms cs f
    by (auto simp: observeEntry_def powInv_def ticketOk_def Let_def split: option.splits)
qed

lemma observeCapture_inv:
  assumes "powInv c"
  shows "powInv (observeCapture c clk answer)" "pw_nextID (observeCapture c clk answer) = pw_nextID c"
proof -
  obtain c1 ce where cs: "clockSample c clk = (c1, toUTC (fst clk), snd clk, ce)"
    using clockSample_eq by blast
  have f: "pw_ticket c1 = pw_ticket c" "pw_nextID c1 = pw_nextID c" "pw_lastWall c1 = pw_lastWall c"
      "pw_lastElapsed c1 = pw_lastElapsed c"
    using clockSample_frame [of c clk] cs by simp_all
  have "powInv (observeCapture c clk answer) \<and> pw_nextID (observeCapture c clk answer) = pw_nextID c"
  proof (cases "\<exists>t entered. pw_ticket c = Some t \<and> tk_phase t = PEntered entered")
    case True
    then obtain t entered where t: "pw_ticket c = Some t" "tk_phase t = PEntered entered" by blast
    obtain obs e0 where a: "(case entered of Some e \<Rightarrow> (zeroObservation, Some e) | None \<Rightarrow> answer) = (obs, e0)"
      by fastforce
    define e3 where "e3 = (case powerWindowError t (toUTC (fst clk)) (snd clk) of Some e \<Rightarrow> Some e
      | None \<Rightarrow> (case tk_cause t of Some e \<Rightarrow> Some e | None \<Rightarrow> (case ce of Some e \<Rightarrow> Some e | None \<Rightarrow> e0)))"
    let ?t = "t\<lparr>tk_phase := PCaptured (toUTC (fst clk)) (snd clk) e3 obs\<rparr>"
    have e: "observeCapture c clk answer = c1\<lparr>pw_ticket := Some ?t\<rparr>"
      using t a cs by (simp add: observeCapture_def Let_def e3_def)
    have "ticketOk ?t"
      using powerWindowError_frame [of ?t t] by (simp add: ticketOk_def e3_def split: option.splits)
    then show ?thesis using powInv_ticket [OF assms t(1), of "c1\<lparr>pw_ticket := Some ?t\<rparr>" ?t] f e by simp
  next
    case False
    then have "observeCapture c clk answer = c"
      by (auto simp: observeCapture_def split: option.splits producer.splits)
    then show ?thesis using assms by simp
  qed
  then show "powInv (observeCapture c clk answer)" "pw_nextID (observeCapture c clk answer) = pw_nextID c"
    by simp_all
qed

lemma observePublish_inv:
  assumes "powInv c"
  shows "powInv (observePublish c)" "pw_nextID (observePublish c) = pw_nextID c"
proof -
  show "pw_nextID (observePublish c) = pw_nextID c"
    by (simp add: observePublish_def split: option.splits producer.splits)
  show "powInv (observePublish c)"
  proof (cases "pw_ticket c")
    case (Some t)
    show ?thesis
    proof (cases "tk_phase t")
      case (PCaptured wall elapsed e obs)
      let ?t = "t\<lparr>tk_phase := PDone (publishTicket t wall elapsed e obs)\<rparr>"
      have "completionOk t (publishTicket t wall elapsed e obs)"
        using assms Some PCaptured by (intro publishTicket_ok) (simp add: powInv_def ticketOk_def)
      then have "completionOk ?t (publishTicket t wall elapsed e obs)"
        using completionOk_frame [of ?t t] by simp
      then have "ticketOk ?t" by (simp add: ticketOk_def)
      then have "ticketOk (cancelContext ContextCanceled ?t)" by (simp only: ticketOk_cancel)
      then show ?thesis
        using powInv_ticket [OF assms Some, of "observePublish c"] Some PCaptured by (simp add: observePublish_def)
    qed (use assms Some in \<open>simp_all add: observePublish_def\<close>)
  qed (use assms in \<open>simp add: observePublish_def\<close>)
qed

lemma contextEnds_inv:
  assumes "powInv c"
  shows "powInv (contextEnds c e)" "pw_nextID (contextEnds c e) = pw_nextID c"
  using assms by (simp_all add: contextEnds_def powInv_def split: option.splits)

lemma power_step_inv:
  assumes "power_step c c'" "powInv c"
  shows "powInv c' \<and> pw_nextID c \<le> pw_nextID c'"
  using assms
proof (cases rule: power_step.cases)
  case (policy ended clk allow d)
  then show ?thesis using powerPolicy_inv [OF policy(1) assms(2)] by simp
next
  case (cancelled i ok)
  then show ?thesis using cancelTicket_inv [OF cancelled(1) assms(2)] by simp
qed (simp_all add: observeEntry_inv observeCapture_inv observePublish_inv contextEnds_inv assms(2))

interpretation probe_ids: monotone_ledger power_step powInv pw_nextID
  by unfold_locales (auto dest: power_step_inv)

lemma powInv_new: "powInv (newPowerCoordinator b)"
  by (simp add: powInv_def newPowerCoordinator_def)

section \<open>Terminal evidence\<close>

text \<open>A completed ticket is kept as it is until another one is launched in its place.\<close>

lemma power_step_done:
  assumes "power_step c c'" "powInv c" "pw_ticket c = Some t" "ticketCompleted t = Some r" "pw_nextID c' = pw_nextID c"
  shows "\<exists>t'. pw_ticket c' = Some t' \<and> ticketCompleted t' = Some r"
proof -
  have ph: "tk_phase t = PDone r" using assms(4) by (simp add: ticketCompleted_def split: producer.splits)
  show ?thesis
    using assms(1)
  proof (cases rule: power_step.cases)
    case (policy ended clk allow d)
    obtain c1 ce where cs: "clockSample c clk = (c1, toUTC (fst clk), snd clk, ce)"
      using clockSample_eq by blast
    have f: "pw_ticket c1 = pw_ticket c" "pw_nextID c1 = pw_nextID c" using clockSample_frame [of c clk] cs by simp_all
    have "pw_ticket c' = pw_ticket c \<or> pw_nextID c' = pw_nextID c + 1"
      using policy cs f assms(3,4)
      by (auto simp: powerPolicy_def launchDecision_def Let_def split: if_splits)
    then show ?thesis using assms(3-5) by auto
  next
    case (cancelled i ok)
    then show ?thesis using assms(3,4) by (auto simp: cancelTicket_def split: if_splits)
  next
    case (entered clk)
    then show ?thesis using assms(3,4) ph by (simp add: observeEntry_def)
  next
    case (captured clk answer)
    then show ?thesis using assms(3,4) ph by (simp add: observeCapture_def)
  next
    case published
    then show ?thesis using assms(3,4) ph by (simp add: observePublish_def)
  next
    case (ended e)
    then show ?thesis using assms(3) ph by (simp add: contextEnds_def ticketCompleted_def)
  qed
qed

section \<open>Decisions\<close>

text \<open>The decision a call of the policy starts from, and the cases of a call that was not refused at
  entry.\<close>

definition baseDecision :: "powerCoordinator \<Rightarrow> gotime \<times> gotime \<Rightarrow> int option \<Rightarrow> powerPolicyDecision" where
  "baseDecision c clk i =
     newDecision\<lparr>pd_NextSampleWait := sampleWait c (toUTC (fst clk)) (snd clk), pd_Ticket := i\<rparr>"

lemma baseDecision_simps [simp]:
  "pd_NextSampleWait (baseDecision c clk i) = sampleWait c (toUTC (fst clk)) (snd clk)"
  "\<not> pd_SourceBackoff (baseDecision c clk i)" "\<not> pd_Started (baseDecision c clk i)"
  "pd_Wait (baseDecision c clk i) = 0" "pd_Status (baseDecision c clk i) = ''unknown''"
  by (simp_all add: baseDecision_def newDecision_def)

lemma powerPolicy_cases:
  assumes op: "powerPolicy c False clk allow = (c', d)"
  obtains (launch) c1 ce where "clockSample c clk = (c1, toUTC (fst clk), snd clk, ce)" "pw_ticket c = None"
      "launchDecision c1 (baseDecision c1 clk None) (toUTC (fst clk)) (snd clk) ce allow = (c', d)"
  | (completed) c1 ce t r where "clockSample c clk = (c1, toUTC (fst clk), snd clk, ce)" "pw_ticket c = Some t"
      "ticketCompleted t = Some r"
      "d = completedDecision (baseDecision c1 clk (Some (tk_ID t))) r (toUTC (fst clk)) (snd clk) ce \<or>
       launchDecision c1 (completedDecision (baseDecision c1 clk (Some (tk_ID t))) r (toUTC (fst clk)) (snd clk) ce)
         (toUTC (fst clk)) (snd clk) ce allow = (c', d)"
  | (pending) c1 ce t t' where "clockSample c clk = (c1, toUTC (fst clk), snd clk, ce)" "pw_ticket c = Some t"
      "ticketCompleted t = None"
      "pendingDecision (baseDecision c1 clk (Some (tk_ID t))) t (toUTC (fst clk)) (snd clk) ce = (t', d)"
      "c' = c1\<lparr>pw_ticket := Some t'\<rparr>"
proof -
  obtain c1 ce where cs: "clockSample c clk = (c1, toUTC (fst clk), snd clk, ce)"
    using clockSample_eq by blast
  have f: "pw_ticket c1 = pw_ticket c" using clockSample_frame [of c clk] cs by simp
  have b: "newDecision\<lparr>pd_NextSampleWait := sampleWait c1 (toUTC (fst clk)) (snd clk)\<rparr> = baseDecision c1 clk None"
    by (simp add: baseDecision_def newDecision_def)
  show thesis
  proof (cases "pw_ticket c")
    case None
    then show thesis using launch [OF cs] op cs f b by (simp add: powerPolicy_def Let_def)
  next
    case t: (Some t)
    show thesis
    proof (cases "ticketCompleted t")
      case None
      then show thesis using pending [OF cs t] op cs f t
        by (auto simp: powerPolicy_def Let_def baseDecision_def split: prod.splits)
    next
      case (Some r)
      then show thesis using completed [OF cs t] op cs f t
        by (auto simp: powerPolicy_def Let_def baseDecision_def split: if_splits)
    qed
  qed
qed

end
