(* ===== verification/Power_Guarantees.thy ===== *)
theory Power_Guarantees
  imports Power_Laws
begin

text \<open>
  What the power observation and its coordinator promise, with an example: one battery of the system
  that discharges, observed by one probe.
\<close>

section \<open>An example probe\<close>

definition pxWall :: "int \<Rightarrow> gotime" where
  "pxWall n = \<lparr>t_ns = 1700000000000000000 + n * second_ns, t_utc = True\<rparr>"

definition pxElapsed :: "int \<Rightarrow> gotime" where
  "pxElapsed n = \<lparr>t_ns = n * second_ns, t_utc = False\<rparr>"

definition pxClock :: "int \<Rightarrow> gotime \<times> gotime" where "pxClock n = (pxWall n, pxElapsed n)"

definition pxEnv :: probe_env where
  "pxEnv = \<lparr>pe_cause = (\<lambda>_. None), pe_now = (\<lambda>_. pxWall 101)\<rparr>"

text \<open>A battery of the system and a line-terminated token.\<close>

definition pxAttribute :: "nat \<Rightarrow> string \<Rightarrow> nat \<times> string \<times> err option" where
  "pxAttribute i name =
     (if name = ''type'' then (0, ''Battery'' @ [CHR 0x0A], None)
      else if name = ''scope'' then (0, ''System'', None)
      else if name = ''present'' then (0, ''1'', None)
      else if name = ''status'' then (0, ''Discharging'', None)
      else (0, [], Some (SourceError ''provider_unavailable'')))"

definition pxSource :: power_source where
  "pxSource = \<lparr>ps_open = (1, None), ps_names = (1, Inr [''BAT0'']), ps_provider = (\<lambda>i n. (1, None)),
     ps_attribute = pxAttribute, ps_providerClose = (\<lambda>i. None), ps_check = (1, None), ps_close = None\<rparr>"

definition pxObservation :: Observation where
  "pxObservation = projr (observePower pxEnv pxSource False ''linux'')"

lemma px_observed: "observePower pxEnv pxSource False ''linux'' = Inr pxObservation"
  by code_simp

lemma px_sticky: "stickyCause pxEnv"
  by (simp add: stickyCause_def pxEnv_def)

definition pxLaunched :: powerCoordinator where
  "pxLaunched = fst (sourcePolicy (newPowerCoordinator True) False (pxClock 100))"

definition pxDone :: powerCoordinator where
  "pxDone = observePublish (observeCapture (observeEntry pxLaunched (pxClock 101)) (pxClock 102)
     (pxObservation, None))"

lemma px_run: "power_step\<^sup>*\<^sup>* (newPowerCoordinator True) pxLaunched" "power_step\<^sup>*\<^sup>* (newPowerCoordinator True) pxDone"
proof -
  show a: "power_step\<^sup>*\<^sup>* (newPowerCoordinator True) pxLaunched"
    unfolding pxLaunched_def sourcePolicy_def
    by (rule r_into_rtranclp [of power_step], rule power_step.policy) (simp add: prod_eq_iff)
  show "power_step\<^sup>*\<^sup>* (newPowerCoordinator True) pxDone"
    unfolding pxDone_def
    by (rule rtranclp.rtrancl_into_rtrancl [OF rtranclp.rtrancl_into_rtrancl [OF rtranclp.rtrancl_into_rtrancl
          [OF a power_step.entered] power_step.captured] power_step.published])
qed

section \<open>The observation\<close>

text \<open>Property C25. An observation that reports a discharging system battery is right about it, and none is
  missed: for a context whose cancellation is final, a completed observation of an opened source has the
  witness exactly when, among the first thirty-two supplies, there is one that opens, closes and gives
  the tokens of a present, discharging battery of the system, and the scope was unchanged at the end.\<close>

theorem witness_exact:
  assumes "observePower env src False platform = Inr obs" "stickyCause env" "snd (ps_open src) = None"
  shows "(o_SystemBatteryDischargingObserved obs = Some True \<longleftrightarrow>
      snd (ps_check src) = None \<and> ps_close src = None \<and>
      (\<exists>i < length (observedNames src). usable src i (observedNames src ! i) \<and> dischargingSupply src i)) \<and>
    (o_SystemBatteryDischargingObserved obs = None \<or> o_SystemBatteryDischargingObserved obs = Some True)"
proof -
  obtain a f where o: "obs = (markWitness a)\<lparr>o_FinishedAt := f\<rparr>" "obsInv platform (toUTC (pe_now env 0)) a"
    "o_DischargingSystemBatteries a =
       (if snd (ps_check src) = None \<and> ps_close src = None
        then countSupplies (usableDischarging src) 0 (observedNames src) else 0)"
    by (rule observePower_ok [OF assms(1)]) (use assms(2,3) in blast)
  have "o_SystemBatteryDischargingObserved obs = (if 0 < o_DischargingSystemBatteries a then Some True else None)"
    using o(1,2) by (simp add: markWitness_def obsInv_def)
  moreover have "0 < o_DischargingSystemBatteries a \<longleftrightarrow> snd (ps_check src) = None \<and> ps_close src = None \<and>
      (\<exists>i < length (observedNames src). usable src i (observedNames src ! i) \<and> dischargingSupply src i)"
    using o(3) countSupplies_pos [of "usableDischarging src" 0 "observedNames src"]
    by (auto simp: usableDischarging_def)
  ultimately show ?thesis by auto
qed

theorem witness_exact_witness: "o_SystemBatteryDischargingObserved pxObservation = Some True"
proof -
  have "snd (ps_open pxSource) = None" "snd (ps_check pxSource) = None" "ps_close pxSource = None"
      "usable pxSource 0 (observedNames pxSource ! 0)" "dischargingSupply pxSource 0"
      "0 < length (observedNames pxSource)"
    by code_simp+
  then show ?thesis using witness_exact [OF px_observed px_sticky] by blast
qed

text \<open>The observer's observation passes the coordinator's own check: whatever the supplies
  answer, an observation that completes on Linux, or on a platform whose source does not open, within
  the window of its ticket keeps every bound (at most 160 attribute reads, 10400 bytes, 32 providers,
  five seconds) and is accepted.\<close>

theorem observation_accepted:
  assumes "observePower env src False platform = Inr obs"
    and "platform = ''linux'' \<or> platform = ''darwin'' \<and> snd (ps_open src) \<noteq> None"
    and "zero_ns < t_ns (pe_now env 0)" "t_ns launch \<le> t_ns (pe_now env 0)" "t_ns (o_FinishedAt obs) \<le> t_ns completed"
  shows "validPowerObservation obs launch completed \<and>
    t_ns (o_FinishedAt obs) < t_ns (o_StartedAt obs) + ObservationTimeout"
proof -
  obtain a f where o: "obs = (markWitness a)\<lparr>o_FinishedAt := f\<rparr>" "obsInv platform (toUTC (pe_now env 0)) a"
    "o_ProvidersProcessed a \<le> MaxSupplyEntries" "t_ns (pe_now env 0) \<le> t_ns f"
    "t_ns f < t_ns (pe_now env 0) + ObservationTimeout"
    "snd (ps_open src) \<noteq> None \<longrightarrow> o_DischargingSystemBatteries a = 0"
    by (rule observePower_ok [OF assms(1)]) blast
  have "validPowerHeader obs launch completed"
    using o assms(2-5) by (auto simp: validPowerHeader_def obsInv_def markWitness_def isZero_def tBefore_def tAfter_def)
  moreover have "validPowerCounts obs"
    using o(1-3) by (auto simp: validPowerCounts_def obsInv_def markWitness_def)
  moreover have "t_ns (o_FinishedAt obs) < t_ns (o_StartedAt obs) + ObservationTimeout"
    using o(1,2,5) by (simp add: obsInv_def markWitness_def)
  ultimately show ?thesis
    using o(1,2,6) assms(2) by (auto simp: validPowerObservation_def markWitness_def obsInv_def)
qed

theorem observation_accepted_witness: "validPowerObservation pxObservation (pxWall 100) (pxWall 102)"
proof -
  have "zero_ns < t_ns (pe_now pxEnv 0)" "t_ns (pxWall 100) \<le> t_ns (pe_now pxEnv 0)"
      "t_ns (o_FinishedAt pxObservation) \<le> t_ns (pxWall 102)"
    by code_simp+
  then show ?thesis using observation_accepted [OF px_observed] by blast
qed

section \<open>The coordinator\<close>

text \<open>Property C24. In every run of the coordinator, with any interleaving of policy calls, the probe's
  goroutine, cancellations and the end of contexts, a completed probe carries an observation only if it
  is valid for its ticket, had no error and was captured within five seconds of its launch on both
  clocks; otherwise it carries an error. A refusal that was recorded is its error.\<close>

theorem completed_probe_sound:
  assumes "power_step\<^sup>*\<^sup>* (newPowerCoordinator b) c" "pw_ticket c = Some t" "ticketCompleted t = Some r"
  shows "cm_ID r = pw_nextID c \<and>
    (case cm_Observation r of
       None \<Rightarrow> cm_Err r \<noteq> None
     | Some obs \<Rightarrow> cm_Err r = None \<and> validPowerObservation obs (cm_LaunchWall r) (cm_CompletedWall r) \<and>
         t_ns (cm_LaunchWall r) \<le> t_ns (cm_CompletedWall r) \<and>
         t_ns (cm_CompletedWall r) < t_ns (cm_LaunchWall r) + ObservationTimeout \<and>
         t_ns (cm_LaunchElapsed r) \<le> t_ns (cm_CompletedElapsed r) \<and>
         t_ns (cm_CompletedElapsed r) < t_ns (cm_LaunchElapsed r) + ObservationTimeout) \<and>
    (\<forall>e. tk_refusal t = Some e \<longrightarrow> cm_Err r = Some e)"
proof -
  have "powInv c" using probe_ids.run_inv [OF assms(1) powInv_new] .
  then have "tk_ID t = pw_nextID c" "completionOk t r"
    using assms(2,3) by (simp_all add: powInv_def ticketOk_def ticketCompleted_def split: producer.splits)
  then show ?thesis
    by (auto simp: completionOk_def powerWindowError_def tBefore_def split: option.splits if_splits)
qed

theorem completed_probe_sound_witness:
  "cm_ID (the (ticketCompleted (the (pw_ticket pxDone)))) = pw_nextID pxDone \<and>
   cm_Observation (the (ticketCompleted (the (pw_ticket pxDone)))) \<noteq> None"
proof -
  have "pw_ticket pxDone = Some (the (pw_ticket pxDone))"
      "ticketCompleted (the (pw_ticket pxDone)) = Some (the (ticketCompleted (the (pw_ticket pxDone))))"
      "cm_Observation (the (ticketCompleted (the (pw_ticket pxDone)))) \<noteq> None"
    by code_simp+
  then show ?thesis using completed_probe_sound [OF px_run(2)] by blast
qed

lemma sampleWait_last:
  assumes "sampleWait c wall elapsed \<le> 0"
  shows "isZero (pw_lastWall c) \<or> t_ns (pw_lastWall c) + powerSampleInterval \<le> t_ns wall"
    "isZero (pw_lastElapsed c) \<or> t_ns (pw_lastElapsed c) + powerSampleInterval \<le> t_ns elapsed"
  using assms by (auto simp: sampleWait_def Let_def tSub_nonpos_iff split: if_splits)

lemma launchDecision_started:
  assumes "launchDecision c d wall elapsed ce allow = (c', d')" "pd_Started d'" "\<not> pd_Started d"
  shows "allow" "pd_NextSampleWait d \<le> 0" "pw_nextID c' = pw_nextID c + 1"
  using assms by (auto simp: launchDecision_def Let_def split: if_splits)

lemma completedDecision_frame [simp]:
  "pd_NextSampleWait (completedDecision d r wall elapsed ce) = pd_NextSampleWait d"
  "pd_Started (completedDecision d r wall elapsed ce) = pd_Started d"
  by (simp_all add: completedDecision_def)

text \<open>At most one probe runs, and probes are rare: in every reachable state a call of the
  policy that launches a probe was allowed to, finds the previous probe completed, comes at least five
  minutes after its launch on both clocks, and gives the new probe the next number.\<close>

theorem one_probe_at_a_time:
  assumes "power_step\<^sup>*\<^sup>* (newPowerCoordinator b) c" "powerPolicy c ended clk allow = (c', d)" "pd_Started d"
  shows "allow \<and> pw_nextID c' = pw_nextID c + 1 \<and>
    (\<forall>t. pw_ticket c = Some t \<longrightarrow> ticketCompleted t \<noteq> None \<and>
       (isZero (tk_LaunchWall t) \<or> t_ns (tk_LaunchWall t) + powerSampleInterval \<le> t_ns (fst clk)) \<and>
       (isZero (tk_LaunchElapsed t) \<or> t_ns (tk_LaunchElapsed t) + powerSampleInterval \<le> t_ns (snd clk)))"
proof -
  have inv: "powInv c" using probe_ids.run_inv [OF assms(1) powInv_new] .
  have "\<not> ended" using assms(2,3) by (auto simp: powerPolicy_def newDecision_def)
  then have op: "powerPolicy c False clk allow = (c', d)" using assms(2) by simp
  show ?thesis
  proof (cases rule: powerPolicy_cases [OF op, case_names launch completed pending])
    case (launch c1 ce)
    then show ?thesis
      using launchDecision_started [OF launch(3) assms(3)] clockSample_frame(2) [of c clk] by simp
  next
    case (pending c1 ce t t')
    then show ?thesis using assms(3) by (auto simp: pendingDecision_def Let_def split: option.splits)
  next
    case (completed c1 ce t r)
    have f: "pw_lastWall c1 = pw_lastWall c" "pw_lastElapsed c1 = pw_lastElapsed c" "pw_nextID c1 = pw_nextID c"
      using clockSample_frame [of c clk] completed(1) by simp_all
    let ?d1 = "completedDecision (baseDecision c1 clk (Some (tk_ID t))) r (toUTC (fst clk)) (snd clk) ce"
    have "launchDecision c1 ?d1 (toUTC (fst clk)) (snd clk) ce allow = (c', d)"
      using completed(4) assms(3) by auto
    note ls = launchDecision_started [OF this assms(3)]
    have "sampleWait c1 (toUTC (fst clk)) (snd clk) \<le> 0" using ls(2) by simp
    from sampleWait_last [OF this] show ?thesis
      using ls f inv completed(2,3) by (simp add: powInv_def)
  qed
qed

theorem one_probe_at_a_time_witness:
  "pw_nextID (fst (powerPolicy pxDone False (pxClock 401) True)) = pw_nextID pxDone + 1"
proof -
  have "pd_Started (snd (powerPolicy pxDone False (pxClock 401) True))" by code_simp
  then show ?thesis using one_probe_at_a_time [OF px_run(2), of False "pxClock 401" True] by (metis prod.collapse)
qed

lemma tSub_le: "t_ns a \<le> t_ns b + n \<Longrightarrow> 0 \<le> n \<Longrightarrow> tSub a b \<le> n"
  by (auto simp: tSub_def sat64_def)

text \<open>Fresh evidence: the wait for the next sample is at most the interval.\<close>

lemma sampleWait_fresh:
  assumes "clockSample c0 clk = (c, wall, elapsed, None)" "zero_ns \<le> t_ns (fst clk)" "zero_ns \<le> t_ns (snd clk)"
    and "t_ns (pw_lastWall c) \<le> t_ns wall" "t_ns (pw_lastElapsed c) \<le> t_ns elapsed"
  shows "0 \<le> sampleWait c wall elapsed" "sampleWait c wall elapsed \<le> powerSampleInterval"
proof -
  note z = clockSample_current [OF assms(1-3)]
  have "tSub (tAdd (pw_lastWall c) powerSampleInterval) wall \<le> powerSampleInterval"
    "tSub (tAdd (pw_lastElapsed c) powerSampleInterval) elapsed \<le> powerSampleInterval"
    by (rule tSub_le; use assms(4,5) in simp)+
  then show "0 \<le> sampleWait c wall elapsed" "sampleWait c wall elapsed \<le> powerSampleInterval"
    using z by (auto simp: sampleWait_def Let_def le_max_iff_disj)
qed

lemma fresh_ages:
  assumes "freshPowerCompletion r wall elapsed"
  shows "t_ns (cm_LaunchWall r) \<le> t_ns wall" "t_ns wall < t_ns (cm_LaunchWall r) + powerSampleInterval"
    "t_ns (cm_LaunchElapsed r) \<le> t_ns elapsed" "t_ns elapsed < t_ns (cm_LaunchElapsed r) + powerSampleInterval"
proof -
  have age: "\<not> (tSub a b < 0 \<or> tSub a b \<ge> powerSampleInterval) \<Longrightarrow>
      t_ns b \<le> t_ns a \<and> t_ns a < t_ns b + powerSampleInterval" for a b
    by (simp add: tSub_def sat64_def) linarith
  show "t_ns (cm_LaunchWall r) \<le> t_ns wall" "t_ns wall < t_ns (cm_LaunchWall r) + powerSampleInterval"
    "t_ns (cm_LaunchElapsed r) \<le> t_ns elapsed" "t_ns elapsed < t_ns (cm_LaunchElapsed r) + powerSampleInterval"
    using assms age [of wall "cm_LaunchWall r"] age [of elapsed "cm_LaunchElapsed r"]
    by (simp_all add: freshPowerCompletion_def)
qed

lemma launchDecision_backoff:
  assumes "launchDecision c d wall elapsed ce allow = (c', d')" "pd_SourceBackoff d'"
  shows "pd_Status d' = ''observing'' \<and> pd_Wait d' = ObservationTimeout \<or>
    pd_Status d' = ''sample_required'' \<and> \<not> allow \<and> pd_Wait d' = 0 \<or>
    pd_SourceBackoff d \<and> pd_Status d' = pd_Status d \<and> pd_Wait d' = pd_Wait d"
  using assms by (auto simp: launchDecision_def Let_def split: if_splits)

lemma completedDecision_backoff:
  assumes "pd_SourceBackoff (completedDecision d r wall elapsed ce)" "\<not> pd_SourceBackoff d"
  shows "ce = None" "freshPowerCompletion r wall elapsed" "observedPowerDischarge (cm_Observation r)"
    "pd_Status (completedDecision d r wall elapsed ce) = ''system_battery_discharging_observed''"
    "pd_Wait (completedDecision d r wall elapsed ce) = pd_NextSampleWait d"
  using assms by (auto simp: completedDecision_def split: if_splits)

lemma pendingDecision_backoff:
  assumes "pendingDecision d t wall elapsed ce = (t', d')" "pd_SourceBackoff d'" "\<not> pd_SourceBackoff d"
  shows "pd_Status d' = ''observing''" "0 < pd_Wait d'" "pd_Wait d' \<le> ObservationTimeout"
    "ce = None" "tk_cause t = None" "powerWindowError t wall elapsed = None"
proof -
  have r: "ce = None" "tk_cause t = None" "powerWindowError t wall elapsed = None" "pd_Status d' = ''observing''"
      "pd_Wait d' = min (tSub (tAdd (tk_LaunchWall t) ObservationTimeout) wall)
         (tSub (tAdd (tk_LaunchElapsed t) ObservationTimeout) elapsed)"
    using assms by (auto simp: pendingDecision_def Let_def split: option.splits)
  have w: "t_ns (tk_LaunchWall t) \<le> t_ns wall" "t_ns wall < t_ns (tk_LaunchWall t) + ObservationTimeout"
      "t_ns (tk_LaunchElapsed t) \<le> t_ns elapsed" "t_ns elapsed < t_ns (tk_LaunchElapsed t) + ObservationTimeout"
    using r(3) by (auto simp: powerWindowError_def tBefore_def split: if_splits)
  have "tSub (tAdd (tk_LaunchWall t) ObservationTimeout) wall \<le> ObservationTimeout"
    by (rule tSub_le) (use w in simp_all)
  moreover have "0 < tSub (tAdd (tk_LaunchWall t) ObservationTimeout) wall"
    "0 < tSub (tAdd (tk_LaunchElapsed t) ObservationTimeout) elapsed"
    using w by (simp_all add: tSub_pos_iff)
  ultimately show "pd_Status d' = ''observing''" "0 < pd_Wait d'" "pd_Wait d' \<le> ObservationTimeout"
    "ce = None" "tk_cause t = None" "powerWindowError t wall elapsed = None"
    using r by simp_all
qed

text \<open>A completed probe that holds work back witnessed a discharging battery, recently.\<close>

lemma discharge_decision:
  assumes inv: "powInv c" and cs: "clockSample c clk = (c1, toUTC (fst clk), snd clk, ce)"
    and t: "pw_ticket c = Some t" "ticketCompleted t = Some r"
    and z: "zero_ns \<le> t_ns (fst clk)" "zero_ns \<le> t_ns (snd clk)"
    and b: "pd_SourceBackoff (completedDecision (baseDecision c1 clk i) r (toUTC (fst clk)) (snd clk) ce)"
  shows "0 \<le> pd_Wait (completedDecision (baseDecision c1 clk i) r (toUTC (fst clk)) (snd clk) ce) \<and>
    pd_Wait (completedDecision (baseDecision c1 clk i) r (toUTC (fst clk)) (snd clk) ce) \<le> powerSampleInterval \<and>
    pd_Status (completedDecision (baseDecision c1 clk i) r (toUTC (fst clk)) (snd clk) ce) =
      ''system_battery_discharging_observed'' \<and>
    (\<exists>obs. cm_Observation r = Some obs \<and> validPowerObservation obs (cm_LaunchWall r) (cm_CompletedWall r) \<and>
       o_SystemBatteryDischargingObserved obs = Some True) \<and>
    t_ns (fst clk) < t_ns (cm_LaunchWall r) + powerSampleInterval \<and>
    t_ns (snd clk) < t_ns (cm_LaunchElapsed r) + powerSampleInterval"
proof -
  have ok: "completionOk t r" "tk_LaunchWall t = pw_lastWall c" "tk_LaunchElapsed t = pw_lastElapsed c"
    using inv t by (simp_all add: powInv_def ticketOk_def ticketCompleted_def split: producer.splits)
  have f: "pw_lastWall c1 = pw_lastWall c" "pw_lastElapsed c1 = pw_lastElapsed c"
    using clockSample_frame [of c clk] cs by simp_all
  note cb = completedDecision_backoff [OF b baseDecision_simps(2)]
  note fa = fresh_ages [OF cb(2)]
  have "0 \<le> sampleWait c1 (toUTC (fst clk)) (snd clk) \<and> sampleWait c1 (toUTC (fst clk)) (snd clk) \<le> powerSampleInterval"
    using sampleWait_fresh [of c clk c1 "toUTC (fst clk)" "snd clk"] cs f cb(1) z fa ok
    by (simp add: completionOk_def)
  moreover have "\<exists>obs. cm_Observation r = Some obs \<and> validPowerObservation obs (cm_LaunchWall r) (cm_CompletedWall r) \<and>
       o_SystemBatteryDischargingObserved obs = Some True"
    using ok(1) cb(3) by (auto simp: completionOk_def observedPowerDischarge_def split: option.splits)
  ultimately show ?thesis using cb fa by simp
qed

text \<open>The policy holds source work back for bounded times only, and for a reason: while a
  probe is pending (at most five seconds), because a fresh valid observation witnessed a discharging
  system battery (at most until the next sample, five minutes), or because a planned turn needs a sample
  first.\<close>

theorem backoff_bounded:
  assumes "power_step\<^sup>*\<^sup>* (newPowerCoordinator b) c" "powerPolicy c ended clk allow = (c', d)"
    and "zero_ns \<le> t_ns (fst clk)" "zero_ns \<le> t_ns (snd clk)" "pd_SourceBackoff d"
  shows "0 \<le> pd_Wait d \<and> pd_Wait d \<le> powerSampleInterval \<and>
    (pd_Status d = ''observing'' \<and> 0 < pd_Wait d \<and> pd_Wait d \<le> ObservationTimeout \<or>
     pd_Status d = ''sample_required'' \<and> \<not> allow \<or>
     pd_Status d = ''system_battery_discharging_observed'' \<and>
       (\<exists>t r obs. pw_ticket c = Some t \<and> ticketCompleted t = Some r \<and> cm_Observation r = Some obs \<and>
          validPowerObservation obs (cm_LaunchWall r) (cm_CompletedWall r) \<and>
          o_SystemBatteryDischargingObserved obs = Some True \<and>
          t_ns (fst clk) < t_ns (cm_LaunchWall r) + powerSampleInterval \<and>
          t_ns (snd clk) < t_ns (cm_LaunchElapsed r) + powerSampleInterval))"
proof -
  have inv: "powInv c" using probe_ids.run_inv [OF assms(1) powInv_new] .
  have "\<not> ended" using assms(2,5) by (auto simp: powerPolicy_def newDecision_def)
  then have op: "powerPolicy c False clk allow = (c', d)" using assms(2) by simp
  show ?thesis
  proof (cases rule: powerPolicy_cases [OF op, case_names launch completed pending])
    case (launch c1 ce)
    then show ?thesis using launchDecision_backoff [OF launch(3) assms(5)] by auto
  next
    case (pending c1 ce t t')
    then show ?thesis using pendingDecision_backoff [OF pending(4) assms(5)] by simp
  next
    case (completed c1 ce t r)
    let ?d1 = "completedDecision (baseDecision c1 clk (Some (tk_ID t))) r (toUTC (fst clk)) (snd clk) ce"
    note discharged = discharge_decision [OF inv completed(1-3) assms(3,4)]
    from completed(4) show ?thesis
    proof
      assume "d = ?d1"
      then show ?thesis using discharged assms(5) completed(2,3) by blast
    next
      assume "launchDecision c1 ?d1 (toUTC (fst clk)) (snd clk) ce allow = (c', d)"
      from launchDecision_backoff [OF this assms(5)] show ?thesis using discharged completed(2,3) by fastforce
    qed
  qed
qed

theorem backoff_bounded_witness:
  "pd_Wait (snd (powerPolicy pxDone False (pxClock 110) True)) \<le> powerSampleInterval"
proof -
  have "pd_SourceBackoff (snd (powerPolicy pxDone False (pxClock 110) True))"
      "zero_ns \<le> t_ns (fst (pxClock 110))" "zero_ns \<le> t_ns (snd (pxClock 110))" by code_simp+
  then show ?thesis
    using backoff_bounded [OF px_run(2), of False "pxClock 110" True] by (metis prod.collapse)
qed

text \<open>A stalled probe does not hold work back: once five seconds have passed since its launch
  on either clock, or its context ended, or a clock went back, the policy refuses the pending probe,
  reports that it cannot tell and asks for no backoff, while the slot stays occupied until the callback
  returns.\<close>

theorem stalled_probe_releases:
  assumes "pw_ticket c = Some t" "ticketCompleted t = None"
    and "t_ns (tk_LaunchWall t) + ObservationTimeout \<le> t_ns (fst clk) \<or>
      t_ns (tk_LaunchElapsed t) + ObservationTimeout \<le> t_ns (snd clk) \<or> tk_cause t \<noteq> None \<or>
      snd (snd (snd (clockSample c clk))) \<noteq> None"
    and "powerPolicy c False clk allow = (c', d)"
  shows "\<not> pd_SourceBackoff d \<and> \<not> pd_Started d \<and> pd_Wait d = 0 \<and> pd_Status d = ''unknown'' \<and>
    (\<exists>t'. pw_ticket c' = Some t' \<and> tk_ID t' = tk_ID t \<and> ticketCompleted t' = None \<and> tk_refusal t' \<noteq> None \<and>
       tk_cause t' \<noteq> None)"
proof -
  obtain c1 ce where cs: "clockSample c clk = (c1, toUTC (fst clk), snd clk, ce)"
    using clockSample_eq by blast
  have f: "pw_ticket c1 = Some t" using clockSample_frame(1) [of c clk] cs assms(1) by simp
  define d0 where "d0 = newDecision\<lparr>pd_NextSampleWait := sampleWait c1 (toUTC (fst clk)) (snd clk), pd_Ticket := Some (tk_ID t)\<rparr>"
  have "\<exists>e. pendingDecision d0 t (toUTC (fst clk)) (snd clk) ce =
      (refuseTicket e t, d0\<lparr>pd_Sampling := True, pd_Reason := ''power_observer_stalled''\<rparr>)"
    using assms(3) cs by (auto simp: pendingDecision_def Let_def powerWindowError_def tBefore_def split: option.splits)
  then obtain e where "c' = c1\<lparr>pw_ticket := Some (refuseTicket e t)\<rparr>"
      "d = d0\<lparr>pd_Sampling := True, pd_Reason := ''power_observer_stalled''\<rparr>"
    using assms(2,4) cs f by (auto simp: powerPolicy_def Let_def d0_def)
  then show ?thesis using assms(2)
    by (auto simp: d0_def newDecision_def ticketCompleted_def refuseTicket_def cancelContext_def)
qed

theorem stalled_probe_releases_witness:
  "\<not> pd_SourceBackoff (snd (powerPolicy pxLaunched False (pxClock 105) True))"
proof -
  have h: "pw_ticket pxLaunched = Some (the (pw_ticket pxLaunched))" "ticketCompleted (the (pw_ticket pxLaunched)) = None"
      "t_ns (tk_LaunchWall (the (pw_ticket pxLaunched))) + ObservationTimeout \<le> t_ns (fst (pxClock 105))"
    by code_simp+
  show ?thesis using stalled_probe_releases [OF h(1,2) disjI1 [OF h(3)], of True] by (metis prod.collapse)
qed

text \<open>Terminal evidence is frozen: a completed probe keeps its completion through every step
  until another probe is launched in its place.\<close>

theorem evidence_frozen:
  assumes "power_step\<^sup>*\<^sup>* (newPowerCoordinator b) c" "pw_ticket c = Some t" "ticketCompleted t = Some r"
    and "power_step c c'" "pw_nextID c' = pw_nextID c"
  shows "\<exists>t'. pw_ticket c' = Some t' \<and> ticketCompleted t' = Some r"
  using power_step_done [OF assms(4) probe_ids.run_inv [OF assms(1) powInv_new] assms(2,3,5)] .

theorem evidence_frozen_witness:
  "\<exists>t'. pw_ticket (contextEnds pxDone ContextCanceled) = Some t' \<and>
     ticketCompleted t' = ticketCompleted (the (pw_ticket pxDone))"
proof -
  have h: "pw_ticket pxDone = Some (the (pw_ticket pxDone))"
      "ticketCompleted (the (pw_ticket pxDone)) = Some (the (ticketCompleted (the (pw_ticket pxDone))))"
    by code_simp+
  show ?thesis
    using evidence_frozen [OF px_run(2) h power_step.ended [of pxDone ContextCanceled]] h(2) by (simp add: contextEnds_def)
qed

end
