(* ===== verification/Metadata_Budget.thy ===== *)
theory Metadata_Budget
  imports Rydd_Prelude "HOL-Library.Word" "HOL-Library.List_Lexorder" "HOL-Library.Char_ord"
begin

unbundle bit_operations_syntax

text \<open>
  The durable reservations of scanner metadata calls, \<^verbatim>\<open>src/internal/state/metadata_budget.go\<close>:
  the budget row with its daily and lifetime charges, one reservation row for each scope, the
  validation every read performs, the snapshot a status command prints, and the three
  transactions that reserve an allowance, settle it with what was observed, and recover it as
  unknown after lost work.
\<close>

section \<open>Days and times\<close>

text \<open>
  A text of the form \<open>YYYY-MM-DD\<close> that \<open>time.DateOnly\<close> prints for some instant is \<open>DayOf n\<close>, with
  \<open>n\<close> the number of the UTC day counted from the Unix epoch; every other text is \<open>DayText\<close>.
  The years of an \<open>int64\<close> of nanoseconds have four digits, so the printed days are ordered as
  their numbers, and the source compares days only after it has parsed or matched them.
\<close>

datatype daytext = DayOf int | DayText string

definition utcDay :: "gotime \<Rightarrow> int" where "utcDay t = t_ns t div day_ns"

definition formatDay :: "gotime \<Rightarrow> daytext" where "formatDay t = DayOf (utcDay t)"

fun parsedDay :: "daytext \<Rightarrow> bool" where
  "parsedDay (DayOf _) = True"
| "parsedDay (DayText _) = False"

fun dayAfter :: "daytext \<Rightarrow> daytext \<Rightarrow> bool" where
  "dayAfter (DayOf a) (DayOf b) \<longleftrightarrow> b < a"
| "dayAfter _ _ \<longleftrightarrow> False"

definition nextMidnight :: "gotime \<Rightarrow> gotime" where
  "nextMidnight t = toUTC (unixTime ((utcDay t + 1) * day_ns))"

definition utcUnix :: "int \<Rightarrow> gotime" where "utcUnix n = toUTC (unixTime n)"

definition metadataTime :: "gotime \<Rightarrow> err + gotime \<times> gotime" where
  "metadataTime now0 =
     (let now = toUTC now0; ns = unixNano now in
      if ns \<le> 0 \<or> \<not> tEqual (unixTime ns) now then Inl ErrMetadataInvalid
      else let midnight = nextMidnight now in
      if unixNano midnight \<le> ns \<or> \<not> tEqual (unixTime (unixNano midnight)) midnight
      then Inl ErrMetadataInvalid
      else Inr (now, midnight))"

section \<open>Data\<close>

abbreviation MetadataAllowanceLimit :: int where "MetadataAllowanceLimit \<equiv> 65536"
abbreviation MetadataDailyLimit :: int where "MetadataDailyLimit \<equiv> 1125899906842624"

abbreviation MetadataBudgetContract :: string where
  "MetadataBudgetContract \<equiv> ''worker_scanner_metadata_reservations_v1''"
abbreviation MetadataStartup :: string where "MetadataStartup \<equiv> ''startup''"
abbreviation MetadataNext :: string where "MetadataNext \<equiv> ''next''"
abbreviation ScanKind :: string where "ScanKind \<equiv> ''inventory''"

record MetadataCharges =
  mc_reserved :: int
  mc_observed :: int
  mc_unknown :: int
  mc_outstanding :: int
  mc_unused :: int

definition noCharges :: MetadataCharges where
  "noCharges = \<lparr>mc_reserved = 0, mc_observed = 0, mc_unknown = 0, mc_outstanding = 0, mc_unused = 0\<rparr>"

record MetadataReservation =
  mr_token :: string
  mr_scope :: string
  mr_jobID :: int
  mr_jobToken :: string
  mr_day :: daytext
  mr_allowance :: int
  mr_started :: gotime
  mr_expires :: gotime
  mr_clock :: gotime

record metadataRecord = MetadataReservation +
  mr_status :: string
  mr_observed :: "int option"

record metadataState =
  ms_present :: bool
  ms_started :: int
  ms_highWater :: int
  ms_day :: daytext
  ms_daily :: MetadataCharges
  ms_total :: MetadataCharges
  ms_records :: "metadataRecord list"

record MetadataBudget =
  mb_contract :: string
  mb_available :: bool
  mb_status :: string
  mb_reason :: string
  mb_day :: "daytext option"
  mb_limit :: int
  mb_trackingStartedAt :: "gotime option"
  mb_clockHighWater :: "gotime option"
  mb_preTracking :: string
  mb_dayCharges :: "MetadataCharges option"
  mb_totalCharges :: "MetadataCharges option"
  mb_nextAllowedAt :: "gotime option"

text \<open>The columns of \<open>scan_metadata_budget\<close> and \<open>scan_metadata_reservations\<close>, each row with the
  verdict of its \<open>typeof\<close> conjunction, and the columns of \<open>jobs\<close> the fence reads. The rows of the
  reservation table are kept in the order of their primary key, the scope.\<close>

record budget_row =
  br_typed :: bool
  br_started :: int
  br_day :: daytext
  br_maxNow :: int
  br_reserved :: int
  br_observed :: int
  br_unknown :: int
  br_totalReserved :: int
  br_totalObserved :: int
  br_totalUnknown :: int

record reservation_row =
  rr_typed :: bool
  rr_scope :: string
  rr_token :: string
  rr_jobID :: int
  rr_jobToken :: string
  rr_day :: daytext
  rr_started :: int
  rr_expires :: int
  rr_highWater :: int
  rr_allowance :: int
  rr_status :: string
  rr_observed :: "int option"

record job_row =
  jr_token :: string
  jr_until :: int
  jr_kind :: string
  jr_status :: string

record mddb =
  md_budget :: "budget_row option"
  md_rows :: "reservation_row list"
  md_jobs :: "int \<rightharpoonup> job_row"

record mdstore =
  mds_readOnly :: bool
  mds_schema :: int
  mds_db :: mddb

text \<open>The fields of \<open>Job\<close> that the fence uses.\<close>

record scan_job =
  sj_id :: int
  sj_token :: string

text \<open>
  What the environment answers during one call: the context's error at entry; for each numbered
  database request its error and the context's error when that one is classified (0 opening the
  transaction, 1 the budget row, 2 the reservation query, 3 the end of its iteration, 4 the job
  row, 5 and 6 the two writes, 7 the commit, and \<open>8 + i\<close> the scan of reservation row \<open>i\<close>); whether
  a commit that reported an error took effect; and the answer of \<open>crypto/rand\<close>.
\<close>

record metadata_env =
  me_entry :: "err option"
  me_err :: "nat \<Rightarrow> err option"
  me_ctx :: "nat \<Rightarrow> err option"
  me_applied :: bool
  me_randErr :: "err option"
  me_nonce :: "nat \<Rightarrow> 8 word"

definition metadataStorageError :: "err option \<Rightarrow> err option \<Rightarrow> err option" where
  "metadataStorageError ctxErr e =
     (case e of None \<Rightarrow> None
      | Some _ \<Rightarrow> (case ctxErr of Some c \<Rightarrow> Some c | None \<Rightarrow> Some ErrMetadataUnavailable))"

definition storageAt :: "metadata_env \<Rightarrow> nat \<Rightarrow> err option" where
  "storageAt env k = metadataStorageError (me_ctx env k) (me_err env k)"

section \<open>Validation\<close>

definition metadataChargesValid :: "MetadataCharges \<Rightarrow> bool" where
  "metadataChargesValid c \<longleftrightarrow>
     0 \<le> mc_reserved c \<and> 0 \<le> mc_observed c \<and> 0 \<le> mc_unknown c \<and> 0 \<le> mc_outstanding c \<and>
     mc_observed c \<le> mc_reserved c \<and>
     mc_unknown c \<le> sub64 (mc_reserved c) (mc_observed c) \<and>
     mc_outstanding c \<le> sub64 (sub64 (mc_reserved c) (mc_observed c)) (mc_unknown c)"

definition metadataReservationValid :: "'a MetadataReservation_scheme \<Rightarrow> bool" where
  "metadataReservationValid r =
     (case metadataTime (mr_started r) of
        Inl _ \<Rightarrow> False
      | Inr (started, midnight) \<Rightarrow>
          if \<not> metadataDigest (mr_token r) 64 \<or> mr_allowance r < 1 \<or>
             mr_allowance r > MetadataAllowanceLimit \<or> mr_day r \<noteq> formatDay started \<or>
             \<not> tEqual (mr_clock r) started \<or> \<not> tAfter (mr_expires r) started \<or>
             tAfter (mr_expires r) midnight
          then False
          else case metadataTime (mr_expires r) of
            Inl _ \<Rightarrow> False
          | Inr _ \<Rightarrow>
              if mr_scope r = MetadataStartup
              then mr_jobID r = 0 \<and> mr_jobToken r = [] \<and> tEqual (mr_expires r) midnight
              else mr_scope r = MetadataNext \<and> mr_jobID r > 0 \<and>
                   metadataDigest (mr_jobToken r) 32)"

text \<open>The row scans: the columns of a reservation become a record of UTC times.\<close>

definition rowRecord :: "reservation_row \<Rightarrow> metadataRecord" where
  "rowRecord r =
     \<lparr>mr_token = rr_token r, mr_scope = rr_scope r, mr_jobID = rr_jobID r,
      mr_jobToken = rr_jobToken r, mr_day = rr_day r, mr_allowance = rr_allowance r,
      mr_started = utcUnix (rr_started r), mr_expires = utcUnix (rr_expires r),
      mr_clock = utcUnix (rr_highWater r), mr_status = rr_status r, mr_observed = rr_observed r\<rparr>"

fun scanRows :: "metadata_env \<Rightarrow> nat \<Rightarrow> reservation_row list \<Rightarrow> err + metadataRecord list" where
  "scanRows env i [] = (case storageAt env 3 of Some e \<Rightarrow> Inl e | None \<Rightarrow> Inr [])"
| "scanRows env i (r # rs) =
     (case storageAt env (8 + i) of
        Some e \<Rightarrow> Inl e
      | None \<Rightarrow>
          if \<not> rr_typed r then Inl ErrMetadataCorrupt
          else case scanRows env (Suc i) rs of
            Inl e \<Rightarrow> Inl e
          | Inr out \<Rightarrow> Inr (rowRecord r # out))"

definition rowCharges :: "int \<Rightarrow> int \<Rightarrow> int \<Rightarrow> MetadataCharges" where
  "rowCharges a b c = noCharges\<lparr>mc_reserved := a, mc_observed := b, mc_unknown := c\<rparr>"

definition loadedState :: "budget_row option \<Rightarrow> metadataRecord list \<Rightarrow> metadataState" where
  "loadedState b recs =
     (case b of
        None \<Rightarrow> \<lparr>ms_present = False, ms_started = 0, ms_highWater = 0, ms_day = DayText [],
                 ms_daily = noCharges, ms_total = noCharges, ms_records = recs\<rparr>
      | Some r \<Rightarrow> \<lparr>ms_present = True, ms_started = br_started r, ms_highWater = br_maxNow r,
                 ms_day = br_day r,
                 ms_daily = rowCharges (br_reserved r) (br_observed r) (br_unknown r),
                 ms_total = rowCharges (br_totalReserved r) (br_totalObserved r) (br_totalUnknown r),
                 ms_records = recs\<rparr>)"

text \<open>The loop over the records: the scopes seen, and what the retained rows account for on the
  saved day and in total.\<close>

definition recordRefused :: "metadataState \<Rightarrow> string list \<Rightarrow> metadataRecord \<Rightarrow> bool" where
  "recordRefused st seen r \<longleftrightarrow>
     \<not> metadataReservationValid r \<or> mr_scope r \<in> set seen \<or>
     unixNano (mr_started r) < ms_started st \<or> unixNano (mr_clock r) > ms_highWater st \<or>
     dayAfter (mr_day r) (ms_day st)"

definition addReserved :: "MetadataCharges \<Rightarrow> int \<Rightarrow> MetadataCharges" where
  "addReserved c n = c\<lparr>mc_reserved := add64 (mc_reserved c) n\<rparr>"

definition addObserved :: "MetadataCharges \<Rightarrow> int \<Rightarrow> MetadataCharges" where
  "addObserved c n = c\<lparr>mc_observed := add64 (mc_observed c) n\<rparr>"

definition addUnknown :: "MetadataCharges \<Rightarrow> int \<Rightarrow> MetadataCharges" where
  "addUnknown c n = c\<lparr>mc_unknown := add64 (mc_unknown c) n\<rparr>"

definition addOutstanding :: "MetadataCharges \<Rightarrow> int \<Rightarrow> MetadataCharges" where
  "addOutstanding c n = c\<lparr>mc_outstanding := add64 (mc_outstanding c) n\<rparr>"

fun checkRecords :: "metadataState \<Rightarrow> string list \<Rightarrow> MetadataCharges \<Rightarrow> MetadataCharges \<Rightarrow>
    metadataRecord list \<Rightarrow> (metadataState \<times> MetadataCharges \<times> MetadataCharges) option" where
  "checkRecords st seen rd rt [] = Some (st, rd, rt)"
| "checkRecords st seen rd rt (r # rs) =
     (if recordRefused st seen r then None
      else
        let today = (mr_day r = ms_day st);
            seen = mr_scope r # seen;
            rt = addReserved rt (mr_allowance r);
            rd = (if today then addReserved rd (mr_allowance r) else rd)
        in
        if mr_status r = ''reserved''
        then
          if mr_observed r \<noteq> None \<or> \<not> today \<or>
             mr_allowance r > sub64 (mc_reserved (ms_daily st)) (mc_outstanding (ms_daily st))
          then None
          else checkRecords
                 (st\<lparr>ms_daily := addOutstanding (ms_daily st) (mr_allowance r),
                     ms_total := addOutstanding (ms_total st) (mr_allowance r)\<rparr>) seen rd rt rs
        else if mr_status r = ''settled''
        then (case mr_observed r of
                None \<Rightarrow> None
              | Some n \<Rightarrow>
                  if n < 0 \<or> n > mr_allowance r then None
                  else checkRecords st seen (if today then addObserved rd n else rd)
                         (addObserved rt n) rs)
        else if mr_status r = ''unknown''
        then
          if mr_observed r \<noteq> None then None
          else checkRecords st seen (if today then addUnknown rd (mr_allowance r) else rd)
                 (addUnknown rt (mr_allowance r)) rs
        else None)"

definition headerRefused :: "metadataState \<Rightarrow> bool" where
  "headerRefused st \<longleftrightarrow>
     ms_started st \<le> 0 \<or> ms_highWater st < ms_started st \<or> \<not> parsedDay (ms_day st) \<or>
     dayAfter (formatDay (utcUnix (ms_started st))) (ms_day st) \<or>
     dayAfter (ms_day st) (formatDay (utcUnix (ms_highWater st))) \<or> length (ms_records st) > 2"

definition chargesRefused :: "MetadataCharges \<Rightarrow> MetadataCharges \<Rightarrow> bool" where
  "chargesRefused daily whole \<longleftrightarrow>
     \<not> metadataChargesValid daily \<or> \<not> metadataChargesValid whole \<or>
     mc_reserved whole < mc_reserved daily \<or> mc_observed whole < mc_observed daily \<or>
     mc_unknown whole < mc_unknown daily"

definition retainedExceeds :: "MetadataCharges \<Rightarrow> MetadataCharges \<Rightarrow> bool" where
  "retainedExceeds kept c \<longleftrightarrow>
     mc_reserved kept > mc_reserved c \<or> mc_observed kept > mc_observed c \<or>
     mc_unknown kept > mc_unknown c"

definition withUnused :: "MetadataCharges \<Rightarrow> MetadataCharges" where
  "withUnused c = c\<lparr>mc_unused :=
     sub64 (sub64 (sub64 (mc_reserved c) (mc_observed c)) (mc_unknown c)) (mc_outstanding c)\<rparr>"

definition metadataCheck :: "metadataState \<Rightarrow> err + metadataState" where
  "metadataCheck st0 =
     (if \<not> ms_present st0
      then if ms_records st0 \<noteq> [] then Inl ErrMetadataCorrupt else Inr st0
      else if headerRefused st0 \<or> chargesRefused (ms_daily st0) (ms_total st0)
      then Inl ErrMetadataCorrupt
      else case checkRecords st0 [] noCharges noCharges (ms_records st0) of
        None \<Rightarrow> Inl ErrMetadataCorrupt
      | Some (st, rd, rt) \<Rightarrow>
          if \<not> metadataChargesValid (ms_daily st) \<or> \<not> metadataChargesValid (ms_total st)
          then Inl ErrMetadataCorrupt
          else if retainedExceeds rd (ms_daily st) \<or> retainedExceeds rt (ms_total st)
          then Inl ErrMetadataCorrupt
          else
            let daily = withUnused (ms_daily st); whole = withUnused (ms_total st) in
            if mc_unused whole < mc_unused daily then Inl ErrMetadataCorrupt
            else Inr (st\<lparr>ms_daily := daily, ms_total := whole\<rparr>))"

definition metadataRead :: "metadata_env \<Rightarrow> mddb \<Rightarrow> err + metadataState" where
  "metadataRead env db =
     (case storageAt env 1 of Some e \<Rightarrow> Inl e | None \<Rightarrow>
      if (case md_budget db of None \<Rightarrow> False | Some b \<Rightarrow> \<not> br_typed b) then Inl ErrMetadataCorrupt
      else case storageAt env 2 of Some e \<Rightarrow> Inl e | None \<Rightarrow>
      case scanRows env 0 (take 3 (md_rows db)) of Inl e \<Rightarrow> Inl e | Inr recs \<Rightarrow>
      metadataCheck (loadedState (md_budget db) recs))"

section \<open>Snapshots\<close>

definition metadataSnapshot :: "metadataState \<Rightarrow> gotime \<Rightarrow> gotime \<Rightarrow> int \<Rightarrow> MetadataBudget" where
  "metadataSnapshot st now midnight limit =
     (let b0 = \<lparr>mb_contract = MetadataBudgetContract, mb_available = True, mb_status = ''untracked'',
                mb_reason = [], mb_day = None, mb_limit = limit, mb_trackingStartedAt = None,
                mb_clockHighWater = None, mb_preTracking = ''unknown'', mb_dayCharges = None,
                mb_totalCharges = None, mb_nextAllowedAt = None\<rparr>
      in if \<not> ms_present st then b0
         else
           let highWater = utcUnix (ms_highWater st);
               b1 = b0\<lparr>mb_trackingStartedAt := Some (utcUnix (ms_started st)),
                       mb_clockHighWater := Some highWater, mb_status := ''tracked'',
                       mb_day := Some (ms_day st), mb_dayCharges := Some (ms_daily st),
                       mb_totalCharges := Some (ms_total st)\<rparr>
           in if unixNano now < ms_highWater st
              then b1\<lparr>mb_status := ''deferred'', mb_reason := ''clock_rollback'',
                      mb_nextAllowedAt := Some highWater\<rparr>
              else
                let rolled = dayAfter (formatDay now) (ms_day st) in
                if rolled \<and> mc_outstanding (ms_total st) > 0
                then b1\<lparr>mb_status := ''deferred'', mb_reason := ''settlement_required''\<rparr>
                else
                  let charges = (if rolled then noCharges else ms_daily st);
                      b2 = (if rolled
                            then b1\<lparr>mb_day := Some (formatDay now), mb_dayCharges := Some charges\<rparr>
                            else b1)
                  in if mc_reserved charges \<ge> limit
                     then b2\<lparr>mb_status := ''deferred'', mb_reason := ''daily_metadata_limit'',
                             mb_nextAllowedAt := Some midnight\<rparr>
                     else b2)"

definition unavailableBudget :: "int \<Rightarrow> MetadataBudget" where
  "unavailableBudget limit =
     \<lparr>mb_contract = MetadataBudgetContract, mb_available = False, mb_status = ''unavailable'',
      mb_reason = ''schema_unavailable'', mb_day = None, mb_limit = limit,
      mb_trackingStartedAt = None, mb_clockHighWater = None, mb_preTracking = ''unknown'',
      mb_dayCharges = None, mb_totalCharges = None, mb_nextAllowedAt = None\<rparr>"

definition metadataBudget :: "metadata_env \<Rightarrow> mdstore \<Rightarrow> gotime \<Rightarrow> int \<Rightarrow> err + MetadataBudget" where
  "metadataBudget env s now0 dailyLimit =
     (case me_entry env of Some e \<Rightarrow> Inl e | None \<Rightarrow>
      case metadataTime now0 of
        Inl _ \<Rightarrow> Inl ErrMetadataInvalid
      | Inr (now, midnight) \<Rightarrow>
          if dailyLimit < 1 \<or> dailyLimit > MetadataDailyLimit then Inl ErrMetadataInvalid
          else if mds_schema s < 10 then Inr (unavailableBudget dailyLimit)
          else case storageAt env 0 of Some e \<Rightarrow> Inl e | None \<Rightarrow>
          case metadataRead env (mds_db s) of
            Inl e \<Rightarrow> Inl e
          | Inr st \<Rightarrow> (case storageAt env 7 of Some e \<Rightarrow> Inl e
                      | None \<Rightarrow> Inr (metadataSnapshot st now midnight dailyLimit)))"

section \<open>Transactions\<close>

definition metadataWriter :: "mdstore \<Rightarrow> err option" where
  "metadataWriter s =
     (if mds_readOnly s then Some ErrMetadataReadOnly
      else if mds_schema s < 10 then Some ErrMetadataUnavailable
      else None)"

text \<open>The commit that ends a writing transaction: an error is reported, and the database holds
  either contents, when the commit itself fails.\<close>

definition commitMetadata :: "metadata_env \<Rightarrow> mdstore \<Rightarrow> mddb \<Rightarrow> err option \<times> mdstore" where
  "commitMetadata env s db =
     (case storageAt env 7 of
        None \<Rightarrow> (None, s\<lparr>mds_db := db\<rparr>)
      | Some e \<Rightarrow> (Some e, if me_applied env then s\<lparr>mds_db := db\<rparr> else s))"

definition savedRow :: "metadataState \<Rightarrow> budget_row" where
  "savedRow st =
     \<lparr>br_typed = True, br_started = ms_started st, br_day = ms_day st, br_maxNow = ms_highWater st,
      br_reserved = mc_reserved (ms_daily st), br_observed = mc_observed (ms_daily st),
      br_unknown = mc_unknown (ms_daily st), br_totalReserved = mc_reserved (ms_total st),
      br_totalObserved = mc_observed (ms_total st), br_totalUnknown = mc_unknown (ms_total st)\<rparr>"

definition metadataSave :: "metadata_env \<Rightarrow> mddb \<Rightarrow> metadataState \<Rightarrow> err + mddb" where
  "metadataSave env db st =
     (case storageAt env 5 of Some e \<Rightarrow> Inl e
      | None \<Rightarrow> Inr (db\<lparr>md_budget := Some (savedRow st)\<rparr>))"

definition hexDigit :: "nat \<Rightarrow> char" where
  "hexDigit n = ''0123456789abcdef'' ! n"

definition hexByte :: "8 word \<Rightarrow> string" where
  "hexByte v = [hexDigit (unat (drop_bit 4 v)), hexDigit (unat (v AND 15))]"

definition encodeToString :: "8 word list \<Rightarrow> string" where
  "encodeToString bytes = concat (map hexByte bytes)"

definition nonceToken :: "metadata_env \<Rightarrow> string" where
  "nonceToken env = encodeToString (map (me_nonce env) [0..<32])"

definition reserveInputInvalid :: "string \<Rightarrow> scan_job option \<Rightarrow> int \<Rightarrow> int \<Rightarrow> bool" where
  "reserveInputInvalid scope job allowance dailyLimit \<longleftrightarrow>
     allowance < 1 \<or> allowance > MetadataAllowanceLimit \<or> dailyLimit < 1 \<or>
     dailyLimit > MetadataDailyLimit \<or> (scope \<noteq> MetadataStartup \<and> scope \<noteq> MetadataNext) \<or>
     (scope = MetadataStartup \<and> job \<noteq> None) \<or>
     (scope = MetadataNext \<and>
       (case job of None \<Rightarrow> True | Some j \<Rightarrow> sj_id j \<le> 0 \<or> \<not> metadataDigest (sj_token j) 32))"

definition outstandingBlocks :: "metadataState \<Rightarrow> string \<Rightarrow> gotime \<Rightarrow> bool" where
  "outstandingBlocks st scope now \<longleftrightarrow>
     list_ex (\<lambda>r. mr_status r = ''reserved'' \<and> (mr_scope r = scope \<or> mr_day r \<noteq> formatDay now))
       (ms_records st)"

definition dayState :: "metadataState \<Rightarrow> gotime \<Rightarrow> metadataState" where
  "dayState st now =
     (if \<not> ms_present st
      then st\<lparr>ms_present := True, ms_started := unixNano now, ms_day := formatDay now\<rparr>
      else if dayAfter (formatDay now) (ms_day st)
      then st\<lparr>ms_day := formatDay now, ms_daily := noCharges\<rparr>
      else st)"

text \<open>The checks of \<open>ReserveMetadata\<close> on the state it read, and the state with the day it charges.\<close>

definition reserveAdmit :: "metadataState \<Rightarrow> gotime \<Rightarrow> string \<Rightarrow> int \<Rightarrow> int \<Rightarrow> err + metadataState" where
  "reserveAdmit st0 now scope allowance dailyLimit =
     (if ms_present st0 \<and> unixNano now < ms_highWater st0
      then Inl (ErrJoin ErrMetadataDeferred ErrMetadataClockRollback)
      else if outstandingBlocks st0 scope now
      then Inl (ErrJoin ErrMetadataDeferred ErrMetadataOutstanding)
      else
        let st = dayState st0 now in
        if mc_reserved (ms_daily st) > dailyLimit \<or>
           allowance > sub64 dailyLimit (mc_reserved (ms_daily st))
        then Inl (ErrJoin ErrMetadataDeferred ErrMetadataDailyQuota)
        else if allowance > sub64 maxInt64 (mc_reserved (ms_total st)) then Inl ErrMetadataOverflow
        else Inr st)"

definition freshReservation :: "metadataState \<Rightarrow> string \<Rightarrow> int \<Rightarrow> gotime \<Rightarrow> gotime \<Rightarrow> MetadataReservation" where
  "freshReservation st scope allowance now midnight =
     \<lparr>mr_token = [], mr_scope = scope, mr_jobID = 0, mr_jobToken = [], mr_day = ms_day st,
      mr_allowance = allowance, mr_started = now, mr_expires = midnight, mr_clock = now\<rparr>"

text \<open>The fence of a \<open>next\<close> reservation to the lease of its job, which the input check has found
  present.\<close>

definition jobFence :: "metadata_env \<Rightarrow> mddb \<Rightarrow> gotime \<Rightarrow> scan_job option \<Rightarrow> MetadataReservation \<Rightarrow>
    err + MetadataReservation" where
  "jobFence env db now job r =
     (if mr_scope r \<noteq> MetadataNext then Inr r
      else case job of
        None \<Rightarrow> Inl ErrMetadataInvalid
      | Some j \<Rightarrow>
          (case storageAt env 4 of Some e \<Rightarrow> Inl e | None \<Rightarrow>
           case md_jobs db (sj_id j) of
             None \<Rightarrow> Inl ErrMetadataStale
           | Some row \<Rightarrow>
               if jr_token row \<noteq> sj_token j \<or> jr_kind row \<noteq> ScanKind \<or>
                  jr_status row \<noteq> ''running'' \<or> jr_until row \<le> unixNano now
               then Inl ErrMetadataStale
               else
                 let r1 = r\<lparr>mr_jobID := sj_id j, mr_jobToken := sj_token j\<rparr>;
                     expiry = utcUnix (jr_until row)
                 in Inr (if tBefore expiry (mr_expires r1) then r1\<lparr>mr_expires := expiry\<rparr> else r1)))"

definition reservationRow :: "MetadataReservation \<Rightarrow> reservation_row" where
  "reservationRow r =
     \<lparr>rr_typed = True, rr_scope = mr_scope r, rr_token = mr_token r, rr_jobID = mr_jobID r,
      rr_jobToken = mr_jobToken r, rr_day = mr_day r, rr_started = unixNano (mr_started r),
      rr_expires = unixNano (mr_expires r), rr_highWater = unixNano (mr_clock r),
      rr_allowance = mr_allowance r, rr_status = ''reserved'', rr_observed = None\<rparr>"

text \<open>\<open>INSERT ... ON CONFLICT(scope) DO UPDATE\<close> on the rows in key order.\<close>

definition upsertRow :: "reservation_row \<Rightarrow> reservation_row list \<Rightarrow> reservation_row list" where
  "upsertRow r rows =
     (if list_ex (\<lambda>x. rr_scope x = rr_scope r) rows
      then map (\<lambda>x. if rr_scope x = rr_scope r then r else x) rows
      else insort_key rr_scope r rows)"

text \<open>The \<open>UNIQUE\<close> constraint on the token column: another scope's row already has it.\<close>

definition tokenTaken :: "reservation_row \<Rightarrow> reservation_row list \<Rightarrow> bool" where
  "tokenTaken r rows \<longleftrightarrow>
     list_ex (\<lambda>x. rr_token x = rr_token r \<and> rr_scope x \<noteq> rr_scope r) rows"

definition insertReservation :: "metadata_env \<Rightarrow> mddb \<Rightarrow> MetadataReservation \<Rightarrow> err + mddb" where
  "insertReservation env db r =
     (let row = reservationRow r;
          e = (if tokenTaken row (md_rows db) then Some (StorageFailure ''constraint'') else me_err env 6)
      in case metadataStorageError (me_ctx env 6) e of
           Some x \<Rightarrow> Inl x
         | None \<Rightarrow> Inr (db\<lparr>md_rows := upsertRow row (md_rows db)\<rparr>))"

definition chargeReservation :: "metadataState \<Rightarrow> gotime \<Rightarrow> int \<Rightarrow> metadataState" where
  "chargeReservation st now allowance =
     st\<lparr>ms_highWater := unixNano now, ms_daily := addReserved (ms_daily st) allowance,
        ms_total := addReserved (ms_total st) allowance\<rparr>"

text \<open>The two writes and the commit that publish a charged reservation.\<close>

definition publishReservation :: "metadata_env \<Rightarrow> mdstore \<Rightarrow> metadataState \<Rightarrow> MetadataReservation \<Rightarrow>
    (err + MetadataReservation) \<times> mdstore" where
  "publishReservation env s st r =
     (case metadataSave env (mds_db s) st of
        Inl e \<Rightarrow> (Inl e, s)
      | Inr db1 \<Rightarrow>
      case insertReservation env db1 r of Inl e \<Rightarrow> (Inl e, s) | Inr db2 \<Rightarrow>
      case commitMetadata env s db2 of
        (Some e, s1) \<Rightarrow> (Inl e, s1)
      | (None, s1) \<Rightarrow> (Inr r, s1))"

definition ReserveMetadata :: "metadata_env \<Rightarrow> mdstore \<Rightarrow> gotime \<Rightarrow> string \<Rightarrow> scan_job option \<Rightarrow>
    int \<Rightarrow> int \<Rightarrow> (err + MetadataReservation) \<times> mdstore" where
  "ReserveMetadata env s now0 scope job allowance dailyLimit =
     (case metadataWriter s of Some e \<Rightarrow> (Inl e, s) | None \<Rightarrow>
      case metadataTime now0 of
        Inl _ \<Rightarrow> (Inl ErrMetadataInvalid, s)
      | Inr (now, midnight) \<Rightarrow>
      if reserveInputInvalid scope job allowance dailyLimit then (Inl ErrMetadataInvalid, s)
      else case storageAt env 0 of Some e \<Rightarrow> (Inl e, s) | None \<Rightarrow>
      case metadataRead env (mds_db s) of Inl e \<Rightarrow> (Inl e, s) | Inr st0 \<Rightarrow>
      case reserveAdmit st0 now scope allowance dailyLimit of Inl e \<Rightarrow> (Inl e, s) | Inr st \<Rightarrow>
      case jobFence env (mds_db s) now job (freshReservation st scope allowance now midnight) of
        Inl e \<Rightarrow> (Inl e, s)
      | Inr r0 \<Rightarrow>
      if me_randErr env \<noteq> None then (Inl ErrMetadataUnavailable, s)
      else publishReservation env s (chargeReservation st now allowance)
             (r0\<lparr>mr_token := nonceToken env\<rparr>))"

definition metadataSame :: "'a MetadataReservation_scheme \<Rightarrow> 'b MetadataReservation_scheme \<Rightarrow> bool" where
  "metadataSame a b \<longleftrightarrow>
     mr_token a = mr_token b \<and> mr_scope a = mr_scope b \<and> mr_jobID a = mr_jobID b \<and>
     mr_jobToken a = mr_jobToken b \<and> mr_day a = mr_day b \<and> mr_allowance a = mr_allowance b \<and>
     tEqual (mr_started a) (mr_started b) \<and> tEqual (mr_expires a) (mr_expires b) \<and>
     tEqual (mr_clock a) (mr_clock b)"

definition raisedHighWater :: "metadataState \<Rightarrow> gotime \<Rightarrow> metadataState" where
  "raisedHighWater st now =
     (if unixNano now > ms_highWater st then st\<lparr>ms_highWater := unixNano now\<rparr> else st)"

definition settleRows :: "string \<Rightarrow> string \<Rightarrow> int \<Rightarrow> reservation_row list \<Rightarrow> reservation_row list" where
  "settleRows scope token n =
     map (\<lambda>x. if rr_scope x = scope \<and> rr_token x = token
              then x\<lparr>rr_status := ''settled'', rr_observed := Some n\<rparr> else x)"

definition settledState :: "metadataState \<Rightarrow> int \<Rightarrow> gotime \<Rightarrow> metadataState" where
  "settledState st n now =
     raisedHighWater
       (st\<lparr>ms_daily := addObserved (ms_daily st) n, ms_total := addObserved (ms_total st) n\<rparr>) now"

text \<open>The end of both transactions that only update rows: the budget row, the update, the
  commit.\<close>

definition updateReservations :: "metadata_env \<Rightarrow> mdstore \<Rightarrow> metadataState \<Rightarrow>
    (reservation_row list \<Rightarrow> reservation_row list) \<Rightarrow> err option \<times> mdstore" where
  "updateReservations env s st f =
     (case metadataSave env (mds_db s) st of
        Inl e \<Rightarrow> (Some e, s)
      | Inr db1 \<Rightarrow>
          (case storageAt env 6 of Some e \<Rightarrow> (Some e, s)
           | None \<Rightarrow> commitMetadata env s (db1\<lparr>md_rows := f (md_rows db1)\<rparr>)))"

definition SettleMetadata :: "metadata_env \<Rightarrow> mdstore \<Rightarrow> MetadataReservation \<Rightarrow> int \<Rightarrow> gotime \<Rightarrow>
    err option \<times> mdstore" where
  "SettleMetadata env s reservation observedAttempts now0 =
     (case metadataWriter s of Some e \<Rightarrow> (Some e, s) | None \<Rightarrow>
      case metadataTime now0 of
        Inl _ \<Rightarrow> (Some ErrMetadataInvalid, s)
      | Inr (now, _) \<Rightarrow>
      if \<not> metadataReservationValid reservation \<or> observedAttempts < 0 \<or>
         observedAttempts > mr_allowance reservation
      then (Some ErrMetadataInvalid, s)
      else case storageAt env 0 of Some e \<Rightarrow> (Some e, s) | None \<Rightarrow>
      case metadataRead env (mds_db s) of Inl e \<Rightarrow> (Some e, s) | Inr st \<Rightarrow>
      case find (\<lambda>r. metadataSame r reservation) (ms_records st) of
        None \<Rightarrow> (Some ErrMetadataStale, s)
      | Some r \<Rightarrow>
          if mr_status r = ''unknown'' then (Some ErrMetadataStale, s)
          else if mr_status r = ''settled''
          then if mr_observed r = Some observedAttempts then (None, s)
               else (Some ErrMetadataStale, s)
          else updateReservations env s (settledState st observedAttempts now)
                 (settleRows (mr_scope reservation) (mr_token reservation) observedAttempts))"

definition recoverRows :: "reservation_row list \<Rightarrow> reservation_row list" where
  "recoverRows = map (\<lambda>x. if rr_status x = ''reserved'' then x\<lparr>rr_status := ''unknown''\<rparr> else x)"

fun recoverCount :: "metadataState \<Rightarrow> nat \<Rightarrow> metadataRecord list \<Rightarrow> metadataState \<times> nat" where
  "recoverCount st n [] = (st, n)"
| "recoverCount st n (r # rs) =
     (if mr_status r = ''reserved''
      then recoverCount (st\<lparr>ms_daily := addUnknown (ms_daily st) (mr_allowance r),
                            ms_total := addUnknown (ms_total st) (mr_allowance r)\<rparr>) (Suc n) rs
      else recoverCount st n rs)"

definition RecoverMetadataReservations :: "metadata_env \<Rightarrow> mdstore \<Rightarrow> gotime \<Rightarrow>
    (err + nat) \<times> mdstore" where
  "RecoverMetadataReservations env s now0 =
     (case metadataWriter s of Some e \<Rightarrow> (Inl e, s) | None \<Rightarrow>
      case metadataTime now0 of
        Inl _ \<Rightarrow> (Inl ErrMetadataInvalid, s)
      | Inr (now, _) \<Rightarrow>
      case storageAt env 0 of Some e \<Rightarrow> (Inl e, s) | None \<Rightarrow>
      case metadataRead env (mds_db s) of Inl e \<Rightarrow> (Inl e, s) | Inr st0 \<Rightarrow>
      case recoverCount st0 0 (ms_records st0) of
        (st, count) \<Rightarrow>
          if count = 0 then (Inr 0, s)
          else case updateReservations env s (raisedHighWater st now) recoverRows of
            (Some e, s1) \<Rightarrow> (Inl e, s1)
          | (None, s1) \<Rightarrow> (Inr count, s1))"

end
