(* ===== verification/Metadata_Laws.thy ===== *)
theory Metadata_Laws
  imports Metadata_Budget "HOL-Library.Multiset" Ledger_Systems
begin

text \<open>
  The laws of the metadata reservations: what the validating read accepts, in closed form over the
  integers; that each transaction keeps it; and the charges each one adds.
\<close>

section \<open>Times and days\<close>

text \<open>The last instant whose next midnight is an \<open>int64\<close> of nanoseconds is on day 106750.\<close>

lemma unixNano_exact: "i64 (t_ns t) \<Longrightarrow> unixNano t = t_ns t"
  by (simp add: unixNano_def)

lemma utcUnix_simps [simp]: "t_ns (utcUnix n) = n" "t_utc (utcUnix n)"
  by (simp_all add: utcUnix_def)

lemma utcUnix_of_utc: "t_utc t \<Longrightarrow> utcUnix (t_ns t) = t"
  by (simp add: utcUnix_def toUTC_def unixTime_def)

lemma day_bracket: "n div day_ns * day_ns \<le> n" "n < (n div day_ns + 1) * day_ns"
  for n :: int
  by presburger+

lemma metadataTime_eq:
  "metadataTime t =
     (if 0 < t_ns t \<and> t_ns t < 106751 * day_ns then Inr (toUTC t, nextMidnight t)
      else Inl ErrMetadataInvalid)"
proof -
  let ?m = "(t_ns t div day_ns + 1) * day_ns"
  have utc: "nextMidnight (toUTC t) = nextMidnight t"
    by (simp add: nextMidnight_def utcDay_def)
  have m_ns: "t_ns (nextMidnight t) = ?m"
    by (simp add: nextMidnight_def utcDay_def)
  have gt: "t_ns t < ?m"
    using day_bracket(2) [of "t_ns t"] .
  have fits: "i64 (t_ns t) \<Longrightarrow> 0 < t_ns t \<Longrightarrow> i64 ?m \<longleftrightarrow> t_ns t < 106751 * day_ns"
  proof -
    assume "i64 (t_ns t)" "0 < t_ns t"
    define q where "q = t_ns t div day_ns"
    have "q * day_ns \<le> t_ns t" "t_ns t < (q + 1) * day_ns" "0 \<le> q"
      using day_bracket [of "t_ns t"] \<open>0 < t_ns t\<close> by (simp_all add: q_def pos_imp_zdiv_nonneg_iff)
    then show "i64 ?m \<longleftrightarrow> t_ns t < 106751 * day_ns"
      unfolding i64_def q_def [symmetric] by (cases "q < 106751") auto
  qed
  have small: "t_ns t < 106751 * day_ns \<Longrightarrow> 0 < t_ns t \<Longrightarrow> i64 (t_ns t)"
    by (simp add: i64_def)
  have eq: "tEqual (unixTime (unixNano x)) x \<longleftrightarrow> i64 (t_ns x)" for x
    by (simp add: tEqual_def unixNano_def wrap64_eq_iff)
  have nano: "unixNano (toUTC t) = unixNano t" by (simp add: unixNano_def)
  have eq2: "tEqual (unixTime (unixNano t)) (toUTC t) \<longleftrightarrow> i64 (t_ns t)"
    using eq [of "toUTC t"] by (simp add: nano)
  have unf: "metadataTime t =
     (if unixNano t \<le> 0 \<or> \<not> i64 (t_ns t) then Inl ErrMetadataInvalid
      else if unixNano (nextMidnight t) \<le> unixNano t \<or> \<not> i64 ?m then Inl ErrMetadataInvalid
      else Inr (toUTC t, nextMidnight t))"
    unfolding metadataTime_def Let_def utc nano eq2 eq [of "nextMidnight t"] m_ns ..
  show ?thesis
  proof (cases "i64 (t_ns t) \<and> 0 < t_ns t")
    case True
    then have i: "i64 (t_ns t)" "0 < t_ns t" "unixNano t = t_ns t"
      by (simp_all add: unixNano_exact)
    have "i64 ?m \<Longrightarrow> unixNano (nextMidnight t) = ?m" using unixNano_exact [of "nextMidnight t"] m_ns by simp
    then show ?thesis using i gt fits [OF i(1,2)] unfolding unf by auto
  next
    case False
    then have "unixNano t \<le> 0 \<or> \<not> i64 (t_ns t)" using unixNano_exact [of t] by fastforce
    moreover have "\<not> (0 < t_ns t \<and> t_ns t < 106751 * day_ns)" using False small by blast
    ultimately show ?thesis unfolding unf by simp
  qed
qed

lemma metadataTimeD:
  assumes "metadataTime t = Inr (now, midnight)"
  shows "now = toUTC t" "midnight = nextMidnight t" "0 < t_ns t" "t_ns t < 106751 * day_ns"
    "unixNano now = t_ns t" "i64 (t_ns t)"
proof -
  show "now = toUTC t" "midnight = nextMidnight t" and r: "0 < t_ns t" "t_ns t < 106751 * day_ns"
    using assms by (auto simp: metadataTime_eq split: if_splits)
  from r show i: "i64 (t_ns t)" by (simp add: i64_def)
  show "unixNano now = t_ns t" using i \<open>now = toUTC t\<close> by (simp add: unixNano_def)
qed

lemma reservationValid_iff:
  "metadataReservationValid r \<longleftrightarrow>
     0 < t_ns (mr_started r) \<and> t_ns (mr_started r) < 106751 * day_ns \<and>
     metadataDigest (mr_token r) 64 \<and> 1 \<le> mr_allowance r \<and> mr_allowance r \<le> 65536 \<and>
     mr_day r = formatDay (mr_started r) \<and> t_ns (mr_clock r) = t_ns (mr_started r) \<and>
     t_ns (mr_started r) < t_ns (mr_expires r) \<and>
     t_ns (mr_expires r) \<le> t_ns (nextMidnight (mr_started r)) \<and>
     t_ns (mr_expires r) < 106751 * day_ns \<and>
     (mr_scope r = MetadataStartup \<and> mr_jobID r = 0 \<and> mr_jobToken r = [] \<and>
        t_ns (mr_expires r) = t_ns (nextMidnight (mr_started r)) \<or>
      mr_scope r = MetadataNext \<and> 0 < mr_jobID r \<and> metadataDigest (mr_jobToken r) 32)"
  unfolding metadataReservationValid_def metadataTime_eq
  by (auto simp: go_arith formatDay_def utcDay_def)

section \<open>What the loop over the records accepts\<close>

definition sumBy :: "('a \<Rightarrow> int) \<Rightarrow> 'a list \<Rightarrow> int" where
  "sumBy f rs = sum_list (map f rs)"

lemma sumBy_simps [simp]: "sumBy f [] = 0" "sumBy f (r # rs) = f r + sumBy f rs"
  by (simp_all add: sumBy_def)

lemma sumBy_nonneg: "(\<And>r. r \<in> set rs \<Longrightarrow> 0 \<le> f r) \<Longrightarrow> 0 \<le> sumBy f rs"
  by (induction rs) auto

lemma sumBy_mono: "(\<And>r. r \<in> set rs \<Longrightarrow> f r \<le> g r) \<Longrightarrow> sumBy f rs \<le> sumBy g rs"
  by (induction rs) (auto intro: add_mono)

lemma sumBy_zero: "(\<And>r. r \<in> set rs \<Longrightarrow> f r = 0) \<Longrightarrow> sumBy f rs = 0"
  by (induction rs) auto

lemma sumBy_mset: "mset rs = mset qs \<Longrightarrow> sumBy f rs = sumBy f qs"
  unfolding sumBy_def by (metis mset_map sum_mset_sum_list)

definition onDay :: "daytext \<Rightarrow> (metadataRecord \<Rightarrow> int) \<Rightarrow> metadataRecord \<Rightarrow> int" where
  "onDay d f r = (if mr_day r = d then f r else 0)"

definition heldOf :: "metadataRecord \<Rightarrow> int" where
  "heldOf r = (if mr_status r = ''reserved'' then mr_allowance r else 0)"

definition seenOf :: "metadataRecord \<Rightarrow> int" where
  "seenOf r = (case mr_observed r of None \<Rightarrow> 0 | Some n \<Rightarrow> n)"

definition lostOf :: "metadataRecord \<Rightarrow> int" where
  "lostOf r = (if mr_status r = ''unknown'' then mr_allowance r else 0)"

definition statusSound :: "daytext \<Rightarrow> metadataRecord \<Rightarrow> bool" where
  "statusSound d r \<longleftrightarrow>
     (mr_status r = ''reserved'' \<and> mr_observed r = None \<and> mr_day r = d) \<or>
     (mr_status r = ''settled'' \<and>
        (case mr_observed r of None \<Rightarrow> False | Some n \<Rightarrow> 0 \<le> n \<and> n \<le> mr_allowance r)) \<or>
     (mr_status r = ''unknown'' \<and> mr_observed r = None)"

definition recordSound :: "metadataState \<Rightarrow> metadataRecord \<Rightarrow> bool" where
  "recordSound st r \<longleftrightarrow>
     metadataReservationValid r \<and> ms_started st \<le> unixNano (mr_started r) \<and>
     unixNano (mr_clock r) \<le> ms_highWater st \<and> \<not> dayAfter (mr_day r) (ms_day st) \<and>
     statusSound (ms_day st) r"

definition keptCharges :: "MetadataCharges \<Rightarrow> (metadataRecord \<Rightarrow> bool) \<Rightarrow> metadataRecord list \<Rightarrow> MetadataCharges" where
  "keptCharges c P rs =
     c\<lparr>mc_reserved := mc_reserved c + sumBy mr_allowance (filter P rs),
       mc_observed := mc_observed c + sumBy seenOf (filter P rs),
       mc_unknown := mc_unknown c + sumBy lostOf (filter P rs)\<rparr>"

definition withHeld :: "MetadataCharges \<Rightarrow> int \<Rightarrow> MetadataCharges" where
  "withHeld c n = c\<lparr>mc_outstanding := mc_outstanding c + n\<rparr>"

lemma validAllowance: "metadataReservationValid r \<Longrightarrow> 1 \<le> mr_allowance r \<and> mr_allowance r \<le> 65536"
  by (simp add: reservationValid_iff)

lemma recordSound_bounds:
  assumes "recordSound st r"
  shows "1 \<le> mr_allowance r" "mr_allowance r \<le> 65536" "0 \<le> heldOf r" "0 \<le> seenOf r"
    "0 \<le> lostOf r" "heldOf r + seenOf r + lostOf r \<le> mr_allowance r"
  using assms validAllowance [of r]
  by (auto simp: recordSound_def statusSound_def heldOf_def seenOf_def lostOf_def split: option.splits)

lemma recordSound_outstanding [simp]:
  "recordSound (st\<lparr>ms_daily := a, ms_total := b\<rparr>) r = recordSound st r"
  by (simp add: recordSound_def)

lemma sound_sums:
  assumes "\<forall>r\<in>set rs. recordSound st r"
  shows "0 \<le> sumBy heldOf rs" "0 \<le> sumBy seenOf rs" "0 \<le> sumBy lostOf rs" "0 \<le> sumBy mr_allowance rs"
proof -
  have "r \<in> set rs \<Longrightarrow> 0 \<le> heldOf r \<and> 0 \<le> seenOf r \<and> 0 \<le> lostOf r \<and> 1 \<le> mr_allowance r" for r
    using assms recordSound_bounds by blast
  then show "0 \<le> sumBy heldOf rs" "0 \<le> sumBy seenOf rs" "0 \<le> sumBy lostOf rs"
    "0 \<le> sumBy mr_allowance rs"
    by (auto intro!: sumBy_nonneg dest: order_trans [of 0 1] simp: order.trans [OF zero_le_one])
qed

definition smallCharges :: "MetadataCharges \<Rightarrow> nat \<Rightarrow> bool" where
  "smallCharges c k \<longleftrightarrow>
     0 \<le> mc_reserved c \<and> mc_reserved c \<le> 65536 * int k \<and> 0 \<le> mc_observed c \<and>
     mc_observed c \<le> 65536 * int k \<and> 0 \<le> mc_unknown c \<and> mc_unknown c \<le> 65536 * int k"

lemma add64_small: "0 \<le> a \<Longrightarrow> a \<le> 65536 * int k \<Longrightarrow> k \<le> 1000 \<Longrightarrow> 0 \<le> n \<Longrightarrow> n \<le> 65536 \<Longrightarrow> add64 a n = a + n"
  by (rule add64_id) (simp add: i64_def)

lemma keptCharges_Nil [simp]: "keptCharges c P [] = c"
  by (simp add: keptCharges_def)

text \<open>The charges the loop adds for one record, exactly.\<close>

definition keptOne :: "MetadataCharges \<Rightarrow> metadataRecord \<Rightarrow> MetadataCharges" where
  "keptOne c r = c\<lparr>mc_reserved := mc_reserved c + mr_allowance r,
     mc_observed := mc_observed c + seenOf r, mc_unknown := mc_unknown c + lostOf r\<rparr>"

lemma keptCharges_Cons:
  "keptCharges c P (r # rs) = (if P r then keptCharges (keptOne c r) P rs else keptCharges c P rs)"
  by (simp add: keptCharges_def keptOne_def)

lemma smallCharges_Suc: "smallCharges c k \<Longrightarrow> smallCharges c (Suc k)"
  by (simp add: smallCharges_def)

lemma smallCharges_kept: "smallCharges c k \<Longrightarrow> recordSound st r \<Longrightarrow> smallCharges (keptOne c r) (Suc k)"
  using recordSound_bounds [of st r] by (simp add: smallCharges_def keptOne_def)

lemma keptOne_loop:
  assumes "smallCharges c k" "k \<le> 1000" "recordSound st r"
  shows "mr_status r = ''reserved'' \<Longrightarrow> addReserved c (mr_allowance r) = keptOne c r"
    "mr_status r = ''settled'' \<Longrightarrow>
       addObserved (addReserved c (mr_allowance r)) (the (mr_observed r)) = keptOne c r"
    "mr_status r = ''unknown'' \<Longrightarrow>
       addUnknown (addReserved c (mr_allowance r)) (mr_allowance r) = keptOne c r"
  using assms recordSound_bounds [OF assms(3)]
  by (auto simp: addReserved_def addObserved_def addUnknown_def keptOne_def smallCharges_def
      add64_small [of _ k] recordSound_def statusSound_def seenOf_def lostOf_def
      split: option.splits)

definition heldState :: "metadataState \<Rightarrow> int \<Rightarrow> metadataState" where
  "heldState st n = st\<lparr>ms_daily := withHeld (ms_daily st) n, ms_total := withHeld (ms_total st) n\<rparr>"

definition heldRoom :: "metadataState \<Rightarrow> bool" where
  "heldRoom st \<longleftrightarrow> 0 \<le> mc_outstanding (ms_daily st) \<and>
     mc_outstanding (ms_total st) = mc_outstanding (ms_daily st) \<and>
     mc_outstanding (ms_daily st) \<le> mc_reserved (ms_daily st) \<and> mc_reserved (ms_daily st) \<le> maxInt64"

lemma heldState_simps [simp]:
  "ms_day (heldState st n) = ms_day st" "ms_started (heldState st n) = ms_started st"
  "ms_highWater (heldState st n) = ms_highWater st" "ms_records (heldState st n) = ms_records st"
  "mc_reserved (ms_daily (heldState st n)) = mc_reserved (ms_daily st)"
  "mc_outstanding (ms_daily (heldState st n)) = mc_outstanding (ms_daily st) + n"
  "heldState (heldState st n) m = heldState st (n + m)" "heldState st 0 = st"
  "recordSound (heldState st n) r = recordSound st r"
  by (simp_all add: heldState_def withHeld_def recordSound_def add.assoc)

lemma checkRecords_refused:
  assumes "\<not> recordSound st r \<or> mr_scope r \<in> set seen"
  shows "checkRecords st seen rd rt (r # rs) = None"
  using assms by (auto simp: Let_def recordRefused_def recordSound_def statusSound_def split: option.splits)

lemma checkRecords_held:
  assumes sound: "recordSound st r" "mr_scope r \<notin> set seen" and room: "heldRoom st"
    and small: "smallCharges rd k" "smallCharges rt k" "k \<le> 1000"
  shows "checkRecords st seen rd rt (r # rs) =
     (if mc_outstanding (ms_daily st) + heldOf r \<le> mc_reserved (ms_daily st)
      then checkRecords (heldState st (heldOf r)) (mr_scope r # seen)
             (if mr_day r = ms_day st then keptOne rd r else rd) (keptOne rt r) rs
      else None)"
proof -
  have ok: "\<not> recordRefused st seen r" using sound by (auto simp: recordSound_def recordRefused_def)
  have st: "statusSound (ms_day st) r" using sound(1) by (simp add: recordSound_def)
  note kept = keptOne_loop [OF small(1) small(3) sound(1)] keptOne_loop [OF small(2) small(3) sound(1)]
  note bounds = recordSound_bounds [OF sound(1)]
  have head: "sub64 (mc_reserved (ms_daily st)) (mc_outstanding (ms_daily st)) =
      mc_reserved (ms_daily st) - mc_outstanding (ms_daily st)"
    using room by (simp add: heldRoom_def i64_def)
  consider "mr_status r = ''reserved''" | "mr_status r = ''settled''" | "mr_status r = ''unknown''"
    using st by (auto simp: statusSound_def)
  then show ?thesis
  proof cases
    case 1
    then have h: "heldOf r = mr_allowance r" "mr_observed r = None" "mr_day r = ms_day st"
      using st by (auto simp: heldOf_def statusSound_def)
    have add: "addOutstanding (ms_daily st) (mr_allowance r) = withHeld (ms_daily st) (mr_allowance r)"
      "addOutstanding (ms_total st) (mr_allowance r) = withHeld (ms_total st) (mr_allowance r)"
      if "mc_outstanding (ms_daily st) + mr_allowance r \<le> mc_reserved (ms_daily st)"
      using that room bounds
      by (simp_all add: addOutstanding_def withHeld_def heldRoom_def add64_def i64_def)
    show ?thesis
      using 1 h kept add ok by (auto simp: Let_def head heldState_def)
  next
    case 2
    then obtain n where n: "mr_observed r = Some n" "0 \<le> n" "n \<le> mr_allowance r" "heldOf r = 0"
      using st by (auto simp: heldOf_def statusSound_def split: option.splits)
    then show ?thesis
      using 2 kept ok room by (auto simp: Let_def heldRoom_def)
  next
    case 3
    then have n: "mr_observed r = None" "heldOf r = 0"
      using st by (auto simp: heldOf_def statusSound_def)
    then show ?thesis
      using 3 kept ok room by (auto simp: Let_def heldRoom_def)
  qed
qed

lemma checkRecords_eq:
  assumes "heldRoom st" "smallCharges rd k" "smallCharges rt k" "k + length rs \<le> 1000"
  shows "checkRecords st seen rd rt rs =
     (if (\<forall>r\<in>set rs. recordSound st r) \<and> distinct (map mr_scope rs) \<and>
         set (map mr_scope rs) \<inter> set seen = {} \<and>
         mc_outstanding (ms_daily st) + sumBy heldOf rs \<le> mc_reserved (ms_daily st)
      then Some (heldState st (sumBy heldOf rs), keptCharges rd (\<lambda>r. mr_day r = ms_day st) rs,
                 keptCharges rt (\<lambda>_. True) rs)
      else None)"
  using assms
proof (induction rs arbitrary: st seen rd rt k)
  case Nil
  then show ?case by (simp add: heldRoom_def)
next
  case (Cons r rs)
  show ?case
  proof (cases "recordSound st r \<and> mr_scope r \<notin> set seen")
    case False
    then show ?thesis using checkRecords_refused by auto
  next
    case True
    then have sound: "recordSound st r" "mr_scope r \<notin> set seen" by auto
    let ?st = "heldState st (heldOf r)"
    let ?rd = "if mr_day r = ms_day st then keptOne rd r else rd"
    note step = checkRecords_held [OF sound Cons.prems(1,2,3)]
    have k: "k \<le> 1000" "Suc k + length rs \<le> 1000" using Cons.prems(4) by simp_all
    have small: "smallCharges ?rd (Suc k)" "smallCharges (keptOne rt r) (Suc k)"
      using Cons.prems(2,3) sound(1) by (auto intro: smallCharges_Suc smallCharges_kept)
    show ?thesis
    proof (cases "mc_outstanding (ms_daily st) + heldOf r \<le> mc_reserved (ms_daily st)")
      case True
      have room: "heldRoom ?st"
        using Cons.prems(1) True recordSound_bounds(3) [OF sound(1)]
        by (simp add: heldRoom_def) (simp add: heldState_def withHeld_def)
      show ?thesis
        unfolding step [OF k(1)] if_P [OF True] Cons.IH [OF room small k(2)]
        using sound by (auto simp: keptCharges_Cons add.assoc)
    next
      case False
      have "\<not> mc_outstanding (ms_daily st) + sumBy heldOf (r # rs) \<le> mc_reserved (ms_daily st)"
        if "\<forall>q\<in>set (r # rs). recordSound st q"
        using False sound_sums(1) [of rs st] that by auto
      then show ?thesis unfolding step [OF k(1)] if_not_P [OF False] by auto
    qed
  qed
qed

section \<open>What a read accepts\<close>

definition fullCharges :: "MetadataCharges \<Rightarrow> int \<Rightarrow> MetadataCharges" where
  "fullCharges c h = c\<lparr>mc_outstanding := h,
     mc_unused := mc_reserved c - mc_observed c - mc_unknown c - h\<rparr>"

definition chargesSound :: "MetadataCharges \<Rightarrow> int \<Rightarrow> bool" where
  "chargesSound c h \<longleftrightarrow> 0 \<le> mc_observed c \<and> 0 \<le> mc_unknown c \<and> 0 \<le> h \<and>
     mc_observed c + mc_unknown c + h \<le> mc_reserved c \<and> mc_reserved c \<le> maxInt64"

definition chargesBelow :: "MetadataCharges \<Rightarrow> MetadataCharges \<Rightarrow> bool" where
  "chargesBelow c d \<longleftrightarrow> mc_reserved c \<le> mc_reserved d \<and> mc_observed c \<le> mc_observed d \<and>
     mc_unknown c \<le> mc_unknown d"

abbreviation heldSum :: "metadataState \<Rightarrow> int" where "heldSum st \<equiv> sumBy heldOf (ms_records st)"

definition mdSound :: "metadataState \<Rightarrow> bool" where
  "mdSound st \<longleftrightarrow>
     \<not> headerRefused st \<and> ms_highWater st \<le> maxInt64 \<and>
     chargesSound (ms_daily st) (heldSum st) \<and> chargesSound (ms_total st) (heldSum st) \<and>
     chargesBelow (ms_daily st) (ms_total st) \<and>
     mc_reserved (ms_daily st) - mc_observed (ms_daily st) - mc_unknown (ms_daily st)
       \<le> mc_reserved (ms_total st) - mc_observed (ms_total st) - mc_unknown (ms_total st) \<and>
     (\<forall>r\<in>set (ms_records st). recordSound st r) \<and> distinct (map mr_scope (ms_records st)) \<and>
     chargesBelow (keptCharges noCharges (\<lambda>r. mr_day r = ms_day st) (ms_records st)) (ms_daily st) \<and>
     chargesBelow (keptCharges noCharges (\<lambda>_. True) (ms_records st)) (ms_total st)"

definition accounted :: "metadataState \<Rightarrow> metadataState" where
  "accounted st = st\<lparr>ms_daily := fullCharges (ms_daily st) (heldSum st),
     ms_total := fullCharges (ms_total st) (heldSum st)\<rparr>"

definition rawState :: "metadataState \<Rightarrow> bool" where
  "rawState st \<longleftrightarrow> mc_outstanding (ms_daily st) = 0 \<and> mc_outstanding (ms_total st) = 0 \<and>
     i64 (mc_reserved (ms_daily st)) \<and> i64 (mc_observed (ms_daily st)) \<and>
     i64 (mc_unknown (ms_daily st)) \<and> i64 (mc_reserved (ms_total st)) \<and>
     i64 (mc_observed (ms_total st)) \<and> i64 (mc_unknown (ms_total st)) \<and> i64 (ms_highWater st)"

lemma chargesValid_eq:
  assumes "i64 (mc_reserved c)" "i64 (mc_observed c)" "i64 (mc_unknown c)"
  shows "metadataChargesValid c \<longleftrightarrow> chargesSound c (mc_outstanding c)"
proof (cases "0 \<le> mc_reserved c \<and> 0 \<le> mc_observed c \<and> mc_observed c \<le> mc_reserved c \<and> 0 \<le> mc_unknown c")
  case True
  then have a: "sub64 (mc_reserved c) (mc_observed c) = mc_reserved c - mc_observed c"
    and b: "sub64 (mc_reserved c - mc_observed c) (mc_unknown c) =
        mc_reserved c - mc_observed c - mc_unknown c"
    using assms by (simp_all add: sub64_def i64_def)
  show ?thesis
    using True assms(1) unfolding metadataChargesValid_def chargesSound_def a b i64_def by auto
next
  case False
  then show ?thesis by (auto simp: metadataChargesValid_def chargesSound_def)
qed

lemma withUnused_eq:
  assumes "chargesSound c (mc_outstanding c)"
  shows "withUnused c = fullCharges c (mc_outstanding c)"
proof -
  have "sub64 (mc_reserved c) (mc_observed c) = mc_reserved c - mc_observed c"
    "sub64 (mc_reserved c - mc_observed c) (mc_unknown c) = mc_reserved c - mc_observed c - mc_unknown c"
    "sub64 (mc_reserved c - mc_observed c - mc_unknown c) (mc_outstanding c) =
       mc_reserved c - mc_observed c - mc_unknown c - mc_outstanding c"
    using assms by (simp_all add: chargesSound_def sub64_def i64_def)
  then show ?thesis by (simp add: withUnused_def fullCharges_def)
qed

lemma heldState_charges:
  assumes "rawState st"
  shows "ms_daily (heldState st h) = (ms_daily st)\<lparr>mc_outstanding := h\<rparr>"
    "ms_total (heldState st h) = (ms_total st)\<lparr>mc_outstanding := h\<rparr>"
  using assms by (simp_all add: rawState_def heldState_def withHeld_def)

lemma heldState_over:
  "(heldState st h)\<lparr>ms_daily := a, ms_total := b\<rparr> = st\<lparr>ms_daily := a, ms_total := b\<rparr>"
  by (simp add: heldState_def)

lemma chargesSound_update [simp]:
  "chargesSound (c\<lparr>mc_outstanding := h\<rparr>) k = chargesSound c k"
  "chargesBelow a (c\<lparr>mc_outstanding := h\<rparr>) = chargesBelow a c"
  by (simp_all add: chargesSound_def chargesBelow_def)

lemma retainedExceeds_eq: "retainedExceeds a c \<longleftrightarrow> \<not> chargesBelow a c"
  by (auto simp: retainedExceeds_def chargesBelow_def)

lemma checkRecords_raw:
  assumes raw: "rawState st" and valid: "metadataChargesValid (ms_daily st)"
    and len: "length (ms_records st) \<le> 2"
  shows "checkRecords st [] noCharges noCharges (ms_records st) =
     (if (\<forall>r\<in>set (ms_records st). recordSound st r) \<and> distinct (map mr_scope (ms_records st)) \<and>
         heldSum st \<le> mc_reserved (ms_daily st)
      then Some (heldState st (heldSum st),
                 keptCharges noCharges (\<lambda>r. mr_day r = ms_day st) (ms_records st),
                 keptCharges noCharges (\<lambda>_. True) (ms_records st))
      else None)"
proof -
  have "heldRoom st" using raw valid by (simp add: heldRoom_def rawState_def i64_def metadataChargesValid_def)
  moreover have "smallCharges noCharges 0" by (simp add: smallCharges_def noCharges_def)
  ultimately show ?thesis
    using checkRecords_eq [of st noCharges 0 noCharges "ms_records st" "[]"] len raw
    by (simp add: rawState_def)
qed

lemma mdSound_raw:
  assumes "mdSound st"
  shows "\<not> headerRefused st" "chargesSound (ms_daily st) 0" "chargesSound (ms_total st) 0"
    "\<not> chargesRefused (ms_daily st) (ms_total st) \<or> \<not> rawState st"
proof -
  show "\<not> headerRefused st" "chargesSound (ms_daily st) 0" "chargesSound (ms_total st) 0"
    using assms by (auto simp: mdSound_def chargesSound_def)
  then show "\<not> chargesRefused (ms_daily st) (ms_total st) \<or> \<not> rawState st"
    using assms chargesValid_eq [of "ms_daily st"] chargesValid_eq [of "ms_total st"]
    by (auto simp: chargesRefused_def rawState_def mdSound_def chargesBelow_def)
qed

theorem metadataCheck_eq:
  assumes present: "ms_present st" and raw: "rawState st"
  shows "metadataCheck st = (if mdSound st then Inr (accounted st) else Inl ErrMetadataCorrupt)"
proof (cases "headerRefused st \<or> chargesRefused (ms_daily st) (ms_total st)")
  case True
  then have "\<not> mdSound st" using mdSound_raw raw by blast
  then show ?thesis using True present by (simp add: metadataCheck_def)
next
  case False
  then have hdr: "\<not> headerRefused st" and chg: "\<not> chargesRefused (ms_daily st) (ms_total st)" by auto
  have len: "length (ms_records st) \<le> 2" using hdr by (simp add: headerRefused_def)
  have hw: "ms_highWater st \<le> maxInt64" using raw by (simp add: rawState_def i64_def)
  have vd: "metadataChargesValid (ms_daily st)" using chg by (simp add: chargesRefused_def)
  have below: "chargesBelow (ms_daily st) (ms_total st)"
    using chg by (simp add: chargesRefused_def chargesBelow_def)
  note loop = checkRecords_raw [OF raw vd len]
  let ?h = "heldSum st"
  let ?d = "(ms_daily st)\<lparr>mc_outstanding := ?h\<rparr>" and ?t = "(ms_total st)\<lparr>mc_outstanding := ?h\<rparr>"
  have validity: "metadataChargesValid ?d \<longleftrightarrow> chargesSound (ms_daily st) ?h"
    "metadataChargesValid ?t \<longleftrightarrow> chargesSound (ms_total st) ?h"
    using raw chargesValid_eq [of ?d] chargesValid_eq [of ?t] by (simp_all add: rawState_def)
  have unused: "withUnused ?d = fullCharges (ms_daily st) ?h" if "chargesSound (ms_daily st) ?h"
    using withUnused_eq [of ?d] that by (simp add: fullCharges_def)
  have unused': "withUnused ?t = fullCharges (ms_total st) ?h" if "chargesSound (ms_total st) ?h"
    using withUnused_eq [of ?t] that by (simp add: fullCharges_def)
  have over: "\<not> chargesSound (ms_daily st) ?h" if "\<not> ?h \<le> mc_reserved (ms_daily st)"
    using that by (auto simp: chargesSound_def)
  show ?thesis
    using present hdr chg hw below over
    by (auto simp: metadataCheck_def loop heldState_charges [OF raw] validity unused unused'
        retainedExceeds_eq mdSound_def Let_def accounted_def fullCharges_def heldState_over)
qed

section \<open>Soundness is kept by the changes the transactions make\<close>

lemma sumBy_filter: "sumBy f (filter P rs) = sumBy (\<lambda>r. if P r then f r else 0) rs"
  by (induction rs) auto

lemma sumBy_split: "sumBy f rs = sumBy f (filter P rs) + sumBy f (filter (\<lambda>r. \<not> P r) rs)"
  by (induction rs) auto

text \<open>A record takes the place of the record of its scope, if there is one.\<close>

definition replaces :: "metadataRecord \<Rightarrow> metadataRecord list \<Rightarrow> metadataRecord list \<Rightarrow> bool" where
  "replaces r rs rs' \<longleftrightarrow>
     mset rs' = add_mset r (mset (filter (\<lambda>x. mr_scope x \<noteq> mr_scope r) rs))"

lemma replaces_sum:
  assumes "replaces r rs rs'"
  shows "sumBy f rs' = sumBy f rs - sumBy f (filter (\<lambda>x. mr_scope x = mr_scope r) rs) + f r"
proof -
  have "sumBy f rs' = sumBy f (r # filter (\<lambda>x. mr_scope x \<noteq> mr_scope r) rs)"
    using assms by (intro sumBy_mset) (simp add: replaces_def)
  also have "\<dots> = f r + sumBy f (filter (\<lambda>x. mr_scope x \<noteq> mr_scope r) rs)" by simp
  finally show ?thesis
    using sumBy_split [of f rs "\<lambda>x. mr_scope x = mr_scope r"] by simp
qed

lemma replaces_set:
  "replaces r rs rs' \<Longrightarrow> set rs' = insert r {x \<in> set rs. mr_scope x \<noteq> mr_scope r}"
  unfolding replaces_def by (drule arg_cong [of _ _ set_mset]) auto

lemma replaces_distinct:
  assumes "replaces r rs rs'" "distinct (map mr_scope rs)"
  shows "distinct (map mr_scope rs')"
proof -
  have "mset (map mr_scope rs') = mset (map mr_scope (r # filter (\<lambda>x. mr_scope x \<noteq> mr_scope r) rs))"
    using assms(1) by (simp add: replaces_def)
  then have "distinct (map mr_scope rs') =
      distinct (map mr_scope (r # filter (\<lambda>x. mr_scope x \<noteq> mr_scope r) rs))"
    by (rule mset_eq_imp_distinct_iff)
  also have "\<dots>" using assms(2) by (auto simp: distinct_map_filter)
  finally show ?thesis .
qed

lemma replaces_same_scope:
  assumes "distinct (map mr_scope rs)" "r \<in> set rs" "mr_scope r' = mr_scope r"
  shows "sumBy f (filter (\<lambda>x. mr_scope x = mr_scope r') rs) = f r"
proof -
  have "filter (\<lambda>x. mr_scope x = mr_scope r') rs = [r]"
    using assms by (induction rs) (auto simp: filter_empty_conv image_iff)
  then show ?thesis by simp
qed

lemma validScope: "metadataReservationValid r \<Longrightarrow> mr_scope r \<in> {MetadataStartup, MetadataNext}"
  by (auto simp: reservationValid_iff)

lemma two_scopes:
  assumes "distinct (map mr_scope rs)" "\<forall>r\<in>set rs. metadataReservationValid r"
  shows "length rs \<le> 2"
proof -
  have "set (map mr_scope rs) \<subseteq> {MetadataStartup, MetadataNext}" using assms(2) validScope by auto
  then have "card (set (map mr_scope rs)) \<le> card {MetadataStartup, MetadataNext}"
    by (intro card_mono) auto
  then show ?thesis using distinct_card [OF assms(1)] by simp
qed

lemma noCharges_simps [simp]:
  "mc_reserved noCharges = 0" "mc_observed noCharges = 0" "mc_unknown noCharges = 0"
  "mc_outstanding noCharges = 0" "mc_unused noCharges = 0"
  by (simp_all add: noCharges_def)

lemma keptCharges_simps [simp]:
  "mc_reserved (keptCharges noCharges P rs) = sumBy (\<lambda>r. if P r then mr_allowance r else 0) rs"
  "mc_observed (keptCharges noCharges P rs) = sumBy (\<lambda>r. if P r then seenOf r else 0) rs"
  "mc_unknown (keptCharges noCharges P rs) = sumBy (\<lambda>r. if P r then lostOf r else 0) rs"
  by (simp_all add: keptCharges_def noCharges_def sumBy_filter)

text \<open>The budget row carries only the sums that are stored; the soundness of a state depends on
  nothing else of its charges.\<close>

lemma mdSound_saved:
  "mdSound (loadedState (Some (savedRow st)) rs) \<longleftrightarrow> mdSound (st\<lparr>ms_records := rs\<rparr>)"
  by (simp add: mdSound_def headerRefused_def recordSound_def chargesSound_def chargesBelow_def
      loadedState_def savedRow_def rowCharges_def noCharges_def)

lemma day_mono: "m \<le> n \<Longrightarrow> m div day_ns \<le> n div day_ns" for m n :: int
  by (rule zdiv_mono1) simp_all

lemma mdSound_raise:
  assumes "mdSound st" "ms_highWater st \<le> n" "n \<le> maxInt64"
  shows "mdSound (st\<lparr>ms_highWater := n\<rparr>)"
proof (cases "ms_day st")
  case (DayOf d)
  then have "\<not> headerRefused (st\<lparr>ms_highWater := n\<rparr>)"
    using assms day_mono [OF assms(2)]
    by (auto simp: mdSound_def headerRefused_def formatDay_def utcDay_def)
  then show ?thesis using assms by (auto simp: mdSound_def recordSound_def)
next
  case (DayText t)
  then show ?thesis using assms(1) by (simp add: mdSound_def headerRefused_def)
qed

text \<open>An empty ledger that starts at a charged instant, and a ledger that moves to a later day with
  nothing outstanding.\<close>

lemma mdSound_start:
  assumes "0 < n" "n \<le> maxInt64" "ms_records st = []" "ms_daily st = noCharges" "ms_total st = noCharges"
  shows "mdSound (st\<lparr>ms_started := n, ms_day := DayOf (n div day_ns), ms_highWater := n\<rparr>)"
  using assms
  by (simp add: mdSound_def headerRefused_def chargesSound_def chargesBelow_def noCharges_def
      formatDay_def utcDay_def keptCharges_def)

lemma notHeld: "(\<And>r. r \<in> set rs \<Longrightarrow> mr_status r \<noteq> ''reserved'') \<Longrightarrow> sumBy heldOf rs = 0"
  by (rule sumBy_zero) (simp add: heldOf_def)

lemma mdSound_nextDay:
  assumes sound: "mdSound st" and later: "dayAfter (DayOf d) (ms_day st)"
    and hw: "ms_highWater st \<le> n" "n \<le> maxInt64" "d \<le> n div day_ns"
    and idle: "\<And>r. r \<in> set (ms_records st) \<Longrightarrow> mr_status r \<noteq> ''reserved''"
  shows "mdSound (st\<lparr>ms_day := DayOf d, ms_daily := noCharges, ms_highWater := n\<rparr>)"
proof -
  obtain d0 where d0: "ms_day st = DayOf d0" "d0 < d" using later by (cases "ms_day st") auto
  have held: "heldSum st = 0" using idle by (rule notHeld)
  let ?s = "st\<lparr>ms_day := DayOf d, ms_daily := noCharges, ms_highWater := n\<rparr>"
  have hdr: "\<not> headerRefused ?s"
    using sound hw d0 by (auto simp: mdSound_def headerRefused_def formatDay_def utcDay_def)
  have recs: "recordSound ?s r" "mr_day r \<noteq> DayOf d" if "r \<in> set (ms_records st)" for r
  proof -
    have r: "recordSound st r" using sound that by (simp add: mdSound_def)
    show "recordSound ?s r"
      using r d0 hw idle [OF that]
      by (cases "mr_day r") (auto simp: recordSound_def statusSound_def)
    show "mr_day r \<noteq> DayOf d" using r d0 by (auto simp: recordSound_def)
  qed
  have none: "sumBy (\<lambda>r. if mr_day r = DayOf d then f r else 0) (ms_records st) = 0" for f
    using recs(2) by (simp add: sumBy_zero)
  show ?thesis
    using sound hdr recs(1) hw
    by (simp add: mdSound_def held none)
       (auto simp: chargesSound_def chargesBelow_def none)
qed

lemma sound_old_sums:
  assumes "mdSound st"
  shows "0 \<le> sumBy (\<lambda>r. if P r then mr_allowance r else 0) (filter Q (ms_records st))"
    "0 \<le> sumBy (\<lambda>r. if P r then seenOf r else 0) (filter Q (ms_records st))"
    "0 \<le> sumBy (\<lambda>r. if P r then lostOf r else 0) (filter Q (ms_records st))"
proof -
  have "0 \<le> mr_allowance r \<and> 0 \<le> seenOf r \<and> 0 \<le> lostOf r" if "r \<in> set (filter Q (ms_records st))" for r
    using that assms recordSound_bounds [of st r] by (force simp: mdSound_def)
  then show "0 \<le> sumBy (\<lambda>r. if P r then mr_allowance r else 0) (filter Q (ms_records st))"
    "0 \<le> sumBy (\<lambda>r. if P r then seenOf r else 0) (filter Q (ms_records st))"
    "0 \<le> sumBy (\<lambda>r. if P r then lostOf r else 0) (filter Q (ms_records st))"
    by (auto intro!: sumBy_nonneg)
qed

lemma recordSound_frame:
  "recordSound (st\<lparr>ms_daily := a, ms_total := b, ms_records := rs\<rparr>) r = recordSound st r"
  by (simp add: recordSound_def)

lemma replaced_records:
  assumes "mdSound st" "recordSound st r" "replaces r (ms_records st) rs"
  shows "\<forall>x\<in>set rs. recordSound st x" "distinct (map mr_scope rs)" "length rs \<le> 2"
proof -
  show s: "\<forall>x\<in>set rs. recordSound st x"
    using assms replaces_set [OF assms(3)] by (auto simp: mdSound_def)
  show d: "distinct (map mr_scope rs)"
    using assms replaces_distinct by (auto simp: mdSound_def)
  show "length rs \<le> 2" using s d by (intro two_scopes) (auto simp: recordSound_def)
qed

lemma headerRefused_frame:
  "length rs \<le> 2 \<Longrightarrow> \<not> headerRefused st \<Longrightarrow>
   \<not> headerRefused (st\<lparr>ms_daily := a, ms_total := b, ms_records := rs\<rparr>)"
  by (simp add: headerRefused_def)

lemma chargesSound_add:
  assumes "chargesSound c h" "0 \<le> n" "n \<le> h"
  shows "add64 (mc_observed c) n = mc_observed c + n" "add64 (mc_unknown c) n = mc_unknown c + n"
  using assms by (simp_all add: chargesSound_def add64_def i64_def)

text \<open>A new reservation of a scope with nothing outstanding.\<close>

lemma mdSound_charge:
  assumes sound: "mdSound st" and rec: "recordSound st r" "mr_status r = ''reserved''"
    and repl: "replaces r (ms_records st) rs"
    and free: "\<And>x. x \<in> set (ms_records st) \<Longrightarrow> mr_scope x = mr_scope r \<Longrightarrow> mr_status x \<noteq> ''reserved''"
    and room: "mr_allowance r \<le> maxInt64 - mc_reserved (ms_total st)"
  shows "mdSound (st\<lparr>ms_daily := addReserved (ms_daily st) (mr_allowance r),
      ms_total := addReserved (ms_total st) (mr_allowance r), ms_records := rs\<rparr>)"
proof -
  note sums = replaces_sum [OF repl]
  note old = sound_old_sums [OF sound, where Q = "\<lambda>x. mr_scope x = mr_scope r"]
  have held0: "sumBy heldOf (filter (\<lambda>x. mr_scope x = mr_scope r) (ms_records st)) = 0"
    using free by (intro notHeld) auto
  have one: "seenOf r = 0" "lostOf r = 0" "heldOf r = mr_allowance r" "mr_day r = ms_day st"
    using rec by (auto simp: recordSound_def statusSound_def seenOf_def lostOf_def heldOf_def)
  note a = recordSound_bounds(1,2) [OF rec(1)]
  have res: "0 \<le> mc_reserved (ms_daily st)" "0 \<le> mc_reserved (ms_total st)"
    "mc_reserved (ms_daily st) \<le> mc_reserved (ms_total st)"
    using sound by (auto simp: mdSound_def chargesSound_def chargesBelow_def)
  have add: "add64 (mc_reserved (ms_daily st)) (mr_allowance r) = mc_reserved (ms_daily st) + mr_allowance r"
    "add64 (mc_reserved (ms_total st)) (mr_allowance r) = mc_reserved (ms_total st) + mr_allowance r"
    using res room a by (simp_all add: add64_def i64_def)
  show ?thesis
    using sound replaced_records [OF sound rec(1) repl] a room res one
      old [of "\<lambda>x. mr_day x = ms_day st"] old [of "\<lambda>_. True"]
    by (simp add: mdSound_def headerRefused_frame recordSound_frame chargesSound_def chargesBelow_def
        addReserved_def add sums held0)
qed

text \<open>A reserved record is settled with what was observed of it.\<close>

lemma mdSound_settle:
  assumes sound: "mdSound st" and r: "r \<in> set (ms_records st)" "mr_status r = ''reserved''"
    and n: "0 \<le> n" "n \<le> mr_allowance r"
    and repl: "replaces (r\<lparr>mr_status := ''settled'', mr_observed := Some n\<rparr>) (ms_records st) rs"
  shows "mdSound (st\<lparr>ms_daily := addObserved (ms_daily st) n, ms_total := addObserved (ms_total st) n,
      ms_records := rs\<rparr>)"
proof -
  let ?r = "r\<lparr>mr_status := ''settled'', mr_observed := Some n\<rparr>"
  have rs: "recordSound st r" and dist: "distinct (map mr_scope (ms_records st))"
    using sound r(1) by (auto simp: mdSound_def)
  have valid: "metadataReservationValid ?r = metadataReservationValid r"
    by (simp add: reservationValid_iff)
  have rec: "recordSound st ?r"
    using rs n unfolding recordSound_def valid by (simp add: statusSound_def)
  have old: "sumBy f (filter (\<lambda>x. mr_scope x = mr_scope ?r) (ms_records st)) = f r" for f
    using replaces_same_scope [OF dist r(1), of ?r] by simp
  have one: "seenOf r = 0" "lostOf r = 0" "heldOf r = mr_allowance r" "mr_day r = ms_day st"
    using rs r(2) by (auto simp: recordSound_def statusSound_def seenOf_def lostOf_def heldOf_def)
  have new: "seenOf ?r = n" "lostOf ?r = 0" "heldOf ?r = 0" "mr_day ?r = ms_day st"
    using one by (auto simp: seenOf_def lostOf_def heldOf_def)
  note sums = replaces_sum [OF repl, unfolded old]
  have "mr_allowance r \<le> heldSum st"
  proof -
    have "heldSum st = heldOf r + sumBy heldOf (filter (\<lambda>x. mr_scope x \<noteq> mr_scope r) (ms_records st))"
      using old [of heldOf] sumBy_split [of heldOf "ms_records st" "\<lambda>x. mr_scope x = mr_scope r"] by simp
    moreover have "0 \<le> sumBy heldOf (filter (\<lambda>x. mr_scope x \<noteq> mr_scope r) (ms_records st))"
      using sound by (intro sound_sums(1) [of _ st]) (auto simp: mdSound_def)
    ultimately show ?thesis using one by simp
  qed
  then have add: "add64 (mc_observed (ms_daily st)) n = mc_observed (ms_daily st) + n"
    "add64 (mc_observed (ms_total st)) n = mc_observed (ms_total st) + n"
    using sound n by (auto simp: mdSound_def intro!: chargesSound_add)
  show ?thesis
    using sound replaced_records [OF sound rec repl] \<open>mr_allowance r \<le> heldSum st\<close> n one new
    by (simp add: mdSound_def headerRefused_frame recordSound_frame chargesSound_def chargesBelow_def
        addObserved_def add sums)
qed

text \<open>Every outstanding reservation becomes an unknown charge.\<close>

definition lostRecord :: "metadataRecord \<Rightarrow> metadataRecord" where
  "lostRecord r = (if mr_status r = ''reserved'' then r\<lparr>mr_status := ''unknown''\<rparr> else r)"

lemma lostRecord_simps [simp]:
  "mr_scope (lostRecord r) = mr_scope r" "mr_allowance (lostRecord r) = mr_allowance r"
  "mr_day (lostRecord r) = mr_day r" "seenOf (lostRecord r) = seenOf r" "heldOf (lostRecord r) = 0"
  "lostOf (lostRecord r) = lostOf r + heldOf r"
  by (auto simp: lostRecord_def seenOf_def heldOf_def lostOf_def)

lemma recordSound_lost: "recordSound st r \<Longrightarrow> recordSound st (lostRecord r)"
  by (auto simp: recordSound_def lostRecord_def statusSound_def reservationValid_iff)

lemma sumBy_map: "sumBy f (map g rs) = sumBy (\<lambda>r. f (g r)) rs"
  by (simp add: sumBy_def o_def)

lemma sumBy_add: "sumBy (\<lambda>r. f r + g r) rs = sumBy f rs + sumBy g rs"
  by (induction rs) auto

lemma sumBy_cong: "(\<And>r. r \<in> set rs \<Longrightarrow> f r = g r) \<Longrightarrow> sumBy f rs = sumBy g rs"
  by (induction rs) auto

lemma held_today:
  assumes "mdSound st" "r \<in> set (ms_records st)" "mr_day r \<noteq> ms_day st"
  shows "heldOf r = 0"
  using assms by (auto simp: mdSound_def recordSound_def statusSound_def heldOf_def)

lemma mdSound_recover:
  assumes sound: "mdSound st" and n: "n = heldSum st"
  shows "mdSound (st\<lparr>ms_daily := addUnknown (ms_daily st) n, ms_total := addUnknown (ms_total st) n,
      ms_records := map lostRecord (ms_records st)\<rparr>)"
proof -
  have add: "add64 (mc_unknown (ms_daily st)) n = mc_unknown (ms_daily st) + n"
    "add64 (mc_unknown (ms_total st)) n = mc_unknown (ms_total st) + n"
    using sound n by (auto simp: mdSound_def chargesSound_def intro!: chargesSound_add)
  have recs: "\<forall>r\<in>set (map lostRecord (ms_records st)). recordSound st r"
    using sound by (auto simp: mdSound_def intro: recordSound_lost)
  have scopes: "map mr_scope (map lostRecord (ms_records st)) = map mr_scope (ms_records st)" by simp
  have len: "length (map lostRecord (ms_records st)) \<le> 2"
    using sound by (simp add: mdSound_def headerRefused_def)
  have lost: "sumBy (\<lambda>r. lostOf r + heldOf r) (ms_records st) = sumBy lostOf (ms_records st) + n"
    by (simp add: sumBy_add n)
  have "sumBy (\<lambda>r. if mr_day r = ms_day st then lostOf r + heldOf r else 0) (ms_records st) =
      sumBy (\<lambda>r. (if mr_day r = ms_day st then lostOf r else 0) + heldOf r) (ms_records st)"
    using held_today [OF sound] by (intro sumBy_cong) auto
  then have lostToday: "sumBy (\<lambda>r. if mr_day r = ms_day st then lostOf r + heldOf r else 0) (ms_records st) =
      sumBy (\<lambda>r. if mr_day r = ms_day st then lostOf r else 0) (ms_records st) + n"
    by (simp add: sumBy_add n)
  have none: "sumBy (\<lambda>r. 0) (ms_records st) = 0" by (rule sumBy_zero) simp
  have hdr: "\<not> headerRefused (st\<lparr>ms_daily := addUnknown (ms_daily st) n,
      ms_total := addUnknown (ms_total st) n, ms_records := map lostRecord (ms_records st)\<rparr>)"
    using sound len by (intro headerRefused_frame) (auto simp: mdSound_def)
  show ?thesis
    using sound recs hdr
    unfolding mdSound_def recordSound_frame n [symmetric]
    by (simp add: sumBy_map lost lostToday none chargesSound_def chargesBelow_def addUnknown_def add
        o_def cong: if_cong)
qed

end
