(* ===== verification/Metadata_Store_Laws.thy ===== *)
theory Metadata_Store_Laws
  imports Metadata_Laws
begin

text \<open>
  The transactions of the metadata reservations on the database: what a read returns, that every
  transaction keeps the ledger readable and what it does to the charges, and the interpretation of
  the ledger contracts on the step relation of a store with its clients.
\<close>

section \<open>Reading\<close>

definition dbState :: "mddb \<Rightarrow> metadataState" where
  "dbState db = loadedState (md_budget db) (map rowRecord (md_rows db))"

text \<open>SQLite keeps integer columns in 64 bits.\<close>

definition db64 :: "mddb \<Rightarrow> bool" where
  "db64 db \<longleftrightarrow> (case md_budget db of
       None \<Rightarrow> True
     | Some b \<Rightarrow> list_all i64 [br_started b, br_maxNow b, br_reserved b, br_observed b, br_unknown b,
                              br_totalReserved b, br_totalObserved b, br_totalUnknown b])"

definition dbTyped :: "mddb \<Rightarrow> bool" where
  "dbTyped db \<longleftrightarrow> (case md_budget db of None \<Rightarrow> True | Some b \<Rightarrow> br_typed b) \<and> list_all rr_typed (md_rows db)"

definition mdInv :: "mddb \<Rightarrow> bool" where
  "mdInv db \<longleftrightarrow> dbTyped db \<and>
     (case md_budget db of None \<Rightarrow> md_rows db = [] | Some _ \<Rightarrow> mdSound (dbState db))"

definition dbView :: "mddb \<Rightarrow> metadataState" where
  "dbView db = (case md_budget db of None \<Rightarrow> dbState db | Some _ \<Rightarrow> accounted (dbState db))"

definition quietEnv :: "metadata_env \<Rightarrow> bool" where
  "quietEnv env \<longleftrightarrow> (\<forall>k. me_err env k = None)"

lemma storageAt_None: "storageAt env k = None \<longleftrightarrow> me_err env k = None"
  by (simp add: storageAt_def metadataStorageError_def split: option.splits)

lemma storageAt_quiet [simp]: "quietEnv env \<Longrightarrow> storageAt env k = None"
  by (simp add: storageAt_None quietEnv_def)

lemma scanRows_quiet:
  "quietEnv env \<Longrightarrow> list_all rr_typed rows \<Longrightarrow> scanRows env i rows = Inr (map rowRecord rows)"
  by (induction rows arbitrary: i) simp_all

lemma scanRows_ok:
  "scanRows env i rows = Inr recs \<Longrightarrow> recs = map rowRecord rows \<and> list_all rr_typed rows"
  by (induction rows arbitrary: i recs) (auto split: option.splits sum.splits if_splits)

lemma rawState_dbState: "db64 db \<Longrightarrow> md_budget db = Some b \<Longrightarrow> rawState (dbState db)"
  by (simp add: rawState_def dbState_def loadedState_def rowCharges_def db64_def noCharges_def)

lemma mdSound_db64: "md_budget db = Some b \<Longrightarrow> mdSound (dbState db) \<Longrightarrow> db64 db"
  by (auto simp: mdSound_def db64_def i64_def dbState_def loadedState_def rowCharges_def
      chargesSound_def headerRefused_def)

lemma mdInv_db64: "mdInv db \<Longrightarrow> db64 db"
  using mdSound_db64 by (cases "md_budget db") (auto simp: mdInv_def db64_def)

lemma ms_present_dbState [simp]: "ms_present (dbState db) \<longleftrightarrow> md_budget db \<noteq> None"
  by (simp add: dbState_def loadedState_def split: option.splits)

lemma ms_records_dbState [simp]: "ms_records (dbState db) = map rowRecord (md_rows db)"
  by (simp add: dbState_def loadedState_def split: option.splits)

lemma metadataCheck_db:
  assumes "db64 db"
  shows "metadataCheck (dbState db) =
     (case md_budget db of
        None \<Rightarrow> if md_rows db = [] then Inr (dbState db) else Inl ErrMetadataCorrupt
      | Some _ \<Rightarrow> if mdSound (dbState db) then Inr (accounted (dbState db)) else Inl ErrMetadataCorrupt)"
proof (cases "md_budget db")
  case None
  then show ?thesis by (simp add: metadataCheck_def)
next
  case (Some b)
  then show ?thesis using metadataCheck_eq [of "dbState db"] rawState_dbState [OF assms Some] by simp
qed

lemma mdInv_rows: "mdInv db \<Longrightarrow> length (md_rows db) \<le> 2"
  by (auto simp: mdInv_def mdSound_def headerRefused_def split: option.splits)

lemma metadataRead_quiet:
  assumes "mdInv db" "quietEnv env"
  shows "metadataRead env db = Inr (dbView db)"
proof -
  have three: "take 3 (md_rows db) = md_rows db" using mdInv_rows [OF assms(1)] by simp
  have typed: "list_all rr_typed (md_rows db)" using assms(1) by (simp add: mdInv_def dbTyped_def)
  have "metadataCheck (dbState db) = Inr (dbView db)"
    using assms(1) metadataCheck_db [OF mdInv_db64 [OF assms(1)]]
    by (auto simp: mdInv_def dbView_def split: option.splits)
  then show ?thesis
    using assms scanRows_quiet [OF assms(2) typed]
    by (auto simp: metadataRead_def three dbState_def mdInv_def dbTyped_def split: option.splits)
qed

lemma metadataRead_ok:
  assumes "db64 db" "metadataRead env db = Inr st"
  shows "mdInv db" "st = dbView db"
proof -
  let ?rows = "take 3 (md_rows db)" let ?db = "db\<lparr>md_rows := ?rows\<rparr>"
  have read: "list_all rr_typed ?rows" "metadataCheck (loadedState (md_budget db) (map rowRecord ?rows)) = Inr st"
      "case md_budget db of None \<Rightarrow> True | Some b \<Rightarrow> br_typed b"
    using assms(2) by (auto simp: metadataRead_def split: option.splits sum.splits if_splits dest!: scanRows_ok)
  have st3: "loadedState (md_budget db) (map rowRecord ?rows) = dbState ?db" by (simp add: dbState_def)
  have d64: "db64 ?db" using assms(1) by (simp add: db64_def)
  note chk = read(2) [unfolded st3 metadataCheck_db [OF d64]]
  have len: "length ?rows \<le> 2"
    using chk by (auto simp: mdSound_def headerRefused_def split: option.splits if_splits)
  then have all: "?rows = md_rows db" by (cases "length (md_rows db) \<le> 3") auto
  then have same: "?db = db" by simp
  show "mdInv db"
    using chk read unfolding same all by (auto simp: mdInv_def dbTyped_def split: option.splits if_splits)
  show "st = dbView db"
    using chk unfolding same by (auto simp: dbView_def split: option.splits if_splits)
qed

lemma dbView_simps [simp]:
  "ms_records (dbView db) = map rowRecord (md_rows db)" "ms_present (dbView db) \<longleftrightarrow> md_budget db \<noteq> None"
  "ms_started (dbView db) = ms_started (dbState db)" "ms_highWater (dbView db) = ms_highWater (dbState db)"
  "ms_day (dbView db) = ms_day (dbState db)"
  by (auto simp: dbView_def accounted_def split: option.splits)

lemma mdSound_view:
  assumes "mdInv db" "md_budget db \<noteq> None"
  shows "mdSound (dbView db)"
proof -
  have "mdSound (dbState db)" using assms by (auto simp: mdInv_def)
  moreover have "mdSound (accounted st) = mdSound st" for st
    by (simp add: mdSound_def accounted_def fullCharges_def headerRefused_def recordSound_def
        chargesSound_def chargesBelow_def)
  ultimately show ?thesis using assms(2) by (auto simp: dbView_def split: option.splits)
qed

section \<open>The rows the transactions write\<close>

lemma insort_key_mset: "mset (insort_key f x xs) = add_mset x (mset xs)"
  by (induction xs) auto

lemma mset_replace:
  assumes "distinct (map f xs)" "x \<in> set xs"
  shows "mset (map (\<lambda>y. if f y = f x then g y else y) xs) = add_mset (g x) (mset (filter (\<lambda>y. f y \<noteq> f x) xs))"
  using assms
proof (induction xs)
  case (Cons a xs)
  show ?case
  proof (cases "a = x")
    case True
    then have "\<forall>y\<in>set xs. f y \<noteq> f x" using Cons.prems(1) by (auto simp: image_iff)
    then have "map (\<lambda>y. if f y = f x then g y else y) xs = xs" "filter (\<lambda>y. f y \<noteq> f x) xs = xs"
      by (auto intro: map_idI simp: filter_id_conv)
    then show ?thesis using True by simp
  next
    case False
    then have "x \<in> set xs" "f a \<noteq> f x" using Cons.prems by auto
    then show ?thesis using Cons by simp
  qed
qed simp

lemma rowRecord_scope [simp]: "mr_scope (rowRecord r) = rr_scope r"
  by (simp add: rowRecord_def)

lemma mset_rows_replaces:
  assumes "mset rows' = add_mset r (mset (filter (\<lambda>x. rr_scope x \<noteq> rr_scope r) rows))"
  shows "replaces (rowRecord r) (map rowRecord rows) (map rowRecord rows')"
proof -
  have "mset (map rowRecord rows') = image_mset rowRecord (mset rows')" by simp
  also have "\<dots> = add_mset (rowRecord r) (mset (map rowRecord (filter (\<lambda>x. rr_scope x \<noteq> rr_scope r) rows)))"
    unfolding assms by simp
  finally show ?thesis by (simp add: replaces_def filter_map o_def)
qed

lemma upsertRow_replaces:
  assumes "distinct (map rr_scope rows)"
  shows "replaces (rowRecord r) (map rowRecord rows) (map rowRecord (upsertRow r rows))"
proof (rule mset_rows_replaces, cases "list_ex (\<lambda>x. rr_scope x = rr_scope r) rows")
  case True
  then obtain x where "x \<in> set rows" "rr_scope x = rr_scope r" by (auto simp: list_ex_iff)
  then show "mset (upsertRow r rows) = add_mset r (mset (filter (\<lambda>x. rr_scope x \<noteq> rr_scope r) rows))"
    using True mset_replace [OF assms, of x "\<lambda>_. r"] by (simp add: upsertRow_def)
next
  case False
  then have "filter (\<lambda>x. rr_scope x \<noteq> rr_scope r) rows = rows"
    by (auto simp: list_ex_iff filter_id_conv)
  then show "mset (upsertRow r rows) = add_mset r (mset (filter (\<lambda>x. rr_scope x \<noteq> rr_scope r) rows))"
    using False by (simp add: upsertRow_def insort_key_mset)
qed

lemma settleRows_replaces:
  assumes dist: "distinct (map rr_scope rows)" and x: "x \<in> set rows"
  shows "replaces ((rowRecord x)\<lparr>mr_status := ''settled'', mr_observed := Some n\<rparr>) (map rowRecord rows)
     (map rowRecord (settleRows (rr_scope x) (rr_token x) n rows))"
proof -
  let ?g = "\<lambda>y. y\<lparr>rr_status := ''settled'', rr_observed := Some n\<rparr>"
  have only: "y = x" if "y \<in> set rows" "rr_scope y = rr_scope x" for y
    using dist x that by (auto simp: distinct_map dest: inj_onD)
  have "settleRows (rr_scope x) (rr_token x) n rows =
      map (\<lambda>y. if rr_scope y = rr_scope x then ?g y else y) rows"
    using only by (auto simp: settleRows_def)
  then have "mset (settleRows (rr_scope x) (rr_token x) n rows) =
      add_mset (?g x) (mset (filter (\<lambda>y. rr_scope y \<noteq> rr_scope x) rows))"
    using mset_replace [OF dist x, of ?g] by simp
  then have "replaces (rowRecord (?g x)) (map rowRecord rows)
      (map rowRecord (settleRows (rr_scope x) (rr_token x) n rows))"
    by (intro mset_rows_replaces) simp
  then show ?thesis by (simp add: rowRecord_def)
qed

lemma recoverRows_lost: "map rowRecord (recoverRows rows) = map lostRecord (map rowRecord rows)"
  by (simp add: recoverRows_def lostRecord_def rowRecord_def)

lemma rows_typed:
  "list_all rr_typed rows \<Longrightarrow> list_all rr_typed (settleRows sc tok n rows)"
  "list_all rr_typed rows \<Longrightarrow> list_all rr_typed (recoverRows rows)"
  "list_all rr_typed rows \<Longrightarrow> rr_typed r \<Longrightarrow> list_all rr_typed (upsertRow r rows)"
  by (auto simp: settleRows_def recoverRows_def upsertRow_def list_all_iff set_insort_key)

section \<open>Tokens\<close>

lemma hexDigit_digest: "n < 16 \<Longrightarrow> digestByte (hexDigit n)"
proof -
  assume "n < 16"
  then have "hexDigit n \<in> set ''0123456789abcdef''"
    unfolding hexDigit_def by (intro nth_mem) simp
  moreover have "list_all digestByte ''0123456789abcdef''" by code_simp
  ultimately show ?thesis unfolding list_all_iff by blast
qed

lemma hexByte_digest: "list_all digestByte (hexByte v)"
proof -
  have "unat (drop_bit 4 v) < 16"
  proof -
    have "unat (drop_bit 4 v) = unat v div 16" by (simp add: drop_bit_eq_div unat_div_distrib)
    moreover have "unat v < 256" using unsigned_less [of v] by simp
    ultimately show ?thesis by simp
  qed
  moreover have "unat (v AND 15) < 16"
  proof -
    have "v AND 15 = take_bit 4 v" by (simp add: take_bit_eq_mask mask_eq_exp_minus_1)
    then show ?thesis using take_bit_nat_less_exp [of 4 "unat v"] by (simp add: unsigned_take_bit_eq)
  qed
  ultimately show ?thesis by (simp add: hexByte_def hexDigit_digest)
qed

lemma hexByte_length: "length (hexByte v) = 2"
  by (simp add: hexByte_def)

lemma hexBytes_digest:
  "list_all digestByte (encodeToString bs)" "length (encodeToString bs) = 2 * length bs"
  by (induction bs) (simp_all add: encodeToString_def hexByte_digest hexByte_length)

lemma nonceToken_digest: "metadataDigest (nonceToken env) 64"
  by (simp add: nonceToken_def metadataDigest_def hexBytes_digest)

section \<open>Reserving\<close>

definition reservedDb :: "mddb \<Rightarrow> metadataState \<Rightarrow> gotime \<Rightarrow> MetadataReservation \<Rightarrow> mddb" where
  "reservedDb db st now r =
     db\<lparr>md_budget := Some (savedRow (chargeReservation st now (mr_allowance r))),
        md_rows := upsertRow (reservationRow r) (md_rows db)\<rparr>"

text \<open>What holds when a reservation reaches its commit.\<close>

definition reserving :: "metadata_env \<Rightarrow> mdstore \<Rightarrow> gotime \<Rightarrow> string \<Rightarrow> scan_job option \<Rightarrow> int \<Rightarrow>
    int \<Rightarrow> metadataState \<Rightarrow> metadataState \<Rightarrow> MetadataReservation \<Rightarrow> bool" where
  "reserving env s now0 scope job allowance limit st0 st r \<longleftrightarrow>
     metadataWriter s = None \<and> metadataTime now0 = Inr (toUTC now0, nextMidnight now0) \<and>
     \<not> reserveInputInvalid scope job allowance limit \<and>
     metadataRead env (mds_db s) = Inr st0 \<and>
     reserveAdmit st0 (toUTC now0) scope allowance limit = Inr st \<and>
     (\<exists>r0. jobFence env (mds_db s) (toUTC now0) job
             (freshReservation st scope allowance (toUTC now0) (nextMidnight now0)) = Inr r0 \<and>
           r = r0\<lparr>mr_token := nonceToken env\<rparr>)"

lemma commitMetadata_cases:
  assumes "commitMetadata env s db = (e, s')"
  shows "s' = s\<lparr>mds_db := db\<rparr> \<or> s' = s \<and> e \<noteq> None"
    and "e = None \<Longrightarrow> s' = s\<lparr>mds_db := db\<rparr>"
  using assms by (auto simp: commitMetadata_def split: option.splits if_splits)

lemma metadataSave_ok:
  "metadataSave env db st = Inr db' \<Longrightarrow> db' = db\<lparr>md_budget := Some (savedRow st)\<rparr>"
  by (simp add: metadataSave_def split: option.splits)

lemma insertReservation_ok:
  "insertReservation env db r = Inr db' \<Longrightarrow>
     db' = db\<lparr>md_rows := upsertRow (reservationRow r) (md_rows db)\<rparr>"
  by (simp add: insertReservation_def Let_def split: option.splits)

lemma jobFence_fields:
  assumes "jobFence env db now job r = Inr r'"
  shows "mr_scope r' = mr_scope r" "mr_allowance r' = mr_allowance r" "mr_day r' = mr_day r"
    "mr_started r' = mr_started r" "mr_clock r' = mr_clock r" "mr_token r' = mr_token r"
  using assms by (auto simp: jobFence_def Let_def split: if_splits option.splits)

lemma publishReservation_cases:
  assumes "publishReservation env s st r = (res, s')"
  shows "s' = s \<and> (\<exists>e. res = Inl e) \<or>
     s' = s\<lparr>mds_db := (mds_db s)\<lparr>md_budget := Some (savedRow st),
                md_rows := upsertRow (reservationRow r) (md_rows (mds_db s))\<rparr>\<rparr> \<and>
     (\<forall>q. res = Inr q \<longrightarrow> q = r)"
  using assms unfolding publishReservation_def
  by (auto dest!: metadataSave_ok insertReservation_ok commitMetadata_cases
      split: sum.splits prod.splits option.splits)

lemma reserve_refused:
  assumes "\<And>st0 st r0. metadataWriter s = None \<Longrightarrow> metadataTime now0 = Inr (toUTC now0, nextMidnight now0) \<Longrightarrow>
      \<not> reserveInputInvalid scope job allowance limit \<Longrightarrow> metadataRead env (mds_db s) = Inr st0 \<Longrightarrow>
      reserveAdmit st0 (toUTC now0) scope allowance limit = Inr st \<Longrightarrow>
      jobFence env (mds_db s) (toUTC now0) job
        (freshReservation st scope allowance (toUTC now0) (nextMidnight now0)) = Inr r0 \<Longrightarrow> False"
  shows "\<exists>e. ReserveMetadata env s now0 scope job allowance limit = (Inl e, s)"
  using assms metadataTime_eq [of now0]
  by (auto simp: ReserveMetadata_def split: option.splits sum.splits if_splits)

lemma reserve_publish:
  assumes "metadataWriter s = None" "metadataTime now0 = Inr (toUTC now0, nextMidnight now0)"
    "\<not> reserveInputInvalid scope job allowance limit" "metadataRead env (mds_db s) = Inr st0"
    "reserveAdmit st0 (toUTC now0) scope allowance limit = Inr st"
    "jobFence env (mds_db s) (toUTC now0) job
        (freshReservation st scope allowance (toUTC now0) (nextMidnight now0)) = Inr r0"
  shows "ReserveMetadata env s now0 scope job allowance limit =
     (if storageAt env 0 \<noteq> None then (Inl (the (storageAt env 0)), s)
      else if me_randErr env \<noteq> None then (Inl ErrMetadataUnavailable, s)
      else publishReservation env s (chargeReservation st (toUTC now0) allowance)
             (r0\<lparr>mr_token := nonceToken env\<rparr>))"
  using assms by (simp add: ReserveMetadata_def split: option.splits)

lemma reserveE:
  assumes "ReserveMetadata env s now0 scope job allowance limit = (res, s')"
  obtains (refused) e where "res = Inl e" "s' = s"
  | (charged) st0 st r where
      "reserving env s now0 scope job allowance limit st0 st r" "mr_allowance r = allowance"
      "s' = s\<lparr>mds_db := reservedDb (mds_db s) st (toUTC now0) r\<rparr>" "\<And>q. res = Inr q \<Longrightarrow> q = r"
proof (cases "\<exists>e. ReserveMetadata env s now0 scope job allowance limit = (Inl e, s)")
  case True
  then show thesis using refused assms by auto
next
  case False
  then obtain st0 st r0 where
    step: "metadataWriter s = None" "metadataTime now0 = Inr (toUTC now0, nextMidnight now0)"
      "\<not> reserveInputInvalid scope job allowance limit" "metadataRead env (mds_db s) = Inr st0"
      "reserveAdmit st0 (toUTC now0) scope allowance limit = Inr st"
      "jobFence env (mds_db s) (toUTC now0) job
        (freshReservation st scope allowance (toUTC now0) (nextMidnight now0)) = Inr r0"
    using reserve_refused by blast
  let ?r = "r0\<lparr>mr_token := nonceToken env\<rparr>"
  have a: "mr_allowance ?r = allowance"
    using jobFence_fields(2) [OF step(6)] by (simp add: freshReservation_def)
  have res: "reserving env s now0 scope job allowance limit st0 st ?r"
    using step unfolding reserving_def by auto
  have "publishReservation env s (chargeReservation st (toUTC now0) allowance) ?r = (res, s')"
    using assms False unfolding reserve_publish [OF step] by (auto split: if_splits)
  from publishReservation_cases [OF this]
  have "s' = s\<lparr>mds_db := reservedDb (mds_db s) st (toUTC now0) ?r\<rparr> \<and> (\<forall>q. res = Inr q \<longrightarrow> q = ?r)
     \<or> s' = s \<and> (\<exists>e. res = Inl e)"
    by (auto simp: reservedDb_def a [simplified])
  then show thesis using charged [OF res a] refused by auto
qed

lemma jobFence_ok:
  assumes "jobFence env db now job r = Inr r'"
  shows "mr_scope r \<noteq> MetadataNext \<and> r' = r \<or>
     mr_scope r = MetadataNext \<and> (\<exists>j row. job = Some j \<and> md_jobs db (sj_id j) = Some row \<and> jr_token row = sj_token j \<and>
        jr_kind row = ScanKind \<and> jr_status row = ''running'' \<and> unixNano now < jr_until row \<and>
        r' = r\<lparr>mr_jobID := sj_id j, mr_jobToken := sj_token j,
               mr_expires := minTime (utcUnix (jr_until row)) (mr_expires r)\<rparr>)"
proof (cases "mr_scope r = MetadataNext")
  case False
  then show ?thesis using assms by (simp add: jobFence_def)
next
  case True
  then obtain j row where j: "job = Some j" "storageAt env 4 = None" "md_jobs db (sj_id j) = Some row"
    and ok: "\<not> (jr_token row \<noteq> sj_token j \<or> jr_kind row \<noteq> ScanKind \<or>
               jr_status row \<noteq> ''running'' \<or> jr_until row \<le> unixNano now)"
    using assms by (auto simp: jobFence_def split: option.splits if_splits)
  then show ?thesis
    using assms True by (auto simp: jobFence_def Let_def minTime_def)
qed

lemma reserveAdmit_ok:
  assumes "reserveAdmit st0 now scope a limit = Inr st"
  shows "ms_present st0 \<Longrightarrow> ms_highWater st0 \<le> unixNano now" "\<not> outstandingBlocks st0 scope now"
    "st = dayState st0 now" "mc_reserved (ms_daily st) \<le> limit"
    "a \<le> sub64 limit (mc_reserved (ms_daily st))" "a \<le> sub64 maxInt64 (mc_reserved (ms_total st))"
  using assms by (auto simp: reserveAdmit_def Let_def split: if_splits)

text \<open>The horizon of the program: the last instant from which the next midnight has a next
  midnight of its own.\<close>

definition metadataHorizon :: int where "metadataHorizon = 106750 * day_ns"

lemma midnight_ns: "t_ns (nextMidnight t) = (t_ns t div day_ns + 1) * day_ns"
  by (simp add: nextMidnight_def utcDay_def)

lemma midnight_horizon: "t_ns t < metadataHorizon \<Longrightarrow> t_ns (nextMidnight t) < 106751 * day_ns"
proof -
  assume "t_ns t < metadataHorizon"
  then have "t_ns t div day_ns < 106750"
    using day_bracket(1) [of "t_ns t"] unfolding metadataHorizon_def by linarith
  then show ?thesis by (simp add: midnight_ns)
qed

lemma reserving_valid:
  assumes r: "reserving env s now0 scope job a limit st0 st r" and day: "ms_day st = formatDay now0"
    and fits: "t_ns (mr_expires r) < 106751 * day_ns"
  shows "metadataReservationValid r"
proof -
  let ?now = "toUTC now0" and ?f = "freshReservation st scope a (toUTC now0) (nextMidnight now0)"
  obtain r0 where f: "jobFence env (mds_db s) ?now job ?f = Inr r0"
    and rr: "r = r0\<lparr>mr_token := nonceToken env\<rparr>"
    using r by (auto simp: reserving_def)
  have inp: "\<not> reserveInputInvalid scope job a limit" and tm: "metadataTime now0 = Inr (?now, nextMidnight now0)"
    using r by (auto simp: reserving_def)
  have ns: "0 < t_ns now0" "t_ns now0 < 106751 * day_ns" "unixNano ?now = t_ns now0"
    using metadataTimeD [OF tm] by auto
  have gt: "t_ns now0 < t_ns (nextMidnight now0)" using day_bracket(2) [of "t_ns now0"] by (simp add: midnight_ns)
  have mid: "nextMidnight ?now = nextMidnight now0" "formatDay ?now = formatDay now0"
    by (simp_all add: nextMidnight_def utcDay_def formatDay_def)
  have a: "1 \<le> a" "a \<le> 65536" "scope = MetadataStartup \<or> scope = MetadataNext"
    using inp by (auto simp: reserveInputInvalid_def)
  from jobFence_ok [OF f] show ?thesis
  proof (elim disjE conjE exE)
    assume "mr_scope ?f \<noteq> MetadataNext" "r0 = ?f"
    then show ?thesis
      using a ns gt day fits mid
      by (auto simp: rr reservationValid_iff freshReservation_def nonceToken_digest)
  next
    fix j row
    assume sc: "mr_scope ?f = MetadataNext" and "job = Some j" "unixNano ?now < jr_until row"
      and r0: "r0 = ?f\<lparr>mr_jobID := sj_id j, mr_jobToken := sj_token j,
               mr_expires := minTime (utcUnix (jr_until row)) (mr_expires ?f)\<rparr>"
    moreover have "0 < sj_id j" "metadataDigest (sj_token j) 32"
      using inp sc \<open>job = Some j\<close> by (auto simp: reserveInputInvalid_def freshReservation_def)
    ultimately show ?thesis
      using a ns gt day fits mid
      by (auto simp: rr reservationValid_iff freshReservation_def nonceToken_digest)
  qed
qed

lemma reserving_fits:
  assumes "reserving env s now0 scope job a limit st0 st r" "t_ns now0 < metadataHorizon"
  shows "t_ns (mr_expires r) < 106751 * day_ns"
  using assms midnight_horizon [OF assms(2)]
  by (auto simp: reserving_def freshReservation_def dest!: jobFence_ok)

lemma rowRecord_reservation:
  assumes "metadataReservationValid r" "t_utc (mr_started r)" "t_utc (mr_expires r)" "t_utc (mr_clock r)"
  shows "rowRecord (reservationRow r) = MetadataReservation.extend r
    (metadataRecord.fields ''reserved'' None)"
proof -
  have "i64 (t_ns (mr_started r))" "i64 (t_ns (mr_expires r))" "i64 (t_ns (mr_clock r))"
    using assms(1) by (auto simp: reservationValid_iff i64_def)
  then show ?thesis
    using assms(2-)
    by (simp add: rowRecord_def reservationRow_def MetadataReservation.extend_def metadataRecord.fields_def
        unixNano_exact utcUnix_of_utc)
qed

lemma dbView_absent:
  "md_budget db = None \<Longrightarrow> ms_daily (dbView db) = noCharges \<and> ms_total (dbView db) = noCharges"
  by (simp add: dbView_def dbState_def loadedState_def)

text \<open>The state a reservation charges: the day is that of the call, and with its clock reading as
  high-water mark the state is sound before anything is charged.\<close>

lemma dayState_sound:
  assumes inv: "mdInv db" and now: "0 < t_ns now" "t_ns now \<le> maxInt64"
    and clock: "md_budget db \<noteq> None \<Longrightarrow> ms_highWater (dbView db) \<le> t_ns now"
    and free: "\<not> outstandingBlocks (dbView db) scope now"
  shows "mdSound ((dayState (dbView db) now)\<lparr>ms_highWater := t_ns now\<rparr>)"
    "ms_day (dayState (dbView db) now) = formatDay now"
    "ms_records (dayState (dbView db) now) = map rowRecord (md_rows db)"
proof -
  have nano: "unixNano now = t_ns now" using now by (simp add: unixNano_exact i64_def)
  show "ms_records (dayState (dbView db) now) = map rowRecord (md_rows db)" by (simp add: dayState_def)
  have "mdSound ((dayState (dbView db) now)\<lparr>ms_highWater := t_ns now\<rparr>) \<and>
      ms_day (dayState (dbView db) now) = formatDay now"
  proof (cases "md_budget db")
    case None
    then have "md_rows db = []" using inv by (simp add: mdInv_def)
    moreover have "mdSound (st\<lparr>ms_present := True\<rparr>) = mdSound st" for st
      by (simp add: mdSound_def headerRefused_def recordSound_def)
    ultimately show ?thesis
      using mdSound_start [of "t_ns now" "(dbView db)\<lparr>ms_present := True\<rparr>"] now None dbView_absent [OF None]
      by (simp add: dayState_def nano formatDay_def utcDay_def)
  next
    case (Some b)
    then have sound: "mdSound (dbView db)" and hw: "ms_highWater (dbView db) \<le> t_ns now"
      using mdSound_view [OF inv] clock by auto
    obtain d where d: "ms_day (dbView db) = DayOf d" "d \<le> ms_highWater (dbView db) div day_ns"
      using sound
      by (cases "ms_day (dbView db)") (auto simp: mdSound_def headerRefused_def formatDay_def utcDay_def)
    have le: "d \<le> utcDay now" using d(2) day_mono [OF hw] by (simp add: utcDay_def)
    show ?thesis
    proof (cases "dayAfter (formatDay now) (ms_day (dbView db))")
      case True
      have idle: "mr_status r \<noteq> ''reserved''" if "r \<in> set (ms_records (dbView db))" for r
      proof
        assume res: "mr_status r = ''reserved''"
        then have "mr_day r = ms_day (dbView db)"
          using sound that by (auto simp: mdSound_def recordSound_def statusSound_def)
        moreover have "mr_day r = formatDay now"
          using free res that by (auto simp: outstandingBlocks_def list_ex_iff)
        ultimately show False using True d by (simp add: formatDay_def)
      qed
      have "utcDay now \<le> t_ns now div day_ns" by (simp add: utcDay_def)
      then show ?thesis
        using mdSound_nextDay [OF sound True [unfolded formatDay_def] hw now(2) _ idle] True Some
        by (simp add: dayState_def formatDay_def)
    next
      case False
      then have "ms_day (dbView db) = formatDay now" using d(1) le by (simp add: formatDay_def)
      then show ?thesis using mdSound_raise [OF sound hw now(2)] False Some by (simp add: dayState_def)
    qed
  qed
  then show "mdSound ((dayState (dbView db) now)\<lparr>ms_highWater := t_ns now\<rparr>)"
    "ms_day (dayState (dbView db) now) = formatDay now" by auto
qed

lemma mdInv_scopes: "mdInv db \<Longrightarrow> distinct (map rr_scope (md_rows db))"
  by (auto simp: mdInv_def mdSound_def o_def split: option.splits)

lemma reserving_state:
  assumes d64: "db64 (mds_db s)" and r: "reserving env s now0 scope job a limit st0 st r"
  shows "st0 = dbView (mds_db s)" "mdInv (mds_db s)"
    "mdSound (st\<lparr>ms_highWater := t_ns now0\<rparr>)" "ms_day st = formatDay now0"
    "ms_records st = map rowRecord (md_rows (mds_db s))"
    "a \<le> maxInt64 - mc_reserved (ms_total st)" "mr_allowance r = a" "mr_scope r = scope"
    "st = dayState st0 (toUTC now0)" "unixNano (toUTC now0) = t_ns now0"
proof -
  let ?now = "toUTC now0" and ?db = "mds_db s"
  have read: "metadataRead env ?db = Inr st0" and adm: "reserveAdmit st0 ?now scope a limit = Inr st"
    and tm: "metadataTime now0 = Inr (?now, nextMidnight now0)"
    using r by (auto simp: reserving_def)
  show inv: "mdInv ?db" and st0: "st0 = dbView ?db" using metadataRead_ok [OF d64 read] by auto
  note ok = reserveAdmit_ok [OF adm] and ns = metadataTimeD [OF tm]
  have ns': "0 < t_ns ?now" "t_ns ?now \<le> maxInt64" using ns by simp_all
  show nano: "unixNano ?now = t_ns now0" using ns by simp
  show st: "st = dayState st0 ?now" using ok by simp
  have "\<not> outstandingBlocks (dbView ?db) scope ?now" "md_budget ?db \<noteq> None \<Longrightarrow> ms_highWater (dbView ?db) \<le> t_ns ?now"
    using ok st0 nano by auto
  note day = dayState_sound [OF inv ns'(1,2) this(2,1)]
  have fd: "formatDay ?now = formatDay now0" by (simp add: formatDay_def utcDay_def)
  show "ms_day st = formatDay now0" and "ms_records st = map rowRecord (md_rows ?db)"
    and sound: "mdSound (st\<lparr>ms_highWater := t_ns now0\<rparr>)"
    using day unfolding st st0 fd by simp_all
  have "0 \<le> mc_reserved (ms_total st)" "mc_reserved (ms_total st) \<le> maxInt64"
    using sound by (auto simp: mdSound_def chargesSound_def)
  then show "a \<le> maxInt64 - mc_reserved (ms_total st)" using ok(6) by (simp add: i64_def)
  obtain r0 where f: "jobFence env ?db ?now job (freshReservation st scope a ?now (nextMidnight now0)) = Inr r0"
    and rr: "r = r0\<lparr>mr_token := nonceToken env\<rparr>"
    using r by (auto simp: reserving_def)
  show "mr_allowance r = a" "mr_scope r = scope"
    using jobFence_fields [OF f] by (simp_all add: rr freshReservation_def)
qed

lemma reserving_charge:
  assumes d64: "db64 (mds_db s)" and r: "reserving env s now0 scope job a limit st0 st r"
    and fits: "t_ns (mr_expires r) < 106751 * day_ns"
  shows "metadataReservationValid r"
    "rowRecord (reservationRow r) = MetadataReservation.extend r (metadataRecord.fields ''reserved'' None)"
    "recordSound (st\<lparr>ms_highWater := t_ns now0\<rparr>) (rowRecord (reservationRow r))"
proof -
  let ?now = "toUTC now0"
  note c = reserving_state [OF d64 r]
  show v: "metadataReservationValid r" using reserving_valid [OF r c(4) fits] .
  obtain r0 where f: "jobFence env (mds_db s) ?now job (freshReservation st scope a ?now (nextMidnight now0)) = Inr r0"
    and rr: "r = r0\<lparr>mr_token := nonceToken env\<rparr>"
    using r by (auto simp: reserving_def)
  have flds: "mr_started r = ?now" "mr_clock r = ?now" "mr_day r = ms_day st"
    using jobFence_fields [OF f] by (simp_all add: rr freshReservation_def)
  have "t_utc (mr_expires r)"
    using jobFence_ok [OF f] by (auto simp: rr freshReservation_def minTime_def nextMidnight_def)
  then show row: "rowRecord (reservationRow r) = MetadataReservation.extend r (metadataRecord.fields ''reserved'' None)"
    using rowRecord_reservation [OF v] flds by simp
  have start: "ms_started st \<le> t_ns now0" using c(3) by (auto simp: mdSound_def headerRefused_def)
  have "metadataReservationValid (MetadataReservation.extend r (metadataRecord.fields ''reserved'' None))"
    using v by (simp add: reservationValid_iff MetadataReservation.defs metadataRecord.defs)
  moreover have "\<not> dayAfter (ms_day st) (ms_day st)" by (cases "ms_day st") auto
  ultimately show "recordSound (st\<lparr>ms_highWater := t_ns now0\<rparr>) (rowRecord (reservationRow r))"
    unfolding row using flds start c(10)
    by (simp add: recordSound_def statusSound_def MetadataReservation.defs metadataRecord.defs)
qed

lemma reserved_typed:
  assumes "mdInv (mds_db s)"
  shows "dbTyped (reservedDb (mds_db s) st now r)"
  using assms rows_typed(3) [of "md_rows (mds_db s)" "reservationRow r"]
  by (simp add: dbTyped_def reservedDb_def savedRow_def mdInv_def) (simp add: reservationRow_def)

lemma mdInv_reserved:
  assumes d64: "db64 (mds_db s)" and r: "reserving env s now0 scope job a limit st0 st r"
    and fits: "t_ns (mr_expires r) < 106751 * day_ns"
  shows "mdInv (reservedDb (mds_db s) st (toUTC now0) r)"
proof -
  note c = reserving_state [OF d64 r]
  let ?row = "reservationRow r" and ?rows = "md_rows (mds_db s)" and ?st = "st\<lparr>ms_highWater := t_ns now0\<rparr>"
  have rec: "mr_status (rowRecord ?row) = ''reserved''" "mr_allowance (rowRecord ?row) = a" "mr_allowance r = a"
    using c(7) by (simp_all add: rowRecord_def reservationRow_def)
  have repl: "replaces (rowRecord ?row) (ms_records ?st) (map rowRecord (upsertRow ?row ?rows))"
    using upsertRow_replaces [OF mdInv_scopes [OF c(2)]] c(5) by simp
  have "\<not> outstandingBlocks st0 scope (toUTC now0)" using r reserveAdmit_ok(2) by (auto simp: reserving_def)
  then have free: "mr_status x \<noteq> ''reserved''" if "x \<in> set (ms_records ?st)" "mr_scope x = mr_scope (rowRecord ?row)" for x
    using that c(1,5,8) by (auto simp: outstandingBlocks_def list_ex_iff reservationRow_def)
  have "mdSound (?st\<lparr>ms_daily := addReserved (ms_daily ?st) a, ms_total := addReserved (ms_total ?st) a,
      ms_records := map rowRecord (upsertRow ?row ?rows)\<rparr>)"
    using mdSound_charge [OF c(3) reserving_charge(3) [OF d64 r fits] rec(1) repl free] c(6) rec(2) by simp
  moreover have "(chargeReservation st (toUTC now0) a)\<lparr>ms_records := map rowRecord (upsertRow ?row ?rows)\<rparr> =
      ?st\<lparr>ms_daily := addReserved (ms_daily ?st) a, ms_total := addReserved (ms_total ?st) a,
      ms_records := map rowRecord (upsertRow ?row ?rows)\<rparr>"
    by (simp add: chargeReservation_def c(10))
  ultimately have "mdSound (dbState (reservedDb (mds_db s) st (toUTC now0) r))"
    by (simp add: dbState_def reservedDb_def mdSound_saved rec(3))
  then show ?thesis using reserved_typed [OF c(2)] by (simp add: mdInv_def reservedDb_def)
qed

section \<open>Settling and recovering\<close>

definition updatedDb :: "mddb \<Rightarrow> metadataState \<Rightarrow> (reservation_row list \<Rightarrow> reservation_row list) \<Rightarrow> mddb" where
  "updatedDb db st f = db\<lparr>md_budget := Some (savedRow st), md_rows := f (md_rows db)\<rparr>"

lemma updateReservations_cases:
  assumes "updateReservations env s st f = (e, s')"
  shows "s' = s\<lparr>mds_db := updatedDb (mds_db s) st f\<rparr> \<or> s' = s \<and> e \<noteq> None"
    and "e = None \<Longrightarrow> s' = s\<lparr>mds_db := updatedDb (mds_db s) st f\<rparr>"
  using assms
  by (auto simp: updateReservations_def updatedDb_def dest!: metadataSave_ok commitMetadata_cases
      split: sum.splits option.splits)

lemma updateReservations_quiet:
  "quietEnv env \<Longrightarrow> updateReservations env s st f = (None, s\<lparr>mds_db := updatedDb (mds_db s) st f\<rparr>)"
  by (simp add: updateReservations_def metadataSave_def commitMetadata_def updatedDb_def)

lemma settleE:
  assumes "SettleMetadata env s q n now0 = (e, s')"
  obtains (refused) "e \<noteq> None" "s' = s"
  | (again) st r where "metadataRead env (mds_db s) = Inr st" "r \<in> set (ms_records st)" "metadataSame r q"
      "mr_status r = ''settled''" "mr_observed r = Some n" "e = None" "s' = s"
  | (settled) st r where "metadataRead env (mds_db s) = Inr st" "r \<in> set (ms_records st)" "metadataSame r q"
      "mr_status r \<noteq> ''settled''" "mr_status r \<noteq> ''unknown''" "metadataReservationValid q"
      "0 \<le> n" "n \<le> mr_allowance q" "metadataTime now0 = Inr (toUTC now0, nextMidnight now0)"
      "updateReservations env s (settledState st n (toUTC now0))
         (settleRows (mr_scope q) (mr_token q) n) = (e, s')"
proof (cases "e \<noteq> None \<and> s' = s")
  case True
  then show thesis using refused by blast
next
  case False
  then obtain now midnight st where
    step: "metadataTime now0 = Inr (now, midnight)" "metadataWriter s = None" "storageAt env 0 = None"
      "metadataReservationValid q" "0 \<le> n" "n \<le> mr_allowance q" "metadataRead env (mds_db s) = Inr st"
    using assms by (auto simp: SettleMetadata_def split: option.splits sum.splits if_splits)
  have now: "now = toUTC now0" "midnight = nextMidnight now0" using metadataTimeD [OF step(1)] by auto
  have "find (\<lambda>r. metadataSame r q) (ms_records st) \<noteq> None"
    using assms False step by (auto simp: SettleMetadata_def split: option.splits)
  then obtain r where f: "find (\<lambda>r. metadataSame r q) (ms_records st) = Some r" by blast
  then have r: "r \<in> set (ms_records st)" "metadataSame r q" by (auto simp: find_Some_iff)
  show thesis
  proof (cases "mr_status r = ''settled''")
    case True
    then have "mr_observed r = Some n" "e = None" "s' = s"
      using assms False step f by (auto simp: SettleMetadata_def split: if_splits)
    then show thesis using again step(7) r True by blast
  next
    case ns: False
    then have "mr_status r \<noteq> ''unknown''"
      "updateReservations env s (settledState st n now) (settleRows (mr_scope q) (mr_token q) n) = (e, s')"
      using assms False step f by (auto simp: SettleMetadata_def split: if_splits)
    then show thesis using settled step r ns unfolding now by blast
  qed
qed

lemma mdSound_status:
  assumes "mdSound st" "r \<in> set (ms_records st)" "mr_status r \<noteq> ''settled''" "mr_status r \<noteq> ''unknown''"
  shows "mr_status r = ''reserved''"
  using assms by (auto simp: mdSound_def recordSound_def statusSound_def)

lemma mdInv_present: "mdInv db \<Longrightarrow> r \<in> set (md_rows db) \<Longrightarrow> md_budget db \<noteq> None"
  by (cases "md_budget db") (auto simp: mdInv_def)

lemma mdInv_updated:
  assumes "mdInv db" "mdSound (st\<lparr>ms_records := map rowRecord (f (md_rows db))\<rparr>)"
    "list_all rr_typed (f (md_rows db))"
  shows "mdInv (updatedDb db st f)"
  using assms by (simp add: mdInv_def updatedDb_def dbTyped_def dbState_def mdSound_saved) (simp add: savedRow_def)

lemma raised_sound:
  assumes "mdSound st" "unixNano now \<le> maxInt64"
  shows "mdSound (raisedHighWater st now)"
  using mdSound_raise [OF assms(1), of "unixNano now"] assms by (auto simp: raisedHighWater_def)

lemma raised_records: "(raisedHighWater st now)\<lparr>ms_records := rs\<rparr> = raisedHighWater (st\<lparr>ms_records := rs\<rparr>) now"
  by (simp add: raisedHighWater_def)

lemma mdInv_settled:
  assumes inv: "mdInv db" and x: "x \<in> set (md_rows db)" "rr_status x = ''reserved''"
    and n: "0 \<le> n" "n \<le> rr_allowance x" and now: "unixNano now \<le> maxInt64"
  shows "mdInv (updatedDb db (settledState (dbView db) n now) (settleRows (rr_scope x) (rr_token x) n))"
proof (rule mdInv_updated [OF inv])
  have pres: "md_budget db \<noteq> None" using mdInv_present [OF inv x(1)] .
  have r: "rowRecord x \<in> set (ms_records (dbView db))" "mr_status (rowRecord x) = ''reserved''"
    "n \<le> mr_allowance (rowRecord x)"
    using x n by (auto simp: rowRecord_def)
  have repl: "replaces ((rowRecord x)\<lparr>mr_status := ''settled'', mr_observed := Some n\<rparr>)
      (ms_records (dbView db)) (map rowRecord (settleRows (rr_scope x) (rr_token x) n (md_rows db)))"
    using settleRows_replaces [OF mdInv_scopes [OF inv] x(1)] by simp
  show "mdSound ((settledState (dbView db) n now)
      \<lparr>ms_records := map rowRecord (settleRows (rr_scope x) (rr_token x) n (md_rows db))\<rparr>)"
    unfolding settledState_def raised_records
    using raised_sound [OF mdSound_settle [OF mdSound_view [OF inv pres] r(1,2) n(1) r(3) repl] now]
    by simp
  show "list_all rr_typed (settleRows (rr_scope x) (rr_token x) n (md_rows db))"
    using inv rows_typed(1) by (simp add: mdInv_def dbTyped_def)
qed

text \<open>The loop of a recovery adds every outstanding allowance.\<close>

lemma recoverCount_ok:
  assumes "\<forall>r\<in>set rs. recordSound st r" "chargesSound (ms_daily st) (sumBy heldOf rs)"
    "chargesSound (ms_total st) (sumBy heldOf rs)"
  shows "recoverCount st k rs =
     (st\<lparr>ms_daily := addUnknown (ms_daily st) (sumBy heldOf rs), ms_total := addUnknown (ms_total st) (sumBy heldOf rs)\<rparr>,
      k + length (filter (\<lambda>r. mr_status r = ''reserved'') rs))"
  using assms
proof (induction rs arbitrary: st k)
  case Nil
  then show ?case
    using chargesSound_add(2) [of "ms_daily st" 0 0] chargesSound_add(2) [of "ms_total st" 0 0]
    by (simp add: addUnknown_def)
next
  case (Cons r rs)
  have pos: "0 \<le> sumBy heldOf rs" using Cons.prems(1) by (intro sound_sums(1) [of _ st]) auto
  show ?case
  proof (cases "mr_status r = ''reserved''")
    case False
    then show ?thesis using Cons by (simp add: heldOf_def)
  next
    case True
    then have h: "heldOf r = mr_allowance r" "1 \<le> mr_allowance r"
      using recordSound_bounds(1) [of st r] Cons.prems(1) by (simp_all add: heldOf_def)
    let ?st = "st\<lparr>ms_daily := addUnknown (ms_daily st) (mr_allowance r), ms_total := addUnknown (ms_total st) (mr_allowance r)\<rparr>"
    have next': "chargesSound (addUnknown c (mr_allowance r)) (sumBy heldOf rs)"
      "addUnknown (addUnknown c (mr_allowance r)) (sumBy heldOf rs) = addUnknown c (mr_allowance r + sumBy heldOf rs)"
      if "chargesSound c (sumBy heldOf (r # rs))" for c
      using that h pos chargesSound_add(2) [OF that, of "mr_allowance r"]
        chargesSound_add(2) [OF that, of "mr_allowance r + sumBy heldOf rs"]
      by (simp_all add: addUnknown_def chargesSound_def add64_def i64_def)
    have "recoverCount ?st (Suc k) rs =
        (?st\<lparr>ms_daily := addUnknown (ms_daily ?st) (sumBy heldOf rs), ms_total := addUnknown (ms_total ?st) (sumBy heldOf rs)\<rparr>,
         Suc k + length (filter (\<lambda>r. mr_status r = ''reserved'') rs))"
      using Cons.prems next' by (intro Cons.IH) simp_all
    then show ?thesis using True h next' [OF Cons.prems(2)] next' [OF Cons.prems(3)] by simp
  qed
qed

lemma recoverE:
  assumes "RecoverMetadataReservations env s now0 = (res, s')"
  obtains (refused) e where "res = Inl e" "s' = s"
  | (read) st0 st k where "metadataRead env (mds_db s) = Inr st0"
      "metadataTime now0 = Inr (toUTC now0, nextMidnight now0)"
      "recoverCount st0 0 (ms_records st0) = (st, k)" "metadataWriter s = None" "storageAt env 0 = None"
      "(res, s') = (if k = 0 then (Inr 0, s)
         else case updateReservations env s (raisedHighWater st (toUTC now0)) recoverRows of
                (Some e, s1) \<Rightarrow> (Inl e, s1) | (None, s1) \<Rightarrow> (Inr k, s1))"
proof (cases "s' = s \<and> (\<exists>e. res = Inl e)")
  case True
  then show thesis using refused by blast
next
  case False
  then obtain now midnight st0 where
    step: "metadataTime now0 = Inr (now, midnight)" "metadataWriter s = None" "storageAt env 0 = None"
      "metadataRead env (mds_db s) = Inr st0"
    using assms by (auto simp: RecoverMetadataReservations_def split: option.splits sum.splits)
  have now: "now = toUTC now0" "midnight = nextMidnight now0" using metadataTimeD [OF step(1)] by auto
  obtain st k where c: "recoverCount st0 0 (ms_records st0) = (st, k)" by fastforce
  show thesis
    using read [OF step(4) _ c step(2,3)] step assms unfolding now
    by (simp add: RecoverMetadataReservations_def c split: if_splits)
qed

lemma mdInv_recovered:
  assumes inv: "mdInv db" and pres: "md_budget db \<noteq> None" and now: "unixNano now \<le> maxInt64"
    and c: "recoverCount (dbView db) 0 (ms_records (dbView db)) = (st, k)"
  shows "mdInv (updatedDb db (raisedHighWater st now) recoverRows)"
    "st = (dbView db)\<lparr>ms_daily := addUnknown (ms_daily (dbView db)) (heldSum (dbView db)),
            ms_total := addUnknown (ms_total (dbView db)) (heldSum (dbView db))\<rparr>"
    "k = length (filter (\<lambda>x. rr_status x = ''reserved'') (md_rows db))"
proof -
  have sound: "mdSound (dbView db)" using mdSound_view [OF inv pres] .
  have rc: "recoverCount (dbView db) 0 (ms_records (dbView db)) =
     ((dbView db)\<lparr>ms_daily := addUnknown (ms_daily (dbView db)) (heldSum (dbView db)),
            ms_total := addUnknown (ms_total (dbView db)) (heldSum (dbView db))\<rparr>,
      0 + length (filter (\<lambda>r. mr_status r = ''reserved'') (ms_records (dbView db))))"
    using sound by (intro recoverCount_ok) (auto simp: mdSound_def)
  show st: "st = (dbView db)\<lparr>ms_daily := addUnknown (ms_daily (dbView db)) (heldSum (dbView db)),
            ms_total := addUnknown (ms_total (dbView db)) (heldSum (dbView db))\<rparr>"
    using rc c by simp
  show "k = length (filter (\<lambda>x. rr_status x = ''reserved'') (md_rows db))"
    using rc c by (simp add: filter_map o_def rowRecord_def)
  show "mdInv (updatedDb db (raisedHighWater st now) recoverRows)"
  proof (rule mdInv_updated [OF inv])
    have "mdSound (st\<lparr>ms_records := map lostRecord (ms_records (dbView db))\<rparr>)"
      using mdSound_recover [OF sound refl] unfolding st by simp
    then show "mdSound ((raisedHighWater st now)\<lparr>ms_records := map rowRecord (recoverRows (md_rows db))\<rparr>)"
      unfolding raised_records recoverRows_lost using now by (intro raised_sound) simp_all
    show "list_all rr_typed (recoverRows (md_rows db))"
      using inv rows_typed(2) by (simp add: mdInv_def dbTyped_def)
  qed
qed

section \<open>Runs of a store with its clients\<close>

text \<open>One step is a call of one of the three transactions under any answers of the environment,
  at any clock reading before the horizon, or a change of the jobs table by the queue.\<close>

inductive metadata_step :: "mdstore \<Rightarrow> mdstore \<Rightarrow> bool" where
  reserve: "ReserveMetadata env s now scope job a limit = (res, s') \<Longrightarrow> t_ns now < metadataHorizon \<Longrightarrow>
    metadata_step s s'"
| settle: "SettleMetadata env s q n now = (e, s') \<Longrightarrow> metadata_step s s'"
| recover: "RecoverMetadataReservations env s now = (out, s') \<Longrightarrow> metadata_step s s'"
| queue: "metadata_step s (s\<lparr>mds_db := (mds_db s)\<lparr>md_jobs := jobs\<rparr>\<rparr>)"

inductive_cases metadata_stepE: "metadata_step s s'"

text \<open>What a step does to the lifetime charges and to the high-water mark.\<close>

definition dbTotal :: "mddb \<Rightarrow> MetadataCharges" where "dbTotal db = ms_total (dbState db)"

definition dbClock :: "mddb \<Rightarrow> int" where "dbClock db = ms_highWater (dbState db)"

definition ledgerGrows :: "mddb \<Rightarrow> mddb \<Rightarrow> bool" where
  "ledgerGrows db db' \<longleftrightarrow> chargesBelow (dbTotal db) (dbTotal db') \<and> dbClock db \<le> dbClock db'"

lemma ledgerGrows_refl [simp]: "ledgerGrows db db"
  by (simp add: ledgerGrows_def chargesBelow_def)

lemma dbState_saved [simp]:
  "mc_reserved (dbTotal (updatedDb db st f)) = mc_reserved (ms_total st)"
  "mc_observed (dbTotal (updatedDb db st f)) = mc_observed (ms_total st)"
  "mc_unknown (dbTotal (updatedDb db st f)) = mc_unknown (ms_total st)"
  "dbClock (updatedDb db st f) = ms_highWater st"
  by (simp_all add: dbTotal_def dbClock_def updatedDb_def dbState_def loadedState_def savedRow_def rowCharges_def)

lemma reservedDb_updated: "reservedDb db st now r =
    updatedDb db (chargeReservation st now (mr_allowance r)) (upsertRow (reservationRow r))"
  by (simp add: reservedDb_def updatedDb_def)

lemma dbView_total [simp]:
  "mc_reserved (ms_total (dbView db)) = mc_reserved (dbTotal db)"
  "mc_observed (ms_total (dbView db)) = mc_observed (dbTotal db)"
  "mc_unknown (ms_total (dbView db)) = mc_unknown (dbTotal db)"
  by (simp_all add: dbView_def dbTotal_def accounted_def fullCharges_def split: option.splits)

lemma dbView_clock [simp]: "ms_highWater (dbState db) = dbClock db"
  by (simp add: dbClock_def)

lemma dbClock_absent: "md_budget db = None \<Longrightarrow> dbClock db = 0"
  by (simp add: dbClock_def dbState_def loadedState_def)

lemma dayState_total [simp]: "ms_total (dayState st now) = ms_total st"
  by (simp add: dayState_def)

lemma reserved_grows:
  assumes d64: "db64 (mds_db s)" and r: "reserving env s now0 scope job a limit st0 st r"
  shows "ledgerGrows (mds_db s) (reservedDb (mds_db s) st (toUTC now0) r)"
    "mc_reserved (dbTotal (reservedDb (mds_db s) st (toUTC now0) r)) = mc_reserved (dbTotal (mds_db s)) + a"
proof -
  note c = reserving_state [OF d64 r]
  have a: "1 \<le> a" "a \<le> 65536" using r by (auto simp: reserving_def reserveInputInvalid_def)
  have tot: "ms_total st = ms_total (dbView (mds_db s))" using c(1,9) by simp
  have "0 \<le> mc_reserved (ms_total st)" using c(3) by (auto simp: mdSound_def chargesSound_def)
  then have add: "add64 (mc_reserved (ms_total st)) a = mc_reserved (ms_total st) + a"
    using c(6) a by (intro guarded_add64(1)) auto
  show t: "mc_reserved (dbTotal (reservedDb (mds_db s) st (toUTC now0) r)) = mc_reserved (dbTotal (mds_db s)) + a"
    unfolding reservedDb_updated using add tot c(7) by (simp add: chargeReservation_def addReserved_def)
  have time: "metadataTime now0 = Inr (toUTC now0, nextMidnight now0)"
    and adm: "reserveAdmit st0 (toUTC now0) scope a limit = Inr st"
    using r by (auto simp: reserving_def)
  have "dbClock (mds_db s) \<le> t_ns now0"
    using reserveAdmit_ok(1) [OF adm] metadataTimeD [OF time] c(1) dbClock_absent [of "mds_db s"]
    by (cases "md_budget (mds_db s)") auto
  then show "ledgerGrows (mds_db s) (reservedDb (mds_db s) st (toUTC now0) r)"
    using t a tot metadataTimeD(5) [OF time] unfolding reservedDb_updated
    by (simp add: ledgerGrows_def chargesBelow_def chargeReservation_def addReserved_def)
qed

lemma raised_clock [simp]:
  "ms_highWater st \<le> ms_highWater (raisedHighWater st now)" "ms_total (raisedHighWater st now) = ms_total st"
  by (simp_all add: raisedHighWater_def)

lemma sumBy_member:
  "y \<in> set ys \<Longrightarrow> (\<And>z. z \<in> set ys \<Longrightarrow> 0 \<le> f z) \<Longrightarrow> f y \<le> sumBy f ys"
proof (induction ys)
  case (Cons z zs)
  have "0 \<le> f z" "0 \<le> sumBy f zs" using Cons.prems(2) by (auto intro: sumBy_nonneg)
  moreover have "y \<in> set zs \<Longrightarrow> f y \<le> sumBy f zs" using Cons by simp
  ultimately show ?case using Cons.prems(1) by auto
qed simp

lemma settled_total:
  assumes "mdInv db" "x \<in> set (md_rows db)" "rr_status x = ''reserved''" "0 \<le> n" "n \<le> rr_allowance x"
  shows "add64 (mc_observed (dbTotal db)) n = mc_observed (dbTotal db) + n"
proof -
  have sound: "mdSound (dbView db)" using mdSound_view mdInv_present assms by blast
  have "rowRecord x \<in> set (ms_records (dbView db))" using assms(2) by simp
  moreover have "heldOf (rowRecord x) = rr_allowance x" using assms(3) by (simp add: heldOf_def rowRecord_def)
  moreover have "heldOf (rowRecord x) \<le> heldSum (dbView db)"
  proof -
    have pos: "\<forall>r\<in>set (ms_records (dbView db)). 0 \<le> heldOf r"
      using sound recordSound_bounds(3) by (auto simp: mdSound_def)
    then show ?thesis using calculation(1) by (intro sumBy_member) auto
  qed
  ultimately have "n \<le> heldSum (dbView db)" using assms(5) by simp
  then show ?thesis
    using sound assms(4) chargesSound_add(1) [of "ms_total (dbView db)" "heldSum (dbView db)" n]
    by (simp add: mdSound_def)
qed

lemma settle_effect:
  assumes inv: "mdInv (mds_db s)" and call: "SettleMetadata env s q n now0 = (e, s')"
  shows "s' = s \<or> (\<exists>x. x \<in> set (md_rows (mds_db s)) \<and> metadataSame (rowRecord x) q \<and> rr_status x = ''reserved'' \<and>
      0 \<le> n \<and> n \<le> rr_allowance x \<and> unixNano (toUTC now0) \<le> maxInt64 \<and>
      s' = s\<lparr>mds_db := updatedDb (mds_db s) (settledState (dbView (mds_db s)) n (toUTC now0))
              (settleRows (rr_scope x) (rr_token x) n)\<rparr>)"
  using call
proof (cases rule: settleE)
  case (settled st r)
  have st: "st = dbView (mds_db s)" using metadataRead_ok(2) [OF mdInv_db64 [OF inv] settled(1)] .
  obtain x where x: "x \<in> set (md_rows (mds_db s))" "r = rowRecord x" using settled(2) unfolding st by auto
  have same: "mr_scope q = rr_scope x" "mr_token q = rr_token x" "mr_allowance q = rr_allowance x"
    using settled(3) x(2) by (auto simp: metadataSame_def rowRecord_def)
  have "mdSound (dbView (mds_db s))" using mdSound_view [OF inv mdInv_present [OF inv x(1)]] .
  then have res: "rr_status x = ''reserved''"
    using mdSound_status [OF _ settled(2) settled(4,5)] x(2) unfolding st by (simp add: rowRecord_def)
  have ub: "unixNano (toUTC now0) \<le> maxInt64" using metadataTimeD(4,5) [OF settled(9)] by simp
  have "s' = s \<or> s' = s\<lparr>mds_db := updatedDb (mds_db s) (settledState (dbView (mds_db s)) n (toUTC now0))
              (settleRows (rr_scope x) (rr_token x) n)\<rparr>"
    using updateReservations_cases(1) [OF settled(10)] unfolding st same by blast
  then show ?thesis
  proof (elim disjE)
    assume s': "s' = s\<lparr>mds_db := updatedDb (mds_db s) (settledState (dbView (mds_db s)) n (toUTC now0))
              (settleRows (rr_scope x) (rr_token x) n)\<rparr>"
    show ?thesis
      using x settled(3,7,8) same(3) res ub by (intro disjI2 exI [of _ x] conjI) (simp_all add: s')
  qed simp
qed auto

lemma settle_keeps:
  assumes inv: "mdInv (mds_db s)" and call: "SettleMetadata env s q n now0 = (e, s')"
  shows "mdInv (mds_db s') \<and> ledgerGrows (mds_db s) (mds_db s')"
  using settle_effect [OF assms]
proof (elim disjE exE conjE)
  assume "s' = s"
  then show ?thesis using inv by simp
next
  fix x
  assume x: "x \<in> set (md_rows (mds_db s))" "rr_status x = ''reserved''" "0 \<le> n" "n \<le> rr_allowance x"
    and ub: "unixNano (toUTC now0) \<le> maxInt64"
    and s': "s' = s\<lparr>mds_db := updatedDb (mds_db s) (settledState (dbView (mds_db s)) n (toUTC now0))
              (settleRows (rr_scope x) (rr_token x) n)\<rparr>"
  have "dbClock (mds_db s) \<le> ms_highWater (settledState (dbView (mds_db s)) n (toUTC now0))"
    by (simp add: settledState_def raisedHighWater_def)
  then have "ledgerGrows (mds_db s) (mds_db s')"
    using x(3) settled_total [OF inv x]
    by (simp add: ledgerGrows_def chargesBelow_def s' settledState_def addObserved_def)
  then show ?thesis using mdInv_settled [OF inv x ub] s' by simp
qed

lemma recover_effect:
  assumes inv: "mdInv (mds_db s)" and call: "RecoverMetadataReservations env s now0 = (res, s')"
  shows "s' = s \<or> (\<exists>st k. md_budget (mds_db s) \<noteq> None \<and> unixNano (toUTC now0) \<le> maxInt64 \<and>
      recoverCount (dbView (mds_db s)) 0 (ms_records (dbView (mds_db s))) = (st, k) \<and>
      s' = s\<lparr>mds_db := updatedDb (mds_db s) (raisedHighWater st (toUTC now0)) recoverRows\<rparr>)"
  using call
proof (cases rule: recoverE)
  case (read st0 st k)
  have st: "st0 = dbView (mds_db s)" using metadataRead_ok(2) [OF mdInv_db64 [OF inv] read(1)] .
  have ub: "unixNano (toUTC now0) \<le> maxInt64" using metadataTimeD(4,5) [OF read(2)] by simp
  show ?thesis
  proof (cases "s' = s")
    case False
    then have "k \<noteq> 0" using read(6) by (cases k) auto
    then have "md_budget (mds_db s) \<noteq> None"
      using read(3) inv unfolding st by (cases "md_budget (mds_db s)") (auto simp: mdInv_def)
    moreover have "s' = s\<lparr>mds_db := updatedDb (mds_db s) (raisedHighWater st (toUTC now0)) recoverRows\<rparr>"
      using read(6) \<open>k \<noteq> 0\<close> False
      by (auto split: prod.splits option.splits dest: updateReservations_cases)
    ultimately show ?thesis using ub read(3) unfolding st by blast
  qed simp
qed auto

lemma recover_keeps:
  assumes inv: "mdInv (mds_db s)" and call: "RecoverMetadataReservations env s now0 = (res, s')"
  shows "mdInv (mds_db s') \<and> ledgerGrows (mds_db s) (mds_db s')"
  using recover_effect [OF assms]
proof (elim disjE exE conjE)
  assume "s' = s"
  then show ?thesis using inv by simp
next
  fix st k
  assume p: "md_budget (mds_db s) \<noteq> None" and ub: "unixNano (toUTC now0) \<le> maxInt64"
    and c: "recoverCount (dbView (mds_db s)) 0 (ms_records (dbView (mds_db s))) = (st, k)"
    and s': "s' = s\<lparr>mds_db := updatedDb (mds_db s) (raisedHighWater st (toUTC now0)) recoverRows\<rparr>"
  note rec = mdInv_recovered [OF inv p ub c]
  have sound: "mdSound (dbView (mds_db s))" using mdSound_view [OF inv p] .
  then have "0 \<le> heldSum (dbView (mds_db s))" by (auto simp: mdSound_def chargesSound_def)
  moreover have "add64 (mc_unknown (dbTotal (mds_db s))) (heldSum (dbView (mds_db s))) =
      mc_unknown (dbTotal (mds_db s)) + heldSum (dbView (mds_db s))"
    using sound calculation
      chargesSound_add(2) [of "ms_total (dbView (mds_db s))" "heldSum (dbView (mds_db s))" "heldSum (dbView (mds_db s))"]
    by (simp add: mdSound_def)
  moreover have "dbClock (mds_db s) \<le> ms_highWater (raisedHighWater st (toUTC now0))"
    using raised_clock(1) [of st "toUTC now0"] rec(2) by simp
  ultimately have "ledgerGrows (mds_db s) (mds_db s')"
    using rec(2) by (simp add: ledgerGrows_def chargesBelow_def s' addUnknown_def)
  then show ?thesis using rec(1) s' by simp
qed

lemma reserve_keeps:
  assumes inv: "mdInv (mds_db s)" and call: "ReserveMetadata env s now scope job a limit = (res, s')"
    and early: "t_ns now < metadataHorizon"
  shows "mdInv (mds_db s') \<and> ledgerGrows (mds_db s) (mds_db s')"
  using call
proof (cases rule: reserveE)
  case (charged st0 st r)
  note fits = reserving_fits [OF charged(1) early] and d64 = mdInv_db64 [OF inv]
  show ?thesis
    using mdInv_reserved [OF d64 charged(1) fits] reserved_grows(1) [OF d64 charged(1)] charged(3) by simp
qed (simp add: inv)

lemma queue_keeps: "mdInv db \<Longrightarrow> mdInv (db\<lparr>md_jobs := j\<rparr>)" "ledgerGrows db (db\<lparr>md_jobs := j\<rparr>)"
  by (simp_all add: mdInv_def dbTyped_def dbState_def ledgerGrows_def dbTotal_def dbClock_def chargesBelow_def
      cong: option.case_cong)

lemma metadata_step_keeps:
  "mdInv (mds_db s) \<Longrightarrow> metadata_step s s' \<Longrightarrow> mdInv (mds_db s') \<and> ledgerGrows (mds_db s) (mds_db s')"
  by (erule metadata_stepE) (auto dest: reserve_keeps settle_keeps recover_keeps simp: queue_keeps)

interpretation metadata_runs: invariant_system metadata_step "\<lambda>s. mdInv (mds_db s)"
  by unfold_locales (use metadata_step_keeps in blast)

interpretation metadata_reserved: monotone_ledger metadata_step "\<lambda>s. mdInv (mds_db s)"
  "\<lambda>s. mc_reserved (dbTotal (mds_db s))"
  by unfold_locales (use metadata_step_keeps in \<open>auto simp: ledgerGrows_def chargesBelow_def\<close>)

interpretation metadata_observed: monotone_ledger metadata_step "\<lambda>s. mdInv (mds_db s)"
  "\<lambda>s. mc_observed (dbTotal (mds_db s))"
  by unfold_locales (use metadata_step_keeps in \<open>auto simp: ledgerGrows_def chargesBelow_def\<close>)

interpretation metadata_unknown: monotone_ledger metadata_step "\<lambda>s. mdInv (mds_db s)"
  "\<lambda>s. mc_unknown (dbTotal (mds_db s))"
  by unfold_locales (use metadata_step_keeps in \<open>auto simp: ledgerGrows_def chargesBelow_def\<close>)

interpretation metadata_clock: monotone_ledger metadata_step "\<lambda>s. mdInv (mds_db s)"
  "\<lambda>s. dbClock (mds_db s)"
  by unfold_locales (use metadata_step_keeps in \<open>auto simp: ledgerGrows_def\<close>)

end
