(* ===== verification/Metadata_Guarantees.thy ===== *)
theory Metadata_Guarantees
  imports Metadata_Store_Laws
begin

text \<open>
  What the metadata reservations promise: the ledger stays readable and balanced in every run, no
  charge is ever taken back, a reservation keeps within the daily limit and its lease, settling
  and recovering account for it exactly once, and the snapshot tells whether the next reservation
  would be deferred. The last theorem is about the final days an \<open>int64\<close> of nanoseconds can name.
\<close>

section \<open>What a read reports\<close>

definition balancedCharges :: "MetadataCharges \<Rightarrow> bool" where
  "balancedCharges c \<longleftrightarrow> 0 \<le> mc_observed c \<and> 0 \<le> mc_unknown c \<and> 0 \<le> mc_outstanding c \<and> 0 \<le> mc_unused c \<and>
     mc_reserved c = mc_observed c + mc_unknown c + mc_outstanding c + mc_unused c"

lemma view_balanced:
  assumes "mdInv db"
  shows "balancedCharges (ms_daily (dbView db))" "balancedCharges (ms_total (dbView db))"
    "mc_outstanding (ms_total (dbView db)) = heldSum (dbView db)"
    "mc_outstanding (ms_daily (dbView db)) = heldSum (dbView db)"
    "distinct (map mr_scope (ms_records (dbView db)))"
proof -
  have "balancedCharges (ms_daily (dbView db)) \<and> balancedCharges (ms_total (dbView db)) \<and>
      mc_outstanding (ms_total (dbView db)) = heldSum (dbView db) \<and>
      mc_outstanding (ms_daily (dbView db)) = heldSum (dbView db) \<and>
      distinct (map mr_scope (ms_records (dbView db)))" (is ?all)
  proof (cases "md_budget db")
    case None
    then show ?all using assms dbView_absent [OF None] by (simp add: mdInv_def balancedCharges_def)
  next
    case (Some b)
    then have "mdSound (dbState db)" "dbView db = accounted (dbState db)"
      using assms by (auto simp: mdInv_def dbView_def)
    then show ?all
      by (auto simp: mdSound_def accounted_def fullCharges_def balancedCharges_def chargesSound_def o_def)
  qed
  then show "balancedCharges (ms_daily (dbView db))" "balancedCharges (ms_total (dbView db))"
    "mc_outstanding (ms_total (dbView db)) = heldSum (dbView db)"
    "mc_outstanding (ms_daily (dbView db)) = heldSum (dbView db)"
    "distinct (map mr_scope (ms_records (dbView db)))" by blast+
qed

section \<open>A store and its clock\<close>

definition mxEnv :: metadata_env where
  "mxEnv = \<lparr>me_entry = None, me_err = (\<lambda>_. None), me_ctx = (\<lambda>_. None), me_applied = True,
     me_randErr = None, me_nonce = (\<lambda>_. 7)\<rparr>"

definition mxStore :: mdstore where
  "mxStore = \<lparr>mds_readOnly = False, mds_schema = 10,
     mds_db = \<lparr>md_budget = None, md_rows = [], md_jobs = Map.empty\<rparr>\<rparr>"

definition mxNow :: gotime where "mxNow = \<lparr>t_ns = 20000 * day_ns + 5, t_utc = True\<rparr>"

abbreviation mxReserve :: "(err + MetadataReservation) \<times> mdstore" where
  "mxReserve \<equiv> ReserveMetadata mxEnv mxStore mxNow MetadataStartup None 100 1000"

definition mxReserved :: mdstore where "mxReserved = snd mxReserve"

lemma mx_quiet: "quietEnv mxEnv"
  by (simp add: quietEnv_def mxEnv_def)

lemma mx_base: "mdInv (mds_db mxStore)" "db64 (mds_db mxStore)" "\<exists>st. metadataRead mxEnv (mds_db mxStore) = Inr st"
  using metadataRead_quiet [OF _ mx_quiet, of "mds_db mxStore"]
  by (auto simp: mxStore_def mdInv_def dbTyped_def db64_def)

lemma mx_early: "t_ns mxNow < metadataHorizon"
  by (simp add: mxNow_def metadataHorizon_def)

lemma mx_reserve_ok: "\<exists>r. mxReserve = (Inr r, mxReserved)"
proof -
  have "isl (fst mxReserve) = False" by code_simp
  then show ?thesis by (cases mxReserve) (auto simp: mxReserved_def isl_def, metis sum.exhaust)
qed

lemma mx_run: "metadata_step\<^sup>*\<^sup>* mxStore mxReserved"
  using mx_reserve_ok metadata_step.reserve [OF _ mx_early] by blast

section \<open>Every run\<close>

text \<open>A run of the store: calls of the three transactions under any answers of the environment and
  changes of the jobs table by the queue. The list holds the clock readings of its reservations.\<close>

inductive metadata_run :: "mdstore \<Rightarrow> gotime list \<Rightarrow> mdstore \<Rightarrow> bool" where
  idle: "metadata_run s [] s"
| reserve: "metadata_run s clock t \<Longrightarrow> ReserveMetadata env t now scope job a limit = (res, u) \<Longrightarrow>
    metadata_run s (clock @ [now]) u"
| settle: "metadata_run s clock t \<Longrightarrow> SettleMetadata env t q n now = (e, u) \<Longrightarrow> metadata_run s clock u"
| recover: "metadata_run s clock t \<Longrightarrow> RecoverMetadataReservations env t now = (out, u) \<Longrightarrow> metadata_run s clock u"
| queue: "metadata_run s clock t \<Longrightarrow> metadata_run s clock (t\<lparr>mds_db := (mds_db t)\<lparr>md_jobs := jobs\<rparr>\<rparr>)"

lemma metadata_run_steps:
  assumes "metadata_run s clock t" "\<forall>now\<in>set clock. t_ns now < metadataHorizon"
  shows "metadata_step\<^sup>*\<^sup>* s t"
  using assms by (induction rule: metadata_run.induct) (auto intro: metadata_step.intros rtranclp.rtrancl_into_rtrancl)

lemma mx_timed_run: "metadata_run mxStore [mxNow] mxReserved" "\<forall>now\<in>set [mxNow]. t_ns now < metadataHorizon"
  using mx_reserve_ok metadata_run.reserve [OF metadata_run.idle, of mxEnv mxStore mxNow] mx_early by auto

text \<open>Property C26. From a store whose metadata ledger reads without error, whatever sequence of
  reservations, settlements, recoveries and job changes follows, under any answers of the context
  and the driver, commits of unknown outcome included, and as long as every reservation reads its
  clock before \<open>metadataHorizon\<close>, the start of the last UTC day that an \<open>int64\<close> of nanoseconds
  covers in full (10 April 2262), the ledger reads again without error as soon as the database
  answers. C30 shows what a reservation on that day does. And what is read balances for the day and for all time: reserved
  is observed plus unknown plus outstanding plus known unused, nothing is negative, the
  outstanding sum is that of the rows still reserved, and no scope has two rows.\<close>

theorem metadata_ledger_stays_sound:
  assumes "db64 (mds_db s)" "metadataRead env0 (mds_db s) = Inr st0" "metadata_run s clock t"
    "\<forall>now\<in>set clock. t_ns now < metadataHorizon" "quietEnv env"
  shows "\<exists>st. metadataRead env (mds_db t) = Inr st \<and> balancedCharges (ms_daily st) \<and>
     balancedCharges (ms_total st) \<and> mc_outstanding (ms_total st) = sumBy heldOf (ms_records st) \<and>
     mc_outstanding (ms_daily st) = sumBy heldOf (ms_records st) \<and>
     distinct (map mr_scope (ms_records st))"
proof -
  have "mdInv (mds_db t)"
    using metadata_runs.run_inv [OF metadata_run_steps [OF assms(3,4)]] metadataRead_ok(1) [OF assms(1,2)] .
  then show ?thesis using metadataRead_quiet [OF _ assms(5)] view_balanced by blast
qed

theorem metadata_ledger_stays_sound_witness:
  "\<exists>st. metadataRead mxEnv (mds_db mxReserved) = Inr st \<and> balancedCharges (ms_total st)"
proof -
  obtain st0 where "metadataRead mxEnv (mds_db mxStore) = Inr st0" using mx_base(3) by blast
  then show ?thesis
    using metadata_ledger_stays_sound [OF mx_base(2) _ mx_timed_run mx_quiet] by blast
qed

text \<open>Property C27. No charge is ever taken back: in every run of the store the lifetime sums of
  reserved, observed and unknown attempts and the clock high-water mark of the ledger never
  decrease, as two reads of it report them, when the reservations read their clocks before
  \<open>metadataHorizon\<close>.\<close>

theorem metadata_never_refunded:
  assumes "db64 (mds_db s)" "metadataRead env0 (mds_db s) = Inr st0" "metadata_run s clock t"
    "\<forall>now\<in>set clock. t_ns now < metadataHorizon" "metadataRead env (mds_db t) = Inr st"
  shows "mc_reserved (ms_total st0) \<le> mc_reserved (ms_total st) \<and>
     mc_observed (ms_total st0) \<le> mc_observed (ms_total st) \<and>
     mc_unknown (ms_total st0) \<le> mc_unknown (ms_total st) \<and> ms_highWater st0 \<le> ms_highWater st"
proof -
  have inv: "mdInv (mds_db s)" and st0: "st0 = dbView (mds_db s)"
    using metadataRead_ok [OF assms(1,2)] by auto
  note run = metadata_run_steps [OF assms(3,4)]
  have "mdInv (mds_db t)" using metadata_runs.run_inv [OF run inv] .
  then have st: "st = dbView (mds_db t)" using metadataRead_ok(2) [OF mdInv_db64 assms(5)] by blast
  show ?thesis
    using metadata_reserved.run_level [OF run inv] metadata_observed.run_level [OF run inv]
      metadata_unknown.run_level [OF run inv] metadata_clock.run_level [OF run inv]
    unfolding st st0 by simp
qed

theorem metadata_never_refunded_witness:
  "\<exists>st. metadataRead mxEnv (mds_db mxReserved) = Inr st \<and> 0 \<le> mc_reserved (ms_total st)"
proof -
  have inv: "mdInv (mds_db mxReserved)" using metadata_runs.run_inv [OF mx_run mx_base(1)] .
  note reads = metadataRead_quiet [OF mx_base(1) mx_quiet] metadataRead_quiet [OF inv mx_quiet]
  have "ms_total (dbView (mds_db mxStore)) = noCharges"
    using dbView_absent [of "mds_db mxStore"] by (simp add: mxStore_def)
  then show ?thesis
    using reads(2) metadata_never_refunded [OF mx_base(2) reads(1) mx_timed_run reads(2)] by simp
qed

section \<open>Single calls\<close>

lemma view_updated [simp]:
  "mc_reserved (ms_daily (dbView (updatedDb db st f))) = mc_reserved (ms_daily st)"
  "mc_observed (ms_daily (dbView (updatedDb db st f))) = mc_observed (ms_daily st)"
  "mc_unknown (ms_daily (dbView (updatedDb db st f))) = mc_unknown (ms_daily st)"
  "ms_day (dbState (updatedDb db st f)) = ms_day st"
  "md_rows (updatedDb db st f) = f (md_rows db)"
  by (simp_all add: dbView_def updatedDb_def dbState_def loadedState_def savedRow_def rowCharges_def
      accounted_def fullCharges_def)

lemma metadataSame_extend [simp]: "metadataSame (MetadataReservation.extend r m) r"
  by (simp add: metadataSame_def MetadataReservation.defs tEqual_def)

lemma upserted_member: "r \<in> set (upsertRow r rows)"
  by (auto simp: upsertRow_def list_ex_iff set_insort_key)

lemma reserved_row:
  assumes "db64 (mds_db s)" "reserving env s now0 scope job a limit st0 st r"
    "t_ns (mr_expires r) < 106751 * day_ns"
  shows "\<exists>x\<in>set (ms_records (dbView (reservedDb (mds_db s) st (toUTC now0) r))).
     metadataSame x r \<and> mr_status x = ''reserved''"
proof
  show "rowRecord (reservationRow r) \<in> set (ms_records (dbView (reservedDb (mds_db s) st (toUTC now0) r)))"
    using upserted_member unfolding reservedDb_updated by simp
  show "metadataSame (rowRecord (reservationRow r)) r \<and> mr_status (rowRecord (reservationRow r)) = ''reserved''"
    unfolding reserving_charge(2) [OF assms]
    by (simp add: MetadataReservation.defs metadataRecord.defs metadataSame_def tEqual_def)
qed

text \<open>Property C28. A reservation that succeeds at a clock reading before \<open>metadataHorizon\<close> (C30 is
  about the day that starts there) is valid, of the scope and allowance asked for, and
  the ledger read afterwards holds it as reserved on the UTC day of the call; that day's charges,
  this allowance included, are within the daily limit of the call; it expires no later than the
  next UTC midnight, and a reservation for a job no later than the lease of that job, which is
  running and holds the same token.\<close>

theorem reserve_within_limits:
  assumes "db64 (mds_db s)" "ReserveMetadata env s now scope job a limit = (Inr r, s')"
    "t_ns now < metadataHorizon" "quietEnv env'"
  shows "\<exists>st. metadataRead env' (mds_db s') = Inr st \<and> metadataReservationValid r \<and> mr_scope r = scope \<and>
     mr_allowance r = a \<and> (\<exists>x\<in>set (ms_records st). metadataSame x r \<and> mr_status x = ''reserved'') \<and>
     ms_day st = formatDay now \<and> a \<le> mc_reserved (ms_daily st) \<and> mc_reserved (ms_daily st) \<le> limit \<and>
     t_ns (mr_expires r) \<le> t_ns (nextMidnight now) \<and>
     (\<forall>j. job = Some j \<longrightarrow> (\<exists>row. md_jobs (mds_db s) (sj_id j) = Some row \<and> jr_token row = sj_token j \<and>
        jr_status row = ''running'' \<and> t_ns (mr_expires r) \<le> jr_until row))"
  using assms(2)
proof (cases rule: reserveE)
  case (charged st0 st r')
  then have r': "r' = r" by blast
  note res = charged(1) [unfolded r']
  note fits = reserving_fits [OF res assms(3)]
  note c = reserving_state [OF assms(1) res]
  let ?db = "reservedDb (mds_db s) st (toUTC now) r"
  have inv: "mdInv ?db" using mdInv_reserved [OF assms(1) res fits] .
  have read: "metadataRead env' (mds_db s') = Inr (dbView ?db)"
    using metadataRead_quiet [OF inv assms(4)] charged(3) r' by simp
  have adm: "reserveAdmit st0 (toUTC now) scope a limit = Inr st"
    and inp: "\<not> reserveInputInvalid scope job a limit"
    using res by (auto simp: reserving_def)
  have d: "0 \<le> mc_reserved (ms_daily st)" "mc_reserved (ms_daily st) \<le> maxInt64"
    using c(3) by (auto simp: mdSound_def chargesSound_def)
  have lim: "1 \<le> a" "a \<le> 65536" "limit \<le> MetadataDailyLimit" using inp by (auto simp: reserveInputInvalid_def)
  have "a \<le> limit - mc_reserved (ms_daily st)"
    using reserveAdmit_ok(4,5) [OF adm] d lim by (simp add: sub64_def i64_def)
  then have daily: "mc_reserved (ms_daily (dbView ?db)) = mc_reserved (ms_daily st) + a"
    "mc_reserved (ms_daily st) + a \<le> limit"
    using d lim c(7) unfolding reservedDb_updated
    by (simp_all add: chargeReservation_def addReserved_def add64_def i64_def)
  have day: "ms_day (dbView ?db) = formatDay now"
    using c(4) unfolding reservedDb_updated by (simp add: chargeReservation_def)
  note held = reserved_row [OF assms(1) res fits]
  obtain r0 where f: "jobFence env (mds_db s) (toUTC now) job
      (freshReservation st scope a (toUTC now) (nextMidnight now)) = Inr r0" "r = r0\<lparr>mr_token := nonceToken env\<rparr>"
    using res by (auto simp: reserving_def)
  have lease: "\<exists>row. md_jobs (mds_db s) (sj_id j) = Some row \<and> jr_token row = sj_token j \<and>
        jr_status row = ''running'' \<and> t_ns (mr_expires r) \<le> jr_until row" if j: "job = Some j" for j
  proof -
    have "scope = MetadataNext" using inp j by (auto simp: reserveInputInvalid_def)
    then show ?thesis using jobFence_ok [OF f(1)] j f(2) by (auto simp: freshReservation_def)
  qed
  have "t_ns (mr_expires r) \<le> t_ns (nextMidnight now)"
    using jobFence_ok [OF f(1)] f(2) by (auto simp: freshReservation_def)
  then show ?thesis
    using read reserving_charge(1) [OF assms(1) res fits] c(7,8) held day daily d lease by (intro exI [of _ "dbView ?db"]) auto
qed simp

theorem reserve_within_limits_witness:
  "\<exists>r st. mxReserve = (Inr r, mxReserved) \<and> metadataRead mxEnv (mds_db mxReserved) = Inr st \<and>
     mc_reserved (ms_daily st) \<le> 1000"
proof -
  obtain r where "mxReserve = (Inr r, mxReserved)" using mx_reserve_ok by blast
  then show ?thesis using reserve_within_limits [OF mx_base(2) _ mx_early mx_quiet] by blast
qed

lemma same_valid:
  assumes "metadataSame a b" "metadataReservationValid a"
  shows "metadataReservationValid b"
  using assms
  by (simp add: metadataSame_def tEqual_def reservationValid_iff formatDay_def utcDay_def midnight_ns)

lemma settle_call:
  assumes "quietEnv env" "metadataWriter s = None" "metadataTime now0 = Inr (now, midnight)"
    "metadataReservationValid q" "0 \<le> n" "n \<le> mr_allowance q" "metadataRead env (mds_db s) = Inr st"
    "find (\<lambda>r. metadataSame r q) (ms_records st) = Some r"
  shows "SettleMetadata env s q n now0 =
     (if mr_status r = ''unknown'' then (Some ErrMetadataStale, s)
      else if mr_status r = ''settled''
      then if mr_observed r = Some n then (None, s) else (Some ErrMetadataStale, s)
      else updateReservations env s (settledState st n now) (settleRows (mr_scope q) (mr_token q) n))"
  using assms by (simp add: SettleMetadata_def)

lemma find_same:
  assumes "distinct (map mr_scope rs)" "x \<in> set rs" "metadataSame x q"
  shows "find (\<lambda>r. metadataSame r q) rs = Some x"
proof -
  have "find (\<lambda>r. metadataSame r q) rs \<noteq> None" using assms(2,3) by (auto simp: find_None_iff)
  then obtain y where y: "find (\<lambda>r. metadataSame r q) rs = Some y" by blast
  then have "y \<in> set rs" "metadataSame y q" by (auto simp: find_Some_iff)
  then have "mr_scope y = mr_scope x" using assms(3) by (simp add: metadataSame_def)
  then have "y = x" using assms(1,2) \<open>y \<in> set rs\<close> by (auto simp: distinct_map dest: inj_onD)
  then show ?thesis using y by simp
qed

text \<open>The ledger after a reserved row was settled.\<close>

lemma settled_view:
  assumes inv: "mdInv db" and x: "x \<in> set (md_rows db)" "rr_status x = ''reserved''"
    and n: "0 \<le> n" "n \<le> rr_allowance x" and now: "unixNano now \<le> maxInt64"
    and db': "db' = updatedDb db (settledState (dbView db) n now) (settleRows (rr_scope x) (rr_token x) n)"
  shows "mdInv db'" "mc_reserved (ms_total (dbView db')) = mc_reserved (ms_total (dbView db))"
    "mc_observed (ms_total (dbView db')) = mc_observed (ms_total (dbView db)) + n"
    "mc_unknown (ms_total (dbView db')) = mc_unknown (ms_total (dbView db))"
    "mc_outstanding (ms_total (dbView db')) = mc_outstanding (ms_total (dbView db)) - rr_allowance x"
    "(rowRecord x)\<lparr>mr_status := ''settled'', mr_observed := Some n\<rparr> \<in> set (ms_records (dbView db'))"
proof -
  show inv': "mdInv db'" using mdInv_settled [OF inv x n now] db' by simp
  show "mc_reserved (ms_total (dbView db')) = mc_reserved (ms_total (dbView db))"
    "mc_observed (ms_total (dbView db')) = mc_observed (ms_total (dbView db)) + n"
    "mc_unknown (ms_total (dbView db')) = mc_unknown (ms_total (dbView db))"
    using settled_total [OF inv x n] by (simp_all add: db' settledState_def addObserved_def)
  let ?r = "(rowRecord x)\<lparr>mr_status := ''settled'', mr_observed := Some n\<rparr>"
  have repl: "replaces ?r (ms_records (dbView db)) (ms_records (dbView db'))"
    using settleRows_replaces [OF mdInv_scopes [OF inv] x(1)] by (simp add: db')
  have "sumBy heldOf (filter (\<lambda>y. mr_scope y = mr_scope ?r) (ms_records (dbView db))) = heldOf (rowRecord x)"
    using x(1) view_balanced(5) [OF inv] by (intro replaces_same_scope) auto
  moreover have "heldOf (rowRecord x) = rr_allowance x" "heldOf ?r = 0"
    using x(2) by (auto simp: heldOf_def rowRecord_def)
  ultimately show "mc_outstanding (ms_total (dbView db')) = mc_outstanding (ms_total (dbView db)) - rr_allowance x"
    using replaces_sum [OF repl, of heldOf] unfolding view_balanced(3) [OF inv] view_balanced(3) [OF inv'] by simp
  show "?r \<in> set (ms_records (dbView db'))" using replaces_set [OF repl] by blast
qed

lemma settle_outstanding:
  assumes "db64 (mds_db s)" "metadataRead env (mds_db s) = Inr st" "quietEnv env" "metadataWriter s = None"
    "metadataTime now0 = Inr (now, midnight)" "metadataTime later = Inr (now', midnight')"
    "x \<in> set (ms_records st)" "mr_status x = ''reserved''" "metadataSame x q"
    "0 \<le> n" "n \<le> mr_allowance q" "0 \<le> m" "m \<le> mr_allowance q" "m \<noteq> n"
  shows "\<exists>s' st'. SettleMetadata env s q n now0 = (None, s') \<and> metadataRead env (mds_db s') = Inr st' \<and>
     mc_reserved (ms_total st') = mc_reserved (ms_total st) \<and>
     mc_observed (ms_total st') = mc_observed (ms_total st) + n \<and>
     mc_outstanding (ms_total st') = mc_outstanding (ms_total st) - mr_allowance q \<and>
     mc_unused (ms_total st') = mc_unused (ms_total st) + (mr_allowance q - n) \<and>
     SettleMetadata env s' q n later = (None, s') \<and>
     SettleMetadata env s' q m later = (Some ErrMetadataStale, s')"
proof -
  let ?db = "mds_db s"
  have inv: "mdInv ?db" and st: "st = dbView ?db" using metadataRead_ok [OF assms(1,2)] by auto
  obtain y where y: "y \<in> set (md_rows ?db)" "x = rowRecord y" using assms(7) unfolding st by auto
  have same: "mr_scope q = rr_scope y" "mr_token q = rr_token y" "mr_allowance q = rr_allowance y"
    using assms(9) y(2) by (auto simp: metadataSame_def rowRecord_def)
  have res: "rr_status y = ''reserved''" using assms(8) y(2) by (simp add: rowRecord_def)
  have nowb: "unixNano now \<le> maxInt64" using metadataTimeD(4,5) [OF assms(5)] by simp
  have "metadataReservationValid x"
    using mdSound_view [OF inv mdInv_present [OF inv y(1)]] assms(7) by (auto simp: st mdSound_def recordSound_def)
  then have valid: "metadataReservationValid q" using same_valid [OF assms(9)] by simp
  define db' where "db' = updatedDb ?db (settledState (dbView ?db) n now) (settleRows (rr_scope y) (rr_token y) n)"
  define s' where "s' = s\<lparr>mds_db := db'\<rparr>"
  have n: "n \<le> rr_allowance y" using assms(11) same(3) by simp
  note v = settled_view [OF inv y(1) res assms(10) n nowb db'_def]
  have writer: "metadataWriter s' = None" using assms(4) by (simp add: s'_def metadataWriter_def split: if_splits)
  have "find (\<lambda>r. metadataSame r q) (ms_records st) = Some x"
    using view_balanced(5) [OF inv] assms(7,9) unfolding st by (rule find_same)
  then have first: "SettleMetadata env s q n now0 = (None, s')"
    using settle_call [OF assms(3,4,5) valid assms(10,11,2)] assms(8) updateReservations_quiet [OF assms(3)]
    by (simp add: st same s'_def db'_def)
  have read: "metadataRead env (mds_db s') = Inr (dbView db')"
    using metadataRead_quiet [OF v(1) assms(3)] by (simp add: s'_def)
  let ?r = "(rowRecord y)\<lparr>mr_status := ''settled'', mr_observed := Some n\<rparr>"
  have "metadataSame ?r q" using assms(9) y(2) by (simp add: metadataSame_def)
  then have f: "find (\<lambda>r. metadataSame r q) (ms_records (dbView db')) = Some ?r"
    using view_balanced(5) [OF v(1)] v(6) by (intro find_same)
  have again: "SettleMetadata env s' q n later = (None, s')" "SettleMetadata env s' q m later = (Some ErrMetadataStale, s')"
    using settle_call [OF assms(3) writer assms(6) valid assms(10,11) read f]
      settle_call [OF assms(3) writer assms(6) valid assms(12,13) read f] assms(14) by simp_all
  have "mc_unused (ms_total (dbView db')) = mc_unused (ms_total st) + (mr_allowance q - n)"
    using view_balanced(2) [OF inv] view_balanced(2) [OF v(1)] v same(3) by (simp add: st balancedCharges_def)
  then show ?thesis
    using first read v(2,3,5) again same(3) unfolding st
    by (intro exI [of _ s'] exI [of _ "dbView db'"] conjI) simp_all
qed

text \<open>Property C29. Settling an outstanding reservation with \<open>n\<close> observed attempts succeeds: the
  charge stays reserved, \<open>n\<close> attempts become observed and the rest known unused. The settlement is
  final and idempotent: settling it again with \<open>n\<close> succeeds at any later clock reading and changes
  nothing, and settling it with any other count is stale and changes nothing.\<close>

theorem settle_accounts_once:
  assumes "db64 (mds_db s)" "metadataRead env (mds_db s) = Inr st" "quietEnv env" "metadataWriter s = None"
    "metadataTime now0 = Inr (now, midnight)" "metadataTime later = Inr (now', midnight')"
    "x \<in> set (ms_records st)" "mr_status x = ''reserved''" "metadataSame x q"
    "0 \<le> n" "n \<le> mr_allowance q" "0 \<le> m" "m \<le> mr_allowance q" "m \<noteq> n"
  shows "\<exists>s' st'. SettleMetadata env s q n now0 = (None, s') \<and> metadataRead env (mds_db s') = Inr st' \<and>
     mc_reserved (ms_total st') = mc_reserved (ms_total st) \<and>
     mc_observed (ms_total st') = mc_observed (ms_total st) + n \<and>
     mc_outstanding (ms_total st') = mc_outstanding (ms_total st) - mr_allowance q \<and>
     mc_unused (ms_total st') = mc_unused (ms_total st) + (mr_allowance q - n) \<and>
     SettleMetadata env s' q n later = (None, s') \<and>
     SettleMetadata env s' q m later = (Some ErrMetadataStale, s')"
  using assms by (rule settle_outstanding)

lemma mx_settle_facts: "metadataTime mxNow = Inr (mxNow, nextMidnight mxNow)" "metadataWriter mxReserved = None"
  by (simp add: metadataTime_eq mxNow_def toUTC_def, code_simp)

theorem settle_accounts_once_witness:
  "\<exists>r s'. mxReserve = (Inr r, mxReserved) \<and> SettleMetadata mxEnv mxReserved r 40 mxNow = (None, s') \<and>
     SettleMetadata mxEnv s' r 40 mxNow = (None, s') \<and>
     SettleMetadata mxEnv s' r 41 mxNow = (Some ErrMetadataStale, s')"
proof -
  obtain r where r: "mxReserve = (Inr r, mxReserved)" using mx_reserve_ok by blast
  have inv: "mdInv (mds_db mxReserved)" using metadata_runs.run_inv [OF mx_run mx_base(1)] .
  note read = metadataRead_quiet [OF inv mx_quiet]
  obtain x where "x \<in> set (ms_records (dbView (mds_db mxReserved)))" "metadataSame x r" "mr_status x = ''reserved''"
    "mr_allowance r = 100"
    using r
  proof (cases rule: reserveE)
    case (charged st0 st r')
    then have r': "r' = r" by blast
    have db: "mds_db mxReserved = reservedDb (mds_db mxStore) st (toUTC mxNow) r"
      using arg_cong [OF charged(3), of mds_db] r' by simp
    show thesis
      using reserved_row [OF mx_base(2) charged(1) reserving_fits [OF charged(1) mx_early]]
        charged(2) that unfolding r' db by blast
  qed simp
  then show ?thesis
    using settle_accounts_once [OF mdInv_db64 [OF inv] read mx_quiet mx_settle_facts(2,1,1), of x r 40 41] r by auto
qed

lemma recover_call:
  assumes "quietEnv env" "metadataWriter s = None" "metadataTime now0 = Inr (now, midnight)"
    "metadataRead env (mds_db s) = Inr st0" "recoverCount st0 0 (ms_records st0) = (st, k)"
  shows "RecoverMetadataReservations env s now0 =
     (if k = 0 then (Inr 0, s)
      else (Inr k, s\<lparr>mds_db := updatedDb (mds_db s) (raisedHighWater st now) recoverRows\<rparr>))"
  using assms by (simp add: RecoverMetadataReservations_def updateReservations_quiet)

lemma recoverCount_none:
  assumes "\<And>r. r \<in> set rs \<Longrightarrow> mr_status r \<noteq> ''reserved''"
  shows "recoverCount st k rs = (st, k)"
  using assms by (induction rs) simp_all

lemma recovered_view:
  assumes inv: "mdInv db" and pres: "md_budget db \<noteq> None" and now: "unixNano now \<le> maxInt64"
    and c: "recoverCount (dbView db) 0 (ms_records (dbView db)) = (st, k)"
    and db': "db' = updatedDb db (raisedHighWater st now) recoverRows"
  shows "mdInv db'" "mc_reserved (ms_total (dbView db')) = mc_reserved (ms_total (dbView db))"
    "mc_observed (ms_total (dbView db')) = mc_observed (ms_total (dbView db))"
    "mc_unknown (ms_total (dbView db')) = mc_unknown (ms_total (dbView db)) + mc_outstanding (ms_total (dbView db))"
    "mc_outstanding (ms_total (dbView db')) = 0"
    "\<forall>r\<in>set (ms_records (dbView db')). mr_status r \<noteq> ''reserved''"
proof -
  note rec = mdInv_recovered [OF inv pres now c]
  show inv': "mdInv db'" using rec(1) db' by simp
  have sound: "mdSound (dbView db)" using mdSound_view [OF inv pres] .
  then have "0 \<le> heldSum (dbView db)" by (auto simp: mdSound_def chargesSound_def)
  then have "add64 (mc_unknown (dbTotal db)) (heldSum (dbView db)) = mc_unknown (dbTotal db) + heldSum (dbView db)"
    using sound chargesSound_add(2) [of "ms_total (dbView db)" "heldSum (dbView db)" "heldSum (dbView db)"]
    by (simp add: mdSound_def)
  then show "mc_reserved (ms_total (dbView db')) = mc_reserved (ms_total (dbView db))"
    "mc_observed (ms_total (dbView db')) = mc_observed (ms_total (dbView db))"
    "mc_unknown (ms_total (dbView db')) = mc_unknown (ms_total (dbView db)) + mc_outstanding (ms_total (dbView db))"
    using rec(2) view_balanced(3) [OF inv] by (simp_all add: db' addUnknown_def)
  have recs: "ms_records (dbView db') = map lostRecord (map rowRecord (md_rows db))"
    using recoverRows_lost by (simp add: db')
  show "\<forall>r\<in>set (ms_records (dbView db')). mr_status r \<noteq> ''reserved''"
    unfolding recs by (auto simp: lostRecord_def)
  then show "mc_outstanding (ms_total (dbView db')) = 0"
    unfolding view_balanced(3) [OF inv'] by (intro notHeld) blast
qed

text \<open>Recovery after lost work turns every outstanding allowance into an unknown
  charge, reports how many reservations it closed and leaves nothing outstanding; what was
  reserved and observed stays as it was. Repeating it reports zero and changes nothing.\<close>

theorem recovery_closes_everything:
  assumes "db64 (mds_db s)" "metadataRead env (mds_db s) = Inr st" "quietEnv env" "metadataWriter s = None"
    "metadataTime now0 = Inr (now, midnight)" "metadataTime later = Inr (now', midnight')"
  shows "\<exists>s' st'. RecoverMetadataReservations env s now0 =
       (Inr (length (filter (\<lambda>r. mr_status r = ''reserved'') (ms_records st))), s') \<and>
     metadataRead env (mds_db s') = Inr st' \<and> mc_outstanding (ms_total st') = 0 \<and>
     mc_unknown (ms_total st') = mc_unknown (ms_total st) + mc_outstanding (ms_total st) \<and>
     mc_reserved (ms_total st') = mc_reserved (ms_total st) \<and>
     mc_observed (ms_total st') = mc_observed (ms_total st) \<and>
     RecoverMetadataReservations env s' later = (Inr 0, s')"
proof -
  let ?db = "mds_db s"
  have inv: "mdInv ?db" and st: "st = dbView ?db" using metadataRead_ok [OF assms(1,2)] by auto
  show ?thesis
  proof (cases "\<exists>r\<in>set (ms_records st). mr_status r = ''reserved''")
    case False
    then have idle: "recoverCount st 0 (ms_records st) = (st, 0)"
      "filter (\<lambda>r. mr_status r = ''reserved'') (ms_records st) = []"
      by (auto intro: recoverCount_none simp: filter_empty_conv)
    moreover have "heldSum st = 0" using False by (intro notHeld) blast
    then have "mc_outstanding (ms_total st) = 0" using view_balanced(3) [OF inv] by (simp add: st)
    ultimately show ?thesis
      using recover_call [OF assms(3,4,5,2)] recover_call [OF assms(3,4,6,2)] assms(2)
      by (intro exI [of _ s] exI [of _ st]) simp
  next
    case True
    obtain st1 k where c: "recoverCount (dbView ?db) 0 (ms_records (dbView ?db)) = (st1, k)" by fastforce
    obtain y where y: "y \<in> set (md_rows ?db)" "rr_status y = ''reserved''"
      using True unfolding st by (auto simp: rowRecord_def)
    have nowb: "unixNano now \<le> maxInt64" using metadataTimeD(4,5) [OF assms(5)] by simp
    note pres = mdInv_present [OF inv y(1)]
    define db' where "db' = updatedDb ?db (raisedHighWater st1 now) recoverRows"
    note v = recovered_view [OF inv pres nowb c db'_def]
    define s' where "s' = s\<lparr>mds_db := db'\<rparr>"
    have k: "k = length (filter (\<lambda>r. mr_status r = ''reserved'') (ms_records st))"
      using mdInv_recovered(3) [OF inv pres nowb c] by (simp add: st filter_map o_def rowRecord_def)
    then have "k \<noteq> 0" using True by (auto simp: filter_empty_conv)
    then have first: "RecoverMetadataReservations env s now0 = (Inr k, s')"
      using recover_call [OF assms(3,4,5,2)] c unfolding st by (simp add: s'_def db'_def)
    have read: "metadataRead env (mds_db s') = Inr (dbView db')"
      using metadataRead_quiet [OF v(1) assms(3)] by (simp add: s'_def)
    have "metadataWriter s' = None" using assms(4) by (simp add: s'_def metadataWriter_def split: if_splits)
    then have "RecoverMetadataReservations env s' later = (Inr 0, s')"
      using recover_call [OF assms(3) _ assms(6) read recoverCount_none] v(6) by simp
    then show ?thesis
      using first read v unfolding k st
      by (intro exI [of _ s'] exI [of _ "dbView db'"] conjI) simp_all
  qed
qed

theorem recovery_closes_everything_witness:
  "\<exists>s' st'. RecoverMetadataReservations mxEnv mxReserved mxNow = (Inr 1, s') \<and>
     metadataRead mxEnv (mds_db s') = Inr st' \<and> mc_unknown (ms_total st') = 100 \<and>
     RecoverMetadataReservations mxEnv s' mxNow = (Inr 0, s')"
proof -
  have inv: "mdInv (mds_db mxReserved)" using metadata_runs.run_inv [OF mx_run mx_base(1)] .
  note read = metadataRead_quiet [OF inv mx_quiet]
  have "length (filter (\<lambda>r. mr_status r = ''reserved'') (ms_records (dbView (mds_db mxReserved)))) = 1"
    "mc_unknown (ms_total (dbView (mds_db mxReserved))) + mc_outstanding (ms_total (dbView (mds_db mxReserved))) = 100"
    by code_simp+
  then show ?thesis
    using recovery_closes_everything [OF mdInv_db64 [OF inv] read mx_quiet mx_settle_facts(2,1,1)] by auto
qed

lemma outstanding_iff:
  assumes inv: "mdInv db"
  shows "mc_outstanding (ms_total (dbView db)) > 0 \<longleftrightarrow>
     (\<exists>x\<in>set (ms_records (dbView db)). mr_status x = ''reserved'')"
proof
  assume "mc_outstanding (ms_total (dbView db)) > 0"
  then have "heldSum (dbView db) \<noteq> 0" using view_balanced(3) [OF inv] by linarith
  then show "\<exists>x\<in>set (ms_records (dbView db)). mr_status x = ''reserved''"
    using notHeld [of "ms_records (dbView db)"] by blast
next
  assume "\<exists>x\<in>set (ms_records (dbView db)). mr_status x = ''reserved''"
  then obtain x where x: "x \<in> set (ms_records (dbView db))" "mr_status x = ''reserved''" by blast
  have "md_budget db \<noteq> None" using x(1) mdInv_present [OF inv] by auto
  then have all: "\<And>z. z \<in> set (ms_records (dbView db)) \<Longrightarrow> recordSound (dbView db) z"
    using mdSound_view [OF inv] by (auto simp: mdSound_def)
  then have "heldOf x \<le> heldSum (dbView db)" using x(1) recordSound_bounds(3) by (intro sumBy_member) blast+
  moreover have "1 \<le> heldOf x" using recordSound_bounds(1) [OF all [OF x(1)]] x(2) by (simp add: heldOf_def)
  ultimately show "mc_outstanding (ms_total (dbView db)) > 0" using view_balanced(3) [OF inv] by linarith
qed

lemma snapshot_deferral:
  assumes "db64 db" "metadataRead env db = Inr st" "metadataTime now0 = Inr (now, midnight)"
    "1 \<le> a" "1 \<le> limit" "limit \<le> MetadataDailyLimit"
    "b = metadataSnapshot st now midnight limit"
  shows "(\<exists>e. reserveAdmit st now scope a limit = Inl (ErrJoin ErrMetadataDeferred e)) \<longleftrightarrow>
     mb_reason b \<noteq> [] \<or>
     (\<exists>x\<in>set (ms_records st). mr_status x = ''reserved'' \<and> mr_scope x = scope) \<or>
     limit - (case mb_dayCharges b of None \<Rightarrow> 0 | Some c \<Rightarrow> mc_reserved c) < a"
proof -
  have inv: "mdInv db" and st: "st = dbView db" using metadataRead_ok [OF assms(1,2)] by auto
  have nano: "unixNano now = t_ns now" using metadataTimeD [OF assms(3)] by simp
  show ?thesis
  proof (cases "md_budget db")
    case None
    then have "ms_records st = []" "ms_daily st = noCharges" "\<not> ms_present st" "ms_total st = noCharges"
      using inv dbView_absent [OF None] by (auto simp: st mdInv_def)
    moreover have "sub64 limit 0 = limit" "sub64 maxInt64 0 = maxInt64"
      using assms(5,6) by (simp_all add: sub64_def i64_def)
    ultimately show ?thesis
      using assms(4-7) by (auto simp: reserveAdmit_def outstandingBlocks_def dayState_def metadataSnapshot_def Let_def)
  next
    case (Some bb)
    then have sound: "mdSound st" and pres: "ms_present st" using mdSound_view [OF inv] by (auto simp: st)
    have res: "mr_day x = ms_day st" if "x \<in> set (ms_records st)" "mr_status x = ''reserved''" for x
      using sound that by (auto simp: mdSound_def recordSound_def statusSound_def)
    obtain d where d: "ms_day st = DayOf d" "d \<le> ms_highWater st div day_ns"
      using sound by (cases "ms_day st") (auto simp: mdSound_def headerRefused_def formatDay_def utcDay_def)
    have daily: "0 \<le> mc_reserved (ms_daily st)" "mc_reserved (ms_daily st) \<le> maxInt64"
      using sound by (auto simp: mdSound_def chargesSound_def)
    have subs: "sub64 limit (mc_reserved (ms_daily st)) = limit - mc_reserved (ms_daily st)" "sub64 limit 0 = limit"
      using daily assms(5,6) by (simp_all add: sub64_def i64_def)
    note out = outstanding_iff [OF inv, folded st]
    show ?thesis
    proof (cases "t_ns now < ms_highWater st")
      case True
      then show ?thesis
        using pres by (simp add: assms(7) reserveAdmit_def metadataSnapshot_def nano Let_def)
    next
      case False
      have le: "d \<le> utcDay now" using d(2) False day_mono [of "ms_highWater st" "t_ns now"] by (simp add: utcDay_def)
      show ?thesis
      proof (cases "d < utcDay now")
        case True
        have ob: "outstandingBlocks st scope now \<longleftrightarrow> (\<exists>x\<in>set (ms_records st). mr_status x = ''reserved'')"
          using res d True by (auto simp: outstandingBlocks_def list_ex_iff formatDay_def)
        show ?thesis
          using pres False d True assms(4) out
          by (auto simp: assms(7) reserveAdmit_def metadataSnapshot_def nano Let_def formatDay_def ob dayState_def subs)
      next
        case nr: False
        then have day: "ms_day st = formatDay now" using d le by (simp add: formatDay_def)
        have ob: "outstandingBlocks st scope now \<longleftrightarrow> (\<exists>x\<in>set (ms_records st). mr_status x = ''reserved'' \<and> mr_scope x = scope)"
          using res day by (auto simp: outstandingBlocks_def list_ex_iff)
        have "\<not> dayAfter (formatDay now) (ms_day st)" using day by (simp add: formatDay_def)
        then show ?thesis
          using pres False assms(4)
          by (auto simp: assms(7) reserveAdmit_def metadataSnapshot_def nano Let_def ob dayState_def subs)
      qed
    qed
  qed
qed

text \<open>The snapshot tells the next reservation's fate: for a valid allowance and limit,
  the checks of \<open>ReserveMetadata\<close> defer it exactly when the snapshot of the same instant gives a
  reason to wait, or the scope still has an outstanding reservation, or the allowance exceeds what
  the snapshot's day has left of the limit.\<close>

theorem snapshot_predicts_deferral:
  assumes "db64 db" "metadataRead env db = Inr st" "metadataTime now0 = Inr (now, midnight)"
    "1 \<le> a" "a \<le> MetadataAllowanceLimit" "1 \<le> limit" "limit \<le> MetadataDailyLimit"
    "b = metadataSnapshot st now midnight limit"
  shows "(\<exists>e. reserveAdmit st now scope a limit = Inl (ErrJoin ErrMetadataDeferred e)) \<longleftrightarrow>
     mb_reason b \<noteq> [] \<or>
     (\<exists>x\<in>set (ms_records st). mr_status x = ''reserved'' \<and> mr_scope x = scope) \<or>
     limit - (case mb_dayCharges b of None \<Rightarrow> 0 | Some c \<Rightarrow> mc_reserved c) < a"
  using assms(1-4,6-8) by (rule snapshot_deferral)

lemma mx_snapshot_facts:
  "mb_reason (metadataSnapshot (dbView (mds_db mxReserved)) mxNow (nextMidnight mxNow) 150) = []"
  "mb_dayCharges (metadataSnapshot (dbView (mds_db mxReserved)) mxNow (nextMidnight mxNow) 150) =
     Some (ms_daily (dbView (mds_db mxReserved)))"
  "mc_reserved (ms_daily (dbView (mds_db mxReserved))) = 100"
  by code_simp+

theorem snapshot_predicts_deferral_witness:
  "\<exists>e. reserveAdmit (dbView (mds_db mxReserved)) mxNow MetadataNext 60 150 = Inl (ErrJoin ErrMetadataDeferred e)"
proof -
  have inv: "mdInv (mds_db mxReserved)" using metadata_runs.run_inv [OF mx_run mx_base(1)] .
  have n: "(1::int) \<le> 60" "(60::int) \<le> MetadataAllowanceLimit" "(1::int) \<le> 150" "(150::int) \<le> MetadataDailyLimit"
    by simp_all
  show ?thesis
    using snapshot_predicts_deferral [OF mdInv_db64 [OF inv] metadataRead_quiet [OF inv mx_quiet]
        mx_settle_facts(1) n refl, where scope = MetadataNext]
    by (simp add: mx_snapshot_facts)
qed

section \<open>The end of the calendar\<close>

lemma last_midnight:
  assumes "metadataHorizon \<le> t_ns t" "t_ns t < 106751 * day_ns"
  shows "t_ns (nextMidnight t) = 106751 * day_ns"
proof -
  define q where "q = t_ns t div day_ns"
  have "q * day_ns \<le> t_ns t" "t_ns t < (q + 1) * day_ns" using day_bracket by (simp_all add: q_def)
  then have "q = 106750" using assms by (simp add: metadataHorizon_def)
  then show ?thesis by (simp add: midnight_ns q_def)
qed

lemma upsert_length: "length (upsertRow r rows) \<le> Suc (length rows)"
  by (simp add: upsertRow_def)

text \<open>Property C30. On the last day that an \<open>int64\<close> of nanoseconds covers in full, a startup
  reservation is accepted and committed, but its expiry at midnight is an instant whose own next
  midnight cannot be named: the reservation just written is not valid for the reader, and every
  later read of the ledger reports corruption.\<close>

theorem last_day_reservation_corrupts:
  assumes "db64 (mds_db s)" "ReserveMetadata env s now MetadataStartup None a limit = (Inr r, s')"
    "metadataHorizon \<le> t_ns now" "quietEnv env'"
  shows "metadataRead env' (mds_db s') = Inl ErrMetadataCorrupt"
  using assms(2)
proof (cases rule: reserveE)
  case (charged st0 st r')
  then have r': "r' = r" by blast
  note res = charged(1) [unfolded r'] and c = reserving_state [OF assms(1) charged(1) [unfolded r']]
  let ?db = "reservedDb (mds_db s) st (toUTC now) r"
  have time: "metadataTime now = Inr (toUTC now, nextMidnight now)" using res by (simp add: reserving_def)
  have exp: "mr_expires r = nextMidnight now"
    using res by (auto simp: reserving_def jobFence_def freshReservation_def)
  have mid: "t_ns (nextMidnight now) = 106751 * day_ns"
    using last_midnight [OF assms(3)] metadataTimeD(4) [OF time] by simp
  then have "\<not> metadataReservationValid (rowRecord (reservationRow r))"
    using exp by (simp add: reservationValid_iff rowRecord_def reservationRow_def unixNano_def i64_def)
  moreover have "rowRecord (reservationRow r) \<in> set (ms_records (dbState ?db))"
    using upserted_member by (simp add: reservedDb_def)
  ultimately have bad: "\<not> mdSound (dbState ?db)" by (auto simp: mdSound_def recordSound_def)
  have a: "1 \<le> a" "a \<le> 65536" using res by (auto simp: reserving_def reserveInputInvalid_def)
  have wrapped: "minInt64 \<le> add64 u v" "add64 u v \<le> maxInt64" for u v
    using arith64_i64(1) [of u v] by (simp_all add: i64_def)
  have d64: "db64 ?db"
    using c(3,6,7) a metadataTimeD(6) [OF time] c(10) wrapped
    by (auto simp: db64_def reservedDb_def savedRow_def chargeReservation_def addReserved_def mdSound_def
        chargesSound_def chargesBelow_def headerRefused_def i64_def)
  have rows: "take 3 (md_rows ?db) = md_rows ?db"
    using upsert_length [of "reservationRow r" "md_rows (mds_db s)"] mdInv_rows [OF c(2)]
    by (simp add: reservedDb_def)
  have typed: "list_all rr_typed (md_rows ?db)" "br_typed (savedRow q)" for q
    using reserved_typed [OF c(2)] by (simp_all add: dbTyped_def savedRow_def)
  have some: "md_budget ?db = Some (savedRow (chargeReservation st (toUTC now) (mr_allowance r)))"
    by (simp add: reservedDb_def)
  have "metadataRead env' ?db = metadataCheck (dbState ?db)"
    using assms(4) scanRows_quiet [OF assms(4) typed(1)] typed(2)
    by (simp add: metadataRead_def some rows dbState_def)
  also have "\<dots> = Inl ErrMetadataCorrupt" using metadataCheck_db [OF d64] bad some by simp
  finally show ?thesis using charged(3) r' by simp
qed simp

definition mxLast :: gotime where "mxLast = \<lparr>t_ns = 106750 * day_ns + 5, t_utc = True\<rparr>"

theorem last_day_reservation_corrupts_witness:
  "\<exists>r s'. ReserveMetadata mxEnv mxStore mxLast MetadataStartup None 100 1000 = (Inr r, s') \<and>
     metadataRead mxEnv (mds_db s') = Inl ErrMetadataCorrupt"
proof -
  have "isl (fst (ReserveMetadata mxEnv mxStore mxLast MetadataStartup None 100 1000)) = False" by code_simp
  then obtain r s' where "ReserveMetadata mxEnv mxStore mxLast MetadataStartup None 100 1000 = (Inr r, s')"
    by (metis isl_def prod.collapse sum.exhaust)
  moreover have "metadataHorizon \<le> t_ns mxLast" by (simp add: mxLast_def metadataHorizon_def)
  ultimately show ?thesis using last_day_reservation_corrupts [OF mx_base(2) _ _ mx_quiet] by blast
qed

end
