(* ===== verification/Metadata_Window.thy ===== *)
theory Metadata_Window
  imports Metadata_Budget
begin

text \<open>
  The worker's side of a metadata reservation: the permit window of
  \<^verbatim>\<open>src/internal/worker/metadata_window.go\<close>, which admits scanner calls against the charged
  allowance while both clocks are within its deadlines, the readiness check before work is
  claimed and the settlement after it, and the pacer of \<^verbatim>\<open>src/internal/worker/api_pacing.go\<close>,
  which spaces the admitted calls. A mutex makes each method one step.
\<close>

section \<open>Windows\<close>

record metadataWindow =
  mw_reservation :: MetadataReservation
  mw_deadline :: gotime
  mw_wallDeadline :: gotime
  mw_highWater :: gotime
  mw_observed :: int

text \<open>What a context answers during one call: whether it is nil, its cause and its error when a
  permit starts, its cause and its error at the fence, and the time until its deadline.\<close>

record permit_ctx =
  pc_nil :: bool
  pc_entryCause :: "err option"
  pc_entryErr :: "err option"
  pc_cause :: "err option"
  pc_err :: "err option"
  pc_until :: "int option"

abbreviation MaxAPIAttemptAllowance :: int where "MaxAPIAttemptAllowance \<equiv> 65536"

definition apiKinds :: "string list" where
  "apiKinds = [''stat'', ''directory_open'', ''directory_read'', ''filesystem_stat'', ''mount_identity'',
     ''path_resolution'']"

definition metadataWindowWithClocks :: "MetadataReservation \<Rightarrow> int \<Rightarrow> gotime \<Rightarrow> gotime \<Rightarrow> metadataWindow" where
  "metadataWindowWithClocks reservation work wall0 elapsed =
     (let wall = toUTC wall0;
          wallDeadline = minTime (tAdd (mr_started reservation) work) (mr_expires reservation);
          remaining = min (tSub wallDeadline wall) work
      in \<lparr>mw_reservation = reservation, mw_deadline = tAdd elapsed remaining,
          mw_wallDeadline = wallDeadline, mw_highWater = mr_clock reservation, mw_observed = 0\<rparr>)"

definition fenceLocked :: "metadataWindow \<Rightarrow> permit_ctx \<Rightarrow> gotime \<Rightarrow> gotime \<Rightarrow> (err + int) \<times> metadataWindow" where
  "fenceLocked w ctx wall0 elapsed =
     (if pc_nil ctx \<or> mr_allowance (mw_reservation w) < 1 \<or>
         mr_allowance (mw_reservation w) > MetadataAllowanceLimit
      then (Inl ErrMetadataInvalid, w)
      else
        let wall = toUTC (round0 wall0);
            rollback = tBefore wall (mw_highWater w);
            w1 = (if tAfter wall (mw_highWater w) then w\<lparr>mw_highWater := wall\<rparr> else w)
        in case pc_cause ctx of
             Some c \<Rightarrow> (Inl (the (joinOpt (pc_err ctx) (Some c))), w1)
           | None \<Rightarrow>
               if rollback then (Inl ErrMetadataRollback, w1)
               else
                 let r0 = min (min (tSub (mw_wallDeadline w1) wall)
                                   (tSub (mr_expires (mw_reservation w1)) wall))
                              (tSub (mw_deadline w1) elapsed);
                     remaining = (case pc_until ctx of None \<Rightarrow> r0 | Some u \<Rightarrow> min r0 u)
                 in if remaining \<le> 0 then (Inl ErrMetadataExpired, w1) else (Inr remaining, w1))"

definition permitAt :: "metadataWindow \<Rightarrow> permit_ctx \<Rightarrow> string \<Rightarrow> gotime \<Rightarrow> gotime \<Rightarrow> err option \<times> metadataWindow" where
  "permitAt w ctx kind wall elapsed =
     (if pc_nil ctx then (Some ErrMetadataInvalid, w)
      else case pc_entryCause ctx of
        Some c \<Rightarrow> (joinOpt (pc_entryErr ctx) (Some c), w)
      | None \<Rightarrow>
          if kind \<notin> set apiKinds then (Some ErrMetadataInvalid, w)
          else case fenceLocked w ctx wall elapsed of
            (Inl e, w1) \<Rightarrow> (Some e, w1)
          | (Inr _, w1) \<Rightarrow>
              if mw_observed w1 \<ge> mr_allowance (mw_reservation w1)
              then (Some ErrMetadataExhausted, w1)
              else (None, w1\<lparr>mw_observed := add64 (mw_observed w1) 1\<rparr>))"

definition usage :: "metadataWindow \<Rightarrow> int \<times> gotime" where
  "usage w = (mw_observed w, mw_highWater w)"

definition inheritHighWater :: "metadataWindow \<Rightarrow> metadataWindow \<Rightarrow> metadataWindow" where
  "inheritHighWater w previous =
     (let w1 = (if tAfter (mw_highWater previous) (mw_highWater w)
                then w\<lparr>mw_highWater := mw_highWater previous\<rparr> else w)
      in w1\<lparr>mw_deadline := minTime (mw_deadline w1) (mw_deadline previous),
            mw_wallDeadline := minTime (mw_wallDeadline w1) (mw_wallDeadline previous)\<rparr>)"

section \<open>Readiness and settlement\<close>

text \<open>The instant, reason and error of \<open>metadataReadiness\<close>; Go's zero time is \<open>zeroTime\<close>.\<close>

definition metadataReadiness :: "MetadataBudget \<Rightarrow> gotime \<Rightarrow> int \<Rightarrow> gotime \<times> string \<times> err option" where
  "metadataReadiness b now startup =
     (if \<not> mb_available b then (zeroTime, [], Some ErrMetadataUnavailable)
      else if mb_reason b \<noteq> []
      then (case mb_nextAllowedAt b of
              None \<Rightarrow> (zeroTime, [], Some ErrMetadataOutstanding)
            | Some t \<Rightarrow> (t, mb_reason b, None))
      else
        let used = (case mb_dayCharges b of None \<Rightarrow> 0 | Some c \<Rightarrow> mc_reserved c);
            needed = add64 MaxAPIAttemptAllowance startup
        in if startup < 0 \<or> startup > MaxAPIAttemptAllowance \<or> mb_limit b < 1 \<or> used < 0
           then (zeroTime, [], Some ErrMetadataInvalid)
           else if used > mb_limit b \<or> needed > sub64 (mb_limit b) used
           then (nextMidnight (toUTC now), ''daily_metadata_limit'', None)
           else (zeroTime, [], None))"

abbreviation ErrAPIPermitDenied :: err where "ErrAPIPermitDenied \<equiv> Sentinel 90"

definition metadataInterruption :: "err option \<Rightarrow> bool" where
  "metadataInterruption e \<longleftrightarrow>
     optIs e ErrAPIPermitDenied \<or> optIs e ContextCanceled \<or> optIs e ContextDeadlineExceeded"

fun settleNow :: "gotime \<Rightarrow> metadataWindow list \<Rightarrow> gotime" where
  "settleNow now [] = now"
| "settleNow now (w # ws) = settleNow (if tAfter (snd (usage w)) now then snd (usage w) else now) ws"

fun settleWindows :: "(nat \<Rightarrow> metadata_env) \<Rightarrow> mdstore \<Rightarrow> metadataWindow list \<Rightarrow> gotime \<Rightarrow> err option \<times> mdstore" where
  "settleWindows envs s [] now = (None, s)"
| "settleWindows envs s (w # ws) now =
     (case SettleMetadata (envs 0) s (mw_reservation w) (fst (usage w)) now of
        (Some e, s1) \<Rightarrow> (Some e, s1)
      | (None, s1) \<Rightarrow> settleWindows (\<lambda>i. envs (Suc i)) s1 ws now)"

definition settleMetadata :: "(nat \<Rightarrow> metadata_env) \<Rightarrow> mdstore \<Rightarrow> metadataWindow list \<Rightarrow> bool \<Rightarrow> gotime \<Rightarrow>
    err option \<times> mdstore" where
  "settleMetadata envs s windows unknown now0 =
     (if windows = [] then (None, s)
      else
        let now = settleNow now0 windows in
        if unknown
        then (case RecoverMetadataReservations (envs 0) s now of
                (Inl e, s1) \<Rightarrow> (Some e, s1) | (Inr _, s1) \<Rightarrow> (None, s1))
        else settleWindows envs s windows now)"

section \<open>Pacing\<close>

record APIPacingBounds =
  ap_startup :: int
  ap_minimumNext :: int
  ap_maximumNext :: int
  ap_finalValidation :: int
  ap_entry :: int

record sourceAPIPacer =
  sp_rate :: int
  sp_spacing :: int
  sp_work :: int
  sp_entrySpace :: int
  sp_bounds :: APIPacingBounds
  sp_lastWall :: gotime
  sp_lastElapsed :: gotime
  sp_highWall :: gotime
  sp_highElapsed :: gotime
  sp_waitNS :: int
  sp_waiting :: bool
  sp_ready :: bool
  sp_profileBlocked :: bool

text \<open>Go's integer division truncates toward zero.\<close>

definition goDiv :: "int \<Rightarrow> int \<Rightarrow> int" where "goDiv a b = a sdiv b"

definition spacingOf :: "int \<Rightarrow> int" where
  "spacingOf rate = goDiv (sub64 (add64 second_ns rate) 1) rate"

definition capacity :: "sourceAPIPacer \<Rightarrow> bool \<Rightarrow> bool \<times> sourceAPIPacer" where
  "capacity p construction =
     (let n0 = ap_minimumNext (sp_bounds p);
          n = (if construction then add64 n0 (ap_startup (sp_bounds p)) else n0);
          half = goDiv (sp_work p) 2;
          ready = (\<not> sp_profileBlocked p \<and> n \<le> goDiv (sub64 half (sp_entrySpace p)) (sp_spacing p) \<and>
                   half \<ge> sp_entrySpace p)
      in (ready, p\<lparr>sp_ready := ready\<rparr>))"

definition boundInvalid :: "int \<Rightarrow> bool" where
  "boundInvalid n \<longleftrightarrow> n < 1 \<or> n > MaxAPIAttemptAllowance"

definition newSourceAPIPacer :: "int \<Rightarrow> int \<Rightarrow> int \<Rightarrow> APIPacingBounds \<Rightarrow> bool \<Rightarrow> err + sourceAPIPacer option" where
  "newSourceAPIPacer rate work entryRate bounds clocks =
     (if rate < 0 \<or> rate > 100000 \<or> work \<le> 0 \<or> entryRate < 1 \<or> entryRate > 100000
      then Inl ErrAPIPacingInput
      else if rate = 0 then Inr None
      else if boundInvalid (ap_startup bounds) \<or> boundInvalid (ap_minimumNext bounds) \<or>
              boundInvalid (ap_finalValidation bounds) \<or> boundInvalid (ap_entry bounds) \<or> \<not> clocks
      then Inl ErrAPIPacingInput
      else Inr (Some (snd (capacity
        \<lparr>sp_rate = rate, sp_spacing = spacingOf rate, sp_work = work, sp_entrySpace = spacingOf entryRate,
         sp_bounds = bounds, sp_lastWall = zeroTime, sp_lastElapsed = zeroTime, sp_highWall = zeroTime,
         sp_highElapsed = zeroTime, sp_waitNS = 0, sp_waiting = False, sp_ready = False,
         sp_profileBlocked = False\<rparr> True))))"

definition blockProfile :: "sourceAPIPacer \<Rightarrow> sourceAPIPacer" where
  "blockProfile p = p\<lparr>sp_profileBlocked := True, sp_ready := False\<rparr>"

definition pacerDelay :: "sourceAPIPacer \<Rightarrow> gotime \<Rightarrow> gotime \<Rightarrow> (err + int) \<times> sourceAPIPacer" where
  "pacerDelay p wall0 elapsed =
     (let wall = toUTC (round0 wall0);
          rollback = (tBefore wall (sp_highWall p) \<or> tBefore elapsed (sp_highElapsed p));
          p1 = (if tAfter wall (sp_highWall p) then p\<lparr>sp_highWall := wall\<rparr> else p);
          p2 = (if tAfter elapsed (sp_highElapsed p1) then p1\<lparr>sp_highElapsed := elapsed\<rparr> else p1)
      in if rollback then (Inl ErrMetadataRollback, p2)
         else if isZero (sp_lastWall p2) then (Inr 0, p2)
         else (Inr (max (max 0 (tSub (tAdd (sp_lastWall p2) (sp_spacing p2)) wall))
                        (tSub (tAdd (sp_lastElapsed p2) (sp_spacing p2)) elapsed)), p2))"

text \<open>\<open>addWait\<close> on the 64-bit unsigned counter: the compare-and-swap retries until its addition is
  the one that is stored.\<close>

definition addWait :: "sourceAPIPacer \<Rightarrow> int \<Rightarrow> sourceAPIPacer" where
  "addWait p wait =
     (if wait \<le> 0 then p
      else p\<lparr>sp_waitNS := (if wait > maxUint64 - sp_waitNS p then maxUint64
                           else (sp_waitNS p + wait) mod 18446744073709551616)\<rparr>)"

definition pacerFence :: "sourceAPIPacer \<Rightarrow> metadataWindow \<Rightarrow> permit_ctx \<Rightarrow> gotime \<Rightarrow> gotime \<Rightarrow>
    (err + int \<times> int) \<times> sourceAPIPacer \<times> metadataWindow" where
  "pacerFence p w ctx wall elapsed =
     (let (d, p1) = pacerDelay p wall elapsed;
          (f, w1) = fenceLocked w ctx wall elapsed
      in (case f of
            Inl e \<Rightarrow> Inl e
          | Inr remaining \<Rightarrow> (case d of Inl e \<Rightarrow> Inl e | Inr delay \<Rightarrow> Inr (remaining, delay)),
          p1, w1))"

text \<open>The rounds of \<open>permit\<close>: what the clocks answer in each, and the context at its fence and then
  at its permit, and how long the timer
  wait that ends the round took. The loop goes on while rounds are given; \<open>None\<close> is a caller still
  waiting.\<close>

record pace_round =
  pr_ctx :: permit_ctx
  pr_permitCtx :: permit_ctx
  pr_wall :: gotime
  pr_elapsed :: gotime
  pr_waited :: int

fun pacedPermit :: "sourceAPIPacer \<Rightarrow> metadataWindow \<Rightarrow> string \<Rightarrow> pace_round list \<Rightarrow>
    (err option) option \<times> sourceAPIPacer \<times> metadataWindow" where
  "pacedPermit p w kind [] = (None, p, w)"
| "pacedPermit p w kind (r # rs) =
     (let wall = toUTC (round0 (pr_wall r)); elapsed = pr_elapsed r in
      case pacerFence p w (pr_ctx r) wall elapsed of
        (Inl e, p1, w1) \<Rightarrow> (Some (Some e), p1, w1)
      | (Inr (remaining, delay), p1, w1) \<Rightarrow>
          if delay = 0
          then (case permitAt w1 (pr_permitCtx r) kind wall elapsed of
                  (Some e, w2) \<Rightarrow> (Some (Some e), p1, w2)
                | (None, w2) \<Rightarrow> (Some None, p1\<lparr>sp_lastWall := wall, sp_lastElapsed := elapsed\<rparr>, w2))
          else pacedPermit ((addWait (p1\<lparr>sp_waiting := True\<rparr>) (pr_waited r))\<lparr>sp_waiting := False\<rparr>) w1 kind rs)"

definition entryCapacity :: "sourceAPIPacer \<Rightarrow> metadataWindow \<Rightarrow> permit_ctx \<Rightarrow> gotime \<Rightarrow> gotime \<Rightarrow> int \<Rightarrow>
    (err + bool) \<times> sourceAPIPacer \<times> metadataWindow" where
  "entryCapacity p w ctx wall0 elapsed calls =
     (let wall = toUTC (round0 wall0) in
      case pacerFence p w ctx wall elapsed of
        (Inl e, p1, w1) \<Rightarrow> (Inl e, p1, w1)
      | (Inr (remaining, delay), p1, w1) \<Rightarrow>
          if calls < 1 \<or> calls > MaxAPIAttemptAllowance then (Inl ErrAPIPacingInput, p1, w1)
          else (Inr (delay \<le> remaining \<and> calls \<le> goDiv (sub64 remaining delay) (sp_spacing p1)), p1, w1))"

text \<open>The methods that a nil pacer answers too.\<close>

definition capacityOf :: "sourceAPIPacer option \<Rightarrow> bool \<Rightarrow> bool \<times> sourceAPIPacer option" where
  "capacityOf p construction =
     (case p of None \<Rightarrow> (True, None)
      | Some q \<Rightarrow> (let (ready, q1) = capacity q construction in (ready, Some q1)))"

record APIPacingSnapshot =
  ps_ratePerSecond :: int
  ps_capacityReady :: bool
  ps_waitNS :: int
  ps_waiting :: bool

definition pacerSnapshot :: "sourceAPIPacer option \<Rightarrow> APIPacingSnapshot option" where
  "pacerSnapshot p = map_option (\<lambda>q. \<lparr>ps_ratePerSecond = sp_rate q, ps_capacityReady = sp_ready q,
     ps_waitNS = sp_waitNS q, ps_waiting = sp_waiting q\<rparr>) p"

definition pacerReason :: "sourceAPIPacer option \<Rightarrow> string" where
  "pacerReason p = (case p of None \<Rightarrow> []
     | Some q \<Rightarrow> if sp_profileBlocked q then ''api_profile_blocked'' else ''api_capacity_blocked'')"

definition blockedReason :: "sourceAPIPacer option \<Rightarrow> bool \<Rightarrow> string" where
  "blockedReason p ready = (if ready then [] else pacerReason p)"

end
