(* ===== verification/Metadata_Window_Guarantees.thy ===== *)
theory Metadata_Window_Guarantees
  imports Metadata_Window Metadata_Guarantees
begin

text \<open>
  What the permit window and the pacer promise, and what the window and the ledger promise
  together: a window never admits more calls than were charged or beyond its deadlines, its usage
  settles its reservation, a ready snapshot covers the reservations of the next operation, and
  paced calls keep their rate on both clocks.
\<close>

section \<open>Windows\<close>

text \<open>A history of one window: permits, pacing fences, and the evidence inherited from the window
  before it; the run counts the permits that were granted.\<close>

datatype window_event =
  PermitEvent permit_ctx string gotime gotime
  | FenceEvent permit_ctx gotime gotime
  | InheritEvent metadataWindow

definition windowStep :: "metadataWindow \<Rightarrow> window_event \<Rightarrow> bool \<times> metadataWindow" where
  "windowStep w e = (case e of
       PermitEvent ctx kind wall elapsed \<Rightarrow>
         (fst (permitAt w ctx kind wall elapsed) = None, snd (permitAt w ctx kind wall elapsed))
     | FenceEvent ctx wall elapsed \<Rightarrow> (False, snd (fenceLocked w ctx wall elapsed))
     | InheritEvent previous \<Rightarrow> (False, inheritHighWater w previous))"

fun runWindow :: "nat \<Rightarrow> metadataWindow \<Rightarrow> window_event list \<Rightarrow> nat \<times> metadataWindow" where
  "runWindow k w [] = (k, w)"
| "runWindow k w (e # es) =
     (let (granted, w1) = windowStep w e in runWindow (if granted then Suc k else k) w1 es)"

text \<open>What every step of a window keeps of a window that has admitted some calls.\<close>

definition windowSound :: "metadataWindow \<Rightarrow> metadataWindow \<Rightarrow> bool" where
  "windowSound w0 w \<longleftrightarrow>
     mw_reservation w = mw_reservation w0 \<and> 0 \<le> mw_observed w \<and>
     mw_observed w \<le> mr_allowance (mw_reservation w) \<and> mr_allowance (mw_reservation w) \<le> 65536 \<and>
     t_ns (mw_highWater w0) \<le> t_ns (mw_highWater w) \<and> t_ns (mw_deadline w) \<le> t_ns (mw_deadline w0) \<and>
     t_ns (mw_wallDeadline w) \<le> t_ns (mw_wallDeadline w0)"

lemma fenceLocked_state:
  assumes "fenceLocked w ctx wall elapsed = (f, w1)"
  shows "w1 = w \<or> (w1 = w\<lparr>mw_highWater := toUTC wall\<rparr> \<and> t_ns (mw_highWater w) < t_ns wall)"
  using assms by (auto simp: fenceLocked_def Let_def go_arith split: if_splits option.splits)

lemma fenceLocked_ok:
  assumes "fenceLocked w ctx wall elapsed = (Inr remaining, w1)"
  shows "t_ns (mw_highWater w) \<le> t_ns wall" "t_ns wall < t_ns (mw_wallDeadline w)"
    "t_ns wall < t_ns (mr_expires (mw_reservation w))" "t_ns elapsed < t_ns (mw_deadline w)"
    "0 < remaining"
proof -
  have ok: "\<not> tBefore (toUTC wall) (mw_highWater w)" "0 < remaining"
    "remaining \<le> min (min (tSub (mw_wallDeadline w) (toUTC wall))
         (tSub (mr_expires (mw_reservation w)) (toUTC wall))) (tSub (mw_deadline w) elapsed)"
    using assms by (auto simp: fenceLocked_def Let_def split: if_splits option.splits)
  then show "t_ns (mw_highWater w) \<le> t_ns wall" "0 < remaining" by (simp_all add: go_arith)
  have "0 < tSub (mw_wallDeadline w) (toUTC wall)" "0 < tSub (mr_expires (mw_reservation w)) (toUTC wall)"
    "0 < tSub (mw_deadline w) elapsed"
    using ok by auto
  then show "t_ns wall < t_ns (mw_wallDeadline w)" "t_ns wall < t_ns (mr_expires (mw_reservation w))"
    "t_ns elapsed < t_ns (mw_deadline w)"
    by (simp_all add: tSub_pos_iff)
qed

lemma permitAt_granted:
  assumes "permitAt w ctx kind wall elapsed = (None, w2)"
  obtains remaining w1 where "fenceLocked w ctx wall elapsed = (Inr remaining, w1)"
    "mw_observed w1 < mr_allowance (mw_reservation w1)" "w2 = w1\<lparr>mw_observed := add64 (mw_observed w1) 1\<rparr>"
proof -
  obtain f w1 where f: "fenceLocked w ctx wall elapsed = (f, w1)" by fastforce
  have join: "(joinOpt a (Some b) = None) = False" for a b by (simp add: joinOpt_def split: option.splits)
  show thesis
  proof (cases f)
    case (Inl e)
    then show thesis
      using assms by (simp add: permitAt_def f join split: if_splits option.splits)
  next
    case (Inr remaining)
    then have "mw_observed w1 < mr_allowance (mw_reservation w1)" "w2 = w1\<lparr>mw_observed := add64 (mw_observed w1) 1\<rparr>"
      using assms by (auto simp: permitAt_def f join split: if_splits option.splits)
    then show thesis using that f Inr by blast
  qed
qed

lemma permitAt_refused:
  assumes "permitAt w ctx kind wall elapsed = (Some e, w2)"
  shows "w2 = w \<or> w2 = snd (fenceLocked w ctx wall elapsed)"
  using assms by (auto simp: permitAt_def split: if_splits option.splits sum.splits prod.splits)

lemma windowStep_sound:
  assumes "windowSound w0 w" "windowStep w e = (granted, w')"
  shows "windowSound w0 w'" "mw_observed w' = mw_observed w + (if granted then 1 else 0)"
proof -
  have fence: "windowSound w0 w1 \<and> mw_observed w1 = mw_observed w"
    if "w1 = snd (fenceLocked w ctx wall elapsed)" for ctx wall elapsed w1
    using fenceLocked_state [of w ctx wall elapsed "fst (fenceLocked w ctx wall elapsed)" w1] assms(1) that
    by (auto simp: windowSound_def)
  have "windowSound w0 w' \<and> mw_observed w' = mw_observed w + (if granted then 1 else 0)"
  proof (cases e)
    case (PermitEvent ctx kind wall elapsed)
    obtain r w2 where p: "permitAt w ctx kind wall elapsed = (r, w2)" by fastforce
    have w': "w' = w2" "granted = (r = None)" using assms(2) p by (auto simp: windowStep_def PermitEvent)
    show ?thesis
    proof (cases r)
      case None
      obtain remaining w1 where g: "fenceLocked w ctx wall elapsed = (Inr remaining, w1)"
        "mw_observed w1 < mr_allowance (mw_reservation w1)" "w2 = w1\<lparr>mw_observed := add64 (mw_observed w1) 1\<rparr>"
        using p None permitAt_granted by blast
      have s: "windowSound w0 w1" "mw_observed w1 = mw_observed w"
        using fence [of w1 ctx wall elapsed] g(1) by auto
      then have "add64 (mw_observed w1) 1 = mw_observed w1 + 1"
        using g(2) by (intro add64_id) (unfold windowSound_def i64_def, linarith)
      then show ?thesis using s g w' None by (auto simp: windowSound_def)
    next
      case (Some x)
      have "w2 = w \<or> w2 = snd (fenceLocked w ctx wall elapsed)" using permitAt_refused p Some by blast
      then show ?thesis using fence [of w2 ctx wall elapsed] assms(1) w' Some by auto
    qed
  next
    case (FenceEvent ctx wall elapsed)
    then have "w' = snd (fenceLocked w ctx wall elapsed)" "\<not> granted"
      using assms(2) by (auto simp: windowStep_def)
    then show ?thesis using fence [of w' ctx wall elapsed] by simp
  next
    case (InheritEvent previous)
    then show ?thesis using assms by (auto simp: windowStep_def inheritHighWater_def windowSound_def go_arith Let_def)
  qed
  then show "windowSound w0 w'" "mw_observed w' = mw_observed w + (if granted then 1 else 0)" by auto
qed

lemma runWindow_sound:
  assumes "runWindow k w es = (n, w')" "windowSound w0 w" "mw_observed w = int k"
  shows "windowSound w0 w' \<and> mw_observed w' = int n"
  using assms
proof (induction es arbitrary: k w)
  case (Cons e es)
  obtain g w1 where s: "windowStep w e = (g, w1)" by fastforce
  note one = windowStep_sound [OF Cons.prems(2) s]
  show ?case using Cons.IH [of "if g then Suc k else k" w1] Cons.prems one s by simp
qed simp

definition freshWindow :: "metadataWindow \<Rightarrow> bool" where
  "freshWindow w \<longleftrightarrow> metadataReservationValid (mw_reservation w) \<and> mw_observed w = 0"

lemma fresh_sound: "freshWindow w \<Longrightarrow> windowSound w w"
  using validAllowance [of "mw_reservation w"] by (simp add: freshWindow_def windowSound_def)

lemma newWindow_fresh:
  "metadataReservationValid r \<Longrightarrow> freshWindow (metadataWindowWithClocks r work wall elapsed)"
  by (simp add: freshWindow_def metadataWindowWithClocks_def Let_def)

text \<open>A window admits calls only inside what was charged: whatever permits, fences and
  inherited evidence came before, a granted permit is within the allowance of the reservation and
  is counted, at a wall reading from the start of the reservation on, before its expiry and before
  the work time has passed since its start, and at an elapsed reading before the work time has
  passed since the window was made.\<close>

theorem window_admission_bounds:
  assumes "metadataReservationValid r"
    "runWindow 0 (metadataWindowWithClocks r work wall0 elapsed0) es = (k, w)"
    "permitAt w ctx kind wall elapsed = (None, w')"
  shows "int k < mr_allowance r \<and> mw_observed w' = int k + 1 \<and> t_ns (mr_started r) \<le> t_ns wall \<and>
     t_ns wall < t_ns (mr_started r) + work \<and> t_ns wall < t_ns (mr_expires r) \<and>
     t_ns elapsed < t_ns elapsed0 + work"
proof -
  let ?w0 = "metadataWindowWithClocks r work wall0 elapsed0"
  have fresh: "freshWindow ?w0" using newWindow_fresh assms(1) .
  then have sound: "windowSound ?w0 w" "mw_observed w = int k"
    using runWindow_sound [OF assms(2) fresh_sound] by (auto simp: freshWindow_def)
  obtain remaining w1 where g: "fenceLocked w ctx wall elapsed = (Inr remaining, w1)"
    "mw_observed w1 < mr_allowance (mw_reservation w1)" "w' = w1\<lparr>mw_observed := add64 (mw_observed w1) 1\<rparr>"
    using permitAt_granted [OF assms(3)] .
  have w1: "mw_observed w1 = mw_observed w" "mw_reservation w1 = mw_reservation w"
    using fenceLocked_state [OF g(1)] by auto
  have res: "mw_reservation w = r" using sound(1) by (simp add: windowSound_def metadataWindowWithClocks_def Let_def)
  have k: "int k < mr_allowance r" "mr_allowance r \<le> 65536" using g(2) w1 res sound validAllowance [OF assms(1)] by auto
  then have "mw_observed w' = int k + 1" using g(3) w1 sound(2) by (simp add: add64_def i64_def)
  moreover have "t_ns (mr_clock r) = t_ns (mr_started r)" using assms(1) by (simp add: reservationValid_iff)
  ultimately show ?thesis
    using fenceLocked_ok [OF g(1)] sound(1) res k
    by (auto simp: windowSound_def metadataWindowWithClocks_def Let_def)
qed

section \<open>The window and the ledger\<close>

text \<open>Property C31. The usage of a window settles its reservation: from a ledger that holds the
  reservation as outstanding, whatever the window was asked in between, settling it at the latest
  wall reading any permit or fence has seen succeeds, and the ledger then has the granted permits
  as observed attempts, no more than the allowance, and the allowance no longer outstanding, with
  nothing refunded.\<close>

theorem window_settles_reservation:
  assumes "db64 (mds_db s)" "metadataRead env (mds_db s) = Inr st" "quietEnv env" "metadataWriter s = None"
    "x \<in> set (ms_records st)" "mr_status x = ''reserved''" "metadataSame x r"
    "runWindow 0 (metadataWindowWithClocks r work wall elapsed) es = (k, w)"
    "metadataTime (settleNow now0 [w]) = Inr (now, midnight)"
  shows "\<exists>s' st'. settleMetadata (\<lambda>_. env) s [w] False now0 = (None, s') \<and>
     metadataRead env (mds_db s') = Inr st' \<and> int k \<le> mr_allowance r \<and>
     mc_observed (ms_total st') = mc_observed (ms_total st) + int k \<and>
     mc_outstanding (ms_total st') = mc_outstanding (ms_total st) - mr_allowance r \<and>
     mc_reserved (ms_total st') = mc_reserved (ms_total st)"
proof -
  have inv: "mdInv (mds_db s)" and st: "st = dbView (mds_db s)" using metadataRead_ok [OF assms(1,2)] by auto
  obtain y where "y \<in> set (md_rows (mds_db s))" using assms(5) by (auto simp: st)
  then have "mdSound (dbView (mds_db s))" using mdSound_view [OF inv mdInv_present [OF inv]] by blast
  then have "metadataReservationValid x" using assms(5) by (auto simp: st mdSound_def recordSound_def)
  then have valid: "metadataReservationValid r" using same_valid [OF assms(7)] by simp
  let ?w0 = "metadataWindowWithClocks r work wall elapsed"
  have fresh: "freshWindow ?w0" using newWindow_fresh valid .
  then have sound: "windowSound ?w0 w" "mw_observed w = int k"
    using runWindow_sound [OF assms(8) fresh_sound] by (auto simp: freshWindow_def)
  then have w: "mw_reservation w = r" "int k \<le> mr_allowance r"
    by (auto simp: windowSound_def metadataWindowWithClocks_def Let_def)
  define m :: int where "m = (if k = 0 then 1 else 0)"
  have m: "0 \<le> m" "m \<le> mr_allowance r" "m \<noteq> int k" using validAllowance [OF valid] by (auto simp: m_def)
  note settle = settle_outstanding [OF assms(1-4,9,9,5-7) _ w(2) m]
  have "settleMetadata (\<lambda>_. env) s [w] False now0 =
      (case SettleMetadata env s r (int k) (settleNow now0 [w]) of (Some e, s1) \<Rightarrow> (Some e, s1) | (None, s1) \<Rightarrow> (None, s1))"
    by (simp add: settleMetadata_def usage_def sound(2) w(1) Let_def del: settleNow.simps
        split: prod.splits option.splits)
  then show ?thesis using settle w(2) by auto
qed

text \<open>Property C32. A ready snapshot covers the next reservation: when \<open>metadataReadiness\<close> finds nothing
  to wait for on the ledger as read, the day has room for the startup allowance and a whole scan call
  together, and a single reservation at the same instant, for a scope that has no outstanding
  reservation and with any allowance up to that sum, passes the checks of \<open>ReserveMetadata\<close>, unless
  the lifetime counter is full.\<close>

theorem readiness_covers_operation:
  assumes "db64 db" "metadataRead env db = Inr st" "metadataTime now0 = Inr (now, midnight)"
    "1 \<le> limit" "limit \<le> MetadataDailyLimit"
    "metadataReadiness (metadataSnapshot st now midnight limit) now startup = (zeroTime, [], None)"
    "1 \<le> a" "a \<le> startup + MaxAPIAttemptAllowance"
    "\<not> (\<exists>x\<in>set (ms_records st). mr_status x = ''reserved'' \<and> mr_scope x = scope)"
  shows "mc_reserved (ms_daily (dayState st now)) + startup + MaxAPIAttemptAllowance \<le> limit \<and>
     reserveAdmit st now scope a limit \<in> {Inr (dayState st now), Inl ErrMetadataOverflow}"
proof -
  let ?b = "metadataSnapshot st now midnight limit"
  let ?used = "case mb_dayCharges ?b of None \<Rightarrow> 0 | Some c \<Rightarrow> mc_reserved c"
  have inv: "mdInv db" and st: "st = dbView db" using metadataRead_ok [OF assms(1,2)] by auto
  have fields: "mb_limit ?b = limit" "mb_reason ?b \<noteq> [] \<Longrightarrow> mb_nextAllowedAt ?b = None \<or> mb_reason ?b \<noteq> []"
    by (simp_all add: metadataSnapshot_def Let_def)
  have ready: "mb_reason ?b = []" "0 \<le> startup" "startup \<le> 65536" "0 \<le> ?used" "?used \<le> limit"
    "add64 MaxAPIAttemptAllowance startup \<le> sub64 limit ?used"
    using assms(6) by (auto simp: metadataReadiness_def Let_def fields(1) split: if_splits option.splits)
  then have room: "?used + startup + MaxAPIAttemptAllowance \<le> limit"
    using assms(4,5) by (simp add: add64_def sub64_def i64_def)
  have used: "?used = mc_reserved (ms_daily (dayState st now))"
    using ready(1) dbView_absent [of db]
    by (auto simp: metadataSnapshot_def Let_def dayState_def st split: if_splits)
  have "\<nexists>e. reserveAdmit st now scope a limit = Inl (ErrJoin ErrMetadataDeferred e)"
    using snapshot_deferral [OF assms(1,2,3,7,4,5) refl, of scope] ready(1) assms(8,9) room by auto
  then have "reserveAdmit st now scope a limit \<in> {Inr (dayState st now), Inl ErrMetadataOverflow}"
    by (auto simp: reserveAdmit_def Let_def split: if_splits)
  then show ?thesis using room unfolding used by simp
qed

section \<open>Witnesses\<close>

definition mxReservation :: MetadataReservation where
  "mxReservation = (case fst mxReserve of Inr r \<Rightarrow> r | Inl _ \<Rightarrow> undefined)"

definition mxCtx :: permit_ctx where
  "mxCtx = \<lparr>pc_nil = False, pc_entryCause = None, pc_entryErr = None, pc_cause = None, pc_err = None,
     pc_until = None\<rparr>"

definition mxElapsed :: gotime where "mxElapsed = \<lparr>t_ns = 77, t_utc = True\<rparr>"

abbreviation mxWindow :: metadataWindow where
  "mxWindow \<equiv> metadataWindowWithClocks mxReservation 5000 mxNow mxElapsed"

abbreviation mxPermit :: window_event where "mxPermit \<equiv> PermitEvent mxCtx ''stat'' mxNow mxElapsed"

lemma mx_reservation: "mxReserve = (Inr mxReservation, mxReserved)"
  using mx_reserve_ok by (auto simp: mxReservation_def)

lemma mx_held:
  "\<exists>x\<in>set (ms_records (dbView (mds_db mxReserved))). metadataSame x mxReservation \<and> mr_status x = ''reserved''"
  "metadataReservationValid mxReservation"
proof (atomize (full))
  show "(\<exists>x\<in>set (ms_records (dbView (mds_db mxReserved))). metadataSame x mxReservation \<and> mr_status x = ''reserved'') \<and>
      metadataReservationValid mxReservation"
    using mx_reservation
  proof (cases rule: reserveE)
    case (charged st0 st r)
    then have r: "r = mxReservation" by blast
    have db: "mds_db mxReserved = reservedDb (mds_db mxStore) st (toUTC mxNow) mxReservation"
      using arg_cong [OF charged(3), of mds_db] r by simp
    note fits = reserving_fits [OF charged(1) mx_early]
    show ?thesis
      using reserved_row [OF mx_base(2) charged(1) fits] reserving_charge(1) [OF mx_base(2) charged(1) fits]
      unfolding r db by blast
  qed simp
qed

theorem window_admission_bounds_witness:
  "\<exists>w w'. runWindow 0 mxWindow [mxPermit, mxPermit] = (2, w) \<and>
     permitAt w mxCtx ''stat'' mxNow mxElapsed = (None, w') \<and> mw_observed w' = 3"
proof -
  obtain k w where run: "runWindow 0 mxWindow [mxPermit, mxPermit] = (k, w)" by fastforce
  have "fst (runWindow 0 mxWindow [mxPermit, mxPermit]) = 2"
    "fst (permitAt (snd (runWindow 0 mxWindow [mxPermit, mxPermit])) mxCtx ''stat'' mxNow mxElapsed) = None"
    by code_simp+
  then have k: "k = 2" and p: "fst (permitAt w mxCtx ''stat'' mxNow mxElapsed) = None" using run by auto
  obtain w' where w': "permitAt w mxCtx ''stat'' mxNow mxElapsed = (None, w')" using p by (metis prod.collapse)
  show ?thesis using window_admission_bounds [OF mx_held(2) run w'] run w' k by auto
qed

theorem window_settles_reservation_witness:
  "\<exists>w s' st'. runWindow 0 mxWindow [mxPermit, mxPermit] = (2, w) \<and>
     settleMetadata (\<lambda>_. mxEnv) mxReserved [w] False mxNow = (None, s') \<and>
     metadataRead mxEnv (mds_db s') = Inr st'"
proof -
  obtain k w where run: "runWindow 0 mxWindow [mxPermit, mxPermit] = (k, w)" by fastforce
  have "fst (runWindow 0 mxWindow [mxPermit, mxPermit]) = 2"
    "t_ns (settleNow mxNow [snd (runWindow 0 mxWindow [mxPermit, mxPermit])]) = t_ns mxNow"
    by code_simp+
  then have k: "k = 2" and ns: "t_ns (settleNow mxNow [w]) = t_ns mxNow" using run by auto
  have tm: "metadataTime (settleNow mxNow [w]) =
      Inr (toUTC (settleNow mxNow [w]), nextMidnight (settleNow mxNow [w]))"
    unfolding metadataTime_eq ns by (simp add: mxNow_def)
  have inv: "mdInv (mds_db mxReserved)" using metadata_runs.run_inv [OF mx_run mx_base(1)] .
  obtain x where x: "x \<in> set (ms_records (dbView (mds_db mxReserved)))" "mr_status x = ''reserved''"
    "metadataSame x mxReservation" using mx_held(1) by blast
  show ?thesis
    using window_settles_reservation [OF mdInv_db64 [OF inv] metadataRead_quiet [OF inv mx_quiet] mx_quiet
        mx_settle_facts(2) x run tm] run k by blast
qed

theorem readiness_covers_operation_witness:
  "reserveAdmit (dbView (mds_db mxReserved)) mxNow MetadataNext 65536 70000 \<in>
     {Inr (dayState (dbView (mds_db mxReserved)) mxNow), Inl ErrMetadataOverflow}"
proof -
  have inv: "mdInv (mds_db mxReserved)" using metadata_runs.run_inv [OF mx_run mx_base(1)] .
  have "metadataReadiness (metadataSnapshot (dbView (mds_db mxReserved)) mxNow (nextMidnight mxNow) 70000) mxNow 0 =
      (zeroTime, [], None)"
    "\<not> (\<exists>x\<in>set (ms_records (dbView (mds_db mxReserved))). mr_status x = ''reserved'' \<and> mr_scope x = MetadataNext)"
    by code_simp+
  then show ?thesis
    using readiness_covers_operation [OF mdInv_db64 [OF inv] metadataRead_quiet [OF inv mx_quiet] mx_settle_facts(1),
        of 70000 0 65536 MetadataNext] by simp
qed

end
