(* ===== verification/API_Pacing_Guarantees.thy ===== *)
theory API_Pacing_Guarantees
  imports Metadata_Window_Guarantees
begin

text \<open>
  What the pacer of \<^verbatim>\<open>src/internal/worker/api_pacing.go\<close> promises: consecutive admitted calls keep the
  configured rate on the wall clock and on the elapsed clock, and a caller that waits is answered as
  soon as both clocks have passed its spacing.
\<close>

section \<open>Spacing\<close>

lemma spacing_rate:
  assumes "1 \<le> rate" "rate \<le> 100000"
  shows "second_ns \<le> rate * spacingOf rate" "1 \<le> spacingOf rate" "spacingOf rate \<le> second_ns"
proof -
  have e: "spacingOf rate = (second_ns + rate - 1) div rate"
  proof -
    have "add64 second_ns rate = second_ns + rate" "sub64 (second_ns + rate) 1 = second_ns + rate - 1"
      using assms by (simp_all add: add64_def sub64_def i64_def)
    then show ?thesis using assms by (simp add: spacingOf_def goDiv_def signed_divide_int_def)
  qed
  have m: "(second_ns + rate - 1) mod rate < rate" using assms by simp
  have d: "second_ns + rate - 1 = rate * ((second_ns + rate - 1) div rate) + (second_ns + rate - 1) mod rate"
    by (rule mult_div_mod_eq [symmetric])
  show r: "second_ns \<le> rate * spacingOf rate" using m d unfolding e by linarith
  show "1 \<le> spacingOf rate"
  proof (rule ccontr)
    assume "\<not> 1 \<le> spacingOf rate"
    then have "rate * spacingOf rate \<le> 0" using assms(1) by (intro mult_nonneg_nonpos) auto
    then show False using r by simp
  qed
  have "(second_ns + rate - 1) div rate \<le> second_ns"
  proof -
    have "second_ns + rate - 1 \<le> rate * second_ns"
    proof -
      have "0 \<le> (rate - 1) * (second_ns - 1)" using assms(1) by (intro mult_nonneg_nonneg) auto
      then show ?thesis by (simp add: algebra_simps)
    qed
    then have "(second_ns + rate - 1) div rate \<le> rate * second_ns div rate"
      using assms(1) by (intro zdiv_mono1) auto
    then show ?thesis using assms(1) by simp
  qed
  then show "spacingOf rate \<le> second_ns" unfolding e .
qed

text \<open>The part of a pacer that spacing depends on: every method keeps it but a granted permit.\<close>

definition samePace :: "sourceAPIPacer \<Rightarrow> sourceAPIPacer \<Rightarrow> bool" where
  "samePace p q \<longleftrightarrow> sp_lastWall p = sp_lastWall q \<and> sp_lastElapsed p = sp_lastElapsed q \<and> sp_spacing p = sp_spacing q"

lemma samePace_refl [simp]: "samePace p p"
  by (simp add: samePace_def)

lemma pacerDelay_pace: "pacerDelay p wall elapsed = (d, p1) \<Longrightarrow> samePace p p1"
  by (auto simp: pacerDelay_def samePace_def Let_def split: if_splits)

lemma pacerDelay_zero:
  assumes "pacerDelay p wall elapsed = (Inr 0, p1)" "\<not> isZero (sp_lastWall p)"
  shows "t_ns (sp_lastWall p) + sp_spacing p \<le> t_ns wall" "t_ns (sp_lastElapsed p) + sp_spacing p \<le> t_ns elapsed"
proof -
  have "max (max 0 (tSub (tAdd (sp_lastWall p) (sp_spacing p)) (toUTC wall)))
      (tSub (tAdd (sp_lastElapsed p) (sp_spacing p)) elapsed) = 0"
    using assms by (auto simp: pacerDelay_def Let_def split: if_splits)
  then have "tSub (tAdd (sp_lastWall p) (sp_spacing p)) (toUTC wall) \<le> 0"
    "tSub (tAdd (sp_lastElapsed p) (sp_spacing p)) elapsed \<le> 0" by (auto simp: max_def split: if_splits)
  then show "t_ns (sp_lastWall p) + sp_spacing p \<le> t_ns wall" "t_ns (sp_lastElapsed p) + sp_spacing p \<le> t_ns elapsed"
    by (simp_all add: tSub_nonpos_iff)
qed

lemma addWait_pace [simp]: "samePace p ((addWait (q\<lparr>sp_waiting := b\<rparr>) d)\<lparr>sp_waiting := c\<rparr>) \<longleftrightarrow> samePace p q"
  by (simp add: addWait_def samePace_def)

lemma pacerFence_parts:
  assumes "pacerFence p w ctx wall elapsed = (r, p1, w1)"
  shows "samePace p p1" "t_ns (mw_highWater w) \<le> t_ns (mw_highWater w1)"
    "r = Inr (remaining, delay) \<Longrightarrow> pacerDelay p wall elapsed = (Inr delay, p1) \<and>
       fenceLocked w ctx wall elapsed = (Inr remaining, w1)"
proof -
  obtain d p2 where d: "pacerDelay p wall elapsed = (d, p2)" by fastforce
  obtain f w2 where f: "fenceLocked w ctx wall elapsed = (f, w2)" by fastforce
  have e: "p1 = p2" "w1 = w2" using assms d f by (auto simp: pacerFence_def)
  show "samePace p p1" using pacerDelay_pace [OF d] e by simp
  show "t_ns (mw_highWater w) \<le> t_ns (mw_highWater w1)" using fenceLocked_state [OF f] e by auto
  show "r = Inr (remaining, delay) \<Longrightarrow> pacerDelay p wall elapsed = (Inr delay, p1) \<and>
       fenceLocked w ctx wall elapsed = (Inr remaining, w1)"
    using assms d f e by (auto simp: pacerFence_def split: sum.splits)
qed

lemma pacedPermit_granted:
  assumes "pacedPermit p w kind rs = (Some None, p', w')" "zero_ns < t_ns (mw_highWater w)"
  shows "sp_spacing p' = sp_spacing p \<and> \<not> isZero (sp_lastWall p') \<and>
     (\<not> isZero (sp_lastWall p) \<longrightarrow> t_ns (sp_lastWall p) + sp_spacing p \<le> t_ns (sp_lastWall p') \<and>
        t_ns (sp_lastElapsed p) + sp_spacing p \<le> t_ns (sp_lastElapsed p'))"
  using assms
proof (induction rs arbitrary: p w)
  case (Cons r rs)
  let ?wall = "toUTC (round0 (pr_wall r))"
  obtain g p1 w1 where f: "pacerFence p w (pr_ctx r) ?wall (pr_elapsed r) = (g, p1, w1)"
    using prod_cases3 by blast
  note parts = pacerFence_parts [OF f]
  obtain remaining delay where g: "g = Inr (remaining, delay)" using Cons.prems(1) f by (cases g) auto
  have d: "pacerDelay p ?wall (pr_elapsed r) = (Inr delay, p1)"
    and fl: "fenceLocked w (pr_ctx r) ?wall (pr_elapsed r) = (Inr remaining, w1)" using parts(3) [OF g] by auto
  show ?case
  proof (cases "delay = 0")
    case True
    obtain e w2 where pm: "permitAt w1 (pr_permitCtx r) kind ?wall (pr_elapsed r) = (e, w2)" by fastforce
    then have p': "p' = p1\<lparr>sp_lastWall := ?wall, sp_lastElapsed := pr_elapsed r\<rparr>"
      using Cons.prems(1) f g True by (cases e) (auto simp: Let_def)
    have "zero_ns < t_ns ?wall" using fenceLocked_ok(1) [OF fl] Cons.prems(2) by simp
    then show ?thesis
      using p' pacerDelay_zero [of p ?wall "pr_elapsed r" p1] d True parts(1)
      by (auto simp: isZero_def samePace_def)
  next
    case False
    let ?q = "(addWait (p1\<lparr>sp_waiting := True\<rparr>) (pr_waited r))\<lparr>sp_waiting := False\<rparr>"
    have "pacedPermit ?q w1 kind rs = (Some None, p', w')" using Cons.prems(1) f g False by (simp add: Let_def)
    moreover have "samePace p ?q" using parts(1) by simp
    ultimately show ?thesis using Cons.IH [of ?q w1] Cons.prems(2) parts(2) by (simp add: samePace_def)
  qed
qed simp

lemma pacedPermit_other:
  assumes "pacedPermit p w kind rs = (res, p', w')" "res \<noteq> Some None"
  shows "samePace p p'"
  using assms
proof (induction rs arbitrary: p w)
  case (Cons r rs)
  let ?wall = "toUTC (round0 (pr_wall r))"
  obtain g p1 w1 where f: "pacerFence p w (pr_ctx r) ?wall (pr_elapsed r) = (g, p1, w1)"
    using prod_cases3 by blast
  note pace = pacerFence_parts(1) [OF f]
  show ?case
  proof (cases g)
    case (Inl e)
    then show ?thesis using Cons.prems(1) f pace by (simp add: Let_def)
  next
    case (Inr rd)
    obtain remaining delay where rd: "rd = (remaining, delay)" by fastforce
    obtain e w2 where pm: "permitAt w1 (pr_permitCtx r) kind ?wall (pr_elapsed r) = (e, w2)" by fastforce
    show ?thesis
    proof (cases "delay = 0")
      case True
      then show ?thesis using Cons.prems f Inr rd pm pace by (cases e) (auto simp: Let_def)
    next
      case False
      let ?q = "(addWait (p1\<lparr>sp_waiting := True\<rparr>) (pr_waited r))\<lparr>sp_waiting := False\<rparr>"
      have "samePace ?q p'" using Cons.IH [of ?q w1] Cons.prems f Inr rd False by (simp add: Let_def)
      moreover have "samePace p ?q" using pace by simp
      ultimately show ?thesis by (simp add: samePace_def)
    qed
  qed
qed simp

section \<open>The rate\<close>

text \<open>The round in which a call returned: the first one such that the rounds up to it answer the call.\<close>

definition answeringRound :: "sourceAPIPacer \<Rightarrow> metadataWindow \<Rightarrow> string \<Rightarrow> pace_round list \<Rightarrow> pace_round option" where
  "answeringRound p w kind rs =
     map_option ((!) rs) (find (\<lambda>k. fst (pacedPermit p w kind (take (Suc k) rs)) \<noteq> None) [0..<length rs])"

text \<open>The calls of a worker one after another, each with its window and its rounds, and what the two
  clocks answered in the round that admitted each call that was admitted.\<close>

fun runPacer :: "sourceAPIPacer \<Rightarrow> (metadataWindow \<times> string \<times> pace_round list) list \<Rightarrow> (gotime \<times> gotime) list" where
  "runPacer p [] = []"
| "runPacer p ((w, kind, rs) # cs) =
     (case pacedPermit p w kind rs of
        (Some None, p1, _) \<Rightarrow>
          (let r = the (answeringRound p w kind rs) in (pr_wall r, pr_elapsed r)) # runPacer p1 cs
      | (_, p1, _) \<Rightarrow> runPacer p1 cs)"

lemma pacedPermit_round:
  "pacedPermit p w kind (r # rs) =
     (case pacedPermit p w kind [r] of (None, q, w1) \<Rightarrow> pacedPermit q w1 kind rs | (Some a, q, w1) \<Rightarrow> (Some a, q, w1))"
  by (auto simp: Let_def split: prod.splits sum.splits option.splits)

lemma find_map_Suc: "find P (map Suc ks) = map_option Suc (find (\<lambda>k. P (Suc k)) ks)"
  by (induction ks) auto

lemma answeringRound_Cons:
  "answeringRound p w kind (r # rs) =
     (case pacedPermit p w kind [r] of (None, q, w1) \<Rightarrow> answeringRound q w1 kind rs | (Some a, q, w1) \<Rightarrow> Some r)"
proof -
  obtain a q w1 where one: "pacedPermit p w kind [r] = (a, q, w1)" using prod_cases3 by blast
  have step: "pacedPermit p w kind (take (Suc (Suc k)) (r # rs)) =
      (case a of None \<Rightarrow> pacedPermit q w1 kind (take (Suc k) rs) | Some x \<Rightarrow> (Some x, q, w1))" for k
    by (simp only: take_Suc_Cons pacedPermit_round [of p w kind r "take (Suc k) rs"] one prod.case)
  have idx: "[0..<length (r # rs)] = 0 # map Suc [0..<length rs]"
    by (simp add: map_Suc_upt upt_conv_Cons del: upt_Suc)
  define G where "G k = fst (pacedPermit p w kind (take (Suc k) (r # rs)))" for k
  have ans: "answeringRound p w kind (r # rs) =
      map_option ((!) (r # rs)) (find (\<lambda>k. G k \<noteq> None) (0 # map Suc [0..<length rs]))"
    unfolding answeringRound_def idx G_def ..
  have G0: "G 0 = a" unfolding G_def by (simp only: take_Suc_Cons take_0 one fst_conv)
  show ?thesis
  proof (cases a)
    case (Some x)
    then show ?thesis unfolding ans one by (simp add: G0)
  next
    case None
    have "G (Suc k) = fst (pacedPermit q w1 kind (take (Suc k) rs))" for k unfolding G_def step None by simp
    then have "find (\<lambda>k. G k \<noteq> None) (0 # map Suc [0..<length rs]) =
        map_option Suc (find (\<lambda>k. fst (pacedPermit q w1 kind (take (Suc k) rs)) \<noteq> None) [0..<length rs])"
      by (simp only: find.simps G0 None find_map_Suc simp_thms if_False)
    moreover have "answeringRound q w1 kind rs =
        map_option ((!) rs) (find (\<lambda>k. fst (pacedPermit q w1 kind (take (Suc k) rs)) \<noteq> None) [0..<length rs])"
      by (rule answeringRound_def)
    ultimately show ?thesis unfolding ans one None by (simp only: option.case prod.case option.map_comp o_def nth_Cons_Suc)
  qed
qed

text \<open>A granted call leaves the readings of its round as the pacer's anchors.\<close>

lemma granted_readings:
  assumes "pacedPermit p w kind rs = (Some None, p', w')"
  shows "\<exists>r. answeringRound p w kind rs = Some r \<and> t_ns (pr_wall r) = t_ns (sp_lastWall p') \<and>
     t_ns (pr_elapsed r) = t_ns (sp_lastElapsed p')"
  using assms
proof (induction rs arbitrary: p w)
  case (Cons r rs)
  obtain a q w1 where one: "pacedPermit p w kind [r] = (a, q, w1)" using prod_cases3 by blast
  show ?case
  proof (cases a)
    case None
    then show ?thesis
      using Cons.IH [of q w1] Cons.prems one unfolding answeringRound_Cons pacedPermit_round [of p w kind r rs] by simp
  next
    case (Some x)
    then have "x = None" "q = p'" using Cons.prems one unfolding pacedPermit_round [of p w kind r rs] by simp_all
    then have "t_ns (pr_wall r) = t_ns (sp_lastWall p') \<and> t_ns (pr_elapsed r) = t_ns (sp_lastElapsed p')"
      using one Some by (auto simp: Let_def split: prod.splits sum.splits option.splits if_splits)
    then show ?thesis using one Some unfolding answeringRound_Cons by simp
  qed
qed simp

lemma runPacer_granted:
  assumes "pacedPermit p w kind rs = (Some None, p1, w1)"
  obtains wall elapsed where "runPacer p ((w, kind, rs) # cs) = (wall, elapsed) # runPacer p1 cs"
    "t_ns wall = t_ns (sp_lastWall p1)" "t_ns elapsed = t_ns (sp_lastElapsed p1)"
  using granted_readings [OF assms] assms by (auto simp: Let_def)

lemma runPacer_after:
  assumes "\<forall>c\<in>set cs. zero_ns < t_ns (mw_highWater (fst c))" "\<not> isZero (sp_lastWall p)" "0 \<le> sp_spacing p"
    "j < length (runPacer p cs)"
  shows "t_ns (sp_lastWall p) + int (Suc j) * sp_spacing p \<le> t_ns (fst (runPacer p cs ! j)) \<and>
     t_ns (sp_lastElapsed p) + int (Suc j) * sp_spacing p \<le> t_ns (snd (runPacer p cs ! j))"
  using assms
proof (induction cs arbitrary: p j)
  case (Cons c cs)
  obtain w kind rs where c: "c = (w, kind, rs)" using prod_cases3 by blast
  obtain res p1 w1 where r: "pacedPermit p w kind rs = (res, p1, w1)" using prod_cases3 by blast
  show ?case
  proof (cases "res = Some None")
    case True
    have "zero_ns < t_ns (mw_highWater w)" using Cons.prems(1) by (simp add: c)
    note g = pacedPermit_granted [OF r [unfolded True] this]
    obtain wall elapsed where adm: "runPacer p (c # cs) = (wall, elapsed) # runPacer p1 cs"
        and at: "t_ns wall = t_ns (sp_lastWall p1)" "t_ns elapsed = t_ns (sp_lastElapsed p1)"
      using runPacer_granted [OF r [unfolded True], of cs] unfolding c by blast
    show ?thesis
    proof (cases j)
      case 0
      then show ?thesis using g at Cons.prems(2) unfolding adm by simp
    next
      case (Suc i)
      have "i < length (runPacer p1 cs)" using Cons.prems(4) Suc by (simp add: adm)
      then show ?thesis
        using Cons.IH [of p1 i] g Cons.prems(1,2,3) Suc unfolding adm by (simp add: algebra_simps)
    qed
  next
    case False
    then have skip: "runPacer p (c # cs) = runPacer p1 cs" using r by (cases res) (auto simp: c split: option.splits)
    show ?thesis
      using Cons.IH [of p1 j] pacedPermit_other [OF r False] Cons.prems unfolding skip by (simp add: samePace_def)
  qed
qed simp

lemma runPacer_spaced:
  assumes "\<forall>c\<in>set cs. zero_ns < t_ns (mw_highWater (fst c))" "0 \<le> sp_spacing p"
    "i < j" "j < length (runPacer p cs)"
  shows "t_ns (fst (runPacer p cs ! i)) + int (j - i) * sp_spacing p \<le> t_ns (fst (runPacer p cs ! j)) \<and>
     t_ns (snd (runPacer p cs ! i)) + int (j - i) * sp_spacing p \<le> t_ns (snd (runPacer p cs ! j))"
  using assms
proof (induction cs arbitrary: p i j)
  case (Cons c cs)
  obtain w kind rs where c: "c = (w, kind, rs)" using prod_cases3 by blast
  obtain res p1 w1 where r: "pacedPermit p w kind rs = (res, p1, w1)" using prod_cases3 by blast
  show ?case
  proof (cases "res = Some None")
    case True
    have g: "sp_spacing p1 = sp_spacing p" "\<not> isZero (sp_lastWall p1)"
      using pacedPermit_granted [OF r [unfolded True]] Cons.prems(1) by (auto simp: c)
    obtain wall elapsed where adm: "runPacer p (c # cs) = (wall, elapsed) # runPacer p1 cs"
        and at: "t_ns wall = t_ns (sp_lastWall p1)" "t_ns elapsed = t_ns (sp_lastElapsed p1)"
      using runPacer_granted [OF r [unfolded True], of cs] unfolding c by blast
    obtain k where j: "j = Suc k" "k < length (runPacer p1 cs)" using Cons.prems(3,4) adm by (cases j) auto
    show ?thesis
    proof (cases i)
      case 0
      then show ?thesis
        using runPacer_after [of cs p1 k] g at j Cons.prems(1,2) unfolding adm by simp
    next
      case (Suc l)
      then show ?thesis using Cons.IH [of p1 l k] g j Cons.prems(1,2,3) unfolding adm by simp
    qed
  next
    case False
    then have skip: "runPacer p (c # cs) = runPacer p1 cs" using r by (cases res) (auto simp: c split: option.splits)
    show ?thesis
      using Cons.IH [of p1 i j] pacedPermit_other [OF r False] Cons.prems unfolding skip by (simp add: samePace_def)
  qed
qed simp

lemma newSourceAPIPacer_ok:
  assumes "newSourceAPIPacer rate work entryRate bounds clocks = Inr (Some p)"
  shows "1 \<le> rate" "rate \<le> 100000" "sp_spacing p = spacingOf rate"
  using assms by (auto simp: newSourceAPIPacer_def capacity_def Let_def split: if_splits)

text \<open>Property C33. Paced calls keep their rate: of the calls admitted by a pacer made for \<open>rate\<close> calls a
  second, however the calls wait, fail or share windows (each begun at a wall reading
  after the zero time), any later one is admitted at least
  \<open>n / rate\<close> seconds after the one \<open>n\<close> admissions before it, by what the wall clock and the elapsed
  clock answered in the rounds that admitted the two.\<close>

theorem paced_calls_keep_rate:
  assumes "newSourceAPIPacer rate work entryRate bounds clocks = Inr (Some p)"
    "\<forall>c\<in>set cs. zero_ns < t_ns (mw_highWater (fst c))" "i < j" "j < length (runPacer p cs)"
  shows "second_ns * int (j - i) \<le> rate * (t_ns (fst (runPacer p cs ! j)) - t_ns (fst (runPacer p cs ! i))) \<and>
     second_ns * int (j - i) \<le> rate * (t_ns (snd (runPacer p cs ! j)) - t_ns (snd (runPacer p cs ! i)))"
proof -
  note new = newSourceAPIPacer_ok [OF assms(1)] and sp = spacing_rate [OF newSourceAPIPacer_ok(1,2) [OF assms(1)]]
  have gap: "int (j - i) * sp_spacing p \<le> t_ns (fst (runPacer p cs ! j)) - t_ns (fst (runPacer p cs ! i))"
    "int (j - i) * sp_spacing p \<le> t_ns (snd (runPacer p cs ! j)) - t_ns (snd (runPacer p cs ! i))"
    using runPacer_spaced [OF assms(2) _ assms(3,4)] sp(2) new(3) by auto
  have scale: "second_ns * int (j - i) \<le> rate * x" if "int (j - i) * sp_spacing p \<le> x" for x
  proof -
    have "second_ns * int (j - i) \<le> rate * sp_spacing p * int (j - i)"
      using sp(1) new(3) by (intro mult_right_mono) auto
    also have "\<dots> = rate * (int (j - i) * sp_spacing p)" by (simp add: algebra_simps)
    also have "\<dots> \<le> rate * x" using that new(1) by (intro mult_left_mono) auto
    finally show ?thesis .
  qed
  show ?thesis using scale [OF gap(1)] scale [OF gap(2)] by blast
qed

section \<open>Waiting\<close>

definition waitSound :: "sourceAPIPacer \<Rightarrow> bool" where
  "waitSound p \<longleftrightarrow> 0 \<le> sp_waitNS p \<and> sp_waitNS p \<le> maxUint64"

lemma addWait_sound:
  "waitSound p \<Longrightarrow> waitSound (addWait p d) \<and> sp_waitNS p \<le> sp_waitNS (addWait p d)"
  by (auto simp: addWait_def waitSound_def)

lemma pacerFence_wait: "pacerFence p w ctx wall elapsed = (r, p1, w1) \<Longrightarrow> sp_waitNS p1 = sp_waitNS p"
  by (auto simp: pacerFence_def pacerDelay_def Let_def split: prod.splits if_splits)

lemma pacerDelay_due:
  assumes "t_ns (sp_lastWall p) + sp_spacing p \<le> t_ns wall" "t_ns (sp_lastElapsed p) + sp_spacing p \<le> t_ns elapsed"
    "pacerDelay p wall elapsed = (Inr d, p1)"
  shows "d = 0"
proof -
  have "tSub (tAdd (sp_lastWall p) (sp_spacing p)) (toUTC wall) \<le> 0"
    "tSub (tAdd (sp_lastElapsed p) (sp_spacing p)) elapsed \<le> 0"
    using assms(1,2) by (simp_all add: tSub_nonpos_iff)
  then show ?thesis using assms(3) by (auto simp: pacerDelay_def Let_def split: if_splits)
qed

text \<open>Property C34. A waiting call is answered: as soon as one round reads both clocks at or past the
  last admission plus the spacing, the call returns in that round at the latest, granted or
  refused, whatever the rounds before it read; and the counter of waited nanoseconds never
  decreases and saturates instead of wrapping.\<close>

theorem paced_call_is_answered:
  assumes "t_ns (sp_lastWall p) + sp_spacing p \<le> t_ns (pr_wall r)"
    "t_ns (sp_lastElapsed p) + sp_spacing p \<le> t_ns (pr_elapsed r)" "waitSound p"
  shows "\<exists>res p' w'. pacedPermit p w kind (rs @ r # rest) = (Some res, p', w') \<and> waitSound p' \<and>
     sp_waitNS p \<le> sp_waitNS p'"
  using assms
proof (induction "rs @ r # rest" arbitrary: p w rs)
  case Nil
  then show ?case by simp
next
  case (Cons x xs)
  let ?wall = "toUTC (round0 (pr_wall x))"
  obtain g p1 w1 where f: "pacerFence p w (pr_ctx x) ?wall (pr_elapsed x) = (g, p1, w1)"
    using prod_cases3 by blast
  have w: "waitSound p1" "sp_waitNS p1 = sp_waitNS p" using pacerFence_wait [OF f] Cons.prems(3) by (auto simp: waitSound_def)
  show ?case
  proof (cases g)
    case (Inl e)
    then show ?thesis using f w unfolding Cons.hyps(2) [symmetric] by (simp add: Let_def)
  next
    case (Inr rd)
    obtain remaining delay where rd: "rd = (remaining, delay)" by fastforce
    obtain e w2 where pm: "permitAt w1 (pr_permitCtx x) kind ?wall (pr_elapsed x) = (e, w2)" by fastforce
    show ?thesis
    proof (cases "delay = 0")
      case True
      then show ?thesis
        using f Inr rd pm w unfolding Cons.hyps(2) [symmetric] by (cases e) (auto simp: Let_def waitSound_def)
    next
      case False
      let ?q = "(addWait (p1\<lparr>sp_waiting := True\<rparr>) (pr_waited x))\<lparr>sp_waiting := False\<rparr>"
      have d: "pacerDelay p ?wall (pr_elapsed x) = (Inr delay, p1)" using pacerFence_parts(3) [OF f] Inr rd by blast
      have "rs \<noteq> []"
        using False pacerDelay_due [OF _ _ d] Cons.prems(1,2) Cons.hyps(2) by (cases rs) auto
      then obtain rs' where rs: "rs = x # rs'" "xs = rs' @ r # rest" using Cons.hyps(2) by (cases rs) auto
      have "samePace p ?q" using pacerFence_parts(1) [OF f] by simp
      moreover have "waitSound ?q \<and> sp_waitNS p \<le> sp_waitNS ?q"
        using addWait_sound [of "p1\<lparr>sp_waiting := True\<rparr>" "pr_waited x"] w by (simp add: waitSound_def)
      ultimately obtain res p' w' where "pacedPermit ?q w1 kind (rs' @ r # rest) = (Some res, p', w')"
        "waitSound p'" "sp_waitNS ?q \<le> sp_waitNS p'"
        using Cons.hyps(1) [OF rs(2), of ?q w1] Cons.prems(1,2) by (auto simp: samePace_def)
      then show ?thesis
        using f Inr rd False \<open>waitSound ?q \<and> sp_waitNS p \<le> sp_waitNS ?q\<close>
        unfolding rs(1) by (auto simp: Let_def)
    qed
  qed
qed

section \<open>Witnesses\<close>

definition mxPacer :: sourceAPIPacer where
  "mxPacer = (case newSourceAPIPacer 1000 60000000000 100
       \<lparr>ap_startup = 10, ap_minimumNext = 10, ap_maximumNext = 10, ap_finalValidation = 5, ap_entry = 5\<rparr> True of
     Inr (Some p) \<Rightarrow> p | _ \<Rightarrow> undefined)"

definition mxRound :: "int \<Rightarrow> pace_round" where
  "mxRound n = \<lparr>pr_ctx = mxCtx, pr_permitCtx = mxCtx, pr_wall = \<lparr>t_ns = t_ns mxNow + n, t_utc = True\<rparr>,
     pr_elapsed = \<lparr>t_ns = 77 + n, t_utc = True\<rparr>, pr_waited = 1\<rparr>"

abbreviation mxWide :: metadataWindow where
  "mxWide \<equiv> metadataWindowWithClocks mxReservation second_ns mxNow mxElapsed"

abbreviation mxCalls :: "(metadataWindow \<times> string \<times> pace_round list) list" where
  "mxCalls \<equiv> [(mxWide, ''stat'', [mxRound 0]), (mxWide, ''stat'', [mxRound 5, mxRound 1000000])]"

lemma mx_pacer: "newSourceAPIPacer 1000 60000000000 100
    \<lparr>ap_startup = 10, ap_minimumNext = 10, ap_maximumNext = 10, ap_finalValidation = 5, ap_entry = 5\<rparr> True =
    Inr (Some mxPacer)"
  by (simp add: mxPacer_def newSourceAPIPacer_def boundInvalid_def)

theorem paced_calls_keep_rate_witness:
  "second_ns \<le> 1000 * (t_ns (fst (runPacer mxPacer mxCalls ! 1)) - t_ns (fst (runPacer mxPacer mxCalls ! 0)))"
proof -
  have "length (runPacer mxPacer mxCalls) = 2" by code_simp
  moreover have "zero_ns < t_ns (mw_highWater mxWide)" by code_simp
  ultimately show ?thesis using paced_calls_keep_rate [OF mx_pacer, of mxCalls 0 1] by simp
qed

theorem paced_call_is_answered_witness:
  "\<exists>res p' w'. pacedPermit mxPacer mxWide ''stat'' ([mxRound 5] @ mxRound 1000000 # []) = (Some res, p', w')"
proof -
  have "t_ns (sp_lastWall mxPacer) + sp_spacing mxPacer \<le> t_ns (pr_wall (mxRound 1000000))"
    "t_ns (sp_lastElapsed mxPacer) + sp_spacing mxPacer \<le> t_ns (pr_elapsed (mxRound 1000000))" "waitSound mxPacer"
    by code_simp+
  then show ?thesis using paced_call_is_answered by blast
qed

end
