(* ===== verification/Go_Text.thy ===== *)
theory Go_Text
  imports Rydd_Prelude "HOL-Library.List_Lexorder" "HOL-Library.Char_ord"
begin

text \<open>
  What the scheduling code uses of Go's text packages: decimal integers of \<open>strconv\<close>, zero-padded
  fields of \<open>time.Format\<close>, \<open>strings.Split\<close> at one byte, \<open>strings.HasPrefix\<close> and
  \<open>filepath.Clean\<close> for slash-separated paths. Text is a list of bytes; the order on it is the
  byte order of Go's comparison operators.
\<close>

section \<open>Decimal digits\<close>

definition digitChar :: "nat \<Rightarrow> char" where "digitChar n = char_of (48 + n)"

definition isDigit :: "char \<Rightarrow> bool" where
  "isDigit c \<longleftrightarrow> 48 \<le> (of_char c :: nat) \<and> (of_char c :: nat) \<le> 57"

definition digitVal :: "char \<Rightarrow> nat" where "digitVal c = of_char c - 48"

fun digitsNat :: "nat \<Rightarrow> string" where
  "digitsNat n = (if n < 10 then [digitChar n] else digitsNat (n div 10) @ [digitChar (n mod 10)])"

declare digitsNat.simps [simp del]

definition FormatInt :: "int \<Rightarrow> string" where
  "FormatInt n = (if n < 0 then CHR ''-'' # digitsNat (nat (- n)) else digitsNat (nat n))"

definition natValue :: "string \<Rightarrow> nat" where
  "natValue s = foldl (\<lambda>a c. 10 * a + digitVal c) 0 s"

text \<open>\<open>strconv.ParseInt(s, 10, 64)\<close>: an optional sign, at least one digit, only digits, and a value
  in range; \<open>None\<close> is its error.\<close>

definition parseDigits :: "string \<Rightarrow> nat option" where
  "parseDigits s = (if s \<noteq> [] \<and> list_all isDigit s then Some (natValue s) else None)"

definition inRange :: "int \<Rightarrow> int option" where
  "inRange n = (if i64 n then Some n else None)"

definition ParseInt :: "string \<Rightarrow> int option" where
  "ParseInt s =
     (case s of
        [] \<Rightarrow> None
      | c # cs \<Rightarrow>
          if c = CHR ''-'' then Option.bind (parseDigits cs) (\<lambda>n. inRange (- int n))
          else if c = CHR ''+'' then Option.bind (parseDigits cs) (\<lambda>n. inRange (int n))
          else Option.bind (parseDigits s) (\<lambda>n. inRange (int n)))"

lemma digitChar_code: "n < 10 \<Longrightarrow> (of_char (digitChar n) :: nat) = 48 + n"
  by (simp add: digitChar_def)

lemma digitChar_simps [simp]:
  assumes "n < 10"
  shows "isDigit (digitChar n)" "digitVal (digitChar n) = n"
  using digitChar_code [OF assms] assms by (simp_all add: isDigit_def digitVal_def)

lemma digitChar_val: "isDigit c \<Longrightarrow> digitChar (digitVal c) = c"
  by (simp add: isDigit_def digitVal_def digitChar_def)

lemma digitVal_less: "isDigit c \<Longrightarrow> digitVal c < 10"
  unfolding isDigit_def digitVal_def by linarith

lemma char_less_code: "c < d \<longleftrightarrow> (of_char c :: nat) < of_char d"
  by (simp add: less_char_def)

lemma digitChar_less: "m < 10 \<Longrightarrow> n < 10 \<Longrightarrow> digitChar m < digitChar n \<longleftrightarrow> m < n"
  by (simp add: char_less_code digitChar_code)

lemma digitChar_inj: "m < 10 \<Longrightarrow> n < 10 \<Longrightarrow> digitChar m = digitChar n \<longleftrightarrow> m = n"
  by (metis digitChar_simps(2))

lemma digitsNat_digits: "list_all isDigit (digitsNat n)"
proof (induction n rule: digitsNat.induct)
  case (1 n)
  then show ?case by (cases "n < 10") (simp_all add: digitsNat.simps [of n])
qed

lemma digitsNat_nonempty [simp]: "digitsNat n \<noteq> []"
  by (simp add: digitsNat.simps [of n])

lemma natValue_snoc [simp]: "natValue (s @ [c]) = 10 * natValue s + digitVal c"
  by (simp add: natValue_def)

lemma natValue_Nil [simp]: "natValue [] = 0"
  by (simp add: natValue_def)

lemma natValue_digitsNat [simp]: "natValue (digitsNat n) = n"
proof (induction n rule: digitsNat.induct)
  case (1 n)
  then show ?case by (cases "n < 10") (simp_all add: digitsNat.simps [of n] natValue_def)
qed

lemma digit_not_special:
  "isDigit c \<Longrightarrow> c \<noteq> CHR ''-''" "isDigit c \<Longrightarrow> c \<noteq> CHR ''+''" "isDigit c \<Longrightarrow> c \<noteq> CHR '':''"
  by (auto simp: isDigit_def)

lemma digitsNat_Cons: "\<exists>c cs. digitsNat n = c # cs \<and> isDigit c"
  using digitsNat_digits [of n] by (cases "digitsNat n") auto

lemma parseDigits_digitsNat [simp]: "parseDigits (digitsNat n) = Some n"
  by (simp add: parseDigits_def digitsNat_digits)

lemma ParseInt_FormatInt: "i64 n \<Longrightarrow> ParseInt (FormatInt n) = Some n"
proof (cases "n < 0")
  case True
  then show "i64 n \<Longrightarrow> ParseInt (FormatInt n) = Some n"
    by (simp add: ParseInt_def FormatInt_def inRange_def)
next
  case False
  obtain c cs where c: "digitsNat (nat n) = c # cs" "isDigit c" using digitsNat_Cons by blast
  have "c \<noteq> CHR ''-''" "c \<noteq> CHR ''+''" using digit_not_special c(2) by auto
  then have "ParseInt (digitsNat (nat n)) = Option.bind (parseDigits (digitsNat (nat n))) (\<lambda>m. inRange (int m))"
    unfolding ParseInt_def c(1) by simp
  then show "i64 n \<Longrightarrow> ParseInt (FormatInt n) = Some n"
    using False by (simp add: FormatInt_def inRange_def)
qed

section \<open>Padded fields\<close>

text \<open>\<open>appendInt\<close> of the package \<open>time\<close>: at least \<open>w\<close> digits, after a sign.\<close>

definition zeroPad :: "nat \<Rightarrow> string \<Rightarrow> string" where
  "zeroPad w s = replicate (w - length s) CHR ''0'' @ s"

definition appendInt :: "nat \<Rightarrow> int \<Rightarrow> string" where
  "appendInt w n =
     (if n < 0 then CHR ''-'' # zeroPad w (digitsNat (nat (- n))) else zeroPad w (digitsNat (nat n)))"

fun fixedDigits :: "nat \<Rightarrow> nat \<Rightarrow> string" where
  "fixedDigits 0 n = []"
| "fixedDigits (Suc w) n = fixedDigits w (n div 10) @ [digitChar (n mod 10)]"

lemma fixedDigits_length [simp]: "length (fixedDigits w n) = w"
  by (induction w arbitrary: n) simp_all

lemma fixedDigits_digits: "list_all isDigit (fixedDigits w n)"
  by (induction w arbitrary: n) simp_all

lemma fixedDigits_zero: "fixedDigits w 0 = replicate w CHR ''0''"
proof (induction w)
  case (Suc w)
  have "digitChar 0 = CHR ''0''" by code_simp
  then show ?case using Suc by (simp add: replicate_append_same)
qed simp

lemma zeroPad_fixed: "n < 10 ^ w \<Longrightarrow> 0 < w \<Longrightarrow> zeroPad w (digitsNat n) = fixedDigits w n"
proof (induction w arbitrary: n)
  case (Suc w)
  show ?case
  proof (cases "n < 10")
    case True
    then have "fixedDigits w (n div 10) = replicate w CHR ''0''" by (simp add: fixedDigits_zero)
    then show ?thesis using True by (simp add: zeroPad_def digitsNat.simps [of n])
  next
    case False
    then have w: "0 < w" using Suc.prems by (cases w) auto
    have "n div 10 < 10 ^ w" using Suc.prems(1) by (simp add: less_mult_imp_div_less mult.commute)
    then show ?thesis using Suc.IH [of "n div 10"] w False by (simp add: zeroPad_def digitsNat.simps [of n])
  qed
qed simp

lemma natValue_fixed: "n < 10 ^ w \<Longrightarrow> natValue (fixedDigits w n) = n"
proof (induction w arbitrary: n)
  case (Suc w)
  have "n div 10 < 10 ^ w" using Suc.prems by (simp add: less_mult_imp_div_less mult.commute)
  then show ?case using Suc.IH by simp
qed simp

lemma less_append_same_length:
  fixes xs ys :: string
  shows "length xs = length ys \<Longrightarrow> xs @ us < ys @ vs \<longleftrightarrow> xs < ys \<or> xs = ys \<and> us < vs"
  by (induction xs ys rule: list_induct2) auto

lemma le_append_same_length:
  fixes xs ys :: string
  shows "length xs = length ys \<Longrightarrow> xs @ us \<le> ys @ vs \<longleftrightarrow> xs < ys \<or> xs = ys \<and> us \<le> vs"
  by (auto simp: le_less less_append_same_length)

lemma fixedDigits_less:
  "m < 10 ^ w \<Longrightarrow> n < 10 ^ w \<Longrightarrow> fixedDigits w m < fixedDigits w n \<longleftrightarrow> m < n"
proof (induction w arbitrary: m n)
  case (Suc w)
  have q: "m div 10 < 10 ^ w" "n div 10 < 10 ^ w"
    using Suc.prems by (simp_all add: less_mult_imp_div_less mult.commute)
  have eq: "fixedDigits w (m div 10) = fixedDigits w (n div 10) \<longleftrightarrow> m div 10 = n div 10"
    by (metis natValue_fixed q)
  have "m = 10 * (m div 10) + m mod 10" "n = 10 * (n div 10) + n mod 10" "m mod 10 < 10" "n mod 10 < 10" by simp_all
  then have "m < n \<longleftrightarrow> m div 10 < n div 10 \<or> m div 10 = n div 10 \<and> m mod 10 < n mod 10" by linarith
  then show ?case using Suc.IH [OF q] eq by (simp add: less_append_same_length digitChar_less)
qed simp

lemma fixedDigits_inj:
  "m < 10 ^ w \<Longrightarrow> n < 10 ^ w \<Longrightarrow> fixedDigits w m = fixedDigits w n \<longleftrightarrow> m = n"
  by (metis natValue_fixed)

end
