(* ===== verification/Go_Dates.thy ===== *)
theory Go_Dates
  imports Go_Text
begin

text \<open>
  The civil dates behind \<open>time.DateOnly\<close>: the proleptic Gregorian date of a day number, counted
  from the Unix epoch in UTC, its ten-byte text, and the parser of that text. The last section shows
  that text and day number carry the same information and the same order for the years 0 to 9999,
  which is what the sources rely on when they compare saved days as strings.
\<close>

section \<open>Years and months\<close>

definition leapYear :: "int \<Rightarrow> bool" where
  "leapYear y \<longleftrightarrow> y mod 4 = 0 \<and> (y mod 100 \<noteq> 0 \<or> y mod 400 = 0)"

text \<open>Days from the first day of year 1 to the first day of a year, and the year of such a count, by
  cutting off cycles of 400, 100, 4 and 1 years.\<close>

definition yearStart :: "int \<Rightarrow> int" where
  "yearStart y = (let p = y - 1 in 365 * p + p div 4 - p div 100 + p div 400)"

definition yearOf :: "int \<Rightarrow> int" where
  "yearOf n =
     (let q = n div 146097; d = n mod 146097;
          c = min 3 (d div 36524); d1 = d - 36524 * c;
          f = d1 div 1461; d2 = d1 - 1461 * f;
          k = min 3 (d2 div 365)
      in 400 * q + 100 * c + 4 * f + k + 1)"

definition monthLengths :: "int \<Rightarrow> int list" where
  "monthLengths y = [31, if leapYear y then 29 else 28, 31, 30, 31, 30, 31, 31, 30, 31, 30, 31]"

fun monthAt :: "int list \<Rightarrow> int \<Rightarrow> nat \<times> int" where
  "monthAt [] d = (0, d)"
| "monthAt (l # ls) d = (if d < l then (0, d) else let (m, r) = monthAt ls (d - l) in (Suc m, r))"

type_synonym civil_date = "int \<times> nat \<times> int"

definition civilOf :: "int \<Rightarrow> civil_date" where
  "civilOf n =
     (let y = yearOf (n + 719162); (m, d) = monthAt (monthLengths y) (n + 719162 - yearStart y)
      in (y, Suc m, d + 1))"

definition validDate :: "civil_date \<Rightarrow> bool" where
  "validDate = (\<lambda>(y, m, d). 1 \<le> m \<and> m \<le> 12 \<and> 1 \<le> d \<and> d \<le> monthLengths y ! (m - 1))"

definition dayNumber :: "civil_date \<Rightarrow> int" where
  "dayNumber = (\<lambda>(y, m, d). yearStart y + sum_list (take (m - 1) (monthLengths y)) + d - 1 - 719162)"

section \<open>Text\<close>

definition dateText :: "civil_date \<Rightarrow> string" where
  "dateText = (\<lambda>(y, m, d). appendInt 4 y @ ''-'' @ appendInt 2 (int m) @ ''-'' @ appendInt 2 d)"

definition utcDayOf :: "gotime \<Rightarrow> int" where "utcDayOf t = t_ns t div day_ns"

text \<open>\<open>t.UTC().Format(time.DateOnly)\<close>.\<close>

definition dateOnly :: "gotime \<Rightarrow> string" where
  "dateOnly t = dateText (civilOf (utcDayOf t))"

text \<open>\<open>time.Parse(time.DateOnly, s)\<close>: four digits, two and two, with the day within its month; the
  result is the first instant of the day.\<close>

definition dateShape :: "string \<Rightarrow> bool" where
  "dateShape s \<longleftrightarrow> length s = 10 \<and> s ! 4 = CHR ''-'' \<and> s ! 7 = CHR ''-'' \<and>
     list_all isDigit (take 4 s) \<and> list_all isDigit (take 2 (drop 5 s)) \<and> list_all isDigit (drop 8 s)"

definition dateFields :: "string \<Rightarrow> civil_date" where
  "dateFields s = (int (natValue (take 4 s)), natValue (take 2 (drop 5 s)), int (natValue (drop 8 s)))"

definition parseDateOnly :: "string \<Rightarrow> gotime option" where
  "parseDateOnly s =
     (if dateShape s \<and> validDate (dateFields s)
      then Some (toUTC (unixTime (dayNumber (dateFields s) * day_ns))) else None)"

section \<open>Dates and day numbers\<close>

lemma year_cycles:
  assumes "0 \<le> c" "c \<le> 3" "0 \<le> f" "f \<le> 24" "0 \<le> k" "k \<le> 3"
  shows "yearStart (400 * q + 100 * c + 4 * f + k + 1) = 146097 * q + 36524 * c + 1461 * f + 365 * k"
proof -
  let ?p = "400 * q + 100 * c + 4 * f + k"
  have "?p div 4 = 100 * q + 25 * c + f" "?p div 100 = 4 * q + c" "?p div 400 = q"
    using assms int_div_pos_eq [of ?p 4 "100 * q + 25 * c + f" k]
      int_div_pos_eq [of ?p 100 "4 * q + c" "4 * f + k"] int_div_pos_eq [of ?p 400 q "100 * c + 4 * f + k"]
    by simp_all
  then show ?thesis by (simp add: yearStart_def Let_def)
qed

lemma div_pred:
  fixes x n :: int
  assumes "0 < n"
  shows "x div n = (x - 1) div n + (if x mod n = 0 then 1 else 0)"
proof -
  have x: "x = n * (x div n) + x mod n" "0 \<le> x mod n" "x mod n < n" using assms by simp_all
  have "(x - 1) div n = x div n - (if x mod n = 0 then 1 else 0)"
  proof (cases "x mod n = 0")
    case True
    then have "x - 1 = n * (x div n - 1) + (n - 1)" using x(1) by (simp add: algebra_simps)
    then show ?thesis using assms True int_div_pos_eq [of "x - 1" n "x div n - 1" "n - 1"] by simp
  next
    case False
    then show ?thesis using assms x int_div_pos_eq [of "x - 1" n "x div n" "x mod n - 1"] by simp
  qed
  then show ?thesis by simp
qed

lemma yearStart_Suc: "yearStart (y + 1) = yearStart y + (if leapYear y then 366 else 365)"
proof -
  note steps = div_pred [of 4 y] div_pred [of 100 y] div_pred [of 400 y]
  have "y mod 100 = 0 \<Longrightarrow> y mod 4 = 0" "y mod 400 = 0 \<Longrightarrow> y mod 100 = 0"
    by (simp_all add: mod_eq_0_iff_dvd dvd_trans [of 4 100] dvd_trans [of 100 400])
  then consider "leapYear y" "y mod 4 = 0" "y mod 100 = 0" "y mod 400 = 0"
    | "leapYear y" "y mod 4 = 0" "y mod 100 \<noteq> 0" "y mod 400 \<noteq> 0"
    | "\<not> leapYear y" "y mod 4 = 0" "y mod 100 = 0" "y mod 400 \<noteq> 0"
    | "\<not> leapYear y" "y mod 4 \<noteq> 0" "y mod 100 \<noteq> 0" "y mod 400 \<noteq> 0"
    unfolding leapYear_def by argo
  then show ?thesis
    by cases (simp_all add: yearStart_def Let_def steps)
qed

lemma yearOf_cycles:
  obtains q c f k where "yearOf n = 400 * q + 100 * c + 4 * f + k + 1" "0 \<le> c" "c \<le> 3" "0 \<le> f" "f \<le> 24"
    "0 \<le> k" "k \<le> 3" "146097 * q + 36524 * c + 1461 * f + 365 * k \<le> n"
    "n < 146097 * q + 36524 * c + 1461 * f + 365 * (k + 1) \<or>
     k = 3 \<and> n = 146097 * q + 36524 * c + 1461 * f + 1460 \<and> (f = 24 \<longrightarrow> c = 3)"
proof -
  define q d where "q = n div 146097" "d = n mod 146097"
  define c d1 where "c = min 3 (d div 36524)" "d1 = d - 36524 * c"
  define f d2 where "f = d1 div 1461" "d2 = d1 - 1461 * f"
  define k where "k = min 3 (d2 div 365)"
  note defs = q_d_def c_d1_def f_d2_def k_def
  have y: "yearOf n = 400 * q + 100 * c + 4 * f + k + 1" unfolding yearOf_def defs Let_def by simp
  have n: "n = 146097 * q + d" "0 \<le> d" "d < 146097" unfolding defs(1,2) by simp_all
  have c: "0 \<le> c" "c \<le> 3" "0 \<le> d1" "c < 3 \<longrightarrow> d1 < 36524" "d1 \<le> 36524"
    using n unfolding defs(3,4) by linarith+
  have f: "0 \<le> f" "f \<le> 24" "0 \<le> d2" "d2 \<le> 1460" using c unfolding defs(5,6) by linarith+
  have k: "0 \<le> k" "k \<le> 3" "365 * k \<le> d2" "k < 3 \<longrightarrow> d2 < 365 * (k + 1)"
    using f unfolding defs(7) min_def by (simp_all split: if_splits, linarith+)
  have full: "n = 146097 * q + 36524 * c + 1461 * f + d2" using n(1) unfolding defs(4,6) by simp
  have last: "d2 < 365 * (k + 1) \<or> k = 3 \<and> d2 = 1460" using k f by (cases "k < 3") auto
  have "c = 3" if "d2 = 1460" "f = 24" using that c unfolding defs(6) by linarith
  then show thesis using that [OF y c(1,2) f(1,2) k(1,2)] full k(3) last by auto
qed

lemma yearOf_bounds: "yearStart (yearOf n) \<le> n" "n < yearStart (yearOf n + 1)"
proof -
  obtain q c f k where y: "yearOf n = 400 * q + 100 * c + 4 * f + k + 1"
    and r: "0 \<le> c" "c \<le> 3" "0 \<le> f" "f \<le> 24" "0 \<le> k" "k \<le> 3"
    and lo: "146097 * q + 36524 * c + 1461 * f + 365 * k \<le> n"
    and hi: "n < 146097 * q + 36524 * c + 1461 * f + 365 * (k + 1) \<or>
     k = 3 \<and> n = 146097 * q + 36524 * c + 1461 * f + 1460 \<and> (f = 24 \<longrightarrow> c = 3)"
    by (rule yearOf_cycles)
  show "yearStart (yearOf n) \<le> n" using lo year_cycles [OF r] by (simp add: y)
  consider "k < 3" | "k = 3" "f < 24" | "k = 3" "f = 24" "c < 3" | "k = 3" "f = 24" "c = 3"
    using r by linarith
  then show "n < yearStart (yearOf n + 1)"
  proof cases
    case 1
    then show ?thesis using year_cycles [of c f "k + 1" q] r hi by (auto simp: y algebra_simps)
  next
    case 2
    then show ?thesis using year_cycles [of c "f + 1" 0 q] r hi by (auto simp: y algebra_simps)
  next
    case 3
    then show ?thesis using year_cycles [of "c + 1" 0 0 q] r hi by (auto simp: y algebra_simps)
  next
    case 4
    then show ?thesis using year_cycles [of 0 0 0 "q + 1"] r hi by (auto simp: y algebra_simps)
  qed
qed

lemma monthLengths_simps [simp]: "length (monthLengths y) = 12"
  by (simp add: monthLengths_def)

lemma monthLengths_sum: "sum_list (monthLengths y) = (if leapYear y then 366 else 365)"
  by (simp add: monthLengths_def)

lemma monthAt_ok:
  assumes "0 \<le> d" "d < sum_list ls" "monthAt ls d = (m, r)"
  shows "m < length ls \<and> 0 \<le> r \<and> r < ls ! m \<and> d = sum_list (take m ls) + r"
  using assms
proof (induction ls arbitrary: d m)
  case (Cons l ls)
  show ?case
  proof (cases "d < l")
    case False
    then obtain m' where "m = Suc m'" "monthAt ls (d - l) = (m', r)"
      using Cons.prems(3) by (auto split: prod.splits)
    then show ?thesis using Cons.IH [of "d - l" m'] False Cons.prems(2) by auto
  qed (use Cons.prems in auto)
qed simp

lemma civilOf_ok: "validDate (civilOf n)" "dayNumber (civilOf n) = n"
proof -
  let ?n = "n + 719162" let ?y = "yearOf ?n"
  obtain m r where a: "monthAt (monthLengths ?y) (?n - yearStart ?y) = (m, r)" by fastforce
  have "m < 12 \<and> 0 \<le> r \<and> r < monthLengths ?y ! m \<and>
      ?n - yearStart ?y = sum_list (take m (monthLengths ?y)) + r"
    using monthAt_ok [OF _ _ a] yearOf_bounds [of ?n] yearStart_Suc [of ?y]
    by (auto simp: monthLengths_sum)
  then show "validDate (civilOf n)" "dayNumber (civilOf n) = n"
    using a by (auto simp: civilOf_def Let_def validDate_def dayNumber_def)
qed

definition dateLess :: "civil_date \<Rightarrow> civil_date \<Rightarrow> bool" where
  "dateLess = (\<lambda>(y, m, d) (y', m', d'). y < y' \<or> y = y' \<and> (m < m' \<or> m = m' \<and> d < d'))"

lemma yearStart_mono: "y < y' \<Longrightarrow> yearStart (y + 1) \<le> yearStart y'"
proof (induction y' rule: int_gr_induct [where k = y])
  case (step y')
  then show ?case using yearStart_Suc [of y'] by (auto split: if_splits)
qed simp_all

lemma monthLengths_nonneg: "x \<in> set (monthLengths y) \<Longrightarrow> 0 \<le> x"
  by (auto simp: monthLengths_def split: if_splits)

lemma take_sum_mono:
  fixes ls :: "int list"
  assumes "i \<le> j" "\<And>x. x \<in> set ls \<Longrightarrow> 0 \<le> x"
  shows "sum_list (take i ls) \<le> sum_list (take j ls)"
proof -
  have "take j ls = take i ls @ take (j - i) (drop i ls)" using take_add [of i "j - i" ls] assms(1) by simp
  moreover have "0 \<le> sum_list (take (j - i) (drop i ls))"
    using assms(2) by (intro sum_list_nonneg) (meson in_set_dropD in_set_takeD)
  ultimately show ?thesis by simp
qed

lemma month_span:
  assumes "validDate (y, m, d)"
  shows "sum_list (take (m - 1) (monthLengths y)) + d \<le> sum_list (take m (monthLengths y))"
    "m \<le> 12" "0 < m" "1 \<le> d"
proof -
  from assms have m: "m - 1 < 12" "0 < m" and d: "d \<le> monthLengths y ! (m - 1)" by (auto simp: validDate_def)
  have "take m (monthLengths y) = take (m - 1) (monthLengths y) @ [monthLengths y ! (m - 1)]"
    using take_Suc_conv_app_nth [of "m - 1" "monthLengths y"] m by simp
  then show "sum_list (take (m - 1) (monthLengths y)) + d \<le> sum_list (take m (monthLengths y))"
    using d by simp
qed (use assms in \<open>auto simp: validDate_def\<close>)

lemma dayNumber_year:
  assumes "validDate (y, m, d)"
  shows "yearStart y \<le> dayNumber (y, m, d) + 719162" "dayNumber (y, m, d) + 719162 < yearStart (y + 1)"
proof -
  note s = month_span [OF assms]
  have "0 \<le> sum_list (take (m - 1) (monthLengths y))"
    by (intro sum_list_nonneg) (meson in_set_takeD monthLengths_nonneg)
  then show "yearStart y \<le> dayNumber (y, m, d) + 719162" using s(4) by (simp add: dayNumber_def)
  have "sum_list (take m (monthLengths y)) \<le> sum_list (take 12 (monthLengths y))"
    using take_sum_mono s(2) monthLengths_nonneg by blast
  then show "dayNumber (y, m, d) + 719162 < yearStart (y + 1)"
    using s(1) by (simp add: dayNumber_def yearStart_Suc monthLengths_sum)
qed

lemma dayNumber_less:
  assumes "validDate a" "validDate b" "dateLess a b"
  shows "dayNumber a < dayNumber b"
proof -
  obtain y m d y' m' d' where ab: "a = (y, m, d)" "b = (y', m', d')" by (cases a, cases b) auto
  note va = assms(1) [unfolded ab] and vb = assms(2) [unfolded ab]
  consider "y < y'" | "y = y'" "m < m'" | "y = y'" "m = m'" "d < d'"
    using assms(3) by (auto simp: ab dateLess_def)
  then show ?thesis
  proof cases
    case 1
    then show ?thesis using yearStart_mono [OF 1] dayNumber_year [OF va] dayNumber_year [OF vb] by (simp add: ab)
  next
    case 2
    have "sum_list (take m (monthLengths y)) \<le> sum_list (take (m' - 1) (monthLengths y))"
      using take_sum_mono 2(2) monthLengths_nonneg by (metis Suc_diff_1 gr_implies_not0 gr0I less_Suc_eq_le)
    then show ?thesis using month_span [OF va] month_span [OF vb] 2 by (simp add: ab dayNumber_def)
  qed (simp add: ab dayNumber_def)
qed

lemma dateLess_total: "dateLess a b \<or> a = b \<or> dateLess b a"
  by (auto simp: dateLess_def split: prod.splits)

lemma dayNumber_less_iff:
  "validDate a \<Longrightarrow> validDate b \<Longrightarrow> dayNumber a < dayNumber b \<longleftrightarrow> dateLess a b"
  using dayNumber_less [of a b] dayNumber_less [of b a] dateLess_total [of a b] by auto

lemma civilOf_dayNumber: "validDate a \<Longrightarrow> civilOf (dayNumber a) = a"
  using civilOf_ok [of "dayNumber a"] dateLess_total [of "civilOf (dayNumber a)" a]
    dayNumber_less [of "civilOf (dayNumber a)" a] dayNumber_less [of a "civilOf (dayNumber a)"] by auto

section \<open>Dates and their text\<close>

text \<open>The years that have four digits.\<close>

definition smallDate :: "civil_date \<Rightarrow> bool" where
  "smallDate c \<longleftrightarrow> validDate c \<and> 0 \<le> fst c \<and> fst c \<le> 9999"

definition smallDay :: "int \<Rightarrow> bool" where
  "smallDay n \<longleftrightarrow> smallDate (civilOf n)"

lemma month_length_le: "m \<le> 12 \<Longrightarrow> 0 < m \<Longrightarrow> monthLengths y ! (m - 1) \<le> 31"
proof -
  assume "m \<le> 12" "0 < m"
  then have "monthLengths y ! (m - 1) \<in> set (monthLengths y)" by simp
  then show ?thesis by (auto simp: monthLengths_def split: if_splits)
qed

lemma smallDate_bounds:
  assumes "smallDate (y, m, d)"
  shows "0 \<le> y" "nat y < 10 ^ 4" "m < 10 ^ 2" "0 \<le> d" "nat d < 10 ^ 2"
  using assms month_length_le [of m y] by (auto simp: smallDate_def validDate_def)

lemma appendInt_fixed: "0 \<le> n \<Longrightarrow> nat n < 10 ^ w \<Longrightarrow> 0 < w \<Longrightarrow> appendInt w n = fixedDigits w (nat n)"
  by (simp add: appendInt_def zeroPad_fixed)

lemma dateText_fixed:
  assumes "smallDate (y, m, d)"
  shows "dateText (y, m, d) = fixedDigits 4 (nat y) @ ''-'' @ fixedDigits 2 m @ ''-'' @ fixedDigits 2 (nat d)"
proof -
  note b = smallDate_bounds [OF assms]
  show ?thesis
    using b appendInt_fixed [of y 4] appendInt_fixed [of "int m" 2] appendInt_fixed [of d 2]
    by (simp add: dateText_def)
qed

lemma dateText_less:
  assumes "smallDate a" "smallDate b"
  shows "dateText a < dateText b \<longleftrightarrow> dateLess a b"
proof -
  obtain y m d y' m' d' where ab: "a = (y, m, d)" "b = (y', m', d')" by (cases a, cases b) auto
  note x = smallDate_bounds [OF assms(1) [unfolded ab]] and z = smallDate_bounds [OF assms(2) [unfolded ab]]
  have e: "nat y = nat y' \<longleftrightarrow> y = y'" "nat y < nat y' \<longleftrightarrow> y < y'" "nat d < nat d' \<longleftrightarrow> d < d'" using x z by auto
  show ?thesis
    unfolding ab dateText_fixed [OF assms(1) [unfolded ab]] dateText_fixed [OF assms(2) [unfolded ab]]
    using fixedDigits_less [OF x(2) z(2)] fixedDigits_inj [OF x(2) z(2)] fixedDigits_less [OF x(3) z(3)]
      fixedDigits_inj [OF x(3) z(3)] fixedDigits_less [OF x(5) z(5)] e
    by (simp add: less_append_same_length dateLess_def)
qed

lemma dateText_shape:
  assumes "smallDate c"
  shows "dateShape (dateText c)" "dateFields (dateText c) = c"
proof -
  obtain y m d where c: "c = (y, m, d)" by (cases c) auto
  note b = smallDate_bounds [OF assms [unfolded c]]
  let ?s = "fixedDigits 4 (nat y) @ ''-'' @ fixedDigits 2 m @ ''-'' @ fixedDigits 2 (nat d)"
  have s: "dateText c = ?s" unfolding c by (rule dateText_fixed [OF assms [unfolded c]])
  have parts: "take 4 ?s = fixedDigits 4 (nat y)" "take 2 (drop 5 ?s) = fixedDigits 2 m"
      "drop 8 ?s = fixedDigits 2 (nat d)" "?s ! 4 = CHR ''-''" "?s ! 7 = CHR ''-''" "length ?s = 10"
    by (simp_all add: nth_append)
  show "dateShape (dateText c)" unfolding s dateShape_def parts by (simp add: fixedDigits_digits)
  have "natValue (fixedDigits 4 (nat y)) = nat y" "natValue (fixedDigits 2 m) = m"
      "natValue (fixedDigits 2 (nat d)) = nat d" using b natValue_fixed by blast+
  then show "dateFields (dateText c) = c" unfolding s dateFields_def parts using b by (simp add: c)
qed

lemma digits_fixed: "list_all isDigit s \<Longrightarrow> fixedDigits (length s) (natValue s) = s \<and> natValue s < 10 ^ length s"
proof (induction s rule: rev_induct)
  case (snoc c s)
  then have c: "isDigit c" and s: "fixedDigits (length s) (natValue s) = s" "natValue s < 10 ^ length s" by auto
  have "(10 * natValue s + digitVal c) div 10 = natValue s" "(10 * natValue s + digitVal c) mod 10 = digitVal c"
    using digitVal_less [OF c] by simp_all
  then show ?case using s digitChar_val [OF c] digitVal_less [OF c] by simp
qed simp

lemma shape_split:
  assumes "dateShape s"
  shows "s = take 4 s @ ''-'' @ take 2 (drop 5 s) @ ''-'' @ drop 8 s"
proof -
  have l: "length s = 10" "s ! 4 = CHR ''-''" "s ! 7 = CHR ''-''" using assms by (auto simp: dateShape_def)
  have "drop 4 s = s ! 4 # drop 5 s" "drop 7 s = s ! 7 # drop 8 s"
    using Cons_nth_drop_Suc [of 4 s] Cons_nth_drop_Suc [of 7 s] l by simp_all
  moreover have "drop 5 s = take 2 (drop 5 s) @ drop 7 s" using append_take_drop_id [of 2 "drop 5 s"] by simp
  ultimately have "drop 4 s = ''-'' @ take 2 (drop 5 s) @ ''-'' @ drop 8 s" using l by simp
  then show ?thesis using append_take_drop_id [of 4 s] by simp
qed

lemma dateText_fields:
  assumes "dateShape s" "validDate (dateFields s)"
  shows "smallDate (dateFields s)" "dateText (dateFields s) = s"
proof -
  have l: "length s = 10" and dg: "list_all isDigit (take 4 s)" "list_all isDigit (take 2 (drop 5 s))" "list_all isDigit (drop 8 s)"
    using assms by (auto simp: dateShape_def)
  note f = digits_fixed [OF dg(1)] digits_fixed [OF dg(2)] digits_fixed [OF dg(3)]
  have "natValue (take 4 s) < 10 ^ 4" using f(1) l by simp
  then show small: "smallDate (dateFields s)" using assms by (simp add: smallDate_def dateFields_def)
  have x: "fixedDigits 4 (natValue (take 4 s)) = take 4 s"
      "fixedDigits 2 (natValue (take 2 (drop 5 s))) = take 2 (drop 5 s)"
      "fixedDigits 2 (natValue (drop 8 s)) = drop 8 s" using f l by simp_all
  have "dateText (dateFields s) = take 4 s @ ''-'' @ take 2 (drop 5 s) @ ''-'' @ drop 8 s"
    using dateText_fixed [OF small [unfolded dateFields_def]] unfolding dateFields_def nat_int x .
  then show "dateText (dateFields s) = s" using shape_split [OF assms(1)] by simp
qed

lemma dateOnly_less:
  assumes "smallDay (utcDayOf t)" "smallDay (utcDayOf u)"
  shows "dateOnly t < dateOnly u \<longleftrightarrow> utcDayOf t < utcDayOf u"
  using dateText_less assms dayNumber_less_iff [OF civilOf_ok(1) civilOf_ok(1), of "utcDayOf t" "utcDayOf u"]
  by (simp add: dateOnly_def smallDay_def civilOf_ok(2))

lemma dateOnly_eq:
  assumes "smallDay (utcDayOf t)" "smallDay (utcDayOf u)"
  shows "dateOnly t = dateOnly u \<longleftrightarrow> utcDayOf t = utcDayOf u"
  using dateOnly_less [OF assms] dateOnly_less [OF assms(2,1)] by (metis dateOnly_def less_irrefl not_less_iff_gr_or_eq)

definition dayStart :: "int \<Rightarrow> gotime" where "dayStart n = toUTC (unixTime (n * day_ns))"

lemma parse_dateOnly: "smallDay (utcDayOf t) \<Longrightarrow> parseDateOnly (dateOnly t) = Some (dayStart (utcDayOf t))"
  using dateText_shape [of "civilOf (utcDayOf t)"] civilOf_ok [of "utcDayOf t"]
  by (simp add: parseDateOnly_def dateOnly_def smallDay_def dayStart_def)

lemma parse_some:
  assumes "parseDateOnly s = Some p"
  obtains n where "smallDay n" "p = dayStart n" "s = dateText (civilOf n)"
proof -
  have c: "dateShape s" "validDate (dateFields s)" and p: "p = dayStart (dayNumber (dateFields s))"
    using assms by (auto simp: parseDateOnly_def dayStart_def split: if_splits)
  note f = dateText_fields [OF c]
  have "civilOf (dayNumber (dateFields s)) = dateFields s" using civilOf_dayNumber [OF c(2)] .
  then show thesis using that [of "dayNumber (dateFields s)"] f p by (simp add: smallDay_def)
qed

lemma utcDayOf_dayStart [simp]: "utcDayOf (dayStart n) = n"
  by (simp add: utcDayOf_def dayStart_def)

lemma dateOnly_dayStart: "dateOnly (dayStart n) = dateText (civilOf n)"
  by (simp add: dateOnly_def)

text \<open>Every instant an \<open>int64\<close> of nanoseconds names has a four-digit year.\<close>

lemma smallDay_i64:
  assumes "i64 (t_ns t)"
  shows "smallDay (utcDayOf t)"
proof -
  have "- 106752 \<le> utcDayOf t" "utcDayOf t \<le> 106751"
    using assms unfolding utcDayOf_def i64_def by linarith+
  then have n: "612410 \<le> utcDayOf t + 719162" "utcDayOf t + 719162 \<le> 825913" by simp_all
  let ?y = "yearOf (utcDayOf t + 719162)"
  note b = yearOf_bounds [of "utcDayOf t + 719162"]
  have s: "yearStart 1 = 0" "yearStart 10000 = 3652059" by (simp_all add: yearStart_def)
  have "0 \<le> ?y" using yearStart_mono [of ?y 1] n b s by linarith
  moreover have "?y \<le> 9999" using yearStart_mono [of 9999 ?y] n b s by (cases "?y \<le> 9999") simp_all
  moreover have "fst (civilOf (utcDayOf t)) = ?y" by (simp add: civilOf_def Let_def split: prod.splits)
  ultimately show ?thesis using civilOf_ok(1) by (simp add: smallDay_def smallDate_def)
qed

end
