(* ===== verification/Go_Paths.thy ===== *)
theory Go_Paths
  imports Go_Text
begin

text \<open>
  \<open>strings.Split\<close> and \<open>strings.Join\<close> at one byte, and \<open>filepath.Clean\<close>, \<open>filepath.IsAbs\<close> and the
  prefix test for slash-separated paths: the lexical processing every stored root and job path
  goes through. \<open>Clean\<close> follows its documentation: empty and \<open>.\<close> elements are dropped, an inner
  \<open>..\<close> removes the element before it, and \<open>..\<close> at the start of a rooted path is dropped.
\<close>

section \<open>Elements of a path\<close>

fun splitOn :: "char \<Rightarrow> string \<Rightarrow> string list" where
  "splitOn sep [] = [[]]"
| "splitOn sep (c # cs) =
     (if c = sep then [] # splitOn sep cs
      else case splitOn sep cs of [] \<Rightarrow> [[c]] | p # ps \<Rightarrow> (c # p) # ps)"

fun joinWith :: "char \<Rightarrow> string list \<Rightarrow> string" where
  "joinWith sep [] = []"
| "joinWith sep [p] = p"
| "joinWith sep (p # q # ps) = p @ sep # joinWith sep (q # ps)"

abbreviation slash :: char where "slash \<equiv> CHR ''/''"

definition IsAbs :: "string \<Rightarrow> bool" where "IsAbs p \<longleftrightarrow> p \<noteq> [] \<and> hd p = slash"

definition HasPrefix :: "string \<Rightarrow> string \<Rightarrow> bool" where
  "HasPrefix s pre \<longleftrightarrow> take (length pre) s = pre"

definition cleanStep :: "bool \<Rightarrow> string list \<Rightarrow> string \<Rightarrow> string list" where
  "cleanStep rooted acc p =
     (if p = [] \<or> p = ''.'' then acc
      else if p = ''..''
      then (case acc of
              [] \<Rightarrow> if rooted then [] else [''..'']
            | a # as \<Rightarrow> if a = ''..'' then ''..'' # a # as else as)
      else p # acc)"

definition cleanElements :: "bool \<Rightarrow> string list \<Rightarrow> string list" where
  "cleanElements rooted ps = rev (foldl (cleanStep rooted) [] ps)"

definition Clean :: "string \<Rightarrow> string" where
  "Clean path =
     (if path = [] then ''.''
      else let out = cleanElements (IsAbs path) (splitOn slash path) in
        if IsAbs path then slash # joinWith slash out
        else if out = [] then ''.'' else joinWith slash out)"

section \<open>Splitting and joining\<close>

lemma splitOn_nonempty [simp]: "splitOn sep s \<noteq> []"
  by (induction s) (auto split: list.splits)

lemma splitOn_parts: "p \<in> set (splitOn sep s) \<Longrightarrow> sep \<notin> set p"
proof (induction s arbitrary: p)
  case (Cons c cs)
  then show ?case by (cases "splitOn sep cs") (auto split: if_splits)
qed simp

lemma splitOn_plain: "sep \<notin> set p \<Longrightarrow> splitOn sep p = [p]"
  by (induction p) auto

lemma splitOn_append: "sep \<notin> set p \<Longrightarrow> splitOn sep (p @ sep # s) = p # splitOn sep s"
  by (induction p) auto

lemma splitOn_join:
  "ps \<noteq> [] \<Longrightarrow> (\<And>p. p \<in> set ps \<Longrightarrow> sep \<notin> set p) \<Longrightarrow> splitOn sep (joinWith sep ps) = ps"
  by (induction sep ps rule: joinWith.induct) (simp_all add: splitOn_plain splitOn_append)

section \<open>Cleaning\<close>

text \<open>The elements of a clean path: \<open>..\<close> only in front of a relative path, and names after it.\<close>

definition nameElement :: "string \<Rightarrow> bool" where
  "nameElement p \<longleftrightarrow> p \<noteq> [] \<and> p \<noteq> ''.'' \<and> p \<noteq> ''..'' \<and> slash \<notin> set p"

definition cleanForm :: "bool \<Rightarrow> string list \<Rightarrow> bool" where
  "cleanForm rooted ps \<longleftrightarrow>
     (\<exists>n names. ps = replicate n ''..'' @ names \<and> list_all nameElement names \<and> (rooted \<longrightarrow> n = 0))"

lemma foldl_clean_form:
  assumes "list_all (\<lambda>p. slash \<notin> set p) ps" "cleanForm rooted (rev acc)"
  shows "cleanForm rooted (rev (foldl (cleanStep rooted) acc ps))"
  using assms
proof (induction ps arbitrary: acc)
  case (Cons p ps)
  obtain n names where acc: "rev acc = replicate n ''..'' @ names" "list_all nameElement names" "rooted \<longrightarrow> n = 0"
    using Cons.prems(2) by (auto simp: cleanForm_def)
  have "cleanForm rooted (rev (cleanStep rooted acc p))"
  proof (cases "p = ''..''")
    case dots: True
    show ?thesis
    proof (cases names rule: rev_cases)
      case Nil
      then have a: "acc = replicate n ''..''" using acc(1) by (metis append_Nil2 rev_replicate rev_rev_ident)
      show ?thesis
      proof (cases n)
        case 0
        then show ?thesis using a dots
          by (cases rooted) (auto simp: cleanStep_def cleanForm_def intro: exI [of _ 0] exI [of _ 1])
      next
        case (Suc k)
        then have "\<not> rooted" "rev (cleanStep rooted acc p) = replicate (Suc n) ''..'' @ []"
          using a dots acc(3) by (simp_all add: cleanStep_def replicate_append_same)
        then show ?thesis unfolding cleanForm_def by (intro exI [of _ "Suc n"] exI [of _ "[]"]) simp
      qed
    next
      case (snoc init l)
      then have l: "l \<noteq> ''..''" "list_all nameElement init" using acc(2) by (auto simp: nameElement_def)
      have "acc = rev (replicate n ''..'' @ init @ [l])" using acc(1) snoc by (metis rev_rev_ident)
      then have "acc = l # rev (replicate n ''..'' @ init)" by simp
      then have "rev (cleanStep rooted acc p) = replicate n ''..'' @ init" using dots l by (simp add: cleanStep_def)
      then show ?thesis using l acc(3) by (auto simp: cleanForm_def)
    qed
  next
    case False
    show ?thesis
    proof (cases "p = [] \<or> p = ''.''")
      case True
      then show ?thesis using Cons.prems(2) by (auto simp: cleanStep_def)
    next
      case name: False
      then have "rev (cleanStep rooted acc p) = replicate n ''..'' @ names @ [p]" "nameElement p"
        using False acc(1) Cons.prems(1) by (auto simp: cleanStep_def nameElement_def)
      then show ?thesis using acc unfolding cleanForm_def by (intro exI [of _ n] exI [of _ "names @ [p]"]) simp
    qed
  qed
  then show ?case using Cons.IH [of "cleanStep rooted acc p"] Cons.prems(1) by simp
qed simp

lemma cleanElements_form: "cleanForm rooted (cleanElements rooted (splitOn slash s))"
proof -
  have "list_all (\<lambda>p. slash \<notin> set p) (splitOn slash s)" using splitOn_parts by (auto simp: list_all_iff)
  moreover have "cleanForm rooted (rev [])" by (auto simp: cleanForm_def)
  ultimately show ?thesis unfolding cleanElements_def by (rule foldl_clean_form)
qed

lemma foldl_names: "list_all nameElement names \<Longrightarrow> foldl (cleanStep rooted) acc names = rev names @ acc"
  by (induction names arbitrary: acc) (auto simp: cleanStep_def nameElement_def)

lemma foldl_dots: "foldl (cleanStep False) (replicate k ''..'') (replicate n ''..'') = replicate (n + k) ''..''"
proof (induction n arbitrary: k)
  case (Suc n)
  have "cleanStep False (replicate k ''..'') ''..'' = replicate (Suc k) ''..''"
    by (cases k) (simp_all add: cleanStep_def)
  then show ?case using Suc [of "Suc k"] by simp
qed simp

lemma cleanElements_fixed:
  assumes "cleanForm rooted ps"
  shows "cleanElements rooted ps = ps"
proof -
  obtain n names where ps: "ps = replicate n ''..'' @ names" "list_all nameElement names" "rooted \<longrightarrow> n = 0"
    using assms by (auto simp: cleanForm_def)
  have "foldl (cleanStep rooted) [] (replicate n ''..'') = replicate n ''..''"
    using foldl_dots [of 0 n] ps(3) by (cases rooted) simp_all
  then show ?thesis by (simp add: cleanElements_def ps foldl_names)
qed

lemma cleanForm_elements:
  assumes "cleanForm rooted ps" "p \<in> set ps"
  shows "p \<noteq> []" "p \<noteq> ''.''" "slash \<notin> set p"
proof -
  obtain n names where ps: "ps = replicate n ''..'' @ names" "list_all nameElement names"
    using assms(1) by (auto simp: cleanForm_def)
  have "p = ''..'' \<or> nameElement p" using assms(2) ps by (auto simp: list_all_iff)
  then show "p \<noteq> []" "p \<noteq> ''.''" "slash \<notin> set p" by (auto simp: nameElement_def)
qed

lemma join_hd: "ps \<noteq> [] \<Longrightarrow> hd ps \<noteq> [] \<Longrightarrow> joinWith sep ps \<noteq> [] \<and> hd (joinWith sep ps) = hd (hd ps)"
  by (induction sep ps rule: joinWith.induct) simp_all

lemma cleanElements_drop_empty [simp]: "cleanElements r ([] # ps) = cleanElements r ps"
  by (simp add: cleanElements_def cleanStep_def)

text \<open>What \<open>Clean\<close> returns, by the shape of its argument.\<close>

lemma Clean_shape:
  obtains (rooted) ps where "cleanForm True ps" "Clean s = slash # joinWith slash ps"
  | (dot) "Clean s = ''.''"
  | (relative) ps where "cleanForm False ps" "ps \<noteq> []" "Clean s = joinWith slash ps"
proof -
  consider "Clean s = ''.''"
    | "Clean s = slash # joinWith slash (cleanElements True (splitOn slash s))"
    | "cleanElements False (splitOn slash s) \<noteq> []" "Clean s = joinWith slash (cleanElements False (splitOn slash s))"
    by (cases "s = []"; cases "IsAbs s"; cases "cleanElements False (splitOn slash s) = []")
      (simp_all add: Clean_def Let_def)
  then show thesis
    by cases (use dot rooted [OF cleanElements_form] relative [OF cleanElements_form] in blast)+
qed

lemma split_clean: "cleanForm r ps \<Longrightarrow> ps \<noteq> [] \<Longrightarrow> splitOn slash (joinWith slash ps) = ps"
  using cleanForm_elements(3) [of r ps] by (intro splitOn_join) auto

lemma Clean_idem: "Clean (Clean s) = Clean s"
proof (cases rule: Clean_shape [of s])
  case (rooted ps)
  have "cleanElements True (splitOn slash (joinWith slash ps)) = ps"
  proof (cases "ps = []")
    case False
    then show ?thesis using split_clean [OF rooted(1)] cleanElements_fixed [OF rooted(1)] by simp
  qed (simp add: cleanElements_def cleanStep_def)
  then have "Clean (slash # joinWith slash ps) = slash # joinWith slash ps" by (simp add: Clean_def IsAbs_def)
  then show ?thesis unfolding rooted(2) .
next
  case dot
  have "Clean ''.'' = ''.''" by code_simp
  then show ?thesis unfolding dot .
next
  case (relative ps)
  have h: "hd ps \<noteq> []" "slash \<notin> set (hd ps)"
    using cleanForm_elements [OF relative(1), of "hd ps"] relative(2) by auto
  have "joinWith slash ps \<noteq> []" "\<not> IsAbs (joinWith slash ps)"
    using join_hd [OF relative(2) h(1), of slash] h(2) hd_in_set [OF h(1)] unfolding IsAbs_def by metis+
  then have "Clean (joinWith slash ps) = joinWith slash ps"
    using relative(2) split_clean [OF relative(1,2)] cleanElements_fixed [OF relative(1)] by (simp add: Clean_def)
  then show ?thesis unfolding relative(3) .
qed

lemma Clean_nonempty [simp]: "Clean s \<noteq> []"
proof (cases rule: Clean_shape [of s])
  case (relative ps)
  then show ?thesis using join_hd [of ps slash] cleanForm_elements(1) [OF relative(1), of "hd ps"] by simp
qed simp_all

section \<open>Relative paths\<close>

text \<open>The path stays below its root: it is the root itself, or every element of it is a name.\<close>

definition insideRoot :: "string \<Rightarrow> bool" where
  "insideRoot p \<longleftrightarrow> p = ''.'' \<or> list_all nameElement (splitOn slash p)"

lemma clean_inside:
  assumes "Clean p = p" "\<not> IsAbs p" "p \<noteq> ''..''" "\<not> HasPrefix p ''../''"
  shows "insideRoot p"
proof (cases rule: Clean_shape [of p])
  case (rooted ps)
  then show ?thesis using assms by (simp add: IsAbs_def)
next
  case dot
  then show ?thesis using assms by (simp add: insideRoot_def)
next
  case (relative ps)
  then obtain n names where ps: "ps = replicate n ''..'' @ names" "list_all nameElement names"
    by (auto simp: cleanForm_def)
  have "n = 0"
  proof (cases n)
    case (Suc k)
    then obtain qs where q: "ps = ''..'' # qs" using ps(1) by simp
    then show ?thesis using relative(3) assms by (cases qs) (simp_all add: HasPrefix_def)
  qed simp
  then show ?thesis
    using ps split_clean [OF relative(1,2)] relative(3) assms(1) by (simp add: insideRoot_def)
qed

end
