(* ===== verification/Sched_Store.thy ===== *)
theory Sched_Store
  imports CPU_Window Go_Dates Go_Paths
begin

text \<open>
  The part of the database the scheduling code of the package \<open>state\<close> works on
  (\<^verbatim>\<open>dispatch.go\<close>, \<^verbatim>\<open>queue.go\<close>, \<^verbatim>\<open>fair_inventory.go\<close>): the tables \<open>roots\<close>, \<open>jobs\<close>,
  \<open>settings\<close>, \<open>scan_dispatch\<close> and \<open>adaptive_inventory_revisits\<close> with the columns it reads and
  writes, the existence probes of the maintenance tables, the store handle, and what the context,
  the driver and the random source answer during one call.
\<close>

section \<open>Tables\<close>

text \<open>A root with the verdicts \<open>typeof(path)='blob'\<close> and \<open>typeof(enabled)='integer'\<close>.\<close>

record root_entry =
  re_id :: int
  re_path :: string
  re_enabled :: int
  re_volume :: string
  re_pathBlob :: bool
  re_enabledInt :: bool

datatype job_status = Pending | Running

text \<open>A row of \<open>jobs\<close> with the verdict \<open>typeof(due_at_ns)='integer'\<close>; a NULL cursor is the empty
  one, as the driver scans it into a byte slice.\<close>

record job_entry =
  je_id :: int
  je_root :: int
  je_kind :: string
  je_path :: string
  je_status :: job_status
  je_due :: int
  je_dueInt :: bool
  je_cursor :: string
  je_attempts :: int
  je_error :: string
  je_token :: string
  je_until :: int
  je_claimed :: int

record setting =
  sg_blob :: bool
  sg_value :: string

record revisit_row =
  av_rootJob :: int
  av_started :: int
  av_claimed :: int
  av_unknown :: int
  av_streak :: int

record cache_row =
  cr_root :: int
  cr_done :: bool
  cr_revision :: int

record revision_row =
  rv_revision :: int
  rv_scan :: int

record sched_db =
  sd_roots :: "root_entry list"
  sd_jobs :: "job_entry list"
  sd_settings :: "string \<rightharpoonup> setting"
  sd_dispatch :: "dispatch_row option"
  sd_revisits :: "int \<rightharpoonup> revisit_row"
  sd_reconcile :: "int list"
  sd_retirement :: "int list"
  sd_compact :: "int list"
  sd_cache :: "cache_row list"
  sd_revisions :: "int \<rightharpoonup> revision_row"

text \<open>The \<open>Store\<close>: which handle it is, whether it is read-only, whether it holds the writer lock,
  and its schema version.\<close>

record sched_store =
  ss_id :: nat
  ss_readOnly :: bool
  ss_lock :: bool
  ss_schema :: int
  ss_db :: sched_db

section \<open>One call\<close>

text \<open>
  Whether the context is nil; its error at entry, before the commit and after it; the error of each
  numbered database request of the call (every operation names its numbers; \<open>sql.ErrNoRows\<close> is not
  among them, it is the answer for a row that is absent); whether a commit that
  reported an error took effect; the answer of \<open>crypto/rand\<close>, an error or sixteen bytes; and the
  row id SQLite picks when the largest one is taken.
\<close>

record sched_env =
  se_nil :: bool
  se_entry :: "err option"
  se_err :: "nat \<Rightarrow> err option"
  se_before :: "err option"
  se_after :: "err option"
  se_applied :: bool
  se_randErr :: "err option"
  se_random :: "nat \<Rightarrow> nat"
  se_rowid :: int

definition quietCall :: "sched_env \<Rightarrow> bool" where
  "quietCall env \<longleftrightarrow> \<not> se_nil env \<and> se_entry env = None \<and> (\<forall>k. se_err env k = None) \<and>
     se_before env = None \<and> se_after env = None \<and> se_randErr env = None"

text \<open>\<open>hex.EncodeToString\<close> of sixteen random bytes.\<close>

definition tokenDigit :: "nat \<Rightarrow> char" where
  "tokenDigit n = (if n < 10 then char_of (48 + n) else char_of (87 + n))"

definition drawnToken :: "sched_env \<Rightarrow> string" where
  "drawnToken env =
     concat (map (\<lambda>i. let b = se_random env i mod 256 in [tokenDigit (b div 16), tokenDigit (b mod 16)]) [0..<16])"

definition committed :: "sched_env \<Rightarrow> nat \<Rightarrow> sched_store \<Rightarrow> sched_db \<Rightarrow> sched_store" where
  "committed env k s db = (if se_err env k = None \<or> se_applied env then s\<lparr>ss_db := db\<rparr> else s)"

lemma committed_cases: "committed env k s db = s \<or> committed env k s db = s\<lparr>ss_db := db\<rparr>"
  by (simp add: committed_def)

lemma committed_quiet [simp]: "se_err env k = None \<Longrightarrow> committed env k s db = s\<lparr>ss_db := db\<rparr>"
  by (simp add: committed_def)

lemma length_drawnToken [simp]: "length (drawnToken env) = 32"
proof -
  have "length (concat (map (\<lambda>i. [tokenDigit (se_random env i mod 256 div 16), tokenDigit (se_random env i mod 256 mod 16)]) xs)) = 2 * length xs" for xs
    by (induction xs) simp_all
  then show ?thesis by (simp add: drawnToken_def Let_def)
qed

lemma tokenDigit_ok: "n < 16 \<Longrightarrow> digestByte (tokenDigit n)"
  by (auto simp: tokenDigit_def digestByte_def)

lemma drawnToken_digest [simp]: "metadataDigest (drawnToken env) 32"
proof -
  have "digestByte c" if "c \<in> set (drawnToken env)" for c
    using that by (auto simp: drawnToken_def Let_def intro!: tokenDigit_ok)
  then show ?thesis by (simp add: metadataDigest_def list_all_iff)
qed

lemma drawnToken_nonempty [simp]: "drawnToken env \<noteq> []"
  using length_drawnToken [of env] by (metis list.size(3) zero_neq_numeral)

end
