(* ===== verification/Scan_Dispatch.thy ===== *)
theory Scan_Dispatch
  imports Sched_Store
begin

text \<open>
  The chunk budget of \<^verbatim>\<open>src/internal/state/dispatch.go\<close>: one saved row with the day, the number of
  chunks reserved on it and the instants of the last and the next allowed start; the report of it,
  and the reservation that every scan chunk needs before it runs. Requests: 0 opening the
  transaction, 1 the row, 2 the upsert, 3 the commit; for the checkpoint 4 and 5.
\<close>

section \<open>The report\<close>

record DispatchBudget =
  dp_Day :: string
  dp_Used :: int
  dp_Limit :: int
  dp_NextAllowed :: gotime
  dp_Reason :: string

definition zeroDispatch :: DispatchBudget where
  "zeroDispatch = \<lparr>dp_Day = [], dp_Used = 0, dp_Limit = 0, dp_NextAllowed = zeroTime, dp_Reason = []\<rparr>"

abbreviation errChunkLimit :: err where "errChunkLimit \<equiv> StorageFailure ''invalid scan chunk limit''"
abbreviation errDispatchDay :: err where "errDispatchDay \<equiv> StorageFailure ''invalid dispatch budget day''"
abbreviation errDispatchInterval :: err where "errDispatchInterval \<equiv> StorageFailure ''invalid dispatch interval''"
abbreviation errReadOnly :: err where "errReadOnly \<equiv> StorageFailure ''state is read-only''"
abbreviation errWALThreshold :: err where "errWALThreshold \<equiv> StorageFailure ''invalid WAL threshold''"

definition freshDispatch :: "gotime \<Rightarrow> int \<Rightarrow> DispatchBudget" where
  "freshDispatch now limit = \<lparr>dp_Day = dateOnly now, dp_Used = 0, dp_Limit = limit,
     dp_NextAllowed = toUTC now, dp_Reason = []\<rparr>"

text \<open>The four adjustments of the report by the saved row, in the order of the source.\<close>

definition sameDayUse :: "dispatch_row \<Rightarrow> DispatchBudget \<Rightarrow> DispatchBudget" where
  "sameDayUse row b =
     (if dp_Day b \<le> d_day row then b\<lparr>dp_Day := d_day row, dp_Used := d_chunks row\<rparr> else b)"

definition cadenceWait :: "gotime \<Rightarrow> dispatch_row \<Rightarrow> DispatchBudget \<Rightarrow> DispatchBudget" where
  "cadenceWait now row b =
     (if unixNano now < d_next row
      then b\<lparr>dp_NextAllowed := toUTC (unixTime (d_next row)), dp_Reason := ''cadence''\<rparr> else b)"

definition dailyWait :: "gotime \<Rightarrow> int \<Rightarrow> DispatchBudget \<Rightarrow> DispatchBudget" where
  "dailyWait parsed limit b =
     (if dp_Used b \<ge> limit
      then let midnight = tAdd parsed day_ns in
        b\<lparr>dp_NextAllowed := (if tAfter midnight (dp_NextAllowed b) then midnight else dp_NextAllowed b),
          dp_Reason := ''daily_chunk_limit''\<rparr>
      else b)"

definition rollbackWait :: "gotime \<Rightarrow> dispatch_row \<Rightarrow> DispatchBudget \<Rightarrow> DispatchBudget" where
  "rollbackWait now row b = (if unixNano now < d_last row then b\<lparr>dp_Reason := ''clock_rollback''\<rparr> else b)"

definition dispatchBudget ::
  "sched_env \<Rightarrow> dispatch_row option \<Rightarrow> gotime \<Rightarrow> int \<Rightarrow> DispatchBudget \<times> err option" where
  "dispatchBudget env saved now limit =
     (if limit < 1 \<or> limit > 100000 then (zeroDispatch, Some errChunkLimit)
      else let b = freshDispatch now limit in
        case se_err env 1 of
          Some e \<Rightarrow> (b, Some e)
        | None \<Rightarrow> (case saved of
              None \<Rightarrow> (b, None)
            | Some row \<Rightarrow> (case parseDateOnly (d_day row) of
                  None \<Rightarrow> (b, Some errDispatchDay)
                | Some parsed \<Rightarrow>
                    (rollbackWait now row (dailyWait parsed limit (cadenceWait now row (sameDayUse row b))), None))))"

definition DispatchBudgetOf :: "sched_env \<Rightarrow> sched_store \<Rightarrow> gotime \<Rightarrow> int \<Rightarrow> DispatchBudget \<times> err option" where
  "DispatchBudgetOf env s now limit = dispatchBudget env (sd_dispatch (ss_db s)) now limit"

section \<open>The reservation\<close>

definition reservedRow :: "DispatchBudget \<Rightarrow> gotime \<Rightarrow> int \<Rightarrow> DispatchBudget \<times> dispatch_row" where
  "reservedRow b now interval =
     (let b' = b\<lparr>dp_Used := add64 (dp_Used b) 1, dp_NextAllowed := toUTC (tAdd now interval),
                dp_Reason := ''cadence''\<rparr>
      in (b', \<lparr>d_last = unixNano now, d_next = unixNano (dp_NextAllowed b'), d_chunks = dp_Used b',
               d_day = dp_Day b'\<rparr>))"

definition ReserveScanChunk ::
  "sched_env \<Rightarrow> sched_store \<Rightarrow> gotime \<Rightarrow> int \<Rightarrow> int \<Rightarrow> (DispatchBudget \<times> err option) \<times> sched_store" where
  "ReserveScanChunk env s now interval limit =
     (if ss_readOnly s then ((zeroDispatch, Some errReadOnly), s)
      else if interval \<le> 0 \<or> interval > 24 * hour_ns then ((zeroDispatch, Some errDispatchInterval), s)
      else case se_err env 0 of
        Some e \<Rightarrow> ((zeroDispatch, Some e), s)
      | None \<Rightarrow> (case dispatchBudget env (sd_dispatch (ss_db s)) now limit of
            (b, Some e) \<Rightarrow> ((b, Some e), s)
          | (b, None) \<Rightarrow>
              if dp_Reason b \<noteq> [] then ((b, Some ErrDispatchDeferred), s)
              else let (b', row) = reservedRow b now interval in
                case se_err env 2 of
                  Some e \<Rightarrow> ((b', Some e), s)
                | None \<Rightarrow> ((b', se_err env 3), committed env 3 s ((ss_db s)\<lparr>sd_dispatch := Some row\<rparr>))))"

text \<open>\<open>WALBlocked\<close>: the size of the log file as \<open>os.Stat\<close> answers it (an error, no file, or a size)
  and the answer of the passive checkpoint: whether it was busy, the pages of the log and those
  checkpointed.\<close>

definition WALBlocked ::
  "sched_store \<Rightarrow> err + int option \<Rightarrow> err + int \<times> int \<times> int \<Rightarrow> int \<Rightarrow> bool \<times> err option" where
  "WALBlocked s wal checkpoint threshold =
     (if ss_readOnly s then (False, Some errReadOnly)
      else if threshold < 0 then (False, Some errWALThreshold)
      else case wal of
        Inl e \<Rightarrow> (False, Some e)
      | Inr None \<Rightarrow> (False, None)
      | Inr (Some bytes) \<Rightarrow>
          if bytes \<le> threshold then (False, None)
          else (case checkpoint of
              Inl e \<Rightarrow> (False, Some e)
            | Inr (busy, logPages, checkpointed) \<Rightarrow> (busy \<noteq> 0 \<or> logPages > checkpointed, None)))"

section \<open>What the report says\<close>

text \<open>The instants for which no \<open>int64\<close> of nanoseconds wraps, a day's interval included.\<close>

definition schedTime :: "gotime \<Rightarrow> bool" where
  "schedTime t \<longleftrightarrow> minInt64 \<le> t_ns t \<and> t_ns t \<le> maxInt64 - day_ns"

lemma schedTime_i64 [simp]: "schedTime t \<Longrightarrow> i64 (t_ns t)"
  by (simp add: schedTime_def i64_def)

lemma schedTime_nano [simp]: "schedTime t \<Longrightarrow> unixNano t = t_ns t"
  by (simp add: unixNano_def)

lemma schedTime_day [simp]: "schedTime t \<Longrightarrow> smallDay (utcDayOf t)"
  by (simp add: smallDay_i64)

lemma schedTime_add:
  "schedTime t \<Longrightarrow> 0 \<le> d \<Longrightarrow> d \<le> day_ns \<Longrightarrow> unixNano (toUTC (tAdd t d)) = t_ns t + d"
  by (simp add: unixNano_def schedTime_def i64_def)

lemma utcDayOf_mono: "t_ns t \<le> t_ns u \<Longrightarrow> utcDayOf t \<le> utcDayOf u"
  by (simp add: utcDayOf_def zdiv_mono1)

lemma dateText_le:
  assumes "smallDay m" "smallDay n"
  shows "dateText (civilOf m) \<le> dateText (civilOf n) \<longleftrightarrow> m \<le> n"
  using dateOnly_less [of "dayStart n" "dayStart m"] assms by (simp add: dateOnly_dayStart not_less [symmetric])

text \<open>The saved day of a row that parses, as a day number.\<close>

definition rowDay :: "dispatch_row \<Rightarrow> int \<Rightarrow> bool" where
  "rowDay row n \<longleftrightarrow> smallDay n \<and> d_day row = dateText (civilOf n)"

lemma rowDay_parse: "rowDay row n \<Longrightarrow> parseDateOnly (d_day row) = Some (dayStart n)"
  using parse_dateOnly [of "dayStart n"] by (simp add: rowDay_def dateOnly_dayStart)

lemma parse_rowDay: "parseDateOnly (d_day row) = Some p \<Longrightarrow> \<exists>n. rowDay row n \<and> p = dayStart n"
  using parse_some [of "d_day row" p] by (metis rowDay_def)

lemma rowDay_le: "rowDay row n \<Longrightarrow> smallDay (utcDayOf t) \<Longrightarrow> dateOnly t \<le> d_day row \<longleftrightarrow> utcDayOf t \<le> n"
  using dateText_le [of "utcDayOf t" n] by (simp add: rowDay_def dateOnly_def)

lemmas dispatch_defs = sameDayUse_def cadenceWait_def dailyWait_def rollbackWait_def freshDispatch_def Let_def

lemma wait_reasons [simp]:
  "dp_Reason (sameDayUse row b) = dp_Reason b"
  "dp_Reason (rollbackWait now row b) = [] \<longleftrightarrow> dp_Reason b = [] \<and> \<not> unixNano now < d_last row"
  "dp_Reason (cadenceWait now row b) = [] \<longleftrightarrow> dp_Reason b = [] \<and> \<not> unixNano now < d_next row"
  "dp_Reason (dailyWait p limit b) = [] \<longleftrightarrow> dp_Reason b = [] \<and> dp_Used b < limit"
  by (auto simp: dispatch_defs)

text \<open>When the report has no reason to wait: the use of the saved day, or none, below the limit, and
  neither cadence nor clock in the way.\<close>

lemma dispatchBudget_free:
  assumes "dispatchBudget env saved now limit = (b, None)" "dp_Reason b = []"
  shows "1 \<le> limit \<and> limit \<le> 100000 \<and>
     (case saved of None \<Rightarrow> b = freshDispatch now limit
      | Some row \<Rightarrow> b = sameDayUse row (freshDispatch now limit) \<and> dp_Used b < limit \<and>
          d_next row \<le> unixNano now \<and> d_last row \<le> unixNano now \<and> (\<exists>n. rowDay row n))"
proof (cases saved)
  case None
  then show ?thesis using assms by (auto simp: dispatchBudget_def Let_def split: if_splits option.splits)
next
  case (Some row)
  then obtain p where p: "parseDateOnly (d_day row) = Some p" and lim: "1 \<le> limit" "limit \<le> 100000"
    and b: "b = rollbackWait now row (dailyWait p limit (cadenceWait now row (sameDayUse row (freshDispatch now limit))))"
    using assms by (auto simp: dispatchBudget_def Let_def split: if_splits option.splits)
  have free: "\<not> unixNano now < d_last row" "\<not> unixNano now < d_next row"
      "dp_Used (cadenceWait now row (sameDayUse row (freshDispatch now limit))) < limit"
    using assms(2) unfolding b by simp_all
  then have "b = sameDayUse row (freshDispatch now limit)"
    unfolding b by (simp add: rollbackWait_def dailyWait_def cadenceWait_def)
  then show ?thesis using free lim parse_rowDay [OF p] Some by (auto simp: cadenceWait_def)
qed

end
