(* ===== verification/Job_Queue.thy ===== *)
theory Job_Queue
  imports Scan_Dispatch
begin

text \<open>
  The durable job queue of \<^verbatim>\<open>src/internal/state/queue.go\<close>: adding a job, claiming the earliest due
  one under a random lease token, finishing it, recovering the jobs of a lost owner, and the pause
  switch; with the two claim records of \<^verbatim>\<open>background_inventory.go\<close> and
  \<^verbatim>\<open>adaptive_revisits_tracking.go\<close> that commit together with a lease.
\<close>

section \<open>Rows\<close>

abbreviation ErrStaleLease :: err where "ErrStaleLease \<equiv> Sentinel 50"
abbreviation ErrBackgroundInventoryCorrupt :: err where "ErrBackgroundInventoryCorrupt \<equiv> Sentinel 51"
abbreviation errJobInput :: err where "errJobInput \<equiv> StorageFailure ''invalid job root, kind or relative path''"
abbreviation errForeignKey :: err where "errForeignKey \<equiv> StorageFailure ''FOREIGN KEY constraint failed''"
abbreviation errTooManyKinds :: err where "errTooManyKinds \<equiv> StorageFailure ''too many job handlers''"
abbreviation errInvalidKind :: err where "errInvalidKind \<equiv> StorageFailure ''invalid kind''"
abbreviation errLeaseDuration :: err where "errLeaseDuration \<equiv> StorageFailure ''invalid lease duration''"
abbreviation errCursorSize :: err where "errCursorSize \<equiv> StorageFailure ''job cursor exceeds 64 KiB''"
abbreviation errRecoveryLock :: err where
  "errRecoveryLock \<equiv> StorageFailure ''recovery requires the exclusive writer lock''"
abbreviation errPauseSetting :: err where
  "errPauseSetting \<equiv> StorageFailure ''invalid saved pause setting; refusing to run''"
abbreviation errPauseMissing :: err where "errPauseMissing \<equiv> StorageFailure ''missing pause setting''"

abbreviation MaxCursorBytes :: nat where "MaxCursorBytes \<equiv> 65536"

definition kindByte :: "char \<Rightarrow> bool" where
  "kindByte c = (let n = (of_char c :: nat) in
     (97 \<le> n \<and> n \<le> 122) \<or> (48 \<le> n \<and> n \<le> 57) \<or> c = CHR ''_'' \<or> c = CHR ''-'')"

definition validKind :: "string \<Rightarrow> bool" where
  "validKind kind \<longleftrightarrow> kind \<noteq> [] \<and> length kind \<le> 32 \<and> list_all kindByte kind"

abbreviation nulByte :: char where "nulByte \<equiv> CHR 0x00"

definition validRelative :: "string \<Rightarrow> bool" where
  "validRelative s \<longleftrightarrow> 0 < length s \<and> length s \<le> 4096 \<and> nulByte \<notin> set s \<and> \<not> IsAbs s \<and> Clean s = s \<and>
     s \<noteq> ''..'' \<and> \<not> HasPrefix s ''../''"

definition rootRow :: "sched_db \<Rightarrow> int \<Rightarrow> root_entry option" where
  "rootRow db rid = find (\<lambda>r. re_id r = rid) (sd_roots db)"

definition rootEnabled :: "sched_db \<Rightarrow> int \<Rightarrow> bool" where
  "rootEnabled db rid \<longleftrightarrow> (case rootRow db rid of None \<Rightarrow> False | Some r \<Rightarrow> re_enabled r = 1)"

definition updateJobs :: "(job_entry \<Rightarrow> bool) \<Rightarrow> (job_entry \<Rightarrow> job_entry) \<Rightarrow> sched_db \<Rightarrow> sched_db" where
  "updateJobs P f db = db\<lparr>sd_jobs := map (\<lambda>r. if P r then f r else r) (sd_jobs db)\<rparr>"

definition jobCount :: "(job_entry \<Rightarrow> bool) \<Rightarrow> sched_db \<Rightarrow> nat" where
  "jobCount P db = length (filter P (sd_jobs db))"

text \<open>\<open>ORDER BY due_at_ns, id LIMIT 1\<close>.\<close>

definition jobBefore :: "job_entry \<Rightarrow> job_entry \<Rightarrow> bool" where
  "jobBefore a b \<longleftrightarrow> je_due a < je_due b \<or> je_due a = je_due b \<and> je_id a < je_id b"

fun earliest :: "job_entry list \<Rightarrow> job_entry option" where
  "earliest [] = None"
| "earliest (r # rs) =
     (case earliest rs of None \<Rightarrow> Some r | Some q \<Rightarrow> if jobBefore q r then Some q else Some r)"

text \<open>The columns a claim returns, with the path and identity of the root.\<close>

definition jobOf :: "sched_db \<Rightarrow> job_entry \<Rightarrow> job" where
  "jobOf db r =
     \<lparr>j_ID = je_id r, j_RootID = je_root r, j_Kind = je_kind r, j_Path = je_path r, j_Cursor = je_cursor r,
      j_Attempts = je_attempts r, j_Token = je_token r, j_LeaseUntil = unixTime (je_until r),
      j_RootPath = (case rootRow db (je_root r) of None \<Rightarrow> [] | Some q \<Rightarrow> re_path q),
      j_RootIdentity = (case rootRow db (je_root r) of None \<Rightarrow> [] | Some q \<Rightarrow> re_volume q)\<rparr>"

definition leaseJob :: "string \<Rightarrow> int \<Rightarrow> job_entry \<Rightarrow> job_entry" where
  "leaseJob token until r =
     r\<lparr>je_status := Running, je_token := token, je_until := until, je_attempts := je_attempts r + 1\<rparr>"

section \<open>Adding\<close>

text \<open>An \<open>INTEGER PRIMARY KEY\<close> without a value: one more than the largest, or an unused one the
  database picks when that is the largest integer.\<close>

definition newRowid :: "sched_env \<Rightarrow> job_entry list \<Rightarrow> int" where
  "newRowid env rows =
     (if rows = [] then 1
      else let m = foldr max (map je_id rows) (je_id (hd rows)) in
        if m < maxInt64 then m + 1 else se_rowid env)"

definition sameKey :: "int \<Rightarrow> string \<Rightarrow> string \<Rightarrow> job_entry \<Rightarrow> bool" where
  "sameKey root kind path r \<longleftrightarrow> je_root r = root \<and> je_kind r = kind \<and> je_path r = path"

definition freshJob :: "int \<Rightarrow> int \<Rightarrow> string \<Rightarrow> string \<Rightarrow> int \<Rightarrow> job_entry" where
  "freshJob i root kind path due =
     \<lparr>je_id = i, je_root = root, je_kind = kind, je_path = path, je_status = Pending, je_due = due,
      je_dueInt = True, je_cursor = [], je_attempts = 0, je_error = [], je_token = [], je_until = 0,
      je_claimed = 0\<rparr>"

definition enqueuePath :: "string \<Rightarrow> string" where
  "enqueuePath path = Clean (if path = [] then ''.'' else path)"

definition EnqueueJob ::
  "sched_env \<Rightarrow> sched_store \<Rightarrow> int \<Rightarrow> string \<Rightarrow> string \<Rightarrow> gotime \<Rightarrow> err option \<times> sched_store" where
  "EnqueueJob env s rootID kind path due =
     (if ss_readOnly s then (Some errReadOnly, s)
      else let p = enqueuePath path; db = ss_db s in
        if rootID \<le> 0 \<or> \<not> validKind kind \<or> length p > 4096 \<or> nulByte \<in> set p \<or> IsAbs p \<or> p = ''..'' \<or>
           HasPrefix p ''../''
        then (Some errJobInput, s)
        else if list_ex (sameKey rootID kind p) (sd_jobs db) then (se_err env 0, s)
        else if rootRow db rootID = None
        then (Some (case se_err env 0 of None \<Rightarrow> errForeignKey | Some e \<Rightarrow> e), s)
        else (se_err env 0, committed env 0 s
               (db\<lparr>sd_jobs := sd_jobs db @ [freshJob (newRowid env (sd_jobs db)) rootID kind p (unixNano due)]\<rparr>)))"

section \<open>Claiming\<close>

definition kindsClause :: "string list \<Rightarrow> err option" where
  "kindsClause kinds =
     (if length kinds > 64 then Some errTooManyKinds
      else if list_all validKind kinds then None else Some errInvalidKind)"

definition claimable :: "sched_db \<Rightarrow> string list \<Rightarrow> job_entry \<Rightarrow> bool" where
  "claimable db kinds r \<longleftrightarrow> je_status r = Pending \<and> rootEnabled db (je_root r) \<and> je_kind r \<in> set kinds"

definition NextJobDue :: "sched_env \<Rightarrow> sched_store \<Rightarrow> string list \<Rightarrow> gotime \<times> err option" where
  "NextJobDue env s kinds =
     (if kinds = [] then (zeroTime, None)
      else case kindsClause kinds of
        Some e \<Rightarrow> (zeroTime, Some e)
      | None \<Rightarrow> (case se_err env 0 of
            Some e \<Rightarrow> (zeroTime, Some e)
          | None \<Rightarrow> (case map je_due (filter (claimable (ss_db s) kinds) (sd_jobs (ss_db s))) of
                [] \<Rightarrow> (zeroTime, None)
              | d # ds \<Rightarrow> (unixTime (foldr min ds d), None))))"

text \<open>\<open>inventoryClaim\<close> (requests \<open>k\<close> and \<open>k + 1\<close>) and \<open>adaptiveClaim\<close> (request \<open>k\<close>): the claim flag of
  the job row, and the sticky provenance of the root's revisit record.\<close>

definition inventoryClaim :: "sched_env \<Rightarrow> nat \<Rightarrow> sched_db \<Rightarrow> job \<Rightarrow> err + sched_db" where
  "inventoryClaim env k db j =
     (if j_Kind j \<noteq> ScanKind then Inr db
      else let P = (\<lambda>r. je_id r = j_ID j \<and> je_root r = j_RootID j \<and> je_kind r = j_Kind j \<and>
                        (je_claimed r = 0 \<or> je_claimed r = 1)) in
        case se_err env k of
          Some e \<Rightarrow> Inl e
        | None \<Rightarrow> (case se_err env (k + 1) of
              Some e \<Rightarrow> Inl e
            | None \<Rightarrow>
                if jobCount P db \<noteq> 1 then Inl ErrBackgroundInventoryCorrupt
                else Inr (updateJobs P (\<lambda>r. r\<lparr>je_claimed := 1\<rparr>) db)))"

definition claimedRevisit :: "int \<Rightarrow> revisit_row \<Rightarrow> revisit_row" where
  "claimedRevisit jobID v =
     v\<lparr>av_claimed := 1,
       av_unknown := (if av_rootJob v \<noteq> jobID \<and> av_started v = 0 then 1 else av_unknown v),
       av_streak := (if av_rootJob v \<noteq> jobID \<and> av_started v = 0 then 0 else av_streak v)\<rparr>"

definition adaptiveClaim :: "sched_env \<Rightarrow> nat \<Rightarrow> sched_db \<Rightarrow> job \<Rightarrow> err + sched_db" where
  "adaptiveClaim env k db j =
     (if j_Kind j \<noteq> ScanKind then Inr db
      else case se_err env k of
        Some e \<Rightarrow> Inl e
      | None \<Rightarrow> Inr (db\<lparr>sd_revisits := (sd_revisits db)
          (j_RootID j := map_option (claimedRevisit (j_ID j)) (sd_revisits db (j_RootID j)))\<rparr>))"

definition uncertainRevisit :: "revisit_row \<Rightarrow> revisit_row" where
  "uncertainRevisit v = v\<lparr>av_unknown := 1, av_streak := 0\<rparr>"

definition adaptiveUncertain :: "sched_env \<Rightarrow> nat \<Rightarrow> sched_db \<Rightarrow> int \<Rightarrow> err + sched_db" where
  "adaptiveUncertain env k db rootID =
     (case se_err env k of
        Some e \<Rightarrow> Inl e
      | None \<Rightarrow> Inr (db\<lparr>sd_revisits := (sd_revisits db)
          (rootID := map_option uncertainRevisit (sd_revisits db rootID))\<rparr>))"

text \<open>The two claim records, by the schema of the store.\<close>

definition claimRecords :: "sched_env \<Rightarrow> nat \<Rightarrow> int \<Rightarrow> sched_db \<Rightarrow> job \<Rightarrow> err + sched_db" where
  "claimRecords env k schema db j =
     (case (if schema \<ge> 14 then inventoryClaim env k db j else Inr db) of
        Inl e \<Rightarrow> Inl e
      | Inr db1 \<Rightarrow> if schema \<ge> 13 then adaptiveClaim env (k + 2) db1 j else Inr db1)"

text \<open>The end of a claiming transaction: the context before the commit, the commit (request \<open>k\<close>),
  and the context after it.\<close>

definition closeClaim :: "sched_env \<Rightarrow> nat \<Rightarrow> sched_store \<Rightarrow> sched_db \<Rightarrow> 'r \<Rightarrow> ('r option \<times> err option) \<times> sched_store" where
  "closeClaim env k s db r =
     (case se_before env of
        Some e \<Rightarrow> ((None, Some e), s)
      | None \<Rightarrow> (case se_err env k of
            Some e \<Rightarrow> ((None, Some e), committed env k s db)
          | None \<Rightarrow> (case se_after env of
                Some e \<Rightarrow> ((None, Some e), committed env k s db)
              | None \<Rightarrow> ((Some r, None), committed env k s db))))"

text \<open>Requests: 0 opening the transaction, 1 the update, 2 to 4 the claim records, 5 the commit.\<close>

definition ClaimJob ::
  "sched_env \<Rightarrow> sched_store \<Rightarrow> string list \<Rightarrow> gotime \<Rightarrow> int \<Rightarrow> (job option \<times> err option) \<times> sched_store" where
  "ClaimJob env s kinds now lease =
     (if ss_readOnly s then ((None, Some errReadOnly), s)
      else if kinds = [] then ((None, None), s)
      else if lease \<le> 0 \<or> lease > 48 * hour_ns then ((None, Some errLeaseDuration), s)
      else case kindsClause kinds of
        Some e \<Rightarrow> ((None, Some e), s)
      | None \<Rightarrow> (case se_randErr env of
          Some e \<Rightarrow> ((None, Some e), s)
        | None \<Rightarrow> (case se_err env 0 of
            Some e \<Rightarrow> ((None, Some e), s)
          | None \<Rightarrow> (case se_err env 1 of
              Some e \<Rightarrow> ((None, Some e), s)
            | None \<Rightarrow>
                let db = ss_db s in
                (case earliest (filter (\<lambda>r. claimable db kinds r \<and> je_due r \<le> unixNano now) (sd_jobs db)) of
                   None \<Rightarrow> ((None, None), s)
                 | Some r \<Rightarrow>
                     let f = leaseJob (drawnToken env) (unixNano (tAdd now lease));
                         db1 = updateJobs (\<lambda>q. je_id q = je_id r) f db;
                         j = jobOf db1 (f r) in
                     (case claimRecords env 2 (ss_schema s) db1 j of
                        Inl e \<Rightarrow> ((None, Some e), s)
                      | Inr db2 \<Rightarrow> closeClaim env 5 s db2 j))))))"

section \<open>Finishing and recovering\<close>

definition heldBy :: "int \<Rightarrow> string \<Rightarrow> job_entry \<Rightarrow> bool" where
  "heldBy i token r \<longleftrightarrow> je_id r = i \<and> je_status r = Running \<and> je_token r = token"

definition releaseJob :: "string \<Rightarrow> int \<Rightarrow> string \<Rightarrow> job_entry \<Rightarrow> job_entry" where
  "releaseJob cursor due lastError r =
     r\<lparr>je_status := Pending, je_cursor := cursor, je_due := due, je_dueInt := True, je_error := lastError,
       je_token := [], je_until := 0,
       je_attempts := (if lastError = [] then 0 else je_attempts r)\<rparr>"

text \<open>Requests \<open>k\<close> the statement and \<open>k + 1\<close> its row count.\<close>

definition finishJob ::
  "sched_env \<Rightarrow> nat \<Rightarrow> sched_db \<Rightarrow> job \<Rightarrow> bool \<Rightarrow> string \<Rightarrow> gotime \<Rightarrow> string \<Rightarrow> err + sched_db" where
  "finishJob env k db j finished cursor due lastError0 =
     (if j_Token j = [] then Inl ErrStaleLease
      else if length cursor > MaxCursorBytes then Inl errCursorSize
      else let lastError = take 2048 lastError0; P = heldBy (j_ID j) (j_Token j) in
        case se_err env k of
          Some e \<Rightarrow> Inl e
        | None \<Rightarrow> (case se_err env (k + 1) of
              Some e \<Rightarrow> Inl e
            | None \<Rightarrow>
                if jobCount P db \<noteq> 1 then Inl ErrStaleLease
                else Inr (if finished then db\<lparr>sd_jobs := filter (\<lambda>r. \<not> P r) (sd_jobs db)\<rparr>
                          else updateJobs P (releaseJob cursor (unixNano due) lastError) db)))"

text \<open>Requests: 0 opening the transaction, 1 and 2 the statement, 3 the revisit record, 4 the commit.\<close>

definition FinishJob ::
  "sched_env \<Rightarrow> sched_store \<Rightarrow> job \<Rightarrow> bool \<Rightarrow> string \<Rightarrow> gotime \<Rightarrow> string \<Rightarrow> err option \<times> sched_store" where
  "FinishJob env s j finished cursor due lastError =
     (if ss_readOnly s then (Some errReadOnly, s)
      else case se_err env 0 of
        Some e \<Rightarrow> (Some e, s)
      | None \<Rightarrow> (case finishJob env 1 (ss_db s) j finished cursor due lastError of
            Inl e \<Rightarrow> (Some e, s)
          | Inr db1 \<Rightarrow>
              (case (if ss_schema s \<ge> 13 \<and> j_Kind j = ScanKind
                     then adaptiveUncertain env 3 db1 (j_RootID j) else Inr db1) of
                 Inl e \<Rightarrow> (Some e, s)
               | Inr db2 \<Rightarrow> (se_err env 4, committed env 4 s db2))))"

definition recoverJob :: "int \<Rightarrow> job_entry \<Rightarrow> job_entry" where
  "recoverJob now r =
     r\<lparr>je_status := Pending, je_due := (if je_kind r = ScanKind then je_due r else now),
       je_dueInt := (je_kind r = ScanKind \<longrightarrow> je_dueInt r), je_token := [], je_until := 0\<rparr>"

definition recoverRevisits :: "sched_db \<Rightarrow> sched_db" where
  "recoverRevisits db =
     db\<lparr>sd_revisits := (\<lambda>root.
          if list_ex (\<lambda>r. je_root r = root \<and> je_status r = Running \<and> je_kind r = ScanKind) (sd_jobs db)
          then map_option uncertainRevisit (sd_revisits db root) else sd_revisits db root)\<rparr>"

text \<open>Requests: 0 opening the transaction, 1 the revisit records, 2 and 3 the jobs, 4 the commit.\<close>

definition RecoverJobs :: "sched_env \<Rightarrow> sched_store \<Rightarrow> gotime \<Rightarrow> (nat \<times> err option) \<times> sched_store" where
  "RecoverJobs env s now =
     (if ss_readOnly s \<or> \<not> ss_lock s then ((0, Some errRecoveryLock), s)
      else case se_err env 0 of
        Some e \<Rightarrow> ((0, Some e), s)
      | None \<Rightarrow> (case (if ss_schema s \<ge> 13 then se_err env 1 else None) of
            Some e \<Rightarrow> ((0, Some e), s)
          | None \<Rightarrow>
              let db1 = (if ss_schema s \<ge> 13 then recoverRevisits (ss_db s) else ss_db s);
                  running = (\<lambda>r. je_status r = Running);
                  db2 = updateJobs running (recoverJob (unixNano now)) db1
              in (case se_err env 2 of
                    Some e \<Rightarrow> ((0, Some e), s)
                  | None \<Rightarrow> (case se_err env 3 of
                        Some e \<Rightarrow> ((0, Some e), s)
                      | None \<Rightarrow> (case se_err env 4 of
                            Some e \<Rightarrow> ((0, Some e), committed env 4 s db2)
                          | None \<Rightarrow> ((jobCount running db1, None), committed env 4 s db2))))))"

section \<open>The pause switch\<close>

abbreviation pausedKey :: string where "pausedKey \<equiv> ''worker.paused''"

definition Paused :: "sched_env \<Rightarrow> sched_store \<Rightarrow> bool \<times> err option" where
  "Paused env s =
     (case se_err env 0 of
        Some e \<Rightarrow> (False, Some e)
      | None \<Rightarrow> (case sd_settings (ss_db s) pausedKey of
            None \<Rightarrow> (False, Some ErrNoRows)
          | Some v \<Rightarrow>
              if sg_value v = ''0'' then (False, None)
              else if sg_value v = ''1'' then (True, None)
              else (False, Some errPauseSetting)))"

definition SetPaused :: "sched_env \<Rightarrow> sched_store \<Rightarrow> bool \<Rightarrow> err option \<times> sched_store" where
  "SetPaused env s paused =
     (if ss_readOnly s then (Some errReadOnly, s)
      else let db = ss_db s;
               db' = (if sd_settings db pausedKey = None then db
                      else db\<lparr>sd_settings := (sd_settings db)
                             (pausedKey \<mapsto> \<lparr>sg_blob = True, sg_value = (if paused then ''1'' else ''0'')\<rparr>)\<rparr>) in
        case se_err env 0 of
          Some e \<Rightarrow> (Some e, committed env 0 s db')
        | None \<Rightarrow> (case se_err env 1 of
              Some e \<Rightarrow> (Some e, committed env 0 s db')
            | None \<Rightarrow> if sd_settings db pausedKey = None then (Some errPauseMissing, s) else (None, committed env 0 s db')))"

end
