(* ===== verification/Fair_Turns.thy ===== *)
theory Fair_Turns
  imports Job_Queue
begin

text \<open>
  The fair rotation over configured roots, \<^verbatim>\<open>src/internal/state/fair_inventory.go\<close>: validating and
  resolving the roots, the saved cursor (the root served last and the dispatch receipt it used),
  the bounded selection of the next turn, and the claim that consumes one dispatch receipt for one
  turn. The maintenance probe of \<^verbatim>\<open>inventory_retirement.go\<close> it asks is here too.
\<close>

section \<open>Roots\<close>

abbreviation ErrFairInventoryInput :: err where "ErrFairInventoryInput \<equiv> Sentinel 52"
abbreviation ErrFairInventoryCorrupt :: err where "ErrFairInventoryCorrupt \<equiv> Sentinel 53"
abbreviation ErrFairInventoryReceipt :: err where "ErrFairInventoryReceipt \<equiv> Sentinel 54"
abbreviation ErrInventoryRetirementCorrupt :: err where "ErrInventoryRetirementCorrupt \<equiv> Sentinel 55"

abbreviation MaxFairInventoryRoots :: nat where "MaxFairInventoryRoots \<equiv> 32"
abbreviation FairInventoryClaimWindow :: int where "FairInventoryClaimWindow \<equiv> 2 * second_ns"
abbreviation fairInventoryCursorKey :: string where "fairInventoryCursorKey \<equiv> ''worker.inventory.root_turn_v1''"

record fairInventoryRoot =
  fi_id :: int
  fi_path :: string

record FairInventoryRoots =
  fr_store :: nat
  fr_roots :: "fairInventoryRoot list"

record FairInventorySchedule =
  sc_Turn :: "FairInventoryTurn option"
  sc_NextSourceDue :: gotime
  sc_SourceBlocked :: bool
  sc_DormantRoots :: "string list"

record fairInventoryCursor =
  fc_root :: int
  fc_dispatch :: int

definition zeroSchedule :: FairInventorySchedule where
  "zeroSchedule = \<lparr>sc_Turn = None, sc_NextSourceDue = zeroTime, sc_SourceBlocked = False, sc_DormantRoots = []\<rparr>"

fun pathsOk :: "string list \<Rightarrow> string list \<Rightarrow> bool" where
  "pathsOk seen [] = True"
| "pathsOk seen (p # ps) \<longleftrightarrow>
     \<not> (length p > 4096 \<or> \<not> IsAbs p \<or> Clean p \<noteq> p \<or> nulByte \<in> set p \<or> p \<in> set seen) \<and> pathsOk (p # seen) ps"

definition ValidateFairInventoryPaths :: "string list \<Rightarrow> err option" where
  "ValidateFairInventoryPaths paths =
     (if length paths < 1 \<or> length paths > MaxFairInventoryRoots then Some ErrFairInventoryInput
      else if pathsOk [] paths then None else Some ErrFairInventoryInput)"

text \<open>One path of the selection, request \<open>k\<close>: a blob never equals a value of another type.\<close>

definition resolveRoot :: "sched_env \<Rightarrow> nat \<Rightarrow> sched_db \<Rightarrow> string \<Rightarrow> err + fairInventoryRoot" where
  "resolveRoot env k db path =
     (case se_err env k of
        Some e \<Rightarrow> Inl e
      | None \<Rightarrow> (case find (\<lambda>r. re_path r = path \<and> re_pathBlob r) (sd_roots db) of
            None \<Rightarrow> Inl ErrFairInventoryInput
          | Some r \<Rightarrow>
              if re_id r \<le> 0 \<or> \<not> re_enabledInt r \<or> re_enabled r \<noteq> 1
              then Inl ErrFairInventoryCorrupt
              else Inr \<lparr>fi_id = re_id r, fi_path = re_path r\<rparr>))"

fun resolveAll :: "sched_env \<Rightarrow> nat \<Rightarrow> sched_db \<Rightarrow> string list \<Rightarrow> err + fairInventoryRoot list" where
  "resolveAll env k db [] = Inr []"
| "resolveAll env k db (p # ps) =
     (case resolveRoot env k db p of
        Inl e \<Rightarrow> Inl e
      | Inr r \<Rightarrow> (case resolveAll env (Suc k) db ps of Inl e \<Rightarrow> Inl e | Inr rs \<Rightarrow> Inr (r # rs)))"

text \<open>Requests: 0 opening the transaction, 1 the commit, \<open>10 + i\<close> path \<open>i\<close>. The ids are primary keys of
  different rows, so sorting by them has one result.\<close>

definition ResolveFairInventoryRoots ::
  "sched_env \<Rightarrow> sched_store \<Rightarrow> string list \<Rightarrow> err + FairInventoryRoots" where
  "ResolveFairInventoryRoots env s paths =
     (if se_nil env \<or> ss_schema s < 11 \<or> ValidateFairInventoryPaths paths \<noteq> None
      then Inl ErrFairInventoryInput
      else case se_err env 0 of
        Some e \<Rightarrow> Inl e
      | None \<Rightarrow> (case resolveAll env 10 (ss_db s) paths of
            Inl e \<Rightarrow> Inl e
          | Inr rs \<Rightarrow> (case se_before env of
              Some e \<Rightarrow> Inl e
            | None \<Rightarrow> (case se_err env 1 of
                Some e \<Rightarrow> Inl e
              | None \<Rightarrow> (case se_after env of
                  Some e \<Rightarrow> Inl e
                | None \<Rightarrow> Inr \<lparr>fr_store = ss_id s, fr_roots = sort_key fi_id rs\<rparr>)))))"

fun scopeOrdered :: "int \<Rightarrow> fairInventoryRoot list \<Rightarrow> bool" where
  "scopeOrdered previous [] = True"
| "scopeOrdered previous (r # rs) \<longleftrightarrow>
     \<not> (fi_id r \<le> previous \<or> ValidateFairInventoryPaths [fi_path r] \<noteq> None) \<and> scopeOrdered (fi_id r) rs"

definition validFairScope :: "sched_store \<Rightarrow> FairInventoryRoots \<Rightarrow> bool" where
  "validFairScope s scope \<longleftrightarrow>
     \<not> (fr_store scope \<noteq> ss_id s \<or> ss_schema s < 11 \<or> length (fr_roots scope) < 1 \<or>
        length (fr_roots scope) > MaxFairInventoryRoots) \<and> scopeOrdered 0 (fr_roots scope)"

definition fairInventoryNow :: "sched_env \<Rightarrow> gotime \<Rightarrow> err + int" where
  "fairInventoryNow env now =
     (if se_nil env then Inl ErrFairInventoryInput
      else case se_entry env of
        Some e \<Rightarrow> Inl e
      | None \<Rightarrow> let n = unixNano now in
          if n \<le> 0 \<or> \<not> tEqual (unixTime n) now then Inl ErrFairInventoryInput else Inr n)"

section \<open>The cursor\<close>

text \<open>The loop over the two numbers of the cursor text.\<close>

definition cursorValue :: "string \<Rightarrow> int option" where
  "cursorValue part =
     (case ParseInt part of
        None \<Rightarrow> None
      | Some v \<Rightarrow> if v < 0 \<or> FormatInt v \<noteq> part then None else Some v)"

definition parseCursor :: "string \<Rightarrow> err + fairInventoryCursor" where
  "parseCursor raw =
     (case splitOn CHR '':'' raw of
        [version, a, b] \<Rightarrow>
          if version \<noteq> ''1'' then Inl ErrFairInventoryCorrupt
          else (case (cursorValue a, cursorValue b) of
              (Some root, Some dispatch) \<Rightarrow>
                if (root = 0) \<noteq> (dispatch = 0) then Inl ErrFairInventoryCorrupt
                else Inr \<lparr>fc_root = root, fc_dispatch = dispatch\<rparr>
            | _ \<Rightarrow> Inl ErrFairInventoryCorrupt)
      | _ \<Rightarrow> Inl ErrFairInventoryCorrupt)"

definition readFairInventoryCursor :: "sched_env \<Rightarrow> nat \<Rightarrow> sched_db \<Rightarrow> err + fairInventoryCursor" where
  "readFairInventoryCursor env k db =
     (case se_err env k of
        Some e \<Rightarrow> Inl e
      | None \<Rightarrow> (case sd_settings db fairInventoryCursorKey of
            None \<Rightarrow> Inr \<lparr>fc_root = 0, fc_dispatch = 0\<rparr>
          | Some v \<Rightarrow>
              if \<not> sg_blob v \<or> length (sg_value v) > 43 then Inl ErrFairInventoryCorrupt
              else parseCursor (sg_value v)))"

definition cursorText :: "int \<Rightarrow> int \<Rightarrow> string" where
  "cursorText root dispatch = ''1:'' @ FormatInt root @ '':'' @ FormatInt dispatch"

definition writeFairInventoryCursor :: "sched_env \<Rightarrow> nat \<Rightarrow> sched_db \<Rightarrow> int \<Rightarrow> int \<Rightarrow> err + sched_db" where
  "writeFairInventoryCursor env k db root dispatch =
     (case se_err env k of
        Some e \<Rightarrow> Inl e
      | None \<Rightarrow> Inr (db\<lparr>sd_settings := (sd_settings db)
          (fairInventoryCursorKey \<mapsto> \<lparr>sg_blob = True, sg_value = cursorText root dispatch\<rparr>)\<rparr>))"

section \<open>Maintenance\<close>

text \<open>The probes of one root, requests \<open>k\<close> to \<open>k + 3\<close>.\<close>

definition inventoryRetirementRemaining :: "sched_env \<Rightarrow> nat \<Rightarrow> sched_db \<Rightarrow> int \<Rightarrow> err + bool" where
  "inventoryRetirementRemaining env k db rootID =
     (case se_err env k of
        Some e \<Rightarrow> Inl e
      | None \<Rightarrow>
          if rootID \<notin> set (sd_reconcile db) \<and> rootID \<notin> set (sd_retirement db) then Inr False
          else (case se_err env (k + 1) of
              Some e \<Rightarrow> Inl e
            | None \<Rightarrow> (case sd_revisions db rootID of
                  None \<Rightarrow> Inl ErrInventoryRetirementCorrupt
                | Some v \<Rightarrow> if rv_scan v < 0 then Inl ErrInventoryRetirementCorrupt else Inr True)))"

definition cacheRows :: "sched_db \<Rightarrow> int \<Rightarrow> cache_row list" where
  "cacheRows db rootID = filter (\<lambda>c. cr_root c = rootID) (sd_cache db)"

definition fairInventoryMaintenanceRemaining :: "sched_env \<Rightarrow> nat \<Rightarrow> sched_db \<Rightarrow> int \<Rightarrow> err + bool" where
  "fairInventoryMaintenanceRemaining env k db rootID =
     (case inventoryRetirementRemaining env k db rootID of
        Inl e \<Rightarrow> Inl e
      | Inr proofs \<Rightarrow> (case se_err env (k + 2) of
          Some e \<Rightarrow> Inl e
        | None \<Rightarrow>
            let compact = (rootID \<in> set (sd_compact db));
                pending = list_ex (\<lambda>c. \<not> cr_done c) (cacheRows db rootID);
                saved = map_option rv_revision (sd_revisions db rootID);
                older = (case saved of None \<Rightarrow> False | Some v \<Rightarrow> list_ex (\<lambda>c. cr_revision c < v) (cacheRows db rootID));
                newer = (case saved of None \<Rightarrow> False | Some v \<Rightarrow> list_ex (\<lambda>c. cr_revision c > v) (cacheRows db rootID));
                orphan = (cacheRows db rootID \<noteq> [] \<and> saved = None);
                answer = proofs \<or> compact \<or> pending \<or> older \<or> newer \<or> orphan
            in if pending \<or> older \<or> newer \<or> orphan
               then (case se_err env (k + 3) of
                   Some e \<Rightarrow> Inl e
                 | None \<Rightarrow> (case saved of
                       None \<Rightarrow> Inl ErrInventoryRetirementCorrupt
                     | Some v \<Rightarrow> if v < 0 then Inl ErrInventoryRetirementCorrupt else Inr answer))
               else Inr answer))"

section \<open>Selection\<close>

text \<open>\<open>sort.Search\<close>: binary search for the first index whose test is true.\<close>

function searchFrom :: "nat \<Rightarrow> nat \<Rightarrow> (nat \<Rightarrow> bool) \<Rightarrow> nat" where
  "searchFrom i j f =
     (if i < j then let h = (i + j) div 2 in if \<not> f h then searchFrom (h + 1) j f else searchFrom i h f
      else i)"
  by auto
termination by (relation "measure (\<lambda>(i, j, _). j - i)") auto

declare searchFrom.simps [simp del]

definition sortSearch :: "nat \<Rightarrow> (nat \<Rightarrow> bool) \<Rightarrow> nat" where "sortSearch n f = searchFrom 0 n f"

definition turnOrder :: "fairInventoryRoot list \<Rightarrow> int \<Rightarrow> fairInventoryRoot list" where
  "turnOrder roots served =
     (let start = sortSearch (length roots) (\<lambda>i. fi_id (roots ! i) > served)
      in map (\<lambda>i. roots ! ((start + i) mod length roots)) [0..<length roots])"

definition newTurn :: "fairInventoryRoot \<Rightarrow> turn_kind \<Rightarrow> FairInventoryTurn" where
  "newTurn root kind = \<lparr>ft_RootID = fi_id root, ft_RootPath = fi_path root, ft_Kind = kind, ft_Job = None,
     ft_receipt = None\<rparr>"

definition pendingScan :: "int \<Rightarrow> job_entry \<Rightarrow> bool" where
  "pendingScan rootID r \<longleftrightarrow> je_root r = rootID \<and> je_kind r = ScanKind \<and> je_status r = Pending"

text \<open>What the pending inventory job of a root adds to the schedule.\<close>

definition noteSource ::
  "int \<Rightarrow> bool \<Rightarrow> fairInventoryRoot \<Rightarrow> job_entry \<Rightarrow> FairInventorySchedule \<times> int \<Rightarrow> FairInventorySchedule \<times> int" where
  "noteSource now allowSource root r acc =
     (let (sch, jobID) = acc;
          sch1 = (if isZero (sc_NextSourceDue sch) \<or> tBefore (unixTime (je_due r)) (sc_NextSourceDue sch)
                  then sch\<lparr>sc_NextSourceDue := unixTime (je_due r)\<rparr> else sch)
      in if je_due r \<le> now
         then if \<not> allowSource then (sch1\<lparr>sc_SourceBlocked := True\<rparr>, jobID)
              else if sc_Turn sch1 = None then (sch1\<lparr>sc_Turn := Some (newTurn root TSource)\<rparr>, je_id r)
              else (sch1, jobID)
         else (sch1, jobID))"

definition addDormant :: "fairInventoryRoot \<Rightarrow> FairInventorySchedule \<Rightarrow> FairInventorySchedule" where
  "addDormant root sch = sch\<lparr>sc_DormantRoots := sc_DormantRoots sch @ [fi_path root]\<rparr>"

text \<open>One pass of the loop, requests \<open>k\<close> (the root), \<open>k + 1\<close> (its first pending job), \<open>k + 2\<close> (any job)
  and \<open>k + 3\<close> to \<open>k + 6\<close> (maintenance).\<close>

definition visitRoot ::
  "sched_env \<Rightarrow> nat \<Rightarrow> sched_db \<Rightarrow> int \<Rightarrow> bool \<Rightarrow> fairInventoryRoot \<Rightarrow> FairInventorySchedule \<times> int \<Rightarrow>
   err + FairInventorySchedule \<times> int" where
  "visitRoot env k db now allowSource root acc =
     (case se_err env k of
        Some e \<Rightarrow> Inl e
      | None \<Rightarrow> (case rootRow db (fi_id root) of
          None \<Rightarrow> Inl ErrNoRows
        | Some q \<Rightarrow>
            if (re_enabled q \<noteq> 0 \<and> re_enabled q \<noteq> 1) \<or> \<not> re_pathBlob q \<or> \<not> re_enabledInt q \<or> re_path q \<noteq> fi_path root
            then Inl ErrFairInventoryCorrupt
            else if re_enabled q = 0 then Inr (addDormant root (fst acc), snd acc)
            else case se_err env (k + 1) of
              Some e \<Rightarrow> Inl e
            | None \<Rightarrow>
                let first = earliest (filter (pendingScan (fi_id root)) (sd_jobs db)) in
                if (case first of None \<Rightarrow> False | Some r \<Rightarrow> je_id r \<le> 0 \<or> je_due r < 0 \<or> \<not> je_dueInt r)
                then Inl ErrFairInventoryCorrupt
                else let acc1 = (case first of None \<Rightarrow> acc | Some r \<Rightarrow> noteSource now allowSource root r acc) in
                (case se_err env (k + 2) of
                   Some e \<Rightarrow> Inl e
                 | None \<Rightarrow>
                     if list_ex (\<lambda>r. je_root r = fi_id root \<and> je_kind r = ScanKind) (sd_jobs db) then Inr acc1
                     else let sch = addDormant root (fst acc1) in
                       (case fairInventoryMaintenanceRemaining env (k + 3) db (fi_id root) of
                          Inl e \<Rightarrow> Inl e
                        | Inr remaining \<Rightarrow>
                            Inr (if remaining \<and> sc_Turn sch = None
                                 then sch\<lparr>sc_Turn := Some (newTurn root TMaintenance)\<rparr> else sch, snd acc1)))))"

fun visitRoots ::
  "sched_env \<Rightarrow> nat \<Rightarrow> sched_db \<Rightarrow> int \<Rightarrow> bool \<Rightarrow> fairInventoryRoot list \<Rightarrow> FairInventorySchedule \<times> int \<Rightarrow>
   err + FairInventorySchedule \<times> int" where
  "visitRoots env k db now allowSource [] acc = Inr acc"
| "visitRoots env k db now allowSource (root # roots) acc =
     (case visitRoot env k db now allowSource root acc of
        Inl e \<Rightarrow> Inl e
      | Inr acc' \<Rightarrow> visitRoots env (k + 7) db now allowSource roots acc')"

text \<open>Request 9 is the context at the end of the selection; the roots' requests start at 20.\<close>

definition selectFairInventoryTurn ::
  "sched_env \<Rightarrow> sched_db \<Rightarrow> FairInventoryRoots \<Rightarrow> int \<Rightarrow> bool \<Rightarrow> fairInventoryCursor \<Rightarrow>
   err + FairInventorySchedule \<times> int" where
  "selectFairInventoryTurn env db scope now allowSource cursor =
     (case visitRoots env 20 db now allowSource (turnOrder (fr_roots scope) (fc_root cursor)) (zeroSchedule, 0) of
        Inl e \<Rightarrow> Inl e
      | Inr acc \<Rightarrow> (case se_err env 9 of Some e \<Rightarrow> Inl e | None \<Rightarrow> Inr acc))"

text \<open>Requests: 0 opening the transaction, 1 the cursor, 2 the commit.\<close>

definition NextFairInventoryTurn ::
  "sched_env \<Rightarrow> sched_store \<Rightarrow> FairInventoryRoots \<Rightarrow> gotime \<Rightarrow> bool \<Rightarrow> err + FairInventorySchedule" where
  "NextFairInventoryTurn env s scope now allowSource =
     (case fairInventoryNow env now of
        Inl e \<Rightarrow> Inl e
      | Inr n \<Rightarrow>
          if \<not> validFairScope s scope then Inl ErrFairInventoryInput
          else (case se_err env 0 of
              Some e \<Rightarrow> Inl e
            | None \<Rightarrow> (case readFairInventoryCursor env 1 (ss_db s) of
                Inl e \<Rightarrow> Inl e
              | Inr cursor \<Rightarrow> (case selectFairInventoryTurn env (ss_db s) scope n allowSource cursor of
                  Inl e \<Rightarrow> Inl e
                | Inr acc \<Rightarrow> (case se_err env 2 of
                    Some e \<Rightarrow> Inl e
                  | None \<Rightarrow> (case se_after env of Some e \<Rightarrow> Inl e | None \<Rightarrow> Inr (fst acc)))))))"

section \<open>The claim\<close>

definition claimInput ::
  "sched_env \<Rightarrow> sched_store \<Rightarrow> FairInventoryRoots \<Rightarrow> gotime \<Rightarrow> int \<Rightarrow> gotime \<Rightarrow> err + int \<times> int" where
  "claimInput env s scope now lease reservedAt =
     (case fairInventoryNow env now of
        Inl e \<Rightarrow> Inl e
      | Inr n \<Rightarrow> (case fairInventoryNow env reservedAt of
          Inl _ \<Rightarrow> Inl ErrFairInventoryInput
        | Inr reserved \<Rightarrow>
            if reserved > n \<or> lease \<le> 0 \<or> lease > 48 * hour_ns \<or> n > sub64 maxInt64 lease \<or> ss_readOnly s \<or>
               \<not> ss_lock s \<or> \<not> validFairScope s scope
            then Inl ErrFairInventoryInput
            else if sub64 n reserved \<ge> min lease FairInventoryClaimWindow then Inl ErrFairInventoryReceipt
            else Inr (n, reserved)))"

text \<open>The receipt: the saved dispatch row is the reservation named, no turn has used it, and it was
  made on its own day.\<close>

definition receiptUnused :: "fairInventoryCursor \<Rightarrow> dispatch_row option \<Rightarrow> int \<Rightarrow> gotime \<Rightarrow> err option" where
  "receiptUnused cursor saved reserved reservedAt =
     (case saved of
        None \<Rightarrow> Some ErrFairInventoryReceipt
      | Some d \<Rightarrow>
          if d_last d \<noteq> reserved \<or> fc_dispatch cursor \<ge> reserved \<or> d_chunks d < 1 \<or> d_next d \<le> d_last d \<or>
             d_day d \<noteq> dateOnly reservedAt
          then Some ErrFairInventoryReceipt else None)"

text \<open>The lease of the selected source job, requests 4 to 7.\<close>

definition claimSource ::
  "sched_env \<Rightarrow> int \<Rightarrow> sched_db \<Rightarrow> FairInventoryTurn \<Rightarrow> int \<Rightarrow> int \<Rightarrow> int \<Rightarrow> err + FairInventoryTurn \<times> sched_db" where
  "claimSource env schema db turn jobID n until =
     (case se_randErr env of
        Some e \<Rightarrow> Inl e
      | None \<Rightarrow> (case se_err env 4 of
          Some e \<Rightarrow> Inl e
        | None \<Rightarrow>
            let P = (\<lambda>r. je_id r = jobID \<and> pendingScan (ft_RootID turn) r \<and> je_due r \<le> n);
                f = leaseJob (drawnToken env) until in
            (case find P (sd_jobs db) of
               None \<Rightarrow> Inl ErrNoRows
             | Some r \<Rightarrow>
                 let db1 = updateJobs P f db; j = jobOf db1 (f r) in
                 if \<not> validRelative (j_Path j) \<or> length (j_Cursor j) > MaxCursorBytes \<or> j_Attempts j < 1 \<or>
                    j_RootPath j \<noteq> ft_RootPath turn \<or> length (j_RootIdentity j) > 4096
                 then Inl ErrFairInventoryCorrupt
                 else (case claimRecords env 5 schema db1 j of
                     Inl e \<Rightarrow> Inl e
                   | Inr db2 \<Rightarrow> Inr (turn\<lparr>ft_Job := Some j\<rparr>, db2)))))"

text \<open>Requests: 0 opening the transaction, 1 the cursor, 3 the dispatch row, 4 to 7 the lease, 8 the
  cursor's upsert, 2 the commit.\<close>

definition ClaimFairInventoryTurn ::
  "sched_env \<Rightarrow> sched_store \<Rightarrow> FairInventoryRoots \<Rightarrow> gotime \<Rightarrow> int \<Rightarrow> bool \<Rightarrow> gotime \<Rightarrow>
   (FairInventoryTurn option \<times> err option) \<times> sched_store" where
  "ClaimFairInventoryTurn env s scope now lease allowSource reservedAt =
     (case claimInput env s scope now lease reservedAt of
        Inl e \<Rightarrow> ((None, Some e), s)
      | Inr (n, reserved) \<Rightarrow> (case se_err env 0 of
          Some e \<Rightarrow> ((None, Some e), s)
        | None \<Rightarrow> (case readFairInventoryCursor env 1 (ss_db s) of
            Inl e \<Rightarrow> ((None, Some e), s)
          | Inr cursor \<Rightarrow> (case se_err env 3 of
              Some e \<Rightarrow> ((None, Some e), s)
            | None \<Rightarrow> (case receiptUnused cursor (sd_dispatch (ss_db s)) reserved reservedAt of
                Some e \<Rightarrow> ((None, Some e), s)
              | None \<Rightarrow> (case selectFairInventoryTurn env (ss_db s) scope n allowSource cursor of
                  Inl e \<Rightarrow> ((None, Some e), s)
                | Inr (sch, jobID) \<Rightarrow> (case sc_Turn sch of
                    None \<Rightarrow> ((None, None), s)
                  | Some turn \<Rightarrow>
                      (case (if ft_Kind turn = TSource
                             then claimSource env (ss_schema s) (ss_db s) turn jobID n (add64 n lease)
                             else Inr (turn, ss_db s)) of
                         Inl e \<Rightarrow> ((None, Some e), s)
                       | Inr (turn1, db1) \<Rightarrow>
                           (case writeFairInventoryCursor env 8 db1 (ft_RootID turn) reserved of
                              Inl e \<Rightarrow> ((None, Some e), s)
                            | Inr db2 \<Rightarrow> closeClaim env 2 s db2
                                (turn1\<lparr>ft_receipt := Some (newFairInventoryReceipt (ss_id s) turn1 reservedAt)\<rparr>))))))))))"

end
