(* ===== verification/Job_Queue_Laws.thy ===== *)
theory Job_Queue_Laws
  imports Fair_Turns
begin

text \<open>
  What each operation of the queue does to the table of jobs, and the invariant of the table: row
  ids and job keys are unique, a row is running exactly when it carries a lease token, and paths,
  kinds, cursors and error texts are within their bounds.
\<close>

section \<open>Well-formed tables\<close>

definition jobKey :: "job_entry \<Rightarrow> int \<times> string \<times> string" where
  "jobKey r = (je_root r, je_kind r, je_path r)"

definition rowOk :: "job_entry \<Rightarrow> bool" where
  "rowOk r \<longleftrightarrow> 0 < je_id r \<and> 0 < je_root r \<and> validKind (je_kind r) \<and> validRelative (je_path r) \<and>
     (case je_status r of Pending \<Rightarrow> je_token r = [] | Running \<Rightarrow> metadataDigest (je_token r) 32) \<and>
     length (je_cursor r) \<le> MaxCursorBytes \<and> length (je_error r) \<le> 2048 \<and> 0 \<le> je_attempts r \<and>
     (je_claimed r = 0 \<or> je_claimed r = 1)"

definition jobsOk :: "job_entry list \<Rightarrow> bool" where
  "jobsOk rows \<longleftrightarrow> distinct (map je_id rows) \<and> distinct (map jobKey rows) \<and> list_all rowOk rows"

text \<open>SQLite picks an unused positive id when the largest one is taken.\<close>

definition rowidFresh :: "sched_env \<Rightarrow> job_entry list \<Rightarrow> bool" where
  "rowidFresh env rows \<longleftrightarrow> 0 < se_rowid env \<and> se_rowid env \<notin> je_id ` set rows"

lemma jobsOk_unique: "jobsOk rows \<Longrightarrow> a \<in> set rows \<Longrightarrow> b \<in> set rows \<Longrightarrow> je_id a = je_id b \<Longrightarrow> a = b"
  by (auto simp: jobsOk_def distinct_map inj_on_def)

lemma jobsOk_row: "jobsOk rows \<Longrightarrow> r \<in> set rows \<Longrightarrow> rowOk r"
  by (simp add: jobsOk_def list_all_iff)

section \<open>Selection\<close>

lemma find_member: "find P xs = Some x \<Longrightarrow> x \<in> set xs \<and> P x"
  by (auto simp: find_Some_iff)

lemma earliest_None [simp]: "earliest rows = None \<longleftrightarrow> rows = []"
  by (cases rows) (auto split: option.splits)

lemma jobBefore_order:
  "\<not> jobBefore a a" "\<not> jobBefore a b \<Longrightarrow> \<not> jobBefore b c \<Longrightarrow> \<not> jobBefore a c" "jobBefore a b \<Longrightarrow> \<not> jobBefore b a"
  by (auto simp: jobBefore_def)

text \<open>The selected row comes before every other one.\<close>

lemma earliest_Some:
  "earliest rows = Some r \<Longrightarrow> r \<in> set rows \<and> (\<forall>q\<in>set rows. \<not> jobBefore q r)"
proof (induction rows arbitrary: r)
  case (Cons x rows)
  show ?case
  proof (cases "earliest rows")
    case None
    then show ?thesis using Cons.prems jobBefore_order(1) by auto
  next
    case (Some q)
    note ih = Cons.IH [OF Some]
    show ?thesis
    proof (cases "jobBefore q x")
      case True
      then have "r = q" using Cons.prems Some by simp
      then show ?thesis using ih jobBefore_order(3) [OF True] by auto
    next
      case False
      then have "r = x" using Cons.prems Some by simp
      then show ?thesis using ih False jobBefore_order(1) jobBefore_order(2) [of _ q x] by auto
    qed
  qed
qed simp

lemma max_id: "r \<in> set rows \<Longrightarrow> je_id r \<le> foldr max (map je_id rows) m"
  by (induction rows) auto

lemma foldr_max_in: "foldr max xs (m::int) \<in> insert m (set xs)"
  by (induction xs) (auto simp: max_def)

lemma newRowid_fresh:
  assumes "rowidFresh env rows" "list_all rowOk rows"
  shows "newRowid env rows \<notin> je_id ` set rows" "0 < newRowid env rows"
proof -
  let ?m = "foldr max (map je_id rows) (je_id (hd rows))"
  have top: "\<And>r. r \<in> set rows \<Longrightarrow> je_id r \<le> ?m" using max_id by blast
  have "newRowid env rows = se_rowid env \<or> rows = [] \<or> newRowid env rows = ?m + 1"
    by (simp add: newRowid_def Let_def)
  then show "newRowid env rows \<notin> je_id ` set rows"
    using assms(1) top by (force simp: rowidFresh_def)
  have "0 < ?m" if "rows \<noteq> []"
    using that assms(2) foldr_max_in [of "map je_id rows" "je_id (hd rows)"] hd_in_set [OF that]
    by (auto simp: list_all_iff rowOk_def)
  then show "0 < newRowid env rows" using assms(1) by (cases "rows = []") (simp_all add: newRowid_def rowidFresh_def Let_def)
qed

section \<open>Enqueue\<close>

lemma enqueue_path_ok:
  assumes "\<not> (length (enqueuePath p) > 4096 \<or> nulByte \<in> set (enqueuePath p) \<or> IsAbs (enqueuePath p) \<or>
     enqueuePath p = ''..'' \<or> HasPrefix (enqueuePath p) ''../'')"
  shows "validRelative (enqueuePath p)"
  using assms Clean_idem [of "if p = [] then ''.'' else p"] by (simp add: validRelative_def enqueuePath_def)

lemma EnqueueJob_cases:
  assumes "EnqueueJob env s rootID kind path due = (e, t)"
  obtains (unchanged) "t = s"
  | (added) r where "t = s\<lparr>ss_db := (ss_db s)\<lparr>sd_jobs := sd_jobs (ss_db s) @ [r]\<rparr>\<rparr>"
      "r = freshJob (newRowid env (sd_jobs (ss_db s))) rootID kind (enqueuePath path) (unixNano due)"
      "0 < rootID" "validKind kind" "validRelative (enqueuePath path)" "jobKey r \<notin> jobKey ` set (sd_jobs (ss_db s))"
proof (cases "t = s")
  case False
  let ?p = "enqueuePath path"
  let ?r = "freshJob (newRowid env (sd_jobs (ss_db s))) rootID kind ?p (unixNano due)"
  have c: "\<not> (rootID \<le> 0 \<or> \<not> validKind kind \<or> length ?p > 4096 \<or> nulByte \<in> set ?p \<or> IsAbs ?p \<or> ?p = ''..'' \<or>
      HasPrefix ?p ''../'')" "\<not> list_ex (sameKey rootID kind ?p) (sd_jobs (ss_db s))"
    and t: "t = s\<lparr>ss_db := (ss_db s)\<lparr>sd_jobs := sd_jobs (ss_db s) @ [?r]\<rparr>\<rparr>"
    using assms False by (auto simp: EnqueueJob_def Let_def committed_def split: if_splits)
  have "jobKey ?r \<notin> jobKey ` set (sd_jobs (ss_db s))"
    using c(2) by (auto simp: list_ex_iff sameKey_def jobKey_def freshJob_def)
  then show thesis using added [OF t] c(1) enqueue_path_ok [of path] by auto
qed

lemma freshJob_ok:
  "0 < i \<Longrightarrow> 0 < root \<Longrightarrow> validKind kind \<Longrightarrow> validRelative path \<Longrightarrow> rowOk (freshJob i root kind path due)"
  by (simp add: rowOk_def freshJob_def)

lemma EnqueueJob_ok:
  assumes "EnqueueJob env s rootID kind path due = (e, t)" "jobsOk (sd_jobs (ss_db s))"
    "rowidFresh env (sd_jobs (ss_db s))"
  shows "jobsOk (sd_jobs (ss_db t))"
  using assms(1)
proof (cases rule: EnqueueJob_cases)
  case (added r)
  have ok: "list_all rowOk (sd_jobs (ss_db s))" using assms(2) by (simp add: jobsOk_def)
  note new = newRowid_fresh [OF assms(3) ok]
  have "rowOk r" unfolding added(2) using freshJob_ok new(2) added(3-5) by blast
  moreover have "je_id r \<notin> je_id ` set (sd_jobs (ss_db s))" using new(1) by (simp add: added(2) freshJob_def)
  ultimately show ?thesis using assms(2) added(1,6) by (simp add: jobsOk_def)
qed (use assms in simp)

section \<open>Claims\<close>

text \<open>Rows that differ at most in the claim flag.\<close>

definition sameButClaim :: "job_entry \<Rightarrow> job_entry \<Rightarrow> bool" where
  "sameButClaim a b \<longleftrightarrow> a\<lparr>je_claimed := je_claimed b\<rparr> = b \<and> (je_claimed a = je_claimed b \<or> je_claimed a = 1)"

lemma sameButClaim_fields:
  assumes "sameButClaim a b"
  shows "je_id a = je_id b" "je_root a = je_root b" "je_kind a = je_kind b" "je_path a = je_path b"
    "je_status a = je_status b" "je_due a = je_due b" "je_cursor a = je_cursor b" "je_attempts a = je_attempts b"
    "je_token a = je_token b" "je_until a = je_until b" "je_error a = je_error b" "je_dueInt a = je_dueInt b"
    "jobKey a = jobKey b"
proof -
  have b: "b = a\<lparr>je_claimed := je_claimed b\<rparr>" using assms by (simp add: sameButClaim_def)
  show "je_id a = je_id b" "je_root a = je_root b" "je_kind a = je_kind b" "je_path a = je_path b"
    "je_status a = je_status b" "je_due a = je_due b" "je_cursor a = je_cursor b" "je_attempts a = je_attempts b"
    "je_token a = je_token b" "je_until a = je_until b" "je_error a = je_error b" "je_dueInt a = je_dueInt b"
    "jobKey a = jobKey b" by (subst b, simp add: jobKey_def)+
qed

lemma sameButClaim_refl [simp]: "sameButClaim a a"
  by (simp add: sameButClaim_def)

lemma sameButClaim_rowOk: "sameButClaim a b \<Longrightarrow> rowOk b \<Longrightarrow> rowOk a"
  using sameButClaim_fields [of a b] unfolding rowOk_def sameButClaim_def by (cases "je_status b") auto

text \<open>The claim records leave everything else of the database alone.\<close>

definition claimFrame :: "sched_db \<Rightarrow> sched_db \<Rightarrow> bool" where
  "claimFrame db db' \<longleftrightarrow> sd_roots db' = sd_roots db \<and> sd_settings db' = sd_settings db \<and>
     sd_dispatch db' = sd_dispatch db \<and> (\<exists>g. sd_jobs db' = map g (sd_jobs db) \<and> (\<forall>r. sameButClaim (g r) r))"

lemma claimFrame_refl [simp]: "claimFrame db db"
  unfolding claimFrame_def by (intro conjI exI [of _ id]) simp_all

lemma inventoryClaim_frame: "inventoryClaim env k db j = Inr db' \<Longrightarrow> claimFrame db db'"
proof -
  assume a: "inventoryClaim env k db j = Inr db'"
  show "claimFrame db db'"
  proof (cases "j_Kind j = ScanKind")
    case True
    then obtain P where "db' = updateJobs P (\<lambda>r. r\<lparr>je_claimed := 1\<rparr>) db"
      using a by (auto simp: inventoryClaim_def Let_def split: option.splits if_splits)
    then show ?thesis
      unfolding claimFrame_def updateJobs_def
      by (intro conjI exI [of _ "\<lambda>r. if P r then r\<lparr>je_claimed := 1\<rparr> else r"]) (simp_all add: sameButClaim_def)
  qed (use a in \<open>simp add: inventoryClaim_def\<close>)
qed

lemma adaptiveClaim_frame:
  "adaptiveClaim env k db j = Inr db' \<Longrightarrow> \<exists>v. db' = db\<lparr>sd_revisits := v\<rparr>"
  by (cases "j_Kind j = ScanKind")
    (auto simp: adaptiveClaim_def split: option.splits, metis sched_db.surjective sched_db.update_convs(5))

lemma claimFrame_revisits: "claimFrame db db' \<Longrightarrow> claimFrame db (db'\<lparr>sd_revisits := v\<rparr>)"
  by (simp add: claimFrame_def)

lemma claimRecords_frame:
  assumes "claimRecords env k schema db j = Inr db'"
  shows "claimFrame db db'"
proof -
  obtain db1 where one: "(if schema \<ge> 14 then inventoryClaim env k db j else Inr db) = Inr db1"
    and two: "(if schema \<ge> 13 then adaptiveClaim env (k + 2) db1 j else Inr db1) = Inr db'"
    using assms by (auto simp: claimRecords_def split: sum.splits)
  have "claimFrame db db1" using one inventoryClaim_frame [of env k db j db1] by (auto split: if_splits)
  then show ?thesis
    using two adaptiveClaim_frame [of env "k + 2" db1 j db'] claimFrame_revisits [of db db1] by (auto split: if_splits)
qed

text \<open>Leasing: one pending row gets the token; every row keeps its place.\<close>

definition leaseMove :: "string \<Rightarrow> int \<Rightarrow> int \<Rightarrow> job_entry list \<Rightarrow> job_entry list \<Rightarrow> bool" where
  "leaseMove token until i rows rows' \<longleftrightarrow>
     (\<exists>r\<in>set rows. je_id r = i \<and> je_status r = Pending) \<and>
     (\<exists>g. rows' = map g rows \<and>
       (\<forall>r\<in>set rows. sameButClaim (g r) (if je_id r = i then leaseJob token until r else r)))"

lemma leaseJob_fields [simp]:
  "je_id (leaseJob token until r) = je_id r" "jobKey (leaseJob token until r) = jobKey r"
  "je_token (leaseJob token until r) = token" "je_status (leaseJob token until r) = Running"
  "je_cursor (leaseJob token until r) = je_cursor r" "je_due (leaseJob token until r) = je_due r"
  "je_root (leaseJob token until r) = je_root r" "je_kind (leaseJob token until r) = je_kind r"
  "je_path (leaseJob token until r) = je_path r" "je_until (leaseJob token until r) = until"
  "je_attempts (leaseJob token until r) = je_attempts r + 1" "je_claimed (leaseJob token until r) = je_claimed r"
  by (simp_all add: leaseJob_def jobKey_def)

lemma leaseJob_ok: "rowOk r \<Longrightarrow> metadataDigest token 32 \<Longrightarrow> rowOk (leaseJob token until r)"
  by (simp add: rowOk_def leaseJob_def)

lemma leaseMove_ok:
  assumes "leaseMove token until i rows rows'" "jobsOk rows" "metadataDigest token 32"
  shows "jobsOk rows'"
proof -
  obtain g where g: "rows' = map g rows"
      "\<And>r. r \<in> set rows \<Longrightarrow> sameButClaim (g r) (if je_id r = i then leaseJob token until r else r)"
    using assms(1) by (auto simp: leaseMove_def)
  have id: "je_id (g r) = je_id r" "jobKey (g r) = jobKey r" if "r \<in> set rows" for r
    using sameButClaim_fields(1,13) [OF g(2) [OF that]] by (auto split: if_splits)
  have "rowOk (g r)" if "r \<in> set rows" for r
    using sameButClaim_rowOk [OF g(2) [OF that]] jobsOk_row [OF assms(2) that] leaseJob_ok assms(3) by simp
  then have "list_all rowOk rows'" by (simp add: g(1) list_all_iff)
  moreover have "map je_id rows' = map je_id rows" "map jobKey rows' = map jobKey rows" by (simp_all add: g(1) id)
  ultimately show ?thesis using assms(2) by (simp add: jobsOk_def)
qed

lemma leaseMove_frame:
  assumes "claimFrame (updateJobs P (leaseJob token until) db) db'" "r \<in> set (sd_jobs db)" "je_status r = Pending"
    "\<And>q. q \<in> set (sd_jobs db) \<Longrightarrow> P q \<longleftrightarrow> je_id q = je_id r"
  shows "leaseMove token until (je_id r) (sd_jobs db) (sd_jobs db')"
proof -
  let ?f = "\<lambda>q. if P q then leaseJob token until q else q"
  obtain g where g: "sd_jobs db' = map g (map ?f (sd_jobs db))" "\<And>q. sameButClaim (g q) q"
    using assms(1) by (auto simp: claimFrame_def updateJobs_def)
  have "sameButClaim ((g \<circ> ?f) q) (if je_id q = je_id r then leaseJob token until q else q)"
    if "q \<in> set (sd_jobs db)" for q using g(2) [of "?f q"] assms(4) [OF that] by simp
  then show ?thesis
    unfolding leaseMove_def g(1) using assms(2,3) by (intro conjI exI [of _ "g \<circ> ?f"] bexI [of _ r]) simp_all
qed

lemma closeClaim_cases:
  assumes "closeClaim env k s db r = ((res, e), t)"
  shows "(res = Some r \<and> e = None \<and> t = s\<lparr>ss_db := db\<rparr>) \<or> (res = None \<and> e \<noteq> None \<and> (t = s \<or> t = s\<lparr>ss_db := db\<rparr>))"
  using assms by (auto simp: closeClaim_def committed_def split: option.splits if_splits) metis+

text \<open>The rows a claim may take.\<close>

definition dueRows :: "sched_db \<Rightarrow> string list \<Rightarrow> gotime \<Rightarrow> job_entry list" where
  "dueRows db kinds now = filter (\<lambda>r. claimable db kinds r \<and> je_due r \<le> unixNano now) (sd_jobs db)"

lemma ClaimJob_cases:
  assumes "ClaimJob env s kinds now lease = ((res, e), t)"
  obtains (unchanged) "t = s" "res = None"
  | (leased) r db2 j where "earliest (dueRows (ss_db s) kinds now) = Some r"
      "claimFrame (updateJobs (\<lambda>q. je_id q = je_id r) (leaseJob (drawnToken env) (unixNano (tAdd now lease))) (ss_db s)) db2"
      "j = jobOf (ss_db s) (leaseJob (drawnToken env) (unixNano (tAdd now lease)) r)"
      "t = s\<lparr>ss_db := db2\<rparr>" "res = Some j \<and> e = None \<or> res = None \<and> e \<noteq> None"
proof (cases "t = s \<and> res = None")
  case False
  let ?f = "leaseJob (drawnToken env) (unixNano (tAdd now lease))"
  obtain r db2 where r: "earliest (dueRows (ss_db s) kinds now) = Some r"
    and c: "claimRecords env 2 (ss_schema s) (updateJobs (\<lambda>q. je_id q = je_id r) ?f (ss_db s))
        (jobOf (updateJobs (\<lambda>q. je_id q = je_id r) ?f (ss_db s)) (?f r)) = Inr db2"
    and x: "closeClaim env 5 s db2 (jobOf (updateJobs (\<lambda>q. je_id q = je_id r) ?f (ss_db s)) (?f r)) = ((res, e), t)"
    using assms False
    by (auto simp: ClaimJob_def Let_def dueRows_def split: if_splits option.splits sum.splits)
  have j: "jobOf (updateJobs (\<lambda>q. je_id q = je_id r) ?f (ss_db s)) (?f r) = jobOf (ss_db s) (?f r)"
    by (simp add: jobOf_def rootRow_def updateJobs_def)
  show thesis
    using leased [OF r claimRecords_frame [OF c] refl] closeClaim_cases [OF x] False unfolding j by blast
qed blast

lemma dueRows_member:
  "r \<in> set (dueRows db kinds now) \<longleftrightarrow> r \<in> set (sd_jobs db) \<and> claimable db kinds r \<and> je_due r \<le> unixNano now"
  by (auto simp: dueRows_def)

lemma ClaimJob_move:
  assumes "ClaimJob env s kinds now lease = ((res, e), t)" "jobsOk (sd_jobs (ss_db s))"
  shows "t = s \<and> res = None \<or>
     (\<exists>i until. leaseMove (drawnToken env) until i (sd_jobs (ss_db s)) (sd_jobs (ss_db t)) \<and>
        (\<forall>j. res = Some j \<longrightarrow> j_ID j = i \<and> j_Token j = drawnToken env))"
  using assms(1)
proof (cases rule: ClaimJob_cases)
  case (leased r db2 j)
  have r: "r \<in> set (sd_jobs (ss_db s))" "je_status r = Pending"
    using earliest_Some [OF leased(1)] by (auto simp: dueRows_member claimable_def)
  have "leaseMove (drawnToken env) (unixNano (tAdd now lease)) (je_id r) (sd_jobs (ss_db s)) (sd_jobs (ss_db t))"
    using leaseMove_frame [OF leased(2) r] leased(4) by simp
  then show ?thesis using leased(3,5) by (auto simp: jobOf_def)
qed simp

section \<open>Finishing and recovering\<close>

definition finishRows :: "job \<Rightarrow> bool \<Rightarrow> string \<Rightarrow> gotime \<Rightarrow> string \<Rightarrow> job_entry list \<Rightarrow> job_entry list" where
  "finishRows j finished cursor due lastError rows =
     (let P = heldBy (j_ID j) (j_Token j) in
      if finished then filter (\<lambda>r. \<not> P r) rows
      else map (\<lambda>r. if P r then releaseJob cursor (unixNano due) (take 2048 lastError) r else r) rows)"

definition held :: "int \<Rightarrow> string \<Rightarrow> job_entry list \<Rightarrow> bool" where
  "held i token rows \<longleftrightarrow> (\<exists>r\<in>set rows. heldBy i token r)"

lemma releaseJob_fields [simp]:
  "je_id (releaseJob cursor due e r) = je_id r" "jobKey (releaseJob cursor due e r) = jobKey r"
  "je_token (releaseJob cursor due e r) = []" "je_status (releaseJob cursor due e r) = Pending"
  "je_cursor (releaseJob cursor due e r) = cursor" "je_due (releaseJob cursor due e r) = due"
  by (simp_all add: releaseJob_def jobKey_def)

lemma recoverJob_fields [simp]:
  "je_id (recoverJob now r) = je_id r" "jobKey (recoverJob now r) = jobKey r"
  "je_token (recoverJob now r) = []" "je_status (recoverJob now r) = Pending"
  "je_cursor (recoverJob now r) = je_cursor r" "je_attempts (recoverJob now r) = je_attempts r"
  by (simp_all add: recoverJob_def jobKey_def)

lemma finishJob_ok:
  assumes "finishJob env k db j finished cursor due lastError = Inr db'"
  shows "j_Token j \<noteq> []" "length cursor \<le> MaxCursorBytes" "jobCount (heldBy (j_ID j) (j_Token j)) db = 1"
    "db' = db\<lparr>sd_jobs := finishRows j finished cursor due lastError (sd_jobs db)\<rparr>"
  using assms
  by (auto simp: finishJob_def finishRows_def updateJobs_def Let_def split: option.splits if_splits)

lemma committed_landed:
  assumes "t = committed env k s db" "e = se_err env k" "\<not> (t = s \<and> e \<noteq> None)"
  shows "t = s\<lparr>ss_db := db\<rparr>"
proof (cases "se_err env k = None \<or> se_applied env")
  case False
  then have "t = s" using assms(1) by (simp only: committed_def if_False)
  then show ?thesis using assms(2,3) False by metis
qed (simp add: assms(1) committed_def)

text \<open>A failed finish that leaves the store as it was, or one whose commit took effect.\<close>

lemma FinishJob_cases:
  assumes "FinishJob env s j finished cursor due lastError = (e, t)"
  obtains (unchanged) "t = s" "e \<noteq> None"
  | (applied) v where "j_Token j \<noteq> []" "length cursor \<le> MaxCursorBytes"
      "jobCount (heldBy (j_ID j) (j_Token j)) (ss_db s) = 1"
      "t = s\<lparr>ss_db := (ss_db s)\<lparr>sd_jobs := finishRows j finished cursor due lastError (sd_jobs (ss_db s)), sd_revisits := v\<rparr>\<rparr>"
proof (cases "t = s \<and> e \<noteq> None")
  case False
  have open_tx: "\<not> ss_readOnly s" "se_err env 0 = None"
    using assms False unfolding FinishJob_def by (auto split: if_splits option.splits)
  obtain db1 where f: "finishJob env 1 (ss_db s) j finished cursor due lastError = Inr db1"
    using assms False open_tx by (cases "finishJob env 1 (ss_db s) j finished cursor due lastError") (auto simp: FinishJob_def)
  let ?a = "if ss_schema s \<ge> 13 \<and> j_Kind j = ScanKind then adaptiveUncertain env 3 db1 (j_RootID j) else Inr db1"
  obtain db2 where a: "?a = Inr db2"
    using assms False open_tx f by (cases ?a) (auto simp: FinishJob_def)
  then have t: "t = committed env 4 s db2" "e = se_err env 4"
    using assms open_tx f by (simp_all add: FinishJob_def)
  have t': "t = s\<lparr>ss_db := db2\<rparr>" using committed_landed [OF t False] .
  have "\<exists>v. db2 = db1\<lparr>sd_revisits := v\<rparr>"
  proof (cases "ss_schema s \<ge> 13 \<and> j_Kind j = ScanKind")
    case True
    then show ?thesis using a by (auto simp: adaptiveUncertain_def split: option.splits)
  next
    case False
    then have "db2 = db1\<lparr>sd_revisits := sd_revisits db1\<rparr>" using a unfolding if_not_P [OF False] by simp
    then show ?thesis by blast
  qed
  then obtain v where "db2 = db1\<lparr>sd_revisits := v\<rparr>" by blast
  then show thesis using applied [of v] t' finishJob_ok [OF f] by simp
qed blast

lemma jobsOk_subset: "jobsOk rows \<Longrightarrow> jobsOk (filter P rows)"
  by (auto simp: jobsOk_def distinct_map_filter list_all_iff)

lemma jobsOk_map:
  assumes "jobsOk rows" "\<And>r. r \<in> set rows \<Longrightarrow> je_id (f r) = je_id r \<and> jobKey (f r) = jobKey r \<and> rowOk (f r)"
  shows "jobsOk (map f rows)"
proof -
  have "map je_id (map f rows) = map je_id rows" "map jobKey (map f rows) = map jobKey rows"
      "list_all rowOk (map f rows)" using assms(2) by (auto simp: list_all_iff)
  then show ?thesis using assms(1) unfolding jobsOk_def by metis
qed

lemma releaseJob_ok: "rowOk r \<Longrightarrow> length cursor \<le> MaxCursorBytes \<Longrightarrow> rowOk (releaseJob cursor due (take 2048 e) r)"
  by (simp add: rowOk_def releaseJob_def)

lemma recoverJob_ok: "rowOk r \<Longrightarrow> rowOk (recoverJob now r)"
  by (simp add: rowOk_def recoverJob_def)

lemma finishRows_ok:
  "jobsOk rows \<Longrightarrow> length cursor \<le> MaxCursorBytes \<Longrightarrow> jobsOk (finishRows j finished cursor due lastError rows)"
  using jobsOk_row [of rows] releaseJob_ok
  by (cases finished) (auto simp: finishRows_def Let_def intro!: jobsOk_subset jobsOk_map)

definition recoveredJobs :: "int \<Rightarrow> job_entry list \<Rightarrow> job_entry list" where
  "recoveredJobs now rows = map (\<lambda>r. if je_status r = Running then recoverJob now r else r) rows"

lemma recoveredJobs_ok: "jobsOk rows \<Longrightarrow> jobsOk (recoveredJobs now rows)"
  unfolding recoveredJobs_def using jobsOk_row [of rows] recoverJob_ok by (intro jobsOk_map) auto

lemma RecoverJobs_cases:
  assumes "RecoverJobs env s now = ((n, e), t)"
  obtains (unchanged) "t = s" "e \<noteq> None"
  | (recovered) v where "e = None \<longrightarrow> n = jobCount (\<lambda>r. je_status r = Running) (ss_db s)"
      "t = s\<lparr>ss_db := (ss_db s)\<lparr>sd_jobs := recoveredJobs (unixNano now) (sd_jobs (ss_db s)), sd_revisits := v\<rparr>\<rparr>"
proof (cases "t = s \<and> e \<noteq> None")
  case False
  let ?db1 = "if ss_schema s \<ge> 13 then recoverRevisits (ss_db s) else ss_db s"
  let ?db2 = "updateJobs (\<lambda>r. je_status r = Running) (recoverJob (unixNano now)) ?db1"
  have t: "t = committed env 4 s ?db2" and n: "e = se_err env 4" "e = None \<longrightarrow> n = jobCount (\<lambda>r. je_status r = Running) ?db1"
  proof -
    have open_tx: "\<not> (ss_readOnly s \<or> \<not> ss_lock s)" "se_err env 0 = None"
        "(if ss_schema s \<ge> 13 then se_err env 1 else None) = None" "se_err env 2 = None" "se_err env 3 = None"
      using assms False unfolding RecoverJobs_def Let_def by (auto split: if_splits option.splits)
    have "RecoverJobs env s now = (case se_err env 4 of Some e \<Rightarrow> ((0, Some e), committed env 4 s ?db2)
        | None \<Rightarrow> ((jobCount (\<lambda>r. je_status r = Running) ?db1, None), committed env 4 s ?db2))"
      unfolding RecoverJobs_def Let_def if_not_P [OF open_tx(1)] open_tx option.case ..
    then show "t = committed env 4 s ?db2" "e = se_err env 4" "e = None \<longrightarrow> n = jobCount (\<lambda>r. je_status r = Running) ?db1"
      using assms by (auto split: option.splits)
  qed
  have "t = s\<lparr>ss_db := ?db2\<rparr>" using committed_landed [OF t n(1) False] .
  moreover have "\<exists>v. ?db2 = (ss_db s)\<lparr>sd_jobs := recoveredJobs (unixNano now) (sd_jobs (ss_db s)), sd_revisits := v\<rparr>"
    by (intro exI [of _ "sd_revisits ?db2"]) (simp add: recoverRevisits_def updateJobs_def recoveredJobs_def)
  ultimately obtain v where
    "t = s\<lparr>ss_db := (ss_db s)\<lparr>sd_jobs := recoveredJobs (unixNano now) (sd_jobs (ss_db s)), sd_revisits := v\<rparr>\<rparr>" by metis
  then show thesis using recovered [of v] n(2) by (simp add: jobCount_def recoverRevisits_def split: if_splits)
qed blast

section \<open>Claimed turns\<close>

lemma claimSource_ok:
  assumes "claimSource env schema db turn jobID n until = Inr (turn1, db1)"
  obtains r where "r \<in> set (sd_jobs db)" "je_id r = jobID" "pendingScan (ft_RootID turn) r" "je_due r \<le> n"
    "turn1 = turn\<lparr>ft_Job := Some (jobOf db (leaseJob (drawnToken env) until r))\<rparr>" "validRelative (je_path r)"
    "claimFrame (updateJobs (\<lambda>r. je_id r = jobID \<and> pendingScan (ft_RootID turn) r \<and> je_due r \<le> n)
       (leaseJob (drawnToken env) until) db) db1"
proof -
  let ?P = "\<lambda>r. je_id r = jobID \<and> pendingScan (ft_RootID turn) r \<and> je_due r \<le> n"
  let ?f = "leaseJob (drawnToken env) until"
  obtain r where r: "find ?P (sd_jobs db) = Some r"
    and c: "claimRecords env 5 schema (updateJobs ?P ?f db) (jobOf (updateJobs ?P ?f db) (?f r)) = Inr db1"
    and t: "turn1 = turn\<lparr>ft_Job := Some (jobOf (updateJobs ?P ?f db) (?f r))\<rparr>"
    and v: "validRelative (j_Path (jobOf (updateJobs ?P ?f db) (?f r)))"
    using assms by (auto simp: claimSource_def Let_def split: option.splits if_splits sum.splits)
  have j: "jobOf (updateJobs ?P ?f db) (?f r) = jobOf db (?f r)"
    by (simp add: jobOf_def rootRow_def updateJobs_def)
  have "r \<in> set (sd_jobs db) \<and> ?P r" using find_member [OF r] .
  then show thesis using that [of r] t v claimRecords_frame [OF c] unfolding j by (auto simp: jobOf_def)
qed

lemma ClaimFair_cases:
  assumes "ClaimFairInventoryTurn env s scope now lease allowSource reservedAt = ((res, e), t)"
  obtains (unchanged) "t = s" "res = None"
  | (claimed) n reserved cursor sch jobID turn turn1 db1 where
      "claimInput env s scope now lease reservedAt = Inr (n, reserved)"
      "readFairInventoryCursor env 1 (ss_db s) = Inr cursor"
      "receiptUnused cursor (sd_dispatch (ss_db s)) reserved reservedAt = None"
      "selectFairInventoryTurn env (ss_db s) scope n allowSource cursor = Inr (sch, jobID)"
      "sc_Turn sch = Some turn"
      "(if ft_Kind turn = TSource then claimSource env (ss_schema s) (ss_db s) turn jobID n (add64 n lease)
        else Inr (turn, ss_db s)) = Inr (turn1, db1)"
      "t = s\<lparr>ss_db := db1\<lparr>sd_settings := (sd_settings db1)
         (fairInventoryCursorKey \<mapsto> \<lparr>sg_blob = True, sg_value = cursorText (ft_RootID turn) reserved\<rparr>)\<rparr>\<rparr>"
      "res = Some (turn1\<lparr>ft_receipt := Some (newFairInventoryReceipt (ss_id s) turn1 reservedAt)\<rparr>) \<and> e = None \<or>
       res = None \<and> e \<noteq> None"
proof (cases "t = s \<and> res = None")
  case False
  then obtain n reserved cursor sch jobID turn turn1 db1 db2 where
      a: "claimInput env s scope now lease reservedAt = Inr (n, reserved)"
      "readFairInventoryCursor env 1 (ss_db s) = Inr cursor"
      "receiptUnused cursor (sd_dispatch (ss_db s)) reserved reservedAt = None"
      "selectFairInventoryTurn env (ss_db s) scope n allowSource cursor = Inr (sch, jobID)"
      "sc_Turn sch = Some turn"
      "(if ft_Kind turn = TSource then claimSource env (ss_schema s) (ss_db s) turn jobID n (add64 n lease)
        else Inr (turn, ss_db s)) = Inr (turn1, db1)"
    and w: "writeFairInventoryCursor env 8 db1 (ft_RootID turn) reserved = Inr db2"
    and c: "closeClaim env 2 s db2 (turn1\<lparr>ft_receipt := Some (newFairInventoryReceipt (ss_id s) turn1 reservedAt)\<rparr>) = ((res, e), t)"
    using assms unfolding ClaimFairInventoryTurn_def
    by (simp split: sum.splits option.splits prod.splits)
  have "db2 = db1\<lparr>sd_settings := (sd_settings db1)
         (fairInventoryCursorKey \<mapsto> \<lparr>sg_blob = True, sg_value = cursorText (ft_RootID turn) reserved\<rparr>)\<rparr>"
    using w by (auto simp: writeFairInventoryCursor_def split: option.splits)
  then show thesis using claimed [OF a] closeClaim_cases [OF c] False by blast
qed blast

end
