(* ===== verification/Sched_Laws.thy ===== *)
theory Sched_Laws
  imports Job_Queue_Laws Ledger_Systems
begin

text \<open>
  The store under all its scheduling clients: one step is one call of any operation of the queue, the
  dispatch budget or the fair rotation, under any answers of the context, the driver and the random
  source, or a change some other part of the program makes to tables these operations only read.
  The theory says what a step does to the jobs and to the rotation cursor, and interprets the run
  contracts on it.
\<close>

section \<open>Steps\<close>

text \<open>The events of interest: a claim and the token it drew, a finish and the lease it names, a recovery.\<close>

datatype sched_event = Quiet | Lease string | Finish int string | Recovery

text \<open>A change by others: the jobs, the dispatch row and the settings stay as they are.\<close>

definition otherChange :: "sched_db \<Rightarrow> sched_db \<Rightarrow> bool" where
  "otherChange db db' \<longleftrightarrow> sd_jobs db' = sd_jobs db \<and> sd_dispatch db' = sd_dispatch db \<and> sd_settings db' = sd_settings db"

text \<open>The root ids of a scope are \<open>int64\<close>.\<close>

definition scope64 :: "FairInventoryRoots \<Rightarrow> bool" where
  "scope64 scope \<longleftrightarrow> list_all (\<lambda>r. i64 (fi_id r)) (fr_roots scope)"

inductive sched_step :: "sched_store \<Rightarrow> sched_event \<Rightarrow> sched_store \<Rightarrow> bool" where
  enqueue: "EnqueueJob env s rootID kind path due = (e, t) \<Longrightarrow> rowidFresh env (sd_jobs (ss_db s)) \<Longrightarrow>
     sched_step s Quiet t"
| claim: "ClaimJob env s kinds now lease = (r, t) \<Longrightarrow> sched_step s (Lease (drawnToken env)) t"
| turn: "ClaimFairInventoryTurn env s scope now lease allowSource reservedAt = (r, t) \<Longrightarrow> scope64 scope \<Longrightarrow>
     sched_step s (Lease (drawnToken env)) t"
| finish: "FinishJob env s j finished cursor due lastError = (e, t) \<Longrightarrow>
     sched_step s (Finish (j_ID j) (j_Token j)) t"
| recover: "RecoverJobs env s now = (r, t) \<Longrightarrow> sched_step s Recovery t"
| pause: "SetPaused env s paused = (e, t) \<Longrightarrow> sched_step s Quiet t"
| reserve: "ReserveScanChunk env s now interval limit = (r, t) \<Longrightarrow> sched_step s Quiet t"
| other: "otherChange (ss_db s) db \<Longrightarrow> sched_step s Quiet (s\<lparr>ss_db := db\<rparr>)"

inductive_cases quiet_stepE: "sched_step s Quiet t"

inductive sched_run :: "sched_store \<Rightarrow> sched_event list \<Rightarrow> sched_store \<Rightarrow> bool" where
  stay: "sched_run s [] s"
| more: "sched_run s evs t \<Longrightarrow> sched_step t ev u \<Longrightarrow> sched_run s (evs @ [ev]) u"

abbreviation jobsOf :: "sched_store \<Rightarrow> job_entry list" where "jobsOf s \<equiv> sd_jobs (ss_db s)"

text \<open>What a step may do to the jobs.\<close>

definition jobsMove :: "sched_event \<Rightarrow> job_entry list \<Rightarrow> job_entry list \<Rightarrow> bool" where
  "jobsMove ev rows rows' \<longleftrightarrow> rows' = rows \<or>
     (case ev of
        Quiet \<Rightarrow> \<exists>r. rows' = rows @ [r] \<and> je_status r = Pending
      | Lease token \<Rightarrow> \<exists>until i. leaseMove token until i rows rows' \<and> metadataDigest token 32
      | Finish i token \<Rightarrow> \<exists>j finished cursor due e. j_ID j = i \<and> j_Token j = token \<and>
          rows' = finishRows j finished cursor due e rows \<and> length cursor \<le> MaxCursorBytes
      | Recovery \<Rightarrow> \<exists>now. rows' = recoveredJobs now rows)"

lemma SetPaused_frame:
  assumes "SetPaused env s paused = (e, t)"
  shows "sd_jobs (ss_db t) = sd_jobs (ss_db s)" "sd_dispatch (ss_db t) = sd_dispatch (ss_db s)"
    "sd_settings (ss_db t) fairInventoryCursorKey = sd_settings (ss_db s) fairInventoryCursorKey"
    "ss_id t = ss_id s \<and> ss_schema t = ss_schema s \<and> ss_readOnly t = ss_readOnly s \<and> ss_lock t = ss_lock s"
  using assms by (auto simp: SetPaused_def Let_def committed_def split: if_splits option.splits)

lemma Reserve_frame:
  assumes "ReserveScanChunk env s now interval limit = (r, t)"
  shows "sd_jobs (ss_db t) = sd_jobs (ss_db s)" "sd_settings (ss_db t) = sd_settings (ss_db s)"
  using assms
  by (auto simp: ReserveScanChunk_def Let_def committed_def split: if_splits option.splits prod.splits)

lemma claimSource_move:
  assumes "claimSource env schema db turn jobID n until = Inr (turn1, db1)" "jobsOk (sd_jobs db)"
  shows "leaseMove (drawnToken env) until jobID (sd_jobs db) (sd_jobs db1)"
    "sd_settings db1 = sd_settings db" "sd_dispatch db1 = sd_dispatch db" "sd_roots db1 = sd_roots db"
proof -
  obtain r where r: "r \<in> set (sd_jobs db)" "je_id r = jobID" "pendingScan (ft_RootID turn) r" "je_due r \<le> n"
    and f: "claimFrame (updateJobs (\<lambda>r. je_id r = jobID \<and> pendingScan (ft_RootID turn) r \<and> je_due r \<le> n)
       (leaseJob (drawnToken env) until) db) db1" by (rule claimSource_ok [OF assms(1)]) blast
  have "(je_id q = jobID \<and> pendingScan (ft_RootID turn) q \<and> je_due q \<le> n) = (je_id q = je_id r)"
    if "q \<in> set (sd_jobs db)" for q
    using jobsOk_unique [OF assms(2) that r(1)] r(2-4) by (cases "je_id q = je_id r") simp_all
  note lease = leaseMove_frame [OF f r(1) _ this]
  show "leaseMove (drawnToken env) until jobID (sd_jobs db) (sd_jobs db1)"
    using lease r(2,3) by (simp add: pendingScan_def)
  show "sd_settings db1 = sd_settings db" "sd_dispatch db1 = sd_dispatch db" "sd_roots db1 = sd_roots db"
    using f by (simp_all add: claimFrame_def updateJobs_def)
qed

lemma ClaimFair_move:
  assumes "ClaimFairInventoryTurn env s scope now lease allowSource reservedAt = (r, t)" "jobsOk (jobsOf s)"
  shows "jobsMove (Lease (drawnToken env)) (jobsOf s) (jobsOf t)"
proof -
  obtain res e where "r = (res, e)" by fastforce
  note call = assms(1) [unfolded this]
  show ?thesis
    using call
  proof (cases rule: ClaimFair_cases)
    case (claimed n reserved cursor sch jobID turn turn1 db1)
    then show ?thesis
      using claimSource_move(1) [of env "ss_schema s" "ss_db s" turn jobID n "add64 n lease" turn1 db1] assms(2)
      by (auto simp: jobsMove_def split: if_splits)
  qed (simp add: jobsMove_def)
qed

lemma step_move:
  assumes "sched_step s ev t" "jobsOk (jobsOf s)"
  shows "jobsMove ev (jobsOf s) (jobsOf t)"
  using assms(1)
proof cases
  case (enqueue env rootID kind path due e)
  from enqueue(2) show ?thesis
    by (cases rule: EnqueueJob_cases) (simp_all add: jobsMove_def enqueue(1) freshJob_def)
next
  case (claim env kinds now lease r)
  obtain res e where "r = (res, e)" by fastforce
  then show ?thesis using ClaimJob_move [of env s kinds now lease res e t] claim assms(2) by (auto simp: jobsMove_def)
next
  case (turn env scope now lease allowSource reservedAt r)
  then show ?thesis using ClaimFair_move assms(2) by blast
next
  case (finish env j finished cursor due lastError e)
  from finish(2) show ?thesis
  proof (cases rule: FinishJob_cases)
    case (applied v)
    then show ?thesis unfolding jobsMove_def finish(1) sched_event.case by (intro disjI2 exI [of _ j]) auto
  qed (simp add: jobsMove_def)
next
  case (recover env now r)
  obtain n e where "r = (n, e)" by fastforce
  from recover(2) [unfolded this] show ?thesis
    by (cases rule: RecoverJobs_cases) (auto simp: jobsMove_def recover(1))
next
  case (pause env paused e)
  then show ?thesis using SetPaused_frame by (simp add: jobsMove_def)
next
  case (reserve env now interval limit r)
  then show ?thesis using Reserve_frame by (simp add: jobsMove_def)
next
  case (other db)
  then show ?thesis by (simp add: jobsMove_def otherChange_def)
qed

section \<open>The invariant\<close>

lemma step_jobsOk:
  assumes "sched_step s ev t" "jobsOk (jobsOf s)"
  shows "jobsOk (jobsOf t)"
proof (cases "\<exists>env rootID kind path due e. EnqueueJob env s rootID kind path due = (e, t) \<and> rowidFresh env (jobsOf s)")
  case True
  then show ?thesis using EnqueueJob_ok assms(2) by blast
next
  case False
  show ?thesis
  proof (cases "jobsOf t = jobsOf s")
    case changed: False
    show ?thesis
    proof (cases ev)
      case Quiet
      from assms(1) [unfolded Quiet] have "jobsOf t = jobsOf s"
        by (rule quiet_stepE) (use False SetPaused_frame(1) Reserve_frame(1) in \<open>blast | simp add: otherChange_def\<close>)+
      then show ?thesis using changed by blast
    next
      case (Lease token)
      then show ?thesis using step_move [OF assms] changed leaseMove_ok assms(2) by (auto simp: jobsMove_def)
    next
      case (Finish i token)
      then show ?thesis using step_move [OF assms] changed finishRows_ok assms(2) by (auto simp: jobsMove_def)
    next
      case Recovery
      then show ?thesis using step_move [OF assms] changed recoveredJobs_ok assms(2) by (auto simp: jobsMove_def)
    qed
  qed (use assms in simp)
qed

lemma run_jobsOk: "sched_run s evs t \<Longrightarrow> jobsOk (jobsOf s) \<Longrightarrow> jobsOk (jobsOf t)"
  by (induction rule: sched_run.induct) (auto intro: step_jobsOk)

section \<open>Leases\<close>

lemma heldBy_sameButClaim: "sameButClaim a b \<Longrightarrow> heldBy i token a \<longleftrightarrow> heldBy i token b"
  using sameButClaim_fields [of a b] by (simp add: heldBy_def)

lemma held_finish: "held i token (finishRows j finished cursor due e rows) \<Longrightarrow> held i token rows"
  by (auto simp: held_def finishRows_def heldBy_def Let_def split: if_splits)

lemma held_recover: "\<not> held i token (recoveredJobs now rows)"
  by (auto simp: held_def recoveredJobs_def heldBy_def split: if_splits)

text \<open>A lease appears only where a claim drew its token.\<close>

lemma step_held:
  assumes "sched_step s ev t" "jobsOk (jobsOf s)" "held i token (jobsOf t)"
  shows "held i token (jobsOf s) \<or> ev = Lease token"
proof (cases "jobsOf t = jobsOf s")
  case changed: False
  note move = step_move [OF assms(1,2)] changed assms(3)
  show ?thesis
  proof (cases ev)
    case Quiet
    then show ?thesis using move by (auto simp: jobsMove_def held_def heldBy_def)
  next
    case (Lease tok)
    then obtain until k g where g: "jobsOf t = map g (jobsOf s)"
        "\<And>r. r \<in> set (jobsOf s) \<Longrightarrow> sameButClaim (g r) (if je_id r = k then leaseJob tok until r else r)"
      using move by (auto simp: jobsMove_def leaseMove_def)
    obtain r where r: "r \<in> set (jobsOf s)" "heldBy i token (g r)" using assms(3) by (auto simp: held_def g(1))
    then have "heldBy i token (if je_id r = k then leaseJob tok until r else r)" using heldBy_sameButClaim g(2) by blast
    then show ?thesis using r(1) Lease by (auto simp: held_def heldBy_def split: if_splits)
  next
    case (Finish k tok)
    then show ?thesis using move held_finish by (auto simp: jobsMove_def)
  next
    case Recovery
    then show ?thesis using move held_recover by (auto simp: jobsMove_def)
  qed
qed (use assms in simp)

text \<open>What a holder relies on while it works: key, cursor, attempt count and lease of its row.\<close>

definition sameWork :: "job_entry \<Rightarrow> job_entry \<Rightarrow> bool" where
  "sameWork a b \<longleftrightarrow> jobKey a = jobKey b \<and> je_cursor a = je_cursor b \<and> je_attempts a = je_attempts b \<and> je_until a = je_until b"

lemma sameWork_refl [simp]: "sameWork a a"
  by (simp add: sameWork_def)

lemma sameWork_trans: "sameWork a b \<Longrightarrow> sameWork b c \<Longrightarrow> sameWork a c"
  by (simp add: sameWork_def)

lemma step_keeps_held:
  assumes "sched_step s ev t" "jobsOk (jobsOf s)" "r \<in> set (jobsOf s)" "heldBy i token r"
    "ev \<noteq> Recovery" "ev \<noteq> Finish i token"
  shows "\<exists>r'\<in>set (jobsOf t). heldBy i token r' \<and> sameWork r r'"
proof (cases "jobsOf t = jobsOf s")
  case changed: False
  note move = step_move [OF assms(1,2)] changed
  show ?thesis
  proof (cases ev)
    case Quiet
    then show ?thesis using move assms(3,4) by (auto simp: jobsMove_def)
  next
    case (Lease tok)
    then obtain until k where lease: "leaseMove tok until k (jobsOf s) (jobsOf t)" using move by (auto simp: jobsMove_def)
    obtain q where q: "q \<in> set (jobsOf s)" "je_id q = k" "je_status q = Pending" using lease unfolding leaseMove_def by blast
    obtain g where g: "jobsOf t = map g (jobsOf s)"
        "\<And>r. r \<in> set (jobsOf s) \<Longrightarrow> sameButClaim (g r) (if je_id r = k then leaseJob tok until r else r)"
      using lease unfolding leaseMove_def by blast
    have "je_id r \<noteq> k" using jobsOk_unique [OF assms(2,3) q(1)] q assms(4) by (auto simp: heldBy_def)
    then have b: "sameButClaim (g r) r" using g(2) [OF assms(3)] by simp
    have "heldBy i token (g r) \<and> sameWork r (g r)"
      using heldBy_sameButClaim [OF b] sameButClaim_fields [OF b] assms(4) by (simp add: sameWork_def)
    then show ?thesis using assms(3) g(1) by auto
  next
    case (Finish k tok)
    then obtain j finished cursor due e where j: "j_ID j = k" "j_Token j = tok"
        "jobsOf t = finishRows j finished cursor due e (jobsOf s)"
      using move by (auto simp: jobsMove_def)
    have "\<not> heldBy (j_ID j) (j_Token j) r" using assms(4,6) Finish j by (auto simp: heldBy_def)
    then have "r \<in> set (jobsOf t)"
      using assms(3) unfolding j(3) finishRows_def Let_def by (force simp: image_iff)
    then show ?thesis using assms(4) by auto
  qed (use assms in simp)
qed (use assms in auto)

section \<open>The rotation cursor\<close>

definition savedCursor :: "sched_db \<Rightarrow> err + fairInventoryCursor" where
  "savedCursor db =
     (case sd_settings db fairInventoryCursorKey of
        None \<Rightarrow> Inr \<lparr>fc_root = 0, fc_dispatch = 0\<rparr>
      | Some v \<Rightarrow> if \<not> sg_blob v \<or> length (sg_value v) > 43 then Inl ErrFairInventoryCorrupt
                  else parseCursor (sg_value v))"

definition cursorLevel :: "sched_db \<Rightarrow> int" where
  "cursorLevel db = (case savedCursor db of Inl _ \<Rightarrow> 0 | Inr c \<Rightarrow> fc_dispatch c)"

lemma readCursor_saved: "readFairInventoryCursor env k db = Inr c \<Longrightarrow> savedCursor db = Inr c"
  by (auto simp: readFairInventoryCursor_def savedCursor_def split: option.splits)

lemma digitsNat_length: "n < 10 ^ w \<Longrightarrow> 0 < w \<Longrightarrow> length (digitsNat n) \<le> w"
  using arg_cong [OF zeroPad_fixed [of n w], of length] by (simp add: zeroPad_def)

lemma digits_no_colon: "CHR '':'' \<notin> set (digitsNat n)"
  using digitsNat_digits [of n] digit_not_special(3) by (auto simp: list_all_iff)

lemma FormatInt_nat: "0 \<le> n \<Longrightarrow> FormatInt n = digitsNat (nat n)"
  by (simp add: FormatInt_def)

lemma cursorValue_Format: "0 \<le> n \<Longrightarrow> i64 n \<Longrightarrow> cursorValue (FormatInt n) = Some n"
  by (simp add: cursorValue_def ParseInt_FormatInt)

lemma cursorText_parse:
  assumes "0 < root" "0 < dispatch" "i64 root" "i64 dispatch"
  shows "parseCursor (cursorText root dispatch) = Inr \<lparr>fc_root = root, fc_dispatch = dispatch\<rparr>"
    "length (cursorText root dispatch) \<le> 43"
proof -
  have t: "cursorText root dispatch = ''1'' @ CHR '':'' # digitsNat (nat root) @ CHR '':'' # digitsNat (nat dispatch)"
    using assms by (simp add: cursorText_def FormatInt_nat)
  have "splitOn CHR '':'' (cursorText root dispatch) = [''1'', digitsNat (nat root), digitsNat (nat dispatch)]"
    unfolding t by (subst splitOn_append, simp, subst splitOn_append, rule digits_no_colon)
      (simp add: splitOn_plain digits_no_colon)
  then have "splitOn CHR '':'' (cursorText root dispatch) = [''1'', FormatInt root, FormatInt dispatch]"
    using assms by (simp add: FormatInt_nat)
  then show "parseCursor (cursorText root dispatch) = Inr \<lparr>fc_root = root, fc_dispatch = dispatch\<rparr>"
    using assms by (simp add: parseCursor_def cursorValue_Format)
  have "nat root < 10 ^ 19" "nat dispatch < 10 ^ 19" using assms by (simp_all add: i64_def)
  then show "length (cursorText root dispatch) \<le> 43"
    using digitsNat_length [of "nat root" 19] digitsNat_length [of "nat dispatch" 19] unfolding t by simp
qed

end
