(* ===== verification/Fair_Turns_Laws.thy ===== *)
theory Fair_Turns_Laws
  imports Sched_Laws
begin

text \<open>
  The selection of a turn: the binary search finds the place after the root served last, the order of
  the visit is the rotation of the scope from there, and the turn goes to the first root of that
  order that has work to offer. Then what a claim does to the cursor.
\<close>

section \<open>The order of the visit\<close>

lemma searchFrom_least:
  assumes "\<And>a b. a \<le> b \<Longrightarrow> b < j \<Longrightarrow> f a \<Longrightarrow> f b" "i \<le> j"
  shows "i \<le> searchFrom i j f \<and> searchFrom i j f \<le> j \<and>
     (\<forall>a. i \<le> a \<longrightarrow> a < searchFrom i j f \<longrightarrow> \<not> f a) \<and> (\<forall>a. searchFrom i j f \<le> a \<longrightarrow> a < j \<longrightarrow> f a)"
  using assms
proof (induction i j f rule: searchFrom.induct)
  case (1 i j f)
  show ?case
  proof (cases "i < j")
    case True
    define h where "h = (i + j) div 2"
    have h: "i \<le> h" "h < j" using True by (auto simp: h_def)
    show ?thesis
    proof (cases "f h")
      case t: True
      have eq: "searchFrom i j f = searchFrom i h f" using True t by (simp add: searchFrom.simps [of i j f] h_def Let_def)
      have ih: "i \<le> searchFrom i h f \<and> searchFrom i h f \<le> h \<and>
          (\<forall>a. i \<le> a \<longrightarrow> a < searchFrom i h f \<longrightarrow> \<not> f a) \<and> (\<forall>a. searchFrom i h f \<le> a \<longrightarrow> a < h \<longrightarrow> f a)"
        using "1.IH"(2) [OF True h_def] t h "1.prems"(1) by (meson less_trans)
      have "f a" if "h \<le> a" "a < j" for a using "1.prems"(1) [OF that t] .
      then show ?thesis using ih h unfolding eq by (meson le_less_trans less_imp_le not_le)
    next
      case f: False
      have eq: "searchFrom i j f = searchFrom (h + 1) j f" using True f by (simp add: searchFrom.simps [of i j f] h_def Let_def)
      have ih: "h + 1 \<le> searchFrom (h + 1) j f \<and> searchFrom (h + 1) j f \<le> j \<and>
          (\<forall>a. h + 1 \<le> a \<longrightarrow> a < searchFrom (h + 1) j f \<longrightarrow> \<not> f a) \<and> (\<forall>a. searchFrom (h + 1) j f \<le> a \<longrightarrow> a < j \<longrightarrow> f a)"
        using "1.IH"(1) [OF True h_def] f h "1.prems"(1) by simp
      have below: "\<not> f a" if "a \<le> h" for a using "1.prems"(1) [OF that h(2)] f by blast
      have "\<not> f a" if "a < searchFrom (h + 1) j f" for a using that ih below by (cases "a \<le> h") simp_all
      then show ?thesis using ih h unfolding eq by simp
    qed
  next
    case False
    have "searchFrom i j f = i" using False by (simp add: searchFrom.simps [of i j f])
    moreover have "i = j" using False "1.prems"(2) by simp
    ultimately show ?thesis by simp
  qed
qed

lemma scopeOrdered_sorted:
  "scopeOrdered p roots \<Longrightarrow> sorted_wrt (<) (map fi_id roots) \<and> (\<forall>r\<in>set roots. p < fi_id r)"
  by (induction p roots rule: scopeOrdered.induct) auto

text \<open>For an ordered scope the visit is: the roots after the one served last, then the others.\<close>

lemma turnOrder_split:
  assumes "sorted_wrt (<) (map fi_id roots)"
  shows "turnOrder roots served = filter (\<lambda>r. served < fi_id r) roots @ filter (\<lambda>r. \<not> served < fi_id r) roots"
proof -
  let ?n = "length roots" let ?f = "\<lambda>i. fi_id (roots ! i) > served"
  define st where "st = sortSearch ?n ?f"
  have mono: "?f b" if "a \<le> b" "b < ?n" "?f a" for a b
  proof (cases "a = b")
    case False
    then have "fi_id (roots ! a) < fi_id (roots ! b)" using assms that by (simp add: sorted_wrt_iff_nth_less)
    then show ?thesis using that by linarith
  qed (use that in simp)
  have s: "searchFrom 0 ?n ?f \<le> ?n" "\<forall>a. a < searchFrom 0 ?n ?f \<longrightarrow> \<not> ?f a" "\<forall>a. searchFrom 0 ?n ?f \<le> a \<longrightarrow> a < ?n \<longrightarrow> ?f a"
    using searchFrom_least [of ?n ?f 0] mono by blast+
  have st: "st \<le> ?n" "\<And>a. a < st \<Longrightarrow> \<not> ?f a" "\<And>a. st \<le> a \<Longrightarrow> a < ?n \<Longrightarrow> ?f a"
    using s unfolding st_def sortSearch_def by blast+
  have lo: "filter (\<lambda>r. served < fi_id r) (take st roots) = []" "filter (\<lambda>r. \<not> served < fi_id r) (take st roots) = take st roots"
    using st(1,2) by (auto simp: filter_empty_conv filter_id_conv in_set_conv_nth)
  have hi: "filter (\<lambda>r. served < fi_id r) (drop st roots) = drop st roots" "filter (\<lambda>r. \<not> served < fi_id r) (drop st roots) = []"
    using st(1,3) by (auto simp: filter_empty_conv filter_id_conv in_set_conv_nth)
  have "map (\<lambda>i. roots ! ((st + i) mod ?n)) [0..<?n] = drop st roots @ take st roots"
  proof (rule nth_equalityI)
    fix i assume "i < length (map (\<lambda>i. roots ! ((st + i) mod ?n)) [0..<?n])"
    then have i: "i < ?n" by simp
    show "map (\<lambda>i. roots ! ((st + i) mod ?n)) [0..<?n] ! i = (drop st roots @ take st roots) ! i"
    proof (cases "i < ?n - st")
      case True
      then show ?thesis using i by (simp add: nth_append)
    next
      case False
      then have "(st + i) mod ?n = st + i - ?n" using i st(1) le_mod_geq [of ?n "st + i"] by simp
      then show ?thesis using False i st(1) by (simp add: nth_append add.commute)
    qed
  qed (use st(1) in simp)
  then have "turnOrder roots served = drop st roots @ take st roots" by (simp add: turnOrder_def st_def Let_def)
  moreover have "filter (\<lambda>r. served < fi_id r) roots = drop st roots" "filter (\<lambda>r. \<not> served < fi_id r) roots = take st roots"
    using lo hi filter_append [of _ "take st roots" "drop st roots"] by (metis append_Nil append_Nil2 append_take_drop_id)+
  ultimately show ?thesis by simp
qed

section \<open>What a root offers\<close>

definition maintenanceLeft :: "sched_db \<Rightarrow> int \<Rightarrow> bool" where
  "maintenanceLeft db rootID \<longleftrightarrow>
     rootID \<in> set (sd_reconcile db) \<or> rootID \<in> set (sd_retirement db) \<or> rootID \<in> set (sd_compact db) \<or>
     (\<exists>c\<in>set (sd_cache db). cr_root c = rootID \<and>
        (\<not> cr_done c \<or> (\<forall>v. sd_revisions db rootID = Some v \<longrightarrow> cr_revision c \<noteq> rv_revision v)))"

definition sourceDue :: "sched_db \<Rightarrow> int \<Rightarrow> int \<Rightarrow> bool" where
  "sourceDue db now rootID \<longleftrightarrow> (\<exists>r\<in>set (sd_jobs db). pendingScan rootID r \<and> je_due r \<le> now)"

definition offersTurn :: "sched_db \<Rightarrow> int \<Rightarrow> bool \<Rightarrow> int \<Rightarrow> bool" where
  "offersTurn db now allowSource rootID \<longleftrightarrow> rootEnabled db rootID \<and>
     (allowSource \<and> sourceDue db now rootID \<or>
      \<not> (\<exists>r\<in>set (sd_jobs db). je_root r = rootID \<and> je_kind r = ScanKind) \<and> maintenanceLeft db rootID)"

lemma maintenance_answer:
  assumes "fairInventoryMaintenanceRemaining env k db rootID = Inr b"
  shows "b = maintenanceLeft db rootID"
proof -
  obtain proofs where p: "inventoryRetirementRemaining env k db rootID = Inr proofs"
    using assms by (auto simp: fairInventoryMaintenanceRemaining_def split: sum.splits)
  have "proofs \<longleftrightarrow> rootID \<in> set (sd_reconcile db) \<or> rootID \<in> set (sd_retirement db)"
    using p by (auto simp: inventoryRetirementRemaining_def split: option.splits if_splits)
  moreover have "b = (proofs \<or> rootID \<in> set (sd_compact db) \<or> list_ex (\<lambda>c. \<not> cr_done c) (cacheRows db rootID) \<or>
      (case sd_revisions db rootID of None \<Rightarrow> cacheRows db rootID \<noteq> []
       | Some v \<Rightarrow> list_ex (\<lambda>c. cr_revision c < rv_revision v) (cacheRows db rootID) \<or>
           list_ex (\<lambda>c. cr_revision c > rv_revision v) (cacheRows db rootID)))"
    using assms unfolding fairInventoryMaintenanceRemaining_def p sum.case Let_def
    by (cases "sd_revisions db rootID") (simp_all split: option.splits if_splits)
  moreover have "(case sd_revisions db rootID of None \<Rightarrow> cacheRows db rootID \<noteq> []
       | Some v \<Rightarrow> list_ex (\<lambda>c. cr_revision c < rv_revision v) (cacheRows db rootID) \<or>
           list_ex (\<lambda>c. cr_revision c > rv_revision v) (cacheRows db rootID)) \<longleftrightarrow>
      (\<exists>c\<in>set (sd_cache db). cr_root c = rootID \<and> (\<forall>v. sd_revisions db rootID = Some v \<longrightarrow> cr_revision c \<noteq> rv_revision v))"
    by (cases "sd_revisions db rootID") (auto simp: cacheRows_def list_ex_iff filter_empty_conv neq_iff)
  moreover have "list_ex (\<lambda>c. \<not> cr_done c) (cacheRows db rootID) \<longleftrightarrow> (\<exists>c\<in>set (sd_cache db). cr_root c = rootID \<and> \<not> cr_done c)"
    by (auto simp: cacheRows_def list_ex_iff)
  ultimately show ?thesis unfolding maintenanceLeft_def by blast
qed

lemma earliest_due:
  assumes "earliest (filter P rows) = Some r"
  shows "je_due r \<le> now \<longleftrightarrow> (\<exists>q\<in>set rows. P q \<and> je_due q \<le> now)"
  using earliest_Some [OF assms] by (force simp: jobBefore_def)

lemma noteSource_turn:
  "sc_Turn (fst (noteSource now allowSource root r acc)) =
     (if sc_Turn (fst acc) = None \<and> allowSource \<and> je_due r \<le> now then Some (newTurn root TSource) else sc_Turn (fst acc))"
  by (cases acc) (auto simp: noteSource_def Let_def)

lemma noteSource_job:
  "snd (noteSource now allowSource root r acc) =
     (if sc_Turn (fst acc) = None \<and> allowSource \<and> je_due r \<le> now then je_id r else snd acc)"
  by (cases acc) (auto simp: noteSource_def Let_def)

text \<open>Which kind of turn a root that offers one gets, and the job of a source turn.\<close>

definition offeredTurn :: "sched_db \<Rightarrow> int \<Rightarrow> bool \<Rightarrow> fairInventoryRoot \<Rightarrow> FairInventoryTurn" where
  "offeredTurn db now allowSource root =
     newTurn root (if allowSource \<and> sourceDue db now (fi_id root) then TSource else TMaintenance)"

definition offeredJob :: "sched_db \<Rightarrow> int \<Rightarrow> bool \<Rightarrow> fairInventoryRoot \<Rightarrow> int \<Rightarrow> int" where
  "offeredJob db now allowSource root old =
     (if allowSource \<and> sourceDue db now (fi_id root)
      then case earliest (filter (pendingScan (fi_id root)) (sd_jobs db)) of None \<Rightarrow> old | Some r \<Rightarrow> je_id r else old)"

lemma addDormant_turn [simp]: "sc_Turn (addDormant root sch) = sc_Turn sch"
  by (simp add: addDormant_def)

lemma visitRoot_turn:
  assumes "visitRoot env k db now allowSource root acc = Inr acc'"
  shows "if sc_Turn (fst acc) = None \<and> offersTurn db now allowSource (fi_id root)
     then sc_Turn (fst acc') = Some (offeredTurn db now allowSource root) \<and> snd acc' = offeredJob db now allowSource root (snd acc)
     else sc_Turn (fst acc') = sc_Turn (fst acc) \<and> snd acc' = snd acc"
proof -
  let ?first = "earliest (filter (pendingScan (fi_id root)) (sd_jobs db))"
  let ?acc1 = "case ?first of None \<Rightarrow> acc | Some r \<Rightarrow> noteSource now allowSource root r acc"
  have due: "sourceDue db now (fi_id root) \<longleftrightarrow> (\<exists>r. ?first = Some r \<and> je_due r \<le> now)"
  proof (cases ?first)
    case None
    then show ?thesis by (auto simp: sourceDue_def filter_empty_conv)
  next
    case (Some r)
    then show ?thesis using earliest_due [OF Some, of now] by (simp add: sourceDue_def)
  qed
  have one: "sc_Turn (fst ?acc1) = (if sc_Turn (fst acc) = None \<and> allowSource \<and> sourceDue db now (fi_id root)
        then Some (newTurn root TSource) else sc_Turn (fst acc))"
      "snd ?acc1 = (if sc_Turn (fst acc) = None then offeredJob db now allowSource root (snd acc) else snd acc)"
    unfolding due by (auto simp: noteSource_turn noteSource_job offeredJob_def due split: option.splits)
  obtain q where q: "rootRow db (fi_id root) = Some q" and en: "re_enabled q = 0 \<or> re_enabled q = 1"
    using assms by (auto simp: visitRoot_def split: option.splits if_splits)
  let ?busy = "list_ex (\<lambda>r. je_root r = fi_id root \<and> je_kind r = ScanKind) (sd_jobs db)"
  have busy: "?busy \<longleftrightarrow> (\<exists>r\<in>set (sd_jobs db). je_root r = fi_id root \<and> je_kind r = ScanKind)" by (auto simp: list_ex_iff)
  have src: "sourceDue db now (fi_id root) \<Longrightarrow> ?busy" by (auto simp: sourceDue_def pendingScan_def list_ex_iff)
  show ?thesis
  proof (cases "re_enabled q = 0")
    case True
    then have "acc' = (addDormant root (fst acc), snd acc)" using assms q
      by (auto simp: visitRoot_def split: option.splits if_splits)
    then show ?thesis using True q by (simp add: offersTurn_def rootEnabled_def)
  next
    case False
    then have on: "rootEnabled db (fi_id root)" using en q by (simp add: rootEnabled_def)
    show ?thesis
    proof (cases ?busy)
      case True
      then have "acc' = ?acc1" using assms q False
        unfolding visitRoot_def Let_def by (cases ?first) (simp_all split: option.splits if_splits)
      then show ?thesis using one on True busy by (simp add: offersTurn_def offeredTurn_def offeredJob_def)
    next
      case idle: False
      then obtain b where b: "fairInventoryMaintenanceRemaining env (k + 3) db (fi_id root) = Inr b"
        using assms q False unfolding visitRoot_def Let_def by (cases ?first) (simp_all split: option.splits if_splits sum.splits)
      let ?sch = "addDormant root (fst ?acc1)"
      have "acc' = (if b \<and> sc_Turn ?sch = None then ?sch\<lparr>sc_Turn := Some (newTurn root TMaintenance)\<rparr> else ?sch, snd ?acc1)"
        using assms q False idle b unfolding visitRoot_def Let_def by (cases ?first) (auto split: option.splits if_splits)
      then show ?thesis
        using one on idle busy src maintenance_answer [OF b] by (simp add: offersTurn_def offeredTurn_def offeredJob_def)
    qed
  qed
qed

text \<open>The turn of a whole visit goes to the first root that offers one.\<close>

lemma visitRoots_turn:
  assumes "visitRoots env k db now allowSource roots acc = Inr acc'" "sc_Turn (fst acc) = None"
  shows "case find (\<lambda>r. offersTurn db now allowSource (fi_id r)) roots of
       None \<Rightarrow> sc_Turn (fst acc') = None
     | Some r \<Rightarrow> sc_Turn (fst acc') = Some (offeredTurn db now allowSource r) \<and>
         snd acc' = offeredJob db now allowSource r (snd acc)"
proof -
  have keep: "sc_Turn (fst b) = sc_Turn (fst a) \<and> snd b = snd a"
    if "visitRoots env k db now allowSource rs a = Inr b" "sc_Turn (fst a) \<noteq> None" for k rs a b
    using that
  proof (induction rs arbitrary: k a)
    case (Cons r rs)
    then obtain c where c: "visitRoot env k db now allowSource r a = Inr c" "visitRoots env (k + 7) db now allowSource rs c = Inr b"
      by (auto split: sum.splits)
    show ?case using visitRoot_turn [OF c(1)] Cons.IH [OF c(2)] Cons.prems(2) by simp
  qed simp
  show ?thesis using assms
  proof (induction roots arbitrary: k acc)
    case (Cons r roots)
    then obtain c where c: "visitRoot env k db now allowSource r acc = Inr c" "visitRoots env (k + 7) db now allowSource roots c = Inr acc'"
      by (auto split: sum.splits)
    show ?case
    proof (cases "offersTurn db now allowSource (fi_id r)")
      case True
      then show ?thesis using visitRoot_turn [OF c(1)] keep [OF c(2)] Cons.prems(2) by simp
    next
      case False
      then have k: "sc_Turn (fst c) = None" "snd c = snd acc" using visitRoot_turn [OF c(1)] Cons.prems(2) by simp_all
      show ?thesis using Cons.IH [OF c(2) k(1)] False unfolding k(2) by simp
    qed
  qed simp
qed

lemma select_turn:
  assumes "selectFairInventoryTurn env db scope now allowSource cursor = Inr (sch, jobID)" "sc_Turn sch = Some turn"
  obtains r where "find (\<lambda>r. offersTurn db now allowSource (fi_id r)) (turnOrder (fr_roots scope) (fc_root cursor)) = Some r"
    "turn = offeredTurn db now allowSource r" "jobID = offeredJob db now allowSource r 0"
proof -
  have v: "visitRoots env 20 db now allowSource (turnOrder (fr_roots scope) (fc_root cursor)) (zeroSchedule, 0) = Inr (sch, jobID)"
    using assms(1) by (auto simp: selectFairInventoryTurn_def split: sum.splits option.splits)
  have "sc_Turn (fst (zeroSchedule, 0 :: int)) = None" by (simp add: zeroSchedule_def)
  from visitRoots_turn [OF v this] assms(2) that show thesis by (auto split: option.splits)
qed

section \<open>What a claim does to the cursor\<close>

lemma fairInventoryNow_ok:
  assumes "fairInventoryNow env now = Inr n"
  shows "n = t_ns now" "0 < n" "i64 n"
  using assms wrap64_eq_iff [of "t_ns now"]
  by (auto simp: fairInventoryNow_def Let_def tEqual_def unixNano_def split: if_splits option.splits)

lemma claimInput_ok:
  assumes "claimInput env s scope now lease reservedAt = Inr (n, reserved)"
  shows "n = t_ns now" "reserved = t_ns reservedAt" "0 < reserved" "reserved \<le> n" "i64 n" "i64 reserved" "0 < lease"
    "lease \<le> 48 * hour_ns" "n + lease \<le> maxInt64" "validFairScope s scope" "n - reserved < 2 * second_ns" "n - reserved < lease"
proof -
  have now: "fairInventoryNow env now = Inr n" and res: "fairInventoryNow env reservedAt = Inr reserved"
    and c: "\<not> reserved > n" "0 < lease" "lease \<le> 48 * hour_ns" "\<not> n > sub64 maxInt64 lease" "validFairScope s scope"
      "\<not> sub64 n reserved \<ge> min lease FairInventoryClaimWindow"
    using assms by (auto simp: claimInput_def split: sum.splits if_splits)
  note a = fairInventoryNow_ok [OF now] and b = fairInventoryNow_ok [OF res]
  show "n = t_ns now" "reserved = t_ns reservedAt" "0 < reserved" "reserved \<le> n" "i64 n" "i64 reserved" "0 < lease"
    "lease \<le> 48 * hour_ns" "validFairScope s scope" using a b c by simp_all
  show "n + lease \<le> maxInt64" using c(2-4) by (simp add: headroom64 i64_def)
  show "n - reserved < 2 * second_ns" "n - reserved < lease" using a b c(6) by simp_all
qed

lemma turnOrder_set: "sorted_wrt (<) (map fi_id roots) \<Longrightarrow> set (turnOrder roots c) = set roots"
  by (auto simp: turnOrder_split)

lemma validFairScope_roots:
  assumes "validFairScope s scope"
  shows "sorted_wrt (<) (map fi_id (fr_roots scope))" "\<And>r. r \<in> set (fr_roots scope) \<Longrightarrow> 0 < fi_id r"
  using assms scopeOrdered_sorted [of 0 "fr_roots scope"] by (auto simp: validFairScope_def)

lemma offeredTurn_root [simp]:
  "ft_RootID (offeredTurn db now allow r) = fi_id r" "ft_RootPath (offeredTurn db now allow r) = fi_path r"
  by (simp_all add: offeredTurn_def newTurn_def)

text \<open>The root that gets the turn of a claim at \<open>now\<close>, as a function of the saved state.\<close>

definition nextRoot :: "FairInventoryRoots \<Rightarrow> sched_db \<Rightarrow> int \<Rightarrow> bool \<Rightarrow> int \<Rightarrow> fairInventoryRoot option" where
  "nextRoot scope db now allowSource served =
     find (\<lambda>r. offersTurn db now allowSource (fi_id r)) (turnOrder (fr_roots scope) served)"

text \<open>A claim leaves the store as it is, or moves the cursor to the next root and its own receipt.\<close>

lemma ClaimFair_cursor:
  assumes "ClaimFairInventoryTurn env s scope now lease allowSource reservedAt = ((res, e), t)" "scope64 scope" "jobsOk (jobsOf s)"
  obtains (unchanged) "t = s" "res = None"
  | (moved) c r d where "savedCursor (ss_db s) = Inr c" "nextRoot scope (ss_db s) (t_ns now) allowSource (fc_root c) = Some r"
      "savedCursor (ss_db t) = Inr \<lparr>fc_root = fi_id r, fc_dispatch = t_ns reservedAt\<rparr>" "fc_dispatch c < t_ns reservedAt"
      "sd_dispatch (ss_db s) = Some d" "d_last d = t_ns reservedAt" "sd_dispatch (ss_db t) = Some d" "r \<in> set (fr_roots scope)"
      "res = None \<or> (\<exists>turn. res = Some turn \<and> ft_RootID turn = fi_id r)" "validFairScope s scope" "t_ns reservedAt \<le> t_ns now"
  using assms(1)
proof (cases rule: ClaimFair_cases)
  case (claimed n reserved cursor sch jobID turn turn1 db1)
  note inp = claimInput_ok [OF claimed(1)]
  note scope = validFairScope_roots [OF inp(10)]
  obtain r where r: "find (\<lambda>r. offersTurn (ss_db s) n allowSource (fi_id r)) (turnOrder (fr_roots scope) (fc_root cursor)) = Some r"
      "turn = offeredTurn (ss_db s) n allowSource r"
    by (rule select_turn [OF claimed(4,5)])
  have mem: "r \<in> set (fr_roots scope)" using find_member [OF r(1)] turnOrder_set [OF scope(1)] by blast
  have db1: "sd_settings db1 = sd_settings (ss_db s)" "sd_dispatch db1 = sd_dispatch (ss_db s)" "ft_RootID turn1 = ft_RootID turn"
  proof -
    have "sd_settings db1 = sd_settings (ss_db s) \<and> sd_dispatch db1 = sd_dispatch (ss_db s) \<and> ft_RootID turn1 = ft_RootID turn"
    proof (cases "ft_Kind turn = TSource")
      case True
      then have c: "claimSource env (ss_schema s) (ss_db s) turn jobID n (add64 n lease) = Inr (turn1, db1)" using claimed(6) by simp
      have "ft_RootID turn1 = ft_RootID turn" by (rule claimSource_ok [OF c]) simp
      then show ?thesis using claimSource_move(2,3) [OF c assms(3)] by blast
    qed (use claimed(6) in simp)
    then show "sd_settings db1 = sd_settings (ss_db s)" "sd_dispatch db1 = sd_dispatch (ss_db s)" "ft_RootID turn1 = ft_RootID turn"
      by blast+
  qed
  have pos: "0 < fi_id r" "i64 (fi_id r)" using scope(2) [OF mem] assms(2) mem by (simp_all add: scope64_def list_all_iff)
  have "savedCursor (ss_db t) = Inr \<lparr>fc_root = fi_id r, fc_dispatch = reserved\<rparr>"
    using cursorText_parse [OF pos(1) inp(3) pos(2) inp(6)] claimed(7) r(2) by (simp add: savedCursor_def)
  moreover obtain d where d: "sd_dispatch (ss_db s) = Some d" "d_last d = reserved" "fc_dispatch cursor < reserved"
    using claimed(3) by (auto simp: receiptUnused_def split: option.splits if_splits)
  ultimately show thesis
    using moved [OF readCursor_saved [OF claimed(2)], of r d] r inp(1,2,4,10) mem db1 claimed(7,8) by (force simp: nextRoot_def)
qed (use unchanged in blast)

section \<open>Rotation\<close>

text \<open>Whether root \<open>x\<close> is visited before root \<open>q\<close> when the visit starts after \<open>c\<close>.\<close>

definition visitedBefore :: "int \<Rightarrow> int \<Rightarrow> int \<Rightarrow> bool" where
  "visitedBefore c x q \<longleftrightarrow> (if c < q then c < x \<and> x < q else c < x \<or> x < q)"

definition turnsAhead :: "fairInventoryRoot list \<Rightarrow> int \<Rightarrow> int \<Rightarrow> nat" where
  "turnsAhead roots c q = card {x \<in> fi_id ` set roots. visitedBefore c x q}"

lemma turnOrder_before:
  assumes "sorted_wrt (<) (map fi_id roots)"
  shows "sorted_wrt (\<lambda>x y. visitedBefore c (fi_id x) (fi_id y)) (turnOrder roots c)"
proof -
  have s: "sorted_wrt (\<lambda>x y. fi_id x < fi_id y) roots" using assms by (simp add: sorted_wrt_map)
  have "sorted_wrt (\<lambda>x y. visitedBefore c (fi_id x) (fi_id y)) (filter (\<lambda>r. c < fi_id r) roots)"
    "sorted_wrt (\<lambda>x y. visitedBefore c (fi_id x) (fi_id y)) (filter (\<lambda>r. \<not> c < fi_id r) roots)"
    using s by (induction roots) (auto simp: visitedBefore_def)
  then show ?thesis unfolding turnOrder_split [OF assms] by (auto simp: sorted_wrt_append visitedBefore_def)
qed

lemma find_split: "find P xs = Some r \<Longrightarrow> \<exists>us vs. xs = us @ r # vs \<and> P r \<and> (\<forall>u\<in>set us. \<not> P u)"
proof (induction xs)
  case (Cons x xs)
  show ?case
  proof (cases "P x")
    case True
    then show ?thesis using Cons.prems by (intro exI [of _ "[]"] exI [of _ xs]) simp
  next
    case False
    then obtain us vs where "xs = us @ r # vs \<and> P r \<and> (\<forall>u\<in>set us. \<not> P u)" using Cons by auto
    then show ?thesis using False by (intro exI [of _ "x # us"] exI [of _ vs]) simp
  qed
qed simp

lemma nextRoot_first:
  assumes "nextRoot scope db now allow c = Some r" "sorted_wrt (<) (map fi_id (fr_roots scope))"
    "q \<in> set (fr_roots scope)" "offersTurn db now allow (fi_id q)" "fi_id r \<noteq> fi_id q"
  shows "visitedBefore c (fi_id r) (fi_id q)"
proof -
  obtain us vs where o: "turnOrder (fr_roots scope) c = us @ r # vs" "\<forall>u\<in>set us. \<not> offersTurn db now allow (fi_id u)"
    using find_split [OF assms(1) [unfolded nextRoot_def]] by auto
  have "q \<in> set vs" using turnOrder_set [OF assms(2), of c] o assms(3-5) by auto
  then show ?thesis using turnOrder_before [OF assms(2), of c] unfolding o(1) by (simp add: sorted_wrt_append)
qed

text \<open>Serving a root that comes before \<open>q\<close> brings \<open>q\<close> closer.\<close>

lemma turnsAhead_less:
  assumes "visitedBefore c x q" "x \<in> fi_id ` set roots"
  shows "turnsAhead roots x q < turnsAhead roots c q"
proof -
  have sub: "visitedBefore x y q \<Longrightarrow> visitedBefore c y q" for y using assms(1) by (auto simp: visitedBefore_def split: if_splits)
  have "\<not> visitedBefore x x q" by (simp add: visitedBefore_def)
  then have "{y \<in> fi_id ` set roots. visitedBefore x y q} \<subset> {y \<in> fi_id ` set roots. visitedBefore c y q}"
    using sub assms by blast
  then show ?thesis unfolding turnsAhead_def by (intro psubset_card_mono) simp_all
qed

lemma turnsAhead_bound:
  assumes "q \<in> set roots"
  shows "turnsAhead roots c (fi_id q) < length roots"
proof -
  have "\<not> visitedBefore c (fi_id q) (fi_id q)" by (simp add: visitedBefore_def)
  then have "{x \<in> fi_id ` set roots. visitedBefore c x (fi_id q)} \<subset> fi_id ` set roots" using assms by blast
  then have "turnsAhead roots c (fi_id q) < card (fi_id ` set roots)" unfolding turnsAhead_def by (intro psubset_card_mono) simp_all
  also have "\<dots> \<le> length roots" using card_image_le [of "set roots" fi_id] card_length [of roots] by simp
  finally show ?thesis .
qed

end
