(* ===== verification/Scan_Dispatch_Guarantees.thy ===== *)
theory Scan_Dispatch_Guarantees
  imports Scan_Dispatch
begin

text \<open>
  What the chunk budget promises: over any history of calls, with commits of unknown outcome, crashes
  and clocks that jump, the granted reservations are spaced by their intervals and no UTC day has
  more of them than the limit of the day's last grant; and a wait the report announces ends.
\<close>

section \<open>Histories\<close>

record grant =
  g_now :: gotime
  g_interval :: int
  g_limit :: int

text \<open>The granted reservations of a history, in order. A call that reports an error may have
  committed all the same; everything else that happens to the store leaves the dispatch row alone.\<close>

inductive dispatch_run :: "sched_store \<Rightarrow> grant list \<Rightarrow> sched_store \<Rightarrow> bool" where
  start: "dispatch_run s [] s"
| granted: "dispatch_run s gs t \<Longrightarrow> ReserveScanChunk env t now interval limit = ((b, None), u) \<Longrightarrow>
     schedTime now \<Longrightarrow> dispatch_run s (gs @ [\<lparr>g_now = now, g_interval = interval, g_limit = limit\<rparr>]) u"
| refused: "dispatch_run s gs t \<Longrightarrow> ReserveScanChunk env t now interval limit = ((b, Some e), u) \<Longrightarrow>
     schedTime now \<Longrightarrow> dispatch_run s gs u"
| other: "dispatch_run s gs t \<Longrightarrow> sd_dispatch (ss_db u) = sd_dispatch (ss_db t) \<Longrightarrow> dispatch_run s gs u"

abbreviation grantDay :: "grant \<Rightarrow> int" where "grantDay g \<equiv> utcDayOf (g_now g)"

definition grantsOn :: "int \<Rightarrow> grant list \<Rightarrow> nat" where
  "grantsOn D gs = length (filter (\<lambda>g. grantDay g = D) gs)"

text \<open>What a call that wrote the row wrote, whatever it reported.\<close>

definition wroteRow :: "dispatch_row option \<Rightarrow> gotime \<Rightarrow> int \<Rightarrow> int \<Rightarrow> dispatch_row \<Rightarrow> bool" where
  "wroteRow saved now interval limit row \<longleftrightarrow>
     0 < interval \<and> interval \<le> day_ns \<and> 1 \<le> limit \<and> limit \<le> 100000 \<and>
     (\<exists>b. row = snd (reservedRow b now interval) \<and>
        (case saved of None \<Rightarrow> b = freshDispatch now limit
         | Some old \<Rightarrow> b = sameDayUse old (freshDispatch now limit) \<and> dp_Used b < limit \<and>
             d_next old \<le> unixNano now \<and> d_last old \<le> unixNano now \<and> (\<exists>n. rowDay old n)))"

lemma reserve_cases:
  assumes "ReserveScanChunk env s now interval limit = ((b, e), u)"
  obtains (unchanged) "u = s" "e \<noteq> None"
  | (wrote) row where "wroteRow (sd_dispatch (ss_db s)) now interval limit row"
      "u = s\<lparr>ss_db := (ss_db s)\<lparr>sd_dispatch := Some row\<rparr>\<rparr>"
proof -
  obtain b0 e0 where d: "dispatchBudget env (sd_dispatch (ss_db s)) now limit = (b0, e0)" by fastforce
  show thesis
  proof (cases "ss_readOnly s \<or> interval \<le> 0 \<or> interval > 24 * hour_ns \<or> se_err env 0 \<noteq> None \<or>
      e0 \<noteq> None \<or> dp_Reason b0 \<noteq> [] \<or> se_err env 2 \<noteq> None")
    case True
    then have "u = s \<and> e \<noteq> None"
      using assms d by (auto simp: ReserveScanChunk_def Let_def split: if_splits option.splits prod.splits) metis+
    then show ?thesis using unchanged by blast
  next
    case False
    let ?row = "snd (reservedRow b0 now interval)"
    have w: "wroteRow (sd_dispatch (ss_db s)) now interval limit ?row"
      using dispatchBudget_free [of env "sd_dispatch (ss_db s)" now limit b0] False d unfolding wroteRow_def
      by (intro conjI exI [of _ b0]) simp_all
    have r: "u = committed env 3 s ((ss_db s)\<lparr>sd_dispatch := Some ?row\<rparr>)" "e = se_err env 3"
      using False assms d by (auto simp: ReserveScanChunk_def Let_def split: prod.splits)
    show ?thesis
    proof (cases "se_err env 3 = None \<or> se_applied env")
      case True
      then show ?thesis using wrote [OF w] r(1) by (simp add: committed_def)
    next
      case False
      then have "u = s" "e \<noteq> None" using r by (auto simp: committed_def)
      then show ?thesis using unchanged by blast
    qed
  qed
qed

lemma reserve_grants:
  assumes "quietCall env" "\<not> ss_readOnly s" "0 < interval" "interval \<le> day_ns"
    "dispatchBudget env (sd_dispatch (ss_db s)) t limit = (b, None)" "dp_Reason b = []"
  shows "\<exists>b' u. ReserveScanChunk env s t interval limit = ((b', None), u)"
  using assms by (simp add: ReserveScanChunk_def quietCall_def Let_def split: prod.splits)

section \<open>A store and two grants\<close>

definition sxEnv :: sched_env where
  "sxEnv = \<lparr>se_nil = False, se_entry = None, se_err = (\<lambda>_. None), se_before = None, se_after = None,
     se_applied = True, se_randErr = None, se_random = (\<lambda>i. i), se_rowid = 1\<rparr>"

definition sxDb :: sched_db where
  "sxDb = \<lparr>sd_roots = [], sd_jobs = [], sd_settings = Map.empty, sd_dispatch = None,
     sd_revisits = Map.empty, sd_reconcile = [], sd_retirement = [], sd_compact = [], sd_cache = [],
     sd_revisions = Map.empty\<rparr>"

definition sxStore :: sched_store where
  "sxStore = \<lparr>ss_id = 1, ss_readOnly = False, ss_lock = True, ss_schema = 14, ss_db = sxDb\<rparr>"

definition sxNow :: gotime where "sxNow = \<lparr>t_ns = 20000 * day_ns + 5, t_utc = True\<rparr>"

definition sxLater :: gotime where "sxLater = tAdd sxNow minute_ns"

abbreviation sxFirst :: "(DispatchBudget \<times> err option) \<times> sched_store" where
  "sxFirst \<equiv> ReserveScanChunk sxEnv sxStore sxNow minute_ns 2"

abbreviation sxSecond :: "(DispatchBudget \<times> err option) \<times> sched_store" where
  "sxSecond \<equiv> ReserveScanChunk sxEnv (snd sxFirst) sxLater minute_ns 2"

definition sxGrants :: "grant list" where
  "sxGrants = [\<lparr>g_now = sxNow, g_interval = minute_ns, g_limit = 2\<rparr>, \<lparr>g_now = sxLater, g_interval = minute_ns, g_limit = 2\<rparr>]"

lemma sx_quiet: "quietCall sxEnv"
  by (simp add: quietCall_def sxEnv_def)

lemma sx_times: "schedTime sxNow" "schedTime sxLater"
  by (simp_all add: schedTime_def sxNow_def sxLater_def tAdd_def)

definition sxRow :: dispatch_row where
  "sxRow = \<lparr>d_last = t_ns sxNow, d_next = t_ns sxLater, d_chunks = 1, d_day = ''2024-10-04''\<rparr>"

lemma sx_day: "dateOnly sxNow = ''2024-10-04''" "dateOnly sxLater = ''2024-10-04''"
    "parseDateOnly ''2024-10-04'' = Some (dayStart 20000)"
  by code_simp+

lemma sx_first: "\<exists>b. sxFirst = ((b, None), sxStore\<lparr>ss_db := sxDb\<lparr>sd_dispatch := Some sxRow\<rparr>\<rparr>)"
proof -
  have "unixNano sxNow = t_ns sxNow" "unixNano (toUTC (tAdd sxNow minute_ns)) = t_ns sxLater"
    using sx_times(1) schedTime_add [OF sx_times(1), of minute_ns] by (simp_all add: sxLater_def)
  then show ?thesis
    by (simp add: ReserveScanChunk_def sxStore_def sxDb_def sxEnv_def dispatchBudget_def freshDispatch_def
        reservedRow_def Let_def sx_day add64_def i64_def sxRow_def)
qed

lemma sx_report: "dispatchBudget sxEnv (Some sxRow) sxLater 2 =
    (\<lparr>dp_Day = ''2024-10-04'', dp_Used = 1, dp_Limit = 2, dp_NextAllowed = toUTC sxLater, dp_Reason = []\<rparr>, None)"
  "\<exists>b. dispatchBudget sxEnv (Some sxRow) sxNow 2 = (b, None) \<and> dp_Reason b = ''cadence'' \<and> t_ns (dp_NextAllowed b) = t_ns sxLater"
proof -
  have later: "t_ns sxLater = t_ns sxNow + minute_ns" by (simp add: sxLater_def)
  show "dispatchBudget sxEnv (Some sxRow) sxLater 2 =
    (\<lparr>dp_Day = ''2024-10-04'', dp_Used = 1, dp_Limit = 2, dp_NextAllowed = toUTC sxLater, dp_Reason = []\<rparr>, None)"
    using sx_times later by (simp add: dispatchBudget_def dispatch_defs sxEnv_def sxRow_def sx_day)
  show "\<exists>b. dispatchBudget sxEnv (Some sxRow) sxNow 2 = (b, None) \<and> dp_Reason b = ''cadence'' \<and> t_ns (dp_NextAllowed b) = t_ns sxLater"
    using sx_times later by (simp add: dispatchBudget_def dispatch_defs sxEnv_def sxRow_def sx_day)
qed

lemma sx_after [simp]: "snd sxFirst = sxStore\<lparr>ss_db := sxDb\<lparr>sd_dispatch := Some sxRow\<rparr>\<rparr>"
  using sx_first by (metis snd_conv)

lemma sx_second: "\<exists>b u. sxSecond = ((b, None), u)"
proof -
  have "\<not> ss_readOnly sxStore" by (simp add: sxStore_def)
  then show ?thesis
    using sx_report(1) reserve_grants [OF sx_quiet, of "snd sxFirst" minute_ns sxLater 2] by simp
qed

lemma sx_run: "dispatch_run sxStore sxGrants (snd sxSecond)"
proof -
  obtain b b' u where g: "sxFirst = ((b, None), snd sxFirst)" "sxSecond = ((b', None), u)"
    using sx_first sx_second by (metis snd_conv)
  note steps = dispatch_run.granted [OF _ g(1) sx_times(1)] dispatch_run.granted [OF _ g(2) sx_times(2)]
  show ?thesis using steps(2) [OF steps(1) [OF dispatch_run.start]] g(2) by (simp add: sxGrants_def)
qed

lemma sx_base: "case sd_dispatch (ss_db sxStore) of None \<Rightarrow> True | Some row \<Rightarrow> 0 \<le> d_chunks row"
  by (simp add: sxStore_def sxDb_def)

section \<open>The invariant of the row\<close>

definition dispatchInv :: "grant list \<Rightarrow> dispatch_row option \<Rightarrow> bool" where
  "dispatchInv gs saved \<longleftrightarrow> (case saved of None \<Rightarrow> gs = []
     | Some row \<Rightarrow>
         (\<forall>g\<in>set gs. t_ns (g_now g) + g_interval g \<le> d_next row \<and> 0 < g_interval g \<and>
            (\<forall>n. rowDay row n \<longrightarrow> grantDay g \<le> n)) \<and>
         (\<forall>D. d_next row div day_ns \<le> D \<longrightarrow> int (grantsOn D gs) \<le> d_chunks row))"

lemma rowDay_unique: "rowDay row m \<Longrightarrow> rowDay row n \<Longrightarrow> m = n"
  using dateText_le [of m n] dateText_le [of n m] unfolding rowDay_def by (metis order_antisym order_refl)

lemma grantsOn_simps [simp]:
  "grantsOn D [] = 0" "grantsOn D (gs @ [g]) = grantsOn D gs + (if grantDay g = D then 1 else 0)"
  by (simp_all add: grantsOn_def)

lemma grantsOn_none: "(\<And>g. g \<in> set gs \<Longrightarrow> grantDay g < D) \<Longrightarrow> grantsOn D gs = 0"
  by (auto simp: grantsOn_def filter_empty_conv)

lemma reservedRow_columns:
  assumes "schedTime now" "0 < interval" "interval \<le> day_ns" "dp_Used b < 100000" "0 \<le> dp_Used b"
  shows "snd (reservedRow b now interval) =
     \<lparr>d_last = t_ns now, d_next = t_ns now + interval, d_chunks = dp_Used b + 1, d_day = dp_Day b\<rparr>"
  using assms schedTime_add [of now interval]
  by (simp add: reservedRow_def Let_def add64_def i64_def)

text \<open>The columns of a row that was written, by the day of the row before it.\<close>

lemma wroteRow_columns:
  assumes "wroteRow saved now interval limit row" "schedTime now" "dispatchInv gs saved"
  obtains n where "rowDay row n" "utcDayOf now \<le> n" "d_next row = t_ns now + interval" "d_last row = t_ns now"
    "d_chunks row \<le> limit" "0 < interval" "\<And>g. g \<in> set gs \<Longrightarrow> t_ns (g_now g) + g_interval g \<le> t_ns now \<and> 0 < g_interval g"
    "\<And>D. utcDayOf now \<le> D \<Longrightarrow> int (grantsOn D gs) + 1 \<le> d_chunks row"
proof -
  obtain b where lim: "0 < interval" "interval \<le> day_ns" "limit \<le> 100000" "1 \<le> limit" and row: "row = snd (reservedRow b now interval)"
    and b: "case saved of None \<Rightarrow> b = freshDispatch now limit
         | Some old \<Rightarrow> b = sameDayUse old (freshDispatch now limit) \<and> dp_Used b < limit \<and>
             d_next old \<le> unixNano now \<and> d_last old \<le> unixNano now \<and> (\<exists>n. rowDay old n)"
    using assms(1) by (auto simp: wroteRow_def)
  have small: "smallDay (utcDayOf now)" using assms(2) by simp
  show thesis
  proof (cases saved)
    case None
    then have g: "gs = []" "b = freshDispatch now limit" using assms(3) b by (simp_all add: dispatchInv_def)
    then have "row = \<lparr>d_last = t_ns now, d_next = t_ns now + interval, d_chunks = 1, d_day = dateOnly now\<rparr>"
      using reservedRow_columns [OF assms(2) lim(1,2)] row by (simp add: freshDispatch_def)
    then show thesis using that [of "utcDayOf now"] g lim small by (simp add: rowDay_def dateOnly_def)
  next
    case (Some old)
    then obtain n where n: "rowDay old n" and old: "b = sameDayUse old (freshDispatch now limit)"
        "dp_Used b < limit" "d_next old \<le> t_ns now" using b assms(2) by auto
    have inv: "\<And>g. g \<in> set gs \<Longrightarrow> t_ns (g_now g) + g_interval g \<le> t_ns now \<and> 0 < g_interval g \<and> grantDay g \<le> n"
      using assms(3) Some n old(3) by (force simp: dispatchInv_def)
    have day: "d_next old div day_ns \<le> utcDayOf now" using old(3) by (simp add: utcDayOf_def zdiv_mono1)
    have held: "int (grantsOn D gs) \<le> d_chunks old" if "d_next old div day_ns \<le> D" for D
      using assms(3) Some that by (simp add: dispatchInv_def)
    have c0: "0 \<le> d_chunks old" using held [OF order_refl] by linarith
    have cmp: "dateOnly now \<le> d_day old \<longleftrightarrow> utcDayOf now \<le> n" using rowDay_le [OF n small] .
    show thesis
    proof (cases "utcDayOf now \<le> n")
      case True
      then have b': "dp_Used b = d_chunks old" "dp_Day b = d_day old" using cmp by (simp_all add: old(1) sameDayUse_def freshDispatch_def)
      then have r: "row = \<lparr>d_last = t_ns now, d_next = t_ns now + interval, d_chunks = d_chunks old + 1, d_day = d_day old\<rparr>"
        using reservedRow_columns [OF assms(2) lim(1,2), of b] row c0 old(2) lim by simp
      have "int (grantsOn D gs) + 1 \<le> d_chunks row" if "utcDayOf now \<le> D" for D
        using held [of D] day that by (simp add: r)
      then show thesis using that [of n] True n inv old(2) lim(1) b' by (simp add: r rowDay_def)
    next
      case False
      then have b': "dp_Used b = 0" "dp_Day b = dateOnly now" using cmp by (simp_all add: old(1) sameDayUse_def freshDispatch_def)
      then have r: "row = \<lparr>d_last = t_ns now, d_next = t_ns now + interval, d_chunks = 1, d_day = dateOnly now\<rparr>"
        using reservedRow_columns [OF assms(2) lim(1,2), of b] row by simp
      have "grantsOn D gs = 0" if "utcDayOf now \<le> D" for D using grantsOn_none [of gs D] inv(1) False that by force
      then show thesis using that [of "utcDayOf now"] inv small lim by (simp add: r rowDay_def dateOnly_def)
    qed
  qed
qed

lemma wrote_inv:
  assumes "wroteRow saved now interval limit row" "schedTime now" "dispatchInv gs saved"
  defines "g \<equiv> \<lparr>g_now = now, g_interval = interval, g_limit = limit\<rparr>"
  shows "dispatchInv gs (Some row)" "dispatchInv (gs @ [g]) (Some row)"
    "\<forall>x\<in>set gs. t_ns (g_now x) + g_interval x \<le> t_ns now"
    "int (grantsOn (utcDayOf now) (gs @ [g])) \<le> limit"
proof -
  obtain n where n: "rowDay row n" "utcDayOf now \<le> n" and c: "d_next row = t_ns now + interval" "d_chunks row \<le> limit" "0 < interval"
    and old: "\<And>x. x \<in> set gs \<Longrightarrow> t_ns (g_now x) + g_interval x \<le> t_ns now \<and> 0 < g_interval x"
    and cnt: "\<And>D. utcDayOf now \<le> D \<Longrightarrow> int (grantsOn D gs) + 1 \<le> d_chunks row"
    by (rule wroteRow_columns [OF assms(1-3)]) blast
  have day: "grantDay x \<le> utcDayOf now" if "x \<in> set gs" for x
    using old [OF that] by (intro utcDayOf_mono) linarith
  have un: "m = n" if "rowDay row m" for m using rowDay_unique [OF that n(1)] .
  show b: "\<forall>x\<in>set gs. t_ns (g_now x) + g_interval x \<le> t_ns now" using old by blast
  show "int (grantsOn (utcDayOf now) (gs @ [g])) \<le> limit" using cnt [of "utcDayOf now"] day c by (simp add: g_def)
  have new: "\<forall>x\<in>set (gs @ [g]). t_ns (g_now x) + g_interval x \<le> d_next row \<and> 0 < g_interval x \<and>
      (\<forall>m. rowDay row m \<longrightarrow> grantDay x \<le> m)"
  proof
    fix x
    assume "x \<in> set (gs @ [g])"
    then consider "x \<in> set gs" | "x = g" by auto
    then show "t_ns (g_now x) + g_interval x \<le> d_next row \<and> 0 < g_interval x \<and> (\<forall>m. rowDay row m \<longrightarrow> grantDay x \<le> m)"
    proof cases
      case 1
      then show ?thesis using old [OF 1] day [OF 1] n(2) c un by (metis add_increasing2 less_imp_le order_trans)
    next
      case 2
      then show ?thesis using n(2) c un by (auto simp: g_def)
    qed
  qed
  have later: "utcDayOf now \<le> D" if "d_next row div day_ns \<le> D" for D
    using that zdiv_mono1 [of "t_ns now" "d_next row" day_ns] c by (simp add: utcDayOf_def)
  have cnts: "int (grantsOn D (gs @ [g])) \<le> d_chunks row" "int (grantsOn D gs) \<le> d_chunks row"
    if "d_next row div day_ns \<le> D" for D
    using cnt [OF later [OF that]] by (simp_all add: g_def)
  show "dispatchInv (gs @ [g]) (Some row)" using new cnts(1) unfolding dispatchInv_def option.case by blast
  show "dispatchInv gs (Some row)" using new cnts(2) unfolding dispatchInv_def option.case by simp
qed

section \<open>Every history\<close>

definition spaced :: "grant list \<Rightarrow> bool" where
  "spaced gs \<longleftrightarrow> sorted_wrt (\<lambda>a b. t_ns (g_now a) + g_interval a \<le> t_ns (g_now b)) gs"

definition withinDaily :: "grant list \<Rightarrow> bool" where
  "withinDaily gs \<longleftrightarrow>
     (\<forall>k<length gs. int (grantsOn (grantDay (gs ! k)) (take (Suc k) gs)) \<le> g_limit (gs ! k))"

lemma withinDaily_snoc:
  assumes "withinDaily gs" "int (grantsOn (grantDay g) (gs @ [g])) \<le> g_limit g"
  shows "withinDaily (gs @ [g])"
  unfolding withinDaily_def
proof (intro allI impI)
  fix k assume "k < length (gs @ [g])"
  then consider "k < length gs" | "k = length gs" by fastforce
  then show "int (grantsOn (grantDay ((gs @ [g]) ! k)) (take (Suc k) (gs @ [g]))) \<le> g_limit ((gs @ [g]) ! k)"
    using assms by cases (simp_all add: nth_append withinDaily_def)
qed

lemma run_facts:
  assumes "dispatch_run s gs t" "case sd_dispatch (ss_db s) of None \<Rightarrow> True | Some row \<Rightarrow> 0 \<le> d_chunks row"
  shows "dispatchInv gs (sd_dispatch (ss_db t)) \<and> spaced gs \<and> withinDaily gs"
  using assms
proof (induction rule: dispatch_run.induct)
  case (start s)
  then show ?case by (simp add: dispatchInv_def spaced_def withinDaily_def split: option.splits)
next
  case (granted s gs t env now interval limit b u)
  let ?g = "\<lparr>g_now = now, g_interval = interval, g_limit = limit\<rparr>"
  note ih = granted.IH [OF granted.prems]
  from granted.hyps(2) obtain row where row: "wroteRow (sd_dispatch (ss_db t)) now interval limit row"
      "sd_dispatch (ss_db u) = Some row"
    by (cases rule: reserve_cases) simp_all
  note w = wrote_inv [OF row(1) granted.hyps(3), of gs]
  have "spaced (gs @ [?g])" using ih w(3) by (simp add: spaced_def sorted_wrt_append)
  moreover have "withinDaily (gs @ [?g])" using withinDaily_snoc [of gs ?g] ih w(4) by simp
  ultimately show ?case using ih w(2) row(2) by simp
next
  case (refused s gs t env now interval limit b e u)
  note ih = refused.IH [OF refused.prems]
  from refused.hyps(2) show ?case
  proof (cases rule: reserve_cases)
    case (wrote row)
    then show ?thesis using ih wrote_inv(1) [OF wrote(1) refused.hyps(3)] by simp
  qed (use ih in simp)
qed simp

text \<open>Property C14. Over any history of reservations on a store, refused ones, commits that reported an
  error but took effect and clocks set back included, two granted reservations are always at least
  the interval of the earlier one apart, so their times only grow.\<close>

theorem chunks_spaced:
  assumes "dispatch_run s gs t"
    "case sd_dispatch (ss_db s) of None \<Rightarrow> True | Some row \<Rightarrow> 0 \<le> d_chunks row" "i < j" "j < length gs"
  shows "t_ns (g_now (gs ! i)) + g_interval (gs ! i) \<le> t_ns (g_now (gs ! j))"
  using run_facts [OF assms(1,2)] assms(3,4) by (simp add: spaced_def sorted_wrt_iff_nth_less)

theorem chunks_spaced_witness:
  "dispatch_run sxStore sxGrants (snd sxSecond) \<and> t_ns (g_now (sxGrants ! 0)) + minute_ns \<le> t_ns (g_now (sxGrants ! 1))"
  using sx_run chunks_spaced [OF sx_run sx_base, of 0 1] by (simp add: sxGrants_def)

text \<open>Property C10. Over any such history, at each granted reservation the number of grants on its UTC
  day so far, itself included, is at most the chunk limit that call was made with: no sequence of
  crashes, lost replies and clock changes buys a chunk beyond the day's limit.\<close>

theorem chunks_within_daily_limit:
  assumes "dispatch_run s gs t"
    "case sd_dispatch (ss_db s) of None \<Rightarrow> True | Some row \<Rightarrow> 0 \<le> d_chunks row" "k < length gs"
  shows "int (grantsOn (utcDayOf (g_now (gs ! k))) (take (Suc k) gs)) \<le> g_limit (gs ! k)"
  using run_facts [OF assms(1,2)] assms(3) by (simp add: withinDaily_def)

theorem chunks_within_daily_limit_witness:
  "dispatch_run sxStore sxGrants (snd sxSecond) \<and> int (grantsOn (utcDayOf sxLater) sxGrants) \<le> 2"
  using sx_run chunks_within_daily_limit [OF sx_run sx_base, of 1] by (simp add: sxGrants_def)

section \<open>Waits end\<close>

lemma limit_of_report: "dispatchBudget env saved now limit = (b, None) \<Longrightarrow> 1 \<le> limit \<and> limit \<le> 100000"
  by (auto simp: dispatchBudget_def split: if_splits)

lemma report_row:
  assumes "dispatchBudget env (Some row) now limit = (b, None)"
  obtains n where "rowDay row n"
    "b = rollbackWait now row (dailyWait (dayStart n) limit (cadenceWait now row (sameDayUse row (freshDispatch now limit))))"
  using assms parse_rowDay [of row] rowDay_parse
  by (fastforce simp: dispatchBudget_def Let_def split: if_splits option.splits)

lemma report_waits:
  assumes n: "rowDay row n" and now: "schedTime now" and times: "i64 (d_next row)" "d_last row \<le> d_next row"
    and b: "b = rollbackWait now row (dailyWait (dayStart n) limit (cadenceWait now row (sameDayUse row (freshDispatch now limit))))"
    and t: "t_ns (dp_NextAllowed b) \<le> t_ns t" "t_ns now \<le> t_ns t" "schedTime t"
  shows "d_next row \<le> t_ns t" "utcDayOf t \<le> n \<Longrightarrow> d_chunks row < limit"
proof -
  let ?c = "cadenceWait now row (sameDayUse row (freshDispatch now limit))"
  have c: "d_next row \<le> max (t_ns now) (t_ns (dp_NextAllowed ?c))" using now by (simp add: dispatch_defs)
  have d: "t_ns (dp_NextAllowed ?c) \<le> t_ns (dp_NextAllowed b)"
    unfolding b by (simp add: rollbackWait_def dailyWait_def Let_def tAfter_def)
  show "d_next row \<le> t_ns t" using c d t by linarith
  show "d_chunks row < limit" if le: "utcDayOf t \<le> n"
  proof (rule ccontr)
    assume full: "\<not> d_chunks row < limit"
    have "utcDayOf now \<le> n" using utcDayOf_mono [OF t(2)] le by linarith
    then have "dateOnly now \<le> d_day row" using rowDay_le [OF n] now by simp
    then have "dp_Used ?c = d_chunks row" by (simp add: dispatch_defs)
    then have "(n + 1) * day_ns \<le> t_ns (dp_NextAllowed b)"
      using full unfolding b by (simp add: rollbackWait_def dailyWait_def Let_def tAfter_def dayStart_def algebra_simps)
    then have "n + 1 \<le> utcDayOf t"
      using t(1) zdiv_mono1 [of "(n + 1) * day_ns" "t_ns t" day_ns] by (simp add: utcDayOf_def)
    then show False using le by linarith
  qed
qed

text \<open>Property C35. A wait that the report announces ends when it says: whatever the reason (cadence,
  daily limit or a clock behind the last start), a reservation asked for at any instant from
  \<open>NextAllowed\<close> on is granted, if the storage answers and nothing was reserved in between.\<close>

theorem wait_ends:
  assumes "dispatchBudget env0 (sd_dispatch (ss_db s)) now limit = (b, None)" "schedTime now" "schedTime t"
    "case sd_dispatch (ss_db s) of None \<Rightarrow> True | Some row \<Rightarrow> i64 (d_next row) \<and> d_last row \<le> d_next row"
    "t_ns (dp_NextAllowed b) \<le> t_ns t" "t_ns now \<le> t_ns t"
    "quietCall env" "\<not> ss_readOnly s" "0 < interval" "interval \<le> day_ns"
  shows "\<exists>b' u. ReserveScanChunk env s t interval limit = ((b', None), u)"
proof (cases "sd_dispatch (ss_db s)")
  case None
  then show ?thesis
    using reserve_grants [OF assms(7-10), of t limit] limit_of_report [OF assms(1)] assms(7)
    by (simp add: dispatchBudget_def freshDispatch_def quietCall_def Let_def)
next
  case (Some row)
  obtain n where n: "rowDay row n" and b: "b = rollbackWait now row (dailyWait (dayStart n) limit (cadenceWait now row (sameDayUse row (freshDispatch now limit))))"
    using report_row assms(1) unfolding Some by blast
  have times: "i64 (d_next row)" "d_last row \<le> d_next row" using assms(4) by (simp_all add: Some)
  note w = report_waits [OF n assms(2) times b assms(5,6,3)]
  let ?b = "rollbackWait t row (dailyWait (dayStart n) limit (cadenceWait t row (sameDayUse row (freshDispatch t limit))))"
  have "dp_Used (sameDayUse row (freshDispatch t limit)) < limit"
    using w(2) rowDay_le [OF n, of t] assms(3) limit_of_report [OF assms(1)] by (simp add: sameDayUse_def freshDispatch_def)
  moreover have "dp_Reason (freshDispatch t limit) = []" by (simp add: freshDispatch_def)
  ultimately have "dp_Reason ?b = []" using w(1) times assms(3) by (simp add: cadenceWait_def)
  moreover have "dispatchBudget env (sd_dispatch (ss_db s)) t limit = (?b, None)"
    using limit_of_report [OF assms(1)] assms(7) rowDay_parse [OF n] by (simp add: Some dispatchBudget_def Let_def quietCall_def)
  ultimately show ?thesis using reserve_grants [OF assms(7-10)] by blast
qed

theorem wait_ends_witness:
  "\<exists>b b' u. dispatchBudget sxEnv (sd_dispatch (ss_db (snd sxFirst))) sxNow 2 = (b, None) \<and> dp_Reason b = ''cadence'' \<and>
     ReserveScanChunk sxEnv (snd sxFirst) sxLater second_ns 2 = ((b', None), u)"
proof -
  obtain b where b: "dispatchBudget sxEnv (sd_dispatch (ss_db (snd sxFirst))) sxNow 2 = (b, None)"
      "dp_Reason b = ''cadence''" "t_ns (dp_NextAllowed b) \<le> t_ns sxLater"
    using sx_report(2) by auto
  have "case sd_dispatch (ss_db (snd sxFirst)) of None \<Rightarrow> True | Some row \<Rightarrow> i64 (d_next row) \<and> d_last row \<le> d_next row"
    using schedTime_i64 [OF sx_times(2)] by (simp add: sxRow_def sxLater_def)
  moreover have "t_ns sxNow \<le> t_ns sxLater" "\<not> ss_readOnly sxStore" by (simp_all add: sxLater_def sxStore_def)
  ultimately have "\<exists>b' u. ReserveScanChunk sxEnv (snd sxFirst) sxLater second_ns 2 = ((b', None), u)"
    using wait_ends [OF b(1) sx_times _ b(3) _ sx_quiet, of second_ns] by simp
  then show ?thesis using b by blast
qed

end
