(* ===== verification/Job_Queue_Guarantees.thy ===== *)
theory Job_Queue_Guarantees
  imports Fair_Turns_Laws Scan_Dispatch_Guarantees
begin

text \<open>
  What the job queue promises its workers: a well-formed table in every run, one holder for each
  job, leases that end with the first finish or a recovery, the earliest due job first, cursors that
  come back, and paths that stay inside their root.
\<close>

section \<open>Runs\<close>

definition sched_any :: "sched_store \<Rightarrow> sched_store \<Rightarrow> bool" where
  "sched_any s t \<longleftrightarrow> (\<exists>ev. sched_step s ev t)"

interpretation sched_runs: invariant_system sched_any "\<lambda>s. jobsOk (jobsOf s)"
  by unfold_locales (auto simp: sched_any_def intro: step_jobsOk)

text \<open>A claim by either operation that handed out a lease.\<close>

definition tookLease :: "sched_store \<Rightarrow> job \<Rightarrow> sched_store \<Rightarrow> bool" where
  "tookLease s j t \<longleftrightarrow>
     (\<exists>env kinds now lease. ClaimJob env s kinds now lease = ((Some j, None), t)) \<or>
     (\<exists>env scope now lease allow reservedAt turn. scope64 scope \<and> ft_Job turn = Some j \<and>
        ClaimFairInventoryTurn env s scope now lease allow reservedAt = ((Some turn, None), t))"

lemma turn_job:
  assumes "ClaimFairInventoryTurn env s scope now lease allow reservedAt = ((Some turn, e), t)" "ft_Job turn = Some j"
    "jobsOk (jobsOf s)"
  obtains r until where "r \<in> set (jobsOf s)" "je_status r = Pending" "j = jobOf (ss_db s) (leaseJob (drawnToken env) until r)"
    "leaseMove (drawnToken env) until (je_id r) (jobsOf s) (jobsOf t)"
  using assms(1)
proof (cases rule: ClaimFair_cases)
  case (claimed n reserved cursor sch jobID turn0 turn1 db1)
  have j: "ft_Job turn1 = Some j" using claimed(8) assms(2) by auto
  have "ft_Kind turn0 = TSource"
  proof (rule ccontr)
    assume n: "ft_Kind turn0 \<noteq> TSource"
    then have "turn1 = turn0" using claimed(6) by simp
    moreover have "ft_Job turn0 = None" by (rule select_turn [OF claimed(4,5)]) (simp add: offeredTurn_def newTurn_def)
    ultimately show False using j by simp
  qed
  then have c: "claimSource env (ss_schema s) (ss_db s) turn0 jobID n (add64 n lease) = Inr (turn1, db1)" using claimed(6) by simp
  obtain r where r: "r \<in> set (jobsOf s)" "je_id r = jobID" "pendingScan (ft_RootID turn0) r"
      "turn1 = turn0\<lparr>ft_Job := Some (jobOf (ss_db s) (leaseJob (drawnToken env) (add64 n lease) r))\<rparr>"
    by (rule claimSource_ok [OF c]) blast
  show thesis
    using that [OF r(1), of "add64 n lease"] r claimSource_move(1) [OF c assms(3)] j claimed(7) by (simp add: pendingScan_def)
qed simp

text \<open>The job a claim hands out was pending, and its row now carries the lease and the same work.\<close>

lemma tookLease_rows:
  assumes "tookLease s j t" "jobsOk (jobsOf s)"
  obtains r r' where "r \<in> set (jobsOf s)" "je_id r = j_ID j" "je_status r = Pending" "je_cursor r = j_Cursor j" "je_path r = j_Path j"
    "jobKey r = (j_RootID j, j_Kind j, j_Path j)" "r' \<in> set (jobsOf t)" "heldBy (j_ID j) (j_Token j) r'" "je_cursor r' = j_Cursor j" "jobKey r' = jobKey r" "jobsOk (jobsOf t)"
proof -
  obtain env r until where r: "r \<in> set (jobsOf s)" "je_status r = Pending"
      "j = jobOf (ss_db s) (leaseJob (drawnToken env) until r)" and l: "leaseMove (drawnToken env) until (je_id r) (jobsOf s) (jobsOf t)"
  proof (cases "\<exists>env kinds now lease. ClaimJob env s kinds now lease = ((Some j, None), t)")
    case True
    then obtain env kinds now lease where call: "ClaimJob env s kinds now lease = ((Some j, None), t)" by blast
    then show thesis
    proof (cases rule: ClaimJob_cases)
      case (leased r db2 j')
      have r: "r \<in> set (jobsOf s)" "je_status r = Pending"
        using earliest_Some [OF leased(1)] by (auto simp: dueRows_member claimable_def)
      show thesis using that [OF r] leaseMove_frame [OF leased(2) r] leased(3-5) by auto
    qed simp
  next
    case False
    then show thesis using assms(1) turn_job [OF _ _ assms(2)] that unfolding tookLease_def by metis
  qed
  obtain g where g: "jobsOf t = map g (jobsOf s)"
      "\<And>q. q \<in> set (jobsOf s) \<Longrightarrow> sameButClaim (g q) (if je_id q = je_id r then leaseJob (drawnToken env) until q else q)"
    using l unfolding leaseMove_def by blast
  have b: "sameButClaim (g r) (leaseJob (drawnToken env) until r)" using g(2) [OF r(1)] by simp
  have j: "j_ID j = je_id r" "j_Token j = drawnToken env" "j_Cursor j = je_cursor r" "j_Path j = je_path r"
    "jobKey r = (j_RootID j, j_Kind j, j_Path j)" by (simp_all add: r(3) jobOf_def jobKey_def)
  have "heldBy (j_ID j) (j_Token j) (g r)" "je_cursor (g r) = je_cursor r" "jobKey (g r) = jobKey r"
    using sameButClaim_fields [OF b] by (simp_all add: heldBy_def j)
  moreover have "jobsOk (jobsOf t)" using leaseMove_ok [OF l assms(2)] by simp
  ultimately show thesis using that [OF r(1), of "g r"] r(1,2) g(1) j by simp
qed

lemma run_keeps_held:
  assumes "sched_run s evs t" "jobsOk (jobsOf s)" "r \<in> set (jobsOf s)" "heldBy i token r"
    "Recovery \<notin> set evs" "Finish i token \<notin> set evs"
  shows "\<exists>r'\<in>set (jobsOf t). heldBy i token r' \<and> sameWork r r'"
  using assms
proof (induction rule: sched_run.induct)
  case (more s evs t ev u)
  then obtain r1 where r1: "r1 \<in> set (jobsOf t)" "heldBy i token r1" "sameWork r r1" by auto
  have "jobsOk (jobsOf t)" using run_jobsOk [OF more.hyps(1)] more.prems by blast
  then show ?case using step_keeps_held [OF more.hyps(2) _ r1(1,2)] more.prems sameWork_trans r1(3) by fastforce
qed auto

lemma run_not_held:
  assumes "sched_run s evs t" "jobsOk (jobsOf s)" "\<not> held i token (jobsOf s)" "Lease token \<notin> set evs"
  shows "\<not> held i token (jobsOf t)"
  using assms
proof (induction rule: sched_run.induct)
  case (more s evs t ev u)
  have "jobsOk (jobsOf t)" using run_jobsOk [OF more.hyps(1)] more.prems by blast
  then show ?case using step_held [OF more.hyps(2)] more by fastforce
qed simp

section \<open>Calls that succeed\<close>

lemma unique_count:
  assumes "jobsOk rows" "r \<in> set rows" "\<And>q. q \<in> set rows \<Longrightarrow> P q \<longleftrightarrow> je_id q = je_id r"
  shows "length (filter P rows) = 1"
proof -
  have "set (filter P rows) = {r}" using assms(2,3) jobsOk_unique [OF assms(1) _ assms(2)] by auto
  moreover have "distinct rows" using assms(1) by (simp add: jobsOk_def distinct_map)
  ultimately show ?thesis using distinct_card [of "filter P rows"] by simp
qed

lemma quiet_simps [simp]:
  assumes "quietCall env"
  shows "se_err env k = None" "se_before env = None" "se_after env = None" "se_randErr env = None" "se_entry env = None" "\<not> se_nil env"
  using assms by (simp_all add: quietCall_def)

lemma claimRecords_quiet:
  assumes "quietCall env" "jobsOk (sd_jobs db)" "r \<in> set (sd_jobs db)" "j_ID j = je_id r" "j_RootID j = je_root r" "j_Kind j = je_kind r"
  shows "\<exists>db'. claimRecords env k schema db j = Inr db'"
proof -
  let ?P = "\<lambda>q. je_id q = j_ID j \<and> je_root q = j_RootID j \<and> je_kind q = j_Kind j \<and> (je_claimed q = 0 \<or> je_claimed q = 1)"
  have "?P q \<longleftrightarrow> je_id q = je_id r" if "q \<in> set (sd_jobs db)" for q
    using jobsOk_unique [OF assms(2) that assms(3)] jobsOk_row [OF assms(2) that] assms(4-6) by (auto simp: rowOk_def)
  then have "jobCount ?P db = 1" using unique_count [OF assms(2,3), of ?P] by (simp add: jobCount_def)
  then show ?thesis
    using assms(1) by (cases "j_Kind j = ScanKind") (simp_all add: claimRecords_def inventoryClaim_def adaptiveClaim_def Let_def)
qed

lemma updateJobs_jobs [simp]: "sd_jobs (updateJobs P f db) = map (\<lambda>r. if P r then f r else r) (sd_jobs db)"
  by (simp add: updateJobs_def)

lemma ClaimJob_success:
  assumes "quietCall env" "\<not> ss_readOnly s" "kinds \<noteq> []" "kindsClause kinds = None" "0 < lease" "lease \<le> 48 * hour_ns"
    "jobsOk (jobsOf s)" "earliest (dueRows (ss_db s) kinds now) = Some r"
  shows "\<exists>t. ClaimJob env s kinds now lease =
     ((Some (jobOf (ss_db s) (leaseJob (drawnToken env) (unixNano (tAdd now lease)) r)), None), t)"
proof -
  let ?f = "leaseJob (drawnToken env) (unixNano (tAdd now lease))"
  let ?db = "updateJobs (\<lambda>q. je_id q = je_id r) ?f (ss_db s)"
  have r: "r \<in> set (jobsOf s)" using earliest_Some [OF assms(8)] by (simp add: dueRows_member)
  have j: "jobOf ?db (?f r) = jobOf (ss_db s) (?f r)" by (simp add: jobOf_def rootRow_def updateJobs_def)
  have ok: "jobsOk (sd_jobs ?db)"
    using assms(7) jobsOk_row [OF assms(7)] leaseJob_ok unfolding updateJobs_jobs by (intro jobsOk_map) auto
  have "?f r \<in> set (sd_jobs ?db)" using r by force
  then obtain db2 where c: "claimRecords env 2 (ss_schema s) ?db (jobOf (ss_db s) (?f r)) = Inr db2"
    using claimRecords_quiet [OF assms(1) ok, of "?f r" "jobOf (ss_db s) (?f r)"] by (auto simp: jobOf_def)
  have e: "earliest (filter (\<lambda>r. claimable (ss_db s) kinds r \<and> je_due r \<le> unixNano now) (jobsOf s)) = Some r"
    using assms(8) by (simp add: dueRows_def)
  show ?thesis using assms(1-6) c by (simp add: ClaimJob_def Let_def e j closeClaim_def)
qed

lemma ClaimJob_handle: "ClaimJob env s kinds now lease = ((res, e), t) \<Longrightarrow> ss_readOnly t = ss_readOnly s"
  by (rule ClaimJob_cases) auto

lemma FinishJob_handle: "FinishJob env s j finished cursor due lastError = (e, t) \<Longrightarrow> ss_readOnly t = ss_readOnly s"
  by (rule FinishJob_cases) auto

section \<open>A store with one job\<close>

definition qxJob :: job_entry where "qxJob = freshJob 1 1 ScanKind ''.'' 0"

definition qxRoot :: root_entry where
  "qxRoot = \<lparr>re_id = 1, re_path = ''/a'', re_enabled = 1, re_volume = ''v'', re_pathBlob = True, re_enabledInt = True\<rparr>"

definition qxDb :: sched_db where "qxDb = sxDb\<lparr>sd_roots := [qxRoot], sd_jobs := [qxJob]\<rparr>"

definition qxStore :: sched_store where "qxStore = sxStore\<lparr>ss_db := qxDb\<rparr>"

definition qxHeld :: job where
  "qxHeld = jobOf qxDb (leaseJob (drawnToken sxEnv) (unixNano (tAdd sxNow hour_ns)) qxJob)"

definition qxClaimed :: sched_store where "qxClaimed = snd (ClaimJob sxEnv qxStore [ScanKind] sxNow hour_ns)"

lemma scan_kind_ok: "validKind ScanKind" "kindsClause [ScanKind] = None" "validRelative ''.''"
  by code_simp+

lemma qx_ok: "jobsOk (jobsOf qxStore)" "\<not> ss_readOnly qxStore" "ss_db qxStore = qxDb"
  using scan_kind_ok
  by (simp_all add: qxStore_def qxDb_def sxStore_def qxJob_def jobsOk_def rowOk_def freshJob_def jobKey_def)

lemma qx_due: "earliest (dueRows qxDb [ScanKind] sxNow) = Some qxJob"
  using sx_times(1)
  by (simp add: dueRows_def claimable_def rootEnabled_def rootRow_def qxDb_def qxJob_def qxRoot_def freshJob_def)
    (simp add: sxNow_def)

lemma qx_claim: "ClaimJob sxEnv qxStore [ScanKind] sxNow hour_ns = ((Some qxHeld, None), qxClaimed)"
proof -
  obtain t where "ClaimJob sxEnv qxStore [ScanKind] sxNow hour_ns = ((Some qxHeld, None), t)"
    using ClaimJob_success [OF sx_quiet qx_ok(2), of "[ScanKind]" hour_ns sxNow qxJob] scan_kind_ok qx_ok qx_due
    by (auto simp: qxHeld_def)
  then show ?thesis by (simp add: qxClaimed_def)
qed

lemma qx_took: "tookLease qxStore qxHeld qxClaimed"
  unfolding tookLease_def using qx_claim by blast

lemma qx_ids: "j_ID qxHeld = 1" "j_Token qxHeld = drawnToken sxEnv" "j_Cursor qxHeld = []"
  by (simp_all add: qxHeld_def jobOf_def qxJob_def freshJob_def)

section \<open>Every run\<close>

text \<open>Property C17. In every run of the store, whatever calls its clients make and however the context,
  the driver and the commits answer, the table of jobs stays well formed: ids and job keys are
  unique, and every row has a valid kind and relative path, a lease token of 32 hexadecimal digits
  exactly while it runs, and a cursor, error text and attempt count within their bounds.\<close>

theorem job_table_well_formed:
  assumes "sched_any\<^sup>*\<^sup>* s t" "jobsOk (sd_jobs (ss_db s))"
  shows "jobsOk (sd_jobs (ss_db t))"
  using assms by (rule sched_runs.run_inv)

theorem job_table_well_formed_witness:
  "sched_any\<^sup>*\<^sup>* qxStore qxClaimed \<and> jobsOk (sd_jobs (ss_db qxClaimed))"
proof -
  have run: "sched_any\<^sup>*\<^sup>* qxStore qxClaimed" using sched_step.claim [OF qx_claim] unfolding sched_any_def by blast
  then show ?thesis using job_table_well_formed [OF run qx_ok(1)] by blast
qed

text \<open>Property C7. A lease is exclusive: from the claim that handed out a job, and until that job is
  finished with the token of the claim or the store is recovered, no claim, by either operation,
  hands out the same job again, and the row keeps the holder's token and cursor, whatever else runs
  in between.\<close>

theorem lease_exclusive:
  assumes "jobsOk (sd_jobs (ss_db s))" "tookLease s j t" "sched_run t evs u"
    "Recovery \<notin> set evs" "Finish (j_ID j) (j_Token j) \<notin> set evs" "tookLease u j' v"
  shows "j_ID j' \<noteq> j_ID j \<and>
     (\<exists>r\<in>set (sd_jobs (ss_db u)). heldBy (j_ID j) (j_Token j) r \<and> je_cursor r = j_Cursor j)"
proof -
  obtain r1 where r1: "r1 \<in> set (jobsOf t)" "heldBy (j_ID j) (j_Token j) r1" "je_cursor r1 = j_Cursor j" and ok: "jobsOk (jobsOf t)"
    by (rule tookLease_rows [OF assms(2,1)]) blast
  obtain r where r: "r \<in> set (jobsOf u)" "heldBy (j_ID j) (j_Token j) r" "sameWork r1 r"
    using run_keeps_held [OF assms(3) ok r1(1,2) assms(4,5)] by blast
  have u: "jobsOk (jobsOf u)" using run_jobsOk [OF assms(3) ok] .
  obtain q where q: "q \<in> set (jobsOf u)" "je_id q = j_ID j'" "je_status q = Pending"
    by (rule tookLease_rows [OF assms(6) u]) blast
  have "j_ID j' \<noteq> j_ID j" using jobsOk_unique [OF u q(1) r(1)] q r(2) by (auto simp: heldBy_def)
  then show ?thesis using r r1(3) by (auto simp: sameWork_def)
qed

definition qxOther :: job_entry where "qxOther = freshJob 2 1 ''digest'' ''b'' 0"

definition qxStore2 :: sched_store where "qxStore2 = sxStore\<lparr>ss_db := qxDb\<lparr>sd_jobs := [qxJob, qxOther]\<rparr>\<rparr>"

definition qxEnv2 :: sched_env where "qxEnv2 = sxEnv\<lparr>se_random := (\<lambda>_. 255)\<rparr>"

abbreviation qxFirst :: "(job option \<times> err option) \<times> sched_store" where
  "qxFirst \<equiv> ClaimJob sxEnv qxStore2 [ScanKind] sxNow hour_ns"

abbreviation qxSecond :: "(job option \<times> err option) \<times> sched_store" where
  "qxSecond \<equiv> ClaimJob qxEnv2 (snd qxFirst) [''digest''] sxNow hour_ns"

lemma qx2_ok: "jobsOk (jobsOf qxStore2)"
proof -
  have "validKind ''digest''" "validRelative ''b''" by code_simp+
  then show ?thesis
    using scan_kind_ok
    by (simp add: qxStore2_def qxJob_def qxOther_def jobsOk_def rowOk_def freshJob_def jobKey_def)
qed

lemma qx2_claims: "snd (fst qxFirst) = None \<and> map_option j_ID (fst (fst qxFirst)) = Some 1 \<and>
    snd (fst qxSecond) = None \<and> map_option j_ID (fst (fst qxSecond)) = Some 2"
  by code_simp

theorem lease_exclusive_witness:
  "\<exists>j j' v. tookLease qxStore2 j (snd qxFirst) \<and> tookLease (snd qxFirst) j' v \<and> j_ID j' \<noteq> j_ID j"
proof -
  obtain j where j: "qxFirst = ((Some j, None), snd qxFirst)" using qx2_claims by (cases qxFirst) auto
  obtain j' v where j': "qxSecond = ((Some j', None), v)" using qx2_claims by (cases qxSecond) auto
  have "tookLease qxStore2 j (snd qxFirst)" "tookLease (snd qxFirst) j' v"
    unfolding tookLease_def using j j' by blast+
  then show ?thesis using lease_exclusive [OF qx2_ok _ sched_run.stay, of j "snd qxFirst" j' v] by auto
qed

section \<open>Finishing\<close>

lemma not_held_count: "\<not> held i token (sd_jobs db) \<Longrightarrow> jobCount (heldBy i token) db = 0"
  by (auto simp: held_def jobCount_def filter_empty_conv)

lemma finishRows_not_held: "\<not> held (j_ID j) (j_Token j) (finishRows j finished cursor due e rows)"
  by (auto simp: held_def finishRows_def heldBy_def Let_def split: if_splits)

lemma stale_finish:
  assumes "quietCall env" "\<not> ss_readOnly s" "length cursor \<le> MaxCursorBytes" "\<not> held (j_ID j) (j_Token j) (jobsOf s)"
  shows "FinishJob env s j finished cursor due e = (Some ErrStaleLease, s)"
  using assms not_held_count [OF assms(4)] by (simp add: FinishJob_def finishJob_def Let_def)

text \<open>Property C8. A lease is spent once: after a finish that succeeded, and as long as no claim draws the
  same random token again, every later finish under that lease is refused as stale and changes
  nothing, however often the job was recovered, claimed and finished by others since.\<close>

theorem lease_spent_once:
  assumes "jobsOk (sd_jobs (ss_db s))" "FinishJob env s j finished cursor due lastError = (None, t)" "sched_run t evs u"
    "Lease (j_Token j) \<notin> set evs" "quietCall env'" "\<not> ss_readOnly u" "length cursor' \<le> MaxCursorBytes"
  shows "FinishJob env' u j finished' cursor' due' lastError' = (Some ErrStaleLease, u)"
proof -
  from assms(2) have t: "\<not> held (j_ID j) (j_Token j) (jobsOf t)" "jobsOk (jobsOf t)"
    by (cases rule: FinishJob_cases, simp_all add: finishRows_not_held finishRows_ok assms(1))+
  show ?thesis using stale_finish [OF assms(5-7)] run_not_held [OF assms(3) t(2,1) assms(4)] by blast
qed

definition qxReleased :: sched_store where
  "qxReleased = snd (FinishJob sxEnv qxClaimed qxHeld False ''page-7'' sxNow [])"

lemma FinishJob_success:
  assumes "quietCall env" "\<not> ss_readOnly s" "length cursor \<le> MaxCursorBytes" "jobsOk (jobsOf s)"
    "r \<in> set (jobsOf s)" "heldBy (j_ID j) (j_Token j) r"
  shows "\<exists>t. FinishJob env s j finished cursor due e = (None, t)"
proof -
  have "j_Token j \<noteq> []" using jobsOk_row [OF assms(4,5)] assms(6) by (auto simp: rowOk_def heldBy_def metadataDigest_def)
  moreover have "heldBy (j_ID j) (j_Token j) q \<longleftrightarrow> je_id q = je_id r" if "q \<in> set (jobsOf s)" for q
    using jobsOk_unique [OF assms(4) that assms(5)] assms(6) by (auto simp: heldBy_def)
  then have "jobCount (heldBy (j_ID j) (j_Token j)) (ss_db s) = 1"
    using unique_count [OF assms(4,5), of "heldBy (j_ID j) (j_Token j)"] by (simp add: jobCount_def)
  ultimately show ?thesis
    using assms(1-3) by (simp add: FinishJob_def finishJob_def adaptiveUncertain_def Let_def)
qed

lemma qx_claimed: "jobsOk (jobsOf qxClaimed)" "\<not> ss_readOnly qxClaimed" "\<exists>r\<in>set (jobsOf qxClaimed). heldBy (j_ID qxHeld) (j_Token qxHeld) r"
proof -
  show "jobsOk (jobsOf qxClaimed)" "\<exists>r\<in>set (jobsOf qxClaimed). heldBy (j_ID qxHeld) (j_Token qxHeld) r"
    by (rule tookLease_rows [OF qx_took qx_ok(1)], blast)+
  show "\<not> ss_readOnly qxClaimed" using ClaimJob_handle [OF qx_claim] qx_ok(2) by simp
qed

lemma qx_finish: "FinishJob sxEnv qxClaimed qxHeld False ''page-7'' sxNow [] = (None, qxReleased)" "\<not> ss_readOnly qxReleased"
proof -
  have "\<exists>t. FinishJob sxEnv qxClaimed qxHeld False ''page-7'' sxNow [] = (None, t)"
    using FinishJob_success [OF sx_quiet qx_claimed(2) _ qx_claimed(1)] qx_claimed(3) by auto
  then show f: "FinishJob sxEnv qxClaimed qxHeld False ''page-7'' sxNow [] = (None, qxReleased)" by (auto simp: qxReleased_def)
  show "\<not> ss_readOnly qxReleased" using FinishJob_handle [OF f] qx_claimed(2) by simp
qed

theorem lease_spent_once_witness:
  "FinishJob sxEnv qxClaimed qxHeld False ''page-7'' sxNow [] = (None, qxReleased) \<and>
     FinishJob sxEnv qxReleased qxHeld True [] sxNow [] = (Some ErrStaleLease, qxReleased)"
  using qx_finish lease_spent_once [OF qx_claimed(1) qx_finish(1) sched_run.stay _ sx_quiet qx_finish(2)] by simp

text \<open>A row survives every step that is not a finish of it by its holder, with its id, key and cursor.\<close>

definition sameJob :: "job_entry \<Rightarrow> job_entry \<Rightarrow> bool" where
  "sameJob a b \<longleftrightarrow> je_id b = je_id a \<and> jobKey b = jobKey a \<and> je_cursor b = je_cursor a"

lemma sameJob_refl [simp]: "sameJob a a"
  by (simp add: sameJob_def)

lemma sameJob_trans: "sameJob a b \<Longrightarrow> sameJob b c \<Longrightarrow> sameJob a c"
  by (simp add: sameJob_def)

lemma step_keeps_job:
  assumes "sched_step s ev t" "jobsOk (jobsOf s)" "r \<in> set (jobsOf s)"
    "\<And>token. ev = Finish (je_id r) token \<Longrightarrow> \<not> held (je_id r) token (jobsOf s)"
  shows "\<exists>r'\<in>set (jobsOf t). sameJob r r'"
proof (cases "jobsOf t = jobsOf s")
  case changed: False
  note move = step_move [OF assms(1,2)] changed
  show ?thesis
  proof (cases ev)
    case Quiet
    then have "r \<in> set (jobsOf t)" using move assms(3) by (auto simp: jobsMove_def)
    then show ?thesis using sameJob_refl by blast
  next
    case (Lease tok)
    then obtain until k g where g: "jobsOf t = map g (jobsOf s)"
        "\<And>q. q \<in> set (jobsOf s) \<Longrightarrow> sameButClaim (g q) (if je_id q = k then leaseJob tok until q else q)"
      using move by (auto simp: jobsMove_def leaseMove_def)
    have "sameJob r (g r)"
      using sameButClaim_fields [OF g(2) [OF assms(3)]] by (auto simp: sameJob_def split: if_splits)
    then show ?thesis using assms(3) g(1) by auto
  next
    case (Finish k tok)
    then obtain j finished cursor due e where j: "j_ID j = k" "j_Token j = tok"
        "jobsOf t = finishRows j finished cursor due e (jobsOf s)"
      using move by (auto simp: jobsMove_def)
    have "\<not> heldBy (j_ID j) (j_Token j) r"
      using assms(3) assms(4) [of tok] Finish j by (auto simp: heldBy_def held_def)
    then have "r \<in> set (jobsOf t)"
      using assms(3) unfolding j(3) finishRows_def Let_def by (force simp: image_iff)
    then show ?thesis using sameJob_refl by blast
  next
    case Recovery
    then obtain now where "jobsOf t = recoveredJobs now (jobsOf s)" using move by (auto simp: jobsMove_def)
    then have "(if je_status r = Running then recoverJob now r else r) \<in> set (jobsOf t)"
      using assms(3) unfolding recoveredJobs_def by auto
    moreover have "sameJob r (if je_status r = Running then recoverJob now r else r)" by (simp add: sameJob_def jobKey_def recoverJob_def)
    ultimately show ?thesis by blast
  qed
qed (use assms(3) sameJob_refl in metis)

text \<open>A job that nobody holds keeps its row until somebody finishes it under a lease handed out since.\<close>

lemma run_keeps_job:
  assumes "sched_run s evs t" "jobsOk (jobsOf s)" "r \<in> set (jobsOf s)" "\<And>token. \<not> held (je_id r) token (jobsOf s)"
    "\<forall>token. Finish (je_id r) token \<in> set evs \<longrightarrow> Lease token \<notin> set evs"
  shows "\<exists>r'\<in>set (jobsOf t). sameJob r r'"
  using assms
proof (induction rule: sched_run.induct)
  case (more s evs t ev u)
  have "\<forall>token. Finish (je_id r) token \<in> set evs \<longrightarrow> Lease token \<notin> set evs" using more.prems(4) by auto
  then obtain r1 where r1: "r1 \<in> set (jobsOf t)" "sameJob r r1" using more.IH more.prems by blast
  have ok: "jobsOk (jobsOf t)" using run_jobsOk [OF more.hyps(1)] more.prems by blast
  have "\<not> held (je_id r1) token (jobsOf t)" if "ev = Finish (je_id r1) token" for token
    using run_not_held [OF more.hyps(1) more.prems(1,3), of token] more.prems(4) that r1(2) by (auto simp: sameJob_def)
  then show ?case using step_keeps_job [OF more.hyps(2) ok r1(1)] sameJob_trans [OF r1(2)] by blast
qed (use sameJob_refl in blast)

lemma released_not_held:
  assumes "jobsOk rows" "r \<in> set rows" "je_status r = Pending"
  shows "\<not> held (je_id r) token rows"
proof
  assume "held (je_id r) token rows"
  then obtain q where q: "q \<in> set rows" "je_id q = je_id r" "je_status q = Running" by (auto simp: held_def heldBy_def)
  then have "q = r" using jobsOk_unique [OF assms(1) q(1) assms(2)] by blast
  then show False using q(3) assms(3) by simp
qed

text \<open>Property C9. Work is resumed where it stopped: the cursor saved by a finish that did not complete
  the job is the cursor the next claim of that job hands out, by either operation, and the job is
  the same (its id, root, kind and path), whatever came between: claims of any jobs, empty and
  refused claims, finishes of other jobs, late finishes under the spent lease, recoveries, even
  claims of this job that were recovered. Only a finish of the job under a lease handed out since
  is excluded.\<close>

theorem cursor_resumed:
  assumes "jobsOk (sd_jobs (ss_db s))" "FinishJob env s j False cursor due lastError = (None, t)" "sched_run t evs u"
    "\<forall>token. Finish (j_ID j) token \<in> set evs \<longrightarrow> Lease token \<notin> set evs" "tookLease u j' v" "j_ID j' = j_ID j"
  shows "\<exists>r\<in>set (sd_jobs (ss_db s)). heldBy (j_ID j) (j_Token j) r \<and> j_Cursor j' = cursor \<and>
     j_RootID j' = je_root r \<and> j_Kind j' = je_kind r \<and> j_Path j' = je_path r"
  using assms(2)
proof (cases rule: FinishJob_cases)
  case (applied v')
  obtain r where r: "r \<in> set (jobsOf s)" "heldBy (j_ID j) (j_Token j) r"
    using applied(3) not_held_count [of "j_ID j" "j_Token j" "ss_db s"] by (auto simp: held_def)
  let ?r = "releaseJob cursor (unixNano due) (take 2048 lastError) r"
  have ok: "jobsOk (jobsOf t)" using finishRows_ok [OF assms(1) applied(2)] applied(4) by simp
  have t: "?r \<in> set (jobsOf t)" using r applied(4) by (force simp: finishRows_def Let_def)
  have id: "je_id ?r = j_ID j" using r(2) by (simp add: heldBy_def)
  have "\<not> held (je_id ?r) token (jobsOf t)" for token by (rule released_not_held [OF ok t]) simp
  then obtain r' where r': "r' \<in> set (jobsOf u)" "sameJob ?r r'"
    using run_keeps_job [OF assms(3) ok t] assms(4) unfolding id by blast
  obtain q where q: "q \<in> set (jobsOf u)" "je_id q = j_ID j'" "je_cursor q = j_Cursor j'"
      "jobKey q = (j_RootID j', j_Kind j', j_Path j')"
    by (rule tookLease_rows [OF assms(5) run_jobsOk [OF assms(3) ok]]) blast
  have "q = r'" using jobsOk_unique [OF run_jobsOk [OF assms(3) ok] q(1) r'(1)] q(2) assms(6) r'(2) id by (simp add: sameJob_def)
  then have "j_Cursor j' = cursor \<and> j_RootID j' = je_root r \<and> j_Kind j' = je_kind r \<and> j_Path j' = je_path r"
    using q(3,4) r'(2) by (simp add: sameJob_def jobKey_def releaseJob_def)
  then show ?thesis using r by blast
qed simp

lemma ClaimJob_roots: "ClaimJob env s kinds now lease = ((res, e), t) \<Longrightarrow> sd_roots (ss_db t) = sd_roots (ss_db s)"
  by (rule ClaimJob_cases) (auto simp: claimFrame_def updateJobs_def)

lemma FinishJob_roots: "FinishJob env s j finished cursor due lastError = (e, t) \<Longrightarrow> sd_roots (ss_db t) = sd_roots (ss_db s)"
  by (rule FinishJob_cases) auto

lemma FinishJob_jobs:
  "FinishJob env s j finished cursor due e = (None, t) \<Longrightarrow> jobsOf t = finishRows j finished cursor due e (jobsOf s)"
  by (rule FinishJob_cases) auto

lemma qx_released_row: "\<exists>r. jobsOf qxReleased = [r] \<and> je_id r = 1 \<and> je_root r = 1 \<and> je_kind r = ScanKind \<and>
    je_status r = Pending \<and> je_due r = unixNano sxNow"
proof -
  obtain i until where l: "leaseMove (drawnToken sxEnv) until i (jobsOf qxStore) (jobsOf qxClaimed)"
    using ClaimJob_move [OF qx_claim qx_ok(1)] by auto
  have "length (jobsOf qxClaimed) = 1" using l qx_ok(3) by (auto simp: leaseMove_def qxDb_def)
  then obtain q where q: "jobsOf qxClaimed = [q]" by (auto simp: length_Suc_conv)
  have held: "heldBy (j_ID qxHeld) (j_Token qxHeld) q" using qx_claimed(3) q by auto
  have key: "jobKey q = jobKey qxJob"
    by (rule tookLease_rows [OF qx_took qx_ok(1)]) (simp add: q qx_ok qxDb_def)
  have "jobsOf qxReleased = finishRows qxHeld False ''page-7'' sxNow [] (jobsOf qxClaimed)"
    using FinishJob_jobs [OF qx_finish(1)] .
  then show ?thesis
    using held key q qx_ids(1)
    by (simp add: finishRows_def Let_def releaseJob_def heldBy_def jobKey_def qxJob_def freshJob_def)
qed

lemma qx_reclaim: "\<exists>j v. ClaimJob qxEnv2 qxReleased [ScanKind] sxNow hour_ns = ((Some j, None), v) \<and> j_ID j = 1"
proof -
  obtain r where r: "jobsOf qxReleased = [r]" "je_id r = 1" "je_root r = 1" "je_kind r = ScanKind" "je_status r = Pending"
      "je_due r = unixNano sxNow" using qx_released_row by blast
  have "sd_roots (ss_db qxReleased) = [qxRoot]"
    using FinishJob_roots [OF qx_finish(1)] ClaimJob_roots [OF qx_claim] qx_ok(3) by (simp add: qxDb_def)
  then have "rootEnabled (ss_db qxReleased) 1" by (simp add: rootEnabled_def rootRow_def qxRoot_def)
  then have "dueRows (ss_db qxReleased) [ScanKind] sxNow = [r]" unfolding dueRows_def claimable_def r(1) filter.simps r(3-6) by simp
  then have e: "earliest (dueRows (ss_db qxReleased) [ScanKind] sxNow) = Some r" by simp
  have q: "quietCall qxEnv2" using sx_quiet unfolding quietCall_def qxEnv2_def by simp
  have ok: "jobsOk (jobsOf qxReleased)" using step_jobsOk [OF sched_step.finish [OF qx_finish(1)] qx_claimed(1)] .
  have l: "0 < hour_ns" "hour_ns \<le> 48 * hour_ns" "[ScanKind] \<noteq> []" by simp_all
  obtain v where "ClaimJob qxEnv2 qxReleased [ScanKind] sxNow hour_ns =
      ((Some (jobOf (ss_db qxReleased) (leaseJob (drawnToken qxEnv2) (unixNano (tAdd sxNow hour_ns)) r)), None), v)"
    using ClaimJob_success [OF q qx_finish(2) l(3) scan_kind_ok(2) l(1,2) ok e] by blast
  moreover have "j_ID (jobOf db (leaseJob tok until r)) = 1" for db tok until using r(2) by (simp add: jobOf_def)
  ultimately show ?thesis by blast
qed

theorem cursor_resumed_witness:
  "\<exists>j v. ClaimJob qxEnv2 qxReleased [ScanKind] sxNow hour_ns = ((Some j, None), v) \<and> j_Cursor j = ''page-7''"
proof -
  obtain j v where j: "ClaimJob qxEnv2 qxReleased [ScanKind] sxNow hour_ns = ((Some j, None), v)" "j_ID j = 1"
    using qx_reclaim by blast
  have "tookLease qxReleased j v" unfolding tookLease_def using j(1) by blast
  then have "j_Cursor j = ''page-7''"
    using cursor_resumed [OF qx_claimed(1) qx_finish(1) sched_run.stay, of j v] j(2) qx_ids(1) by auto
  then show ?thesis using j(1) by blast
qed

section \<open>Claiming and recovering\<close>

text \<open>Property C16. A claim takes the earliest job: on a well-formed table, when the storage answers, it
  hands out nothing only if no pending job of the asked kinds is due under an enabled root, and then
  changes nothing; otherwise it hands out the due job that comes first by due time and id, with its
  path, cursor and root, leased until the end of the lease under the token drawn.\<close>

theorem claim_takes_earliest:
  assumes "quietCall env" "\<not> ss_readOnly s" "kinds \<noteq> []" "kindsClause kinds = None" "0 < lease" "lease \<le> 48 * hour_ns"
    "jobsOk (sd_jobs (ss_db s))"
  shows "case ClaimJob env s kinds now lease of
       ((None, e), t) \<Rightarrow> e = None \<and> t = s \<and> dueRows (ss_db s) kinds now = []
     | ((Some j, e), t) \<Rightarrow> e = None \<and>
         (\<exists>r\<in>set (dueRows (ss_db s) kinds now). (\<forall>q\<in>set (dueRows (ss_db s) kinds now). \<not> jobBefore q r) \<and>
            j = jobOf (ss_db s) (leaseJob (drawnToken env) (unixNano (tAdd now lease)) r))"
proof (cases "earliest (dueRows (ss_db s) kinds now)")
  case None
  then have "ClaimJob env s kinds now lease = ((None, None), s)"
    using assms(1-6) unfolding dueRows_def by (simp add: ClaimJob_def Let_def)
  then show ?thesis using None by simp
next
  case (Some r)
  obtain t where "ClaimJob env s kinds now lease =
     ((Some (jobOf (ss_db s) (leaseJob (drawnToken env) (unixNano (tAdd now lease)) r)), None), t)"
    using ClaimJob_success [OF assms Some] by blast
  then show ?thesis using earliest_Some [OF Some] by auto
qed

theorem claim_takes_earliest_witness:
  "\<exists>r\<in>set (dueRows (ss_db qxStore) [ScanKind] sxNow).
     qxHeld = jobOf (ss_db qxStore) (leaseJob (drawnToken sxEnv) (unixNano (tAdd sxNow hour_ns)) r)"
  using claim_takes_earliest [OF sx_quiet qx_ok(2), of "[ScanKind]" hour_ns sxNow] scan_kind_ok(2) qx_ok(1) qx_claim by auto

text \<open>Property C36. Recovery loses nothing and frees everything: when it succeeds no job is running, the
  count it reports is the number that were, every job keeps its id, key, cursor and attempts, pending
  ones are untouched, inventory jobs keep their place in the order of due times, and a finish under
  any lease handed out before is refused as stale.\<close>

theorem recovery_frees_all:
  assumes "RecoverJobs env s now = ((n, None), t)" "quietCall env'" "length cursor \<le> MaxCursorBytes" "\<not> ss_readOnly t"
  shows "n = length (filter (\<lambda>r. je_status r = Running) (sd_jobs (ss_db s))) \<and>
     list_all (\<lambda>r. je_status r = Pending) (sd_jobs (ss_db t)) \<and>
     list_all2 (\<lambda>r r'. je_id r' = je_id r \<and> jobKey r' = jobKey r \<and> je_cursor r' = je_cursor r \<and>
        je_attempts r' = je_attempts r \<and> (je_status r = Pending \<longrightarrow> r' = r) \<and> (je_kind r = ScanKind \<longrightarrow> je_due r' = je_due r))
       (sd_jobs (ss_db s)) (sd_jobs (ss_db t)) \<and>
     FinishJob env' t j finished cursor due lastError = (Some ErrStaleLease, t)"
  using assms(1)
proof (cases rule: RecoverJobs_cases)
  case (recovered v)
  have t: "jobsOf t = recoveredJobs (unixNano now) (jobsOf s)" using recovered(2) by simp
  have pend: "list_all (\<lambda>r. je_status r = Pending) (jobsOf t)"
  proof -
    have "je_status (if je_status r = Running then recoverJob (unixNano now) r else r) = Pending" for r
      by (cases "je_status r") simp_all
    then show ?thesis unfolding t recoveredJobs_def list_all_iff set_map by blast
  qed
  have "\<not> held (j_ID j) (j_Token j) (jobsOf t)" unfolding t by (rule held_recover)
  then have "FinishJob env' t j finished cursor due lastError = (Some ErrStaleLease, t)"
    using stale_finish [OF assms(2,4,3)] by blast
  moreover have "list_all2 (\<lambda>r r'. je_id r' = je_id r \<and> jobKey r' = jobKey r \<and> je_cursor r' = je_cursor r \<and>
        je_attempts r' = je_attempts r \<and> (je_status r = Pending \<longrightarrow> r' = r) \<and> (je_kind r = ScanKind \<longrightarrow> je_due r' = je_due r))
       (jobsOf s) (jobsOf t)"
    unfolding t recoveredJobs_def list_all2_map2 by (intro list_all2_refl) (simp add: recoverJob_def jobKey_def)
  ultimately show ?thesis using recovered(1) pend by (simp add: jobCount_def)
qed simp

lemma RecoverJobs_quiet: "quietCall env \<Longrightarrow> \<not> ss_readOnly s \<Longrightarrow> ss_lock s \<Longrightarrow> \<exists>n t. RecoverJobs env s now = ((n, None), t)"
  by (simp add: RecoverJobs_def Let_def)

lemma RecoverJobs_handle: "RecoverJobs env s now = ((n, e), t) \<Longrightarrow> ss_readOnly t = ss_readOnly s"
  by (rule RecoverJobs_cases) auto

lemma ClaimJob_lock: "ClaimJob env s kinds now lease = ((res, e), t) \<Longrightarrow> ss_lock t = ss_lock s"
  by (rule ClaimJob_cases) auto

lemma qx_running: "length (filter (\<lambda>r. je_status r = Running) (jobsOf qxClaimed)) = 1"
proof -
  obtain i until where "leaseMove (drawnToken sxEnv) until i (jobsOf qxStore) (jobsOf qxClaimed)"
    using ClaimJob_move [OF qx_claim qx_ok(1)] by auto
  then obtain q where q: "jobsOf qxClaimed = [q]" using qx_ok(3) by (auto simp: leaseMove_def qxDb_def length_Suc_conv)
  then have "je_status q = Running" using qx_claimed(3) by (auto simp: heldBy_def)
  then show ?thesis by (simp add: q)
qed

theorem recovery_frees_all_witness:
  "\<exists>t. RecoverJobs sxEnv qxClaimed sxNow = ((1, None), t) \<and>
     FinishJob sxEnv t qxHeld True [] sxNow [] = (Some ErrStaleLease, t)"
proof -
  have "ss_lock qxClaimed" using ClaimJob_lock [OF qx_claim] by (simp add: qxStore_def sxStore_def)
  then obtain n t where t: "RecoverJobs sxEnv qxClaimed sxNow = ((n, None), t)"
    using RecoverJobs_quiet [OF sx_quiet qx_claimed(2)] by blast
  have "\<not> ss_readOnly t" using RecoverJobs_handle [OF t] qx_claimed(2) by simp
  then have "n = 1 \<and> FinishJob sxEnv t qxHeld True [] sxNow [] = (Some ErrStaleLease, t)"
    using recovery_frees_all [OF t sx_quiet, of "[]"] qx_running by simp
  then show ?thesis using t by blast
qed

text \<open>What is enqueued stays inside its root and is enqueued once: when adding a job succeeds,
  the table has exactly one row for the root, kind and cleaned path, that path has only names as
  elements (or is the root itself) and passes the check a claim makes, no other row changed, and
  adding the job again leaves the store as it is.\<close>

theorem enqueue_once_inside:
  assumes "quietCall env" "EnqueueJob env s rootID kind path due = (None, t)" "jobsOk (sd_jobs (ss_db s))"
    "rowidFresh env (sd_jobs (ss_db s))" "quietCall env'"
  shows "insideRoot (enqueuePath path) \<and> validRelative (enqueuePath path) \<and>
     length (filter (sameKey rootID kind (enqueuePath path)) (sd_jobs (ss_db t))) = 1 \<and>
     (\<exists>new. sd_jobs (ss_db t) = sd_jobs (ss_db s) @ new \<and> length new \<le> 1) \<and>
     EnqueueJob env' t rootID kind path due' = (None, t)"
proof -
  let ?p = "enqueuePath path"
  have ok: "\<not> ss_readOnly s" "0 < rootID" "validKind kind" "\<not> (length ?p > 4096 \<or> nulByte \<in> set ?p \<or> IsAbs ?p \<or> ?p = ''..'' \<or> HasPrefix ?p ''../'')"
    using assms(2) by (auto simp: EnqueueJob_def Let_def split: if_splits)
  have rel: "validRelative ?p" using enqueue_path_ok [OF ok(4)] .
  have inside: "insideRoot ?p" using rel clean_inside by (simp add: validRelative_def)
  have t: "jobsOk (jobsOf t)" using EnqueueJob_ok [OF assms(2-4)] .
  have new: "\<exists>new. jobsOf t = jobsOf s @ new \<and> length new \<le> 1" "\<exists>r\<in>set (jobsOf t). sameKey rootID kind ?p r" "ss_readOnly t = ss_readOnly s"
    using assms(1,2) ok by (auto simp: EnqueueJob_def Let_def list_ex_iff sameKey_def freshJob_def split: if_splits)
  obtain r where r: "r \<in> set (jobsOf t)" "sameKey rootID kind ?p r" using new(2) by blast
  have "sameKey rootID kind ?p q \<longleftrightarrow> je_id q = je_id r" if q: "q \<in> set (jobsOf t)" for q
    using t q r jobsOk_unique [OF t q r(1)] by (auto simp: jobsOk_def distinct_map inj_on_def sameKey_def jobKey_def)
  note count = unique_count [OF t r(1) this]
  have "EnqueueJob env' t rootID kind path due' = (None, t)"
    using ok r assms(5) new(3) by (simp add: EnqueueJob_def Let_def list_ex_iff) blast
  then show ?thesis using inside rel count new(1) by blast
qed

definition qxEnv3 :: sched_env where "qxEnv3 = sxEnv\<lparr>se_rowid := 9\<rparr>"

lemma qx_enqueue: "fst (EnqueueJob qxEnv3 qxStore 1 ''digest'' ''x/../b//c'' sxNow) = None" "enqueuePath ''x/../b//c'' = ''b/c''"
  by code_simp+

theorem enqueue_once_inside_witness:
  "\<exists>t. EnqueueJob qxEnv3 qxStore 1 ''digest'' ''x/../b//c'' sxNow = (None, t) \<and> insideRoot ''b/c'' \<and>
     EnqueueJob qxEnv3 t 1 ''digest'' ''x/../b//c'' sxLater = (None, t)"
proof -
  let ?t = "snd (EnqueueJob qxEnv3 qxStore 1 ''digest'' ''x/../b//c'' sxNow)"
  have call: "EnqueueJob qxEnv3 qxStore 1 ''digest'' ''x/../b//c'' sxNow = (None, ?t)" using qx_enqueue(1) by (metis prod.collapse)
  have q: "quietCall qxEnv3" using sx_quiet unfolding quietCall_def qxEnv3_def by simp
  have "rowidFresh qxEnv3 (jobsOf qxStore)" unfolding qx_ok(3) by (simp add: rowidFresh_def qxEnv3_def qxDb_def qxJob_def freshJob_def)
  then show ?thesis using call enqueue_once_inside [OF q call qx_ok(1) _ q] unfolding qx_enqueue(2) by blast
qed

end
