(* ===== verification/Turn_Window_Guarantees.thy ===== *)
theory Turn_Window_Guarantees
  imports Fair_Turns_Guarantees CPU_Window_Laws
begin

text \<open>
  The rotation and the CPU window together. The scheduling store is seen by \<open>BeginCPUWindow\<close> as the
  store of the CPU window: the same handle, cursor, dispatch row and jobs, with the feedback row
  beside them. A turn that was claimed passes every check the begin makes.
\<close>

section \<open>One store\<close>

definition statusText :: "job_status \<Rightarrow> string" where
  "statusText st = (case st of Pending \<Rightarrow> ''pending'' | Running \<Rightarrow> ''running'')"

definition windowJob :: "job_entry \<Rightarrow> CPU_Window.job_row" where
  "windowJob r = \<lparr>jr_id = je_id r, jr_root = je_root r, jr_kind = je_kind r, jr_status = statusText (je_status r),
     jr_token = je_token r, jr_lease = je_until r\<rparr>"

definition windowStore :: "saved_row \<Rightarrow> sched_store \<Rightarrow> fstore" where
  "windowStore row s =
     \<lparr>fs_id = ss_id s, fs_readOnly = ss_readOnly s, fs_schema = ss_schema s, fs_row = row,
      fs_cursor = (case savedCursor (ss_db s) of Inl e \<Rightarrow> Inl e | Inr c \<Rightarrow> Inr (fc_root c, fc_dispatch c)),
      fs_dispatch = Inr (sd_dispatch (ss_db s)), fs_jobs = map windowJob (sd_jobs (ss_db s))\<rparr>"

text \<open>The saved feedback allows a window at an instant: none is pending, the clock and the backoff are
  behind, and the last window used an earlier receipt.\<close>

definition feedbackIdle :: "CPUFeedbackState \<Rightarrow> gotime \<Rightarrow> gotime \<Rightarrow> bool" where
  "feedbackIdle fb now reservedAt \<longleftrightarrow> f_Status fb \<noteq> FPending \<and>
     (\<forall>h. f_ClockHighWater fb = Some h \<longrightarrow> t_ns h \<le> t_ns now) \<and>
     (\<forall>x. f_NextAllowedAt fb = Some x \<longrightarrow> t_ns x \<le> t_ns now) \<and>
     (\<forall>l. f_LastBegunDispatchAt fb = Some l \<longrightarrow> t_ns l < t_ns reservedAt)"

section \<open>What a claimed turn carries\<close>

lemma claimed_source:
  assumes "ClaimFairInventoryTurn env s scope now lease allow reservedAt = ((Some turn, None), t)" "jobsOk (jobsOf s)"
    "ft_Kind turn = TSource"
  shows "\<exists>j r. ft_Job turn = Some j \<and> j_RootID j = ft_RootID turn \<and> j_Kind j = ScanKind \<and>
     j_LeaseUntil j = unixTime (t_ns now + lease) \<and> r \<in> set (jobsOf t) \<and> je_id r = j_ID j \<and> je_root r = ft_RootID turn \<and>
     je_kind r = ScanKind \<and> je_status r = Running \<and> je_token r = j_Token j \<and> je_until r = t_ns now + lease"
  using assms(1)
proof (cases rule: ClaimFair_cases)
  case (claimed n reserved cursor sch jobID turn0 turn1 db1)
  note inp = claimInput_ok [OF claimed(1)]
  have turn: "turn = turn1\<lparr>ft_receipt := Some (newFairInventoryReceipt (ss_id s) turn1 reservedAt)\<rparr>" using claimed(8) by simp
  have "ft_Kind turn0 = TSource" using claimed(6) assms(3) turn by (auto split: if_splits)
  then have c: "claimSource env (ss_schema s) (ss_db s) turn0 jobID n (add64 n lease) = Inr (turn1, db1)" using claimed(6) by simp
  have until: "add64 n lease = t_ns now + lease" using inp(1,3,4,7,9) by (simp add: add64_def i64_def)
  obtain r where r: "r \<in> set (jobsOf s)" "je_id r = jobID" "pendingScan (ft_RootID turn0) r"
      "turn1 = turn0\<lparr>ft_Job := Some (jobOf (ss_db s) (leaseJob (drawnToken env) (add64 n lease) r))\<rparr>"
    by (rule claimSource_ok [OF c]) blast
  obtain g where g: "sd_jobs db1 = map g (jobsOf s)"
      "\<And>q. q \<in> set (jobsOf s) \<Longrightarrow> sameButClaim (g q) (if je_id q = jobID then leaseJob (drawnToken env) (add64 n lease) q else q)"
    using claimSource_move(1) [OF c assms(2)] unfolding leaseMove_def by blast
  note b = sameButClaim_fields [OF g(2) [OF r(1), unfolded r(2), simplified]]
  have "g r \<in> set (jobsOf t)" using claimed(7) g(1) r(1) by simp
  then show ?thesis
    using r b until
    by (intro exI [of _ "jobOf (ss_db s) (leaseJob (drawnToken env) (add64 n lease) r)"] exI [of _ "g r"])
      (simp add: turn jobOf_def pendingScan_def)
qed simp

lemma claimed_receipt:
  assumes "ClaimFairInventoryTurn env s scope now lease allow reservedAt = ((Some turn, None), t)" "jobsOk (jobsOf s)" "scope64 scope"
  shows "ft_receipt turn = Some \<lparr>rc_store = ss_id t, rc_root = ft_RootID turn, rc_path = ft_RootPath turn, rc_kind = ft_Kind turn,
      rc_job = ft_Job turn, rc_reservedAt = toUTC reservedAt\<rparr>"
    "ft_Kind turn = TSource \<or> ft_Kind turn = TMaintenance \<and> ft_Job turn = None"
    "savedCursor (ss_db t) = Inr \<lparr>fc_root = ft_RootID turn, fc_dispatch = t_ns reservedAt\<rparr>"
    "\<exists>d. sd_dispatch (ss_db t) = Some d \<and> d_last d = t_ns reservedAt \<and> d_last d < d_next d \<and> 1 \<le> d_chunks d \<and> d_day d = dateOnly reservedAt"
    "t_ns reservedAt \<le> t_ns now" "0 < t_ns reservedAt" "i64 (t_ns reservedAt)"
proof -
  show cur: "savedCursor (ss_db t) = Inr \<lparr>fc_root = ft_RootID turn, fc_dispatch = t_ns reservedAt\<rparr>"
    by (rule ClaimFair_cursor [OF assms(1,3,2)]) simp_all
  have "ft_receipt turn = Some \<lparr>rc_store = ss_id t, rc_root = ft_RootID turn, rc_path = ft_RootPath turn, rc_kind = ft_Kind turn,
      rc_job = ft_Job turn, rc_reservedAt = toUTC reservedAt\<rparr> \<and>
    (ft_Kind turn = TSource \<or> ft_Kind turn = TMaintenance \<and> ft_Job turn = None) \<and>
    (\<exists>d. sd_dispatch (ss_db t) = Some d \<and> d_last d = t_ns reservedAt \<and> d_last d < d_next d \<and> 1 \<le> d_chunks d \<and> d_day d = dateOnly reservedAt) \<and>
    t_ns reservedAt \<le> t_ns now \<and> 0 < t_ns reservedAt \<and> i64 (t_ns reservedAt)"
    using assms(1)
  proof (cases rule: ClaimFair_cases)
    case (claimed n reserved cursor sch jobID turn0 turn1 db1)
    note inp = claimInput_ok [OF claimed(1)]
    have turn: "turn = turn1\<lparr>ft_receipt := Some (newFairInventoryReceipt (ss_id s) turn1 reservedAt)\<rparr>" using claimed(8) by simp
    have kind: "ft_Kind turn0 = TSource \<or> ft_Kind turn0 = TMaintenance \<and> ft_Job turn0 = None"
      by (rule select_turn [OF claimed(4,5)]) (simp add: offeredTurn_def newTurn_def)
    have src: "ft_Kind turn1 = ft_Kind turn0 \<and> (ft_Kind turn0 \<noteq> TSource \<longrightarrow> turn1 = turn0)"
    proof (cases "ft_Kind turn0 = TSource")
      case True
      then have c: "claimSource env (ss_schema s) (ss_db s) turn0 jobID n (add64 n lease) = Inr (turn1, db1)" using claimed(6) by simp
      show ?thesis by (rule claimSource_ok [OF c]) (simp add: True)
    qed (use claimed(6) in simp)
    have "\<exists>d. sd_dispatch (ss_db s) = Some d \<and> d_last d = t_ns reservedAt \<and> d_last d < d_next d \<and> 1 \<le> d_chunks d \<and> d_day d = dateOnly reservedAt"
      using claimed(3) inp(2) by (auto simp: receiptUnused_def split: option.splits if_splits)
    moreover have "sd_dispatch (ss_db t) = sd_dispatch (ss_db s)"
      by (rule ClaimFair_cursor [OF assms(1,3,2)]) simp_all
    ultimately show ?thesis
      using kind src inp claimed(7) by (auto simp: turn newFairInventoryReceipt_def)
  qed simp
  then show "ft_receipt turn = Some \<lparr>rc_store = ss_id t, rc_root = ft_RootID turn, rc_path = ft_RootPath turn, rc_kind = ft_Kind turn,
      rc_job = ft_Job turn, rc_reservedAt = toUTC reservedAt\<rparr>"
    "ft_Kind turn = TSource \<or> ft_Kind turn = TMaintenance \<and> ft_Job turn = None"
    "\<exists>d. sd_dispatch (ss_db t) = Some d \<and> d_last d = t_ns reservedAt \<and> d_last d < d_next d \<and> 1 \<le> d_chunks d \<and> d_day d = dateOnly reservedAt"
    "t_ns reservedAt \<le> t_ns now" "0 < t_ns reservedAt" "i64 (t_ns reservedAt)" by blast+
qed

lemma sameCPUJob_refl [simp]: "sameCPUJob j j"
  by (cases j) (simp_all add: sameCPUJob_def tEqual_def)

section \<open>The window may begin\<close>

text \<open>Property C22. A claimed turn can be metered: after \<open>ClaimFairInventoryTurn\<close> returned a turn, and while
  its receipt is fresh and its lease runs, \<open>BeginCPUWindow\<close> on the same store finds nothing to refuse in
  the turn (its receipt, root, path and job), in the saved cursor and dispatch row (which the dispatch
  budget wrote with an interval of at most a day), or in the job's lease, provided the feedback
  itself is idle.\<close>

theorem claimed_turn_may_begin:
  assumes "ClaimFairInventoryTurn env s scope now lease allow reservedAt = ((Some turn, None), t)"
    "jobsOk (sd_jobs (ss_db s))" "scope64 scope"
    "\<forall>d. sd_dispatch (ss_db t) = Some d \<longrightarrow> d_next d - d_last d \<le> day_ns \<and> d_chunks d \<le> 100000"
    "cpuFeedbackTime at = Inr at'" "cpuFeedbackTime started = Inr started'" "t_ns started \<le> t_ns at" "metadataDigest inst 32"
    "t_ns now \<le> t_ns at" "t_ns at < t_ns reservedAt + 2 * second_ns" "t_ns at < t_ns now + lease"
    "feedbackIdle fb at reservedAt" "ft_receipt turn = Some r"
  shows "beginInputError (windowStore row t) (Some turn) at inst started = None \<and>
     beginSavedError dateOnly (windowStore row t) fb r (toUTC at) = None \<and>
     beginJobError (windowStore row t) r (toUTC at) = None"
proof -
  note c = claimed_receipt [OF assms(1-3)]
  have r: "r = \<lparr>rc_store = ss_id t, rc_root = ft_RootID turn, rc_path = ft_RootPath turn, rc_kind = ft_Kind turn,
      rc_job = ft_Job turn, rc_reservedAt = toUTC reservedAt\<rparr>" using c(1) assms(13) by simp
  have tm: "at' = toUTC at" "started' = toUTC started" using assms(5,6) by (auto simp: cpuFeedbackTime_def Let_def split: if_splits)
  have near: "\<not> tSub (toUTC at) (toUTC reservedAt) \<ge> 2 * second_ns" using assms(10) by (simp add: tSub_def sat64_def)
  have in_ok: "beginInputError (windowStore row t) (Some turn) at inst started = None"
    using assms(7-9) c(2,5) near
    unfolding beginInputError_def assms(5,6,13) prod.case sum.case option.case tm r
    by (auto simp: tAfter_def tBefore_def windowStore_def)
  obtain d where d: "sd_dispatch (ss_db t) = Some d" "d_last d = t_ns reservedAt" "d_last d < d_next d" "1 \<le> d_chunks d"
      "d_day d = dateOnly reservedAt" using c(4) by blast
  have gap: "sub64 (d_next d) (d_last d) \<le> day_ns" using assms(4) d(1,3) by (simp add: sub64_def i64_def)
  have day: "dateOnly (toUTC reservedAt) = dateOnly reservedAt" by (simp add: dateOnly_def utcDayOf_def)
  have saved: "beginSavedError dateOnly (windowStore row t) fb r (toUTC at) = None"
    using assms(4,12) d gap day c(3,7) unfolding r beginSavedError_def feedbackIdle_def windowStore_def
    by (auto simp: tBefore_def tAfter_def unixNano_def split: option.splits)
  have job: "beginJobError (windowStore row t) r (toUTC at) = None"
  proof (cases "ft_Kind turn = TSource")
    case True
    obtain j q where j: "ft_Job turn = Some j" "j_RootID j = ft_RootID turn" "j_Kind j = ScanKind"
        "j_LeaseUntil j = unixTime (t_ns now + lease)" and q: "q \<in> set (jobsOf t)" "je_id q = j_ID j" "je_root q = ft_RootID turn"
        "je_kind q = ScanKind" "je_status q = Running" "je_token q = j_Token j" "je_until q = t_ns now + lease"
      using claimed_source [OF assms(1,2) True] by blast
    have n: "unixNano (unixTime (t_ns now + lease)) = t_ns now + lease"
      using assms(1)
    proof (cases rule: ClaimFair_cases)
      case (claimed n reserved cursor sch jobID turn0 turn1 db1)
      then show ?thesis using claimInput_ok(1,3,4,7,9) [OF claimed(1)] by (simp add: unixNano_def i64_def)
    qed simp
    have "list_ex (\<lambda>x. jr_id x = j_ID j \<and> jr_root x = ft_RootID turn \<and> jr_kind x = ScanKind \<and> jr_status x = ''running'' \<and>
        jr_token x = j_Token j \<and> jr_lease x = unixNano (j_LeaseUntil j)) (fs_jobs (windowStore row t))"
      unfolding list_ex_iff windowStore_def using q j(4) n by (auto simp: windowJob_def statusText_def intro!: bexI [of _ q])
    then show ?thesis using True j assms(11) unfolding r beginJobError_def by (simp add: tAfter_def)
  next
    case False
    then show ?thesis using c(2) unfolding r by (simp add: beginJobError_def)
  qed
  show ?thesis using in_ok saved job by blast
qed

theorem claimed_turn_may_begin_witness:
  "\<exists>turn r. fxClaim = ((Some turn, None), fxTaken) \<and> ft_receipt turn = Some r \<and>
     beginSavedError dateOnly (windowStore NoRow fxTaken) (cpuFeedbackSnapshot True) r (toUTC (tAdd sxNow second_ns)) = None"
proof -
  obtain turn where c: "fxClaim = ((Some turn, None), fxTaken)" using fx_claim by blast
  obtain r where r: "ft_receipt turn = Some r" using claimed_receipt(1) [OF c fx_ok(1,2)] by blast
  have t: "cpuFeedbackTime (tAdd sxNow second_ns) = Inr (toUTC (tAdd sxNow second_ns))" by code_simp
  have d: "\<forall>d. sd_dispatch (ss_db fxTaken) = Some d \<longrightarrow> d_next d - d_last d \<le> day_ns \<and> d_chunks d \<le> 100000"
    unfolding fx_taken by (simp add: fxStore_def sxRow_def sxLater_def)
  have i: "metadataDigest (drawnToken sxEnv) 32" "feedbackIdle (cpuFeedbackSnapshot True) (tAdd sxNow second_ns) sxNow"
    by (simp_all add: feedbackIdle_def cpuFeedbackSnapshot_def)
  then show ?thesis using c r claimed_turn_may_begin [OF c fx_ok(1,2) d t t _ i(1) _ _ _ i(2) r] by simp
qed

end
