(* ===== verification/Fair_Plan.thy ===== *)
theory Fair_Plan
  imports Fair_Turns Metadata_Window
begin

text \<open>
  The worker's side of the rotation, \<^verbatim>\<open>src/internal/worker/fair_inventory.go\<close>: when to look for the
  next turn and what to report meanwhile, from the saved schedule, the readiness of the metadata
  budget and the due times of other jobs; and which parked streams to close.
\<close>

section \<open>The plan\<close>

record fairInventoryPlan =
  fp_schedule :: FairInventorySchedule
  fp_due :: gotime
  fp_waitReason :: string
  fp_allowSource :: bool
  fp_generic :: bool

text \<open>The due time and reason from the schedule: a turn is due now; otherwise the next source job, or
  the instant the metadata budget allows one.\<close>

definition scheduleDue :: "gotime \<Rightarrow> gotime \<Rightarrow> string \<Rightarrow> fairInventoryPlan \<Rightarrow> fairInventoryPlan" where
  "scheduleDue now allowed reason plan =
     (case sc_Turn (fp_schedule plan) of
        Some turn \<Rightarrow>
          let p = plan\<lparr>fp_due := now\<rparr> in
          if ft_Kind turn = TMaintenance then p\<lparr>fp_waitReason := ''inventory_maintenance''\<rparr> else p
      | None \<Rightarrow>
          if isZero (sc_NextSourceDue (fp_schedule plan)) then plan
          else
            let p1 = plan\<lparr>fp_due := sc_NextSourceDue (fp_schedule plan)\<rparr>;
                p2 = (if tAfter (fp_due p1) now then p1\<lparr>fp_waitReason := ''job_retry''\<rparr> else p1);
                p3 = (if reason \<noteq> [] \<and> \<not> tBefore allowed (fp_due p2)
                      then p2\<lparr>fp_due := allowed, fp_waitReason := reason\<rparr> else p2)
            in if tBefore (fp_due p3) now then p3\<lparr>fp_due := now\<rparr> else p3)"

text \<open>A static refusal of source reads has no timer.\<close>

definition staticRefusal :: "bool \<Rightarrow> string list \<Rightarrow> fairInventoryPlan \<Rightarrow> fairInventoryPlan" where
  "staticRefusal sourceEnabled permanent plan =
     (if \<not> sourceEnabled \<and> sc_Turn (fp_schedule plan) = None \<and> permanent \<noteq> [] \<and> hd permanent \<noteq> []
      then let p = plan\<lparr>fp_due := zeroTime\<rparr> in
        if \<not> isZero (sc_NextSourceDue (fp_schedule plan)) then p\<lparr>fp_waitReason := hd permanent\<rparr> else p
      else plan)"

definition genericDue :: "gotime \<Rightarrow> gotime \<Rightarrow> fairInventoryPlan \<Rightarrow> fairInventoryPlan" where
  "genericDue now due plan =
     (if \<not> isZero due \<and> (isZero (fp_due plan) \<or> tBefore due (fp_due plan) \<or>
           (\<not> fp_allowSource plan \<and> sc_Turn (fp_schedule plan) = None \<and> \<not> tAfter due now))
      then let p = plan\<lparr>fp_due := due, fp_generic := True, fp_waitReason := []\<rparr> in
        if tAfter due now then p\<lparr>fp_waitReason := ''job_retry''\<rparr> else p\<lparr>fp_due := now\<rparr>
      else plan)"

text \<open>\<open>env\<close> answers the turn selection and \<open>envDue\<close> the query for other jobs.\<close>

definition nextFairInventoryPlan ::
  "sched_env \<Rightarrow> sched_env \<Rightarrow> sched_store \<Rightarrow> FairInventoryRoots \<Rightarrow> string list \<Rightarrow> gotime \<Rightarrow> MetadataBudget \<Rightarrow> int \<Rightarrow>
   bool \<Rightarrow> string list \<Rightarrow> err + fairInventoryPlan" where
  "nextFairInventoryPlan env envDue s roots genericKinds now metadata startup sourceEnabled permanent =
     (case metadataReadiness metadata now startup of
        (_, _, Some e) \<Rightarrow> Inl e
      | (allowed, reason, None) \<Rightarrow>
          let allow = (reason = [] \<and> sourceEnabled) in
          (case NextFairInventoryTurn env s roots now allow of
             Inl e \<Rightarrow> Inl e
           | Inr sch \<Rightarrow>
               let plan0 = \<lparr>fp_schedule = sch, fp_due = zeroTime, fp_waitReason = [], fp_allowSource = allow, fp_generic = False\<rparr>;
                   plan1 = staticRefusal sourceEnabled permanent (scheduleDue now allowed reason plan0)
               in if genericKinds = [] then Inr plan1
                  else (case NextJobDue envDue s genericKinds of
                      (_, Some e) \<Rightarrow> Inl e
                    | (due, None) \<Rightarrow> Inr (genericDue now due plan1))))"

text \<open>The roots whose parked streams are closed, when there is a scanner.\<close>

definition releaseDormantRootStreams :: "bool \<Rightarrow> FairInventorySchedule \<Rightarrow> string list" where
  "releaseDormantRootStreams scanner sch = (if scanner then sc_DormantRoots sch else [])"

end
