(* ===== verification/Fair_Plan_Guarantees.thy ===== *)
theory Fair_Plan_Guarantees
  imports Fair_Plan Fair_Turns_Guarantees
begin

text \<open>
  What the worker's plan of \<open>Fair_Plan\<close> and the selection behind it promise: no timer in the past,
  streams closed only for idle roots, and the announced turn is the one taken.
\<close>

section \<open>What the plan promises\<close>

lemma scheduleDue_future:
  assumes "isZero (fp_due plan)" "p = scheduleDue now allowed reason plan"
  shows "isZero (fp_due p) \<or> t_ns now \<le> t_ns (fp_due p)" "fp_schedule p = fp_schedule plan"
    "sc_Turn (fp_schedule plan) \<noteq> None \<Longrightarrow> fp_due p = now" "fp_allowSource p = fp_allowSource plan"
  using assms by (auto simp: scheduleDue_def Let_def tBefore_def tAfter_def split: option.splits if_splits)

lemma NextFair_now: "NextFairInventoryTurn env s scope now allow = Inr sch \<Longrightarrow> 0 < t_ns now"
  using fairInventoryNow_ok(1,2) by (auto simp: NextFairInventoryTurn_def split: sum.splits)

lemma plan_parts:
  assumes "nextFairInventoryPlan env envDue s roots kinds now metadata startup sourceEnabled permanent = Inr plan"
  obtains allowed reason sch plan1 where
    "NextFairInventoryTurn env s roots now (reason = [] \<and> sourceEnabled) = Inr sch" "fp_schedule plan = sch"
    "fp_allowSource plan = (reason = [] \<and> sourceEnabled)" "metadataReadiness metadata now startup = (allowed, reason, None)"
    "isZero (fp_due plan1) \<or> t_ns now \<le> t_ns (fp_due plan1)" "sc_Turn sch \<noteq> None \<longrightarrow> fp_due plan1 = now"
    "plan = plan1 \<or> (\<exists>due. plan = genericDue now due plan1)"
proof -
  obtain allowed reason where m: "metadataReadiness metadata now startup = (allowed, reason, None)"
    using assms by (auto simp: nextFairInventoryPlan_def split: prod.splits option.splits)
  let ?allow = "reason = [] \<and> sourceEnabled"
  obtain sch where n: "NextFairInventoryTurn env s roots now ?allow = Inr sch"
    using assms m by (auto simp: nextFairInventoryPlan_def Let_def split: sum.splits)
  let ?p0 = "\<lparr>fp_schedule = sch, fp_due = zeroTime, fp_waitReason = [], fp_allowSource = ?allow, fp_generic = False\<rparr>"
  let ?s = "scheduleDue now allowed reason ?p0" let ?p1 = "staticRefusal sourceEnabled permanent ?s"
  have zero: "isZero (fp_due ?p0)" by (simp add: isZero_def)
  note sd = scheduleDue_future [OF zero refl, of now allowed reason]
  have p1: "isZero (fp_due ?p1) \<or> t_ns now \<le> t_ns (fp_due ?p1)" "sc_Turn sch \<noteq> None \<longrightarrow> fp_due ?p1 = now"
      "fp_schedule ?p1 = sch" "fp_allowSource ?p1 = ?allow"
    using sd by (auto simp: staticRefusal_def Let_def isZero_def)
  have "plan = ?p1 \<or> (\<exists>due. plan = genericDue now due ?p1)"
    using assms m n by (auto simp: nextFairInventoryPlan_def Let_def split: if_splits prod.splits option.splits)
  moreover have "fp_schedule (genericDue now due ?p1) = sch" "fp_allowSource (genericDue now due ?p1) = ?allow" for due
    using p1 by (simp_all add: genericDue_def Let_def)
  ultimately show thesis using that [OF n _ _ m p1(1,2)] p1(3,4) by metis
qed

text \<open>The worker never plans for the past: the instant of a plan is unset (nothing to wait
  for) or not before the time it was made, so no timer fires at once for work that is blocked; and
  when a turn was selected the plan is due exactly now, also when other work takes its place.\<close>

theorem plan_not_in_past:
  assumes "nextFairInventoryPlan env envDue s roots kinds now metadata startup sourceEnabled permanent = Inr plan"
  shows "(isZero (fp_due plan) \<or> t_ns now \<le> t_ns (fp_due plan)) \<and>
     (sc_Turn (fp_schedule plan) \<noteq> None \<longrightarrow> fp_due plan = now)"
proof (rule plan_parts [OF assms])
  fix allowed reason sch plan1
  assume n: "NextFairInventoryTurn env s roots now (reason = [] \<and> sourceEnabled) = Inr sch"
    and p: "isZero (fp_due plan1) \<or> t_ns now \<le> t_ns (fp_due plan1)" "sc_Turn sch \<noteq> None \<longrightarrow> fp_due plan1 = now"
    "plan = plan1 \<or> (\<exists>due. plan = genericDue now due plan1)" "fp_schedule plan = sch"
  have "\<not> isZero now" using NextFair_now [OF n] by (simp add: isZero_def zero_ns_def)
  then show ?thesis using p by (auto simp: genericDue_def Let_def tAfter_def tBefore_def split: if_splits)
qed

section \<open>What the selection promises\<close>

lemma visitRoot_dormant:
  assumes "visitRoot env k db now allow root acc = Inr acc'"
  shows "set (sc_DormantRoots (fst acc')) \<subseteq> set (sc_DormantRoots (fst acc)) \<union>
     (if rootEnabled db (fi_id root) \<and> (\<exists>r\<in>set (sd_jobs db). je_root r = fi_id root \<and> je_kind r = CPU_Window.ScanKind)
      then {} else {fi_path root})"
proof -
  have note_dormant: "sc_DormantRoots (fst (noteSource now allow root r acc)) = sc_DormantRoots (fst acc)" for r
    by (cases acc) (simp add: noteSource_def Let_def)
  show ?thesis
    using assms
    by (auto simp: visitRoot_def Let_def addDormant_def note_dormant rootEnabled_def list_ex_iff
        split: option.splits if_splits sum.splits)
qed

lemma visitRoots_dormant:
  assumes "visitRoots env k db now allow roots acc = Inr acc'" "p \<in> set (sc_DormantRoots (fst acc'))"
  shows "p \<in> set (sc_DormantRoots (fst acc)) \<or>
     (\<exists>root\<in>set roots. fi_path root = p \<and> (\<not> rootEnabled db (fi_id root) \<or>
        \<not> (\<exists>r\<in>set (sd_jobs db). je_root r = fi_id root \<and> je_kind r = CPU_Window.ScanKind)))"
  using assms
proof (induction roots arbitrary: k acc)
  case (Cons root roots)
  then obtain c where c: "visitRoot env k db now allow root acc = Inr c" "visitRoots env (k + 7) db now allow roots c = Inr acc'"
    by (auto split: sum.splits)
  show ?case using Cons.IH [OF c(2) Cons.prems(2)] visitRoot_dormant [OF c(1)] by (auto split: if_splits)
qed simp

lemma NextFair_parts:
  assumes "NextFairInventoryTurn env s scope now allow = Inr sch"
  obtains cursor jobID where "validFairScope s scope" "savedCursor (ss_db s) = Inr cursor"
    "selectFairInventoryTurn env (ss_db s) scope (t_ns now) allow cursor = Inr (sch, jobID)"
proof -
  obtain n where n: "fairInventoryNow env now = Inr n" and v: "validFairScope s scope"
    using assms by (auto simp: NextFairInventoryTurn_def split: sum.splits if_splits)
  obtain cursor where c: "readFairInventoryCursor env 1 (ss_db s) = Inr cursor"
    using assms n v by (auto simp: NextFairInventoryTurn_def split: sum.splits option.splits)
  have "\<exists>jobID. selectFairInventoryTurn env (ss_db s) scope n allow cursor = Inr (sch, jobID)"
    using assms n v c by (auto simp: NextFairInventoryTurn_def split: sum.splits option.splits)
  then show thesis using that [OF v readCursor_saved [OF c]] fairInventoryNow_ok(1) [OF n] by blast
qed

text \<open>Closing a dormant stream loses nothing: every root path the schedule reports as dormant,
  and so every stream the worker releases, is that of a root of the scope that is disabled or has no
  inventory job at all, neither pending nor running.\<close>

theorem released_streams_idle:
  assumes "NextFairInventoryTurn env s scope now allow = Inr sch" "p \<in> set (releaseDormantRootStreams scanner sch)"
  shows "\<exists>root\<in>set (fr_roots scope). fi_path root = p \<and> (\<not> rootEnabled (ss_db s) (fi_id root) \<or>
     \<not> (\<exists>r\<in>set (sd_jobs (ss_db s)). je_root r = fi_id root \<and> je_kind r = CPU_Window.ScanKind))"
proof -
  obtain cursor jobID where v: "validFairScope s scope"
    and sel: "selectFairInventoryTurn env (ss_db s) scope (t_ns now) allow cursor = Inr (sch, jobID)"
    by (rule NextFair_parts [OF assms(1)])
  have vis: "visitRoots env 20 (ss_db s) (t_ns now) allow (turnOrder (fr_roots scope) (fc_root cursor)) (zeroSchedule, 0) = Inr (sch, jobID)"
    using sel by (auto simp: selectFairInventoryTurn_def split: sum.splits option.splits)
  have "p \<in> set (sc_DormantRoots sch)" using assms(2) by (simp add: releaseDormantRootStreams_def split: if_splits)
  then show ?thesis
    using visitRoots_dormant [OF vis, of p] turnOrder_set [OF validFairScope_roots(1) [OF v]] by (auto simp: zeroSchedule_def)
qed

lemma select_value:
  assumes "selectFairInventoryTurn env db scope now allow cursor = Inr (sch, jobID)"
  shows "sc_Turn sch = map_option (offeredTurn db now allow) (nextRoot scope db now allow (fc_root cursor))"
proof -
  have v: "visitRoots env 20 db now allow (turnOrder (fr_roots scope) (fc_root cursor)) (zeroSchedule, 0) = Inr (sch, jobID)"
    using assms by (auto simp: selectFairInventoryTurn_def split: sum.splits option.splits)
  have "sc_Turn (fst (zeroSchedule, 0 :: int)) = None" by (simp add: zeroSchedule_def)
  from visitRoots_turn [OF v this] show ?thesis by (auto simp: nextRoot_def split: option.splits)
qed

lemma closeClaim_result: "closeClaim env k s db r = ((None, None), t) \<Longrightarrow> False"
  using closeClaim_cases [of env k s db r None None t] by simp

lemma ClaimFair_none:
  assumes "ClaimFairInventoryTurn env s scope now lease allow reservedAt = ((None, None), t)"
  obtains cursor sch jobID where "savedCursor (ss_db s) = Inr cursor"
    "selectFairInventoryTurn env (ss_db s) scope (t_ns now) allow cursor = Inr (sch, jobID)" "sc_Turn sch = None"
proof -
  obtain n reserved cursor where a: "claimInput env s scope now lease reservedAt = Inr (n, reserved)"
      "readFairInventoryCursor env 1 (ss_db s) = Inr cursor"
    using assms by (auto simp: ClaimFairInventoryTurn_def split: sum.splits option.splits)
  have "\<exists>sch jobID. selectFairInventoryTurn env (ss_db s) scope n allow cursor = Inr (sch, jobID) \<and> sc_Turn sch = None"
    using assms a unfolding ClaimFairInventoryTurn_def
    by (simp split: sum.splits option.splits prod.splits) (blast dest: closeClaim_result)
  then show thesis using that [OF readCursor_saved [OF a(2)]] claimInput_ok(1) [OF a(1)] by blast
qed

text \<open>Property C38. The turn that was planned is the turn that is taken: on the same saved state, at the same
  time and with the same readiness, \<open>ClaimFairInventoryTurn\<close> returns a turn for the root, path and kind
  that \<open>NextFairInventoryTurn\<close> announced, and returns none without an error only if none was announced.\<close>

theorem planned_turn_is_taken:
  assumes "NextFairInventoryTurn env s scope now allow = Inr sch"
    "ClaimFairInventoryTurn env' s scope now lease allow reservedAt = ((res, None), t)"
  shows "map_option (\<lambda>x. (ft_RootID x, ft_RootPath x, ft_Kind x)) res =
     map_option (\<lambda>x. (ft_RootID x, ft_RootPath x, ft_Kind x)) (sc_Turn sch)"
proof -
  obtain cursor jobID where cur: "savedCursor (ss_db s) = Inr cursor"
    and sel: "selectFairInventoryTurn env (ss_db s) scope (t_ns now) allow cursor = Inr (sch, jobID)"
    by (rule NextFair_parts [OF assms(1)])
  show ?thesis
  proof (cases res)
    case None
    obtain cursor' sch' jobID' where c: "savedCursor (ss_db s) = Inr cursor'" "sc_Turn sch' = None"
        "selectFairInventoryTurn env' (ss_db s) scope (t_ns now) allow cursor' = Inr (sch', jobID')"
      by (rule ClaimFair_none [OF assms(2) [unfolded None]])
    then show ?thesis using select_value [OF sel] select_value [OF c(3)] cur None by simp
  next
    case (Some turn)
    from assms(2) show ?thesis
    proof (cases rule: ClaimFair_cases)
      case (claimed n reserved cursor' sch' jobID' turn0 turn1 db1)
      have eq: "cursor' = cursor" "n = t_ns now" using readCursor_saved [OF claimed(2)] cur claimInput_ok(1) [OF claimed(1)] by simp_all
      have turn0: "sc_Turn sch = Some turn0" using select_value [OF sel] select_value [OF claimed(4)] claimed(5) by (simp add: eq)
      have "ft_RootID turn1 = ft_RootID turn0 \<and> ft_RootPath turn1 = ft_RootPath turn0 \<and> ft_Kind turn1 = ft_Kind turn0"
      proof (cases "ft_Kind turn0 = TSource")
        case True
        then have c: "claimSource env' (ss_schema s) (ss_db s) turn0 jobID' n (add64 n lease) = Inr (turn1, db1)" using claimed(6) by simp
        show ?thesis by (rule claimSource_ok [OF c]) simp
      qed (use claimed(6) in simp)
      then show ?thesis using turn0 claimed(8) Some by simp
    qed (simp add: Some)
  qed
qed

section \<open>A plan\<close>

definition fpBudget :: MetadataBudget where
  "fpBudget = \<lparr>mb_contract = MetadataBudgetContract, mb_available = True, mb_status = ''tracking'', mb_reason = [], mb_day = None,
     mb_limit = 1000000, mb_trackingStartedAt = None, mb_clockHighWater = None, mb_preTracking = ''unknown'', mb_dayCharges = None,
     mb_totalCharges = None, mb_nextAllowedAt = None\<rparr>"

abbreviation fpTime :: gotime where "fpTime \<equiv> tAdd sxNow second_ns"

lemma fp_next: "\<exists>sch. NextFairInventoryTurn sxEnv fxStore fxScope fpTime True = Inr sch \<and> ''/a'' \<in> set (sc_DormantRoots sch)"
proof -
  have "(case NextFairInventoryTurn sxEnv fxStore fxScope fpTime True of Inl _ \<Rightarrow> False | Inr sch \<Rightarrow> sc_DormantRoots sch = [''/a''])" by code_simp
  then show ?thesis by (auto split: sum.splits)
qed

lemma fp_plan: "\<exists>plan. nextFairInventoryPlan sxEnv sxEnv fxStore fxScope [] fpTime fpBudget 0 True [] = Inr plan"
proof -
  have "\<not> isl (nextFairInventoryPlan sxEnv sxEnv fxStore fxScope [] fpTime fpBudget 0 True [])" by code_simp
  then show ?thesis by (cases "nextFairInventoryPlan sxEnv sxEnv fxStore fxScope [] fpTime fpBudget 0 True []") simp_all
qed

theorem plan_not_in_past_witness:
  "\<exists>plan. nextFairInventoryPlan sxEnv sxEnv fxStore fxScope [] fpTime fpBudget 0 True [] = Inr plan \<and>
     (isZero (fp_due plan) \<or> t_ns fpTime \<le> t_ns (fp_due plan))"
  using fp_plan plan_not_in_past [of sxEnv sxEnv fxStore fxScope "[]" fpTime fpBudget 0 True "[]"] by blast

theorem released_streams_idle_witness:
  "\<exists>root\<in>set (fr_roots fxScope). fi_path root = ''/a'' \<and> (\<not> rootEnabled (ss_db fxStore) (fi_id root) \<or>
     \<not> (\<exists>r\<in>set (sd_jobs (ss_db fxStore)). je_root r = fi_id root \<and> je_kind r = CPU_Window.ScanKind))"
proof -
  obtain sch where s: "NextFairInventoryTurn sxEnv fxStore fxScope fpTime True = Inr sch" "''/a'' \<in> set (sc_DormantRoots sch)"
    using fp_next by blast
  have "''/a'' \<in> set (releaseDormantRootStreams True sch)" using s(2) by (simp add: releaseDormantRootStreams_def)
  then show ?thesis using released_streams_idle [OF s(1)] by blast
qed

theorem planned_turn_is_taken_witness:
  "\<exists>sch turn. NextFairInventoryTurn sxEnv fxStore fxScope fpTime True = Inr sch \<and> fxClaim = ((Some turn, None), fxTaken) \<and>
     map_option ft_RootID (sc_Turn sch) = Some (ft_RootID turn)"
proof -
  obtain sch where s: "NextFairInventoryTurn sxEnv fxStore fxScope fpTime True = Inr sch" using fp_next by blast
  obtain turn where c: "fxClaim = ((Some turn, None), fxTaken)" using fx_claim by blast
  have "map_option ft_RootID (sc_Turn sch) = Some (ft_RootID turn)"
    using arg_cong [OF planned_turn_is_taken [OF s c], of "map_option fst"] by (simp add: option.map_comp comp_def)
  then show ?thesis using s c by blast
qed

end
