(* ===== verification/State_Budget.thy ===== *)
theory State_Budget
  imports Rydd_Prelude Go_Paths "HOL-Library.Word"
begin

text \<open>
  The size of the inventory database, \<^verbatim>\<open>src/internal/state/state_budget.go\<close> and
  \<^verbatim>\<open>state_budget_sampler.go\<close>: one sequential observation of the database file and its write-ahead
  log by four \<open>lstat\<close> calls in two rounds, under a clock that refuses rollbacks and more than five
  seconds, and the sampler that carries only the name of the file.
\<close>

unbundle bit_operations_syntax

section \<open>Data\<close>

abbreviation InventoryStateBudgetContract :: string where
  "InventoryStateBudgetContract \<equiv> ''inventory_state_budget_v1''"
abbreviation inventoryStateScope :: string where
  "inventoryStateScope \<equiv> ''configured_inventory_database_and_wal''"
abbreviation MinInventoryStateBytes :: int where "MinInventoryStateBytes \<equiv> 1048576"
abbreviation MaxInventoryStateBytes :: int where "MaxInventoryStateBytes \<equiv> 1099511627776"
abbreviation inventoryStateSampleTimeout :: int where "inventoryStateSampleTimeout \<equiv> 5 * second_ns"

record InventoryStateBudget =
  sb_Contract :: string
  sb_Scope :: string
  sb_Available :: bool
  sb_Status :: string
  sb_Reason :: string
  sb_Limit :: int
  sb_DatabaseBytes :: "int option"
  sb_WALBytes :: "int option"
  sb_TotalBytes :: "int option"
  sb_SampleStartedAt :: gotime
  sb_SampleFinishedAt :: gotime
  sb_SequentialObservations :: bool
  sb_HardLimitEnforced :: bool
  sb_PhysicalAllocationVerified :: bool
  sb_NamespaceAuthenticated :: bool
  sb_OtherStoresIncluded :: bool

text \<open>\<open>unix.Stat_t\<close> with the fields the code reads.\<close>

record file_stat =
  st_Dev :: int
  st_Ino :: int
  st_Mode :: "32 word"
  st_Uid :: int
  st_Gid :: int
  st_Nlink :: int
  st_Size :: int
  st_Mtim :: "int \<times> int"
  st_Ctim :: "int \<times> int"

text \<open>A stamp is absent when the name was not there.\<close>

type_synonym inventoryStateStamp = "file_stat option"

text \<open>
  What the surroundings answer during one observation: the two clocks at its start; for the check
  with number \<open>k\<close> the error of the context before it, the two clocks, and the error after it; the
  error of the context after the last check; the answers of \<open>lstat\<close>, an error or a stat, by the
  number of the call; and the effective user.
\<close>

record sample_env =
  be_parent :: "err option"
  be_start :: "gotime \<times> gotime"
  be_before :: "nat \<Rightarrow> err option"
  be_clock :: "nat \<Rightarrow> gotime \<times> gotime"
  be_after :: "nat \<Rightarrow> err option"
  be_final :: "err option"
  be_stat :: "nat \<Rightarrow> err + file_stat"
  be_euid :: int

abbreviation ENOENT :: err where "ENOENT \<equiv> SourceError ''no such file or directory''"

record inventoryStateClock =
  ik_startedWall :: gotime
  ik_startedElapsed :: gotime
  ik_highWall :: gotime
  ik_highElapsed :: gotime
  ik_refusal :: "err option"

section \<open>One observation\<close>

definition clockRefusal :: "inventoryStateClock \<Rightarrow> gotime \<Rightarrow> gotime \<Rightarrow> err option" where
  "clockRefusal c wall elapsed =
     (if tBefore wall (ik_highWall c) \<or> tBefore elapsed (ik_highElapsed c) then Some ErrInventoryStateBudgetClock
      else if \<not> tBefore wall (tAdd (ik_startedWall c) inventoryStateSampleTimeout) \<or>
              \<not> tBefore elapsed (tAdd (ik_startedElapsed c) inventoryStateSampleTimeout)
      then Some ContextDeadlineExceeded else None)"

definition clockCheck :: "sample_env \<Rightarrow> nat \<Rightarrow> inventoryStateClock \<Rightarrow> inventoryStateClock \<times> (err + gotime)" where
  "clockCheck env k c =
     (case be_before env k of
        Some e \<Rightarrow> (c, Inl e)
      | None \<Rightarrow> (case ik_refusal c of
          Some e \<Rightarrow> (c, Inl e)
        | None \<Rightarrow>
            let wall = toUTC (fst (be_clock env k)); elapsed = snd (be_clock env k) in
            (case clockRefusal c wall elapsed of
               Some e \<Rightarrow> (c\<lparr>ik_refusal := Some e\<rparr>, Inl e)
             | None \<Rightarrow>
                 let c' = c\<lparr>ik_highWall := wall, ik_highElapsed := elapsed\<rparr> in
                 (case be_after env k of Some e \<Rightarrow> (c', Inl e) | None \<Rightarrow> (c', Inr wall)))))"

definition validInventoryStateFile :: "int \<Rightarrow> file_stat \<Rightarrow> bool" where
  "validInventoryStateFile euid st \<longleftrightarrow>
     st_Mode st AND 0xF000 = 0x8000 \<and> st_Mode st AND 0x3F = 0 \<and> st_Mode st AND 0xE00 = 0 \<and>
     st_Uid st = euid \<and> st_Nlink st = 1 \<and> st_Size st \<ge> 0"

definition sameInventoryStateStamp :: "inventoryStateStamp \<Rightarrow> inventoryStateStamp \<Rightarrow> bool" where
  "sameInventoryStateStamp a b =
     (case (a, b) of
        (None, None) \<Rightarrow> True
      | (Some x, Some y) \<Rightarrow>
          st_Dev x = st_Dev y \<and> st_Ino x = st_Ino y \<and> st_Mode x = st_Mode y \<and> st_Uid x = st_Uid y \<and>
          st_Gid x = st_Gid y \<and> st_Nlink x = st_Nlink y \<and> st_Size x = st_Size y \<and>
          st_Mtim x = st_Mtim y \<and> st_Ctim x = st_Ctim y
      | _ \<Rightarrow> False)"

definition newReport :: "int \<Rightarrow> gotime \<Rightarrow> InventoryStateBudget" where
  "newReport limit startedWall =
     \<lparr>sb_Contract = InventoryStateBudgetContract, sb_Scope = inventoryStateScope, sb_Available = False,
      sb_Status = ''unavailable'', sb_Reason = ''inventory_state_unavailable'', sb_Limit = limit,
      sb_DatabaseBytes = None, sb_WALBytes = None, sb_TotalBytes = None, sb_SampleStartedAt = startedWall,
      sb_SampleFinishedAt = zeroTime, sb_SequentialObservations = True, sb_HardLimitEnforced = False,
      sb_PhysicalAllocationVerified = False, sb_NamespaceAuthenticated = False, sb_OtherStoresIncluded = False\<rparr>"

definition finishReport ::
  "sample_env \<Rightarrow> nat \<Rightarrow> inventoryStateClock \<Rightarrow> InventoryStateBudget \<Rightarrow> err + InventoryStateBudget" where
  "finishReport env k c report =
     (case snd (clockCheck env k c) of
        Inl e \<Rightarrow> Inl e
      | Inr stamp \<Rightarrow> (case be_final env of Some e \<Rightarrow> Inl e | None \<Rightarrow> Inr (report\<lparr>sb_SampleFinishedAt := stamp\<rparr>)))"

text \<open>One pass of the two loops, number \<open>k\<close> of round \<open>k div 2\<close> and file \<open>k mod 2\<close> (0 the database, 1
  its log): an error, an early finish with the reason to report, or the next pass.\<close>

datatype pass = PassError err | PassFinish inventoryStateClock string
  | PassNext inventoryStateClock "nat \<Rightarrow> inventoryStateStamp"

definition statPass :: "sample_env \<Rightarrow> nat \<Rightarrow> inventoryStateClock \<Rightarrow> (nat \<Rightarrow> inventoryStateStamp) \<Rightarrow> pass" where
  "statPass env k c before =
     (case clockCheck env k c of
        (_, Inl e) \<Rightarrow> PassError e
      | (c', Inr _) \<Rightarrow>
          (case be_stat env k of
             Inl e \<Rightarrow>
               if \<not> (k mod 2 = 1 \<and> errIs e ENOENT) then PassFinish c' ''inventory_state_unavailable''
               else if k < 2 then PassNext c' (before(k mod 2 := None))
               else if \<not> sameInventoryStateStamp (before (k mod 2)) None then PassFinish c' ''inventory_state_changed''
               else PassNext c' before
           | Inr st \<Rightarrow>
               if \<not> validInventoryStateFile (be_euid env) st then PassFinish c' ''inventory_state_unavailable''
               else if k < 2 then PassNext c' (before(k mod 2 := Some st))
               else if \<not> sameInventoryStateStamp (before (k mod 2)) (Some st) then PassFinish c' ''inventory_state_changed''
               else PassNext c' before))"

definition sizedReport :: "int \<Rightarrow> int \<Rightarrow> int \<Rightarrow> InventoryStateBudget \<Rightarrow> InventoryStateBudget" where
  "sizedReport limit database wal report0 =
     (let report = report0\<lparr>sb_DatabaseBytes := Some database, sb_WALBytes := Some wal\<rparr> in
      if database > sub64 maxInt64 wal then report\<lparr>sb_Reason := ''inventory_state_overflow''\<rparr>
      else let tot = add64 database wal;
               r = report\<lparr>sb_Available := True, sb_Status := ''below_limit'', sb_Reason := [], sb_TotalBytes := Some tot\<rparr> in
        if tot \<ge> limit then r\<lparr>sb_Status := ''limit_reached'', sb_Reason := ''inventory_state_limit''\<rparr> else r)"

fun statPasses ::
  "sample_env \<Rightarrow> int \<Rightarrow> InventoryStateBudget \<Rightarrow> nat list \<Rightarrow> inventoryStateClock \<Rightarrow> (nat \<Rightarrow> inventoryStateStamp) \<Rightarrow>
   err + InventoryStateBudget" where
  "statPasses env limit report [] c before =
     finishReport env 4 c (sizedReport limit (case before 0 of None \<Rightarrow> 0 | Some st \<Rightarrow> st_Size st)
       (case before 1 of None \<Rightarrow> 0 | Some st \<Rightarrow> st_Size st) report)"
| "statPasses env limit report (k # ks) c before =
     (case statPass env k c before of
        PassError e \<Rightarrow> Inl e
      | PassFinish c' reason \<Rightarrow> finishReport env (k + 1) c' (report\<lparr>sb_Reason := reason\<rparr>)
      | PassNext c' before' \<Rightarrow> statPasses env limit report ks c' before')"

definition inventoryStateBudgetAtPath :: "sample_env \<Rightarrow> bool \<Rightarrow> string \<Rightarrow> int \<Rightarrow> err + InventoryStateBudget" where
  "inventoryStateBudgetAtPath env ctxNil path limit =
     (if ctxNil \<or> limit < MinInventoryStateBytes \<or> limit > MaxInventoryStateBytes
      then Inl ErrInventoryStateBudgetInput
      else case be_parent env of
        Some e \<Rightarrow> Inl e
      | None \<Rightarrow>
          let startedWall = toUTC (fst (be_start env)); startedElapsed = snd (be_start env);
              clock = \<lparr>ik_startedWall = startedWall, ik_startedElapsed = startedElapsed, ik_highWall = startedWall,
                       ik_highElapsed = startedElapsed, ik_refusal = None\<rparr>;
              report = newReport limit startedWall
          in if path = [] then finishReport env 0 clock report
             else statPasses env limit report [0, 1, 2, 3] clock (\<lambda>_. None))"

section \<open>The sampler\<close>

text \<open>The allocated identity of a sampler is a number; the zero sampler has none.\<close>

record InventoryStateBudgetSampler =
  sm_path :: string
  sm_identity :: "nat option"

definition newSampler :: "string option \<Rightarrow> nat \<Rightarrow> err + InventoryStateBudgetSampler" where
  "newSampler store identity =
     (case store of
        None \<Rightarrow> Inl ErrInventoryStateBudgetInput
      | Some path \<Rightarrow>
          if length path = 0 \<or> length path > 4096 \<or> \<not> IsAbs path \<or> Clean path \<noteq> path \<or> CHR 0x00 \<in> set path
          then Inl ErrInventoryStateBudgetInput
          else Inr \<lparr>sm_path = path, sm_identity = Some identity\<rparr>)"

definition SameScope :: "InventoryStateBudgetSampler \<Rightarrow> InventoryStateBudgetSampler \<Rightarrow> bool" where
  "SameScope s other \<longleftrightarrow> sm_identity s \<noteq> None \<and> sm_identity other \<noteq> None \<and> s = other"

definition samplerObserve ::
  "sample_env \<Rightarrow> bool \<Rightarrow> InventoryStateBudgetSampler \<Rightarrow> int \<Rightarrow> err + InventoryStateBudget" where
  "samplerObserve env ctxNil s limit =
     (if sm_identity s = None then Inl ErrInventoryStateBudgetInput
      else inventoryStateBudgetAtPath env ctxNil (sm_path s) limit)"

text \<open>\<open>Store.InventoryStateBudget\<close>: a nil store has no name.\<close>

definition storeStateBudget :: "sample_env \<Rightarrow> bool \<Rightarrow> string option \<Rightarrow> int \<Rightarrow> err + InventoryStateBudget" where
  "storeStateBudget env ctxNil store limit =
     inventoryStateBudgetAtPath env ctxNil (case store of None \<Rightarrow> [] | Some path \<Rightarrow> path) limit"

end
