(* ===== verification/State_Policy.thy ===== *)
theory State_Policy
  imports State_Budget
begin

text \<open>
  The worker's evidence about the size of the inventory database,
  \<^verbatim>\<open>src/internal/worker/state_budget_policy.go\<close>: the check of a reported observation, the cached
  decision with its five-minute retry on two clocks, and the snapshot shown to the outside. Pointers
  to copied values are the values; cloning is the identity.
\<close>

section \<open>Data\<close>

abbreviation InventoryStatePolicyContract :: string where
  "InventoryStatePolicyContract \<equiv> ''worker_inventory_state_admission_v2''"
abbreviation inventoryStateRetryInterval :: int where "inventoryStateRetryInterval \<equiv> 5 * minute_ns"
abbreviation inventoryStateSampleWindow :: int where "inventoryStateSampleWindow \<equiv> 2 * second_ns"

record InventoryStatePolicySnapshot =
  ip_Contract :: string
  ip_PolicyEnabled :: bool
  ip_SourceOnly :: bool
  ip_Persistent :: bool
  ip_Limit :: int
  ip_RetryIntervalNS :: int
  ip_LastAttemptPhase :: string
  ip_LastAttemptStartedAt :: "gotime option"
  ip_LastAttemptFinishedAt :: "gotime option"
  ip_LastDecisionStatus :: string
  ip_LastDecisionReason :: string
  ip_LastSourceBackoff :: "bool option"
  ip_RetryStartedAt :: "gotime option"
  ip_RetryAfterAt :: "gotime option"
  ip_Observation :: "InventoryStateBudget option"
  ip_SamplingState :: string
  ip_CallbackReturned :: bool
  ip_ProcessSlotOccupied :: bool

record sourceInventoryState =
  si_enabled :: bool
  si_limit :: int
  si_phase :: string
  si_status :: string
  si_reason :: string
  si_startedWall :: gotime
  si_finishedWall :: gotime
  si_backoff :: bool
  si_observation :: "InventoryStateBudget option"
  si_retryWall :: gotime
  si_retryElapsed :: gotime
  si_highWall :: gotime
  si_highElapsed :: gotime

definition newSourceState :: "bool \<Rightarrow> int \<Rightarrow> sourceInventoryState" where
  "newSourceState enabled limit =
     \<lparr>si_enabled = enabled, si_limit = limit, si_phase = [], si_status = [], si_reason = [],
      si_startedWall = zeroTime, si_finishedWall = zeroTime, si_backoff = False, si_observation = None,
      si_retryWall = zeroTime, si_retryElapsed = zeroTime, si_highWall = zeroTime, si_highElapsed = zeroTime\<rparr>"

section \<open>The check of an observation\<close>

definition validStateHeader :: "InventoryStateBudget \<Rightarrow> int \<Rightarrow> gotime \<Rightarrow> gotime \<Rightarrow> bool" where
  "validStateHeader r limit started finished \<longleftrightarrow>
     \<not> (sb_Contract r \<noteq> InventoryStateBudgetContract \<or> sb_Scope r \<noteq> inventoryStateScope \<or> sb_Limit r \<noteq> limit \<or>
        \<not> sb_SequentialObservations r \<or> sb_HardLimitEnforced r \<or> sb_PhysicalAllocationVerified r \<or>
        sb_NamespaceAuthenticated r \<or> sb_OtherStoresIncluded r \<or> isZero (sb_SampleStartedAt r) \<or>
        tBefore (sb_SampleFinishedAt r) (sb_SampleStartedAt r) \<or> tBefore (sb_SampleStartedAt r) started \<or>
        tAfter (sb_SampleFinishedAt r) finished)"

definition validUnavailable :: "InventoryStateBudget \<Rightarrow> bool" where
  "validUnavailable r \<longleftrightarrow>
     \<not> (sb_Status r \<noteq> ''unavailable'' \<or> sb_TotalBytes r \<noteq> None) \<and>
     (if sb_Reason r = ''inventory_state_unavailable'' \<or> sb_Reason r = ''inventory_state_changed''
      then sb_DatabaseBytes r = None \<and> sb_WALBytes r = None
      else if sb_Reason r = ''inventory_state_overflow''
      then (case (sb_DatabaseBytes r, sb_WALBytes r) of
          (Some db, Some wal) \<Rightarrow> db \<ge> 0 \<and> wal \<ge> 0 \<and> db > sub64 maxInt64 wal
        | _ \<Rightarrow> False)
      else False)"

definition validAvailable :: "InventoryStateBudget \<Rightarrow> int \<Rightarrow> bool" where
  "validAvailable r limit \<longleftrightarrow>
     (case (sb_DatabaseBytes r, sb_WALBytes r, sb_TotalBytes r) of
        (Some db, Some wal, Some tot) \<Rightarrow>
          \<not> (db < 0 \<or> wal < 0 \<or> db > sub64 maxInt64 wal \<or> tot \<noteq> add64 db wal) \<and>
          (if tot < limit then sb_Status r = ''below_limit'' \<and> sb_Reason r = []
           else sb_Status r = ''limit_reached'' \<and> sb_Reason r = ''inventory_state_limit'')
      | _ \<Rightarrow> False)"

definition validInventoryStateObservation :: "InventoryStateBudget \<Rightarrow> int \<Rightarrow> gotime \<Rightarrow> gotime \<Rightarrow> bool" where
  "validInventoryStateObservation r limit started finished \<longleftrightarrow>
     validStateHeader r limit started finished \<and>
     (if \<not> sb_Available r then validUnavailable r else validAvailable r limit)"

section \<open>The cached decision\<close>

definition stateRemaining :: "sourceInventoryState \<Rightarrow> gotime \<Rightarrow> gotime \<Rightarrow> int \<times> sourceInventoryState" where
  "stateRemaining p wall0 elapsed =
     (if \<not> si_backoff p then (0, p)
      else let wall = toUTC (round0 wall0) in
        (max 0 (max (max (tSub (si_retryWall p) wall) (tSub (si_retryElapsed p) elapsed))
                    (max (tSub (si_highWall p) wall) (tSub (si_highElapsed p) elapsed))),
         p\<lparr>si_highWall := (if tAfter wall (si_highWall p) then wall else si_highWall p),
           si_highElapsed := (if tAfter elapsed (si_highElapsed p) then elapsed else si_highElapsed p)\<rparr>))"

text \<open>The verdict of one attempt: the reason to defer source work, empty when it is admitted, and the
  observation kept.\<close>

definition attemptVerdict ::
  "int \<Rightarrow> InventoryStateBudget \<Rightarrow> err option \<Rightarrow> gotime \<Rightarrow> gotime \<Rightarrow> gotime \<Rightarrow> gotime \<Rightarrow>
   string \<times> bool \<times> InventoryStateBudget option" where
  "attemptVerdict limit report e startedWall startedElapsed finishedWall finishedElapsed =
     (if tBefore finishedWall startedWall \<or> tBefore finishedElapsed startedElapsed \<or>
         optIs e ErrInventoryStateBudgetClock
      then (''inventory_state_clock'', True, None)
      else if optIs e ContextDeadlineExceeded \<or> tSub finishedWall startedWall \<ge> inventoryStateSampleWindow \<or>
              tSub finishedElapsed startedElapsed \<ge> inventoryStateSampleWindow
      then (''inventory_state_timeout'', True, None)
      else if optIs e ContextCanceled then (''inventory_state_canceled'', True, None)
      else if e \<noteq> None then (''inventory_state_unavailable'', True, None)
      else if \<not> validInventoryStateObservation report limit startedWall finishedWall
      then (''inventory_state_invalid'', True, None)
      else if sb_Available report \<and> sb_Status report = ''below_limit'' then ([], False, Some report)
      else if sb_Status report = ''limit_reached'' then (''inventory_state_limit'', True, Some report)
      else if sb_Reason report = ''inventory_state_changed'' \<or> sb_Reason report = ''inventory_state_overflow''
      then (sb_Reason report, True, Some report)
      else (''inventory_state_unavailable'', True, Some report))"

definition stateRecord ::
  "sourceInventoryState \<Rightarrow> string \<Rightarrow> InventoryStateBudget \<Rightarrow> err option \<Rightarrow> gotime \<Rightarrow> gotime \<Rightarrow> gotime \<Rightarrow> gotime \<Rightarrow>
   bool \<times> sourceInventoryState" where
  "stateRecord p phase report e startedWall0 startedElapsed finishedWall0 finishedElapsed =
     (let startedWall = toUTC (round0 startedWall0); finishedWall = toUTC (round0 finishedWall0);
          chronology = (\<not> tBefore finishedWall startedWall \<and> \<not> tBefore finishedElapsed startedElapsed);
          (reason, backoff, obs) =
            attemptVerdict (si_limit p) report e startedWall startedElapsed finishedWall finishedElapsed;
          p1 = p\<lparr>si_phase := phase, si_startedWall := startedWall,
                 si_finishedWall := (if chronology then finishedWall else zeroTime),
                 si_status := (if backoff then ''source_deferred'' else ''source_admitted''),
                 si_reason := reason, si_backoff := backoff, si_observation := obs\<rparr>
      in (\<not> backoff,
          if backoff
          then p1\<lparr>si_retryWall := tAdd startedWall inventoryStateRetryInterval,
                  si_retryElapsed := tAdd startedElapsed inventoryStateRetryInterval,
                  si_highWall := maxTime startedWall finishedWall,
                  si_highElapsed := maxTime startedElapsed finishedElapsed\<rparr>
          else p1\<lparr>si_retryWall := zeroTime, si_retryElapsed := zeroTime, si_highWall := zeroTime,
                  si_highElapsed := zeroTime\<rparr>))"

text \<open>\<open>observe\<close>: the clocks at the start, what the observer answers, the error of the context after it,
  and the clocks at the end.\<close>

definition stateObserve ::
  "sourceInventoryState \<Rightarrow> string \<Rightarrow> gotime \<times> gotime \<Rightarrow> InventoryStateBudget \<times> err option \<Rightarrow> err option \<Rightarrow>
   gotime \<times> gotime \<Rightarrow> bool \<times> sourceInventoryState" where
  "stateObserve p0 phase start answer ctxErr end_clocks =
     (let (wait, p) = stateRemaining p0 (fst start) (snd start) in
      if wait > 0 then (False, p)
      else let e = (if ctxErr \<noteq> None then ctxErr else snd answer) in
        stateRecord p phase (fst answer) e (fst start) (snd start) (fst end_clocks) (snd end_clocks))"

definition policySnapshot :: "sourceInventoryState \<Rightarrow> InventoryStatePolicySnapshot" where
  "policySnapshot p =
     (let s = \<lparr>ip_Contract = InventoryStatePolicyContract, ip_PolicyEnabled = si_enabled p, ip_SourceOnly = True,
               ip_Persistent = False, ip_Limit = si_limit p, ip_RetryIntervalNS = inventoryStateRetryInterval,
               ip_LastAttemptPhase = [], ip_LastAttemptStartedAt = None, ip_LastAttemptFinishedAt = None,
               ip_LastDecisionStatus = ''not_evaluated'', ip_LastDecisionReason = [], ip_LastSourceBackoff = None,
               ip_RetryStartedAt = None, ip_RetryAfterAt = None, ip_Observation = None, ip_SamplingState = [],
               ip_CallbackReturned = False, ip_ProcessSlotOccupied = False\<rparr>
      in if isZero (si_startedWall p) then s
         else s\<lparr>ip_LastAttemptPhase := si_phase p, ip_LastAttemptStartedAt := Some (si_startedWall p),
                ip_LastSourceBackoff := Some (si_backoff p), ip_LastDecisionStatus := si_status p,
                ip_LastDecisionReason := si_reason p,
                ip_LastAttemptFinishedAt := (if isZero (si_finishedWall p) then None else Some (si_finishedWall p)),
                ip_RetryStartedAt := (if si_backoff p then Some (si_startedWall p) else None),
                ip_RetryAfterAt := (if si_backoff p then Some (si_retryWall p) else None),
                ip_Observation := si_observation p\<rparr>)"

definition inventoryStateReceiptCurrent ::
  "err option \<Rightarrow> gotime \<Rightarrow> gotime \<Rightarrow> gotime \<Rightarrow> gotime \<Rightarrow> bool" where
  "inventoryStateReceiptCurrent ctxErr reservedWall reservedElapsed wall elapsed \<longleftrightarrow>
     ctxErr = None \<and> \<not> tBefore wall reservedWall \<and> \<not> tBefore elapsed reservedElapsed \<and>
     tSub wall reservedWall < 2 * second_ns \<and> tSub elapsed reservedElapsed < 2 * second_ns"

end
