(* ===== verification/State_Coordinator.thy ===== *)
theory State_Coordinator
  imports State_Policy Scan_Dispatch
begin

text \<open>
  The coordinator of the database size sample, \<^verbatim>\<open>src/internal/worker/state_budget_async.go\<close>. One slot of
  the process holds the ticket of the latest sample; its callback runs in another goroutine. A run
  scope has one current intent at a time, and an intent asks for a sample twice: before the dispatch
  reservation and after it. Scopes and intents are objects shared by pointer; here they are entries
  of two maps of the coordinator's state, an intent under its scope and generation.

  Two mutexes order the steps. Everything but the return of the callback holds the coordinator's
  mutex; \<open>startEligible\<close> gives up the clock mutex twice while it holds it, so that the callback may
  return in between: it is three steps here (capture, refusal, decision), with the call that holds
  the mutex kept in \<open>co_call\<close>. Each step takes the answers of the clocks, the contexts and the
  observer as arguments; \<open>now\<close> is the pair of readings of \<open>time.Now\<close> against the real deadlines.
\<close>

section \<open>Data\<close>

record clockPair =
  cp_wall :: gotime
  cp_elapsed :: gotime

type_synonym intent_key = "nat \<times> int"

record inventoryStateReceipt =
  ir_intent :: intent_key
  ir_reserved :: clockPair
  ir_deadline :: gotime
  ir_day :: string
  ir_used :: int

record inventoryStateIntent =
  in_abandoned :: bool
  in_preUsed :: bool
  in_preStarted :: bool
  in_postStarted :: bool
  in_receipt :: "inventoryStateReceipt option"

text \<open>The observer of a scope is the sampler's own or a given one, never nil; its answer is an argument
  of the step in which the callback returns.\<close>

record inventoryStateRunScope =
  rs_sampler :: InventoryStateBudgetSampler
  rs_instance :: string
  rs_limit :: int
  rs_fair :: "nat option"
  rs_nextIntent :: int
  rs_current :: "int option"

record inventoryStateRequest =
  rq_scope :: nat
  rq_intent :: "intent_key option"
  rq_phase :: string
  rq_receipt :: "inventoryStateReceipt option"

abbreviation beforeDispatch :: string where "beforeDispatch \<equiv> ''before_dispatch''"
abbreviation afterReceipt :: string where "afterReceipt \<equiv> ''after_receipt''"

record inventoryStateCompletion =
  ic_ID :: int
  ic_Phase :: string
  ic_LaunchWall :: gotime
  ic_LaunchElapsed :: gotime
  ic_CompletedWall :: gotime
  ic_CompletedElapsed :: gotime
  ic_Usable :: bool
  ic_Reason :: string
  ic_Observation :: "InventoryStateBudget option"

definition zeroCompletion :: inventoryStateCompletion where
  "zeroCompletion = \<lparr>ic_ID = 0, ic_Phase = [], ic_LaunchWall = zeroTime, ic_LaunchElapsed = zeroTime,
     ic_CompletedWall = zeroTime, ic_CompletedElapsed = zeroTime, ic_Usable = False, ic_Reason = [],
     ic_Observation = None\<rparr>"

text \<open>Where the goroutine of a ticket stands: launched, past its entry check with the reason not to call
  the observer, returned with a frozen verdict (\<open>returned\<close> is set), or published (\<open>done\<close> is closed).\<close>

datatype sample_phase =
    SLaunched
  | SEntered string
  | SReturned inventoryStateCompletion
  | SDone inventoryStateCompletion inventoryStateCompletion

record inventoryStateTicket =
  it_ID :: int
  it_request :: inventoryStateRequest
  it_launch :: clockPair
  it_deadline :: gotime
  it_cause :: "err option"
  it_refusal :: string
  it_used :: bool
  it_phase :: sample_phase

record inventoryStateAsyncDecision =
  ad_Ticket :: "inventoryStateTicket option"
  ad_Status :: string
  ad_Reason :: string
  ad_SamplingState :: string
  ad_CallbackReturned :: bool
  ad_ProcessSlotOccupied :: bool
  ad_Started :: bool
  ad_Wait :: int

text \<open>The call of \<open>startEligible\<close> that holds the mutex.\<close>

record start_call =
  sc_request :: inventoryStateRequest
  sc_clocks :: clockPair
  sc_reason :: string
  sc_refused :: bool

record inventoryStateCoordinator =
  co_high :: clockPair
  co_ticket :: "inventoryStateTicket option"
  co_nextID :: int
  co_retry :: clockPair
  co_scopes :: "nat \<rightharpoonup> inventoryStateRunScope"
  co_intents :: "intent_key \<rightharpoonup> inventoryStateIntent"
  co_call :: "start_call option"

definition zeroPair :: clockPair where "zeroPair = \<lparr>cp_wall = zeroTime, cp_elapsed = zeroTime\<rparr>"

definition newInventoryStateCoordinator :: inventoryStateCoordinator where
  "newInventoryStateCoordinator = \<lparr>co_high = zeroPair, co_ticket = None, co_nextID = 0, co_retry = zeroPair,
     co_scopes = Map.empty, co_intents = Map.empty, co_call = None\<rparr>"

section \<open>Clocks\<close>

definition validInventoryStateTime :: "gotime \<Rightarrow> bool" where
  "validInventoryStateTime t \<longleftrightarrow> (let n = unixNano t in n > 0 \<and> tEqual (unixTime n) t)"

definition inventoryStateTimeAdd :: "gotime \<Rightarrow> int \<Rightarrow> gotime \<times> bool" where
  "inventoryStateTimeAdd t d =
     (let added = tAdd t d in
      (added, validInventoryStateTime t \<and> validInventoryStateTime added \<and> tAfter added t))"

definition capture :: "clockPair \<Rightarrow> gotime \<times> gotime \<Rightarrow> clockPair \<times> string \<times> clockPair" where
  "capture high clk =
     (let p = \<lparr>cp_wall = toUTC (round0 (fst clk)), cp_elapsed = snd clk\<rparr>;
          reason = (if \<not> validInventoryStateTime (cp_wall p) \<or> \<not> validInventoryStateTime (cp_elapsed p)
                    then ''inventory_state_clock''
                    else if tBefore (cp_wall p) (cp_wall high) \<or> tBefore (cp_elapsed p) (cp_elapsed high)
                    then ''inventory_state_clock'' else [])
      in (p, reason,
          high\<lparr>cp_wall := (if validInventoryStateTime (cp_wall p) \<and> tAfter (cp_wall p) (cp_wall high)
                           then cp_wall p else cp_wall high),
               cp_elapsed := (if validInventoryStateTime (cp_elapsed p) \<and> tAfter (cp_elapsed p) (cp_elapsed high)
                              then cp_elapsed p else cp_elapsed high)\<rparr>))"

definition domainRemaining :: "clockPair \<Rightarrow> clockPair \<Rightarrow> int" where
  "domainRemaining high p = max 0 (max (tSub (cp_wall high) (cp_wall p)) (tSub (cp_elapsed high) (cp_elapsed p)))"

definition inventoryStateContextReason :: "err option \<Rightarrow> string" where
  "inventoryStateContextReason cause =
     (if optIs cause ContextDeadlineExceeded then ''inventory_state_timeout''
      else if cause \<noteq> None then ''inventory_state_canceled'' else [])"

definition inventoryStateWindowReason :: "clockPair \<Rightarrow> clockPair \<Rightarrow> int \<Rightarrow> string" where
  "inventoryStateWindowReason start current window =
     (if tBefore (cp_wall current) (cp_wall start) \<or> tBefore (cp_elapsed current) (cp_elapsed start)
      then ''inventory_state_clock''
      else if tSub (cp_wall current) (cp_wall start) \<ge> window \<or> tSub (cp_elapsed current) (cp_elapsed start) \<ge> window
      then ''inventory_state_timeout'' else [])"

abbreviation claimWindow :: int where "claimWindow \<equiv> 2 * second_ns"

definition windowReason :: "inventoryStateTicket \<Rightarrow> clockPair \<Rightarrow> gotime \<times> gotime \<Rightarrow> string" where
  "windowReason t p now =
     (let r = inventoryStateWindowReason (it_launch t) p inventoryStateSampleWindow in
      if r \<noteq> [] then r
      else if \<not> tBefore (fst now) (it_deadline t) then ''inventory_state_timeout''
      else case rq_receipt (it_request t) of
        None \<Rightarrow> []
      | Some q \<Rightarrow>
          if \<not> tBefore (snd now) (ir_deadline q) then ''inventory_state_timeout''
          else inventoryStateWindowReason (ir_reserved q) p claimWindow)"

section \<open>Scopes, intents and receipts\<close>

text \<open>\<open>utf8.ValidString\<close>.\<close>

definition contByte :: "nat \<Rightarrow> bool" where "contByte b \<longleftrightarrow> 0x80 \<le> b \<and> b \<le> 0xBF"

fun validUTF8 :: "nat list \<Rightarrow> bool" where
  "validUTF8 [] \<longleftrightarrow> True"
| "validUTF8 (a # r) \<longleftrightarrow>
     (if a < 0x80 then validUTF8 r
      else case r of
        [] \<Rightarrow> False
      | b # r1 \<Rightarrow>
          if 0xC2 \<le> a \<and> a \<le> 0xDF then contByte b \<and> validUTF8 r1
          else case r1 of
            [] \<Rightarrow> False
          | c # r2 \<Rightarrow>
              if 0xE0 \<le> a \<and> a \<le> 0xEF
              then (if a = 0xE0 then 0xA0 \<le> b \<and> b \<le> 0xBF else if a = 0xED then 0x80 \<le> b \<and> b \<le> 0x9F else contByte b) \<and>
                   contByte c \<and> validUTF8 r2
              else case r2 of
                [] \<Rightarrow> False
              | d # r3 \<Rightarrow>
                  0xF0 \<le> a \<and> a \<le> 0xF4 \<and>
                  (if a = 0xF0 then 0x90 \<le> b \<and> b \<le> 0xBF else if a = 0xF4 then 0x80 \<le> b \<and> b \<le> 0x8F else contByte b) \<and>
                  contByte c \<and> contByte d \<and> validUTF8 r3)"

abbreviation errInventoryStateAsyncInput :: err where
  "errInventoryStateAsyncInput \<equiv> StorageFailure ''invalid inventory state sample scope''"

definition newInventoryStateRunScope ::
  "InventoryStateBudgetSampler \<Rightarrow> string \<Rightarrow> int \<Rightarrow> nat option \<Rightarrow> err + inventoryStateRunScope" where
  "newInventoryStateRunScope sampler inst limit fair =
     (if \<not> SameScope sampler sampler \<or> length inst = 0 \<or> length inst > 128 \<or> \<not> validUTF8 (map of_char inst) \<or>
         CHR 0x00 \<in> set inst \<or> limit < MinInventoryStateBytes \<or> limit > MaxInventoryStateBytes \<or> fair = None
      then Inl errInventoryStateAsyncInput
      else Inr \<lparr>rs_sampler = sampler, rs_instance = inst, rs_limit = limit, rs_fair = fair, rs_nextIntent = 0,
                rs_current = None\<rparr>)"

definition addScope :: "inventoryStateCoordinator \<Rightarrow> nat \<Rightarrow> inventoryStateRunScope \<Rightarrow> inventoryStateCoordinator" where
  "addScope c sid s = c\<lparr>co_scopes := (co_scopes c)(sid \<mapsto> s)\<rparr>"

text \<open>A scope of another coordinator is not in the map.\<close>

definition validScope :: "inventoryStateCoordinator \<Rightarrow> nat \<Rightarrow> bool" where
  "validScope c sid \<longleftrightarrow>
     (case co_scopes c sid of
        None \<Rightarrow> False
      | Some s \<Rightarrow> rs_fair s \<noteq> None \<and> SameScope (rs_sampler s) (rs_sampler s) \<and>
          rs_limit s \<ge> MinInventoryStateBytes \<and> rs_limit s \<le> MaxInventoryStateBytes)"

definition currentIntent :: "inventoryStateCoordinator \<Rightarrow> intent_key \<Rightarrow> bool" where
  "currentIntent c k \<longleftrightarrow> (case co_scopes c (fst k) of None \<Rightarrow> False | Some s \<Rightarrow> rs_current s = Some (snd k))"

definition validRequest :: "inventoryStateCoordinator \<Rightarrow> inventoryStateRequest \<Rightarrow> bool" where
  "validRequest c r \<longleftrightarrow>
     (case rq_intent r of
        None \<Rightarrow> False
      | Some k \<Rightarrow> (case co_intents c k of
          None \<Rightarrow> False
        | Some i \<Rightarrow>
            validScope c (rq_scope r) \<and> fst k = rq_scope r \<and> snd k \<noteq> 0 \<and> currentIntent c k \<and> \<not> in_abandoned i \<and>
            (if rq_phase r = beforeDispatch then rq_receipt r = None \<and> \<not> in_preUsed i
             else if rq_phase r = afterReceipt
             then in_preUsed i \<and> rq_receipt r \<noteq> None \<and> rq_receipt r = in_receipt i \<and>
                  ir_intent (the (rq_receipt r)) = k
             else False)))"

definition ticketReturned :: "inventoryStateTicket \<Rightarrow> inventoryStateCompletion option" where
  "ticketReturned t = (case it_phase t of SReturned r \<Rightarrow> Some r | SDone r _ \<Rightarrow> Some r | _ \<Rightarrow> None)"

definition sampleCompleted :: "inventoryStateTicket \<Rightarrow> inventoryStateCompletion option" where
  "sampleCompleted t = (case it_phase t of SDone _ r \<Rightarrow> Some r | _ \<Rightarrow> None)"

definition cancelSample :: "err \<Rightarrow> inventoryStateTicket \<Rightarrow> inventoryStateTicket" where
  "cancelSample e t = (if it_cause t = None then t\<lparr>it_cause := Some e\<rparr> else t)"

definition recordFailure ::
  "inventoryStateCoordinator \<Rightarrow> inventoryStateTicket \<Rightarrow> string \<Rightarrow> inventoryStateCoordinator" where
  "recordFailure c t reason =
     (if it_refusal t \<noteq> [] \<or> reason = [] then c\<lparr>co_ticket := Some t\<rparr>
      else c\<lparr>co_retry := \<lparr>cp_wall = fst (inventoryStateTimeAdd (cp_wall (it_launch t)) inventoryStateRetryInterval),
                         cp_elapsed = fst (inventoryStateTimeAdd (cp_elapsed (it_launch t)) inventoryStateRetryInterval)\<rparr>,
             co_ticket := Some (cancelSample ContextCanceled (t\<lparr>it_refusal := reason\<rparr>))\<rparr>)"

definition refuseSample ::
  "inventoryStateCoordinator \<Rightarrow> inventoryStateTicket \<Rightarrow> string \<Rightarrow> inventoryStateCoordinator \<times> bool" where
  "refuseSample c t reason =
     (if reason = [] \<or> ticketReturned t \<noteq> None then (c, False) else (recordFailure c t reason, True))"

definition pendingRefusal ::
  "inventoryStateCoordinator \<Rightarrow> inventoryStateTicket \<Rightarrow> clockPair \<Rightarrow> string \<Rightarrow> gotime \<times> gotime \<Rightarrow> inventoryStateCoordinator" where
  "pendingRefusal c t p clockReason now =
     (if ticketReturned t \<noteq> None then c
      else let r1 = it_refusal t;
               r2 = (if r1 = [] then inventoryStateContextReason (it_cause t) else r1);
               r3 = (if r2 = [] then clockReason else r2);
               r4 = (if r3 = [] then windowReason t p now else r3)
           in fst (refuseSample c t r4))"

definition abandonLocked :: "inventoryStateCoordinator \<Rightarrow> intent_key \<Rightarrow> inventoryStateCoordinator" where
  "abandonLocked c k =
     (let c1 = c\<lparr>co_intents := (co_intents c)(k := map_option (\<lambda>i. i\<lparr>in_abandoned := True\<rparr>) (co_intents c k))\<rparr> in
      case co_ticket c1 of
        None \<Rightarrow> c1
      | Some t \<Rightarrow>
          if rq_scope (it_request t) = fst k \<and> rq_intent (it_request t) = Some k \<and> ticketReturned t = None
          then fst (refuseSample c1 t ''inventory_state_canceled'') else c1)"

definition newIntent :: "inventoryStateCoordinator \<Rightarrow> nat \<Rightarrow> (err + intent_key) \<times> inventoryStateCoordinator" where
  "newIntent c sid =
     (case co_scopes c sid of
        None \<Rightarrow> (Inl errInventoryStateAsyncInput, c)
      | Some s \<Rightarrow>
          if \<not> validScope c sid \<or> rs_nextIntent s = maxUint64 then (Inl errInventoryStateAsyncInput, c)
          else
            let c1 = (case rs_current s of None \<Rightarrow> c | Some g \<Rightarrow> abandonLocked c (sid, g));
                g = rs_nextIntent s + 1
            in (Inr (sid, g),
                c1\<lparr>co_scopes := (co_scopes c1)(sid \<mapsto> s\<lparr>rs_nextIntent := g, rs_current := Some g\<rparr>),
                   co_intents := (co_intents c1)((sid, g) \<mapsto> \<lparr>in_abandoned = False, in_preUsed = False,
                     in_preStarted = False, in_postStarted = False, in_receipt = None\<rparr>)\<rparr>))"

definition bindReceipt ::
  "inventoryStateCoordinator \<Rightarrow> intent_key \<Rightarrow> DispatchBudget \<Rightarrow> gotime \<Rightarrow> gotime \<Rightarrow> gotime \<Rightarrow>
   (err + inventoryStateReceipt) \<times> inventoryStateCoordinator" where
  "bindReceipt c k budget wall elapsed deadline =
     (case co_intents c k of
        None \<Rightarrow> (Inl errInventoryStateAsyncInput, c)
      | Some i \<Rightarrow>
          if \<not> validScope c (fst k) \<or> \<not> currentIntent c k \<or> in_abandoned i \<or> \<not> in_preUsed i \<or> in_receipt i \<noteq> None \<or>
             dp_Used budget < 1 \<or> dp_Used budget > 100000 \<or> dp_Day budget \<noteq> dateOnly wall \<or>
             \<not> validInventoryStateTime wall \<or> \<not> validInventoryStateTime elapsed \<or> \<not> validInventoryStateTime deadline \<or>
             \<not> snd (inventoryStateTimeAdd wall claimWindow) \<or> \<not> snd (inventoryStateTimeAdd elapsed claimWindow)
          then (Inl errInventoryStateAsyncInput, c)
          else
            let r = \<lparr>ir_intent = k, ir_reserved = \<lparr>cp_wall = toUTC (round0 wall), cp_elapsed = elapsed\<rparr>,
                     ir_deadline = deadline, ir_day = dp_Day budget, ir_used = dp_Used budget\<rparr>
            in (Inr r, c\<lparr>co_intents := (co_intents c)(k \<mapsto> i\<lparr>in_receipt := Some r\<rparr>)\<rparr>))"

section \<open>Starting a sample\<close>

definition refusedDecision :: inventoryStateAsyncDecision where
  "refusedDecision = \<lparr>ad_Ticket = None, ad_Status = ''invalid_scope'', ad_Reason = ''inventory_state_invalid'',
     ad_SamplingState = ''refused'', ad_CallbackReturned = False, ad_ProcessSlotOccupied = False, ad_Started = False,
     ad_Wait = 0\<rparr>"

text \<open>The first step: the checks of the request and of the parent's context, and the clocks.\<close>

definition startCapture ::
  "inventoryStateCoordinator \<Rightarrow> err option \<Rightarrow> inventoryStateRequest \<Rightarrow> gotime \<times> gotime \<Rightarrow>
   inventoryStateAsyncDecision option \<times> inventoryStateCoordinator" where
  "startCapture c parentCause request clk =
     (if \<not> validRequest c request then (Some refusedDecision, c)
      else let reason = inventoryStateContextReason parentCause in
        if reason \<noteq> [] then (Some (refusedDecision\<lparr>ad_Status := ''canceled'', ad_Reason := reason\<rparr>), c)
        else let (p, clockReason, high) = capture (co_high c) clk in
          (None, c\<lparr>co_high := high,
                   co_call := Some \<lparr>sc_request = request, sc_clocks = p, sc_reason = clockReason, sc_refused = False\<rparr>\<rparr>))"

text \<open>The second step: the refusal of a sample that is still out.\<close>

definition startRefuse :: "inventoryStateCoordinator \<Rightarrow> start_call \<Rightarrow> gotime \<times> gotime \<Rightarrow> inventoryStateCoordinator" where
  "startRefuse c0 call now =
     (let c = c0\<lparr>co_call := Some (call\<lparr>sc_refused := True\<rparr>)\<rparr> in
      case co_ticket c of None \<Rightarrow> c | Some t \<Rightarrow> pendingRefusal c t (sc_clocks call) (sc_reason call) now)"

definition startWait :: "inventoryStateCoordinator \<Rightarrow> clockPair \<Rightarrow> int" where
  "startWait c p = max (domainRemaining (co_high c) p)
     (max (tSub (cp_wall (co_retry c)) (cp_wall p)) (tSub (cp_elapsed (co_retry c)) (cp_elapsed p)))"

text \<open>What is said of the ticket of the same request.\<close>

definition ownTicketDecision ::
  "inventoryStateCoordinator \<Rightarrow> inventoryStateTicket \<Rightarrow> clockPair \<Rightarrow> inventoryStateAsyncDecision" where
  "ownTicketDecision c t p =
     (let published = sampleCompleted t;
          d1 = refusedDecision\<lparr>ad_Ticket := Some t, ad_CallbackReturned := (published \<noteq> None),
                 ad_ProcessSlotOccupied := (published = None), ad_Status := ''process_slot_occupied'',
                 ad_SamplingState := ''pending''\<rparr>;
          d2 = (case published of
                  None \<Rightarrow> d1
                | Some r \<Rightarrow> d1\<lparr>ad_Status := ''returned'', ad_SamplingState := ''returned'', ad_Reason := ic_Reason r\<rparr>);
          d3 = (case ticketReturned t of
                  None \<Rightarrow> d2
                | Some r \<Rightarrow>
                    if published \<noteq> None then d2
                    else d2\<lparr>ad_CallbackReturned := True, ad_Reason := ic_Reason r,
                            ad_SamplingState := (if ic_Reason r \<noteq> [] then ''refused'' else ''returned'')\<rparr>);
          d4 = (if it_refusal t \<noteq> [] then d3\<lparr>ad_Reason := it_refusal t, ad_SamplingState := ''refused''\<rparr> else d3)
      in d4\<lparr>ad_Wait := startWait c p\<rparr>)"

text \<open>What is said while the ticket of another request is out.\<close>

definition otherTicketDecision :: "inventoryStateTicket \<Rightarrow> inventoryStateRequest \<Rightarrow> inventoryStateAsyncDecision" where
  "otherTicketDecision t request =
     (let d = refusedDecision\<lparr>ad_Ticket := Some t, ad_Status := ''process_slot_occupied'', ad_ProcessSlotOccupied := True,
                ad_Reason := ''inventory_state_process_slot'', ad_SamplingState := ''foreign_slot'',
                ad_CallbackReturned := (ticketReturned t \<noteq> None)\<rparr>
      in if rq_scope (it_request t) = rq_scope request \<and> rq_intent (it_request t) = rq_intent request
         then d\<lparr>ad_Reason := it_refusal t, ad_SamplingState := (if it_refusal t \<noteq> [] then ''refused'' else ''pending'')\<rparr>
         else d)"

definition alreadyStarted :: "inventoryStateCoordinator \<Rightarrow> inventoryStateRequest \<Rightarrow> bool" where
  "alreadyStarted c request \<longleftrightarrow>
     (case rq_intent request of
        None \<Rightarrow> False
      | Some k \<Rightarrow> (case co_intents c k of
          None \<Rightarrow> False
        | Some i \<Rightarrow> rq_phase request = beforeDispatch \<and> in_preStarted i \<or>
                    rq_phase request = afterReceipt \<and> in_postStarted i))"

definition markStarted :: "inventoryStateRequest \<Rightarrow> inventoryStateIntent \<Rightarrow> inventoryStateIntent" where
  "markStarted request i =
     (if rq_phase request = beforeDispatch then i\<lparr>in_preStarted := True\<rparr> else i\<lparr>in_postStarted := True\<rparr>)"

definition receiptExpired :: "inventoryStateRequest \<Rightarrow> clockPair \<Rightarrow> gotime \<Rightarrow> bool" where
  "receiptExpired request p now \<longleftrightarrow>
     (case rq_receipt request of
        None \<Rightarrow> False
      | Some q \<Rightarrow> \<not> tBefore now (ir_deadline q) \<or> inventoryStateWindowReason (ir_reserved q) p claimWindow \<noteq> [])"

text \<open>The launch; \<open>deadline\<close> is that of the new context, which ends at the latest with the sample window.\<close>

definition launchSample ::
  "inventoryStateCoordinator \<Rightarrow> inventoryStateRequest \<Rightarrow> clockPair \<Rightarrow> gotime \<Rightarrow>
   inventoryStateAsyncDecision \<times> inventoryStateCoordinator" where
  "launchSample c request p deadline =
     (let n = co_nextID c + 1;
          t = \<lparr>it_ID = n, it_request = request, it_launch = p, it_deadline = deadline, it_cause = None,
               it_refusal = [], it_used = False, it_phase = SLaunched\<rparr>;
          k = the (rq_intent request)
      in (refusedDecision\<lparr>ad_Ticket := Some t, ad_Started := True, ad_ProcessSlotOccupied := True,
            ad_Status := ''started'', ad_Reason := [], ad_SamplingState := ''pending'', ad_Wait := startWait c p\<rparr>,
          c\<lparr>co_nextID := n, co_ticket := Some t, co_retry := zeroPair,
            co_intents := (co_intents c)(k := map_option (markStarted request) (co_intents c k))\<rparr>))"

definition startFresh ::
  "inventoryStateCoordinator \<Rightarrow> start_call \<Rightarrow> gotime \<Rightarrow> gotime \<Rightarrow> inventoryStateAsyncDecision \<times> inventoryStateCoordinator" where
  "startFresh c call now deadline =
     (let request = sc_request call; p = sc_clocks call;
          d = refusedDecision\<lparr>ad_Wait := startWait c p\<rparr> in
      if alreadyStarted c request then (refusedDecision, c)
      else if sc_reason call \<noteq> [] then (d\<lparr>ad_Status := ''clock_refused'', ad_Reason := sc_reason call\<rparr>, c)
      else if ad_Wait d > 0 then (d\<lparr>ad_Status := ''retry_wait'', ad_Reason := ''inventory_state_retry''\<rparr>, c)
      else if co_nextID c = maxUint64 then (d, c)
      else if \<not> snd (inventoryStateTimeAdd (cp_wall p) inventoryStateRetryInterval) then (d, c)
      else if \<not> snd (inventoryStateTimeAdd (cp_elapsed p) inventoryStateRetryInterval) then (d, c)
      else if receiptExpired request p now
      then (d\<lparr>ad_Status := ''canceled'', ad_Reason := ''inventory_state_timeout''\<rparr>, c)
      else launchSample c request p deadline)"

text \<open>The third step: the decision, after which the mutex is free.\<close>

definition startDecide ::
  "inventoryStateCoordinator \<Rightarrow> start_call \<Rightarrow> gotime \<Rightarrow> gotime \<Rightarrow> inventoryStateAsyncDecision \<times> inventoryStateCoordinator" where
  "startDecide c0 call now deadline =
     (let c = c0\<lparr>co_call := None\<rparr> in
      case co_ticket c of
        None \<Rightarrow> startFresh c call now deadline
      | Some t \<Rightarrow>
          if it_request t = sc_request call then (ownTicketDecision c t (sc_clocks call), c)
          else if sampleCompleted t = None then (otherTicketDecision t (sc_request call), c)
          else startFresh c call now deadline)"

text \<open>The call with nothing in between; \<open>parentNil\<close> is a nil parent.\<close>

definition startEligible ::
  "inventoryStateCoordinator \<Rightarrow> bool \<Rightarrow> err option \<Rightarrow> inventoryStateRequest \<Rightarrow> gotime \<times> gotime \<Rightarrow> gotime \<times> gotime \<Rightarrow> gotime \<Rightarrow>
   gotime \<Rightarrow> inventoryStateAsyncDecision \<times> inventoryStateCoordinator" where
  "startEligible c parentNil parentCause request clk now1 now2 deadline =
     (if parentNil then (refusedDecision, c)
      else case startCapture c parentCause request clk of
        (Some d, c1) \<Rightarrow> (d, c1)
      | (None, c1) \<Rightarrow>
          (case co_call c1 of
             None \<Rightarrow> (refusedDecision, c1)
           | Some call \<Rightarrow> startDecide (startRefuse c1 call now1) call now2 deadline))"

section \<open>The callback\<close>

definition sampleEntry :: "inventoryStateCoordinator \<Rightarrow> gotime \<times> gotime \<Rightarrow> gotime \<times> gotime \<Rightarrow> inventoryStateCoordinator" where
  "sampleEntry c0 clk now =
     (case co_ticket c0 of
        Some t \<Rightarrow>
          if it_phase t = SLaunched
          then
            let (p, clockReason, high) = capture (co_high c0) clk;
                c = pendingRefusal (c0\<lparr>co_high := high\<rparr>) t p clockReason now
            in c\<lparr>co_ticket := map_option (\<lambda>t. t\<lparr>it_phase := SEntered (it_refusal t)\<rparr>) (co_ticket c)\<rparr>
          else c0
      | None \<Rightarrow> c0)"

text \<open>What the observer does when it is called: a panic, or a report with an error.\<close>

datatype answer = Panic | Answered InventoryStateBudget "err option"

definition callbackReason :: "string \<Rightarrow> answer \<Rightarrow> string" where
  "callbackReason entered a =
     (if entered \<noteq> [] then entered
      else case a of
        Panic \<Rightarrow> ''inventory_state_unavailable''
      | Answered _ e \<Rightarrow>
          if optIs e ErrInventoryStateBudgetClock then ''inventory_state_clock''
          else if optIs e ContextDeadlineExceeded then ''inventory_state_timeout''
          else if optIs e ContextCanceled then ''inventory_state_canceled''
          else if e \<noteq> None then ''inventory_state_unavailable'' else [])"

fun firstReason :: "string list \<Rightarrow> string" where
  "firstReason [] = []"
| "firstReason (r # rs) = (if r \<noteq> [] then r else firstReason rs)"

text \<open>The verdict on a report that nothing stands against: the reason, whether it is usable, and the
  observation kept.\<close>

definition reportVerdict ::
  "int \<Rightarrow> InventoryStateBudget \<Rightarrow> gotime \<Rightarrow> gotime \<Rightarrow> string \<times> bool \<times> InventoryStateBudget option" where
  "reportVerdict limit report started finished =
     (if \<not> validInventoryStateObservation report limit started finished then (''inventory_state_invalid'', False, None)
      else if sb_Available report \<and> sb_Status report = ''below_limit'' then ([], True, Some report)
      else if sb_Status report = ''limit_reached'' then (''inventory_state_limit'', False, Some report)
      else if sb_Reason report = ''inventory_state_changed'' \<or> sb_Reason report = ''inventory_state_overflow''
      then (sb_Reason report, False, Some report)
      else (''inventory_state_unavailable'', False, Some report))"

definition scopeLimit :: "inventoryStateCoordinator \<Rightarrow> nat \<Rightarrow> int" where
  "scopeLimit c sid = (case co_scopes c sid of None \<Rightarrow> 0 | Some s \<Rightarrow> rs_limit s)"

definition frozenVerdict ::
  "int \<Rightarrow> inventoryStateTicket \<Rightarrow> clockPair \<Rightarrow> string \<Rightarrow> answer \<Rightarrow> inventoryStateCompletion" where
  "frozenVerdict limit t finished reason0 a =
     (let (reason, usable, obs) =
        (if reason0 \<noteq> [] then (reason0, False, None)
         else case a of
           Panic \<Rightarrow> (reason0, False, None)
         | Answered report _ \<Rightarrow> reportVerdict limit report (cp_wall (it_launch t)) (cp_wall finished))
      in \<lparr>ic_ID = it_ID t, ic_Phase = rq_phase (it_request t), ic_LaunchWall = cp_wall (it_launch t),
          ic_LaunchElapsed = cp_elapsed (it_launch t), ic_CompletedWall = cp_wall finished,
          ic_CompletedElapsed = cp_elapsed finished, ic_Usable = usable, ic_Reason = reason, ic_Observation = obs\<rparr>)"

text \<open>The return of the callback, under the clock mutex only.\<close>

definition sampleReturn ::
  "inventoryStateCoordinator \<Rightarrow> gotime \<times> gotime \<Rightarrow> gotime \<times> gotime \<Rightarrow> answer \<Rightarrow> inventoryStateCoordinator" where
  "sampleReturn c clk now a =
     (case co_ticket c of
        Some t \<Rightarrow> (case it_phase t of
            SEntered entered \<Rightarrow>
              let (p, clockReason, high) = capture (co_high c) clk;
                  reason = firstReason [inventoryStateContextReason (it_cause t), clockReason, windowReason t p now,
                                        callbackReason entered a]
              in c\<lparr>co_high := high,
                   co_ticket := Some (t\<lparr>it_phase := SReturned (frozenVerdict (scopeLimit c (rq_scope (it_request t))) t p reason a)\<rparr>)\<rparr>
          | _ \<Rightarrow> c)
      | None \<Rightarrow> c)"

definition samplePublish :: "inventoryStateCoordinator \<Rightarrow> inventoryStateCoordinator" where
  "samplePublish c =
     (case co_ticket c of
        Some t \<Rightarrow> (case it_phase t of
            SReturned r \<Rightarrow>
              let reason = (if it_refusal t \<noteq> [] then it_refusal t else ic_Reason r);
                  c1 = recordFailure c t reason;
                  t1 = the (co_ticket c1);
                  r1 = (if reason \<noteq> [] then r\<lparr>ic_Reason := it_refusal t1, ic_Usable := False\<rparr> else r)
              in c1\<lparr>co_ticket := Some (cancelSample ContextCanceled (t1\<lparr>it_phase := SDone r r1\<rparr>))\<rparr>
          | _ \<Rightarrow> c)
      | None \<Rightarrow> c)"

section \<open>Using a sample\<close>

text \<open>\<open>causes\<close> are the causes of the caller's and of the ticket's parent context at entry, \<open>causes'\<close> those
  after the clocks.\<close>

definition takeCompletion ::
  "inventoryStateCoordinator \<Rightarrow> bool \<Rightarrow> err option \<times> err option \<Rightarrow> inventoryStateRequest \<Rightarrow> int option \<Rightarrow> gotime \<times> gotime \<Rightarrow>
   gotime \<times> gotime \<Rightarrow> err option \<times> err option \<Rightarrow> (inventoryStateCompletion \<times> bool) \<times> inventoryStateCoordinator" where
  "takeCompletion c ctxNil causes request i clk now causes' =
     (case co_ticket c of
        None \<Rightarrow> ((zeroCompletion, False), c)
      | Some t \<Rightarrow>
          if ctxNil \<or> \<not> validRequest c request \<or> i \<noteq> Some (it_ID t) \<or> it_request t \<noteq> request \<or> it_used t \<or>
             inventoryStateContextReason (fst causes) \<noteq> [] \<or> inventoryStateContextReason (snd causes) \<noteq> []
          then ((zeroCompletion, False), c)
          else (case sampleCompleted t of
              None \<Rightarrow> ((zeroCompletion, False), c)
            | Some r \<Rightarrow>
                if \<not> ic_Usable r \<or> it_refusal t \<noteq> [] then ((r, False), c)
                else
                  let (p, clockReason, high) = capture (co_high c) clk;
                      c1 = c\<lparr>co_high := high\<rparr>;
                      c2 = c1\<lparr>co_ticket := Some (t\<lparr>it_used := True\<rparr>)\<rparr> in
                  if clockReason \<noteq> [] \<or> tBefore (cp_wall p) (ic_CompletedWall r) \<or>
                     tBefore (cp_elapsed p) (ic_CompletedElapsed r) then ((r, False), c2)
                  else if windowReason t p now \<noteq> [] then ((r, False), c2)
                  else if inventoryStateContextReason (fst causes') \<noteq> [] \<or>
                          inventoryStateContextReason (snd causes') \<noteq> [] then ((r, False), c1)
                  else ((r, True),
                        if rq_phase request = beforeDispatch
                        then c2\<lparr>co_intents := (co_intents c2)(the (rq_intent request) :=
                               map_option (\<lambda>i. i\<lparr>in_preUsed := True\<rparr>) (co_intents c2 (the (rq_intent request))))\<rparr>
                        else c2)))"

definition cancelOwned :: "inventoryStateCoordinator \<Rightarrow> nat \<Rightarrow> int option \<Rightarrow> bool \<times> inventoryStateCoordinator" where
  "cancelOwned c sid i =
     (case co_ticket c of
        None \<Rightarrow> (False, c)
      | Some t \<Rightarrow>
          if \<not> validScope c sid \<or> i \<noteq> Some (it_ID t) \<or> rq_scope (it_request t) \<noteq> sid \<or> ticketReturned t \<noteq> None
          then (False, c)
          else let (c', ok) = refuseSample c t ''inventory_state_canceled'' in (ok, c'))"

definition abandonIntent :: "inventoryStateCoordinator \<Rightarrow> nat \<Rightarrow> intent_key option \<Rightarrow> bool \<times> inventoryStateCoordinator" where
  "abandonIntent c sid k =
     (case k of
        None \<Rightarrow> (False, c)
      | Some k \<Rightarrow>
          if \<not> validScope c sid \<or> fst k \<noteq> sid \<or> \<not> currentIntent c k then (False, c)
          else (True, abandonLocked c k))"

definition cachedStatus :: "inventoryStateCoordinator \<Rightarrow> nat option \<Rightarrow> inventoryStateAsyncDecision" where
  "cachedStatus c sid =
     (let d = \<lparr>ad_Ticket = None, ad_Status = [], ad_Reason = [], ad_SamplingState = ''not_requested'',
               ad_CallbackReturned = False, ad_ProcessSlotOccupied = False, ad_Started = False, ad_Wait = 0\<rparr> in
      case co_ticket c of
        None \<Rightarrow> d
      | Some t \<Rightarrow>
          let d1 = d\<lparr>ad_Ticket := Some t, ad_CallbackReturned := (ticketReturned t \<noteq> None),
                     ad_ProcessSlotOccupied := (sampleCompleted t = None)\<rparr> in
          if Some (rq_scope (it_request t)) \<noteq> sid
          then d1\<lparr>ad_SamplingState := ''foreign_slot'', ad_Reason := ''inventory_state_process_slot''\<rparr>
          else
            let d2 = (case ticketReturned t of
                        None \<Rightarrow> d1\<lparr>ad_SamplingState := ''pending''\<rparr>
                      | Some r \<Rightarrow> if ic_Reason r \<noteq> [] then d1\<lparr>ad_SamplingState := ''refused'', ad_Reason := ic_Reason r\<rparr>
                                  else d1\<lparr>ad_SamplingState := ''returned''\<rparr>)
            in if it_refusal t \<noteq> [] then d2\<lparr>ad_SamplingState := ''refused'', ad_Reason := it_refusal t\<rparr> else d2)"

text \<open>The ticket's context ends from outside: its parent is cancelled or its timer fires.\<close>

definition sampleContextEnds :: "inventoryStateCoordinator \<Rightarrow> err \<Rightarrow> inventoryStateCoordinator" where
  "sampleContextEnds c e = c\<lparr>co_ticket := map_option (cancelSample e) (co_ticket c)\<rparr>"

end
