(* ===== verification/State_Coordinator_Laws.thy ===== *)
theory State_Coordinator_Laws
  imports State_Coordinator Ledger_Systems
begin

text \<open>
  The runs of the sample coordinator: its step relation, with the launches and the permits as events,
  the invariant of its states, and what a step of each kind changes.
\<close>

section \<open>Steps\<close>

datatype state_event = Silent | Launch inventoryStateTicket | Permit intent_key string

inductive state_step :: "inventoryStateCoordinator \<Rightarrow> state_event \<Rightarrow> inventoryStateCoordinator \<Rightarrow> bool" where
  scope: "newInventoryStateRunScope sampler inst limit fair = Inr s \<Longrightarrow> co_scopes c sid = None \<Longrightarrow>
    state_step c Silent (addScope c sid s)"
| intent: "co_call c = None \<Longrightarrow> newIntent c sid = (res, c') \<Longrightarrow> state_step c Silent c'"
| bind: "co_call c = None \<Longrightarrow> bindReceipt c k budget wall elapsed deadline = (res', c') \<Longrightarrow> state_step c Silent c'"
| started: "co_call c = None \<Longrightarrow> startCapture c cause request clk = (d, c') \<Longrightarrow> state_step c Silent c'"
| refused: "co_call c = Some call \<Longrightarrow> \<not> sc_refused call \<Longrightarrow> state_step c Silent (startRefuse c call now)"
| decided: "co_call c = Some call \<Longrightarrow> sc_refused call \<Longrightarrow> startDecide c call now' deadline = (d', c') \<Longrightarrow>
    state_step c (if ad_Started d' then Launch (the (ad_Ticket d')) else Silent) c'"
| entered: "co_call c = None \<Longrightarrow> state_step c Silent (sampleEntry c clk now)"
| returned: "state_step c Silent (sampleReturn c clk now a)"
| published: "co_call c = None \<Longrightarrow> state_step c Silent (samplePublish c)"
| taken: "co_call c = None \<Longrightarrow> takeCompletion c ctxNil causes request i clk now causes' = ((r, ok), c') \<Longrightarrow>
    state_step c (if ok then Permit (the (rq_intent request)) (rq_phase request) else Silent) c'"
| cancelled: "co_call c = None \<Longrightarrow> cancelOwned c sid i = (ok, c') \<Longrightarrow> state_step c Silent c'"
| abandoned: "co_call c = None \<Longrightarrow> abandonIntent c sid ko = (ok, c') \<Longrightarrow> state_step c Silent c'"
| ended: "state_step c Silent (sampleContextEnds c e)"

inductive state_run :: "inventoryStateCoordinator \<Rightarrow> state_event list \<Rightarrow> inventoryStateCoordinator \<Rightarrow> bool" where
  rest: "state_run c [] c"
| more: "state_run c evs c' \<Longrightarrow> state_step c' ev c'' \<Longrightarrow> state_run c (evs @ [ev]) c''"

section \<open>Refusals\<close>

definition retryOf :: "inventoryStateTicket \<Rightarrow> clockPair" where
  "retryOf t = \<lparr>cp_wall = tAdd (cp_wall (it_launch t)) inventoryStateRetryInterval,
                cp_elapsed = tAdd (cp_elapsed (it_launch t)) inventoryStateRetryInterval\<rparr>"

definition failTicket :: "string \<Rightarrow> inventoryStateTicket \<Rightarrow> inventoryStateTicket" where
  "failTicket reason t = cancelSample ContextCanceled (t\<lparr>it_refusal := reason\<rparr>)"

text \<open>What a refusal may do: nothing, or the first denial of a ticket whose callback is still out.\<close>

definition refuseMove :: "inventoryStateCoordinator \<Rightarrow> inventoryStateCoordinator \<Rightarrow> bool" where
  "refuseMove c c' \<longleftrightarrow> c' = c \<or>
     (\<exists>t reason. co_ticket c = Some t \<and> ticketReturned t = None \<and> it_refusal t = [] \<and> reason \<noteq> [] \<and>
        c' = c\<lparr>co_retry := retryOf t, co_ticket := Some (failTicket reason t)\<rparr>)"

lemma timeAdd_fst [simp]: "fst (inventoryStateTimeAdd t d) = tAdd t d"
  by (simp add: inventoryStateTimeAdd_def Let_def)

lemma recordFailure_eq:
  "recordFailure c t reason = (if it_refusal t \<noteq> [] \<or> reason = [] then c\<lparr>co_ticket := Some t\<rparr>
     else c\<lparr>co_retry := retryOf t, co_ticket := Some (failTicket reason t)\<rparr>)"
  by (simp add: recordFailure_def retryOf_def failTicket_def)

lemma same_ticket: "co_ticket c = Some t \<Longrightarrow> c\<lparr>co_ticket := Some t\<rparr> = c"
  by (cases c) simp

lemma refuseSample_move: "co_ticket c = Some t \<Longrightarrow> refuseMove c (fst (refuseSample c t reason))"
  by (auto simp: refuseSample_def refuseMove_def recordFailure_eq same_ticket)

lemma pendingRefusal_move: "co_ticket c = Some t \<Longrightarrow> refuseMove c (pendingRefusal c t p clockReason now)"
  using refuseSample_move by (auto simp: pendingRefusal_def Let_def refuseMove_def [of c c])

lemma abandonLocked_move:
  "refuseMove (c\<lparr>co_intents := (co_intents c)(k := map_option (\<lambda>i. i\<lparr>in_abandoned := True\<rparr>) (co_intents c k))\<rparr>)
     (abandonLocked c k)"
  using refuseSample_move by (auto simp: abandonLocked_def Let_def refuseMove_def [of c c for c] split: option.splits)

lemma cancelSample_frame [simp]:
  "it_ID (cancelSample e t) = it_ID t" "it_request (cancelSample e t) = it_request t" "it_launch (cancelSample e t) = it_launch t"
  "it_refusal (cancelSample e t) = it_refusal t" "it_used (cancelSample e t) = it_used t" "it_phase (cancelSample e t) = it_phase t"
  by (simp_all add: cancelSample_def)

lemma failTicket_frame [simp]:
  "it_ID (failTicket r t) = it_ID t" "it_request (failTicket r t) = it_request t" "it_launch (failTicket r t) = it_launch t"
  "it_refusal (failTicket r t) = r" "it_used (failTicket r t) = it_used t" "it_phase (failTicket r t) = it_phase t"
  by (simp_all add: failTicket_def)

lemma retryOf_frame [simp]:
  "retryOf (t\<lparr>it_phase := ph\<rparr>) = retryOf t" "retryOf (t\<lparr>it_used := b\<rparr>) = retryOf t" "retryOf (cancelSample e t) = retryOf t"
  "retryOf (failTicket r t) = retryOf t"
  by (simp_all add: retryOf_def)

lemma refuseMove_frame:
  assumes "refuseMove c c'"
  shows "co_high c' = co_high c" "co_nextID c' = co_nextID c" "co_scopes c' = co_scopes c" "co_intents c' = co_intents c"
    "co_call c' = co_call c"
  using assms by (auto simp: refuseMove_def)

section \<open>The invariant\<close>

text \<open>A verdict frozen at the return: it is usable exactly when it has no reason against it, and then
  keeps a checked report below the limit.\<close>

definition verdictOk :: "int \<Rightarrow> inventoryStateTicket \<Rightarrow> inventoryStateCompletion \<Rightarrow> bool" where
  "verdictOk limit t r \<longleftrightarrow>
     ic_LaunchWall r = cp_wall (it_launch t) \<and> ic_LaunchElapsed r = cp_elapsed (it_launch t) \<and>
     ic_Phase r = rq_phase (it_request t) \<and> (ic_Usable r \<longleftrightarrow> ic_Reason r = []) \<and>
     (ic_Usable r \<longrightarrow> (\<exists>obs. ic_Observation r = Some obs \<and> sb_Available obs \<and> sb_Status obs = ''below_limit'' \<and>
        validInventoryStateObservation obs limit (cp_wall (it_launch t)) (ic_CompletedWall r)))"

definition sampleOk :: "int \<Rightarrow> clockPair \<Rightarrow> inventoryStateTicket \<Rightarrow> bool" where
  "sampleOk limit retry t \<longleftrightarrow>
     (it_refusal t \<noteq> [] \<longrightarrow> retry = retryOf t) \<and>
     (case it_phase t of
        SLaunched \<Rightarrow> True
      | SEntered s \<Rightarrow> s \<noteq> [] \<longrightarrow> it_refusal t = s
      | SReturned r \<Rightarrow> verdictOk limit t r
      | SDone r r' \<Rightarrow> verdictOk limit t r \<and>
          (if it_refusal t = [] then r' = r \<and> ic_Reason r = []
           else r' = r\<lparr>ic_Reason := it_refusal t, ic_Usable := False\<rparr>))"

text \<open>The ticket belongs to a known intent that is marked as started for its phase.\<close>

definition phaseStarted :: "string \<Rightarrow> inventoryStateIntent \<Rightarrow> bool" where
  "phaseStarted ph i \<longleftrightarrow> ph = beforeDispatch \<and> in_preStarted i \<or> ph = afterReceipt \<and> in_postStarted i"

definition ownedBy :: "(intent_key \<rightharpoonup> inventoryStateIntent) \<Rightarrow> inventoryStateRequest \<Rightarrow> bool" where
  "ownedBy intents q \<longleftrightarrow> (\<exists>k i. rq_intent q = Some k \<and> fst k = rq_scope q \<and> intents k = Some i \<and> phaseStarted (rq_phase q) i)"

definition slotOk :: "inventoryStateCoordinator \<Rightarrow> bool" where
  "slotOk c \<longleftrightarrow> (\<forall>t. co_ticket c = Some t \<longrightarrow> it_ID t \<le> co_nextID c \<and> ownedBy (co_intents c) (it_request t) \<and>
     sampleOk (scopeLimit c (rq_scope (it_request t))) (co_retry c) t)"

definition intentsOk :: "inventoryStateCoordinator \<Rightarrow> bool" where
  "intentsOk c \<longleftrightarrow> (\<forall>k i. co_intents c k = Some i \<longrightarrow> (\<exists>s. co_scopes c (fst k) = Some s \<and> snd k \<le> rs_nextIntent s))"

definition coordOk :: "inventoryStateCoordinator \<Rightarrow> bool" where
  "coordOk c \<longleftrightarrow> slotOk c \<and> intentsOk c \<and> (\<forall>call. co_call c = Some call \<longrightarrow> validRequest c (sc_request call))"

lemma coordOk_new: "coordOk newInventoryStateCoordinator"
  by (simp add: coordOk_def slotOk_def intentsOk_def newInventoryStateCoordinator_def)

lemma scopeLimit_cong: "co_scopes c' = co_scopes c \<Longrightarrow> scopeLimit c' sid = scopeLimit c sid"
  by (simp add: scopeLimit_def)

lemma validRequest_cong: "co_scopes c' = co_scopes c \<Longrightarrow> co_intents c' = co_intents c \<Longrightarrow> validRequest c' q = validRequest c q"
  by (simp add: validRequest_def validScope_def currentIntent_def cong: option.case_cong)

lemma refuseMove_slot:
  assumes "refuseMove c c'" "slotOk c"
  shows "slotOk c'"
proof -
  have "slotOk (c\<lparr>co_retry := retryOf t, co_ticket := Some (failTicket reason t)\<rparr>)"
    if t: "co_ticket c = Some t" "ticketReturned t = None" "it_refusal t = []" "reason \<noteq> []" for t reason
    using assms(2) t unfolding slotOk_def
    by (auto simp: sampleOk_def scopeLimit_def retryOf_def ticketReturned_def split: sample_phase.splits)
  then show ?thesis using assms by (auto simp: refuseMove_def)
qed

lemma refuseMove_ok:
  assumes "refuseMove c c'" "coordOk c"
  shows "coordOk c'"
  using assms refuseMove_slot [OF assms(1)] refuseMove_frame [OF assms(1)]
  by (simp add: coordOk_def intentsOk_def validRequest_cong [of c' c])

section \<open>Scopes and intents\<close>

lemma phaseStarted_flags [simp]:
  "phaseStarted ph (i\<lparr>in_abandoned := a\<rparr>) = phaseStarted ph i" "phaseStarted ph (i\<lparr>in_preUsed := a\<rparr>) = phaseStarted ph i"
  "phaseStarted ph (i\<lparr>in_receipt := q\<rparr>) = phaseStarted ph i"
  by (simp_all add: phaseStarted_def)

definition intentsGrow :: "(intent_key \<rightharpoonup> inventoryStateIntent) \<Rightarrow> (intent_key \<rightharpoonup> inventoryStateIntent) \<Rightarrow> bool" where
  "intentsGrow m m' \<longleftrightarrow> (\<forall>k i. m k = Some i \<longrightarrow> (\<exists>i'. m' k = Some i' \<and> (\<forall>ph. phaseStarted ph i \<longrightarrow> phaseStarted ph i')))"

lemma intentsGrow_owned: "intentsGrow m m' \<Longrightarrow> ownedBy m q \<Longrightarrow> ownedBy m' q"
  unfolding intentsGrow_def ownedBy_def by metis

lemma intentsGrow_update:
  assumes "\<And>i. m k = Some i \<Longrightarrow> (\<forall>ph. phaseStarted ph i \<longrightarrow> phaseStarted ph (f i))"
  shows "intentsGrow m (m(k := map_option f (m k)))"
  using assms by (auto simp: intentsGrow_def)

lemma coordOk_intents:
  assumes "coordOk c" "co_call c = None" "intentsGrow (co_intents c) m" "\<And>k i. m k = Some i \<Longrightarrow> co_intents c k \<noteq> None"
  shows "coordOk (c\<lparr>co_intents := m\<rparr>)"
proof -
  have "slotOk (c\<lparr>co_intents := m\<rparr>)"
    using assms(1) intentsGrow_owned [OF assms(3)] by (simp add: coordOk_def slotOk_def scopeLimit_def)
  moreover have "intentsOk (c\<lparr>co_intents := m\<rparr>)"
    using assms(1,4) unfolding coordOk_def intentsOk_def by fastforce
  ultimately show ?thesis using assms(2) by (simp add: coordOk_def)
qed

lemma coordOk_update:
  assumes "coordOk c" "co_call c = None" "\<And>i. co_intents c k = Some i \<Longrightarrow> (\<forall>ph. phaseStarted ph i \<longrightarrow> phaseStarted ph (f i))"
  shows "coordOk (c\<lparr>co_intents := (co_intents c)(k := map_option f (co_intents c k))\<rparr>)"
  using assms by (intro coordOk_intents intentsGrow_update) (auto split: if_splits)

lemma abandonLocked_ok: "coordOk c \<Longrightarrow> co_call c = None \<Longrightarrow> coordOk (abandonLocked c k)"
  using refuseMove_ok [OF abandonLocked_move] coordOk_update [of c k "\<lambda>i. i\<lparr>in_abandoned := True\<rparr>"] by simp

lemma abandonLocked_frame:
  "co_scopes (abandonLocked c k) = co_scopes c" "co_call (abandonLocked c k) = co_call c" "co_nextID (abandonLocked c k) = co_nextID c"
  "co_intents (abandonLocked c k) = (co_intents c)(k := map_option (\<lambda>i. i\<lparr>in_abandoned := True\<rparr>) (co_intents c k))"
  using refuseMove_frame [OF abandonLocked_move [of c k]] by simp_all

lemma owned_scope:
  "coordOk c \<Longrightarrow> ownedBy (co_intents c) q \<Longrightarrow> \<exists>s. co_scopes c (rq_scope q) = Some s"
  unfolding coordOk_def intentsOk_def ownedBy_def by metis

lemma slot_scope: "coordOk c \<Longrightarrow> co_ticket c = Some t \<Longrightarrow> \<exists>s. co_scopes c (rq_scope (it_request t)) = Some s"
  using owned_scope by (auto simp: coordOk_def slotOk_def)

lemma addScope_keeps:
  assumes "co_scopes c sid = None"
  shows "validScope c x \<Longrightarrow> validScope (addScope c sid s) x" "currentIntent c k \<Longrightarrow> currentIntent (addScope c sid s) k"
  using assms by (auto simp: validScope_def currentIntent_def addScope_def split: option.splits)

text \<open>The part of a valid request that only looks at its intent.\<close>

definition requestFits :: "intent_key \<Rightarrow> inventoryStateIntent \<Rightarrow> inventoryStateRequest \<Rightarrow> bool" where
  "requestFits k i r \<longleftrightarrow> fst k = rq_scope r \<and> snd k \<noteq> 0 \<and> \<not> in_abandoned i \<and>
     (if rq_phase r = beforeDispatch then rq_receipt r = None \<and> \<not> in_preUsed i
      else if rq_phase r = afterReceipt
      then in_preUsed i \<and> rq_receipt r \<noteq> None \<and> rq_receipt r = in_receipt i \<and> ir_intent (the (rq_receipt r)) = k
      else False)"

lemma validRequest_iff:
  "validRequest c r \<longleftrightarrow> (\<exists>k i. rq_intent r = Some k \<and> co_intents c k = Some i \<and> validScope c (rq_scope r) \<and>
     currentIntent c k \<and> requestFits k i r)"
  unfolding validRequest_def requestFits_def by (cases "rq_intent r"; cases "co_intents c (the (rq_intent r))") auto

lemma addScope_request:
  assumes "validRequest c q" "co_scopes c sid = None"
  shows "validRequest (addScope c sid s) q"
proof -
  have "co_intents (addScope c sid s) = co_intents c" by (simp add: addScope_def)
  then show ?thesis using assms(1) addScope_keeps [OF assms(2)]
    unfolding validRequest_iff by metis
qed

lemma addScope_ok:
  assumes "coordOk c" "co_scopes c sid = None"
  shows "coordOk (addScope c sid s)"
proof -
  have "slotOk (addScope c sid s)"
    using assms slot_scope [OF assms(1)] by (fastforce simp: coordOk_def slotOk_def addScope_def scopeLimit_def)
  moreover have "intentsOk (addScope c sid s)"
    using assms unfolding coordOk_def intentsOk_def addScope_def by fastforce
  ultimately show ?thesis using assms addScope_request [OF _ assms(2)]
    by (simp add: coordOk_def) (simp add: addScope_def)
qed

text \<open>The part of \<open>newIntent\<close> after the old intent is abandoned.\<close>

definition openIntent :: "inventoryStateCoordinator \<Rightarrow> nat \<Rightarrow> inventoryStateRunScope \<Rightarrow> inventoryStateCoordinator" where
  "openIntent c sid s = (let g = rs_nextIntent s + 1 in
     c\<lparr>co_scopes := (co_scopes c)(sid \<mapsto> s\<lparr>rs_nextIntent := g, rs_current := Some g\<rparr>),
       co_intents := (co_intents c)((sid, g) \<mapsto> \<lparr>in_abandoned = False, in_preUsed = False,
         in_preStarted = False, in_postStarted = False, in_receipt = None\<rparr>)\<rparr>)"

lemma newIntent_cases:
  assumes "newIntent c sid = (res, c')"
  obtains "c' = c" | s where "co_scopes c sid = Some s" "rs_current s = None" "c' = openIntent c sid s"
    | s g where "co_scopes c sid = Some s" "c' = openIntent (abandonLocked c (sid, g)) sid s"
  using assms by (auto simp: newIntent_def openIntent_def Let_def split: option.splits if_splits)

lemma fresh_intent: "intentsOk c \<Longrightarrow> co_scopes c sid = Some s \<Longrightarrow> co_intents c (sid, rs_nextIntent s + 1) = None"
  by (cases "co_intents c (sid, rs_nextIntent s + 1)") (fastforce simp: intentsOk_def)+

lemma openIntent_ok:
  assumes "coordOk c" "co_call c = None" "co_scopes c sid = Some s"
  shows "coordOk (openIntent c sid s)"
proof -
  have fresh: "co_intents c (sid, rs_nextIntent s + 1) = None" using assms fresh_intent by (simp add: coordOk_def)
  then have g: "intentsGrow (co_intents c) (co_intents (openIntent c sid s))"
    by (auto simp: intentsGrow_def openIntent_def Let_def)
  have lim: "scopeLimit (openIntent c sid s) x = scopeLimit c x" for x
    using assms(3) by (simp add: scopeLimit_def openIntent_def Let_def)
  have "slotOk (openIntent c sid s)"
    using assms(1) intentsGrow_owned [OF g] unfolding coordOk_def slotOk_def lim
    by (simp add: openIntent_def Let_def)
  moreover have "intentsOk (openIntent c sid s)"
    using assms(1,3) unfolding coordOk_def intentsOk_def by (fastforce simp: openIntent_def Let_def)
  ultimately show ?thesis using assms(2) by (simp add: coordOk_def) (simp add: openIntent_def Let_def)
qed

lemma newIntent_ok:
  assumes "newIntent c sid = (res, c')" "coordOk c" "co_call c = None"
  shows "coordOk c'"
  using assms(1)
proof (cases rule: newIntent_cases)
  case (3 s g)
  then show ?thesis using assms abandonLocked_ok openIntent_ok abandonLocked_frame by simp
qed (use assms openIntent_ok in auto)

lemma bindReceipt_cases:
  assumes "bindReceipt c k budget wall elapsed deadline = (res, c')"
  obtains "c' = c" | r where "c' = c\<lparr>co_intents := (co_intents c)(k := map_option (\<lambda>i. i\<lparr>in_receipt := Some r\<rparr>) (co_intents c k))\<rparr>"
proof (cases "co_intents c k")
  case (Some i)
  then show ?thesis using assms that
    unfolding bindReceipt_def option.case(2) Let_def prod.inject if_split [of "\<lambda>x. x = _"] by (auto split: if_splits)
qed (use assms that in \<open>simp add: bindReceipt_def\<close>)

lemma bindReceipt_ok:
  "bindReceipt c k budget wall elapsed deadline = (res, c') \<Longrightarrow> coordOk c \<Longrightarrow> co_call c = None \<Longrightarrow> coordOk c'"
  by (erule bindReceipt_cases) (auto intro: coordOk_update)

section \<open>The call that starts a sample\<close>

lemma validRequest_frame [simp]:
  "validRequest (c\<lparr>co_high := h\<rparr>) q = validRequest c q" "validRequest (c\<lparr>co_call := x\<rparr>) q = validRequest c q"
  "validRequest (c\<lparr>co_ticket := t\<rparr>) q = validRequest c q" "validRequest (c\<lparr>co_retry := r\<rparr>) q = validRequest c q"
  "validRequest (c\<lparr>co_nextID := n\<rparr>) q = validRequest c q"
  by (rule validRequest_cong; simp)+

lemma coordOk_high: "coordOk c \<Longrightarrow> coordOk (c\<lparr>co_high := h\<rparr>)"
  by (simp add: coordOk_def slotOk_def intentsOk_def scopeLimit_def)

lemma coordOk_call:
  "coordOk c \<Longrightarrow> (\<And>call. x = Some call \<Longrightarrow> validRequest c (sc_request call)) \<Longrightarrow> coordOk (c\<lparr>co_call := x\<rparr>)"
  by (simp add: coordOk_def slotOk_def intentsOk_def scopeLimit_def)

lemma startCapture_cases:
  assumes "startCapture c cause request clk = (d, c')"
  obtains "c' = c" "d \<noteq> None" | p reason high where "validRequest c request" "capture (co_high c) clk = (p, reason, high)" "d = None"
    "c' = c\<lparr>co_high := high,
            co_call := Some \<lparr>sc_request = request, sc_clocks = p, sc_reason = reason, sc_refused = False\<rparr>\<rparr>"
proof (cases "validRequest c request \<and> inventoryStateContextReason cause = []")
  case True
  obtain p reason high where "capture (co_high c) clk = (p, reason, high)" by (metis prod_cases3)
  then show ?thesis using assms True that(2) by (simp add: startCapture_def)
next
  case False
  then show ?thesis using assms that(1) by (auto simp: startCapture_def Let_def split: if_splits)
qed

lemma startCapture_ok: "startCapture c cause request clk = (d, c') \<Longrightarrow> coordOk c \<Longrightarrow> coordOk c'"
proof (erule startCapture_cases)
  fix p reason high
  assume a: "validRequest c request" "coordOk c" and
    c': "c' = c\<lparr>co_high := high, co_call := Some \<lparr>sc_request = request, sc_clocks = p, sc_reason = reason, sc_refused = False\<rparr>\<rparr>"
  show "coordOk c'" unfolding c' using a(1) by (intro coordOk_call coordOk_high a(2)) auto
qed simp

lemma startRefuse_move: "refuseMove (c\<lparr>co_call := Some (call\<lparr>sc_refused := True\<rparr>)\<rparr>) (startRefuse c call now)"
  using pendingRefusal_move by (auto simp: startRefuse_def Let_def refuseMove_def [of c c for c] split: option.splits)

lemma startRefuse_ok:
  assumes "coordOk c" "co_call c = Some call"
  shows "coordOk (startRefuse c call now)"
proof -
  have "coordOk (c\<lparr>co_call := Some (call\<lparr>sc_refused := True\<rparr>)\<rparr>)"
    using assms by (intro coordOk_call) (auto simp: coordOk_def)
  then show ?thesis using refuseMove_ok startRefuse_move by blast
qed

text \<open>A decision changes nothing but the call, or launches a ticket.\<close>

definition launchReady :: "inventoryStateCoordinator \<Rightarrow> start_call \<Rightarrow> bool" where
  "launchReady c call \<longleftrightarrow>
     (\<forall>t. co_ticket c = Some t \<longrightarrow> sampleCompleted t \<noteq> None \<and> it_request t \<noteq> sc_request call) \<and>
     \<not> alreadyStarted c (sc_request call) \<and> sc_reason call = [] \<and> startWait c (sc_clocks call) \<le> 0 \<and> co_nextID c \<noteq> maxUint64"

lemma startFresh_cases:
  assumes "startFresh c call now deadline = (d, c')"
  obtains "c' = c" "\<not> ad_Started d"
  | "(d, c') = launchSample c (sc_request call) (sc_clocks call) deadline" "\<not> alreadyStarted c (sc_request call)"
    "sc_reason call = []" "startWait c (sc_clocks call) \<le> 0" "co_nextID c \<noteq> maxUint64"
  using assms unfolding startFresh_def Let_def
  by (auto simp: refusedDecision_def split: if_splits)

lemma startWait_call [simp]: "startWait (c\<lparr>co_call := x\<rparr>) p = startWait c p"
  by (simp add: startWait_def)

lemma alreadyStarted_call [simp]: "alreadyStarted (c\<lparr>co_call := x\<rparr>) q = alreadyStarted c q"
  by (simp add: alreadyStarted_def cong: option.case_cong)

lemma own_not_started [simp]: "\<not> ad_Started (ownTicketDecision c t p)"
  by (simp add: ownTicketDecision_def refusedDecision_def Let_def split: option.splits)

lemma other_not_started [simp]: "\<not> ad_Started (otherTicketDecision t q)"
  by (simp add: otherTicketDecision_def refusedDecision_def Let_def)

lemma startDecide_cases:
  assumes "startDecide c call now deadline = (d, c')"
  obtains "c' = c\<lparr>co_call := None\<rparr>" "\<not> ad_Started d"
  | "(d, c') = launchSample (c\<lparr>co_call := None\<rparr>) (sc_request call) (sc_clocks call) deadline" "launchReady c call"
proof (cases "\<forall>t. co_ticket c = Some t \<longrightarrow> sampleCompleted t \<noteq> None \<and> it_request t \<noteq> sc_request call")
  case True
  then have "startFresh (c\<lparr>co_call := None\<rparr>) call now deadline = (d, c')"
    using assms by (auto simp: startDecide_def Let_def split: option.splits if_splits)
  then show ?thesis using True that by (cases rule: startFresh_cases) (simp_all add: launchReady_def)
next
  case False
  then have "c' = c\<lparr>co_call := None\<rparr> \<and> \<not> ad_Started d"
    using assms by (auto simp: startDecide_def Let_def split: option.splits if_splits)
  then show ?thesis using that by blast
qed

definition launchedTicket :: "inventoryStateCoordinator \<Rightarrow> start_call \<Rightarrow> gotime \<Rightarrow> inventoryStateTicket" where
  "launchedTicket c call deadline = \<lparr>it_ID = co_nextID c + 1, it_request = sc_request call, it_launch = sc_clocks call,
     it_deadline = deadline, it_cause = None, it_refusal = [], it_used = False, it_phase = SLaunched\<rparr>"

lemma launchSample_eq:
  "launchSample (c\<lparr>co_call := None\<rparr>) (sc_request call) (sc_clocks call) deadline = (d, c') \<Longrightarrow>
   ad_Started d \<and> ad_Ticket d = Some (launchedTicket c call deadline) \<and>
   c' = c\<lparr>co_call := None, co_nextID := co_nextID c + 1, co_ticket := Some (launchedTicket c call deadline), co_retry := zeroPair,
          co_intents := (co_intents c)(the (rq_intent (sc_request call)) :=
            map_option (markStarted (sc_request call)) (co_intents c (the (rq_intent (sc_request call)))))\<rparr>"
  by (auto simp: launchSample_def launchedTicket_def Let_def refusedDecision_def)

lemma markStarted_phase: "phaseStarted ph i \<Longrightarrow> phaseStarted ph (markStarted q i)"
  by (auto simp: phaseStarted_def markStarted_def)

lemma requestFits_phase: "requestFits k i q \<Longrightarrow> phaseStarted (rq_phase q) (markStarted q i)"
  by (auto simp: requestFits_def phaseStarted_def markStarted_def split: if_splits)

lemma startDecide_ok:
  assumes "startDecide c call now deadline = (d, c')" "coordOk c" "co_call c = Some call"
  shows "coordOk c'"
  using assms(1)
proof (cases rule: startDecide_cases)
  case 1
  then show ?thesis using coordOk_call [OF assms(2), of None] by simp
next
  case 2
  let ?q = "sc_request call"
  obtain k i where k: "rq_intent ?q = Some k" "co_intents c k = Some i" "requestFits k i ?q"
    using assms(2,3) validRequest_iff [of c ?q] by (auto simp: coordOk_def)
  let ?c1 = "c\<lparr>co_call := None, co_intents := (co_intents c)(k := map_option (markStarted ?q) (co_intents c k))\<rparr>"
  have c1: "coordOk ?c1"
    using coordOk_update [of "c\<lparr>co_call := None\<rparr>" k "markStarted ?q"] coordOk_call [OF assms(2), of None] markStarted_phase
    by simp
  have c': "c' = ?c1\<lparr>co_nextID := co_nextID c + 1, co_ticket := Some (launchedTicket c call deadline), co_retry := zeroPair\<rparr>"
    using launchSample_eq [OF 2(1) [symmetric]] k(1) by simp
  have "ownedBy (co_intents ?c1) ?q"
    using k requestFits_phase [OF k(3)] unfolding ownedBy_def requestFits_def by auto
  then have "slotOk c'" unfolding c' by (simp add: slotOk_def launchedTicket_def sampleOk_def)
  then show ?thesis using c1 unfolding c' by (simp add: coordOk_def intentsOk_def)
qed

section \<open>The callback and its use\<close>

lemma slot_ticket: "coordOk c \<Longrightarrow> co_ticket c = Some t \<Longrightarrow> sampleOk (scopeLimit c (rq_scope (it_request t))) (co_retry c) t"
  by (simp add: coordOk_def slotOk_def)

lemma coordOk_ticket:
  assumes "coordOk c" "co_ticket c = Some t" "it_ID t' = it_ID t" "it_request t' = it_request t"
    "sampleOk (scopeLimit c (rq_scope (it_request t))) retry t'"
  shows "coordOk (c\<lparr>co_retry := retry, co_ticket := Some t'\<rparr>)"
  using assms by (simp add: coordOk_def slotOk_def intentsOk_def scopeLimit_def)

lemma coordOk_same_retry:
  assumes "coordOk c" "co_ticket c = Some t" "it_ID t' = it_ID t" "it_request t' = it_request t"
    "sampleOk (scopeLimit c (rq_scope (it_request t))) (co_retry c) t'"
  shows "coordOk (c\<lparr>co_ticket := Some t'\<rparr>)"
  using assms by (simp add: coordOk_def slotOk_def intentsOk_def scopeLimit_def)

lemma refuseMove_ticket:
  assumes "refuseMove c c'" "co_ticket c = Some t"
  shows "\<exists>t'. co_ticket c' = Some t' \<and> it_phase t' = it_phase t \<and> it_ID t' = it_ID t \<and> it_request t' = it_request t \<and>
    it_launch t' = it_launch t \<and> it_used t' = it_used t"
  using assms by (auto simp: refuseMove_def)

lemma sampleEntry_cases:
  obtains "sampleEntry c clk now = c"
  | t high c1 t1 where "co_ticket c = Some t" "it_phase t = SLaunched" "refuseMove (c\<lparr>co_high := high\<rparr>) c1"
    "co_ticket c1 = Some t1" "it_ID t1 = it_ID t" "it_request t1 = it_request t" "it_launch t1 = it_launch t"
    "it_used t1 = it_used t" "sampleEntry c clk now = c1\<lparr>co_ticket := Some (t1\<lparr>it_phase := SEntered (it_refusal t1)\<rparr>)\<rparr>"
proof (cases "\<exists>t. co_ticket c = Some t \<and> it_phase t = SLaunched")
  case True
  then obtain t where t: "co_ticket c = Some t" "it_phase t = SLaunched" by blast
  obtain p reason high where k: "capture (co_high c) clk = (p, reason, high)" by (metis prod_cases3)
  let ?c1 = "pendingRefusal (c\<lparr>co_high := high\<rparr>) t p reason now"
  have mv: "refuseMove (c\<lparr>co_high := high\<rparr>) ?c1" using t pendingRefusal_move [of "c\<lparr>co_high := high\<rparr>" t] by simp
  obtain t1 where t1: "co_ticket ?c1 = Some t1" "it_ID t1 = it_ID t" "it_request t1 = it_request t" "it_launch t1 = it_launch t"
    "it_used t1 = it_used t"
    using refuseMove_ticket [OF mv, of t] t by auto
  have "sampleEntry c clk now = ?c1\<lparr>co_ticket := Some (t1\<lparr>it_phase := SEntered (it_refusal t1)\<rparr>)\<rparr>"
    using t t1(1) k by (simp add: sampleEntry_def)
  then show ?thesis using that(2) [OF t mv t1] by simp
next
  case False
  then have "sampleEntry c clk now = c" by (auto simp: sampleEntry_def split: option.splits)
  then show ?thesis by (rule that(1))
qed

lemma sampleEntry_ok: "coordOk c \<Longrightarrow> coordOk (sampleEntry c clk now)"
proof (cases rule: sampleEntry_cases [of c clk now])
  case (2 t high c1 t1)
  assume "coordOk c"
  then have "coordOk c1" using refuseMove_ok [OF 2(3)] coordOk_high by simp
  then show ?thesis using 2 slot_ticket [of c1 t1] coordOk_same_retry [of c1 t1]
    by (simp add: sampleOk_def)
qed simp

lemma firstReason_none: "firstReason rs = [] \<longleftrightarrow> (\<forall>r\<in>set rs. r = [])"
  by (induction rs) auto

lemma callbackReason_panic: "callbackReason s Panic \<noteq> []"
  by (simp add: callbackReason_def)

lemma frozenVerdict_ok:
  assumes "a = Panic \<longrightarrow> reason0 \<noteq> []"
  shows "verdictOk limit t (frozenVerdict limit t p reason0 a)"
proof (cases "reason0 = []")
  case True
  then obtain report e where "a = Answered report e" using assms by (cases a) auto
  then show ?thesis using True
    by (auto simp: verdictOk_def frozenVerdict_def reportVerdict_def split: if_splits)
qed (simp add: verdictOk_def frozenVerdict_def)

text \<open>What the return of a callback leaves.\<close>

lemma sampleReturn_cases:
  obtains "sampleReturn c clk now a = c"
  | t s p clockReason high where "co_ticket c = Some t" "it_phase t = SEntered s" "capture (co_high c) clk = (p, clockReason, high)"
    "sampleReturn c clk now a = c\<lparr>co_high := high, co_ticket := Some (t\<lparr>it_phase := SReturned
       (frozenVerdict (scopeLimit c (rq_scope (it_request t))) t p
          (firstReason [inventoryStateContextReason (it_cause t), clockReason, windowReason t p now, callbackReason s a]) a)\<rparr>)\<rparr>"
proof (cases "\<exists>t s. co_ticket c = Some t \<and> it_phase t = SEntered s")
  case True
  then obtain t s where t: "co_ticket c = Some t" "it_phase t = SEntered s" by blast
  obtain p clockReason high where k: "capture (co_high c) clk = (p, clockReason, high)" by (metis prod_cases3)
  show ?thesis using that(2) [OF t k] t k by (simp add: sampleReturn_def)
next
  case False
  then have "sampleReturn c clk now a = c" by (auto simp: sampleReturn_def split: option.splits sample_phase.splits)
  then show ?thesis by (rule that(1))
qed

lemma sampleReturn_ok: "coordOk c \<Longrightarrow> coordOk (sampleReturn c clk now a)"
proof (cases rule: sampleReturn_cases [of c clk now a])
  case (2 t s p clockReason high)
  assume c: "coordOk c"
  let ?r0 = "firstReason [inventoryStateContextReason (it_cause t), clockReason, windowReason t p now, callbackReason s a]"
  let ?t' = "t\<lparr>it_phase := SReturned (frozenVerdict (scopeLimit c (rq_scope (it_request t))) t p ?r0 a)\<rparr>"
  have "a = Panic \<longrightarrow> ?r0 \<noteq> []" using callbackReason_panic by (auto simp: firstReason_none)
  then have "verdictOk (scopeLimit c (rq_scope (it_request t))) ?t' (frozenVerdict (scopeLimit c (rq_scope (it_request t))) t p ?r0 a)"
    using frozenVerdict_ok [of a ?r0] by (simp add: verdictOk_def)
  then have "sampleOk (scopeLimit c (rq_scope (it_request t))) (co_retry c) ?t'"
    using slot_ticket [OF c 2(1)] by (simp add: sampleOk_def)
  then have "coordOk ((c\<lparr>co_high := high\<rparr>)\<lparr>co_ticket := Some ?t'\<rparr>)"
    using coordOk_same_retry [OF coordOk_high [OF c, of high], of t ?t'] 2(1) by (simp add: scopeLimit_def)
  then show ?thesis using 2(4) by simp
qed simp

text \<open>What the publication leaves.\<close>

definition publishedAs :: "inventoryStateTicket \<Rightarrow> inventoryStateCompletion \<Rightarrow> inventoryStateCompletion" where
  "publishedAs t r =
     (if it_refusal t \<noteq> [] then r\<lparr>ic_Reason := it_refusal t, ic_Usable := False\<rparr>
      else if ic_Reason r \<noteq> [] then r\<lparr>ic_Usable := False\<rparr> else r)"

lemma samplePublish_cases:
  obtains "samplePublish c = c"
  | t r t' where "co_ticket c = Some t" "it_phase t = SReturned r" "it_ID t' = it_ID t" "it_request t' = it_request t"
    "it_launch t' = it_launch t" "it_used t' = it_used t" "it_phase t' = SDone r (publishedAs t r)"
    "it_refusal t' = (if it_refusal t \<noteq> [] then it_refusal t else ic_Reason r)"
    "samplePublish c = c\<lparr>co_retry := (if it_refusal t = [] \<and> ic_Reason r \<noteq> [] then retryOf t else co_retry c), co_ticket := Some t'\<rparr>"
proof (cases "\<exists>t r. co_ticket c = Some t \<and> it_phase t = SReturned r")
  case True
  then obtain t r where t: "co_ticket c = Some t" "it_phase t = SReturned r" by blast
  let ?t0 = "if it_refusal t \<noteq> [] \<or> ic_Reason r = [] then t else failTicket (ic_Reason r) t"
  let ?t' = "cancelSample ContextCanceled (?t0\<lparr>it_phase := SDone r (publishedAs t r)\<rparr>)"
  have "samplePublish c = c\<lparr>co_retry := (if it_refusal t = [] \<and> ic_Reason r \<noteq> [] then retryOf t else co_retry c), co_ticket := Some ?t'\<rparr>"
    using t by (simp add: samplePublish_def Let_def recordFailure_eq publishedAs_def)
  then show ?thesis using that(2) [OF t, of ?t'] by simp
next
  case False
  then have "samplePublish c = c" by (auto simp: samplePublish_def split: option.splits sample_phase.splits)
  then show ?thesis by (rule that(1))
qed

lemma samplePublish_ok: "coordOk c \<Longrightarrow> coordOk (samplePublish c)"
proof (cases rule: samplePublish_cases [of c])
  case (2 t r t')
  assume c: "coordOk c"
  have ok: "sampleOk (scopeLimit c (rq_scope (it_request t))) (co_retry c) t" by (rule slot_ticket [OF c 2(1)])
  have "verdictOk (scopeLimit c (rq_scope (it_request t))) t' r"
    using ok 2 by (simp add: sampleOk_def verdictOk_def)
  then have "sampleOk (scopeLimit c (rq_scope (it_request t)))
      (if it_refusal t = [] \<and> ic_Reason r \<noteq> [] then retryOf t else co_retry c) t'"
    using ok 2 by (auto simp: sampleOk_def retryOf_def publishedAs_def)
  then show ?thesis using coordOk_ticket [OF c 2(1), of t'] 2 by simp
qed simp

lemma refuseMove_refl [simp]: "refuseMove c c"
  by (simp add: refuseMove_def)

lemma cancelOwned_move: "cancelOwned c sid i = (ok, c') \<Longrightarrow> refuseMove c c'"
proof (cases "co_ticket c")
  case (Some t)
  assume "cancelOwned c sid i = (ok, c')"
  then have "c' = c \<or> c' = fst (refuseSample c t ''inventory_state_canceled'')"
    using Some by (auto simp: cancelOwned_def split: if_splits prod.splits)
  then show ?thesis using refuseSample_move [OF Some] by (elim disjE) simp_all
qed (simp add: cancelOwned_def)

lemma abandonIntent_cases:
  assumes "abandonIntent c sid ko = (ok, c')"
  obtains "c' = c" | k where "c' = abandonLocked c k"
  using assms by (auto simp: abandonIntent_def split: option.splits if_splits)

lemma abandonIntent_ok: "abandonIntent c sid ko = (ok, c') \<Longrightarrow> coordOk c \<Longrightarrow> co_call c = None \<Longrightarrow> coordOk c'"
  by (erule abandonIntent_cases) (auto intro: abandonLocked_ok)

lemma sampleContextEnds_ok:
  assumes "coordOk c"
  shows "coordOk (sampleContextEnds c e)"
proof (cases "co_ticket c")
  case (Some t)
  have "sampleOk (scopeLimit c (rq_scope (it_request t))) (co_retry c) (cancelSample e t)"
    using slot_ticket [OF assms Some] by (simp add: sampleOk_def verdictOk_def retryOf_def split: sample_phase.splits)
  then show ?thesis using coordOk_same_retry [OF assms Some, of "cancelSample e t"] Some by (simp add: sampleContextEnds_def)
qed (use assms in \<open>simp add: sampleContextEnds_def coordOk_def slotOk_def intentsOk_def scopeLimit_def\<close>)

text \<open>What taking a completion does: nothing, a raised clock mark, a permit thrown away, or a permit.\<close>

lemma takeCompletion_cases:
  assumes "takeCompletion c ctxNil causes request i clk now causes' = ((r, ok), c')"
  obtains (same) "\<not> ok" "c' = c"
  | (late) high where "\<not> ok" "c' = c\<lparr>co_high := high\<rparr>"
  | (lost) high t where "\<not> ok" "co_ticket c = Some t" "c' = c\<lparr>co_high := high, co_ticket := Some (t\<lparr>it_used := True\<rparr>)\<rparr>"
  | (permit) t p high c2 where "ok" "co_ticket c = Some t" "validRequest c request" "it_request t = request" "\<not> it_used t"
    "it_refusal t = []" "sampleCompleted t = Some r" "ic_Usable r" "capture (co_high c) clk = (p, [], high)"
    "t_ns (ic_CompletedWall r) \<le> t_ns (cp_wall p)" "t_ns (ic_CompletedElapsed r) \<le> t_ns (cp_elapsed p)" "windowReason t p now = []"
    "c2 = c\<lparr>co_high := high, co_ticket := Some (t\<lparr>it_used := True\<rparr>)\<rparr>" "i = Some (it_ID t)"
    "c' = (if rq_phase request = beforeDispatch
           then c2\<lparr>co_intents := (co_intents c)(the (rq_intent request) :=
                  map_option (\<lambda>i. i\<lparr>in_preUsed := True\<rparr>) (co_intents c (the (rq_intent request))))\<rparr> else c2)"
proof (cases "co_ticket c")
  case None
  then show ?thesis using assms same by (simp add: takeCompletion_def)
next
  case (Some t)
  show ?thesis
  proof (cases "ctxNil \<or> \<not> validRequest c request \<or> i \<noteq> Some (it_ID t) \<or> it_request t \<noteq> request \<or> it_used t \<or>
             inventoryStateContextReason (fst causes) \<noteq> [] \<or> inventoryStateContextReason (snd causes) \<noteq> [] \<or>
             sampleCompleted t = None \<or> \<not> ic_Usable (the (sampleCompleted t)) \<or> it_refusal t \<noteq> []")
    case True
    then have "\<not> ok \<and> c' = c" using assms Some
      by (auto simp: takeCompletion_def split: option.splits if_splits)
    then show ?thesis using same by blast
  next
    case go: False
    then obtain r0 where r0: "sampleCompleted t = Some r0" by auto
    obtain p reason high where k: "capture (co_high c) clk = (p, reason, high)" by (metis prod_cases3)
    let ?c1 = "c\<lparr>co_high := high\<rparr>"
    let ?c2 = "c\<lparr>co_high := high, co_ticket := Some (t\<lparr>it_used := True\<rparr>)\<rparr>"
    have "takeCompletion c ctxNil causes request i clk now causes' =
      (if reason \<noteq> [] \<or> tBefore (cp_wall p) (ic_CompletedWall r0) \<or> tBefore (cp_elapsed p) (ic_CompletedElapsed r0) then ((r0, False), ?c2)
       else if windowReason t p now \<noteq> [] then ((r0, False), ?c2)
       else if inventoryStateContextReason (fst causes') \<noteq> [] \<or> inventoryStateContextReason (snd causes') \<noteq> [] then ((r0, False), ?c1)
       else ((r0, True), if rq_phase request = beforeDispatch
             then ?c2\<lparr>co_intents := (co_intents c)(the (rq_intent request) :=
                  map_option (\<lambda>i. i\<lparr>in_preUsed := True\<rparr>) (co_intents c (the (rq_intent request))))\<rparr> else ?c2))"
      using Some go r0 k by (simp add: takeCompletion_def)
    note eq = assms [unfolded this, symmetric]
    show ?thesis
    proof (cases "reason \<noteq> [] \<or> tBefore (cp_wall p) (ic_CompletedWall r0) \<or> tBefore (cp_elapsed p) (ic_CompletedElapsed r0) \<or>
        windowReason t p now \<noteq> []")
      case True
      then have "\<not> ok \<and> c' = ?c2" using eq by (simp split: if_splits)
      then show ?thesis using Some lost by blast
    next
      case fine: False
      show ?thesis
      proof (cases "inventoryStateContextReason (fst causes') \<noteq> [] \<or> inventoryStateContextReason (snd causes') \<noteq> []")
        case True
        then have "\<not> ok \<and> c' = ?c1" using eq fine by simp
        then show ?thesis using late by blast
      next
        case False
        then show ?thesis using permit [of t p high ?c2] eq fine go Some r0 k by (simp add: tBefore_def)
      qed
    qed
  qed
qed

lemma coordOk_used:
  assumes "coordOk c" "co_ticket c = Some t"
  shows "coordOk (c\<lparr>co_high := high, co_ticket := Some (t\<lparr>it_used := True\<rparr>)\<rparr>)"
proof -
  have "sampleOk (scopeLimit c (rq_scope (it_request t))) (co_retry c) (t\<lparr>it_used := True\<rparr>)"
    using slot_ticket [OF assms] by (simp add: sampleOk_def verdictOk_def split: sample_phase.splits)
  then show ?thesis using coordOk_same_retry [OF coordOk_high [OF assms(1), of high], of t "t\<lparr>it_used := True\<rparr>"] assms(2)
    by (simp add: scopeLimit_def)
qed

lemma takeCompletion_ok:
  assumes "takeCompletion c ctxNil causes request i clk now causes' = ((r, ok), c')" "coordOk c" "co_call c = None"
  shows "coordOk c'"
  using assms(1)
proof (cases rule: takeCompletion_cases)
  case (permit t p high c2)
  then have "coordOk c2" using coordOk_used [OF assms(2)] by simp
  then show ?thesis using permit(13,15) assms(3)
      coordOk_update [of c2 "the (rq_intent request)" "\<lambda>i. i\<lparr>in_preUsed := True\<rparr>"] by simp
qed (use assms(2) coordOk_high coordOk_used in auto)

section \<open>Runs\<close>

lemma state_step_ok:
  assumes "state_step c ev c'" "coordOk c"
  shows "coordOk c'"
  using assms
proof (induction rule: state_step.induct)
  case (cancelled c sid i ok c')
  then show ?case using cancelOwned_move refuseMove_ok by blast
qed (auto intro: addScope_ok newIntent_ok bindReceipt_ok startCapture_ok startRefuse_ok startDecide_ok sampleEntry_ok
    sampleReturn_ok samplePublish_ok takeCompletion_ok abandonIntent_ok sampleContextEnds_ok)

lemma state_run_ok: "state_run c evs c' \<Longrightarrow> coordOk c \<Longrightarrow> coordOk c'"
  by (induction rule: state_run.induct) (auto intro: state_step_ok)

end
