(* ===== verification/State_Run_Laws.thy ===== *)
theory State_Run_Laws
  imports State_Coordinator_Laws
begin

text \<open>
  What the steps of the sample coordinator keep of its ticket and of its intents, and from it what
  holds along every run: who has been permitted what, and when.
\<close>

section \<open>What a step keeps\<close>

definition sameTicket :: "inventoryStateTicket \<Rightarrow> inventoryStateTicket \<Rightarrow> bool" where
  "sameTicket t t' \<longleftrightarrow> it_ID t' = it_ID t \<and> it_request t' = it_request t \<and> it_launch t' = it_launch t \<and>
     (it_used t \<longrightarrow> it_used t') \<and> (\<forall>r. ticketReturned t = Some r \<longrightarrow> ticketReturned t' = Some r)"

text \<open>A returned callback without a reason against it, and without an earlier denial.\<close>

definition goodReturn :: "inventoryStateTicket \<Rightarrow> inventoryStateCompletion \<Rightarrow> bool" where
  "goodReturn t r \<longleftrightarrow> it_refusal t = [] \<and> ticketReturned t = Some r \<and> ic_Reason r = []"

definition keepsSlot :: "inventoryStateCoordinator \<Rightarrow> inventoryStateCoordinator \<Rightarrow> bool" where
  "keepsSlot c c' \<longleftrightarrow> co_nextID c' = co_nextID c \<and> (co_ticket c = None \<longrightarrow> co_ticket c' = None) \<and>
     (\<forall>t. co_ticket c = Some t \<longrightarrow> (\<exists>t'. co_ticket c' = Some t' \<and> sameTicket t t' \<and>
        (\<forall>r. goodReturn t r \<longrightarrow> goodReturn t' r \<and> co_retry c' = co_retry c)))"

definition keepsIntents :: "inventoryStateCoordinator \<Rightarrow> inventoryStateCoordinator \<Rightarrow> bool" where
  "keepsIntents c c' \<longleftrightarrow> intentsGrow (co_intents c) (co_intents c') \<and>
     (\<forall>k. (\<exists>i. co_intents c' k = Some i \<and> in_preUsed i) \<longleftrightarrow> (\<exists>i. co_intents c k = Some i \<and> in_preUsed i))"

lemma intentsGrow_refl [simp]: "intentsGrow m m"
  by (simp add: intentsGrow_def)

lemma keepsIntents_same: "co_intents c' = co_intents c \<Longrightarrow> keepsIntents c c'"
  by (simp add: keepsIntents_def)

lemma intentsGrow_trans:
  assumes "intentsGrow a b" "intentsGrow b c"
  shows "intentsGrow a c"
  unfolding intentsGrow_def
proof (intro allI impI)
  fix k i assume "a k = Some i"
  then obtain j where j: "b k = Some j" "\<forall>ph. phaseStarted ph i \<longrightarrow> phaseStarted ph j" using assms(1) unfolding intentsGrow_def by blast
  then obtain l where "c k = Some l" "\<forall>ph. phaseStarted ph j \<longrightarrow> phaseStarted ph l" using assms(2) unfolding intentsGrow_def by blast
  then show "\<exists>i'. c k = Some i' \<and> (\<forall>ph. phaseStarted ph i \<longrightarrow> phaseStarted ph i')" using j by blast
qed

lemma keepsIntents_trans: "keepsIntents a b \<Longrightarrow> keepsIntents b c \<Longrightarrow> keepsIntents a c"
  using intentsGrow_trans [of "co_intents a" "co_intents b" "co_intents c"] by (simp add: keepsIntents_def)

lemma sameTicket_refl [simp]: "sameTicket t t"
  by (simp add: sameTicket_def)

lemma keepsSlot_same: "co_ticket c' = co_ticket c \<Longrightarrow> co_retry c' = co_retry c \<Longrightarrow> co_nextID c' = co_nextID c \<Longrightarrow> keepsSlot c c'"
  by (simp add: keepsSlot_def)

lemma keepsSlot_trans: "keepsSlot a b \<Longrightarrow> keepsSlot b c \<Longrightarrow> keepsSlot a c"
  unfolding keepsSlot_def sameTicket_def by (cases "co_ticket a"; fastforce)

lemma keepsSlot_ticket:
  assumes "co_ticket c = Some t" "co_ticket c' = Some t'" "co_nextID c' = co_nextID c" "sameTicket t t'"
    "\<And>r. goodReturn t r \<Longrightarrow> goodReturn t' r \<and> co_retry c' = co_retry c"
  shows "keepsSlot c c'"
  using assms by (simp add: keepsSlot_def)

lemma refuseMove_slot_kept: "refuseMove c c' \<Longrightarrow> keepsSlot c c'"
  by (auto simp: refuseMove_def keepsSlot_def sameTicket_def goodReturn_def)

lemma keepsIntents_update:
  assumes "\<And>i. co_intents c k = Some i \<Longrightarrow> in_preUsed (f i) = in_preUsed i \<and> (\<forall>ph. phaseStarted ph i \<longrightarrow> phaseStarted ph (f i))"
    "co_intents c' = (co_intents c)(k := map_option f (co_intents c k))"
  shows "keepsIntents c c'"
  using assms intentsGrow_update [of "co_intents c" k f] by (auto simp: keepsIntents_def)

lemma abandonLocked_keeps: "keepsSlot c (abandonLocked c k)" "keepsIntents c (abandonLocked c k)"
proof -
  show "keepsSlot c (abandonLocked c k)"
    using refuseMove_slot_kept [OF abandonLocked_move [of c k]] by (simp add: keepsSlot_def)
  show "keepsIntents c (abandonLocked c k)"
    by (rule keepsIntents_update [where k = k and f = "\<lambda>i. i\<lparr>in_abandoned := True\<rparr>"]) (simp_all add: abandonLocked_frame)
qed

lemma openIntent_keeps:
  assumes "coordOk c" "co_scopes c sid = Some s"
  shows "keepsSlot c (openIntent c sid s)" "keepsIntents c (openIntent c sid s)"
proof -
  have "co_intents c (sid, rs_nextIntent s + 1) = None" using assms fresh_intent by (simp add: coordOk_def)
  then show "keepsIntents c (openIntent c sid s)"
    by (auto simp: keepsIntents_def intentsGrow_def openIntent_def Let_def)
  show "keepsSlot c (openIntent c sid s)" by (rule keepsSlot_same) (simp_all add: openIntent_def Let_def)
qed

lemma newIntent_keeps:
  assumes "newIntent c sid = (res, c')" "coordOk c" "co_call c = None"
  shows "keepsSlot c c'" "keepsIntents c c'"
proof -
  have "keepsSlot c c' \<and> keepsIntents c c'" using assms(1)
  proof (cases rule: newIntent_cases)
    case 1
    then show ?thesis by (simp add: keepsSlot_same keepsIntents_same)
  next
    case (2 s)
    then show ?thesis using openIntent_keeps assms by blast
  next
    case (3 s g)
    have "coordOk (abandonLocked c (sid, g))" using abandonLocked_ok assms by blast
    then show ?thesis
      using 3 openIntent_keeps [of "abandonLocked c (sid, g)" sid s] abandonLocked_frame abandonLocked_keeps [of c "(sid, g)"]
        keepsSlot_trans keepsIntents_trans by metis
  qed
  then show "keepsSlot c c'" "keepsIntents c c'" by simp_all
qed

lemma bindReceipt_keeps:
  assumes "bindReceipt c k budget wall elapsed deadline = (res, c')"
  shows "keepsSlot c c'" "keepsIntents c c'"
proof -
  have "keepsSlot c c' \<and> keepsIntents c c'" using assms
  proof (cases rule: bindReceipt_cases)
    case 1
    then show ?thesis by (simp add: keepsSlot_same keepsIntents_same)
  next
    case (2 r)
    then show ?thesis using keepsIntents_update [of c k "\<lambda>i. i\<lparr>in_receipt := Some r\<rparr>" c']
      by (simp add: keepsSlot_same)
  qed
  then show "keepsSlot c c'" "keepsIntents c c'" by simp_all
qed

lemma startRefuse_keeps: "keepsSlot c (startRefuse c call now)" "keepsIntents c (startRefuse c call now)"
proof -
  note mv = startRefuse_move [where c = c and call = call and now = now]
  show "keepsSlot c (startRefuse c call now)"
    using refuseMove_slot_kept [OF mv] by (simp add: keepsSlot_def)
  show "keepsIntents c (startRefuse c call now)"
    using refuseMove_frame(4) [OF mv] by (intro keepsIntents_same) simp
qed

lemma sampleEntry_keeps: "keepsSlot c (sampleEntry c clk now)" "keepsIntents c (sampleEntry c clk now)"
proof -
  have "keepsSlot c (sampleEntry c clk now) \<and> keepsIntents c (sampleEntry c clk now)"
  proof (cases rule: sampleEntry_cases [of c clk now])
    case 1
    then show ?thesis by (simp add: keepsSlot_same keepsIntents_same)
  next
    case (2 t high c1 t1)
    have "ticketReturned t = None" using 2(2) by (simp add: ticketReturned_def)
    then show ?thesis using 2 refuseMove_frame [OF 2(3)] keepsSlot_ticket [OF 2(1)]
      by (simp add: keepsIntents_same sameTicket_def goodReturn_def)
  qed
  then show "keepsSlot c (sampleEntry c clk now)" "keepsIntents c (sampleEntry c clk now)" by simp_all
qed

lemma sampleReturn_keeps: "keepsSlot c (sampleReturn c clk now a)" "keepsIntents c (sampleReturn c clk now a)"
proof -
  have "keepsSlot c (sampleReturn c clk now a) \<and> keepsIntents c (sampleReturn c clk now a)"
  proof (cases rule: sampleReturn_cases [of c clk now a])
    case 1
    then show ?thesis by (simp add: keepsSlot_same keepsIntents_same)
  next
    case (2 t s p clockReason high)
    have "ticketReturned t = None" using 2(2) by (simp add: ticketReturned_def)
    then show ?thesis using 2 keepsSlot_ticket [OF 2(1)]
      by (simp add: keepsIntents_same sameTicket_def goodReturn_def)
  qed
  then show "keepsSlot c (sampleReturn c clk now a)" "keepsIntents c (sampleReturn c clk now a)" by simp_all
qed

lemma samplePublish_keeps: "keepsSlot c (samplePublish c)" "keepsIntents c (samplePublish c)"
proof -
  have "keepsSlot c (samplePublish c) \<and> keepsIntents c (samplePublish c)"
  proof (cases rule: samplePublish_cases [of c])
    case 1
    then show ?thesis by (simp add: keepsSlot_same keepsIntents_same)
  next
    case (2 t r t')
    have "sameTicket t t'" using 2 by (simp add: sameTicket_def ticketReturned_def)
    moreover have "goodReturn t' q \<and> co_retry (samplePublish c) = co_retry c" if "goodReturn t q" for q
      using that 2 by (simp add: goodReturn_def ticketReturned_def)
    ultimately show ?thesis using 2 keepsSlot_ticket [OF 2(1), of "samplePublish c" t'] by (simp add: keepsIntents_same)
  qed
  then show "keepsSlot c (samplePublish c)" "keepsIntents c (samplePublish c)" by simp_all
qed

lemma sampleContextEnds_keeps: "keepsSlot c (sampleContextEnds c e)" "keepsIntents c (sampleContextEnds c e)"
proof -
  have "ticketReturned (cancelSample e t) = ticketReturned t" for t by (simp add: ticketReturned_def)
  then show "keepsSlot c (sampleContextEnds c e)"
    by (auto simp: sampleContextEnds_def keepsSlot_def sameTicket_def goodReturn_def)
  show "keepsIntents c (sampleContextEnds c e)" by (simp add: sampleContextEnds_def keepsIntents_same)
qed

lemma used_keeps:
  assumes "co_ticket c = Some t"
  shows "keepsSlot c (c\<lparr>co_high := high, co_ticket := Some (t\<lparr>it_used := True\<rparr>)\<rparr>)"
  using assms by (intro keepsSlot_ticket [of c t]) (auto simp: sameTicket_def goodReturn_def ticketReturned_def)

section \<open>Events\<close>

text \<open>What the event of a step says of the two states.\<close>

definition launchMove :: "inventoryStateCoordinator \<Rightarrow> inventoryStateTicket \<Rightarrow> inventoryStateCoordinator \<Rightarrow> bool" where
  "launchMove c t c' \<longleftrightarrow> (\<exists>call deadline. co_call c = Some call \<and> launchReady c call \<and> t = launchedTicket c call deadline) \<and>
     co_ticket c' = Some t \<and> co_nextID c' = co_nextID c + 1 \<and> keepsIntents c c'"

definition permitMove :: "inventoryStateCoordinator \<Rightarrow> intent_key \<Rightarrow> string \<Rightarrow> inventoryStateCoordinator \<Rightarrow> bool" where
  "permitMove c k ph c' \<longleftrightarrow> keepsSlot c c' \<and>
     (\<exists>t i. co_ticket c = Some t \<and> validRequest c (it_request t) \<and> rq_intent (it_request t) = Some k \<and>
        rq_phase (it_request t) = ph \<and> \<not> it_used t \<and> co_ticket c' = Some (t\<lparr>it_used := True\<rparr>) \<and> co_intents c k = Some i \<and>
        co_intents c' = (if ph = beforeDispatch then (co_intents c)(k \<mapsto> i\<lparr>in_preUsed := True\<rparr>) else co_intents c))"

definition eventMove :: "inventoryStateCoordinator \<Rightarrow> state_event \<Rightarrow> inventoryStateCoordinator \<Rightarrow> bool" where
  "eventMove c ev c' \<longleftrightarrow>
     (case ev of
        Silent \<Rightarrow> keepsSlot c c' \<and> keepsIntents c c'
      | Launch t \<Rightarrow> launchMove c t c'
      | Permit k ph \<Rightarrow> permitMove c k ph c')"

lemma silentI: "keepsSlot c c' \<Longrightarrow> keepsIntents c c' \<Longrightarrow> eventMove c Silent c'"
  by (simp add: eventMove_def)

lemma startDecide_move:
  assumes "startDecide c call now deadline = (d, c')" "coordOk c" "co_call c = Some call"
  shows "eventMove c (if ad_Started d then Launch (the (ad_Ticket d)) else Silent) c'"
  using assms(1)
proof (cases rule: startDecide_cases)
  case 1
  then show ?thesis by (simp add: silentI keepsSlot_same keepsIntents_same)
next
  case 2
  note eq = launchSample_eq [OF 2(1) [symmetric]]
  have "keepsIntents c c'"
    by (rule keepsIntents_update [where k = "the (rq_intent (sc_request call))" and f = "markStarted (sc_request call)"])
      (use eq markStarted_phase in \<open>simp_all add: markStarted_def\<close>)
  then show ?thesis using eq 2(2) assms(3) by (auto simp: eventMove_def launchMove_def)
qed

lemma takeCompletion_move:
  assumes "takeCompletion c ctxNil causes request i clk now causes' = ((r, ok), c')"
  shows "eventMove c (if ok then Permit (the (rq_intent request)) (rq_phase request) else Silent) c'"
  using assms
proof (cases rule: takeCompletion_cases)
  case (permit t p high c2)
  obtain k j where k: "rq_intent request = Some k" "co_intents c k = Some j"
    using permit(3) validRequest_iff [of c request] by auto
  have "keepsSlot c c2" using used_keeps [OF permit(2), of high] permit(13) by simp
  then have "keepsSlot c c'" using permit(15) by (auto simp: keepsSlot_def)
  then show ?thesis using permit k by (simp add: eventMove_def permitMove_def)
qed (simp_all add: silentI keepsSlot_same keepsIntents_same used_keeps)

lemma state_step_move:
  assumes "state_step c ev c'" "coordOk c"
  shows "eventMove c ev c'"
  using assms
proof (induction rule: state_step.induct)
  case (scope sampler inst limit fair s c sid)
  then show ?case by (simp add: silentI keepsSlot_same keepsIntents_same addScope_def)
next
  case (intent c sid res c')
  then show ?case using newIntent_keeps silentI by blast
next
  case (bind c k budget wall elapsed deadline res' c')
  then show ?case using bindReceipt_keeps silentI by blast
next
  case (started c cause request clk d c')
  from started(2) show ?case
    by (cases rule: startCapture_cases) (simp_all add: silentI keepsSlot_same keepsIntents_same)
next
  case (cancelled c sid i ok c')
  then show ?case using cancelOwned_move refuseMove_slot_kept refuseMove_frame(4) keepsIntents_same silentI by metis
next
  case (abandoned c sid ko ok c')
  from abandoned(2) show ?case
    by (cases rule: abandonIntent_cases) (simp_all add: silentI keepsSlot_same keepsIntents_same abandonLocked_keeps)
qed (simp_all add: silentI startRefuse_keeps sampleEntry_keeps sampleReturn_keeps samplePublish_keeps sampleContextEnds_keeps
    startDecide_move takeCompletion_move)

text \<open>Sample numbers only grow, so a ticket that left the slot never comes back.\<close>

definition state_any :: "inventoryStateCoordinator \<Rightarrow> inventoryStateCoordinator \<Rightarrow> bool" where
  "state_any c c' \<longleftrightarrow> (\<exists>ev. state_step c ev c')"

interpretation sample_ids: monotone_ledger state_any coordOk co_nextID
proof
  fix c c' assume c: "coordOk c" "state_any c c'"
  then obtain ev where ev: "state_step c ev c'" by (auto simp: state_any_def)
  show "coordOk c'" using state_step_ok [OF ev c(1)] .
  show "co_nextID c \<le> co_nextID c'" using state_step_move [OF ev c(1)]
    by (cases ev) (auto simp: eventMove_def launchMove_def permitMove_def keepsSlot_def)
qed

lemma state_run_any: "state_run c evs c' \<Longrightarrow> state_any\<^sup>*\<^sup>* c c'"
  by (induction rule: state_run.induct) (auto simp: state_any_def intro: rtranclp.rtrancl_into_rtrancl)

lemma run_ids: "state_run c evs c' \<Longrightarrow> coordOk c \<Longrightarrow> co_nextID c \<le> co_nextID c'"
  using sample_ids.run_level state_run_any by blast

end
