(* ===== verification/State_Budget_Laws.thy ===== *)
theory State_Budget_Laws
  imports State_Policy
begin

text \<open>
  What one observation of the database files says: a closed form of its sizes in terms of the four
  answers of \<open>lstat\<close>, and that every report it returns passes the worker's check.
\<close>

section \<open>Checks and passes\<close>

lemma clockCheck_ok:
  assumes "clockCheck env k c = (c', Inr w)"
  shows "t_ns (ik_highWall c) \<le> t_ns w" "t_ns w < t_ns (ik_startedWall c) + inventoryStateSampleTimeout"
    "ik_highWall c' = w" "ik_startedWall c' = ik_startedWall c"
  using assms by (auto simp: clockCheck_def clockRefusal_def Let_def tBefore_def split: option.splits if_splits)

lemma finishReport_ok:
  assumes "finishReport env k c rep = Inr r"
  obtains w where "r = rep\<lparr>sb_SampleFinishedAt := w\<rparr>" "t_ns (ik_highWall c) \<le> t_ns w"
    "t_ns w < t_ns (ik_startedWall c) + inventoryStateSampleTimeout"
proof -
  obtain c' w where "clockCheck env k c = (c', Inr w)" "r = rep\<lparr>sb_SampleFinishedAt := w\<rparr>"
    using assms by (cases "clockCheck env k c") (auto simp: finishReport_def split: sum.splits option.splits)
  then show ?thesis using clockCheck_ok that by metis
qed

text \<open>The reading of one call: nothing usable, or a stamp (which is empty for a log that is not there).\<close>

definition readFile :: "sample_env \<Rightarrow> nat \<Rightarrow> inventoryStateStamp option" where
  "readFile env k =
     (case be_stat env k of
        Inl e \<Rightarrow> if k mod 2 = 1 \<and> errIs e ENOENT then Some None else None
      | Inr st \<Rightarrow> if validInventoryStateFile (be_euid env) st then Some (Some st) else None)"

lemma statPass_next:
  assumes "statPass env k c before = PassNext c' before'"
  shows "t_ns (ik_highWall c) \<le> t_ns (ik_highWall c')" "ik_startedWall c' = ik_startedWall c"
    "\<exists>stamp. readFile env k = Some stamp \<and>
       (if k < 2 then before' = before(k mod 2 := stamp)
        else before' = before \<and> sameInventoryStateStamp (before (k mod 2)) stamp)"
proof -
  obtain w where w: "clockCheck env k c = (c', Inr w)"
    using assms by (auto simp: statPass_def split: prod.splits sum.splits if_splits)
  show "t_ns (ik_highWall c) \<le> t_ns (ik_highWall c')" "ik_startedWall c' = ik_startedWall c"
    using clockCheck_ok [OF w] by simp_all
  show "\<exists>stamp. readFile env k = Some stamp \<and>
       (if k < 2 then before' = before(k mod 2 := stamp)
        else before' = before \<and> sameInventoryStateStamp (before (k mod 2)) stamp)"
    using assms by (cases "be_stat env k") (auto simp: statPass_def w readFile_def split: if_splits)
qed

lemma statPass_finish:
  assumes "statPass env k c before = PassFinish c' reason"
  shows "t_ns (ik_highWall c) \<le> t_ns (ik_highWall c')" "ik_startedWall c' = ik_startedWall c"
    "(reason = ''inventory_state_unavailable'' \<and> readFile env k = None) \<or>
     (reason = ''inventory_state_changed'' \<and> 2 \<le> k \<and>
       (\<exists>stamp. readFile env k = Some stamp \<and> \<not> sameInventoryStateStamp (before (k mod 2)) stamp))"
proof -
  obtain w where w: "clockCheck env k c = (c', Inr w)"
    using assms by (auto simp: statPass_def split: prod.splits sum.splits if_splits)
  show "t_ns (ik_highWall c) \<le> t_ns (ik_highWall c')" "ik_startedWall c' = ik_startedWall c"
    using clockCheck_ok [OF w] by simp_all
  show "(reason = ''inventory_state_unavailable'' \<and> readFile env k = None) \<or>
     (reason = ''inventory_state_changed'' \<and> 2 \<le> k \<and>
       (\<exists>stamp. readFile env k = Some stamp \<and> \<not> sameInventoryStateStamp (before (k mod 2)) stamp))"
    using assms by (cases "be_stat env k") (auto simp: statPass_def w readFile_def split: if_splits)
qed

lemma readFile_db: "k mod 2 = 0 \<Longrightarrow> readFile env k = Some stamp \<Longrightarrow> \<exists>st. stamp = Some st"
  by (auto simp: readFile_def split: sum.splits if_splits)

lemma readFile_size: "readFile env k = Some (Some st) \<Longrightarrow> 0 \<le> st_Size st \<and> (\<exists>q. be_stat env k = Inr q \<and> q = st)"
  by (auto simp: readFile_def validInventoryStateFile_def split: sum.splits if_splits)

section \<open>The sizes\<close>

text \<open>The reference: the sizes are known when both rounds read the same files.\<close>

definition stampSize :: "inventoryStateStamp \<Rightarrow> int" where
  "stampSize stamp = (case stamp of None \<Rightarrow> 0 | Some st \<Rightarrow> st_Size st)"

definition stableSizes :: "sample_env \<Rightarrow> (int \<times> int) option" where
  "stableSizes env =
     (case (readFile env 0, readFile env 1, readFile env 2, readFile env 3) of
        (Some d, Some w, Some d', Some w') \<Rightarrow>
          if sameInventoryStateStamp d d' \<and> sameInventoryStateStamp w w' then Some (stampSize d, stampSize w) else None
      | _ \<Rightarrow> None)"

definition statSizes64 :: "sample_env \<Rightarrow> bool" where
  "statSizes64 env \<longleftrightarrow> (\<forall>k st. be_stat env k = Inr st \<longrightarrow> i64 (st_Size st))"

lemma stampSize_ok: "statSizes64 env \<Longrightarrow> readFile env k = Some stamp \<Longrightarrow> 0 \<le> stampSize stamp \<and> i64 (stampSize stamp)"
  using readFile_size [of env k] by (cases stamp) (auto simp: stampSize_def statSizes64_def i64_def)

lemma stableSizes_ok: "statSizes64 env \<Longrightarrow> stableSizes env = Some (db, wal) \<Longrightarrow> 0 \<le> db \<and> 0 \<le> wal \<and> i64 db \<and> i64 wal"
  using stampSize_ok [of env] by (auto simp: stableSizes_def split: option.splits if_splits)

text \<open>A report of the passes is that of an early finish or of the sizes; \<open>okBefore\<close> says which.\<close>

definition finishedBy ::
  "inventoryStateClock \<Rightarrow> InventoryStateBudget \<Rightarrow> InventoryStateBudget \<Rightarrow> bool" where
  "finishedBy c rep r \<longleftrightarrow> (\<exists>w. r = rep\<lparr>sb_SampleFinishedAt := w\<rparr> \<and> t_ns (ik_highWall c) \<le> t_ns w \<and>
     t_ns w < t_ns (ik_startedWall c) + inventoryStateSampleTimeout)"

lemma finishedBy_mono:
  "finishedBy c' rep r \<Longrightarrow> t_ns (ik_highWall c) \<le> t_ns (ik_highWall c') \<Longrightarrow> ik_startedWall c' = ik_startedWall c \<Longrightarrow>
   finishedBy c rep r"
  by (auto simp: finishedBy_def)

lemma finishedBy_report: "finishReport env k c rep = Inr r \<Longrightarrow> finishedBy c rep r"
  using finishReport_ok [of env k c rep r] by (auto simp: finishedBy_def)

lemma statPasses_cases:
  assumes "statPasses env limit rep (k # ks) c before = Inr r"
  obtains (early) reason where "finishedBy c (rep\<lparr>sb_Reason := reason\<rparr>) r"
      "(reason = ''inventory_state_unavailable'' \<and> readFile env k = None) \<or>
       (reason = ''inventory_state_changed'' \<and> 2 \<le> k \<and>
         (\<exists>stamp. readFile env k = Some stamp \<and> \<not> sameInventoryStateStamp (before (k mod 2)) stamp))"
  | (go) c' before' stamp where "statPasses env limit rep ks c' before' = Inr r" "readFile env k = Some stamp"
      "t_ns (ik_highWall c) \<le> t_ns (ik_highWall c')" "ik_startedWall c' = ik_startedWall c"
      "if k < 2 then before' = before(k mod 2 := stamp)
       else before' = before \<and> sameInventoryStateStamp (before (k mod 2)) stamp"
proof (cases "statPass env k c before")
  case (PassFinish c' reason)
  then have "finishedBy c' (rep\<lparr>sb_Reason := reason\<rparr>) r" using assms by (auto intro: finishedBy_report)
  then have "finishedBy c (rep\<lparr>sb_Reason := reason\<rparr>) r"
    using statPass_finish(1,2) [OF PassFinish] by (rule finishedBy_mono)
  then show ?thesis using statPass_finish(3) [OF PassFinish] by (rule early)
next
  case (PassNext c' before')
  moreover have "statPasses env limit rep ks c' before' = Inr r" using assms PassNext by simp
  moreover obtain stamp where "readFile env k = Some stamp"
    "if k < 2 then before' = before(k mod 2 := stamp)
     else before' = before \<and> sameInventoryStateStamp (before (k mod 2)) stamp"
    using statPass_next(3) [OF PassNext] by metis
  ultimately show ?thesis using statPass_next(1,2) [OF PassNext] go by metis
qed (use assms in simp)

text \<open>The four passes end in the report of the sizes exactly when the reference knows them.\<close>

definition earlyReport :: "InventoryStateBudget \<Rightarrow> InventoryStateBudget \<Rightarrow> bool" where
  "earlyReport rep rep' \<longleftrightarrow> rep' = rep\<lparr>sb_Reason := ''inventory_state_unavailable''\<rparr> \<or>
     rep' = rep\<lparr>sb_Reason := ''inventory_state_changed''\<rparr>"

lemma statPasses_sizes:
  assumes "statPasses env limit rep [0, 1, 2, 3] c (\<lambda>_. None) = Inr r"
  shows "\<exists>rep'. finishedBy c rep' r \<and>
     (case stableSizes env of Some (db, wal) \<Rightarrow> rep' = sizedReport limit db wal rep | None \<Rightarrow> earlyReport rep rep')"
proof (cases rule: statPasses_cases [OF assms])
  case (1 reason)
  then show ?thesis by (auto simp: earlyReport_def stableSizes_def)
next
  case a: (2 c1 b1 d)
  show ?thesis
  proof (cases rule: statPasses_cases [OF a(1)])
    case (1 reason)
    then have "finishedBy c (rep\<lparr>sb_Reason := reason\<rparr>) r" using a finishedBy_mono by metis
    then show ?thesis using 1 a by (auto simp: earlyReport_def stableSizes_def)
  next
    case b: (2 c2 b2 w)
    show ?thesis
    proof (cases rule: statPasses_cases [OF b(1)])
      case (1 reason)
      then have "finishedBy c (rep\<lparr>sb_Reason := reason\<rparr>) r" using a b finishedBy_mono by metis
      then show ?thesis using 1 a b by (auto simp: earlyReport_def stableSizes_def split: option.splits)
    next
      case d: (2 c3 b3 d')
      show ?thesis
      proof (cases rule: statPasses_cases [OF d(1)])
        case (1 reason)
        then have "finishedBy c (rep\<lparr>sb_Reason := reason\<rparr>) r" using a b d finishedBy_mono by metis
        then show ?thesis using 1 a b d by (auto simp: earlyReport_def stableSizes_def split: option.splits)
      next
        case e: (2 c4 b4 w')
        have "finishReport env 4 c4 (sizedReport limit (stampSize d) (stampSize w) rep) = Inr r"
          using a b d e by (auto simp: stampSize_def)
        then have "finishedBy c (sizedReport limit (stampSize d) (stampSize w) rep) r"
          using a b d e finishedBy_report finishedBy_mono by metis
        then show ?thesis using a b d e by (auto simp: stableSizes_def)
      qed
    qed
  qed
qed


section \<open>Reports\<close>

definition startClock :: "sample_env \<Rightarrow> inventoryStateClock" where
  "startClock env = \<lparr>ik_startedWall = toUTC (fst (be_start env)), ik_startedElapsed = snd (be_start env),
     ik_highWall = toUTC (fst (be_start env)), ik_highElapsed = snd (be_start env), ik_refusal = None\<rparr>"

lemma atPath_report:
  assumes "inventoryStateBudgetAtPath env n path limit = Inr r"
  shows "\<exists>rep'. finishedBy (startClock env) rep' r \<and>
     (case (path, stableSizes env) of
        (_ # _, Some (db, wal)) \<Rightarrow> rep' = sizedReport limit db wal (newReport limit (toUTC (fst (be_start env))))
      | _ \<Rightarrow> earlyReport (newReport limit (toUTC (fst (be_start env)))) rep')"
proof (cases path)
  case Nil
  then have "finishReport env 0 (startClock env) (newReport limit (toUTC (fst (be_start env)))) = Inr r"
    using assms by (auto simp: inventoryStateBudgetAtPath_def startClock_def Let_def split: if_splits option.splits)
  then show ?thesis using Nil finishedBy_report by (fastforce simp: earlyReport_def newReport_def)
next
  case (Cons a p)
  then have "statPasses env limit (newReport limit (toUTC (fst (be_start env)))) [0, 1, 2, 3] (startClock env) (\<lambda>_. None) = Inr r"
    using assms by (auto simp: inventoryStateBudgetAtPath_def startClock_def Let_def split: if_splits option.splits)
  then show ?thesis using Cons statPasses_sizes by (fastforce split: option.splits)
qed

lemma sizedReport_fits:
  assumes "0 \<le> wal" "i64 db" "i64 wal" "db + wal \<le> maxInt64" "0 \<le> db"
  shows "sizedReport limit db wal rep = rep\<lparr>sb_DatabaseBytes := Some db, sb_WALBytes := Some wal, sb_Available := True,
     sb_Status := (if limit \<le> db + wal then ''limit_reached'' else ''below_limit''),
     sb_Reason := (if limit \<le> db + wal then ''inventory_state_limit'' else []), sb_TotalBytes := Some (db + wal)\<rparr>"
proof -
  have "i64 (db + wal)" using assms by (simp add: i64_def)
  then show ?thesis using assms by (simp add: sizedReport_def Let_def add64_id)
qed

lemma sizedReport_overflow:
  "0 \<le> wal \<Longrightarrow> i64 wal \<Longrightarrow> maxInt64 < db + wal \<Longrightarrow>
   sizedReport limit db wal rep = rep\<lparr>sb_DatabaseBytes := Some db, sb_WALBytes := Some wal, sb_Reason := ''inventory_state_overflow''\<rparr>"
  by (simp add: sizedReport_def Let_def)

lemma sizedReport_frame [simp]:
  "sb_Contract (sizedReport limit db wal rep) = sb_Contract rep" "sb_Scope (sizedReport limit db wal rep) = sb_Scope rep"
  "sb_Limit (sizedReport limit db wal rep) = sb_Limit rep"
  "sb_SampleStartedAt (sizedReport limit db wal rep) = sb_SampleStartedAt rep"
  "sb_SequentialObservations (sizedReport limit db wal rep) = sb_SequentialObservations rep"
  "sb_HardLimitEnforced (sizedReport limit db wal rep) = sb_HardLimitEnforced rep"
  "sb_PhysicalAllocationVerified (sizedReport limit db wal rep) = sb_PhysicalAllocationVerified rep"
  "sb_NamespaceAuthenticated (sizedReport limit db wal rep) = sb_NamespaceAuthenticated rep"
  "sb_OtherStoresIncluded (sizedReport limit db wal rep) = sb_OtherStoresIncluded rep"
  by (simp_all add: sizedReport_def Let_def)

text \<open>A report with the header of the sampler and consistent sizes passes the worker's check.\<close>

lemma validStateHeader_new:
  assumes "finishedBy (startClock env) rep' r" "rep' = rep\<lparr>sb_Reason := x\<rparr> \<or> rep' = sizedReport limit db wal rep"
    "rep = newReport limit (toUTC (fst (be_start env)))" "\<not> isZero (fst (be_start env))"
    "t_ns started \<le> t_ns (fst (be_start env))" "t_ns (sb_SampleFinishedAt r) \<le> t_ns finished"
  shows "validStateHeader r limit started finished"
  using assms by (auto simp: validStateHeader_def finishedBy_def startClock_def newReport_def
      tBefore_def tAfter_def isZero_def)

lemma report_accepted:
  assumes "inventoryStateBudgetAtPath env n path limit = Inr r" "statSizes64 env" "\<not> isZero (fst (be_start env))"
    "t_ns started \<le> t_ns (fst (be_start env))" "t_ns (sb_SampleFinishedAt r) \<le> t_ns finished"
  shows "validInventoryStateObservation r limit started finished"
proof -
  let ?rep = "newReport limit (toUTC (fst (be_start env)))"
  obtain rep' where f: "finishedBy (startClock env) rep' r"
    and cs: "earlyReport ?rep rep' \<or> (\<exists>db wal. stableSizes env = Some (db, wal) \<and> rep' = sizedReport limit db wal ?rep)"
    using atPath_report [OF assms(1)] by (cases path) (auto split: option.splits)
  obtain w where r: "r = rep'\<lparr>sb_SampleFinishedAt := w\<rparr>" using f by (auto simp: finishedBy_def)
  from cs show ?thesis
  proof (elim disjE exE conjE)
    assume early: "earlyReport ?rep rep'"
    then have "validStateHeader r limit started finished"
      using validStateHeader_new [OF f _ refl assms(3-5)] by (auto simp: earlyReport_def)
    then show ?thesis using early r
      by (auto simp: earlyReport_def validInventoryStateObservation_def validUnavailable_def newReport_def)
  next
    fix db wal assume sz: "stableSizes env = Some (db, wal)" "rep' = sizedReport limit db wal ?rep"
    note ok = stableSizes_ok [OF assms(2) sz(1)]
    have "validStateHeader r limit started finished"
      using validStateHeader_new [OF f _ refl assms(3-5)] sz(2) by blast
    moreover have "if \<not> sb_Available r then validUnavailable r else validAvailable r limit"
    proof (cases "db + wal \<le> maxInt64")
      case True
      then have "i64 (db + wal)" using ok by (simp add: i64_def)
      then show ?thesis using ok True sz(2) r
        by (simp add: sizedReport_fits validAvailable_def newReport_def add64_id)
    next
      case False
      then show ?thesis using ok sz(2) r by (simp add: sizedReport_overflow validUnavailable_def newReport_def)
    qed
    ultimately show ?thesis by (simp add: validInventoryStateObservation_def)
  qed
qed

text \<open>With calm clocks and contexts an answer is returned.\<close>

definition calmSample :: "sample_env \<Rightarrow> bool" where
  "calmSample env \<longleftrightarrow> be_parent env = None \<and> be_final env = None \<and>
     (\<forall>k. be_before env k = None \<and> be_after env k = None) \<and>
     (\<forall>k. t_ns (fst (be_start env)) \<le> t_ns (fst (be_clock env k)) \<and> t_ns (snd (be_start env)) \<le> t_ns (snd (be_clock env k)) \<and>
        t_ns (fst (be_clock env k)) < t_ns (fst (be_start env)) + inventoryStateSampleTimeout \<and>
        t_ns (snd (be_clock env k)) < t_ns (snd (be_start env)) + inventoryStateSampleTimeout) \<and>
     (\<forall>j k. j \<le> k \<longrightarrow> t_ns (fst (be_clock env j)) \<le> t_ns (fst (be_clock env k)) \<and>
        t_ns (snd (be_clock env j)) \<le> t_ns (snd (be_clock env k)))"

definition calmClock :: "sample_env \<Rightarrow> nat \<Rightarrow> inventoryStateClock \<Rightarrow> bool" where
  "calmClock env k c \<longleftrightarrow> ik_refusal c = None \<and> t_ns (ik_startedWall c) = t_ns (fst (be_start env)) \<and>
     t_ns (ik_startedElapsed c) = t_ns (snd (be_start env)) \<and> t_ns (ik_highWall c) \<le> t_ns (fst (be_clock env k)) \<and>
     t_ns (ik_highElapsed c) \<le> t_ns (snd (be_clock env k))"

lemma calm_check:
  assumes "calmSample env" "calmClock env k c"
  shows "\<exists>c' w. clockCheck env k c = (c', Inr w) \<and> calmClock env (k + 1) c'"
  using assms by (auto simp: clockCheck_def clockRefusal_def Let_def tBefore_def calmClock_def calmSample_def)

lemma calm_finish: "calmSample env \<Longrightarrow> calmClock env k c \<Longrightarrow> \<exists>r. finishReport env k c rep = Inr r"
  using calm_check [of env k c] by (auto simp: finishReport_def calmSample_def)

lemma calm_passes:
  assumes "calmSample env" "calmClock env k c" "ks = [k..<4]" "k \<le> 4"
  shows "\<exists>r. statPasses env limit rep ks c before = Inr r"
  using assms(2-4)
proof (induction ks arbitrary: k c before)
  case Nil
  then have "k = 4" by (metis le_antisym not_le_imp_less upt_conv_Cons list.distinct(1))
  then show ?case using calm_finish [OF assms(1) Nil(1)] by simp
next
  case (Cons j ks)
  then have j: "j = k" "ks = [k + 1..<4]" "k + 1 \<le> 4" by (auto simp: upt_rec split: if_splits)
  obtain c' w where c': "clockCheck env k c = (c', Inr w)" "calmClock env (k + 1) c'"
    using calm_check [OF assms(1) Cons.prems(1)] by metis
  have "(\<exists>reason. statPass env k c before = PassFinish c' reason) \<or> (\<exists>b. statPass env k c before = PassNext c' b)"
    by (auto simp: statPass_def c'(1) split: sum.splits)
  then show ?case
  proof (elim disjE exE)
    fix reason assume "statPass env k c before = PassFinish c' reason"
    then show ?thesis using j calm_finish [OF assms(1) c'(2)] by simp
  next
    fix b assume "statPass env k c before = PassNext c' b"
    then show ?thesis using j Cons.IH [OF c'(2) j(2,3)] by simp
  qed
qed

lemma calm_answers:
  assumes "calmSample env" "MinInventoryStateBytes \<le> limit" "limit \<le> MaxInventoryStateBytes"
  shows "\<exists>r. inventoryStateBudgetAtPath env False path limit = Inr r"
proof -
  have c: "calmClock env 0 (startClock env)" using assms(1) by (simp add: calmClock_def calmSample_def startClock_def)
  have four: "[0, 1, 2, 3] = [0..<4]" by (simp add: upt_rec numeral_eq_Suc)
  show ?thesis
    using assms calm_finish [OF assms(1) c] calm_passes [OF assms(1) c four le0]
    by (auto simp: inventoryStateBudgetAtPath_def startClock_def Let_def calmSample_def)
qed

end
