(* ===== verification/State_Example.thy ===== *)
theory State_Example
  imports State_Run_Laws State_Budget_Laws
begin

text \<open>
  Two runs of the sample coordinator on concrete clocks: a sample that returns below the limit and is
  permitted, and one whose observer panics, with the launch of the next one five minutes later.
\<close>

definition wxAt :: "int \<Rightarrow> gotime" where "wxAt n = \<lparr>t_ns = n, t_utc = True\<rparr>"

definition wxClk :: "int \<Rightarrow> gotime \<times> gotime" where "wxClk n = (wxAt n, wxAt n)"

definition wxStat :: file_stat where
  "wxStat = \<lparr>st_Dev = 1, st_Ino = 2, st_Mode = 0x8180, st_Uid = 7, st_Gid = 7, st_Nlink = 1, st_Size = 1000,
     st_Mtim = (5, 0), st_Ctim = (5, 0)\<rparr>"

text \<open>A database of a thousand bytes and no log.\<close>

definition wxEnv :: sample_env where
  "wxEnv = \<lparr>be_parent = None, be_start = wxClk 20, be_before = (\<lambda>_. None), be_clock = (\<lambda>_. wxClk 30), be_after = (\<lambda>_. None),
     be_final = None, be_stat = (\<lambda>k. if k mod 2 = 0 then Inr wxStat else Inl ENOENT), be_euid = 7\<rparr>"

definition wxReport :: InventoryStateBudget where
  "wxReport = (case inventoryStateBudgetAtPath wxEnv False ''/s'' 2097152 of Inr r \<Rightarrow> r | Inl _ \<Rightarrow> newReport 0 zeroTime)"

lemma wxReport_made: "inventoryStateBudgetAtPath wxEnv False ''/s'' 2097152 = Inr wxReport"
proof -
  have "case inventoryStateBudgetAtPath wxEnv False ''/s'' 2097152 of Inr r \<Rightarrow> True | Inl _ \<Rightarrow> False" by code_simp
  then show ?thesis by (auto simp: wxReport_def split: sum.splits)
qed

lemma wxSizes: "statSizes64 wxEnv"
  by (simp add: statSizes64_def wxEnv_def wxStat_def i64_def)

definition wxScope :: inventoryStateRunScope where
  "wxScope = \<lparr>rs_sampler = \<lparr>sm_path = ''/s'', sm_identity = Some 1\<rparr>, rs_instance = ''w'', rs_limit = 2097152,
     rs_fair = Some 0, rs_nextIntent = 0, rs_current = None\<rparr>"

definition wxRequest :: "int \<Rightarrow> inventoryStateRequest" where
  "wxRequest g = \<lparr>rq_scope = 0, rq_intent = Some (0, g), rq_phase = beforeDispatch, rq_receipt = None\<rparr>"

section \<open>A permitted sample\<close>

definition wx1 :: inventoryStateCoordinator where "wx1 = addScope newInventoryStateCoordinator 0 wxScope"
definition wx2 :: inventoryStateCoordinator where "wx2 = snd (newIntent wx1 0)"
definition wx3 :: inventoryStateCoordinator where "wx3 = snd (startCapture wx2 None (wxRequest 1) (wxClk 10))"
definition wx4 :: inventoryStateCoordinator where "wx4 = startRefuse wx3 (the (co_call wx3)) (wxClk 10)"
definition wxStart :: "inventoryStateAsyncDecision \<times> inventoryStateCoordinator" where
  "wxStart = startDecide wx4 (the (co_call wx4)) (wxAt 10) (wxAt 2000000010)"
definition wx5 :: inventoryStateCoordinator where "wx5 = snd wxStart"
definition wx6 :: inventoryStateCoordinator where "wx6 = sampleEntry wx5 (wxClk 15) (wxClk 15)"
definition wx7 :: inventoryStateCoordinator where "wx7 = sampleReturn wx6 (wxClk 40) (wxClk 40) (Answered wxReport None)"
definition wx8 :: inventoryStateCoordinator where "wx8 = samplePublish wx7"
definition wxTake :: "(inventoryStateCompletion \<times> bool) \<times> inventoryStateCoordinator" where
  "wxTake = takeCompletion wx8 False (None, None) (wxRequest 1) (Some 1) (wxClk 50) (wxClk 50) (None, None)"
definition wx9 :: inventoryStateCoordinator where "wx9 = snd wxTake"

definition wxTicket :: inventoryStateTicket where "wxTicket = the (ad_Ticket (fst wxStart))"

lemma wx_steps:
  "state_step newInventoryStateCoordinator Silent wx1" "state_step wx1 Silent wx2" "state_step wx2 Silent wx3"
  "state_step wx3 Silent wx4" "state_step wx4 (Launch wxTicket) wx5" "state_step wx5 Silent wx6" "state_step wx6 Silent wx7"
  "state_step wx7 Silent wx8"
proof -
  show "state_step newInventoryStateCoordinator Silent wx1"
    unfolding wx1_def by (rule state_step.scope [of "rs_sampler wxScope" "rs_instance wxScope" "rs_limit wxScope" "rs_fair wxScope"]) code_simp+
  show "state_step wx1 Silent wx2"
    unfolding wx2_def by (rule state_step.intent [OF _ prod.collapse [symmetric]]) code_simp
  show "state_step wx2 Silent wx3"
    unfolding wx3_def by (rule state_step.started [OF _ prod.collapse [symmetric]]) code_simp
  show "state_step wx3 Silent wx4"
    unfolding wx4_def by (rule state_step.refused) code_simp+
  have "state_step wx4 (if ad_Started (fst wxStart) then Launch wxTicket else Silent) wx5"
    unfolding wx5_def wxTicket_def wxStart_def by (rule state_step.decided [OF _ _ prod.collapse [symmetric]]) code_simp+
  moreover have "ad_Started (fst wxStart)" by code_simp
  ultimately show "state_step wx4 (Launch wxTicket) wx5" by simp
  show "state_step wx5 Silent wx6" unfolding wx6_def by (rule state_step.entered) code_simp
  show "state_step wx6 Silent wx7" unfolding wx7_def by (rule state_step.returned)
  show "state_step wx7 Silent wx8" unfolding wx8_def by (rule state_step.published) code_simp
qed

definition wxEvents :: "state_event list" where
  "wxEvents = [Silent, Silent, Silent, Silent, Launch wxTicket, Silent, Silent]"

lemma wx_run7: "state_run newInventoryStateCoordinator wxEvents wx7"
proof -
  note more = state_run.more [of newInventoryStateCoordinator]
  have "state_run newInventoryStateCoordinator ((((((([] @ [Silent]) @ [Silent]) @ [Silent]) @ [Silent]) @ [Launch wxTicket]) @ [Silent]) @ [Silent]) wx7"
    by (rule more [OF more [OF more [OF more [OF more [OF more [OF more [OF state_run.rest]]]]]]]) (rule wx_steps)+
  then show ?thesis by (simp add: wxEvents_def)
qed

lemma wx_run8: "state_run newInventoryStateCoordinator (wxEvents @ [Silent]) wx8"
  by (rule state_run.more [OF wx_run7]) (rule wx_steps)

lemma wx_take: "\<exists>r. wxTake = ((r, True), wx9)"
proof -
  have "snd (fst wxTake)" by code_simp
  then show ?thesis by (metis prod.collapse wx9_def)
qed

lemma wx_run9: "state_run newInventoryStateCoordinator ((wxEvents @ [Silent]) @ [Permit (0, 1) beforeDispatch]) wx9"
proof (rule state_run.more [OF wx_run8])
  obtain r where r: "takeCompletion wx8 False (None, None) (wxRequest 1) (Some 1) (wxClk 50) (wxClk 50) (None, None) = ((r, True), wx9)"
    using wx_take by (auto simp: wxTake_def)
  have "co_call wx8 = None" by code_simp
  from state_step.taken [OF this r] show "state_step wx8 (Permit (0, 1) beforeDispatch) wx9"
    by (simp add: wxRequest_def)
qed

section \<open>A failed sample\<close>

definition wy7 :: inventoryStateCoordinator where "wy7 = sampleReturn wx6 (wxClk 40) (wxClk 40) Panic"
definition wy8 :: inventoryStateCoordinator where "wy8 = samplePublish wy7"
definition wy9 :: inventoryStateCoordinator where "wy9 = snd (newIntent wy8 0)"
definition wy10 :: inventoryStateCoordinator where "wy10 = snd (startCapture wy9 None (wxRequest 2) (wxClk 300000000010))"
definition wy11 :: inventoryStateCoordinator where "wy11 = startRefuse wy10 (the (co_call wy10)) (wxClk 300000000010)"
definition wyStart :: "inventoryStateAsyncDecision \<times> inventoryStateCoordinator" where
  "wyStart = startDecide wy11 (the (co_call wy11)) (wxAt 300000000010) (wxAt 302000000010)"
definition wyTicket :: inventoryStateTicket where "wyTicket = the (ad_Ticket (fst wyStart))"

lemma wy_steps:
  "state_step wx6 Silent wy7" "state_step wy7 Silent wy8" "state_step wy8 Silent wy9" "state_step wy9 Silent wy10"
  "state_step wy10 Silent wy11" "state_step wy11 (Launch wyTicket) (snd wyStart)"
proof -
  show "state_step wx6 Silent wy7" unfolding wy7_def by (rule state_step.returned)
  show "state_step wy7 Silent wy8" unfolding wy8_def by (rule state_step.published) code_simp
  show "state_step wy8 Silent wy9"
    unfolding wy9_def by (rule state_step.intent [OF _ prod.collapse [symmetric]]) code_simp
  show "state_step wy9 Silent wy10"
    unfolding wy10_def by (rule state_step.started [OF _ prod.collapse [symmetric]]) code_simp
  show "state_step wy10 Silent wy11" unfolding wy11_def by (rule state_step.refused) code_simp+
  have "state_step wy11 (if ad_Started (fst wyStart) then Launch wyTicket else Silent) (snd wyStart)"
    unfolding wyTicket_def wyStart_def by (rule state_step.decided [OF _ _ prod.collapse [symmetric]]) code_simp+
  moreover have "ad_Started (fst wyStart)" by code_simp
  ultimately show "state_step wy11 (Launch wyTicket) (snd wyStart)" by simp
qed

definition wyEvents :: "state_event list" where
  "wyEvents = [Silent, Silent, Silent, Silent, Launch wxTicket, Silent, Silent, Silent, Silent, Silent, Silent]"

lemma wy_run: "state_run newInventoryStateCoordinator wyEvents wy11"
proof -
  note more = state_run.more [of newInventoryStateCoordinator]
  have "state_run newInventoryStateCoordinator ((((((([] @ [Silent]) @ [Silent]) @ [Silent]) @ [Silent]) @ [Launch wxTicket]) @ [Silent]) @ [Silent]) wy7"
    by (rule more [OF more [OF more [OF more [OF more [OF more [OF more [OF state_run.rest]]]]]]]) (rule wx_steps wy_steps)+
  then have "state_run newInventoryStateCoordinator (((((((((([] @ [Silent]) @ [Silent]) @ [Silent]) @ [Silent]) @ [Launch wxTicket]) @ [Silent]) @ [Silent]) @ [Silent])
      @ [Silent]) @ [Silent]) wy10"
    by (rule more [OF more [OF more]]) (rule wy_steps)+
  then show ?thesis using more [OF _ wy_steps(5)] by (fastforce simp: wyEvents_def)
qed

end
