(* ===== verification/State_Turns.thy ===== *)
theory State_Turns
  imports State_Coordinator Fair_Plan Worker_Waits
begin

text \<open>
  The worker loop's side of the sample: the continuation of a turn that waits for it
  (\<^verbatim>\<open>src/internal/worker/inventory_state_intent.go\<close>), and what the cached policy and its snapshot make
  of the coordinator's decisions (the asynchronous part of \<^verbatim>\<open>state_budget_policy.go\<close>).
\<close>

section \<open>Turns\<close>

text \<open>A turn holds its ticket as it was returned; \<open>tn_cancel\<close> is whether it still owns the function that
  cancels its context.\<close>

record inventoryStateTurn =
  tn_scope :: nat
  tn_intent :: intent_key
  tn_request :: inventoryStateRequest
  tn_ticket :: "inventoryStateTicket option"
  tn_window :: cpuWindow
  tn_windowWall :: gotime
  tn_prefixOwned :: bool
  tn_cancel :: bool
  tn_receipt :: "inventoryStateReceipt option"
  tn_reservedWall :: gotime
  tn_reservedElapsed :: gotime
  tn_plan :: "fairInventoryPlan option"
  tn_sourceScreened :: bool
  tn_sourceRevoked :: bool

definition preRequest :: "intent_key \<Rightarrow> inventoryStateRequest" where
  "preRequest k = \<lparr>rq_scope = fst k, rq_intent = Some k, rq_phase = beforeDispatch, rq_receipt = None\<rparr>"

definition postRequest :: "intent_key \<Rightarrow> inventoryStateReceipt \<Rightarrow> inventoryStateRequest" where
  "postRequest k r = \<lparr>rq_scope = fst k, rq_intent = Some k, rq_phase = afterReceipt, rq_receipt = Some r\<rparr>"

definition newInventoryStateTurn ::
  "inventoryStateCoordinator \<Rightarrow> nat option \<Rightarrow> cpuWindow \<Rightarrow> gotime \<Rightarrow> (err + inventoryStateTurn) \<times> inventoryStateCoordinator" where
  "newInventoryStateTurn c sid window wall =
     (case sid of
        None \<Rightarrow> (Inl errInventoryStateAsyncInput, c)
      | Some sid \<Rightarrow>
          (case newIntent c sid of
             (Inl e, c') \<Rightarrow> (Inl e, c')
           | (Inr k, c') \<Rightarrow>
               (Inr \<lparr>tn_scope = sid, tn_intent = k, tn_request = preRequest k, tn_ticket = None, tn_window = window,
                     tn_windowWall = wall, tn_prefixOwned = True, tn_cancel = False, tn_receipt = None,
                     tn_reservedWall = zeroTime, tn_reservedElapsed = zeroTime, tn_plan = None,
                     tn_sourceScreened = False, tn_sourceRevoked = False\<rparr>, c')))"

text \<open>What abandoning a turn does outside the coordinator: whether its context is cancelled, and the CPU
  window that is finished without a marker.\<close>

definition abandonTurn ::
  "inventoryStateCoordinator \<Rightarrow> inventoryStateTurn \<Rightarrow>
   (bool \<times> cpuWindow option) \<times> inventoryStateTurn \<times> inventoryStateCoordinator" where
  "abandonTurn c p =
     (let c' = snd (abandonIntent c (tn_scope p) (Some (tn_intent p))) in
      ((tn_cancel p, if tn_prefixOwned p then Some (tn_window p) else None),
       p\<lparr>tn_cancel := False, tn_prefixOwned := False\<rparr>, c'))"

text \<open>The admitted unit takes over the context; the result is whether there was a cancel function.\<close>

definition transferTurn ::
  "inventoryStateCoordinator \<Rightarrow> inventoryStateTurn \<Rightarrow> bool \<times> inventoryStateTurn \<times> inventoryStateCoordinator" where
  "transferTurn c p =
     (tn_cancel p, p\<lparr>tn_cancel := False, tn_prefixOwned := False\<rparr>,
      snd (abandonIntent c (tn_scope p) (Some (tn_intent p))))"

text \<open>The second sample of a turn, after its reservation: the receipt is bound and the sample asked for
  under the turn's context, whose deadline and cause are arguments. The flag tells whether the
  context is cancelled on the way out.\<close>

definition startPost ::
  "inventoryStateCoordinator \<Rightarrow> inventoryStateTurn \<Rightarrow> gotime option \<Rightarrow> err option \<Rightarrow> DispatchBudget \<Rightarrow> gotime \<Rightarrow> gotime \<Rightarrow>
   fairInventoryPlan \<Rightarrow> bool \<Rightarrow> gotime \<times> gotime \<Rightarrow> gotime \<times> gotime \<Rightarrow> gotime \<Rightarrow> gotime \<Rightarrow>
   ((err + inventoryStateAsyncDecision) \<times> bool) \<times> inventoryStateTurn \<times> inventoryStateCoordinator" where
  "startPost c p ctxDeadline cause budget wall elapsed plan screened clk now1 now2 deadline =
     (case ctxDeadline of
        None \<Rightarrow> ((Inl errInventoryStateAsyncInput, True), p, c)
      | Some limit \<Rightarrow>
          (case bindReceipt c (tn_intent p) budget wall elapsed limit of
             (Inl e, c1) \<Rightarrow> ((Inl e, True), p, c1)
           | (Inr r, c1) \<Rightarrow>
               let request = postRequest (tn_intent p) r;
                   (d, c2) = startEligible c1 False cause request clk now1 now2 deadline
               in ((Inr d, False),
                   p\<lparr>tn_cancel := True, tn_receipt := Some r, tn_reservedWall := wall, tn_reservedElapsed := elapsed,
                     tn_plan := Some plan, tn_sourceScreened := screened, tn_request := request,
                     tn_ticket := ad_Ticket d\<rparr>, c2)))"

section \<open>Scheduling\<close>

definition inventoryStateScheduling ::
  "inventoryStateCoordinator \<Rightarrow> nat option \<Rightarrow> gotime \<Rightarrow> gotime \<Rightarrow> int \<times> bool" where
  "inventoryStateScheduling c sid wall elapsed =
     (case sid of
        None \<Rightarrow> (0, False)
      | Some _ \<Rightarrow>
          (max 0 (max (max (tSub (cp_wall (co_retry c)) wall) (tSub (cp_elapsed (co_retry c)) elapsed))
                      (max (tSub (cp_wall (co_high c)) wall) (tSub (cp_elapsed (co_high c)) elapsed))),
           case co_ticket c of None \<Rightarrow> False | Some t \<Rightarrow> sampleCompleted t = None))"

text \<open>The ticket of a turn as it is now: a ticket that is no longer in the slot has completed.\<close>

definition slotTicket :: "inventoryStateCoordinator \<Rightarrow> inventoryStateTicket \<Rightarrow> inventoryStateTicket option" where
  "slotTicket c t =
     (case co_ticket c of
        None \<Rightarrow> None
      | Some u \<Rightarrow> if it_ID u = it_ID t \<and> sampleCompleted u = None then Some u else None)"

definition expiryWait ::
  "inventoryStateCoordinator \<Rightarrow> inventoryStateTurn option \<Rightarrow> gotime \<Rightarrow> gotime \<Rightarrow> gotime \<times> gotime \<Rightarrow> int \<times> bool" where
  "expiryWait c turn wall elapsed now =
     (case turn of
        None \<Rightarrow> (0, False)
      | Some p \<Rightarrow> (case tn_ticket p of
          None \<Rightarrow> (0, False)
        | Some t0 \<Rightarrow> (case slotTicket c t0 of
            None \<Rightarrow> (0, True)
          | Some t \<Rightarrow>
              if it_refusal t \<noteq> [] then (0, False)
              else
                let r1 = min (tSub (it_deadline t) (fst now))
                           (min (tSub (tAdd (cp_wall (it_launch t)) inventoryStateSampleWindow) wall)
                                (tSub (tAdd (cp_elapsed (it_launch t)) inventoryStateSampleWindow) elapsed));
                    r2 = (case tn_receipt p of
                            None \<Rightarrow> r1
                          | Some q \<Rightarrow> min r1 (min (tSub (ir_deadline q) (snd now))
                              (min (tSub (tAdd (tn_reservedWall p) claimWindow) wall)
                                   (tSub (tAdd (tn_reservedElapsed p) claimWindow) elapsed))))
                in (max 0 r2, True))))"

definition inventoryStateMaintenanceResult :: "inventoryStateCompletion \<Rightarrow> bool" where
  "inventoryStateMaintenanceResult r \<longleftrightarrow>
     ic_Reason r \<in> set [''inventory_state_limit'', ''inventory_state_unavailable'', ''inventory_state_changed'',
       ''inventory_state_overflow'', ''inventory_state_invalid'']"

definition inventoryStateClocksCurrent :: "inventoryStateCoordinator \<Rightarrow> nat option \<Rightarrow> gotime \<Rightarrow> gotime \<Rightarrow> bool" where
  "inventoryStateClocksCurrent c sid wall elapsed \<longleftrightarrow>
     sid \<noteq> None \<and> validInventoryStateTime wall \<and> validInventoryStateTime elapsed \<and>
     \<not> tBefore wall (cp_wall (co_high c)) \<and> \<not> tBefore elapsed (cp_elapsed (co_high c))"

section \<open>The cached policy\<close>

definition asyncDecision :: "sourceInventoryState \<Rightarrow> inventoryStateAsyncDecision \<Rightarrow> sourceInventoryState" where
  "asyncDecision p d =
     (if ad_Started d
      then
        let t = the (ad_Ticket d) in
        p\<lparr>si_phase := rq_phase (it_request t), si_startedWall := cp_wall (it_launch t), si_finishedWall := zeroTime,
          si_status := ''source_deferred'', si_reason := ''inventory_state_pending'', si_backoff := True,
          si_observation := None, si_retryWall := zeroTime\<rparr>
      else if ad_Reason d \<noteq> []
      then
        let p1 = p\<lparr>si_status := ''source_deferred'', si_reason := ad_Reason d, si_backoff := True\<rparr> in
        if ad_SamplingState d = ''foreign_slot'' then p1\<lparr>si_observation := None\<rparr> else p1
      else p)"

definition asyncCompletion :: "sourceInventoryState \<Rightarrow> inventoryStateCompletion \<Rightarrow> bool \<Rightarrow> sourceInventoryState" where
  "asyncCompletion p r allowed =
     p\<lparr>si_phase := ic_Phase r, si_startedWall := ic_LaunchWall r, si_finishedWall := ic_CompletedWall r,
       si_status := (if allowed then ''source_admitted'' else ''source_deferred''),
       si_reason := (if allowed then [] else if ic_Reason r = [] then ''inventory_state_expired'' else ic_Reason r),
       si_backoff := \<not> allowed, si_observation := ic_Observation r,
       si_retryWall := (if ic_Reason r \<noteq> [] then fst (inventoryStateTimeAdd (ic_LaunchWall r) inventoryStateRetryInterval)
                        else zeroTime)\<rparr>"

definition asyncSnapshot :: "sourceInventoryState \<Rightarrow> inventoryStateAsyncDecision \<Rightarrow> InventoryStatePolicySnapshot" where
  "asyncSnapshot p d =
     (let s0 = policySnapshot p;
          s1 = (if si_status p \<noteq> [] then s0\<lparr>ip_LastDecisionStatus := si_status p, ip_LastDecisionReason := si_reason p\<rparr> else s0);
          s2 = s1\<lparr>ip_SamplingState := ad_SamplingState d, ip_CallbackReturned := ad_CallbackReturned d,
                  ip_ProcessSlotOccupied := ad_ProcessSlotOccupied d\<rparr>;
          s3 = (if ad_SamplingState d = ''pending'' \<or> ad_SamplingState d = ''foreign_slot''
                then s2\<lparr>ip_Observation := None\<rparr> else s2);
          s4 = (if ad_SamplingState d = ''foreign_slot'' \<and> si_status p = []
                then s3\<lparr>ip_LastDecisionStatus := ''source_deferred'', ip_LastDecisionReason := ad_Reason d\<rparr> else s3)
      in if \<not> isZero (si_retryWall p)
         then s4\<lparr>ip_RetryStartedAt := Some (si_startedWall p), ip_RetryAfterAt := Some (si_retryWall p)\<rparr>
         else s4\<lparr>ip_RetryStartedAt := None, ip_RetryAfterAt := None\<rparr>)"

end
