(* ===== verification/State_Guarantees.thy ===== *)
theory State_Guarantees
  imports State_Example State_Turns
begin

text \<open>
  What the database size sample guarantees: that the sizes reported are those of two equal readings,
  that a permit to read sources rests on a fresh report below the limit, that each intent is permitted
  once before and once after its reservation, that failed samples are five minutes apart, and that the
  verdict of a returned callback is final.
\<close>

section \<open>Sizes\<close>

text \<open>Property C39. The sizes are those of two equal readings: whatever the clocks and the files answer, a
  report of the sampler is available exactly when both rounds of \<open>lstat\<close> read the same private files
  (or the log was missing both times) and their sizes add up in 64 bits; then its total is their sum
  and its status says whether that is below the limit.\<close>

theorem state_sizes_exact:
  assumes "samplerObserve env False s limit = Inr r" "sm_path s \<noteq> []" "statSizes64 env"
  shows "case stableSizes env of
      None \<Rightarrow> \<not> sb_Available r \<and> sb_TotalBytes r = None
    | Some (db, wal) \<Rightarrow>
        if db + wal \<le> maxInt64
        then sb_Available r \<and> sb_TotalBytes r = Some (db + wal) \<and> (sb_Status r = ''below_limit'' \<longleftrightarrow> db + wal < limit)
        else \<not> sb_Available r \<and> sb_Reason r = ''inventory_state_overflow''"
proof -
  have "inventoryStateBudgetAtPath env False (sm_path s) limit = Inr r"
    using assms(1) by (simp add: samplerObserve_def split: if_splits)
  then obtain rep' where rep': "finishedBy (startClock env) rep' r"
    "case stableSizes env of Some (db, wal) \<Rightarrow> rep' = sizedReport limit db wal (newReport limit (toUTC (fst (be_start env))))
     | None \<Rightarrow> earlyReport (newReport limit (toUTC (fst (be_start env)))) rep'"
    using atPath_report [of env False "sm_path s" limit r] assms(2) by (cases "sm_path s") auto
  obtain w where r: "r = rep'\<lparr>sb_SampleFinishedAt := w\<rparr>" using rep'(1) by (auto simp: finishedBy_def)
  show ?thesis
  proof (cases "stableSizes env")
    case None
    then show ?thesis using rep'(2) r by (auto simp: earlyReport_def newReport_def)
  next
    case (Some x)
    then obtain db wal where x: "stableSizes env = Some (db, wal)" by (cases x) auto
    note ok = stableSizes_ok [OF assms(3) x]
    show ?thesis
    proof (cases "db + wal \<le> maxInt64")
      case True
      then show ?thesis using x rep'(2) r ok by (auto simp: sizedReport_fits)
    next
      case False
      then show ?thesis using x rep'(2) r ok by (simp add: sizedReport_overflow newReport_def)
    qed
  qed
qed

theorem state_sizes_exact_witness: "sb_TotalBytes wxReport = Some 1000 \<and> sb_Status wxReport = ''below_limit''"
proof -
  have s: "stableSizes wxEnv = Some (1000, 0)" by code_simp
  have "samplerObserve wxEnv False (rs_sampler wxScope) 2097152 = Inr wxReport"
    using wxReport_made by (simp add: samplerObserve_def wxScope_def)
  from state_sizes_exact [OF this _ wxSizes] show ?thesis by (simp add: s wxScope_def)
qed

text \<open>The sampler and the worker agree on reports: every report the sampler returns, available
  or not, passes the check the worker makes of it, for a launch not after the sample's start and a
  completion not before its end.\<close>

theorem state_report_accepted:
  assumes "samplerObserve env False s limit = Inr r" "statSizes64 env" "\<not> isZero (fst (be_start env))"
    "t_ns started \<le> t_ns (fst (be_start env))" "t_ns (sb_SampleFinishedAt r) \<le> t_ns finished"
  shows "validInventoryStateObservation r limit started finished"
proof -
  have "inventoryStateBudgetAtPath env False (sm_path s) limit = Inr r"
    using assms(1) by (simp add: samplerObserve_def split: if_splits)
  then show ?thesis using assms(2-5) by (rule report_accepted)
qed

theorem state_report_accepted_witness: "validInventoryStateObservation wxReport 2097152 (wxAt 10) (wxAt 40)"
proof (rule state_report_accepted)
  show "samplerObserve wxEnv False (rs_sampler wxScope) 2097152 = Inr wxReport"
    using wxReport_made by (simp add: samplerObserve_def wxScope_def)
  show "statSizes64 wxEnv" by (rule wxSizes)
  show "\<not> isZero (fst (be_start wxEnv))" "t_ns (wxAt 10) \<le> t_ns (fst (be_start wxEnv))"
    "t_ns (sb_SampleFinishedAt wxReport) \<le> t_ns (wxAt 40)" by code_simp+
qed

section \<open>Permits of a run\<close>

fun permits :: "state_event list \<Rightarrow> (intent_key \<times> string) list" where
  "permits [] = []"
| "permits (Permit k ph # evs) = (k, ph) # permits evs"
| "permits (Silent # evs) = permits evs"
| "permits (Launch t # evs) = permits evs"

lemma permits_append [simp]: "permits (a @ b) = permits a @ permits b"
  by (induction a rule: permits.induct) auto

text \<open>A permit after the reservation comes after one before it, for the same intent.\<close>

definition permitsOrdered :: "(intent_key \<times> string) list \<Rightarrow> bool" where
  "permitsOrdered ps \<longleftrightarrow> (\<forall>j<length ps. snd (ps ! j) = afterReceipt \<longrightarrow> (fst (ps ! j), beforeDispatch) \<in> set (take j ps))"

lemma permitsOrdered_snoc:
  "permitsOrdered (ps @ [x]) \<longleftrightarrow> permitsOrdered ps \<and> (snd x = afterReceipt \<longrightarrow> (fst x, beforeDispatch) \<in> set ps)"
  by (auto simp: permitsOrdered_def nth_append less_Suc_eq)

definition permitsOk :: "(intent_key \<times> string) list \<Rightarrow> inventoryStateCoordinator \<Rightarrow> bool" where
  "permitsOk ps c \<longleftrightarrow> distinct ps \<and> permitsOrdered ps \<and>
     (\<forall>k. (k, beforeDispatch) \<in> set ps \<longleftrightarrow> (\<exists>i. co_intents c k = Some i \<and> in_preUsed i)) \<and>
     (\<forall>k. (k, afterReceipt) \<in> set ps \<longrightarrow> (\<exists>i. co_intents c k = Some i \<and> phaseStarted afterReceipt i) \<and>
        (\<forall>t. co_ticket c = Some t \<and> rq_intent (it_request t) = Some k \<and> rq_phase (it_request t) = afterReceipt \<longrightarrow> it_used t))"

lemma permitsOkD:
  assumes "permitsOk ps c"
  shows "distinct ps" "permitsOrdered ps"
    "(k, beforeDispatch) \<in> set ps \<longleftrightarrow> (\<exists>i. co_intents c k = Some i \<and> in_preUsed i)"
    "(k, afterReceipt) \<in> set ps \<Longrightarrow> \<exists>i. co_intents c k = Some i \<and> phaseStarted afterReceipt i"
    "(k, afterReceipt) \<in> set ps \<Longrightarrow> co_ticket c = Some t \<Longrightarrow> rq_intent (it_request t) = Some k \<Longrightarrow>
       rq_phase (it_request t) = afterReceipt \<Longrightarrow> it_used t"
  using assms unfolding permitsOk_def by blast+

lemma permitsOkI:
  assumes "distinct ps" "permitsOrdered ps"
    "\<And>k. (k, beforeDispatch) \<in> set ps \<longleftrightarrow> (\<exists>i. co_intents c k = Some i \<and> in_preUsed i)"
    "\<And>k. (k, afterReceipt) \<in> set ps \<Longrightarrow> \<exists>i. co_intents c k = Some i \<and> phaseStarted afterReceipt i"
    "\<And>k t. (k, afterReceipt) \<in> set ps \<Longrightarrow> co_ticket c = Some t \<Longrightarrow> rq_intent (it_request t) = Some k \<Longrightarrow>
       rq_phase (it_request t) = afterReceipt \<Longrightarrow> it_used t"
  shows "permitsOk ps c"
  using assms unfolding permitsOk_def by blast

lemma keepsIntentsD:
  assumes "keepsIntents c c'"
  shows "(\<exists>i. co_intents c' k = Some i \<and> in_preUsed i) \<longleftrightarrow> (\<exists>i. co_intents c k = Some i \<and> in_preUsed i)"
    "\<exists>i. co_intents c k = Some i \<and> phaseStarted ph i \<Longrightarrow> \<exists>i. co_intents c' k = Some i \<and> phaseStarted ph i"
  using assms unfolding keepsIntents_def intentsGrow_def by blast+

lemma permitsOk_silent:
  assumes "permitsOk ps c" "keepsSlot c c'" "keepsIntents c c'"
  shows "permitsOk ps c'"
proof (rule permitsOkI)
  fix k t' assume k: "(k, afterReceipt) \<in> set ps" and t': "co_ticket c' = Some t'" "rq_intent (it_request t') = Some k"
    "rq_phase (it_request t') = afterReceipt"
  obtain t where "co_ticket c = Some t" "sameTicket t t'"
    using t'(1) assms(2) by (cases "co_ticket c") (auto simp: keepsSlot_def)
  then show "it_used t'" using permitsOkD(5) [OF assms(1) k, of t] t' by (simp add: sameTicket_def)
qed (use permitsOkD [OF assms(1)] keepsIntentsD [OF assms(3)] in blast)+

lemma permitsOk_launch:
  assumes "permitsOk ps c" "launchMove c t c'"
  shows "permitsOk ps c'"
proof -
  obtain call deadline where call: "launchReady c call" "t = launchedTicket c call deadline" "co_ticket c' = Some t" "keepsIntents c c'"
    using assms(2) by (auto simp: launchMove_def)
  have fresh: "(k, afterReceipt) \<notin> set ps" if "rq_intent (it_request t) = Some k" "rq_phase (it_request t) = afterReceipt" for k
  proof
    assume "(k, afterReceipt) \<in> set ps"
    then obtain i where "co_intents c k = Some i" "in_postStarted i"
      using permitsOkD(4) [OF assms(1)] by (fastforce simp: phaseStarted_def)
    then show False using that call(1,2) by (simp add: launchReady_def launchedTicket_def alreadyStarted_def)
  qed
  show ?thesis
  proof (rule permitsOkI)
    fix k t' assume "(k, afterReceipt) \<in> set ps" "co_ticket c' = Some t'" "rq_intent (it_request t') = Some k"
      "rq_phase (it_request t') = afterReceipt"
    then show "it_used t'" using fresh call(3) by simp
  qed (use permitsOkD [OF assms(1)] keepsIntentsD [OF call(4)] in blast)+
qed

lemma permitsOk_permit:
  assumes "permitsOk ps c" "permitMove c k ph c'" "coordOk c"
  shows "permitsOk (ps @ [(k, ph)]) c'"
proof -
  obtain t i where t: "co_ticket c = Some t" "validRequest c (it_request t)" "rq_intent (it_request t) = Some k"
    "rq_phase (it_request t) = ph" "\<not> it_used t" "co_ticket c' = Some (t\<lparr>it_used := True\<rparr>)" "co_intents c k = Some i"
    "co_intents c' = (if ph = beforeDispatch then (co_intents c)(k \<mapsto> i\<lparr>in_preUsed := True\<rparr>) else co_intents c)"
    using assms(2) unfolding permitMove_def by blast
  obtain k' i' where "rq_intent (it_request t) = Some k'" "co_intents c k' = Some i'" "requestFits k' i' (it_request t)"
    using t(2) unfolding validRequest_iff by blast
  then have fits: "requestFits k i (it_request t)" using t(3,7) by simp
  have started: "phaseStarted ph i" using assms(3) t(1,3,4,7) by (auto simp: coordOk_def slotOk_def ownedBy_def)
  have used: "it_used t'" if "co_ticket c' = Some t'" for t' using that t(6) by auto
  note P = permitsOkD [OF assms(1)]
  show ?thesis
  proof (cases "ph = beforeDispatch")
    case True
    then have pre: "\<not> in_preUsed i" using fits t(4) by (simp add: requestFits_def)
    then have new: "(k, beforeDispatch) \<notin> set ps" using P(3) t(7) by simp
    have c': "co_intents c' = (co_intents c)(k \<mapsto> i\<lparr>in_preUsed := True\<rparr>)" using t(8) True by simp
    show ?thesis
    proof (rule permitsOkI)
      fix j
      show "(j, beforeDispatch) \<in> set (ps @ [(k, ph)]) \<longleftrightarrow> (\<exists>i. co_intents c' j = Some i \<and> in_preUsed i)"
        using P(3) [of j] True c' by (cases "j = k") auto
      assume "(j, afterReceipt) \<in> set (ps @ [(k, ph)])"
      then have "(j, afterReceipt) \<in> set ps" using True by simp
      then show "\<exists>i. co_intents c' j = Some i \<and> phaseStarted afterReceipt i"
        using P(4) [of j] c' t(7) by (cases "j = k") auto
    qed (use P(1,2) new True used permitsOrdered_snoc in auto)
  next
    case False
    then have ph: "ph = afterReceipt" "in_preUsed i" using fits t(4) by (auto simp: requestFits_def split: if_splits)
    have c': "co_intents c' = co_intents c" using t(8) False by simp
    have old: "(k, beforeDispatch) \<in> set ps" using P(3) t(7) ph(2) by blast
    have new: "(k, afterReceipt) \<notin> set ps" using P(5) [OF _ t(1,3)] t(4,5) ph(1) by blast
    show ?thesis
    proof (rule permitsOkI)
      fix j
      show "(j, beforeDispatch) \<in> set (ps @ [(k, ph)]) \<longleftrightarrow> (\<exists>i. co_intents c' j = Some i \<and> in_preUsed i)"
        using P(3) [of j] ph(1) c' by simp
      assume "(j, afterReceipt) \<in> set (ps @ [(k, ph)])"
      then have "(j, afterReceipt) \<in> set ps \<or> j = k" by auto
      then show "\<exists>i. co_intents c' j = Some i \<and> phaseStarted afterReceipt i"
        using P(4) [of j] c' t(7) started ph(1) by auto
    qed (use P(1,2) old new ph(1) used permitsOrdered_snoc in auto)
  qed
qed

lemma permits_run:
  assumes "state_run c0 evs c" "coordOk c0" "permitsOk [] c0"
  shows "permitsOk (permits evs) c \<and> coordOk c"
  using assms
proof (induction rule: state_run.induct)
  case (more c0 evs c' ev c'')
  then have ok: "permitsOk (permits evs) c'" "coordOk c'" by simp_all
  have mv: "eventMove c' ev c''" by (rule state_step_move [OF more.hyps(2) ok(2)])
  have "permitsOk (permits (evs @ [ev])) c''"
  proof (cases ev)
    case Silent
    then show ?thesis using mv ok permitsOk_silent by (simp add: eventMove_def)
  next
    case (Launch t)
    then show ?thesis using mv ok permitsOk_launch by (simp add: eventMove_def)
  next
    case (Permit k ph)
    then show ?thesis using mv ok permitsOk_permit by (simp add: eventMove_def)
  qed
  then show ?case using state_step_ok [OF more.hyps(2) ok(2)] by simp
qed simp

lemma permitsOk_new: "permitsOk [] newInventoryStateCoordinator"
  by (simp add: permitsOk_def permitsOrdered_def newInventoryStateCoordinator_def)

text \<open>Property C19. Each intent is permitted at most once before its reservation and at most once after
  it, in this order: in every run of the coordinator, with any interleaving of the callback, of
  cancellations and of other intents, no permit repeats, and a permit after the reservation comes
  after the permit before it.\<close>

theorem permit_once_in_order:
  assumes "state_run newInventoryStateCoordinator evs c"
  shows "distinct (permits evs) \<and> (\<forall>j<length (permits evs). snd (permits evs ! j) = afterReceipt \<longrightarrow>
     (fst (permits evs ! j), beforeDispatch) \<in> set (take j (permits evs)))"
  using permits_run [OF assms coordOk_new permitsOk_new] by (simp add: permitsOk_def permitsOrdered_def)

theorem permit_once_in_order_witness:
  "distinct (permits ((wxEvents @ [Silent]) @ [Permit (0, 1) beforeDispatch]))"
  using permit_once_in_order [OF wx_run9] by blast

section \<open>What a permit rests on\<close>

lemma tSub_less: "d \<le> maxInt64 \<Longrightarrow> minInt64 < d \<Longrightarrow> tSub a b < d \<longleftrightarrow> t_ns a - t_ns b < d"
  by (auto simp: tSub_def sat64_def)

lemma windowReason_clear:
  assumes "inventoryStateWindowReason start p d = []" "d \<le> maxInt64" "0 < d"
  shows "t_ns (cp_wall start) \<le> t_ns (cp_wall p)" "t_ns (cp_wall p) < t_ns (cp_wall start) + d"
    "t_ns (cp_elapsed start) \<le> t_ns (cp_elapsed p)" "t_ns (cp_elapsed p) < t_ns (cp_elapsed start) + d"
proof -
  have a: "\<not> tBefore (cp_wall p) (cp_wall start)" "\<not> tBefore (cp_elapsed p) (cp_elapsed start)"
    "tSub (cp_wall p) (cp_wall start) < d" "tSub (cp_elapsed p) (cp_elapsed start) < d"
    using assms(1) by (auto simp: inventoryStateWindowReason_def split: if_splits)
  show "t_ns (cp_wall start) \<le> t_ns (cp_wall p)" "t_ns (cp_elapsed start) \<le> t_ns (cp_elapsed p)"
    using a(1,2) by (simp_all add: tBefore_def)
  show "t_ns (cp_wall p) < t_ns (cp_wall start) + d" "t_ns (cp_elapsed p) < t_ns (cp_elapsed start) + d"
    using a(3,4) assms(2,3) by (simp_all add: tSub_less)
qed

lemma capture_clocks: "capture high clk = (p, reason, high') \<Longrightarrow> t_ns (cp_wall p) = t_ns (fst clk) \<and> t_ns (cp_elapsed p) = t_ns (snd clk)"
  by (auto simp: capture_def Let_def round0_def)

text \<open>A usable completion of a good slot: the published verdict is the frozen one and keeps its report.\<close>

lemma usable_report:
  assumes "sampleOk limit retry t" "sampleCompleted t = Some r" "ic_Usable r"
  obtains obs n where "ic_Observation r = Some obs" "sb_TotalBytes obs = Some n" "n < limit"
    "t_ns (cp_wall (it_launch t)) \<le> t_ns (sb_SampleStartedAt obs)" "t_ns (sb_SampleStartedAt obs) \<le> t_ns (sb_SampleFinishedAt obs)"
    "t_ns (sb_SampleFinishedAt obs) \<le> t_ns (ic_CompletedWall r)"
proof -
  obtain q where q: "it_phase t = SDone q r" using assms(2) by (auto simp: sampleCompleted_def split: sample_phase.splits)
  then have "verdictOk limit t r" using assms(1,3) by (auto simp: sampleOk_def split: if_splits)
  then obtain obs where obs: "ic_Observation r = Some obs" "sb_Available obs" "sb_Status obs = ''below_limit''"
    "validInventoryStateObservation obs limit (cp_wall (it_launch t)) (ic_CompletedWall r)"
    using assms(3) by (auto simp: verdictOk_def)
  have "validAvailable obs limit" "validStateHeader obs limit (cp_wall (it_launch t)) (ic_CompletedWall r)"
    using obs(2,4) by (auto simp: validInventoryStateObservation_def)
  moreover from this(1) obtain n where "sb_TotalBytes obs = Some n" "n < limit"
    using obs(3) by (auto simp: validAvailable_def split: option.splits if_splits)
  ultimately show ?thesis using that obs(1)
    by (auto simp: validStateHeader_def tBefore_def tAfter_def)
qed

definition withinWindow :: "clockPair \<Rightarrow> gotime \<times> gotime \<Rightarrow> int \<Rightarrow> bool" where
  "withinWindow start clk d \<longleftrightarrow>
     t_ns (cp_wall start) \<le> t_ns (fst clk) \<and> t_ns (fst clk) < t_ns (cp_wall start) + d \<and>
     t_ns (cp_elapsed start) \<le> t_ns (snd clk) \<and> t_ns (snd clk) < t_ns (cp_elapsed start) + d"

text \<open>Property C18. A permit to read sources rests on a fresh report: in every run of the coordinator,
  when \<open>takeCompletion\<close> grants a permit, the completion carries a report whose total is below the limit
  of the scope, made between the launch of the sample and this moment, less than two seconds after the
  launch on the wall clock and on the elapsed clock, and less than two seconds after the reservation
  when the request has a receipt.\<close>

theorem state_permit_sound:
  assumes "state_run newInventoryStateCoordinator evs c"
    "takeCompletion c ctxNil causes request i clk now causes' = ((r, True), c')"
  shows "\<exists>t s obs n. co_ticket c = Some t \<and> co_scopes c (rq_scope request) = Some s \<and> ic_Observation r = Some obs \<and>
     sb_TotalBytes obs = Some n \<and> n < rs_limit s \<and> t_ns (cp_wall (it_launch t)) \<le> t_ns (sb_SampleStartedAt obs) \<and>
     t_ns (sb_SampleFinishedAt obs) \<le> t_ns (fst clk) \<and> withinWindow (it_launch t) clk inventoryStateSampleWindow \<and>
     (case rq_receipt request of None \<Rightarrow> True | Some q \<Rightarrow> withinWindow (ir_reserved q) clk claimWindow)"
  using assms(2)
proof (cases rule: takeCompletion_cases)
  case (permit t p high c2)
  have ok: "coordOk c" by (rule state_run_ok [OF assms(1) coordOk_new])
  obtain s where s: "co_scopes c (rq_scope request) = Some s" using slot_scope [OF ok permit(2)] permit(4) by auto
  have lim: "scopeLimit c (rq_scope (it_request t)) = rs_limit s" using s permit(4) by (simp add: scopeLimit_def)
  obtain obs n where obs: "ic_Observation r = Some obs" "sb_TotalBytes obs = Some n" "n < rs_limit s"
    "t_ns (cp_wall (it_launch t)) \<le> t_ns (sb_SampleStartedAt obs)" "t_ns (sb_SampleFinishedAt obs) \<le> t_ns (ic_CompletedWall r)"
    using usable_report [OF slot_ticket [OF ok permit(2)] permit(7,8)] lim by metis
  note clocks = capture_clocks [OF permit(9)]
  have w: "inventoryStateWindowReason (it_launch t) p inventoryStateSampleWindow = []"
    "\<And>q. rq_receipt request = Some q \<Longrightarrow> inventoryStateWindowReason (ir_reserved q) p claimWindow = []"
    using permit(4,12) by (auto simp: windowReason_def Let_def split: if_splits)
  have "withinWindow (it_launch t) clk inventoryStateSampleWindow"
    using windowReason_clear [OF w(1)] clocks by (simp add: withinWindow_def)
  moreover have "case rq_receipt request of None \<Rightarrow> True | Some q \<Rightarrow> withinWindow (ir_reserved q) clk claimWindow"
    using windowReason_clear [OF w(2)] clocks by (auto simp: withinWindow_def split: option.splits)
  ultimately show ?thesis using permit(2,10) s obs clocks by auto
qed auto

theorem state_permit_sound_witness: "\<exists>obs n. ic_Observation (fst (fst wxTake)) = Some obs \<and> sb_TotalBytes obs = Some n \<and> n < 2097152"
proof -
  obtain r where r: "wxTake = ((r, True), wx9)" using wx_take by blast
  have "co_scopes wx8 0 \<noteq> None" "rs_limit (the (co_scopes wx8 0)) = 2097152" by code_simp+
  moreover have "fst (fst wxTake) = r" using r by (metis fst_conv)
  ultimately show ?thesis
    using state_permit_sound [OF wx_run8 r [unfolded wxTake_def]] by (auto simp: wxRequest_def)
qed

section \<open>Failures and verdicts\<close>

lemma startWait_free:
  assumes "startWait c p \<le> 0"
  shows "t_ns (cp_wall (co_retry c)) \<le> t_ns (cp_wall p)" "t_ns (cp_elapsed (co_retry c)) \<le> t_ns (cp_elapsed p)"
  using assms unfolding startWait_def by (simp_all add: tSub_nonpos_iff)

text \<open>Property C20. Failed samples are five minutes apart and one sample is out at a time: in every run,
  when a sample is launched the one before it has been published, its number is smaller, and if it
  failed (its published reason is not empty) the new launch is at least five minutes after its launch
  on both clocks.\<close>

theorem sample_spacing:
  assumes "state_run newInventoryStateCoordinator evs c" "state_step c (Launch t') c'" "co_ticket c = Some t"
  shows "\<exists>r. sampleCompleted t = Some r \<and> it_ID t < it_ID t' \<and>
     (ic_Reason r \<noteq> [] \<longrightarrow>
        t_ns (cp_wall (it_launch t)) + inventoryStateRetryInterval \<le> t_ns (cp_wall (it_launch t')) \<and>
        t_ns (cp_elapsed (it_launch t)) + inventoryStateRetryInterval \<le> t_ns (cp_elapsed (it_launch t')))"
proof -
  have ok: "coordOk c" by (rule state_run_ok [OF assms(1) coordOk_new])
  obtain call deadline where call: "launchReady c call" "t' = launchedTicket c call deadline"
    using state_step_move [OF assms(2) ok] by (auto simp: eventMove_def launchMove_def)
  obtain r where r: "sampleCompleted t = Some r" using call(1) assms(3) by (auto simp: launchReady_def)
  have id: "it_ID t < it_ID t'" using ok assms(3) call(2) by (auto simp: coordOk_def slotOk_def launchedTicket_def)
  have "co_retry c = retryOf t" if "ic_Reason r \<noteq> []"
    using slot_ticket [OF ok assms(3)] r that
    by (auto simp: sampleOk_def sampleCompleted_def split: sample_phase.splits if_splits)
  moreover have "startWait c (sc_clocks call) \<le> 0" using call(1) by (simp add: launchReady_def)
  ultimately show ?thesis using r id call(2) startWait_free [of c "sc_clocks call"]
    by (auto simp: launchedTicket_def retryOf_def)
qed

theorem sample_spacing_witness: "t_ns (cp_wall (it_launch wxTicket)) + 300000000000 \<le> t_ns (cp_wall (it_launch wyTicket))"
proof -
  have t: "\<exists>t. co_ticket wy11 = Some t \<and> it_launch t = it_launch wxTicket \<and> (\<forall>r. sampleCompleted t = Some r \<longrightarrow> ic_Reason r \<noteq> [])"
  proof -
    have "co_ticket wy11 \<noteq> None" "it_launch (the (co_ticket wy11)) = it_launch wxTicket"
      "sampleCompleted (the (co_ticket wy11)) \<noteq> None" "ic_Reason (the (sampleCompleted (the (co_ticket wy11)))) \<noteq> []" by code_simp+
    then show ?thesis by auto
  qed
  then show ?thesis using sample_spacing [OF wy_run wy_steps(6)] by fastforce
qed

lemma goodReturn_run:
  assumes "state_run c evs c'" "coordOk c" "co_ticket c = Some t" "goodReturn t r"
  shows "\<exists>u. co_ticket c' = Some u \<and> (it_ID u = it_ID t \<and> goodReturn u r \<and> co_retry c' = co_retry c \<or> it_ID t < it_ID u)"
  using assms
proof (induction rule: state_run.induct)
  case (rest c)
  then show ?case by auto
next
  case (more c evs c' ev c'')
  then obtain u where u: "co_ticket c' = Some u"
    "it_ID u = it_ID t \<and> goodReturn u r \<and> co_retry c' = co_retry c \<or> it_ID t < it_ID u" by blast
  have ok: "coordOk c'" using state_run_ok more by blast
  have kept: ?case if "keepsSlot c' c''"
    using that u unfolding keepsSlot_def sameTicket_def by metis
  have launched: ?case if "launchMove c' v c''" for v
  proof -
    have "it_ID u < it_ID v" "co_ticket c'' = Some v"
      using that ok u(1) by (auto simp: launchMove_def launchedTicket_def coordOk_def slotOk_def)
    then show ?thesis using u(2) by auto
  qed
  from state_step_move [OF more.hyps(2) ok] show ?case
    by (cases ev) (auto simp: eventMove_def permitMove_def intro: kept launched)
qed

text \<open>Property C21. The verdict of a returned callback is final: once the callback of a sample has returned
  with nothing against its report and was not denied before, then however contexts end, clocks move,
  turns are abandoned or cancelled in the time until it is published, what is published is that same
  usable completion, and no retry is charged for it.\<close>

theorem verdict_frozen:
  assumes "state_run newInventoryStateCoordinator evs0 c" "co_ticket c = Some t" "it_phase t = SReturned r"
    "it_refusal t = []" "ic_Reason r = []" "state_run c evs c'" "co_ticket c' = Some u" "it_ID u = it_ID t"
    "sampleCompleted u = Some r'"
  shows "r' = r \<and> ic_Usable r' \<and> it_refusal u = [] \<and> co_retry c' = co_retry c"
proof -
  have ok: "coordOk c" by (rule state_run_ok [OF assms(1) coordOk_new])
  have "goodReturn t r" using assms(3-5) by (simp add: goodReturn_def ticketReturned_def)
  then have u: "goodReturn u r" "co_retry c' = co_retry c"
    using goodReturn_run [OF assms(6) ok assms(2)] assms(7,8) by auto
  have ok': "sampleOk (scopeLimit c' (rq_scope (it_request u))) (co_retry c') u"
    using slot_ticket [OF state_run_ok [OF assms(6) ok] assms(7)] .
  have "verdictOk (scopeLimit c (rq_scope (it_request t))) t r"
    using slot_ticket [OF ok assms(2)] assms(3) by (simp add: sampleOk_def)
  then have "ic_Usable r" using assms(5) by (simp add: verdictOk_def)
  moreover have "r' = r" using ok' u(1) assms(9)
    by (auto simp: sampleOk_def goodReturn_def sampleCompleted_def ticketReturned_def split: sample_phase.splits)
  ultimately show ?thesis using u by (simp add: goodReturn_def)
qed

theorem verdict_frozen_witness: "\<exists>u r. co_ticket wx8 = Some u \<and> sampleCompleted u = Some r \<and> ic_Usable r"
proof -
  have a: "co_ticket wx7 \<noteq> None" "it_refusal (the (co_ticket wx7)) = []" "it_phase (the (co_ticket wx7)) =
      SReturned (the (ticketReturned (the (co_ticket wx7))))" "ic_Reason (the (ticketReturned (the (co_ticket wx7)))) = []" by code_simp+
  have b: "co_ticket wx8 \<noteq> None" "it_ID (the (co_ticket wx8)) = it_ID (the (co_ticket wx7))"
    "sampleCompleted (the (co_ticket wx8)) \<noteq> None" by code_simp+
  obtain t u r' where t: "co_ticket wx7 = Some t" and u: "co_ticket wx8 = Some u" and r': "sampleCompleted u = Some r'"
    using a(1) b(1,3) by auto
  have "state_run wx7 ([] @ [Silent]) wx8" by (rule state_run.more [OF state_run.rest]) (rule wx_steps)
  from verdict_frozen [OF wx_run7 t _ _ _ this u _ r', of "the (ticketReturned t)"] show ?thesis
    using a b t u r' by auto
qed

section \<open>Polling a sample that is still out\<close>

text \<open>Property C40. Asking again while the turn's own sample is still out, with nothing against it, reports
  the reason \<open>inventory_state_invalid\<close>: the decision says pending, but keeps the reason it was made with
  for an invalid request, and the cached policy then shows that reason instead of
  \<open>inventory_state_pending\<close>.\<close>

theorem pending_poll_reports_invalid:
  assumes "validRequest c request" "co_ticket c = Some t" "it_request t = request" "ticketReturned t = None"
    "it_refusal t = []" "it_cause t = None" "capture (co_high c) clk = (p, [], high)" "windowReason t p now1 = []"
  shows "\<exists>d c'. startEligible c False None request clk now1 now2 deadline = (d, c') \<and> ad_SamplingState d = ''pending'' \<and>
     ad_Reason d = ''inventory_state_invalid'' \<and> si_reason (asyncDecision q d) = ''inventory_state_invalid''"
proof -
  let ?call = "\<lparr>sc_request = request, sc_clocks = p, sc_reason = [], sc_refused = False\<rparr>"
  let ?c1 = "c\<lparr>co_high := high, co_call := Some ?call\<rparr>"
  let ?c2 = "?c1\<lparr>co_call := Some (?call\<lparr>sc_refused := True\<rparr>)\<rparr>"
  have "startCapture c None request clk = (None, ?c1)"
    using assms(1,7) by (simp add: startCapture_def inventoryStateContextReason_def)
  moreover have "startRefuse ?c1 ?call now1 = ?c2"
    using assms(2,4-6,8) by (simp add: startRefuse_def pendingRefusal_def refuseSample_def inventoryStateContextReason_def)
  moreover have "startDecide ?c2 ?call now2 deadline = (ownTicketDecision (?c2\<lparr>co_call := None\<rparr>) t p, ?c2\<lparr>co_call := None\<rparr>)"
    using assms(2,3) by (simp add: startDecide_def Let_def)
  moreover have "ad_SamplingState (ownTicketDecision x t p) = ''pending'' \<and> ad_Reason (ownTicketDecision x t p) = ''inventory_state_invalid'' \<and>
      \<not> ad_Started (ownTicketDecision x t p)" for x
  proof -
    have "sampleCompleted t = None" using assms(4) by (auto simp: ticketReturned_def sampleCompleted_def split: sample_phase.splits)
    then show ?thesis using assms(4,5) by (simp add: ownTicketDecision_def refusedDecision_def Let_def)
  qed
  ultimately show ?thesis by (simp add: startEligible_def asyncDecision_def)
qed

theorem pending_poll_reports_invalid_witness:
  "si_reason (asyncDecision (newSourceState True 2097152)
     (fst (startEligible wx6 False None (wxRequest 1) (wxClk 20) (wxClk 20) (wxAt 20) (wxAt 2000000010)))) = ''inventory_state_invalid''"
proof -
  have a: "validRequest wx6 (wxRequest 1)" "co_ticket wx6 \<noteq> None" "it_request (the (co_ticket wx6)) = wxRequest 1"
    "ticketReturned (the (co_ticket wx6)) = None" "it_refusal (the (co_ticket wx6)) = []" "it_cause (the (co_ticket wx6)) = None"
    "fst (snd (capture (co_high wx6) (wxClk 20))) = []"
    "windowReason (the (co_ticket wx6)) (fst (capture (co_high wx6) (wxClk 20))) (wxClk 20) = []" by code_simp+
  then obtain t where t: "co_ticket wx6 = Some t" by auto
  have k: "capture (co_high wx6) (wxClk 20) = (fst (capture (co_high wx6) (wxClk 20)), [], snd (snd (capture (co_high wx6) (wxClk 20))))"
    using a(7) by (metis prod.collapse)
  from pending_poll_reports_invalid [OF a(1) t _ _ _ _ k, of "wxClk 20" "wxAt 20" "wxAt 2000000010" "newSourceState True 2097152"]
  show ?thesis using a t by auto
qed

end
