(* ===== verification/Spec2Isabelle.thy ===== *)
theory Spec2Isabelle
  imports CPU_Window_Guarantees CPU_Ledger_Guarantees Worker_Guarantees Power_Guarantees
    Metadata_Guarantees Metadata_Window_Guarantees API_Pacing_Guarantees
    Turn_Window_Guarantees Fair_Plan_Guarantees State_Guarantees
begin

text \<open>
  \<^bold>\<open>The resource governance of the rydd worker.\<close> Rydd keeps an inventory of a machine's directories with a
  background worker that has to stay unnoticed. This development models the parts of the program that
  hold the worker back: what it may spend in CPU time and in scanner calls, when it may start again,
  whether the machine runs on battery, how large the inventory's own database may grow, and which
  job or directory has the next turn. Each part keeps durable or live state, is asked by the
  worker loop before source work, and is told afterwards what the work cost.

  \<^bold>\<open>Parts and theories.\<close>
  \<^item> \<^emph>\<open>Prelude.\<close> \<open>Rydd_Prelude\<close>: \<open>int64\<close> arithmetic with its wrap-around, \<open>time.Time\<close> as an instant in
    nanoseconds, error values with \<open>errors.Join\<close> and \<open>errors.Is\<close>, the answers of one transaction.
    \<open>Ledger_Systems\<close>: the contracts the ledgers share, as locales (a step relation that keeps an
    invariant, a quantity no step decreases, a cell whose writer stores only what its reader accepts).
  \<^item> \<^emph>\<open>CPU windows,\<close> \<^verbatim>\<open>state/cpu_feedback.go\<close>. \<open>CPU_Feedback\<close> has the wait after a measured window, the record
    and its validity, \<open>CPU_Window\<close> the row and the operations \<open>BeginCPUWindow\<close>, \<open>SettleCPUWindow\<close> and
    \<open>RecoverCPUWindow\<close>; \<open>CPU_Window_Laws\<close> and \<open>CPU_Window_Guarantees\<close> show that the row stays readable,
    that a pending window is settled once with the exact deadline and that nothing starts before it.
  \<^item> \<^emph>\<open>CPU charges,\<close> \<^verbatim>\<open>state/cpu_charges.go\<close>, \<^verbatim>\<open>state/cpu_charge_admission.go\<close> and
    \<^verbatim>\<open>state/cpu_charge_admission_transitions.go\<close>. \<open>CPU_Charges\<close> and \<open>CPU_Admission\<close> are the two records with
    their pure transitions, \<open>CPU_Store\<close> and \<open>CPU_Limited\<close> the transactions before and after the admission
    record is activated, with the latch after an uncertain publication. The \<open>_Laws\<close> theories prove one
    lemma for each transition and collect them for the step relation \<open>ledger_step\<close>;
    \<open>CPU_Ledger_Guarantees\<close> states conservation, exact accounting, retries and the latch.
  \<^item> \<^emph>\<open>CPU policies of the worker,\<close> \<^verbatim>\<open>worker/cpu_clock.go\<close>, \<^verbatim>\<open>worker/cpu_feedback.go\<close>, \<^verbatim>\<open>worker/cpu_budget.go\<close>,
    \<^verbatim>\<open>worker/cpu_period_policy.go\<close> and \<^verbatim>\<open>worker/cpu_session_policy.go\<close>. \<open>Worker_Waits\<close> and \<open>Worker_Session\<close> model
    them over the ledger of the part before; \<open>Worker_Session_Laws\<close> proves the policy inside a locale
    over any ledger that charges samples, interpreted on the bare and on the limited operations.
    \<open>Worker_Tracking\<close> relates what the policy holds in memory to the store, stage by stage.
    \<open>Worker_Guarantees\<close> has the one-percent rule, what an admission implies, that a refusal is final, and
    that a policy holds the saved records, recovers before it begins and begins one session.
  \<^item> \<^emph>\<open>Power,\<close> \<^verbatim>\<open>powerinfo/power.go\<close> and \<^verbatim>\<open>worker/power_policy.go\<close>. \<open>Power_Observe\<close> is one observation over the
    source interface, \<open>Power_Policy\<close> the coordinator with its tickets, whose producer runs in another
    goroutine: \<open>power_step\<close> interleaves the phases of the producer with the worker and cancellation.
    \<open>Power_Guarantees\<close> compares the discharge witness with a reference reading and shows that evidence is
    valid, frozen, sampled once at a time and holds work back only for bounded time.
  \<^item> \<^emph>\<open>Scanner calls,\<close> \<^verbatim>\<open>state/metadata_budget.go\<close>, \<^verbatim>\<open>worker/metadata_window.go\<close> and \<^verbatim>\<open>worker/api_pacing.go\<close>.
    \<open>Metadata_Budget\<close> is the ledger of reservations, \<open>Metadata_Laws\<close> the closed form of what its
    validating read accepts, \<open>Metadata_Store_Laws\<close> the transactions and the step relation
    \<open>metadata_step\<close>. \<open>Metadata_Window\<close> is the permit window and the pacer. \<open>Metadata_Guarantees\<close> shows that the
    ledger stays readable and balanced and refunds nothing as long as reservations are made before
    \<open>metadataHorizon\<close>, the start of the last day that \<open>int64\<close> nanoseconds cover in full, and what a
    reservation on that day does; \<open>Metadata_Window_Guarantees\<close> shows that a window
    keeps within its reservation and settles it, \<open>API_Pacing_Guarantees\<close> that paced calls keep their rate
    and are answered.
  \<^item> \<^emph>\<open>Scheduling,\<close> \<^verbatim>\<open>state/dispatch.go\<close>, \<^verbatim>\<open>state/queue.go\<close>, \<^verbatim>\<open>state/fair_inventory.go\<close> and
    \<^verbatim>\<open>worker/fair_inventory.go\<close>. \<open>Go_Text\<close>, \<open>Go_Dates\<close> and \<open>Go_Paths\<close> are the decimals, civil dates and slash
    paths of Go's library that this code prints, parses and compares. \<open>Sched_Store\<close> has the tables and
    the requests of an operation to the database, numbered in the order the code makes them, so that
    any of them may fail; \<open>Scan_Dispatch\<close> is the cadence of chunks and its day limit, \<open>Job_Queue\<close> the jobs
    with their leases, \<open>Fair_Turns\<close> the rotation over roots, \<open>Fair_Plan\<close> the worker's plan of a turn. The
    \<open>_Guarantees\<close> theories show that reservations keep their distance and their day limit, that a lease
    is exclusive and spent once, that no root starves and that the planned turn is the one claimed.
    \<open>Turn_Window_Guarantees\<close> spans the parts: a claimed turn's receipt is accepted by the CPU window.
  \<^item> \<^emph>\<open>Inventory state size,\<close> \<^verbatim>\<open>state/state_budget.go\<close>, \<^verbatim>\<open>state/state_budget_sampler.go\<close>,
    \<^verbatim>\<open>worker/state_budget_policy.go\<close>, \<^verbatim>\<open>worker/state_budget_async.go\<close> and
    \<^verbatim>\<open>worker/inventory_state_intent.go\<close>. \<open>State_Budget\<close> is one observation over two rounds of \<open>lstat\<close>,
    \<open>State_Policy\<close> the cached decision, \<open>State_Coordinator\<close> the sample that runs in another goroutine:
    scopes and intents are entries of heap maps, the phases of the goroutine are \<open>SLaunched\<close>, \<open>SEntered\<close>,
    \<open>SReturned\<close> and \<open>SDone\<close>, and \<open>startEligible\<close>, which gives up the clock mutex twice, is three steps.
    \<open>State_Turns\<close> is the worker's turn that waits for the sample. Permits and samples are labels of the
    step relation; \<open>State_Run_Laws\<close> and \<open>State_Guarantees\<close> show by induction over labelled runs that a
    permit rests on a fresh report, is given once and in order, that failed samples are spaced, and
    that the verdict of a returned callback is final.

  \<^bold>\<open>How the code corresponds.\<close> A struct is a record with the fields of the source, an enum of strings a
  datatype or the strings themselves, an operation a function from the store and the arguments to
  the result and the store. Integers are \<open>int\<close> with \<open>add64\<close>, \<open>sub64\<close> and \<open>mul64\<close> where the code computes,
  so that every overflow guard is a guard of the model. Every early return is a branch. SQLite
  serializes the transactions of one connection, so an operation is one step on the database, and
  what the context and the driver answer is an argument, commits that report an error and take
  effect all the same included. Goroutines and mutexes become steps at the granularity of the lock.

  \<^bold>\<open>Abstractions.\<close> A JSON payload is the record its canonical encoding decodes to, with a constructor for a
  payload that is not canonical. A SHA-256 identity is a parameter, one function for each
  kind of value that is named, and no theorem supposes anything of it. In the ledgers a printed UTC
  day is its day number; the scheduling theories print and parse it. SQLite's row ids, its dynamic
  typing of a verdict and \<open>sql.ErrNoRows\<close> are part of the store. Wall and elapsed clock readings are
  arguments: the theorems hold for any readings, rollbacks included. There is no fuel: loops are
  structural recursion over rows, supplies, windows or the rounds of a wait, the search for the next
  root has the distance to the end as its measure, and the theorem that a paced call is answered is
  about every sequence of rounds.

  \<^bold>\<open>Not modelled.\<close> The worker loop and the control socket, which call these policies; the inventory
  tables and the report queries, whose logic is SQL text over many tables; the scanner, the platform
  readers and every other system call; the command line, packaging and the experiments. Of the
  modelled files, formatting of messages, test hooks that are nil in production and the defensive
  copies of values that are immutable in the model are left out.
\<close>

end
